(* ===== verification/Prelude.thy ===== *)
theory Prelude
  imports Complex_Main "HOL-Library.AList" "HOL-Library.List_Lexorder" "HOL-Library.Char_ord"
begin

text \<open>
  Shared vocabulary of the development: the error values the TypeScript code throws, the
  JavaScript numbers its validators inspect, identifiers and times, and the generic lemmas on
  lists and on updated tables that the component theories use.
  \<^item> A \<open>DomainError\<close> of the source is a value of \<open>domain_error\<close> that carries its \<open>code\<close>
    (the Chinese message texts are not modelled); a function that may throw returns
    \<open>domain_error + 'a\<close>.
  \<^item> Identifiers are strings. The ISO-8601 UTC timestamps of the source all come from
    \<open>toISOString\<close>, whose fixed width makes the string order the order of the instants; they are
    milliseconds since the epoch here (\<open>time\<close>).
  \<^item> \<open>Array.prototype.sort\<close> is stable; it is \<open>sort_key\<close> when the comparator is a key order.
  \<^item> Arithmetic on JavaScript numbers is exact: \<open>int\<close> for the counters and instants, \<open>rat\<close> for
    percentages and scores. IEEE rounding is not modelled.
\<close>

named_theorems table_simps \<open>rewriting facts about rows, keys and updates of tables\<close>
named_theorems frame_simps \<open>which tables and fields an operation leaves alone\<close>

type_synonym ident = string
type_synonym time = int

datatype domain_error =
    DomainError string
  | PlainError string
  | ConstraintError string

fun error_code :: "domain_error \<Rightarrow> string" where
  "error_code (DomainError c) = c"
| "error_code (PlainError c) = c"
| "error_code (ConstraintError c) = c"

subsection \<open>JavaScript numbers\<close>

datatype js_number = JNum rat | JNaN | JInf | JNegInf

fun js_is_integer :: "js_number \<Rightarrow> bool" where
  "js_is_integer (JNum q) = (of_int \<lfloor>q\<rfloor> = q)"
| "js_is_integer _ = False"

fun js_less :: "js_number \<Rightarrow> js_number \<Rightarrow> bool" where
  "js_less JNaN _ = False"
| "js_less _ JNaN = False"
| "js_less _ JNegInf = False"
| "js_less JNegInf _ = True"
| "js_less JInf _ = False"
| "js_less _ JInf = True"
| "js_less (JNum a) (JNum b) = (a < b)"

definition js_int :: "int \<Rightarrow> js_number" where
  "js_int n = JNum (of_int n)"

lemma js_int_is_integer [simp]: "js_is_integer (js_int n)"
  by (simp add: js_int_def)

lemma js_int_less [simp]: "js_less (js_int a) (js_int b) \<longleftrightarrow> a < b"
  by (simp add: js_int_def)

text \<open>\<open>Math.round\<close> rounds half up; percentages of the source are \<open>Math.round (a / b * 100)\<close>.\<close>

definition js_round :: "rat \<Rightarrow> int" where
  "js_round q = \<lfloor>q + 1 / 2\<rfloor>"

definition percent_of :: "int \<Rightarrow> int \<Rightarrow> int" where
  "percent_of part whole = js_round (of_int part / of_int whole * 100)"

lemma js_round_mono: "a \<le> b \<Longrightarrow> js_round a \<le> js_round b"
  by (simp add: js_round_def floor_mono)

lemma js_round_of_int [simp]: "js_round (of_int n) = n"
proof -
  have "\<lfloor>of_int n + (1::rat) / 2\<rfloor> = n"
    by (simp add: floor_eq_iff)
  then show ?thesis by (simp add: js_round_def)
qed

lemma js_round_0 [simp]: "js_round 0 = 0"
  using js_round_of_int [of 0] by simp

lemma js_round_100 [simp]: "js_round 100 = 100"
  using js_round_of_int [of 100] by simp

lemma percent_of_bounds:
  assumes "0 \<le> part" "part \<le> whole" "0 < whole"
  shows "0 \<le> percent_of part whole \<and> percent_of part whole \<le> 100"
proof -
  have "0 \<le> (of_int part / of_int whole * 100 :: rat)"
    using assms by simp
  moreover have "(of_int part / of_int whole :: rat) \<le> 1"
    using assms by (simp add: divide_le_eq_1)
  then have "(of_int part / of_int whole * 100 :: rat) \<le> 1 * 100"
    by (intro mult_right_mono) auto
  then have "(of_int part / of_int whole * 100 :: rat) \<le> 100"
    by (simp only: mult_1)
  ultimately show ?thesis
    using js_round_mono [of 0 "of_int part / of_int whole * 100"]
      js_round_mono [of "of_int part / of_int whole * 100" 100]
    by (simp add: percent_of_def)
qed

lemma percent_of_eq_100:
  assumes "0 < whole"
  shows "percent_of whole whole = 100"
  using assms by (simp add: percent_of_def)

subsection \<open>ASCII case mapping\<close>

definition upper_char :: "char \<Rightarrow> char" where
  "upper_char c =
     (let n = (of_char c :: nat) in if 97 \<le> n \<and> n \<le> 122 then char_of (n - 32) else c)"

definition lower_char :: "char \<Rightarrow> char" where
  "lower_char c =
     (let n = (of_char c :: nat) in if 65 \<le> n \<and> n \<le> 90 then char_of (n + 32) else c)"

definition to_upper :: "string \<Rightarrow> string" where
  "to_upper s = map upper_char s"

definition to_lower :: "string \<Rightarrow> string" where
  "to_lower s = map lower_char s"

subsection \<open>Lists\<close>

text \<open>\<open>[...new Set(xs)]\<close> keeps the first occurrence of each element, in order.\<close>

fun dedup :: "'a list \<Rightarrow> 'a list" where
  "dedup [] = []"
| "dedup (x # xs) = x # filter (\<lambda>y. y \<noteq> x) (dedup xs)"

lemma set_dedup [simp]: "set (dedup xs) = set xs"
  by (induction xs) auto

lemma distinct_dedup [simp]: "distinct (dedup xs)"
  by (induction xs) auto

lemma dedup_id: "distinct xs \<Longrightarrow> dedup xs = xs"
proof (induction xs)
  case Nil
  then show ?case by simp
next
  case (Cons x xs)
  then have "filter (\<lambda>y. y \<noteq> x) xs = xs"
    by (auto intro: filter_True)
  with Cons show ?case by simp
qed

lemma length_dedup_le: "length (dedup xs) \<le> length xs"
proof (induction xs)
  case Nil
  then show ?case by simp
next
  case (Cons x xs)
  have "length (filter (\<lambda>y. y \<noteq> x) (dedup xs)) \<le> length (dedup xs)"
    by simp
  with Cons show ?case by (simp del: length_filter_le)
qed

lemma length_filter_map_le:
  "(\<And>x. P (f x) \<Longrightarrow> Q x) \<Longrightarrow> length (filter P (map f xs)) \<le> length (filter Q xs)"
  by (induction xs) auto

lemma find_SomeD: "find P xs = Some x \<Longrightarrow> x \<in> set xs \<and> P x"
  by (induction xs) (auto split: if_splits)

lemma find_NoneD: "find P xs = None \<Longrightarrow> x \<in> set xs \<Longrightarrow> \<not> P x"
  by (induction xs) (auto split: if_splits)

lemma find_is_Some: "x \<in> set xs \<Longrightarrow> P x \<Longrightarrow> \<exists>y. find P xs = Some y"
  by (induction xs) auto

lemma distinct_map_eqD:
  "distinct (map f xs) \<Longrightarrow> x \<in> set xs \<Longrightarrow> y \<in> set xs \<Longrightarrow> f x = f y \<Longrightarrow> x = y"
  by (auto simp: distinct_map inj_on_def)

text \<open>A primary-key lookup finds the row of that key.\<close>

lemma find_key:
  assumes "distinct (map key xs)" "x \<in> set xs" "key x = k"
  shows "find (\<lambda>y. key y = k) xs = Some x"
proof -
  obtain y where y: "find (\<lambda>y. key y = k) xs = Some y"
    using assms(2,3) find_is_Some [of x xs "\<lambda>y. key y = k"] by auto
  then have "y \<in> set xs" "key y = k" by (auto dest: find_SomeD)
  with assms have "y = x" by (auto intro: distinct_map_eqD)
  with y show ?thesis by simp
qed

subsection \<open>Tables\<close>

text \<open>
  A table is the list of its rows in insertion order. \<open>update_where\<close> is
  \<open>UPDATE ... SET ... WHERE\<close>, \<open>count_where\<close> the number of rows it changes.
\<close>

definition update_where :: "('r \<Rightarrow> bool) \<Rightarrow> ('r \<Rightarrow> 'r) \<Rightarrow> 'r list \<Rightarrow> 'r list" where
  "update_where P f rows = map (\<lambda>r. if P r then f r else r) rows"

definition count_where :: "('r \<Rightarrow> bool) \<Rightarrow> 'r list \<Rightarrow> nat" where
  "count_where P rows = length (filter P rows)"

text \<open>\<open>ORDER BY key DESC LIMIT 1\<close>: the first row in table order that no row exceeds.\<close>

fun latest_by :: "('r \<Rightarrow> 'k::linorder) \<Rightarrow> 'r list \<Rightarrow> 'r option" where
  "latest_by k [] = None"
| "latest_by k (r # rs) =
     (case latest_by k rs of
        None \<Rightarrow> Some r
      | Some r' \<Rightarrow> if k r < k r' then Some r' else Some r)"

lemma latest_by_None [simp]: "latest_by k rs = None \<longleftrightarrow> rs = []"
  by (cases rs) (auto split: option.splits)

lemma latest_by_SomeD: "latest_by k rs = Some r \<Longrightarrow> r \<in> set rs \<and> (\<forall>x\<in>set rs. k x \<le> k r)"
proof (induction rs arbitrary: r)
  case Nil
  then show ?case by simp
next
  case (Cons a rs)
  show ?case
  proof (cases "latest_by k rs")
    case None
    with Cons.prems show ?thesis by simp
  next
    case (Some r')
    with Cons.IH [OF Some] Cons.prems show ?thesis
      by (fastforce split: if_splits)
  qed
qed

lemma latest_by_singleton [simp]: "latest_by k [r] = Some r"
  by simp

lemma set_update_where [table_simps]:
  "set (update_where P f rows) = (\<lambda>r. if P r then f r else r) ` set rows"
  by (simp add: update_where_def)

lemma update_where_Nil [simp]: "update_where P f [] = []"
  by (simp add: update_where_def)

lemma update_where_Cons [simp]:
  "update_where P f (r # rows) = (if P r then f r else r) # update_where P f rows"
  by (simp add: update_where_def)

lemma length_update_where [simp]: "length (update_where P f rows) = length rows"
  by (simp add: update_where_def)

lemma map_key_update_where:
  "(\<And>r. P r \<Longrightarrow> key (f r) = key r) \<Longrightarrow> map key (update_where P f rows) = map key rows"
  by (simp add: update_where_def)

lemma update_where_none: "(\<And>r. r \<in> set rows \<Longrightarrow> \<not> P r) \<Longrightarrow> update_where P f rows = rows"
  by (simp add: update_where_def map_idI)

lemma in_update_whereE:
  assumes "x \<in> set (update_where P f rows)"
  obtains r where "r \<in> set rows" "x = (if P r then f r else r)"
  using assms by (auto simp: table_simps)

lemma update_where_memI:
  "r \<in> set rows \<Longrightarrow> (if P r then f r else r) \<in> set (update_where P f rows)"
  by (auto simp: table_simps)

lemma update_where_cases:
  assumes "x \<in> set (update_where P f rows)"
  obtains (same) "x \<in> set rows" "\<not> P x" | (changed) r where "r \<in> set rows" "P r" "x = f r"
  using assms by (auto simp: table_simps split: if_splits)

lemma update_where_keep: "r \<in> set rows \<Longrightarrow> \<not> P r \<Longrightarrow> r \<in> set (update_where P f rows)"
  by (auto simp: table_simps image_iff intro!: bexI [of _ r])

lemma update_where_change: "r \<in> set rows \<Longrightarrow> P r \<Longrightarrow> f r \<in> set (update_where P f rows)"
  by (auto simp: table_simps image_iff intro!: bexI [of _ r])

lemma update_where_kept:
  "x \<in> set (update_where P f rows) \<Longrightarrow> (\<And>r. r \<in> set rows \<Longrightarrow> P r \<Longrightarrow> x \<noteq> f r) \<Longrightarrow>
     x \<in> set rows \<and> \<not> P x"
  by (erule update_where_cases) auto

lemma ball_update_where:
  "(\<forall>x\<in>set (update_where P f rows). Q x) \<longleftrightarrow> (\<forall>r\<in>set rows. Q (if P r then f r else r))"
  by (auto simp: table_simps)

lemma bex_update_where:
  "(\<exists>x\<in>set (update_where P f rows). Q x) \<longleftrightarrow> (\<exists>r\<in>set rows. Q (if P r then f r else r))"
  by (auto simp: table_simps)

lemma count_where_0 [simp]: "count_where P rows = 0 \<longleftrightarrow> (\<forall>r\<in>set rows. \<not> P r)"
  by (auto simp: count_where_def filter_empty_conv)

lemma count_where_le: "count_where P rows \<le> length rows"
  by (simp add: count_where_def)

lemma count_where_key:
  assumes "distinct (map key rows)" "r \<in> set rows" "P r"
    and "\<And>x. P x \<Longrightarrow> key x = key r"
  shows "count_where P rows = 1"
proof -
  have "filter P rows = filter (\<lambda>x. x = r) rows"
    using assms by (intro filter_cong) (auto intro: distinct_map_eqD)
  moreover have "distinct rows"
    using assms(1) by (simp add: distinct_map)
  ultimately show ?thesis
    using assms(2) by (simp add: count_where_def distinct_length_filter)
qed

subsection \<open>Sequencing, inserts and transactions\<close>

text \<open>
  \<open>and_then\<close> runs the rest of a body unless a step threw. \<open>insert_row\<close> is an \<open>INSERT\<close> into a
  table with a unique key: a second row with the key is a constraint error. \<open>transaction\<close> commits
  the state of a body that returns and rolls back the state of one that throws.
\<close>

definition and_then :: "'e + 'a \<Rightarrow> ('a \<Rightarrow> 'e + 'b) \<Rightarrow> 'e + 'b" where
  "and_then r f = (case r of Inl e \<Rightarrow> Inl e | Inr a \<Rightarrow> f a)"

definition insert_row :: "('r \<Rightarrow> 'k) \<Rightarrow> 'r \<Rightarrow> 'r list \<Rightarrow> domain_error + 'r list" where
  "insert_row key r rows =
     (if key r \<in> key ` set rows then Inl (ConstraintError ''UNIQUE'') else Inr (rows @ [r]))"

definition transaction ::
  "('s \<Rightarrow> domain_error + ('a \<times> 's)) \<Rightarrow> 's \<Rightarrow> (domain_error + 'a) \<times> 's" where
  "transaction body s =
     (case body s of Inl e \<Rightarrow> (Inl e, s) | Inr (v, s') \<Rightarrow> (Inr v, s'))"

definition found :: "string \<Rightarrow> 'a option \<Rightarrow> domain_error + 'a" where
  "found code v = (case v of None \<Rightarrow> Inl (DomainError code) | Some x \<Rightarrow> Inr x)"

lemma and_then_Inr [simp]: "and_then (Inr a) f = f a"
  by (simp add: and_then_def)

lemma and_then_Inl [simp]: "and_then (Inl e) f = Inl e"
  by (simp add: and_then_def)

lemma and_then_eq_Inr: "and_then r f = Inr b \<longleftrightarrow> (\<exists>a. r = Inr a \<and> f a = Inr b)"
  by (cases r) auto

lemma and_then_eq_Inl: "and_then r f = Inl e \<longleftrightarrow> r = Inl e \<or> (\<exists>a. r = Inr a \<and> f a = Inl e)"
  by (cases r) auto

lemma insert_row_Inr:
  "insert_row key r rows = Inr rows' \<longleftrightarrow> key r \<notin> key ` set rows \<and> rows' = rows @ [r]"
  by (auto simp: insert_row_def)

lemma found_Some [simp]: "found code (Some x) = Inr x"
  by (simp add: found_def)

lemma found_None [simp]: "found code None = Inl (DomainError code)"
  by (simp add: found_def)

lemma found_eq_Inr: "found code v = Inr x \<longleftrightarrow> v = Some x"
  by (cases v) auto

lemma transaction_Inr: "transaction body s = (Inr v, s') \<longleftrightarrow> body s = Inr (v, s')"
  by (auto simp: transaction_def split: sum.splits)

lemma transaction_Inl: "transaction body s = (Inl e, s') \<longleftrightarrow> body s = Inl e \<and> s' = s"
  by (auto simp: transaction_def split: sum.splits)

text \<open>A string that JavaScript takes for true.\<close>

definition nonempty :: "string option \<Rightarrow> string option" where
  "nonempty v = (case v of None \<Rightarrow> None | Some x \<Rightarrow> if x = '''' then None else Some x)"

text \<open>A primary-key lookup after an update or an insert.\<close>

definition row_by :: "('r \<Rightarrow> 'k) \<Rightarrow> 'k \<Rightarrow> 'r list \<Rightarrow> 'r option" where
  "row_by key k rows = find (\<lambda>r. key r = k) rows"

lemma row_by_Nil [simp]: "row_by key k [] = None"
  by (simp add: row_by_def)

lemma row_by_SomeD: "row_by key k rows = Some r \<Longrightarrow> r \<in> set rows \<and> key r = k"
  unfolding row_by_def by (drule find_SomeD) auto

lemma row_by_None: "row_by key k rows = None \<longleftrightarrow> k \<notin> key ` set rows"
  by (auto simp: row_by_def find_None_iff)

lemma row_by_member: "distinct (map key rows) \<Longrightarrow> r \<in> set rows \<Longrightarrow> row_by key (key r) rows = Some r"
  unfolding row_by_def by (rule find_key) auto

lemma row_by_eq_Some:
  assumes "distinct (map key rows)"
  shows "row_by key k rows = Some r \<longleftrightarrow> r \<in> set rows \<and> key r = k"
  using row_by_member [OF assms] row_by_SomeD by metis

lemma row_by_update:
  assumes "\<And>r. P r \<Longrightarrow> key (f r) = key r"
  shows "row_by key k (update_where P f rows) =
    map_option (\<lambda>r. if P r then f r else r) (row_by key k rows)"
  by (induction rows) (auto simp: row_by_def assms)

lemma row_by_append:
  "row_by key k (rows @ [r]) =
     (case row_by key k rows of None \<Rightarrow> if key r = k then Some r else None | Some x \<Rightarrow> Some x)"
  by (induction rows) (auto simp: row_by_def)

lemma row_by_insert:
  assumes "insert_row key r rows = Inr rows'"
  shows "row_by key k rows' = (if key r = k then Some r else row_by key k rows)"
  using assms row_by_None [of key k rows]
  by (auto simp: insert_row_Inr row_by_append split: option.splits)

end
