(* ===== verification/Attempt_Result.thy ===== *)
theory Attempt_Result
  imports Prelude
begin

text \<open>
  Classification of finished attempts: \<open>packages/domain/src/attempt-result.ts\<close>. Result codes are
  an open set of strings; only the listed ones count as a normal end of a test run, everything
  else is blocked, and a closed list of runner faults may be rescheduled outside the retry limit.
\<close>

datatype attempt_outcome = Succeeded | Failed | Timed_Out | Cancelled

datatype attempt_result_category = Category_Succeeded | Category_Failed | Category_Blocked

record classifiable_attempt_result =
  cls_outcome :: attempt_outcome
  cls_result_code :: "string option"

definition ADAPTER_SUCCESS_RESULT_CODES :: "string list" where
  "ADAPTER_SUCCESS_RESULT_CODES =
     [''TESTNG_SUCCEEDED'', ''TESTNG_SUCCEEDED_WITH_SKIPS'', ''TESTNG_ALL_SKIPPED'', ''PASSED'']"

definition ADAPTER_FAILURE_RESULT_CODES :: "string list" where
  "ADAPTER_FAILURE_RESULT_CODES =
     [''TESTNG_ASSERTIONS_FAILED'', ''TESTNG_CONFIGURATION_FAILED'', ''TESTNG_SKIPPED'',
      ''TEST_ASSERTION_FAILED'']"

definition RETRYABLE_RUNNER_FAILURE_RESULT_CODES :: "string list" where
  "RETRYABLE_RUNNER_FAILURE_RESULT_CODES =
     [''AGENT_RESTARTED_DURING_EXECUTION'', ''ARTIFACT_ID_FAILED'',
      ''ARTIFACT_SPOOL_QUOTA_EXCEEDED'', ''ARTIFACT_SPOOL_WRITE_FAILED'',
      ''ASSIGNMENT_CLAIM_TIMEOUT'', ''EXECUTION_SECRET_ACQUISITION_FAILED'', ''LEASE_EXPIRED'',
      ''LOG_SPOOL_QUOTA_EXCEEDED'', ''LOG_SPOOL_WRITE_FAILED'', ''LOG_UPLOAD_FAILED'',
      ''PROCESS_START_FAILED'', ''REQUIRED_ARTIFACT_UPLOAD_FAILED'',
      ''RESOURCE_ISOLATION_UNAVAILABLE'', ''RESOURCE_MONITOR_FAILED'',
      ''RESULT_SPOOL_WRITE_FAILED'', ''UPLOAD_TIMEOUT'', ''WORKSPACE_DISK_INSUFFICIENT'']"

definition MAX_RUNNER_FAILURE_RESCHEDULES :: int where
  "MAX_RUNNER_FAILURE_RESCHEDULES = 2"

text \<open>\<open>resultCode ?? ""\<close>.\<close>

definition code_or_empty :: "string option \<Rightarrow> string" where
  "code_or_empty c = (case c of None \<Rightarrow> '''' | Some s \<Rightarrow> s)"

definition isRetryableRunnerFailure :: "string option \<Rightarrow> bool" where
  "isRetryableRunnerFailure c \<longleftrightarrow> code_or_empty c \<in> set RETRYABLE_RUNNER_FAILURE_RESULT_CODES"

fun classifyAttemptResult :: "classifiable_attempt_result \<Rightarrow> attempt_result_category" where
  "classifyAttemptResult r =
     (case cls_outcome r of
        Succeeded \<Rightarrow> Category_Succeeded
      | Failed \<Rightarrow>
          (if code_or_empty (cls_result_code r) \<in> set ADAPTER_FAILURE_RESULT_CODES
             then Category_Failed
           else if code_or_empty (cls_result_code r) \<in> set ADAPTER_SUCCESS_RESULT_CODES
             then Category_Succeeded
           else Category_Blocked)
      | _ \<Rightarrow> Category_Blocked)"

lemmas result_code_defs =
  ADAPTER_SUCCESS_RESULT_CODES_def ADAPTER_FAILURE_RESULT_CODES_def
  RETRYABLE_RUNNER_FAILURE_RESULT_CODES_def code_or_empty_def isRetryableRunnerFailure_def

lemma not_retryable_None [simp]: "\<not> isRetryableRunnerFailure None"
  by (simp add: result_code_defs)

lemma adapter_codes_disjoint:
  "set ADAPTER_SUCCESS_RESULT_CODES \<inter> set ADAPTER_FAILURE_RESULT_CODES = {}"
  by (simp add: result_code_defs)

lemma retryable_codes_disjoint:
  "set RETRYABLE_RUNNER_FAILURE_RESULT_CODES \<inter>
     (set ADAPTER_SUCCESS_RESULT_CODES \<union> set ADAPTER_FAILURE_RESULT_CODES) = {}"
  by (simp add: result_code_defs)

text \<open>A rescheduled runner fault is never a verdict on the test: it always classifies as blocked.\<close>

lemma retryable_failure_is_blocked:
  assumes "isRetryableRunnerFailure c"
  shows "classifyAttemptResult \<lparr>cls_outcome = Failed, cls_result_code = c\<rparr> = Category_Blocked"
  using assms retryable_codes_disjoint
  by (auto simp: isRetryableRunnerFailure_def)

lemma classify_blocked_iff:
  "classifyAttemptResult r = Category_Blocked \<longleftrightarrow>
     cls_outcome r \<in> {Timed_Out, Cancelled} \<or>
     (cls_outcome r = Failed \<and>
      code_or_empty (cls_result_code r) \<notin>
        set ADAPTER_SUCCESS_RESULT_CODES \<union> set ADAPTER_FAILURE_RESULT_CODES)"
  by (cases "cls_outcome r") auto

end
