(* ===== verification/Run_Types.thy ===== *)
theory Run_Types
  imports Attempt_Result
begin

text \<open>
  The data of executions: \<open>packages/domain/src/run-batch.ts\<close> (batches, runs, attempts, TestNG
  results, round summaries). A batch is one submission of a suite, a run is one test case in it,
  an attempt is one dispatch of a run to a runner. Optional properties are options.
\<close>

datatype batch_status =
  B_Queued | B_Dispatching | B_Scheduled | B_Running | B_Succeeded | B_Failed | B_Cancelled

datatype batch_kind = Standard | Final_Failure_Rerun | Case_Log_Rerun

datatype run_status = R_Queued | R_Assigned | R_Running | R_Succeeded | R_Failed | R_Cancelled

datatype attempt_status =
  T_Assigned | T_Running | T_Succeeded | T_Failed | T_Timed_Out | T_Cancelled

datatype retry_mode = Immediate | Round

datatype case_type = TestNg_Case | Ddt_Case

fun status_of_outcome :: "attempt_outcome \<Rightarrow> attempt_status" where
  "status_of_outcome Succeeded = T_Succeeded"
| "status_of_outcome Failed = T_Failed"
| "status_of_outcome Timed_Out = T_Timed_Out"
| "status_of_outcome Cancelled = T_Cancelled"

fun outcome_of_status :: "attempt_status \<Rightarrow> attempt_outcome option" where
  "outcome_of_status T_Succeeded = Some Succeeded"
| "outcome_of_status T_Failed = Some Failed"
| "outcome_of_status T_Timed_Out = Some Timed_Out"
| "outcome_of_status T_Cancelled = Some Cancelled"
| "outcome_of_status _ = None"

lemma outcome_of_status_of_outcome [simp]: "outcome_of_status (status_of_outcome oc) = Some oc"
  by (cases oc) auto

lemma outcome_of_status_Some: "outcome_of_status st = Some oc \<longleftrightarrow> st = status_of_outcome oc"
  by (cases st; cases oc) auto

subsection \<open>TestNG results\<close>

record test_ng_counts =
  tn_total :: int
  tn_passed :: int
  tn_failed :: int
  tn_skipped :: int
  tn_configuration_failures :: int

datatype test_ng_method_status = M_Passed | M_Failed | M_Skipped

record test_ng_method =
  tm_name :: string
  tm_signature :: "string option"
  tm_status :: test_ng_method_status
  tm_configuration :: bool
  tm_duration_ms :: int

record test_ng_class = test_ng_counts +
  tc_name :: string
  tc_duration_ms :: int
  tc_methods :: "test_ng_method list"

record test_ng_test = test_ng_counts +
  tt_name :: string
  tt_duration_ms :: int
  tt_classes :: "test_ng_class list"

record test_ng_suite = test_ng_counts +
  ts_name :: string
  ts_duration_ms :: int
  ts_tests :: "test_ng_test list"

record test_ng_details = test_ng_counts +
  td_details_truncated :: bool
  td_suites :: "test_ng_suite list"

subsection \<open>Policies, batches, runs and attempts\<close>

record retry_concurrency_rule =
  rule_id :: string
  rule_execution_round :: int
  rule_pass_rate_minimum :: "int option"
  rule_pass_rate_maximum :: "int option"
  rule_remaining_minimum :: "int option"
  rule_remaining_maximum :: "int option"
  rule_concurrency :: int

datatype executor_kind = TestNg | TestNg_Container

record batch_policy =
  bp_ai_analysis_after_completion :: "bool option"
  bp_ai_analysis_execution_id :: "string option"
  bp_executor :: executor_kind
  bp_concurrency :: int
  bp_project_version_id :: "string option"
  bp_runner_labels :: "string list"
  bp_artifact_patterns :: "string list"
  bp_retry_concurrency_rules :: "retry_concurrency_rule list option"

record run_batch =
  rb_id :: ident
  rb_project_id :: ident
  rb_suite_id :: string
  rb_kind :: "batch_kind option"
  rb_status :: batch_status
  rb_priority :: int
  rb_retry_limit :: int
  rb_retry_mode :: retry_mode
  rb_current_round :: int
  rb_selected_runner_ids :: "ident list"
  rb_policy :: "batch_policy option"
  rb_total_runs :: int
  rb_queued_runs :: int
  rb_assigned_runs :: int
  rb_running_runs :: int
  rb_succeeded_runs :: int
  rb_failed_runs :: int
  rb_timed_out_runs :: int
  rb_cancelled_runs :: int
  rb_termination_requested_at :: "time option"
  rb_pause_requested_at :: "time option"
  rb_scheduled_for :: time

record execution_run =
  er_id :: ident
  er_batch_id :: ident
  er_case_definition_id :: ident
  er_case_version :: int
  er_display_name :: string
  er_class_name :: string
  er_case_type :: "case_type option"
  er_ddt_sr_num :: "string option"
  er_status :: run_status
  er_assigned_runner_id :: "ident option"
  er_attempt_count :: int
  er_execution_round :: "int option"
  er_scheduling_score :: "rat option"
  er_terminal_outcome :: "attempt_outcome option"
  er_terminal_reason_code :: "string option"
  er_cancel_requested_at :: "time option"
  er_held_round :: "int option"
  er_version :: js_number
  er_created_at :: time
  er_assigned_at :: "time option"
  er_updated_at :: time

record run_attempt =
  ra_id :: ident
  ra_execution_run_id :: ident
  ra_runner_id :: ident
  ra_attempt_number :: int
  ra_execution_round :: "int option"
  ra_status :: attempt_status
  ra_scheduling_score :: rat
  ra_version :: js_number
  ra_started_at :: "time option"
  ra_finished_at :: "time option"
  ra_outcome :: "attempt_outcome option"
  ra_result_code :: "string option"
  ra_result_summary :: "string option"
  ra_duration_ms :: "int option"
  ra_test_ng :: "test_ng_details option"
  ra_created_at :: time

subsection \<open>Small predicates on batches\<close>

definition has_prefix :: "string \<Rightarrow> string \<Rightarrow> bool" where
  "has_prefix p s \<longleftrightarrow> take (length p) s = p"

definition has_suffix :: "string \<Rightarrow> string \<Rightarrow> bool" where
  "has_suffix p s \<longleftrightarrow> length p \<le> length s \<and> drop (length s - length p) s = p"

definition isManualCaseExecution :: "run_batch \<Rightarrow> bool" where
  "isManualCaseExecution b \<longleftrightarrow>
     rb_kind b = Some Case_Log_Rerun \<or>
     ((case rb_kind b of None \<Rightarrow> Standard | Some k \<Rightarrow> k) = Standard
      \<and> has_prefix ''single:'' (rb_suite_id b))"

definition artifactMediaType :: "string \<Rightarrow> string" where
  "artifactMediaType p =
     (if has_suffix ''.xml'' p then ''application/xml''
      else if has_suffix ''.json'' p then ''application/json''
      else if has_suffix ''.html'' p \<or> has_suffix ''.htm'' p then ''text/html''
      else if has_suffix ''.txt'' p \<or> has_suffix ''.log'' p then ''text/plain''
      else if has_suffix ''.png'' p then ''image/png''
      else if has_suffix ''.jpg'' p \<or> has_suffix ''.jpeg'' p then ''image/jpeg''
      else if has_suffix ''.zip'' p then ''application/zip''
      else ''application/octet-stream'')"

lemma has_suffix_append [simp]: "has_suffix p (s @ p)"
  by (simp add: has_suffix_def)

end
