(* ===== verification/Lifecycle.thy ===== *)
theory Lifecycle
  imports Run_Types
begin

text \<open>
  The lifecycle rules of \<open>packages/domain/src/execution.ts\<close>: five status machines given by
  transition tables, the invariants of stored runs and attempts, what a completion does to its
  run, and how a batch's status is aggregated from its runs. The machines share one contract,
  the locale \<open>status_machine\<close>; the machines without cycles extend it to \<open>ranked_machine\<close>.
\<close>

datatype assignment_status = A_Pending | A_Claimed | A_Running | A_Completed | A_Cancelled | A_Expired

datatype lease_status = L_Active | L_Released | L_Expired | L_Revoked

subsection \<open>Transition tables\<close>

fun assignmentTransitions :: "assignment_status \<Rightarrow> assignment_status list" where
  "assignmentTransitions A_Pending = [A_Claimed, A_Cancelled, A_Expired]"
| "assignmentTransitions A_Claimed = [A_Running, A_Completed, A_Cancelled, A_Expired]"
| "assignmentTransitions A_Running = [A_Completed, A_Cancelled, A_Expired]"
| "assignmentTransitions A_Completed = []"
| "assignmentTransitions A_Cancelled = []"
| "assignmentTransitions A_Expired = []"

fun runTransitions :: "run_status \<Rightarrow> run_status list" where
  "runTransitions R_Queued = [R_Assigned, R_Cancelled]"
| "runTransitions R_Assigned = [R_Queued, R_Running, R_Succeeded, R_Failed, R_Cancelled]"
| "runTransitions R_Running = [R_Queued, R_Succeeded, R_Failed, R_Cancelled]"
| "runTransitions R_Succeeded = []"
| "runTransitions R_Failed = []"
| "runTransitions R_Cancelled = []"

fun attemptTransitions :: "attempt_status \<Rightarrow> attempt_status list" where
  "attemptTransitions T_Assigned = [T_Running, T_Succeeded, T_Failed, T_Timed_Out, T_Cancelled]"
| "attemptTransitions T_Running = [T_Succeeded, T_Failed, T_Timed_Out, T_Cancelled]"
| "attemptTransitions T_Succeeded = []"
| "attemptTransitions T_Failed = []"
| "attemptTransitions T_Timed_Out = []"
| "attemptTransitions T_Cancelled = []"

fun leaseTransitions :: "lease_status \<Rightarrow> lease_status list" where
  "leaseTransitions L_Active = [L_Released, L_Expired, L_Revoked]"
| "leaseTransitions L_Released = []"
| "leaseTransitions L_Expired = []"
| "leaseTransitions L_Revoked = []"

fun batchTransitions :: "batch_status \<Rightarrow> batch_status list" where
  "batchTransitions B_Queued =
     [B_Dispatching, B_Scheduled, B_Running, B_Succeeded, B_Failed, B_Cancelled]"
| "batchTransitions B_Dispatching =
     [B_Queued, B_Scheduled, B_Running, B_Succeeded, B_Failed, B_Cancelled]"
| "batchTransitions B_Scheduled =
     [B_Queued, B_Dispatching, B_Running, B_Succeeded, B_Failed, B_Cancelled]"
| "batchTransitions B_Running =
     [B_Queued, B_Dispatching, B_Scheduled, B_Succeeded, B_Failed, B_Cancelled]"
| "batchTransitions B_Succeeded = []"
| "batchTransitions B_Failed = []"
| "batchTransitions B_Cancelled = []"

definition transitionState ::
  "string \<Rightarrow> ('s \<Rightarrow> 's list) \<Rightarrow> 's \<Rightarrow> 's \<Rightarrow> domain_error + 's" where
  "transitionState entity transitions current nxt =
     (if current = nxt then Inr current
      else if nxt \<notin> set (transitions current)
        then Inl (DomainError (entity @ ''_TRANSITION_INVALID''))
      else Inr nxt)"

text \<open>\<open>transitionAssignment\<close> repeats the body instead of calling \<open>transitionState\<close>.\<close>

definition transitionAssignment ::
  "assignment_status \<Rightarrow> assignment_status \<Rightarrow> domain_error + assignment_status" where
  "transitionAssignment current nxt =
     (if current = nxt then Inr current
      else if nxt \<notin> set (assignmentTransitions current)
        then Inl (DomainError ''ASSIGNMENT_TRANSITION_INVALID'')
      else Inr nxt)"

definition transitionExecutionRun :: "run_status \<Rightarrow> run_status \<Rightarrow> domain_error + run_status" where
  "transitionExecutionRun = transitionState ''EXECUTION_RUN'' runTransitions"

definition transitionRunAttempt ::
  "attempt_status \<Rightarrow> attempt_status \<Rightarrow> domain_error + attempt_status" where
  "transitionRunAttempt = transitionState ''RUN_ATTEMPT'' attemptTransitions"

definition transitionLease :: "lease_status \<Rightarrow> lease_status \<Rightarrow> domain_error + lease_status" where
  "transitionLease = transitionState ''LEASE'' leaseTransitions"

definition transitionRunBatch :: "batch_status \<Rightarrow> batch_status \<Rightarrow> domain_error + batch_status" where
  "transitionRunBatch = transitionState ''RUN_BATCH'' batchTransitions"

definition isTerminalRunStatus :: "run_status \<Rightarrow> bool" where
  "isTerminalRunStatus st \<longleftrightarrow> st = R_Succeeded \<or> st = R_Failed \<or> st = R_Cancelled"

definition isTerminalBatchStatus :: "batch_status \<Rightarrow> bool" where
  "isTerminalBatchStatus st \<longleftrightarrow> st = B_Succeeded \<or> st = B_Failed \<or> st = B_Cancelled"

definition isTerminalAttemptStatus :: "attempt_status \<Rightarrow> bool" where
  "isTerminalAttemptStatus st \<longleftrightarrow>
     st = T_Succeeded \<or> st = T_Failed \<or> st = T_Timed_Out \<or> st = T_Cancelled"

lemma terminal_run_simps [simp]:
  "\<not> isTerminalRunStatus R_Queued" "\<not> isTerminalRunStatus R_Assigned"
  "\<not> isTerminalRunStatus R_Running" "isTerminalRunStatus R_Succeeded"
  "isTerminalRunStatus R_Failed" "isTerminalRunStatus R_Cancelled"
  by (simp_all add: isTerminalRunStatus_def)

lemma terminal_batch_simps [simp]:
  "\<not> isTerminalBatchStatus B_Queued" "\<not> isTerminalBatchStatus B_Dispatching"
  "\<not> isTerminalBatchStatus B_Scheduled" "\<not> isTerminalBatchStatus B_Running"
  "isTerminalBatchStatus B_Succeeded" "isTerminalBatchStatus B_Failed"
  "isTerminalBatchStatus B_Cancelled"
  by (simp_all add: isTerminalBatchStatus_def)

lemma terminal_attempt_simps [simp]:
  "\<not> isTerminalAttemptStatus T_Assigned" "\<not> isTerminalAttemptStatus T_Running"
  "isTerminalAttemptStatus T_Succeeded" "isTerminalAttemptStatus T_Failed"
  "isTerminalAttemptStatus T_Timed_Out" "isTerminalAttemptStatus T_Cancelled"
  by (simp_all add: isTerminalAttemptStatus_def)

lemma terminal_status_of_outcome [simp]: "isTerminalAttemptStatus (status_of_outcome oc)"
  by (cases oc) auto

lemma terminal_attempt_outcome: "isTerminalAttemptStatus st \<longleftrightarrow> (\<exists>oc. st = status_of_outcome oc)"
proof
  assume "isTerminalAttemptStatus st"
  then have "outcome_of_status st \<noteq> None" by (cases st) auto
  then show "\<exists>oc. st = status_of_outcome oc" by (auto simp: outcome_of_status_Some)
qed auto

subsection \<open>The contract of a status machine\<close>

locale status_machine =
  fixes entity :: string
    and transitions :: "'s \<Rightarrow> 's list"
    and terminal :: "'s \<Rightarrow> bool"
    and move :: "'s \<Rightarrow> 's \<Rightarrow> domain_error + 's"
  assumes terminal_iff: "terminal s \<longleftrightarrow> transitions s = []"
    and irreflexive: "s \<notin> set (transitions s)"
    and move_eq: "move = transitionState entity transitions"
begin

lemma move_Inr: "move s t = Inr u \<longleftrightarrow> u = t \<and> (s = t \<or> t \<in> set (transitions s))"
  by (auto simp: move_eq transitionState_def)

lemma move_Inl:
  "move s t = Inl e \<longleftrightarrow>
     s \<noteq> t \<and> t \<notin> set (transitions s) \<and> e = DomainError (entity @ ''_TRANSITION_INVALID'')"
  by (auto simp: move_eq transitionState_def)

lemma move_refl: "move s s = Inr s"
  by (simp add: move_Inr)

lemma terminal_absorbing: "terminal s \<Longrightarrow> move s t = Inr u \<Longrightarrow> u = s"
  by (auto simp: move_Inr terminal_iff)

lemma terminal_rejects: "terminal s \<Longrightarrow> t \<noteq> s \<Longrightarrow> \<exists>e. move s t = Inl e"
  by (auto simp: move_Inl terminal_iff)

end

text \<open>
  A machine whose every real move raises a rank never returns to a status it left, and makes at
  most as many moves as the rank allows.
\<close>

locale ranked_machine = status_machine entity transitions terminal move
  for entity :: string
    and transitions :: "'s \<Rightarrow> 's list"
    and terminal :: "'s \<Rightarrow> bool"
    and move :: "'s \<Rightarrow> 's \<Rightarrow> domain_error + 's" +
  fixes rank :: "'s \<Rightarrow> nat" and top_rank :: nat
  assumes rank_increases: "t \<in> set (transitions s) \<Longrightarrow> rank s < rank t"
    and rank_bound: "rank s \<le> top_rank"
begin

lemma move_rank: "move s t = Inr u \<Longrightarrow> u \<noteq> s \<Longrightarrow> rank s < rank u"
  by (auto simp: move_Inr intro: rank_increases)

lemma chain_rank:
  assumes "successively (\<lambda>a b. b \<in> set (transitions a)) (s # ss)"
  shows "rank s + length ss \<le> rank (last (s # ss))"
  using assms
proof (induction ss arbitrary: s)
  case Nil
  then show ?case by simp
next
  case (Cons t ss)
  then have "t \<in> set (transitions s)" "rank t + length ss \<le> rank (last (t # ss))"
    by auto
  then show ?case using rank_increases [of t s] by auto
qed

lemma chain_length:
  assumes "successively (\<lambda>a b. b \<in> set (transitions a)) (s # ss)"
  shows "length ss \<le> top_rank"
  using chain_rank [OF assms] rank_bound [of "last (s # ss)"] by linarith

end

definition terminal_assignment :: "assignment_status \<Rightarrow> bool" where
  "terminal_assignment st \<longleftrightarrow> st \<in> {A_Completed, A_Cancelled, A_Expired}"

fun assignment_rank :: "assignment_status \<Rightarrow> nat" where
  "assignment_rank A_Pending = 0"
| "assignment_rank A_Claimed = 1"
| "assignment_rank A_Running = 2"
| "assignment_rank _ = 3"

fun attempt_rank :: "attempt_status \<Rightarrow> nat" where
  "attempt_rank T_Assigned = 0"
| "attempt_rank T_Running = 1"
| "attempt_rank _ = 2"

interpretation asg_machine:
  ranked_machine "''ASSIGNMENT''" assignmentTransitions terminal_assignment transitionAssignment
    assignment_rank 3
proof unfold_locales
  fix s t :: assignment_status
  show "terminal_assignment s \<longleftrightarrow> assignmentTransitions s = []"
    by (cases s) (auto simp: terminal_assignment_def)
  show "s \<notin> set (assignmentTransitions s)" by (cases s) auto
  show "transitionAssignment = transitionState ''ASSIGNMENT'' assignmentTransitions"
    by (intro ext) (simp add: transitionAssignment_def transitionState_def)
  show "assignment_rank s \<le> 3" by (cases s) auto
  show "assignment_rank s < assignment_rank t" if "t \<in> set (assignmentTransitions s)"
    using that by (cases s) auto
qed

interpretation run_machine:
  status_machine "''EXECUTION_RUN''" runTransitions isTerminalRunStatus transitionExecutionRun
proof unfold_locales
  fix s :: run_status
  show "isTerminalRunStatus s \<longleftrightarrow> runTransitions s = []" by (cases s) auto
  show "s \<notin> set (runTransitions s)" by (cases s) auto
qed (simp add: transitionExecutionRun_def)

interpretation att_machine:
  ranked_machine "''RUN_ATTEMPT''" attemptTransitions isTerminalAttemptStatus transitionRunAttempt
    attempt_rank 2
proof unfold_locales
  fix s t :: attempt_status
  show "isTerminalAttemptStatus s \<longleftrightarrow> attemptTransitions s = []" by (cases s) auto
  show "s \<notin> set (attemptTransitions s)" by (cases s) auto
  show "attempt_rank s \<le> 2" by (cases s) auto
  show "attempt_rank s < attempt_rank t" if "t \<in> set (attemptTransitions s)"
    using that by (cases s) auto
qed (simp add: transitionRunAttempt_def)

interpretation lease_machine:
  ranked_machine "''LEASE''" leaseTransitions "\<lambda>s. s \<noteq> L_Active" transitionLease
    "\<lambda>s. if s = L_Active then 0 else 1" 1
proof unfold_locales
  fix s t :: lease_status
  show "s \<noteq> L_Active \<longleftrightarrow> leaseTransitions s = []" by (cases s) auto
  show "s \<notin> set (leaseTransitions s)" by (cases s) auto
  show "(if s = L_Active then 0 else 1) < (if t = L_Active then 0 else (1::nat))"
    if "t \<in> set (leaseTransitions s)"
    using that by (cases s) auto
qed (simp_all add: transitionLease_def)

interpretation batch_machine:
  status_machine "''RUN_BATCH''" batchTransitions isTerminalBatchStatus transitionRunBatch
proof unfold_locales
  fix s :: batch_status
  show "isTerminalBatchStatus s \<longleftrightarrow> batchTransitions s = []" by (cases s) auto
  show "s \<notin> set (batchTransitions s)" by (cases s) auto
qed (simp add: transitionRunBatch_def)

text \<open>A batch that is not finished may move to every other status.\<close>

lemma transitionRunBatch_active: "\<not> isTerminalBatchStatus s \<Longrightarrow> transitionRunBatch s t = Inr t"
  by (cases s; cases t) (auto simp: batch_machine.move_Inr)

subsection \<open>Stored runs and attempts\<close>

definition require :: "bool \<Rightarrow> string \<Rightarrow> domain_error + unit" where
  "require ok code = (if ok then Inr () else Inl (DomainError code))"

fun checks :: "(domain_error + unit) list \<Rightarrow> domain_error + unit" where
  "checks [] = Inr ()"
| "checks (c # cs) = (case c of Inl e \<Rightarrow> Inl e | Inr _ \<Rightarrow> checks cs)"

lemma checks_Inr: "checks cs = Inr u \<longleftrightarrow> (\<forall>c\<in>set cs. c = Inr ())"
  by (induction cs) (auto split: sum.splits)

declare checks.simps [simp del]

lemma require_Inr [simp]: "require ok code = Inr u \<longleftrightarrow> ok"
  by (simp add: require_def)

text \<open>\<open>!Number.isInteger(version) || version < 1\<close> throws.\<close>

definition assertPositiveVersion :: "js_number \<Rightarrow> string \<Rightarrow> domain_error + unit" where
  "assertPositiveVersion version entity =
     require (\<not> (\<not> js_is_integer version \<or> js_less version (js_int 1)))
       (to_upper entity @ ''_VERSION_INVALID'')"

definition assertRunBatchVersion :: "js_number \<Rightarrow> domain_error + unit" where
  "assertRunBatchVersion version = assertPositiveVersion version ''RunBatch''"

definition assertExecutionRunInvariant :: "execution_run \<Rightarrow> domain_error + unit" where
  "assertExecutionRunInvariant run =
     (let terminal = isTerminalRunStatus (er_status run); oc = er_terminal_outcome run
      in checks
        [assertPositiveVersion (er_version run) ''ExecutionRun'',
         require (\<not> (terminal \<and> oc = None)) ''EXECUTION_RUN_OUTCOME_REQUIRED'',
         require (\<not> (\<not> terminal \<and> oc \<noteq> None)) ''EXECUTION_RUN_OUTCOME_PREMATURE'',
         require (\<not> (er_status run = R_Succeeded \<and> oc \<noteq> Some Succeeded))
           ''EXECUTION_RUN_OUTCOME_INVALID'',
         require (\<not> (er_status run = R_Cancelled \<and> oc \<noteq> Some Cancelled))
           ''EXECUTION_RUN_OUTCOME_INVALID'',
         require (\<not> (er_status run = R_Failed \<and> oc \<noteq> Some Failed \<and> oc \<noteq> Some Timed_Out))
           ''EXECUTION_RUN_OUTCOME_INVALID''])"

definition assertRunAttemptInvariant :: "run_attempt \<Rightarrow> domain_error + unit" where
  "assertRunAttemptInvariant attempt =
     (let terminal = isTerminalAttemptStatus (ra_status attempt);
          oc = ra_outcome attempt; fin = ra_finished_at attempt
      in checks
        [assertPositiveVersion (ra_version attempt) ''RunAttempt'',
         require (\<not> (terminal \<and> (oc = None \<or> fin = None))) ''RUN_ATTEMPT_RESULT_REQUIRED'',
         require (\<not> (\<not> terminal \<and> (oc \<noteq> None \<or> fin \<noteq> None))) ''RUN_ATTEMPT_RESULT_PREMATURE'',
         require (\<not> (terminal \<and> map_option status_of_outcome oc \<noteq> Some (ra_status attempt)))
           ''RUN_ATTEMPT_OUTCOME_INVALID''])"

text \<open>What a run that passes the check looks like, status by status.\<close>

definition run_outcome_ok :: "run_status \<Rightarrow> attempt_outcome option \<Rightarrow> bool" where
  "run_outcome_ok st oc \<longleftrightarrow>
     (case st of
        R_Succeeded \<Rightarrow> oc = Some Succeeded
      | R_Cancelled \<Rightarrow> oc = Some Cancelled
      | R_Failed \<Rightarrow> oc = Some Failed \<or> oc = Some Timed_Out
      | _ \<Rightarrow> oc = None)"

lemma assertPositiveVersion_int [simp]:
  "assertPositiveVersion (js_int n) entity = Inr u \<longleftrightarrow> 1 \<le> n"
  by (simp add: assertPositiveVersion_def not_less)

lemma assertExecutionRunInvariant_iff:
  "assertExecutionRunInvariant run = Inr () \<longleftrightarrow>
     assertPositiveVersion (er_version run) ''ExecutionRun'' = Inr ()
     \<and> run_outcome_ok (er_status run) (er_terminal_outcome run)"
  by (cases "er_status run"; cases "er_terminal_outcome run")
    (auto simp: assertExecutionRunInvariant_def checks_Inr run_outcome_ok_def Let_def)

definition attempt_outcome_ok ::
  "attempt_status \<Rightarrow> attempt_outcome option \<Rightarrow> time option \<Rightarrow> bool" where
  "attempt_outcome_ok st oc fin \<longleftrightarrow> oc = outcome_of_status st \<and> (fin \<noteq> None \<longleftrightarrow> oc \<noteq> None)"

lemma assertRunAttemptInvariant_iff:
  "assertRunAttemptInvariant att = Inr () \<longleftrightarrow>
     assertPositiveVersion (ra_version att) ''RunAttempt'' = Inr ()
     \<and> attempt_outcome_ok (ra_status att) (ra_outcome att) (ra_finished_at att)"
proof (cases "outcome_of_status (ra_status att)")
  case None
  then have "\<not> isTerminalAttemptStatus (ra_status att)"
    by (cases "ra_status att") auto
  with None show ?thesis
    by (auto simp: assertRunAttemptInvariant_def checks_Inr attempt_outcome_ok_def Let_def)
next
  case (Some oc)
  then have st: "ra_status att = status_of_outcome oc"
    by (simp add: outcome_of_status_Some)
  have inj: "status_of_outcome a = status_of_outcome b \<longleftrightarrow> a = b" for a b
    by (cases a; cases b) auto
  show ?thesis
    using st by (cases "ra_outcome att")
      (auto simp: assertRunAttemptInvariant_def checks_Inr attempt_outcome_ok_def Let_def inj)
qed

definition assertActiveLease ::
  "lease_status \<Rightarrow> time \<Rightarrow> js_number \<Rightarrow> js_number \<Rightarrow> time \<Rightarrow> domain_error + unit" where
  "assertActiveLease status expiresAt expectedVersion actualVersion now =
     checks
       [require (status = L_Active) ''LEASE_INACTIVE'',
        require (\<not> (actualVersion \<noteq> expectedVersion \<or> actualVersion = JNaN))
          ''LEASE_VERSION_CONFLICT'',
        require (\<not> (expiresAt \<le> now)) ''LEASE_EXPIRED'']"

subsection \<open>What a completion does to its run\<close>

record completion_input =
  ci_outcome :: attempt_outcome
  ci_attempt_number :: int
  ci_retry_limit :: int
  ci_cancellation_requested :: bool
  ci_retryable_runner_failure :: bool
  ci_runner_failures_before :: "int option"
  ci_ordinary_failures_before :: "int option"
  ci_retry_suppressed :: bool

definition or_default :: "'a option \<Rightarrow> 'a \<Rightarrow> 'a" where
  "or_default v d = (case v of None \<Rightarrow> d | Some x \<Rightarrow> x)"

definition outcomeAfterCompletion :: "completion_input \<Rightarrow> run_status \<times> bool" where
  "outcomeAfterCompletion i =
     (if ci_outcome i = Succeeded then (R_Succeeded, False)
      else if ci_outcome i = Cancelled \<or> ci_cancellation_requested i then (R_Cancelled, False)
      else if ci_retry_suppressed i then (R_Failed, False)
      else
        let failuresBefore = max 0 (ci_attempt_number i - 1);
            retryScheduled =
              (if ci_retryable_runner_failure i
                 then or_default (ci_runner_failures_before i) failuresBefore
                        < MAX_RUNNER_FAILURE_RESCHEDULES
                 else or_default (ci_ordinary_failures_before i) failuresBefore
                        < ci_retry_limit i)
        in (if retryScheduled then R_Queued else R_Failed, retryScheduled))"

lemma outcomeAfterCompletion_retry:
  "snd (outcomeAfterCompletion i) \<longleftrightarrow> fst (outcomeAfterCompletion i) = R_Queued"
  by (auto simp: outcomeAfterCompletion_def Let_def)

lemma outcomeAfterCompletion_status:
  "fst (outcomeAfterCompletion i) \<in> {R_Queued, R_Succeeded, R_Failed, R_Cancelled}"
  by (auto simp: outcomeAfterCompletion_def Let_def)

lemma outcomeAfterCompletion_queued:
  assumes "fst (outcomeAfterCompletion i) = R_Queued"
  shows "ci_outcome i \<in> {Failed, Timed_Out}" "\<not> ci_cancellation_requested i"
    "\<not> ci_retry_suppressed i"
  using assms by (cases "ci_outcome i"; auto simp: outcomeAfterCompletion_def Let_def split: if_splits)+

text \<open>
  With the stored failure counts, a rescheduled run has spent fewer runner faults, or fewer
  ordinary failures, than its budget.
\<close>

lemma outcomeAfterCompletion_budget:
  assumes "fst (outcomeAfterCompletion i) = R_Queued"
    and "ci_runner_failures_before i = Some nr" "ci_ordinary_failures_before i = Some nf"
  shows "if ci_retryable_runner_failure i then nr < 2 else nf < ci_retry_limit i"
  using assms
  by (auto simp: outcomeAfterCompletion_def Let_def or_default_def MAX_RUNNER_FAILURE_RESCHEDULES_def
      split: if_splits)

subsection \<open>The status of a batch\<close>

record batch_run_completion =
  brc_status :: run_status
  brc_reason :: "string option"

text \<open>\<open>terminalReasonCode ? { resultCode } : {}\<close> drops the empty string as well.\<close>

definition truthy_code :: "string option \<Rightarrow> string option" where
  "truthy_code c = (case c of None \<Rightarrow> None | Some s \<Rightarrow> if s = '''' then None else Some s)"

definition has_abnormal_failure :: "batch_run_completion list \<Rightarrow> bool" where
  "has_abnormal_failure cs \<longleftrightarrow>
     (\<exists>c\<in>set cs. brc_status c = R_Failed \<and>
        classifyAttemptResult
          \<lparr>cls_outcome = Failed, cls_result_code = truthy_code (brc_reason c)\<rparr> = Category_Blocked)"

definition aggregateBatchStatus :: "batch_run_completion list \<Rightarrow> bool \<Rightarrow> batch_status" where
  "aggregateBatchStatus cs terminationRequested =
     (let statuses = map brc_status cs
      in if statuses = [] then B_Queued
         else if R_Running \<in> set statuses then B_Running
         else if R_Assigned \<in> set statuses
           then (if R_Queued \<in> set statuses then B_Dispatching else B_Scheduled)
         else if R_Queued \<in> set statuses then B_Queued
         else if terminationRequested \<or> R_Cancelled \<in> set statuses then B_Cancelled
         else if has_abnormal_failure cs then B_Failed
         else B_Succeeded)"

lemma truthy_code_or_empty [simp]: "code_or_empty (truthy_code c) = code_or_empty c"
  by (auto simp: truthy_code_def code_or_empty_def split: option.splits)

lemma has_abnormal_failure_iff:
  "has_abnormal_failure cs \<longleftrightarrow>
     (\<exists>c\<in>set cs. brc_status c = R_Failed \<and>
        code_or_empty (brc_reason c) \<notin>
          set ADAPTER_SUCCESS_RESULT_CODES \<union> set ADAPTER_FAILURE_RESULT_CODES)"
  by (auto simp: has_abnormal_failure_def classify_blocked_iff simp del: classifyAttemptResult.simps)

lemma aggregateBatchStatus_terminal:
  assumes "cs \<noteq> []"
  shows "isTerminalBatchStatus (aggregateBatchStatus cs term) \<longleftrightarrow>
    (\<forall>c\<in>set cs. isTerminalRunStatus (brc_status c))"
proof (cases "\<exists>c\<in>set cs. \<not> isTerminalRunStatus (brc_status c)")
  case True
  then obtain c where c: "c \<in> set cs" "\<not> isTerminalRunStatus (brc_status c)"
    by auto
  then have "R_Running \<in> brc_status ` set cs \<or> R_Assigned \<in> brc_status ` set cs
      \<or> R_Queued \<in> brc_status ` set cs"
    by (cases "brc_status c") (auto simp: image_iff intro: bexI [of _ c])
  with c assms show ?thesis
    by (auto simp: aggregateBatchStatus_def Let_def)
next
  case False
  then have "R_Running \<notin> brc_status ` set cs" "R_Assigned \<notin> brc_status ` set cs"
      "R_Queued \<notin> brc_status ` set cs"
    by force+
  with False assms show ?thesis
    by (auto simp: aggregateBatchStatus_def Let_def)
qed

text \<open>The aggregation reads its runs as a set: neither order nor repetition matters.\<close>

lemma aggregateBatchStatus_set:
  assumes "set cs = set ds"
  shows "aggregateBatchStatus cs term = aggregateBatchStatus ds term"
proof -
  have "cs = [] \<longleftrightarrow> ds = []" using assms by auto
  with assms show ?thesis
    by (simp add: aggregateBatchStatus_def has_abnormal_failure_def Let_def)
qed

end
