(* ===== verification/Queue_Timing.thy ===== *)
theory Queue_Timing
  imports Run_Types
begin

text \<open>
  When a run that goes back to the queue may be scheduled again
  (\<open>packages/db/src/execution-queue-timing.ts\<close>), and the chunking of long \<open>IN\<close> lists
  (\<open>packages/db/src/query-chunks.ts\<close>). In round mode an ordinary failure waits, held, for the next
  round and has no queue deadline while it waits; a runner fault is retried in the same round.
\<close>

record retry_queue_timing =
  qt_execution_round :: int
  qt_held_round :: int
  qt_queue_deadline_at :: "time option"

definition queueDeadlineAfter :: "time \<Rightarrow> int \<Rightarrow> time" where
  "queueDeadlineAfter eligibleAt queueTimeoutMs = eligibleAt + queueTimeoutMs"

definition retryQueueTiming ::
  "run_status \<Rightarrow> retry_mode \<Rightarrow> bool \<Rightarrow> int \<Rightarrow> time \<Rightarrow> int \<Rightarrow> retry_queue_timing" where
  "retryQueueTiming runStatus retryMode retryableRunnerFailure currentExecutionRound
     eligibleAt queueTimeoutMs =
     (if runStatus \<noteq> R_Queued
        then \<lparr>qt_execution_round = currentExecutionRound, qt_held_round = 0,
              qt_queue_deadline_at = None\<rparr>
      else
        let executionRound =
              (if retryMode = Round \<and> retryableRunnerFailure
                 then currentExecutionRound else currentExecutionRound + 1);
            heldRound =
              (if retryMode = Round \<and> \<not> retryableRunnerFailure then executionRound else 0)
        in \<lparr>qt_execution_round = executionRound, qt_held_round = heldRound,
            qt_queue_deadline_at =
              (if heldRound > 0 then None
               else Some (queueDeadlineAfter eligibleAt queueTimeoutMs))\<rparr>)"

lemma retryQueueTiming_held:
  "qt_held_round (retryQueueTiming st mode infra rnd t q) \<noteq> 0 \<Longrightarrow>
     st = R_Queued \<and> mode = Round \<and> \<not> infra
     \<and> qt_held_round (retryQueueTiming st mode infra rnd t q) = rnd + 1"
  by (auto simp: retryQueueTiming_def Let_def split: if_splits)

text \<open>A retry has a deadline exactly when it is not held (the rounds of the code start at 1).\<close>

lemma retryQueueTiming_deadline:
  assumes "0 \<le> rnd"
  shows "qt_queue_deadline_at (retryQueueTiming R_Queued mode infra rnd t q) =
    (if qt_held_round (retryQueueTiming R_Queued mode infra rnd t q) > 0 then None
     else Some (t + q))"
  using assms by (auto simp: retryQueueTiming_def Let_def queueDeadlineAfter_def)

lemma retryQueueTiming_nonneg:
  "0 \<le> rnd \<Longrightarrow> 0 \<le> qt_held_round (retryQueueTiming st mode infra rnd t q)
     \<and> rnd \<le> qt_execution_round (retryQueueTiming st mode infra rnd t q)"
  by (auto simp: retryQueueTiming_def Let_def)

subsection \<open>Chunks\<close>

definition QUERY_IN_CHUNK_SIZE :: nat where
  "QUERY_IN_CHUNK_SIZE = 5000"

text \<open>
  The loop of \<open>splitIntoChunks\<close> steps by the chunk size, so a size of 0 would not end; the code
  calls it with positive constants only. The model takes at least one element per chunk.
\<close>

function splitIntoChunks :: "'a list \<Rightarrow> nat \<Rightarrow> 'a list list" where
  "splitIntoChunks values chunkSize =
     (if values = [] \<or> chunkSize = 0 then []
      else take chunkSize values # splitIntoChunks (drop chunkSize values) chunkSize)"
  by auto
termination
  by (relation "measure (\<lambda>(v, c). length v)") auto

declare splitIntoChunks.simps [simp del]

lemma splitIntoChunks_Nil [simp]: "splitIntoChunks [] n = []"
  by (simp add: splitIntoChunks.simps)

lemma splitIntoChunks_concat: "0 < n \<Longrightarrow> concat (splitIntoChunks xs n) = xs"
proof (induction xs n rule: splitIntoChunks.induct)
  case (1 xs n)
  then show ?case by (subst splitIntoChunks.simps) auto
qed

lemma splitIntoChunks_step:
  "xs \<noteq> [] \<Longrightarrow> 0 < n \<Longrightarrow> splitIntoChunks xs n = take n xs # splitIntoChunks (drop n xs) n"
  by (subst splitIntoChunks.simps) simp

lemma splitIntoChunks_0 [simp]: "splitIntoChunks xs 0 = []"
  by (subst splitIntoChunks.simps) simp

lemma splitIntoChunks_sizes:
  "c \<in> set (splitIntoChunks xs n) \<Longrightarrow> c \<noteq> [] \<and> length c \<le> n"
proof (induction xs n rule: splitIntoChunks.induct)
  case (1 xs n)
  show ?case
  proof (cases "xs = [] \<or> n = 0")
    case True
    with 1 show ?thesis by auto
  next
    case False
    with 1 show ?thesis by (auto simp: splitIntoChunks_step)
  qed
qed

lemma splitIntoChunks_count:
  "0 < n \<Longrightarrow> length (splitIntoChunks xs n) = (length xs + n - 1) div n"
proof (induction xs n rule: splitIntoChunks.induct)
  case (1 xs n)
  show ?case
  proof (cases "xs = []")
    case True
    then show ?thesis using 1(2) by simp
  next
    case False
    have "length (splitIntoChunks (drop n xs) n) = (length (drop n xs) + n - 1) div n"
      using 1 False by blast
    then have ih: "length (splitIntoChunks (drop n xs) n) = (length xs - n + n - 1) div n"
      by (simp only: length_drop)
    have step: "length (splitIntoChunks xs n) = Suc (length (splitIntoChunks (drop n xs) n))"
      using False 1(2) by (simp add: splitIntoChunks_step)
    have nz: "n \<noteq> 0" using 1(2) by simp
    show ?thesis
    proof (cases "n \<le> length xs")
      case True
      then have "length xs + n - 1 = (length xs - n + n - 1) + n"
        using 1(2) by linarith
      then have "(length xs + n - 1) div n = (length xs - n + n - 1) div n + 1"
        by (simp only: div_add_self2 [OF nz])
      then show ?thesis using step ih by linarith
    next
      case short: False
      then have eq: "length xs + n - 1 = (length xs - 1) + n" and lt: "length xs - 1 < n"
        using False by (cases xs; simp)+
      have "(length xs + n - 1) div n = (length xs - 1) div n + 1"
        by (simp only: eq div_add_self2 [OF nz])
      then have "(length xs + n - 1) div n = 1"
        using lt by (simp only: div_less)
      moreover have "length (splitIntoChunks (drop n xs) n) = 0"
        using short by simp
      ultimately show ?thesis using step by linarith
    qed
  qed
qed

end
