(* ===== verification/Attempt_Logs.thy ===== *)
theory Attempt_Logs
  imports Prelude "HOL-Library.Product_Lexorder" "HOL-Library.Multiset"
begin

text \<open>
  The attempt log store: \<open>packages/db/src/attempt-log-store.ts\<close> and
  \<open>packages/db/src/attempt-log-pagination.ts\<close>. Every batch has its own SQLite file; the model keeps
  the rows of all files in one table each and carries the batch id (the file name) in the row.
  A log content is the list of its UTF-8 bytes. The gzip codec and SHA-256 are not code of the
  repository: \<open>gz\<close>, \<open>gunz\<close> and \<open>sha\<close> are parameters of the definitions that use them. Opening,
  caching and closing of file handles is not modelled.
\<close>

datatype log_stream = Stdout | Stderr | Agent_Log

datatype content_encoding = Identity_Encoding | Gzip_Encoding

record log_chunk =
  ch_stream :: log_stream
  ch_sequence :: int
  ch_content :: string
  ch_recorded_at :: time

record encoded_chunk =
  ec_stream :: log_stream
  ec_sequence :: int
  ec_recorded_at :: time
  ec_plain :: string
  ec_stored :: string
  ec_encoding :: content_encoding
  ec_size :: nat
  ec_stored_size :: nat
  ec_sha :: string

record chunk_row =
  cr_batch :: ident
  cr_attempt :: ident
  cr_stream :: log_stream
  cr_sequence :: int
  cr_content :: string
  cr_encoding :: content_encoding
  cr_size :: nat
  cr_stored_size :: "nat option"
  cr_sha :: "string option"
  cr_recorded_at :: time
  cr_received_at :: time

record watermark_row =
  wm_batch :: ident
  wm_attempt :: ident
  wm_stream :: log_stream
  wm_acknowledged :: int
  wm_updated_at :: time

record log_store =
  lg_chunks :: "chunk_row list"
  lg_watermarks :: "watermark_row list"

subsection \<open>Batch identifiers are file names\<close>

definition batch_id_char :: "char \<Rightarrow> bool" where
  "batch_id_char c \<longleftrightarrow> c \<in> set ''0123456789abcdef-''"

definition assertBatchId :: "ident \<Rightarrow> domain_error + unit" where
  "assertBatchId batchId =
     (if 8 \<le> length batchId \<and> length batchId \<le> 64 \<and> list_all batch_id_char batchId
        then Inr () else Inl (DomainError ''RUN_BATCH_NOT_FOUND''))"

definition relativeAttemptLogStorePath :: "string \<Rightarrow> ident \<Rightarrow> domain_error + string" where
  "relativeAttemptLogStorePath directory batchId =
     and_then (assertBatchId batchId) (\<lambda>_. Inr (directory @ ''/'' @ batchId @ ''.sqlite''))"

text \<open>An accepted identifier has no path separator and no dot, so it names a file of the directory.\<close>

lemma assertBatchId_safe:
  assumes "assertBatchId b = Inr ()"
  shows "CHR ''/'' \<notin> set b \<and> CHR ''.'' \<notin> set b \<and> b \<noteq> []"
proof -
  have "8 \<le> length b" "list_all batch_id_char b"
    using assms by (auto simp: assertBatchId_def split: if_splits)
  moreover have "\<not> batch_id_char CHR ''/''" "\<not> batch_id_char CHR ''.''"
    by (simp_all add: batch_id_char_def)
  ultimately show ?thesis
    unfolding list_all_iff by fastforce
qed

subsection \<open>Encoding\<close>

definition MINIMUM_COMPRESSION_BYTES :: nat where
  "MINIMUM_COMPRESSION_BYTES = 1024"

definition MINIMUM_COMPRESSION_SAVING_BYTES :: nat where
  "MINIMUM_COMPRESSION_SAVING_BYTES = 64"

definition encodedIdentityChunk :: "log_chunk \<Rightarrow> string \<Rightarrow> string \<Rightarrow> encoded_chunk" where
  "encodedIdentityChunk chunk content contentSha256 =
     \<lparr>ec_stream = ch_stream chunk, ec_sequence = ch_sequence chunk,
      ec_recorded_at = ch_recorded_at chunk, ec_plain = ch_content chunk, ec_stored = content,
      ec_encoding = Identity_Encoding, ec_size = length content,
      ec_stored_size = length content, ec_sha = contentSha256\<rparr>"

text \<open>The comparison \<open>compressed > plain - 64\<close> is made on signed numbers.\<close>

definition encodeLogChunk ::
  "(string \<Rightarrow> string) \<Rightarrow> (string \<Rightarrow> string) \<Rightarrow> log_chunk \<Rightarrow> encoded_chunk" where
  "encodeLogChunk gz sha chunk =
     (let plainContent = ch_content chunk;
          contentSha256 = sha plainContent
      in if length plainContent < MINIMUM_COMPRESSION_BYTES
           then encodedIdentityChunk chunk plainContent contentSha256
         else
           let compressed = gz plainContent
           in if int (length compressed)
                   > int (length plainContent) - int MINIMUM_COMPRESSION_SAVING_BYTES
                then encodedIdentityChunk chunk plainContent contentSha256
              else
                \<lparr>ec_stream = ch_stream chunk, ec_sequence = ch_sequence chunk,
                 ec_recorded_at = ch_recorded_at chunk, ec_plain = ch_content chunk,
                 ec_stored = compressed, ec_encoding = Gzip_Encoding,
                 ec_size = length plainContent, ec_stored_size = length compressed,
                 ec_sha = contentSha256\<rparr>)"

definition decodeStoredRow ::
  "(string \<Rightarrow> nat \<Rightarrow> string option) \<Rightarrow> chunk_row \<Rightarrow> domain_error + log_chunk" where
  "decodeStoredRow gunz row =
     (case (if cr_encoding row = Gzip_Encoding then gunz (cr_content row) (max 1 (cr_size row))
            else Some (cr_content row)) of
        None \<Rightarrow> Inl (PlainError ''LOG_DECOMPRESSION_FAILED'')
      | Some plainContent \<Rightarrow>
          if length plainContent \<noteq> cr_size row then Inl (PlainError ''LOG_SIZE_MISMATCH'')
          else Inr \<lparr>ch_stream = cr_stream row, ch_sequence = cr_sequence row,
                    ch_content = plainContent, ch_recorded_at = cr_recorded_at row\<rparr>)"

definition stored_chunk :: "ident \<Rightarrow> ident \<Rightarrow> time \<Rightarrow> encoded_chunk \<Rightarrow> chunk_row" where
  "stored_chunk batchId attemptId receivedAt c =
     \<lparr>cr_batch = batchId, cr_attempt = attemptId, cr_stream = ec_stream c,
      cr_sequence = ec_sequence c, cr_content = ec_stored c, cr_encoding = ec_encoding c,
      cr_size = ec_size c, cr_stored_size = Some (ec_stored_size c), cr_sha = Some (ec_sha c),
      cr_recorded_at = ec_recorded_at c, cr_received_at = receivedAt\<rparr>"

lemmas encode_defs = encodeLogChunk_def encodedIdentityChunk_def Let_def

lemma encodeLogChunk_frame [simp]:
  "ec_stream (encodeLogChunk gz sha c) = ch_stream c"
  "ec_sequence (encodeLogChunk gz sha c) = ch_sequence c"
  "ec_recorded_at (encodeLogChunk gz sha c) = ch_recorded_at c"
  "ec_plain (encodeLogChunk gz sha c) = ch_content c"
  "ec_size (encodeLogChunk gz sha c) = length (ch_content c)"
  "ec_sha (encodeLogChunk gz sha c) = sha (ch_content c)"
  by (auto simp: encode_defs)

text \<open>What is stored is never longer than the content.\<close>

lemma encodeLogChunk_not_longer:
  "ec_stored_size (encodeLogChunk gz sha c) \<le> length (ch_content c)"
  by (auto simp: encode_defs)

text \<open>
  Reading back a stored chunk gives the chunk, for any codec whose decompressor undoes its
  compressor within the size limit it is given.
\<close>

lemma decode_encode:
  assumes "\<And>c n. length c \<le> n \<Longrightarrow> gunz (gz c) n = Some c"
  shows "decodeStoredRow gunz (stored_chunk b a r (encodeLogChunk gz sha c)) = Inr c"
  using assms by (auto simp: decodeStoredRow_def stored_chunk_def encode_defs)

subsection \<open>Watermarks\<close>

definition find_watermark ::
  "log_store \<Rightarrow> ident \<Rightarrow> ident \<Rightarrow> log_stream \<Rightarrow> watermark_row option" where
  "find_watermark lg batchId attemptId stream =
     find (\<lambda>w. wm_batch w = batchId \<and> wm_attempt w = attemptId \<and> wm_stream w = stream)
       (lg_watermarks lg)"

definition acknowledgedSequence :: "log_store \<Rightarrow> ident \<Rightarrow> ident \<Rightarrow> log_stream \<Rightarrow> int" where
  "acknowledgedSequence lg batchId attemptId stream =
     (case find_watermark lg batchId attemptId stream of None \<Rightarrow> -1 | Some w \<Rightarrow> wm_acknowledged w)"

text \<open>\<open>INSERT ... ON CONFLICT DO UPDATE SET acknowledged = MAX(old, new)\<close>.\<close>

definition upsert_watermark ::
  "ident \<Rightarrow> ident \<Rightarrow> time \<Rightarrow> log_stream \<Rightarrow> int \<Rightarrow> log_store \<Rightarrow> log_store" where
  "upsert_watermark batchId attemptId updatedAt stream acknowledged lg =
     (case find_watermark lg batchId attemptId stream of
        None \<Rightarrow> lg\<lparr>lg_watermarks := lg_watermarks lg @
          [\<lparr>wm_batch = batchId, wm_attempt = attemptId, wm_stream = stream,
            wm_acknowledged = acknowledged, wm_updated_at = updatedAt\<rparr>]\<rparr>
      | Some _ \<Rightarrow> lg\<lparr>lg_watermarks := update_where
          (\<lambda>w. wm_batch w = batchId \<and> wm_attempt w = attemptId \<and> wm_stream w = stream)
          (\<lambda>w. w\<lparr>wm_acknowledged := max (wm_acknowledged w) acknowledged,
                wm_updated_at := updatedAt\<rparr>)
          (lg_watermarks lg)\<rparr>)"

text \<open>The contiguous run of stored sequences above the watermark, read in ascending order.\<close>

fun advance_over :: "int \<Rightarrow> int list \<Rightarrow> int" where
  "advance_over acknowledged [] = acknowledged"
| "advance_over acknowledged (s # ss) =
     (if s \<noteq> acknowledged + 1 then acknowledged else advance_over s ss)"

definition chunk_sequences :: "log_store \<Rightarrow> ident \<Rightarrow> ident \<Rightarrow> log_stream \<Rightarrow> int list" where
  "chunk_sequences lg batchId attemptId stream =
     map cr_sequence (filter (\<lambda>c. cr_batch c = batchId \<and> cr_attempt c = attemptId
                                  \<and> cr_stream c = stream) (lg_chunks lg))"

definition advanceWatermark ::
  "log_store \<Rightarrow> ident \<Rightarrow> ident \<Rightarrow> log_stream \<Rightarrow> time \<Rightarrow> int \<times> log_store" where
  "advanceWatermark lg batchId attemptId stream updatedAt =
     (let existing = acknowledgedSequence lg batchId attemptId stream;
          sequences = sort (filter (\<lambda>s. existing < s) (chunk_sequences lg batchId attemptId stream));
          acknowledged = advance_over existing sequences
      in (acknowledged, upsert_watermark batchId attemptId updatedAt stream acknowledged lg))"

definition recordWatermarks ::
  "ident \<Rightarrow> ident \<Rightarrow> (log_stream \<Rightarrow> int) \<Rightarrow> time \<Rightarrow> log_store \<Rightarrow> log_store" where
  "recordWatermarks batchId attemptId watermarks recordedAt lg =
     fold (\<lambda>stream. upsert_watermark batchId attemptId recordedAt stream (watermarks stream))
       [Stdout, Stderr, Agent_Log] lg"

lemma advance_over_ge: "a \<le> advance_over a ss"
proof (induction ss arbitrary: a)
  case Nil
  then show ?case by simp
next
  case (Cons s ss)
  show ?case using Cons.IH [of s] by (cases "s = a + 1") auto
qed

lemma advance_over_covers:
  "a < k \<Longrightarrow> k \<le> advance_over a ss \<Longrightarrow> k \<in> set ss"
proof (induction ss arbitrary: a)
  case Nil
  then show ?case by simp
next
  case (Cons s ss)
  show ?case
  proof (cases "s = a + 1 \<and> k \<noteq> s")
    case True
    then show ?thesis using Cons.IH [of s] Cons.prems by auto
  next
    case False
    then show ?thesis using Cons.prems by (auto split: if_splits)
  qed
qed

lemma advance_over_stops:
  assumes "sorted ss" "distinct ss" "\<And>s. s \<in> set ss \<Longrightarrow> a < s"
  shows "advance_over a ss + 1 \<notin> set ss"
  using assms
proof (induction ss arbitrary: a)
  case Nil
  then show ?case by simp
next
  case (Cons s ss)
  show ?case
  proof (cases "s = a + 1")
    case True
    have "\<And>x. x \<in> set ss \<Longrightarrow> s < x"
      using Cons.prems by (auto simp: order_less_le)
    then have "advance_over s ss + 1 \<notin> set ss"
      using Cons.IH [of s] Cons.prems by auto
    then show ?thesis
      using True advance_over_ge [of s ss] by auto
  next
    case False
    have "a + 1 < s" using Cons.prems(3) [of s] False by auto
    then show ?thesis
      using False Cons.prems(1) by fastforce
  qed
qed

text \<open>
  The acknowledged sequence of a stream never goes back, every sequence it newly acknowledges is
  stored, and the next one is not: the agent may drop exactly what it is told it may drop.
\<close>

lemma advanceWatermark_contiguous:
  fixes lg b a st now
  defines "old \<equiv> acknowledgedSequence lg b a st"
    and "new \<equiv> fst (advanceWatermark lg b a st now)"
  assumes d: "distinct (chunk_sequences lg b a st)"
  shows "old \<le> new"
    and "\<And>k. old < k \<Longrightarrow> k \<le> new \<Longrightarrow> k \<in> set (chunk_sequences lg b a st)"
    and "new + 1 \<notin> set (chunk_sequences lg b a st)"
proof -
  let ?ss = "sort (filter (\<lambda>s. old < s) (chunk_sequences lg b a st))"
  have new: "new = advance_over old ?ss"
    by (simp add: new_def old_def advanceWatermark_def Let_def)
  show "old \<le> new" unfolding new by (rule advance_over_ge)
  show "k \<in> set (chunk_sequences lg b a st)" if "old < k" "k \<le> new" for k
    using advance_over_covers [of old k ?ss] that new by auto
  have "new + 1 \<notin> set ?ss"
    unfolding new using d by (intro advance_over_stops) auto
  then show "new + 1 \<notin> set (chunk_sequences lg b a st)"
    using \<open>old \<le> new\<close> by auto
qed

lemma find_watermark_upsert:
  "find_watermark (upsert_watermark b a t st n lg) b' a' st' =
     (if b' = b \<and> a' = a \<and> st' = st
        then Some (case find_watermark lg b a st of
            None \<Rightarrow> \<lparr>wm_batch = b, wm_attempt = a, wm_stream = st, wm_acknowledged = n,
                     wm_updated_at = t\<rparr>
          | Some w \<Rightarrow> w\<lparr>wm_acknowledged := max (wm_acknowledged w) n, wm_updated_at := t\<rparr>)
      else find_watermark lg b' a' st')"
proof -
  have app: "find P (xs @ [x]) = (case find P xs of None \<Rightarrow> if P x then Some x else None
      | Some y \<Rightarrow> Some y)" for P :: "watermark_row \<Rightarrow> bool" and xs x
    by (induction xs) auto
  have upd: "find P (update_where Q f xs) = map_option (\<lambda>r. if Q r then f r else r) (find P xs)"
    if "\<And>r. P (if Q r then f r else r) = P r"
    for P Q :: "watermark_row \<Rightarrow> bool" and f xs
    using that by (induction xs) (auto split: if_splits)
  show ?thesis
    by (cases "find_watermark lg b a st"; cases "b' = b \<and> a' = a \<and> st' = st")
      (auto simp: upsert_watermark_def find_watermark_def app upd map_option_case
        dest: find_SomeD split: option.splits)
qed

lemma acknowledgedSequence_upsert:
  "acknowledgedSequence (upsert_watermark b a t st n lg) b' a' st' =
     (if b' = b \<and> a' = a \<and> st' = st \<and> (find_watermark lg b a st = None \<or>
          acknowledgedSequence lg b a st \<le> n) then n
      else acknowledgedSequence lg b' a' st')"
  by (auto simp: acknowledgedSequence_def find_watermark_upsert split: option.splits)

subsection \<open>Appending chunks\<close>

definition legacyContentEquals :: "string \<Rightarrow> string \<Rightarrow> bool" where
  "legacyContentEquals stored expected \<longleftrightarrow> stored = expected"

definition same_content :: "chunk_row \<Rightarrow> encoded_chunk \<Rightarrow> bool" where
  "same_content row c =
     (case cr_sha row of
        Some h \<Rightarrow> if h \<noteq> '''' then cr_size row = ec_size c \<and> h = ec_sha c
                  else legacyContentEquals (cr_content row) (ec_plain c)
      | None \<Rightarrow> legacyContentEquals (cr_content row) (ec_plain c))"

definition find_chunk ::
  "log_store \<Rightarrow> ident \<Rightarrow> ident \<Rightarrow> log_stream \<Rightarrow> int \<Rightarrow> chunk_row option" where
  "find_chunk lg batchId attemptId stream sequence =
     find (\<lambda>c. cr_batch c = batchId \<and> cr_attempt c = attemptId \<and> cr_stream c = stream
               \<and> cr_sequence c = sequence) (lg_chunks lg)"

fun append_encoded ::
  "ident \<Rightarrow> ident \<Rightarrow> time \<Rightarrow> encoded_chunk list \<Rightarrow> log_store \<Rightarrow> domain_error + log_store" where
  "append_encoded batchId attemptId receivedAt [] lg = Inr lg"
| "append_encoded batchId attemptId receivedAt (c # cs) lg =
     (case find_chunk lg batchId attemptId (ec_stream c) (ec_sequence c) of
        Some row \<Rightarrow>
          if \<not> same_content row c \<or> cr_recorded_at row \<noteq> ec_recorded_at c
            then Inl (DomainError ''LOG_CHUNK_CONFLICT'')
          else append_encoded batchId attemptId receivedAt cs lg
      | None \<Rightarrow> append_encoded batchId attemptId receivedAt cs
          (lg\<lparr>lg_chunks := lg_chunks lg @ [stored_chunk batchId attemptId receivedAt c]\<rparr>))"

definition appendChunks ::
  "(string \<Rightarrow> string) \<Rightarrow> (string \<Rightarrow> string) \<Rightarrow> ident \<Rightarrow> ident \<Rightarrow> time \<Rightarrow> log_chunk list \<Rightarrow> log_store \<Rightarrow>
   domain_error + ((int \<times> int \<times> int) \<times> log_store)" where
  "appendChunks gz sha batchId attemptId receivedAt chunks lg =
     and_then (assertBatchId batchId) (\<lambda>_.
     and_then (append_encoded batchId attemptId receivedAt (map (encodeLogChunk gz sha) chunks) lg)
       (\<lambda>lg0.
          let (stdout, lg1) = advanceWatermark lg0 batchId attemptId Stdout receivedAt;
              (stderr, lg2) = advanceWatermark lg1 batchId attemptId Stderr receivedAt;
              (agent, lg3) = advanceWatermark lg2 batchId attemptId Agent_Log receivedAt
          in Inr ((stdout, stderr, agent), lg3)))"

definition chunk_key :: "chunk_row \<Rightarrow> ident \<times> ident \<times> log_stream \<times> int" where
  "chunk_key c = (cr_batch c, cr_attempt c, cr_stream c, cr_sequence c)"

definition log_ok :: "log_store \<Rightarrow> bool" where
  "log_ok lg \<longleftrightarrow> distinct (map chunk_key (lg_chunks lg))"

lemma find_chunk_None:
  "find_chunk lg b a st n = None \<longleftrightarrow> (b, a, st, n) \<notin> chunk_key ` set (lg_chunks lg)"
  by (auto simp: find_chunk_def find_None_iff chunk_key_def image_iff)

lemma chunk_key_stored [simp]:
  "chunk_key (stored_chunk b a r c) = (b, a, ec_stream c, ec_sequence c)"
  by (simp add: chunk_key_def stored_chunk_def)

lemma append_encoded_prefix:
  "append_encoded b a r cs lg = Inr lg' \<Longrightarrow> \<exists>new. lg_chunks lg' = lg_chunks lg @ new"
proof (induction cs arbitrary: lg)
  case Nil
  then show ?case by simp
next
  case (Cons c cs)
  show ?case
  proof (cases "find_chunk lg b a (ec_stream c) (ec_sequence c)")
    case None
    then show ?thesis
      using Cons.prems Cons.IH
        [of "lg\<lparr>lg_chunks := lg_chunks lg @ [stored_chunk b a r c]\<rparr>"] by auto
  next
    case (Some row)
    then show ?thesis using Cons by (auto split: if_splits)
  qed
qed

lemma append_encoded_ok:
  "append_encoded b a r cs lg = Inr lg' \<Longrightarrow> log_ok lg \<Longrightarrow> log_ok lg'"
proof (induction cs arbitrary: lg)
  case Nil
  then show ?case by simp
next
  case (Cons c cs)
  show ?case
  proof (cases "find_chunk lg b a (ec_stream c) (ec_sequence c)")
    case None
    have "log_ok (lg\<lparr>lg_chunks := lg_chunks lg @ [stored_chunk b a r c]\<rparr>)"
      using Cons.prems(2) None by (auto simp: log_ok_def find_chunk_None)
    then show ?thesis using Cons None by auto
  next
    case (Some row)
    then show ?thesis using Cons by (auto split: if_splits)
  qed
qed

lemma append_encoded_stores:
  "append_encoded b a r cs lg = Inr lg' \<Longrightarrow> c \<in> set cs \<Longrightarrow>
     \<exists>row\<in>set (lg_chunks lg'). chunk_key row = (b, a, ec_stream c, ec_sequence c)
       \<and> cr_recorded_at row = ec_recorded_at c
       \<and> (same_content row c \<or> row = stored_chunk b a r c)"
proof (induction cs arbitrary: lg)
  case Nil
  then show ?case by simp
next
  case (Cons d cs)
  show ?case
  proof (cases "find_chunk lg b a (ec_stream d) (ec_sequence d)")
    case None
    let ?lg = "lg\<lparr>lg_chunks := lg_chunks lg @ [stored_chunk b a r d]\<rparr>"
    have ap: "append_encoded b a r cs ?lg = Inr lg'" using Cons.prems None by simp
    then obtain new where "lg_chunks lg' = lg_chunks ?lg @ new"
      using append_encoded_prefix by blast
    then have "stored_chunk b a r d \<in> set (lg_chunks lg')" by simp
    moreover have "cr_recorded_at (stored_chunk b a r d) = ec_recorded_at d"
      by (simp add: stored_chunk_def)
    ultimately show ?thesis
      using Cons.IH [OF ap] Cons.prems(2) chunk_key_stored [of b a r d] by (metis set_ConsD)
  next
    case (Some row)
    then have ap: "append_encoded b a r cs lg = Inr lg'" "same_content row d"
        "cr_recorded_at row = ec_recorded_at d"
      using Cons.prems by (auto split: if_splits)
    have "row \<in> set (lg_chunks lg)" "chunk_key row = (b, a, ec_stream d, ec_sequence d)"
      using Some by (auto simp: find_chunk_def chunk_key_def dest: find_SomeD)
    moreover obtain new where "lg_chunks lg' = lg_chunks lg @ new"
      using append_encoded_prefix [OF ap(1)] by blast
    ultimately show ?thesis
      using Cons.IH [OF ap(1)] Cons.prems(2) ap(2,3) by auto
  qed
qed

lemma upsert_watermark_chunks [simp]: "lg_chunks (upsert_watermark b a t st n lg) = lg_chunks lg"
  by (simp add: upsert_watermark_def split: option.splits)

lemma advanceWatermark_chunks [simp]:
  "lg_chunks (snd (advanceWatermark lg b a st t)) = lg_chunks lg"
  by (simp add: advanceWatermark_def Let_def)

lemma appendChunks_Inr:
  assumes "appendChunks gz sha b a r chunks lg = Inr (w, lg')"
  obtains lg0 where
    "append_encoded b a r (map (encodeLogChunk gz sha) chunks) lg = Inr lg0"
    "lg_chunks lg' = lg_chunks lg0"
    "fst w = fst (advanceWatermark lg0 b a Stdout r)"
    "assertBatchId b = Inr ()"
proof -
  obtain u lg0 where u: "assertBatchId b = Inr u"
      "append_encoded b a r (map (encodeLogChunk gz sha) chunks) lg = Inr lg0"
      "(let (stdout, lg1) = advanceWatermark lg0 b a Stdout r;
            (stderr, lg2) = advanceWatermark lg1 b a Stderr r;
            (agent, lg3) = advanceWatermark lg2 b a Agent_Log r
        in Inr ((stdout, stderr, agent), lg3)) = (Inr (w, lg') :: domain_error + _)"
    using assms unfolding appendChunks_def and_then_eq_Inr by blast
  obtain n1 lg1 where 1: "advanceWatermark lg0 b a Stdout r = (n1, lg1)" by fastforce
  obtain n2 lg2 where 2: "advanceWatermark lg1 b a Stderr r = (n2, lg2)" by fastforce
  obtain n3 lg3 where 3: "advanceWatermark lg2 b a Agent_Log r = (n3, lg3)" by fastforce
  have "lg_chunks lg1 = lg_chunks lg0" "lg_chunks lg2 = lg_chunks lg1" "lg_chunks lg3 = lg_chunks lg2"
    using advanceWatermark_chunks [of lg0 b a Stdout r] advanceWatermark_chunks [of lg1 b a Stderr r]
      advanceWatermark_chunks [of lg2 b a Agent_Log r] 1 2 3 by simp_all
  with u 1 2 3 that show thesis by auto
qed

lemma log_ok_sequences:
  assumes "log_ok lg"
  shows "distinct (chunk_sequences lg b a st)"
proof -
  let ?xs = "filter (\<lambda>c. cr_batch c = b \<and> cr_attempt c = a \<and> cr_stream c = st) (lg_chunks lg)"
  have "distinct (map chunk_key ?xs)"
    using assms by (simp add: log_ok_def distinct_map_filter)
  moreover have "map chunk_key ?xs = map (\<lambda>n. (b, a, st, n)) (map cr_sequence ?xs)"
    by (auto simp: chunk_key_def)
  ultimately have "distinct (map (\<lambda>n. (b, a, st, n)) (map cr_sequence ?xs))" by (simp only:)
  then show ?thesis unfolding chunk_sequences_def distinct_map [of "\<lambda>n. (b, a, st, n)"] by simp
qed

subsection \<open>Reading pages\<close>

fun includes_substring :: "string \<Rightarrow> string \<Rightarrow> bool" where
  "includes_substring [] q \<longleftrightarrow> q = []"
| "includes_substring (c # cs) q \<longleftrightarrow> take (length q) (c # cs) = q \<or> includes_substring cs q"

definition LOG_READ_ROWS :: nat where "LOG_READ_ROWS = 32"

definition PAGE_BYTES :: nat where "PAGE_BYTES = 1024 * 1024"

definition SEARCH_ROWS :: nat where "SEARCH_ROWS = 4096"

definition readStoredRows ::
  "log_store \<Rightarrow> ident \<Rightarrow> ident \<Rightarrow> log_stream \<Rightarrow> int \<Rightarrow> time option \<Rightarrow> time option \<Rightarrow> nat \<Rightarrow>
   chunk_row list" where
  "readStoredRows lg batchId attemptId stream afterSequence recordedAfter recordedBefore limit =
     take limit (sort_key cr_sequence
       (filter (\<lambda>c. cr_batch c = batchId \<and> cr_attempt c = attemptId \<and> cr_stream c = stream
                  \<and> afterSequence < cr_sequence c
                  \<and> (case recordedAfter of None \<Rightarrow> True | Some t \<Rightarrow> t \<le> cr_recorded_at c)
                  \<and> (case recordedBefore of None \<Rightarrow> True | Some t \<Rightarrow> cr_recorded_at c \<le> t))
          (lg_chunks lg)))"

text \<open>
  \<open>readAttemptLogPage\<close> asks its reader for blocks of rows until the page is full or the reader is
  exhausted. \<open>page_scan\<close> is the inner \<open>for\<close> loop over one block: it stops with a full page or goes
  on with the collected items, their bytes, the last sequence and the number of scanned rows.
\<close>

datatype page_step = Page_Full "log_chunk list" | Page_Next "log_chunk list" nat int nat

definition row_matches :: "string option \<Rightarrow> log_chunk \<Rightarrow> bool" where
  "row_matches query item \<longleftrightarrow>
     (case query of None \<Rightarrow> True | Some q \<Rightarrow> q = '''' \<or> includes_substring (ch_content item) q)"

definition searching :: "string option \<Rightarrow> bool" where
  "searching query \<longleftrightarrow> (case query of None \<Rightarrow> False | Some q \<Rightarrow> q \<noteq> '''')"

fun page_scan ::
  "string option \<Rightarrow> nat \<Rightarrow> log_chunk list \<Rightarrow> log_chunk list \<Rightarrow> nat \<Rightarrow> int \<Rightarrow> nat \<Rightarrow> page_step" where
  "page_scan query limit [] items bytes after scanned = Page_Next items bytes after scanned"
| "page_scan query limit (item # rows) items bytes after scanned =
     (if \<not> row_matches query item
        then page_scan query limit rows items bytes (ch_sequence item) (Suc scanned)
      else
        let size = length (ch_content item)
        in if length items = limit \<or> (0 < length items \<and> PAGE_BYTES < bytes + size)
             then Page_Full items
           else page_scan query limit rows (items @ [item]) (bytes + size) (ch_sequence item)
                  (Suc scanned))"

fun page_loop ::
  "nat \<Rightarrow> string option \<Rightarrow> nat \<Rightarrow> (int \<Rightarrow> nat \<Rightarrow> domain_error + log_chunk list) \<Rightarrow>
   log_chunk list \<Rightarrow> nat \<Rightarrow> int \<Rightarrow> nat \<Rightarrow> (domain_error + log_chunk list \<times> bool) option" where
  "page_loop 0 query limit readRows items bytes after scanned = None"
| "page_loop (Suc fuel) query limit readRows items bytes after scanned =
     (let requested =
            min LOG_READ_ROWS (if searching query then LOG_READ_ROWS else limit + 1 - length items)
      in case readRows after requested of
           Inl e \<Rightarrow> Some (Inl e)
         | Inr rows \<Rightarrow>
             (case page_scan query limit rows items bytes after scanned of
                Page_Full its \<Rightarrow> Some (Inr (its, True))
              | Page_Next its bts aft scd \<Rightarrow>
                  if length rows < requested then Some (Inr (its, False))
                  else if searching query \<and> SEARCH_ROWS \<le> scd
                    then Some (Inl (DomainError ''PLATFORM_LOG_QUERY_TOO_BROAD''))
                  else page_loop fuel query limit readRows its bts aft scd))"

definition readAttemptLogPage ::
  "nat \<Rightarrow> string option \<Rightarrow> int \<Rightarrow> int \<Rightarrow> (int \<Rightarrow> nat \<Rightarrow> domain_error + log_chunk list) \<Rightarrow>
   (domain_error + log_chunk list \<times> bool) option" where
  "readAttemptLogPage fuel query afterSequence inputLimit readRows =
     page_loop fuel query (nat (max 1 (min inputLimit 500))) readRows [] 0 afterSequence 0"

text \<open>The reader over a list of rows in ascending order of their sequences.\<close>

definition reader :: "log_chunk list \<Rightarrow> int \<Rightarrow> nat \<Rightarrow> domain_error + log_chunk list" where
  "reader rows after n = Inr (take n (filter (\<lambda>r. after < ch_sequence r) rows))"

lemma page_scan_full:
  "page_scan query limit rows items bytes after scanned = Page_Full its \<Longrightarrow> length items \<le> limit \<Longrightarrow>
     \<exists>got rest. filter (row_matches query) rows = got @ rest \<and> its = items @ got \<and> rest \<noteq> []
       \<and> length its \<le> limit"
proof (induction query limit rows items bytes after scanned rule: page_scan.induct)
  case (1 query limit items bytes after scanned)
  then show ?case by simp
next
  case (2 query limit item rows items bytes after scanned)
  show ?case
  proof (cases "row_matches query item")
    case False
    then show ?thesis using 2 by simp
  next
    case m: True
    show ?thesis
    proof (cases "length items = limit \<or> (0 < length items \<and> PAGE_BYTES < bytes + length (ch_content item))")
      case True
      then show ?thesis using 2 m by (auto simp: Let_def)
    next
      case False
      then have "length (items @ [item]) \<le> limit" using 2(4) by auto
      then show ?thesis using 2(2) [OF _ refl] 2(3) m False by (fastforce simp: Let_def)
    qed
  qed
qed

lemma page_scan_next:
  "page_scan query limit rows items bytes after scanned = Page_Next its bts aft scd \<Longrightarrow>
     length items \<le> limit \<Longrightarrow>
     its = items @ filter (row_matches query) rows \<and> length its \<le> limit
     \<and> aft = (if rows = [] then after else ch_sequence (last rows))
     \<and> scd = scanned + length rows"
proof (induction query limit rows items bytes after scanned rule: page_scan.induct)
  case (1 query limit items bytes after scanned)
  then show ?case by simp
next
  case (2 query limit item rows items bytes after scanned)
  show ?case
  proof (cases "row_matches query item")
    case False
    then show ?thesis using 2 by (auto simp: Let_def split: if_splits)
  next
    case m: True
    have nf: "\<not> (length items = limit \<or> (0 < length items \<and> PAGE_BYTES < bytes + length (ch_content item)))"
      using 2(3) m by (auto simp: Let_def)
    then have le: "length (items @ [item]) \<le> limit" using 2(4) by auto
    then show ?thesis using 2(2) [OF _ refl nf] 2(3) m nf by (auto simp: Let_def split: if_splits)
  qed
qed

lemma sorted_filter_split:
  fixes rows :: "log_chunk list"
  assumes "sorted_wrt (\<lambda>a b. ch_sequence a < ch_sequence b) rows"
    and "rows = got @ rest" "got \<noteq> []"
  shows "filter (\<lambda>r. ch_sequence (last got) < ch_sequence r) rows = rest"
proof -
  have "\<forall>r\<in>set got. ch_sequence r \<le> ch_sequence (last got)"
  proof
    fix r assume "r \<in> set got"
    obtain init l where g: "got = init @ [l]" using assms(3) by (cases got rule: rev_cases) auto
    with \<open>r \<in> set got\<close> show "ch_sequence r \<le> ch_sequence (last got)"
      using assms(1,2) by (auto simp: sorted_wrt_append)
  qed
  moreover have "\<forall>r\<in>set rest. ch_sequence (last got) < ch_sequence r"
    using assms by (auto simp: sorted_wrt_append)
  ultimately show ?thesis
    using assms(2) by (auto simp: filter_empty_conv not_less filter_id_conv)
qed

text \<open>
  With a reader over sorted rows the loop ends (one unit of fuel per remaining row and one more are
  enough), the page is a prefix of the matching rows within the limit, and \<open>hasMore\<close> says
  exactly whether a matching row is left; a search that scans too many rows fails instead.
\<close>

definition page_ok ::
  "string option \<Rightarrow> nat \<Rightarrow> log_chunk list \<Rightarrow> log_chunk list \<Rightarrow>
   (domain_error + log_chunk list \<times> bool) \<Rightarrow> bool" where
  "page_ok query limit items rest res \<longleftrightarrow>
     (case res of
        Inl e \<Rightarrow> searching query \<and> e = DomainError ''PLATFORM_LOG_QUERY_TOO_BROAD''
      | Inr (its, hasMore) \<Rightarrow> length its \<le> limit \<and>
          (\<exists>got left. filter (row_matches query) rest = got @ left \<and> its = items @ got
             \<and> (hasMore \<longleftrightarrow> left \<noteq> [])))"

lemma page_ok_InrI:
  "length its \<le> limit \<Longrightarrow> filter (row_matches query) rest = got @ left \<Longrightarrow> its = items @ got \<Longrightarrow>
     hasMore = (left \<noteq> []) \<Longrightarrow> page_ok query limit items rest (Inr (its, hasMore))"
  by (auto simp: page_ok_def)

lemma page_ok_InlI:
  "searching query \<Longrightarrow>
     page_ok query limit items rest (Inl (DomainError ''PLATFORM_LOG_QUERY_TOO_BROAD''))"
  by (simp add: page_ok_def)

lemma page_ok_extend:
  assumes "page_ok query limit (items @ got0) rest1 res"
    and "filter (row_matches query) rest = got0 @ filter (row_matches query) rest1"
  shows "page_ok query limit items rest res"
  using assms by (fastforce simp: page_ok_def split: sum.splits prod.splits)

lemma filter_filter_absorb: "(\<And>x. Q x \<Longrightarrow> P x) \<Longrightarrow> filter Q (filter P xs) = filter Q xs"
  by (induction xs) auto

lemma page_loop_correct:
  assumes "sorted_wrt (\<lambda>a b. ch_sequence a < ch_sequence b) rows"
    and "rest = filter (\<lambda>r. after < ch_sequence r) rows"
    and "length rest < fuel" "length items \<le> limit"
  shows "\<exists>res. page_loop fuel query limit (reader rows) items bytes after scanned = Some res
    \<and> page_ok query limit items rest res"
  using assms
proof (induction fuel arbitrary: rest items bytes after scanned)
  case 0
  then show ?case by simp
next
  case (Suc fuel)
  define n where "n = min LOG_READ_ROWS (if searching query then LOG_READ_ROWS else limit + 1 - length items)"
  have n: "0 < n" using Suc.prems(4) by (auto simp: n_def LOG_READ_ROWS_def)
  define blk where "blk = take n rest"
  have rd: "reader rows after n = Inr blk" by (simp add: reader_def blk_def Suc.prems(2))
  have split: "filter (row_matches query) rest
      = filter (row_matches query) blk @ filter (row_matches query) (drop n rest)"
    unfolding blk_def by (metis append_take_drop_id filter_append)
  have step: "page_loop (Suc fuel) query limit (reader rows) items bytes after scanned =
      (case page_scan query limit blk items bytes after scanned of
         Page_Full its \<Rightarrow> Some (Inr (its, True))
       | Page_Next its bts aft scd \<Rightarrow>
           if length blk < n then Some (Inr (its, False))
           else if searching query \<and> SEARCH_ROWS \<le> scd
             then Some (Inl (DomainError ''PLATFORM_LOG_QUERY_TOO_BROAD''))
           else page_loop fuel query limit (reader rows) its bts aft scd)"
    using rd by (simp add: n_def [symmetric] Let_def)
  show ?case
  proof (cases "page_scan query limit blk items bytes after scanned")
    case (Page_Full its)
    then obtain got left where f: "filter (row_matches query) blk = got @ left" "its = items @ got"
        "left \<noteq> []" "length its \<le> limit"
      using page_scan_full [OF Page_Full Suc.prems(4)] by blast
    have "page_ok query limit items rest (Inr (its, True))"
      using f split
      by (intro page_ok_InrI [where got = got and left = "left @ filter (row_matches query) (drop n rest)"])
        (simp_all only: append_assoc append_is_Nil_conv simp_thms not_False_eq_True)
    then show ?thesis
      unfolding step Page_Full by simp
  next
    case (Page_Next its bts aft scd)
    note nx = page_scan_next [OF Page_Next Suc.prems(4)]
    show ?thesis
    proof (cases "length blk < n")
      case True
      then have "drop n rest = []" by (simp add: blk_def)
      then have "page_ok query limit items rest (Inr (its, False))"
        using nx split
        by (intro page_ok_InrI [where got = "filter (row_matches query) blk" and left = "[]"]) auto
      then show ?thesis
        unfolding step Page_Next using True by simp
    next
      case full: False
      show ?thesis
      proof (cases "searching query \<and> SEARCH_ROWS \<le> scd")
        case True
        then show ?thesis
          unfolding step Page_Next using full page_ok_InlI by simp
      next
        case False
        have ne: "blk \<noteq> []" using full n by auto
        have srt: "sorted_wrt (\<lambda>a b. ch_sequence a < ch_sequence b) rest"
          using Suc.prems(1,2) sorted_wrt_filter by blast
        have aft: "aft = ch_sequence (last blk)" using nx ne by simp
        have "last blk \<in> set rest" using ne by (metis blk_def in_set_takeD last_in_set)
        then have gt: "after < aft" using Suc.prems(2) aft by auto
        have "filter (\<lambda>r. aft < ch_sequence r) rest = drop n rest"
          unfolding aft using sorted_filter_split [OF srt _ ne, of "drop n rest"]
          by (simp add: blk_def)
        moreover have "filter (\<lambda>r. aft < ch_sequence r) rest = filter (\<lambda>r. aft < ch_sequence r) rows"
          unfolding Suc.prems(2) using gt by (intro filter_filter_absorb) linarith
        ultimately have rest': "drop n rest = filter (\<lambda>r. aft < ch_sequence r) rows" by simp
        have fuel: "length (drop n rest) < fuel"
          using Suc.prems(3) full n by (auto simp: blk_def)
        have lim: "length its \<le> limit" using nx by blast
        obtain res where res: "page_loop fuel query limit (reader rows) its bts aft scd = Some res"
            "page_ok query limit its (drop n rest) res"
          using Suc.IH [OF Suc.prems(1) rest' fuel lim] by blast
        have "page_ok query limit items rest res"
          using res(2) split unfolding conjunct1 [OF nx] by (rule page_ok_extend)
        then show ?thesis
          unfolding step Page_Next using full False res(1) by auto
      qed
    qed
  qed
qed

lemma readAttemptLogPage_correct:
  assumes "sorted_wrt (\<lambda>a b. ch_sequence a < ch_sequence b) rows" "length rows < fuel"
  shows "\<exists>res. readAttemptLogPage fuel query after limit (reader rows) = Some res
    \<and> page_ok query (nat (max 1 (min limit 500))) []
         (filter (\<lambda>r. after < ch_sequence r) rows) res"
  unfolding readAttemptLogPage_def
  using assms le_less_trans [OF length_filter_le assms(2)]
  by (intro page_loop_correct) simp_all

subsection \<open>The codec scheduler\<close>

text \<open>
  Reads go first, but after \<open>maximumConsecutiveReads\<close> of them a waiting write gets its turn. The
  queues hold task identifiers; \<open>schedule_read\<close> and \<open>schedule_write\<close> enqueue, \<open>codec_dispatch\<close>
  starts tasks while fewer than \<open>concurrency\<close> run, and \<open>finish_task\<close> is the \<open>finally\<close> callback.
  The calls of \<open>dispatch\<close> are left to the step that makes them: \<open>concurrency\<close> bounds the loop.
\<close>

definition LOG_CODEC_CONCURRENCY :: nat where "LOG_CODEC_CONCURRENCY = 2"

definition MAXIMUM_CONSECUTIVE_LOG_READS :: nat where "MAXIMUM_CONSECUTIVE_LOG_READS = 4"

record codec_scheduler =
  sc_active :: nat
  sc_consecutive_reads :: nat
  sc_reads :: "nat list"
  sc_writes :: "nat list"

definition nextTask :: "nat \<Rightarrow> codec_scheduler \<Rightarrow> nat option \<times> codec_scheduler" where
  "nextTask maxReads sc =
     (if sc_reads sc \<noteq> [] \<and> (sc_writes sc = [] \<or> sc_consecutive_reads sc < maxReads)
        then (Some (hd (sc_reads sc)),
              sc\<lparr>sc_consecutive_reads := sc_consecutive_reads sc + 1, sc_reads := tl (sc_reads sc)\<rparr>)
      else case sc_writes sc of
        w # ws \<Rightarrow> (Some w, sc\<lparr>sc_consecutive_reads := 0, sc_writes := ws\<rparr>)
      | [] \<Rightarrow> (case sc_reads sc of
                 [] \<Rightarrow> (None, sc)
               | r # rs \<Rightarrow> (Some r, sc\<lparr>sc_reads := rs\<rparr>)))"

fun dispatch_tasks :: "nat \<Rightarrow> nat \<Rightarrow> codec_scheduler \<Rightarrow> nat list \<times> codec_scheduler" where
  "dispatch_tasks maxReads 0 sc = ([], sc)"
| "dispatch_tasks maxReads (Suc free) sc =
     (case nextTask maxReads sc of
        (None, sc') \<Rightarrow> ([], sc')
      | (Some t, sc') \<Rightarrow>
          let (ts, sc'') = dispatch_tasks maxReads free (sc'\<lparr>sc_active := sc_active sc' + 1\<rparr>)
          in (t # ts, sc''))"

definition codec_dispatch ::
  "nat \<Rightarrow> nat \<Rightarrow> codec_scheduler \<Rightarrow> nat list \<times> codec_scheduler" where
  "codec_dispatch maxReads concurrency sc =
     dispatch_tasks maxReads (concurrency - sc_active sc) sc"

definition scheduleRead :: "nat \<Rightarrow> nat \<Rightarrow> nat \<Rightarrow> codec_scheduler \<Rightarrow> nat list \<times> codec_scheduler" where
  "scheduleRead maxReads concurrency task sc =
     codec_dispatch maxReads concurrency (sc\<lparr>sc_reads := sc_reads sc @ [task]\<rparr>)"

definition scheduleWrite :: "nat \<Rightarrow> nat \<Rightarrow> nat \<Rightarrow> codec_scheduler \<Rightarrow> nat list \<times> codec_scheduler" where
  "scheduleWrite maxReads concurrency task sc =
     codec_dispatch maxReads concurrency (sc\<lparr>sc_writes := sc_writes sc @ [task]\<rparr>)"

definition finish_task :: "nat \<Rightarrow> nat \<Rightarrow> codec_scheduler \<Rightarrow> nat list \<times> codec_scheduler" where
  "finish_task maxReads concurrency sc =
     codec_dispatch maxReads concurrency (sc\<lparr>sc_active := sc_active sc - 1\<rparr>)"

text \<open>The number of tasks the scheduler hands out before the first waiting write.\<close>

fun serve :: "nat \<Rightarrow> nat \<Rightarrow> codec_scheduler \<Rightarrow> nat list" where
  "serve maxReads 0 sc = []"
| "serve maxReads (Suc n) sc =
     (case nextTask maxReads sc of
        (None, _) \<Rightarrow> []
      | (Some t, sc') \<Rightarrow> t # serve maxReads n sc')"

text \<open>A waiting write is served after at most \<open>maxReads\<close> reads, whatever is queued.\<close>

lemma write_not_starved:
  assumes "sc_writes sc = w # ws" "maxReads - sc_consecutive_reads sc < n"
  shows "w \<in> set (serve maxReads n sc)"
  using assms
proof (induction n arbitrary: sc)
  case 0
  then show ?case by simp
next
  case (Suc n)
  show ?case
  proof (cases "sc_reads sc \<noteq> [] \<and> sc_consecutive_reads sc < maxReads")
    case True
    let ?sc = "sc\<lparr>sc_consecutive_reads := sc_consecutive_reads sc + 1, sc_reads := tl (sc_reads sc)\<rparr>"
    have nx: "nextTask maxReads sc = (Some (hd (sc_reads sc)), ?sc)"
      using True by (simp add: nextTask_def)
    have "w \<in> set (serve maxReads n ?sc)"
      using Suc.prems True by (intro Suc.IH) auto
    then show ?thesis by (simp add: nx)
  next
    case False
    then have "nextTask maxReads sc = (Some w, sc\<lparr>sc_consecutive_reads := 0, sc_writes := ws\<rparr>)"
      using Suc.prems(1) by (auto simp: nextTask_def)
    then show ?thesis by simp
  qed
qed

lemma nextTask_queues:
  assumes "nextTask m sc = (Some t, sc')"
  shows "mset (sc_reads sc @ sc_writes sc) = add_mset t (mset (sc_reads sc' @ sc_writes sc'))"
    and "sc_active sc' = sc_active sc"
  using assms by (auto simp: nextTask_def neq_Nil_conv split: if_splits list.splits)

lemma dispatch_tasks_active:
  assumes "dispatch_tasks m n sc = (ts, sc')"
  shows "sc_active sc' = sc_active sc + length ts" "length ts \<le> n"
    "mset (sc_reads sc @ sc_writes sc) = mset ts + mset (sc_reads sc' @ sc_writes sc')"
  using assms
proof (induction n arbitrary: sc ts sc')
  case 0
  { case 1 then show ?case using 0 by simp }
  { case 2 then show ?case using 0 by simp }
  { case 3 then show ?case using 0 by simp }
next
  case (Suc n)
  have "sc_active sc' = sc_active sc + length ts \<and> length ts \<le> Suc n
      \<and> mset (sc_reads sc @ sc_writes sc) = mset ts + mset (sc_reads sc' @ sc_writes sc')"
    if run: "dispatch_tasks m (Suc n) sc = (ts, sc')" for sc ts sc'
  proof (cases "nextTask m sc")
    case (Pair t sc1)
    show ?thesis
    proof (cases t)
      case None
      have "sc1 = sc" using Pair None
        by (auto simp: nextTask_def split: if_splits list.splits)
      then show ?thesis using run Pair None by auto
    next
      case (Some x)
      obtain us sc2 where r: "dispatch_tasks m n (sc1\<lparr>sc_active := sc_active sc1 + 1\<rparr>) = (us, sc2)"
        by fastforce
      have "ts = x # us" "sc' = sc2" using run Pair Some r by auto
      moreover have "sc_active sc1 = sc_active sc"
          "mset (sc_reads sc @ sc_writes sc) = add_mset x (mset (sc_reads sc1 @ sc_writes sc1))"
        using nextTask_queues [of m sc x sc1] Pair Some by simp_all
      ultimately show ?thesis using Suc.IH [OF r] by auto
    qed
  qed
  then show "sc_active sc' = sc_active sc + length ts"
    "length ts \<le> Suc n"
    "mset (sc_reads sc @ sc_writes sc) = mset ts + mset (sc_reads sc' @ sc_writes sc')"
    if "dispatch_tasks m (Suc n) sc = (ts, sc')" for sc ts sc'
    using that by blast+
qed

end
