(* ===== verification/Exec_Store.thy ===== *)
theory Exec_Store
  imports Lifecycle Queue_Timing Attempt_Logs "HOL-Library.Option_ord"
begin

text \<open>
  The tables of \<open>packages/db/src/schema.ts\<close> that \<open>sqlite-execution-control.ts\<close> works on, and the
  reads of that repository class. A table is the list of its rows in insertion order, a column the
  field of the same name behind a two-letter prefix; \<open>NULL\<close> is \<open>None\<close>. Columns no modelled
  statement reads or writes are left out. JSON columns hold the value the code parses from them
  (the execution specification, the stored response), so a row with unreadable JSON is not a row of
  the model. Foreign keys and unique indexes: a violated unique key is a \<open>ConstraintError\<close> of the
  statement, see \<open>insert_row\<close>.
\<close>

record batch_row =
  bt_id :: ident
  bt_project_id :: ident
  bt_sequence_number :: int
  bt_suite_id :: ident
  bt_case_log_rerun :: bool
  bt_public_request_key :: "(ident \<times> ident \<times> string) option"
  bt_status :: batch_status
  bt_retry_limit :: int
  bt_retry_mode :: retry_mode
  bt_current_round :: int
  bt_queue_timeout_ms :: int
  bt_claim_timeout_ms :: int
  bt_execution_timeout_ms :: int
  bt_upload_timeout_ms :: int
  bt_priority :: int
  bt_environment :: "(string \<times> string) list"
  bt_secret_bindings :: "(string \<times> ident \<times> ident) list"
  bt_policy :: "batch_policy option"
  bt_terminated_by :: "string option"
  bt_attempt_logs_path :: "string option"
  bt_cancel_requested_at :: "time option"
  bt_pause_requested_at :: "time option"
  bt_queue_resumed_at :: "time option"
  bt_version :: int
  bt_updated_at :: time

record run_row =
  rr_id :: ident
  rr_batch_id :: ident
  rr_case_definition_id :: ident
  rr_display_name :: string
  rr_class_data :: "string option"
  rr_class_data_size :: "int option"
  rr_class_data_sha256 :: "string option"
  rr_status :: run_status
  rr_assigned_runner_id :: "ident option"
  rr_attempt_count :: int
  rr_execution_round :: int
  rr_scheduling_score :: "rat option"
  rr_version :: int
  rr_terminal_outcome :: "attempt_outcome option"
  rr_terminal_reason_code :: "string option"
  rr_cancel_requested_at :: "time option"
  rr_queue_deadline_at :: "time option"
  rr_execution_timeout_ms :: int
  rr_upload_timeout_ms :: int
  rr_assigned_at :: "time option"
  rr_held_round :: int
  rr_updated_at :: time

record attempt_row =
  at_id :: ident
  at_run_id :: ident
  at_runner_id :: ident
  at_number :: int
  at_round :: int
  at_status :: attempt_status
  at_scheduling_score :: rat
  at_created_at :: time
  at_version :: int
  at_started_at :: "time option"
  at_upload_started_at :: "time option"
  at_finished_at :: "time option"
  at_outcome :: "attempt_outcome option"
  at_result_code :: "string option"
  at_result_summary :: "string option"
  at_completion_digest :: "string option"
  at_duration_ms :: "int option"
  at_test_ng :: "test_ng_details option"

text \<open>
  Execution specifications, the JSON an assignment carries to the agent (\<open>executionSpecSchema\<close> of
  \<open>packages/contracts\<close>). Constant fields (\<open>schemaVersion\<close>, \<open>methodDescriptors: []\<close>, the operating
  system and versions of \<open>runtimeRequirements\<close>) are left out.
\<close>

datatype input_kind = Jdk_Archive | Jar_Bundle | Class_Data | Other_Input string

record execution_input =
  xi_input_id :: ident
  xi_kind :: input_kind
  xi_target_path :: string
  xi_download_url :: "string option"
  xi_size :: int
  xi_sha256 :: string
  xi_media_type :: string

record resource_limits =
  xl_cpu_millicores :: int
  xl_memory_bytes :: int
  xl_disk_bytes :: int
  xl_process_count :: int
  xl_file_count :: int
  xl_log_bytes :: int
  xl_artifact_bytes :: int

record ddt_scope =
  ds_project_id :: ident
  ds_project_version_id :: ident
  ds_test_stage_id :: ident

record spec_adapter =
  sa_suite_name :: string
  sa_test_name :: string
  sa_environment_address :: string
  sa_case_timeout_seconds :: int
  sa_case_id :: "string option"
  sa_ddt_scope :: "(ddt_scope \<times> string option) option"

record execution_spec =
  sp_executor :: executor_kind
  sp_attempt_id :: ident
  sp_run_id :: ident
  sp_batch_id :: ident
  sp_class_name :: string
  sp_parameters :: "(string \<times> string) list"
  sp_adapter :: "spec_adapter option"
  sp_inputs :: "execution_input list"
  sp_environment :: "(string \<times> string) list"
  sp_secret_references :: "(string \<times> ident \<times> ident) list"
  sp_required_labels :: "string list"
  sp_required_capabilities :: "string list"
  sp_artifact_rules :: "(string \<times> string) list"
  sp_timeout_ms :: int
  sp_upload_timeout_ms :: int
  sp_resource_limits :: resource_limits

record assignment_row =
  as_id :: ident
  as_attempt_id :: ident
  as_run_id :: ident
  as_batch_id :: ident
  as_runner_id :: ident
  as_status :: assignment_status
  as_priority :: int
  as_spec :: execution_spec
  as_available_at :: time
  as_claim_deadline_at :: time
  as_claimed_at :: "time option"
  as_completed_at :: "time option"
  as_cancel_requested_at :: "time option"
  as_version :: int
  as_created_at :: time
  as_updated_at :: time

record lease_row =
  ls_id :: ident
  ls_assignment_id :: ident
  ls_runner_id :: ident
  ls_token_hash :: string
  ls_token_encrypted :: string
  ls_status :: lease_status
  ls_version :: int
  ls_expires_at :: time
  ls_renewed_at :: time
  ls_created_at :: time

datatype disposition = Accepted | Duplicate | Late

record complete_response =
  cp_completion_id :: ident
  cp_accepted_at :: time
  cp_disposition :: disposition
  cp_retry_scheduled :: bool
  cp_batch_id :: "ident option"
  cp_batch_closed :: "bool option"
  cp_has_schedulable_runs :: "bool option"

record receipt_row =
  rc_attempt_id :: ident
  rc_completion_id :: ident
  rc_result_digest :: string
  rc_response :: complete_response
  rc_accepted_at :: time

record claim_request_row =
  cq_runner_id :: ident
  cq_request_id :: ident
  cq_references :: "(ident \<times> ident) list"
  cq_created_at :: time

datatype actor_type = Actor_User | Actor_Runner | Actor_System

datatype event_details =
    Claim_Details ident ident time
  | Conflict_Details ident string string
  | Completed_Details string bool
  | Expired_Details bool
  | Cancelled_Details string

record attempt_event_row =
  ev_id :: ident
  ev_attempt_id :: ident
  ev_type :: string
  ev_from_status :: "attempt_status option"
  ev_to_status :: "attempt_status option"
  ev_reason_code :: "string option"
  ev_actor_type :: actor_type
  ev_actor_id :: "ident option"
  ev_details :: event_details
  ev_recorded_at :: time

record batch_event_row =
  be_id :: ident
  be_batch_id :: ident
  be_from_status :: "batch_status option"
  be_to_status :: batch_status
  be_batch_version :: int
  be_reason :: string
  be_recorded_at :: time

datatype recovery_status =
    RV_Idle | RV_Pending | RV_Polling | RV_Waiting | RV_Releasing
  | RV_Succeeded | RV_Failed | RV_Cancelled

record recovery_row =
  rv_batch_id :: ident
  rv_rule_id :: ident
  rv_after_round :: int
  rv_next_round :: int
  rv_jenkins_job_url :: string
  rv_api_key_ciphertext :: string
  rv_wait_minutes :: int
  rv_status :: recovery_status
  rv_poll_failure_count :: int
  rv_source_build_number :: "int option"
  rv_rebuild_number :: "int option"
  rv_rebuild_url :: "string option"
  rv_available_at :: time
  rv_activated_at :: "time option"
  rv_started_at :: "string option"
  rv_finished_at :: "string option"
  rv_build_result :: "string option"
  rv_error_message :: "string option"
  rv_lease_owner :: "string option"
  rv_lease_expires_at :: "time option"
  rv_created_at :: time
  rv_updated_at :: time

text \<open>Concurrency of the retry rounds: the active rule of a batch, and what each round started with.\<close>

record retry_state_row =
  rw_batch_id :: ident
  rw_rule_id :: string
  rw_rule_index :: int
  rw_concurrency :: int
  rw_activated_round :: int
  rw_updated_at :: time

datatype concurrency_source = Base_Concurrency | Inherited_Rule | Rule_Transition

record round_concurrency_row =
  ry_batch_id :: ident
  ry_round :: int
  ry_concurrency :: int
  ry_source :: concurrency_source
  ry_rule_id :: "string option"
  ry_previous :: "int option"
  ry_recorded_at :: time

datatype artifact_status = Declared | Uploaded | Rejected

record artifact_row =
  af_id :: ident
  af_attempt_id :: ident
  af_relative_path :: string
  af_object_key :: "string option"
  af_media_type :: string
  af_size :: int
  af_sha256 :: string
  af_required :: bool
  af_status :: artifact_status
  af_created_at :: time
  af_updated_at :: time

record scheduling_event =
  se_id :: ident
  se_batch_id :: ident
  se_runner_id :: "ident option"
  se_run_id :: "ident option"
  se_attempt_id :: "ident option"
  se_type :: string
  se_message :: string
  se_payload :: "(string \<times> string) list option"
  se_recorded_at :: time

record stored_object =
  so_id :: ident
  so_object_key :: string
  so_size :: int
  so_sha256 :: string

record store =
  st_batches :: "batch_row list"
  st_runs :: "run_row list"
  st_attempts :: "attempt_row list"
  st_assignments :: "assignment_row list"
  st_leases :: "lease_row list"
  st_receipts :: "receipt_row list"
  st_claims :: "claim_request_row list"
  st_attempt_events :: "attempt_event_row list"
  st_batch_events :: "batch_event_row list"
  st_recoveries :: "recovery_row list"
  st_artifacts :: "artifact_row list"
  st_sched_events :: "scheduling_event list"
  st_case_sources :: "stored_object list"
  st_runtime_uploads :: "stored_object list"
  st_logs :: log_store
  st_retry_states :: "retry_state_row list"
  st_round_concurrencies :: "round_concurrency_row list"

subsection \<open>Primary-key reads\<close>

definition find_batch :: "store \<Rightarrow> ident \<Rightarrow> batch_row option" where
  "find_batch s k = row_by bt_id k (st_batches s)"

definition find_run :: "store \<Rightarrow> ident \<Rightarrow> run_row option" where
  "find_run s k = row_by rr_id k (st_runs s)"

definition find_attempt :: "store \<Rightarrow> ident \<Rightarrow> attempt_row option" where
  "find_attempt s k = row_by at_id k (st_attempts s)"

definition find_assignment :: "store \<Rightarrow> ident \<Rightarrow> assignment_row option" where
  "find_assignment s k = row_by as_id k (st_assignments s)"

definition find_lease :: "store \<Rightarrow> ident \<Rightarrow> lease_row option" where
  "find_lease s k = row_by ls_id k (st_leases s)"

definition find_receipt :: "store \<Rightarrow> ident \<Rightarrow> receipt_row option" where
  "find_receipt s k = row_by rc_attempt_id k (st_receipts s)"

lemmas find_defs = find_batch_def find_run_def find_attempt_def find_assignment_def
  find_lease_def find_receipt_def

definition requiredAssignment :: "store \<Rightarrow> ident \<Rightarrow> domain_error + assignment_row" where
  "requiredAssignment s k = found ''ASSIGNMENT_NOT_FOUND'' (find_assignment s k)"

definition requiredLease :: "store \<Rightarrow> ident \<Rightarrow> domain_error + lease_row" where
  "requiredLease s k = found ''LEASE_NOT_FOUND'' (find_lease s k)"

definition assignmentForAttempt :: "store \<Rightarrow> ident \<Rightarrow> assignment_row option" where
  "assignmentForAttempt s attemptId = row_by as_attempt_id attemptId (st_assignments s)"

definition activeLeaseForAssignment :: "store \<Rightarrow> ident \<Rightarrow> lease_row option" where
  "activeLeaseForAssignment s assignmentId =
     latest_by ls_created_at
       (filter (\<lambda>l. ls_assignment_id l = assignmentId \<and> ls_status l = L_Active) (st_leases s))"

definition latestLeaseForAssignment :: "store \<Rightarrow> ident \<Rightarrow> lease_row option" where
  "latestLeaseForAssignment s assignmentId =
     latest_by ls_created_at (filter (\<lambda>l. ls_assignment_id l = assignmentId) (st_leases s))"

subsection \<open>The joined row of an attempt\<close>

record attempt_control =
  ac_id :: ident
  ac_run_id :: ident
  ac_runner_id :: ident
  ac_attempt_number :: int
  ac_execution_round :: int
  ac_status :: attempt_status
  ac_run_status :: run_status
  ac_retry_limit :: int
  ac_retry_mode :: retry_mode
  ac_queue_timeout_ms :: int
  ac_batch_id :: ident
  ac_project_id :: ident
  ac_run_cancel_requested_at :: "time option"
  ac_batch_termination_requested_at :: "time option"

definition control_of :: "attempt_row \<Rightarrow> run_row \<Rightarrow> batch_row \<Rightarrow> attempt_control" where
  "control_of a r b =
     \<lparr>ac_id = at_id a, ac_run_id = at_run_id a, ac_runner_id = at_runner_id a,
      ac_attempt_number = at_number a, ac_execution_round = at_round a, ac_status = at_status a,
      ac_run_status = rr_status r, ac_retry_limit = bt_retry_limit b,
      ac_retry_mode = bt_retry_mode b, ac_queue_timeout_ms = bt_queue_timeout_ms b,
      ac_batch_id = bt_id b, ac_project_id = bt_project_id b,
      ac_run_cancel_requested_at = rr_cancel_requested_at r,
      ac_batch_termination_requested_at = bt_cancel_requested_at b\<rparr>"

text \<open>\<open>run_attempts JOIN execution_runs JOIN run_batches\<close>, all three by primary key.\<close>

definition joined_attempt :: "store \<Rightarrow> ident \<Rightarrow> (attempt_row \<times> run_row \<times> batch_row) option" where
  "joined_attempt s attemptId =
     (case find_attempt s attemptId of
        None \<Rightarrow> None
      | Some a \<Rightarrow> (case find_run s (at_run_id a) of
          None \<Rightarrow> None
        | Some r \<Rightarrow> map_option (\<lambda>b. (a, r, b)) (find_batch s (rr_batch_id r))))"

definition findAttemptControl :: "store \<Rightarrow> ident \<Rightarrow> attempt_control option" where
  "findAttemptControl s attemptId =
     map_option (\<lambda>(a, r, b). control_of a r b) (joined_attempt s attemptId)"

record completion_opening =
  op_control :: attempt_control
  op_assignment :: "assignment_row option"
  op_lease :: "lease_row option"
  op_latest_attempt_number :: "int option"
  op_batch_status :: batch_status
  op_display_name :: string
  op_held_round :: int

definition max_attempt_number :: "store \<Rightarrow> ident \<Rightarrow> int option" where
  "max_attempt_number s runId =
     (let ns = map at_number (filter (\<lambda>a. at_run_id a = runId) (st_attempts s))
      in if ns = [] then None else Some (Max (set ns)))"

definition completionOpening :: "store \<Rightarrow> ident \<Rightarrow> completion_opening option" where
  "completionOpening s attemptId =
     map_option
       (\<lambda>(a, r, b).
          let assignment = assignmentForAttempt s attemptId
          in \<lparr>op_control = control_of a r b, op_assignment = assignment,
              op_lease = (case assignment of None \<Rightarrow> None
                          | Some x \<Rightarrow> latestLeaseForAssignment s (as_id x)),
              op_latest_attempt_number = max_attempt_number s (at_run_id a),
              op_batch_status = bt_status b, op_display_name = rr_display_name r,
              op_held_round = rr_held_round r\<rparr>)
       (joined_attempt s attemptId)"

subsection \<open>Small reads\<close>

definition failureCounts :: "store \<Rightarrow> ident \<Rightarrow> int \<times> int" where
  "failureCounts s runId =
     (let rows = filter (\<lambda>a. at_run_id a = runId \<and> at_status a \<in> {T_Failed, T_Timed_Out})
                   (st_attempts s)
      in (int (length (filter (\<lambda>a. isRetryableRunnerFailure (at_result_code a)) rows)),
          int (length (filter (\<lambda>a. \<not> isRetryableRunnerFailure (at_result_code a)) rows))))"

definition exec_hasSchedulableRuns :: "store \<Rightarrow> ident \<Rightarrow> bool" where
  "exec_hasSchedulableRuns s batchId \<longleftrightarrow>
     (\<exists>r\<in>set (st_runs s). rr_batch_id r = batchId \<and> rr_status r = R_Queued \<and> rr_held_round r = 0)"

definition requiredBatchIdForAttempt :: "store \<Rightarrow> ident \<Rightarrow> domain_error + ident" where
  "requiredBatchIdForAttempt s attemptId =
     found ''RUN_ATTEMPT_NOT_FOUND''
       (case find_attempt s attemptId of None \<Rightarrow> None
        | Some a \<Rightarrow> map_option rr_batch_id (find_run s (at_run_id a)))"

definition resolveAttemptProjectId :: "store \<Rightarrow> ident \<Rightarrow> ident option" where
  "resolveAttemptProjectId s attemptId =
     map_option (\<lambda>(a, r, b). bt_project_id b) (joined_attempt s attemptId)"

definition resolveExecutionRunProjectId :: "store \<Rightarrow> ident \<Rightarrow> ident option" where
  "resolveExecutionRunProjectId s runId =
     (case find_run s runId of None \<Rightarrow> None
      | Some r \<Rightarrow> map_option bt_project_id (find_batch s (rr_batch_id r)))"

subsection \<open>Appending events\<close>

definition appendAttemptEvent :: "attempt_event_row \<Rightarrow> store \<Rightarrow> domain_error + store" where
  "appendAttemptEvent e s =
     and_then (insert_row ev_id e (st_attempt_events s))
       (\<lambda>rows. Inr (s\<lparr>st_attempt_events := rows\<rparr>))"

definition insert_batch_event :: "batch_event_row \<Rightarrow> store \<Rightarrow> domain_error + store" where
  "insert_batch_event e s =
     and_then (insert_row be_id e (st_batch_events s))
       (\<lambda>rows. Inr (s\<lparr>st_batch_events := rows\<rparr>))"

fun appendSchedulingEventDrafts :: "scheduling_event list \<Rightarrow> store \<Rightarrow> domain_error + store" where
  "appendSchedulingEventDrafts [] s = Inr s"
| "appendSchedulingEventDrafts (e # es) s =
     and_then (insert_row se_id e (st_sched_events s))
       (\<lambda>rows. appendSchedulingEventDrafts es (s\<lparr>st_sched_events := rows\<rparr>))"

subsection \<open>Predicates of the statements\<close>

abbreviation open_assignment :: "assignment_status \<Rightarrow> bool" where
  "open_assignment st \<equiv> st \<in> {A_Pending, A_Claimed, A_Running}"

abbreviation leased_assignment :: "assignment_status \<Rightarrow> bool" where
  "leased_assignment st \<equiv> st \<in> {A_Claimed, A_Running}"

abbreviation active_attempt :: "attempt_status \<Rightarrow> bool" where
  "active_attempt st \<equiv> st \<in> {T_Assigned, T_Running}"

abbreviation busy_run :: "run_status \<Rightarrow> bool" where
  "busy_run st \<equiv> st \<in> {R_Assigned, R_Running}"

abbreviation active_batch :: "batch_status \<Rightarrow> bool" where
  "active_batch st \<equiv> st \<in> {B_Queued, B_Dispatching, B_Scheduled, B_Running}"

text \<open>An assignment with a lease that is active and not expired at \<open>now\<close>.\<close>

definition validly_leased :: "store \<Rightarrow> time \<Rightarrow> assignment_row \<Rightarrow> bool" where
  "validly_leased s now a \<longleftrightarrow>
     leased_assignment (as_status a) \<and>
     (\<exists>l\<in>set (st_leases s). ls_assignment_id l = as_id a \<and> ls_status l = L_Active
        \<and> now < ls_expires_at l)"

lemma isTerminalAttempt_iff: "isTerminalAttemptStatus st \<longleftrightarrow> \<not> active_attempt st"
  by (cases st) auto

lemma isTerminalRun_iff: "isTerminalRunStatus st \<longleftrightarrow> st \<noteq> R_Queued \<and> \<not> busy_run st"
  by (cases st) auto

lemma isTerminalBatch_iff: "isTerminalBatchStatus st \<longleftrightarrow> \<not> active_batch st"
  by (cases st) auto

end
