(* ===== verification/Exec_Batch.thy ===== *)
theory Exec_Batch
  imports Exec_Store
begin

text \<open>
  The batch side of \<open>packages/db/src/sqlite-execution-control.ts\<close>: closing the work of a terminated
  batch, releasing the next round, aggregating the stored runs, and \<open>updateBatchStatus\<close>, the step
  every operation ends with.
\<close>

text \<open>The four statements of \<open>terminateWaitingRuns\<close>, in order.\<close>

definition close_unleased_assignments :: "ident \<Rightarrow> time \<Rightarrow> store \<Rightarrow> store" where
  "close_unleased_assignments batchId requestedAt s =
     s\<lparr>st_assignments := update_where
        (\<lambda>a. as_batch_id a = batchId \<and> open_assignment (as_status a)
             \<and> \<not> validly_leased s requestedAt a)
        (\<lambda>a. a\<lparr>as_status := A_Cancelled, as_updated_at := requestedAt,
              as_version := as_version a + 1\<rparr>)
        (st_assignments s)\<rparr>"

definition revoke_cancelled_leases :: "ident \<Rightarrow> store \<Rightarrow> store" where
  "revoke_cancelled_leases batchId s =
     s\<lparr>st_leases := update_where
        (\<lambda>l. ls_status l = L_Active \<and>
             (\<exists>a\<in>set (st_assignments s). as_id a = ls_assignment_id l
                \<and> as_batch_id a = batchId \<and> as_status a = A_Cancelled))
        (\<lambda>l. l\<lparr>ls_status := L_Revoked\<rparr>)
        (st_leases s)\<rparr>"

text \<open>The attempt has an assignment that is validly leased.\<close>

definition attempt_leased :: "store \<Rightarrow> time \<Rightarrow> ident \<Rightarrow> bool" where
  "attempt_leased s now attemptId \<longleftrightarrow>
     (\<exists>a\<in>set (st_assignments s). as_attempt_id a = attemptId \<and> validly_leased s now a)"

definition cancel_unleased_attempts :: "ident \<Rightarrow> string \<Rightarrow> time \<Rightarrow> store \<Rightarrow> store" where
  "cancel_unleased_attempts batchId reason requestedAt s =
     s\<lparr>st_attempts := update_where
        (\<lambda>t. active_attempt (at_status t) \<and>
             (\<exists>r\<in>set (st_runs s). rr_id r = at_run_id t \<and> rr_batch_id r = batchId) \<and>
             \<not> attempt_leased s requestedAt (at_id t))
        (\<lambda>t. t\<lparr>at_status := T_Cancelled, at_outcome := Some Cancelled,
              at_result_code := Some ''BATCH_TERMINATED_BEFORE_EXECUTION'',
              at_result_summary := Some reason, at_finished_at := Some requestedAt,
              at_version := at_version t + 1\<rparr>)
        (st_attempts s)\<rparr>"

definition run_undrained :: "store \<Rightarrow> ident \<Rightarrow> time \<Rightarrow> run_row \<Rightarrow> bool" where
  "run_undrained s batchId now r \<longleftrightarrow>
     rr_batch_id r = batchId \<and> \<not> isTerminalRunStatus (rr_status r) \<and>
     \<not> (\<exists>t\<in>set (st_attempts s). at_run_id t = rr_id r \<and> active_attempt (at_status t)
          \<and> attempt_leased s now (at_id t))"

definition terminateWaitingRuns :: "ident \<Rightarrow> string \<Rightarrow> time \<Rightarrow> store \<Rightarrow> nat \<times> store" where
  "terminateWaitingRuns batchId reason requestedAt s =
     (let s3 = cancel_unleased_attempts batchId reason requestedAt
                 (revoke_cancelled_leases batchId
                   (close_unleased_assignments batchId requestedAt s));
          waiting = run_undrained s3 batchId requestedAt
      in (count_where waiting (st_runs s3),
          s3\<lparr>st_runs := update_where waiting
               (\<lambda>r. r\<lparr>rr_status := R_Cancelled, rr_terminal_outcome := Some Cancelled,
                     rr_terminal_reason_code := Some ''BATCH_TERMINATED_BEFORE_EXECUTION'',
                     rr_cancel_requested_at := Some requestedAt, rr_updated_at := requestedAt,
                     rr_version := rr_version r + 1\<rparr>)
               (st_runs s3)\<rparr>))"

definition has_run_status :: "store \<Rightarrow> ident \<Rightarrow> run_status \<Rightarrow> bool" where
  "has_run_status s batchId st \<longleftrightarrow>
     (\<exists>r\<in>set (st_runs s). rr_batch_id r = batchId \<and> rr_status r = st)"

definition status_only :: "run_status \<Rightarrow> batch_run_completion" where
  "status_only st = \<lparr>brc_status = st, brc_reason = None\<rparr>"

text \<open>
  \<open>SELECT DISTINCT\<close> gives the failure codes in some order; \<open>dedup\<close> keeps table order, and the
  aggregation does not depend on it.
\<close>

definition failed_codes :: "store \<Rightarrow> ident \<Rightarrow> string option list" where
  "failed_codes s batchId =
     dedup (map rr_terminal_reason_code
       (filter (\<lambda>r. rr_batch_id r = batchId \<and> rr_status r = R_Failed) (st_runs s)))"

definition aggregateStoredBatchStatus :: "store \<Rightarrow> ident \<Rightarrow> bool \<Rightarrow> batch_status" where
  "aggregateStoredBatchStatus s batchId terminationRequested =
     (if has_run_status s batchId R_Running then aggregateBatchStatus [status_only R_Running] False
      else if has_run_status s batchId R_Assigned
        then aggregateBatchStatus
               (if has_run_status s batchId R_Queued
                  then [status_only R_Assigned, status_only R_Queued]
                else [status_only R_Assigned]) False
      else if has_run_status s batchId R_Queued then aggregateBatchStatus [status_only R_Queued] False
      else if terminationRequested \<or> has_run_status s batchId R_Cancelled
        then aggregateBatchStatus [status_only R_Cancelled] terminationRequested
      else aggregateBatchStatus
             (status_only R_Succeeded #
              map (\<lambda>c. \<lparr>brc_status = R_Failed, brc_reason = truthy_code c\<rparr>)
                (failed_codes s batchId)) False)"

text \<open>\<open>SELECT MIN(held_round)\<close> over the held runs.\<close>

definition next_round :: "store \<Rightarrow> ident \<Rightarrow> int option" where
  "next_round s batchId =
     (let held = map rr_held_round
                   (filter (\<lambda>r. rr_batch_id r = batchId \<and> rr_status r = R_Queued
                              \<and> rr_held_round r > 0) (st_runs s))
      in if held = [] then None else Some (Min (set held)))"

definition barrier_steps :: "store \<Rightarrow> ident \<Rightarrow> int \<Rightarrow> recovery_row list" where
  "barrier_steps s batchId afterRound =
     filter (\<lambda>v. rv_batch_id v = batchId \<and> rv_after_round v = afterRound) (st_recoveries s)"

definition release_round :: "ident \<Rightarrow> int \<Rightarrow> time \<Rightarrow> int \<Rightarrow> store \<Rightarrow> store" where
  "release_round batchId queueTimeoutMs updatedAt nextRound s =
     s\<lparr>st_runs := update_where
         (\<lambda>r. rr_batch_id r = batchId \<and> rr_status r = R_Queued \<and> rr_held_round r \<le> nextRound)
         (\<lambda>r. r\<lparr>rr_held_round := 0,
               rr_queue_deadline_at := Some (queueDeadlineAfter updatedAt queueTimeoutMs),
               rr_updated_at := updatedAt\<rparr>)
         (st_runs s),
       st_batches := update_where (\<lambda>b. bt_id b = batchId)
         (\<lambda>b. b\<lparr>bt_current_round := nextRound, bt_updated_at := updatedAt\<rparr>)
         (st_batches s)\<rparr>"

definition advanceRoundIfIdle :: "ident \<Rightarrow> retry_mode \<Rightarrow> int \<Rightarrow> time \<Rightarrow> store \<Rightarrow> store" where
  "advanceRoundIfIdle batchId retryMode queueTimeoutMs updatedAt s =
     (if retryMode \<noteq> Round then s
      else if 0 < count_where (\<lambda>r. rr_batch_id r = batchId \<and> busy_run (rr_status r)) (st_runs s)
        then s
      else if 0 < count_where (\<lambda>r. rr_batch_id r = batchId \<and> rr_status r = R_Queued
                                  \<and> rr_held_round r = 0) (st_runs s) then s
      else case next_round s batchId of
             None \<Rightarrow> s
           | Some nextRound \<Rightarrow>
               let steps = barrier_steps s batchId (nextRound - 1);
                   idle = count_where (\<lambda>v. rv_status v = RV_Idle) steps;
                   succeeded = count_where (\<lambda>v. rv_status v = RV_Succeeded) steps
               in if 0 < length steps \<and> 0 < idle
                    then s\<lparr>st_recoveries := update_where
                             (\<lambda>v. rv_batch_id v = batchId \<and> rv_after_round v = nextRound - 1
                                  \<and> rv_status v = RV_Idle)
                             (\<lambda>v. v\<lparr>rv_status := RV_Pending, rv_available_at := updatedAt,
                                   rv_activated_at := (case rv_activated_at v of
                                       None \<Rightarrow> Some updatedAt | Some t \<Rightarrow> Some t),
                                   rv_updated_at := updatedAt\<rparr>)
                             (st_recoveries s)\<rparr>
                  else if 0 < length steps \<and> succeeded < length steps then s
                  else release_round batchId queueTimeoutMs updatedAt nextRound s)"

text \<open>
  The batch row is read once, before the two settlement steps; the final \<open>UPDATE\<close> is guarded by the
  version read then.
\<close>

definition same_version :: "batch_row \<Rightarrow> batch_row \<Rightarrow> bool" where
  "same_version b x \<longleftrightarrow> bt_id x = bt_id b \<and> bt_version x = bt_version b"

definition put_batch_status :: "batch_row \<Rightarrow> batch_status \<Rightarrow> time \<Rightarrow> store \<Rightarrow> store" where
  "put_batch_status b status updatedAt s =
     s\<lparr>st_batches := update_where (same_version b)
        (\<lambda>x. x\<lparr>bt_status := status, bt_updated_at := updatedAt, bt_version := bt_version x + 1\<rparr>)
        (st_batches s)\<rparr>"

definition set_batch_status ::
  "batch_row \<Rightarrow> batch_status \<Rightarrow> time \<Rightarrow> ident \<Rightarrow> string \<Rightarrow> store \<Rightarrow>
   domain_error + (batch_status \<times> store)" where
  "set_batch_status b status updatedAt eventId reason s =
     (if count_where (same_version b) (st_batches s) \<noteq> 1
        then Inl (DomainError ''RUN_BATCH_VERSION_CONFLICT'')
      else and_then
        (insert_batch_event
           \<lparr>be_id = eventId, be_batch_id = bt_id b, be_from_status = Some (bt_status b),
            be_to_status = status, be_batch_version = bt_version b + 1, be_reason = reason,
            be_recorded_at = updatedAt\<rparr>
           (put_batch_status b status updatedAt s))
        (\<lambda>s'. Inr (status, s')))"

definition settle_batch :: "batch_row \<Rightarrow> time \<Rightarrow> store \<Rightarrow> store" where
  "settle_batch b updatedAt s =
     (let s1 = (if bt_cancel_requested_at b \<noteq> None
                  then snd (terminateWaitingRuns (bt_id b) ''TERMINATED_UNSTARTED_WORK'' updatedAt s)
                else s)
      in if bt_cancel_requested_at b = None \<and> bt_pause_requested_at b = None
           then advanceRoundIfIdle (bt_id b) (bt_retry_mode b) (bt_queue_timeout_ms b) updatedAt s1
         else s1)"

definition updateBatchStatus ::
  "ident \<Rightarrow> time \<Rightarrow> ident \<Rightarrow> string \<Rightarrow> store \<Rightarrow> domain_error + (batch_status \<times> store)" where
  "updateBatchStatus batchId updatedAt eventId reason s =
     and_then (found ''RUN_BATCH_NOT_FOUND'' (find_batch s batchId)) (\<lambda>b.
       if isTerminalBatchStatus (bt_status b) then Inr (bt_status b, s)
       else
         let s2 = settle_batch b updatedAt s;
             status = aggregateStoredBatchStatus s2 batchId (bt_cancel_requested_at b \<noteq> None)
         in and_then (transitionRunBatch (bt_status b) status) (\<lambda>_.
              if bt_status b = status then Inr (status, s2)
              else set_batch_status b status updatedAt eventId reason s2))"

subsection \<open>The stored aggregation is the aggregation\<close>

definition batch_completions :: "store \<Rightarrow> ident \<Rightarrow> batch_run_completion list" where
  "batch_completions s batchId =
     map (\<lambda>r. \<lparr>brc_status = rr_status r, brc_reason = rr_terminal_reason_code r\<rparr>)
       (filter (\<lambda>r. rr_batch_id r = batchId) (st_runs s))"

lemma has_run_status_completions:
  "has_run_status s b st \<longleftrightarrow> st \<in> brc_status ` set (batch_completions s b)"
  by (auto simp: has_run_status_def batch_completions_def image_iff)

lemma failed_codes_completions:
  "set (failed_codes s b) =
     {brc_reason c | c. c \<in> set (batch_completions s b) \<and> brc_status c = R_Failed}"
  by (force simp: failed_codes_def batch_completions_def)

lemma has_abnormal_failure_stored:
  "has_abnormal_failure
     (status_only R_Succeeded # map (\<lambda>c. \<lparr>brc_status = R_Failed, brc_reason = truthy_code c\<rparr>)
        (failed_codes s b))
   \<longleftrightarrow> has_abnormal_failure (batch_completions s b)"
proof -
  have "has_abnormal_failure
     (status_only R_Succeeded # map (\<lambda>c. \<lparr>brc_status = R_Failed, brc_reason = truthy_code c\<rparr>)
        (failed_codes s b))
     \<longleftrightarrow> (\<exists>c\<in>set (failed_codes s b). code_or_empty c \<notin>
          set ADAPTER_SUCCESS_RESULT_CODES \<union> set ADAPTER_FAILURE_RESULT_CODES)"
    by (auto simp: has_abnormal_failure_iff status_only_def)
  then show ?thesis
    unfolding failed_codes_completions has_abnormal_failure_iff by blast
qed

lemma aggregateStored_eq:
  assumes "batch_completions s b \<noteq> []"
  shows "aggregateStoredBatchStatus s b term = aggregateBatchStatus (batch_completions s b) term"
proof -
  let ?cs = "batch_completions s b"
  have has: "has_run_status s b st \<longleftrightarrow> st \<in> set (map brc_status ?cs)" for st
    by (auto simp: has_run_status_completions)
  have map_ne: "map brc_status ?cs \<noteq> []" using assms by simp
  consider (run) "has_run_status s b R_Running"
    | (asg) "\<not> has_run_status s b R_Running" "has_run_status s b R_Assigned"
    | (que) "\<not> has_run_status s b R_Running" "\<not> has_run_status s b R_Assigned" "has_run_status s b R_Queued"
    | (can) "\<not> has_run_status s b R_Running" "\<not> has_run_status s b R_Assigned" "\<not> has_run_status s b R_Queued"
        "term \<or> has_run_status s b R_Cancelled"
    | (fin) "\<not> has_run_status s b R_Running" "\<not> has_run_status s b R_Assigned" "\<not> has_run_status s b R_Queued"
        "\<not> (term \<or> has_run_status s b R_Cancelled)"
    by blast
  then show ?thesis
  proof cases
    case run
    then show ?thesis using map_ne
      by (simp add: aggregateStoredBatchStatus_def aggregateBatchStatus_def has status_only_def Let_def)
  next
    case asg
    then show ?thesis using map_ne
      by (simp add: aggregateStoredBatchStatus_def aggregateBatchStatus_def has status_only_def Let_def)
  next
    case que
    then show ?thesis using map_ne
      by (simp add: aggregateStoredBatchStatus_def aggregateBatchStatus_def has status_only_def Let_def)
  next
    case can
    then show ?thesis using map_ne
      by (simp add: aggregateStoredBatchStatus_def aggregateBatchStatus_def has status_only_def Let_def)
  next
    case fin
    have no: "R_Running \<notin> set (map brc_status (status_only R_Succeeded #
        map (\<lambda>c. \<lparr>brc_status = R_Failed, brc_reason = truthy_code c\<rparr>) (failed_codes s b)))"
      "R_Assigned \<notin> set (map brc_status (status_only R_Succeeded #
        map (\<lambda>c. \<lparr>brc_status = R_Failed, brc_reason = truthy_code c\<rparr>) (failed_codes s b)))"
      "R_Queued \<notin> set (map brc_status (status_only R_Succeeded #
        map (\<lambda>c. \<lparr>brc_status = R_Failed, brc_reason = truthy_code c\<rparr>) (failed_codes s b)))"
      "R_Cancelled \<notin> set (map brc_status (status_only R_Succeeded #
        map (\<lambda>c. \<lparr>brc_status = R_Failed, brc_reason = truthy_code c\<rparr>) (failed_codes s b)))"
      by (auto simp: status_only_def)
    show ?thesis
      using fin no map_ne has_abnormal_failure_stored [of s b]
      by (simp add: aggregateStoredBatchStatus_def aggregateBatchStatus_def [of _ False]
          aggregateBatchStatus_def [of "batch_completions s b"] has Let_def)
  qed
qed

end
