(* ===== verification/Protocol.thy ===== *)
theory Protocol
  imports Prelude
begin

text \<open>
  The dispatch protocol, without data: runs wait, are busy or done; an attempt belongs to a run and
  is active or over; an assignment offers an attempt to a runner, is leased, or closed; a lease
  belongs to an assignment and is active or not. The steps are what scheduling, claiming and the
  several ways of ending an attempt do to these four tables. The store of the execution control
  refines this system (theory \<open>Exec_Refine\<close>).
\<close>

datatype run_phase = Waiting | Busy | Done

datatype offer_phase = Offered | Leased | Closed

record proto =
  p_run :: "ident \<Rightarrow> run_phase option"
  p_att :: "ident \<Rightarrow> (ident \<times> bool) option"
  p_asg :: "ident \<Rightarrow> (ident \<times> offer_phase) option"
  p_lease :: "ident \<Rightarrow> (ident \<times> bool) option"

subsection \<open>Systems with an invariant, and their simulation\<close>

locale invariant_system =
  fixes init :: "'s \<Rightarrow> bool" and step :: "'s \<Rightarrow> 's \<Rightarrow> bool" and inv :: "'s \<Rightarrow> bool"
  assumes inv_init: "init s \<Longrightarrow> inv s"
    and inv_step: "inv s \<Longrightarrow> step s t \<Longrightarrow> inv t"
begin

lemma inv_steps: "step\<^sup>*\<^sup>* s t \<Longrightarrow> inv s \<Longrightarrow> inv t"
  by (induction rule: rtranclp_induct) (auto intro: inv_step)

lemma inv_reachable: "init s \<Longrightarrow> step\<^sup>*\<^sup>* s t \<Longrightarrow> inv t"
  by (blast intro: inv_steps inv_init)

end

locale simulated_system = invariant_system init step inv
  for init :: "'s \<Rightarrow> bool" and step and inv +
  fixes abs :: "'s \<Rightarrow> 'a" and astep :: "'a \<Rightarrow> 'a \<Rightarrow> bool"
  assumes simulation: "inv s \<Longrightarrow> step s t \<Longrightarrow> astep\<^sup>*\<^sup>* (abs s) (abs t)"
begin

lemma simulation_steps: "step\<^sup>*\<^sup>* s t \<Longrightarrow> inv s \<Longrightarrow> astep\<^sup>*\<^sup>* (abs s) (abs t)"
proof (induction rule: rtranclp_induct)
  case base
  then show ?case by simp
next
  case (step y z)
  have "inv y" using step inv_steps by blast
  then have "astep\<^sup>*\<^sup>* (abs y) (abs z)" using step by (blast intro: simulation)
  with step show ?case by (meson rtranclp_trans)
qed

end

subsection \<open>The invariant\<close>

definition att_ok :: "proto \<Rightarrow> bool" where
  "att_ok p \<longleftrightarrow>
     (\<forall>t r. p_att p t = Some (r, True) \<longrightarrow> p_run p r = Some Busy) \<and>
     (\<forall>t t' r. p_att p t = Some (r, True) \<longrightarrow> p_att p t' = Some (r, True) \<longrightarrow> t = t') \<and>
     (\<forall>r. p_run p r = Some Busy \<longrightarrow> (\<exists>t. p_att p t = Some (r, True)))"

definition asg_ok :: "proto \<Rightarrow> bool" where
  "asg_ok p \<longleftrightarrow>
     (\<forall>a t ph. p_asg p a = Some (t, ph) \<longrightarrow> p_att p t \<noteq> None) \<and>
     (\<forall>a t ph. p_asg p a = Some (t, ph) \<longrightarrow> ph \<noteq> Closed \<longrightarrow> (\<exists>r. p_att p t = Some (r, True))) \<and>
     (\<forall>a a' t ph ph'. p_asg p a = Some (t, ph) \<longrightarrow> p_asg p a' = Some (t, ph') \<longrightarrow> a = a') \<and>
     (\<forall>t r. p_att p t = Some (r, True) \<longrightarrow> (\<exists>a ph. p_asg p a = Some (t, ph) \<and> ph \<noteq> Closed))"

definition lease_ok :: "proto \<Rightarrow> bool" where
  "lease_ok p \<longleftrightarrow>
     (\<forall>l a b. p_lease p l = Some (a, b) \<longrightarrow> (\<exists>t ph. p_asg p a = Some (t, ph) \<and> ph \<noteq> Offered)) \<and>
     (\<forall>l a. p_lease p l = Some (a, True) \<longrightarrow> (\<exists>t. p_asg p a = Some (t, Leased))) \<and>
     (\<forall>l l' a b b'. p_lease p l = Some (a, b) \<longrightarrow> p_lease p l' = Some (a, b') \<longrightarrow> l = l') \<and>
     (\<forall>a t. p_asg p a = Some (t, Leased) \<longrightarrow> (\<exists>l. p_lease p l = Some (a, True)))"

definition proto_ok :: "proto \<Rightarrow> bool" where
  "proto_ok p \<longleftrightarrow> att_ok p \<and> asg_ok p \<and> lease_ok p"

lemma att_okD:
  assumes "att_ok p"
  shows "p_att p t = Some (r, True) \<Longrightarrow> p_run p r = Some Busy"
    and "p_att p t = Some (r, True) \<Longrightarrow> p_att p t' = Some (r, True) \<Longrightarrow> t = t'"
    and "p_run p r = Some Busy \<Longrightarrow> \<exists>t. p_att p t = Some (r, True)"
  using assms unfolding att_ok_def by blast+

lemma asg_okD:
  assumes "asg_ok p"
  shows "p_asg p a = Some (t, ph) \<Longrightarrow> p_att p t \<noteq> None"
    and "p_asg p a = Some (t, ph) \<Longrightarrow> ph \<noteq> Closed \<Longrightarrow> \<exists>r. p_att p t = Some (r, True)"
    and "p_asg p a = Some (t, ph) \<Longrightarrow> p_asg p a' = Some (t, ph') \<Longrightarrow> a = a'"
    and "p_att p t = Some (r, True) \<Longrightarrow> \<exists>a ph. p_asg p a = Some (t, ph) \<and> ph \<noteq> Closed"
  using assms unfolding asg_ok_def by blast+

lemma lease_okD:
  assumes "lease_ok p"
  shows "p_lease p l = Some (a, b) \<Longrightarrow> \<exists>t ph. p_asg p a = Some (t, ph) \<and> ph \<noteq> Offered"
    and "p_lease p l = Some (a, True) \<Longrightarrow> \<exists>t. p_asg p a = Some (t, Leased)"
    and "p_lease p l = Some (a, b) \<Longrightarrow> p_lease p l' = Some (a, b') \<Longrightarrow> l = l'"
    and "p_asg p a = Some (t, Leased) \<Longrightarrow> \<exists>l. p_lease p l = Some (a, True)"
  using assms unfolding lease_ok_def by blast+

subsection \<open>The steps\<close>

definition p_submit :: "ident set \<Rightarrow> proto \<Rightarrow> proto" where
  "p_submit R p = p\<lparr>p_run := (\<lambda>r. if r \<in> R then Some Waiting else p_run p r)\<rparr>"

definition p_dispatch :: "ident \<Rightarrow> ident \<Rightarrow> ident \<Rightarrow> proto \<Rightarrow> proto" where
  "p_dispatch r t a p =
     p\<lparr>p_run := (p_run p)(r := Some Busy), p_att := (p_att p)(t := Some (r, True)),
       p_asg := (p_asg p)(a := Some (t, Offered))\<rparr>"

definition p_claim :: "ident \<Rightarrow> ident \<Rightarrow> ident \<Rightarrow> proto \<Rightarrow> proto" where
  "p_claim t a l p =
     p\<lparr>p_asg := (p_asg p)(a := Some (t, Leased)), p_lease := (p_lease p)(l := Some (a, True))\<rparr>"

text \<open>
  Closing a set of attempts: their assignments and leases are closed with them, their runs go where
  \<open>d\<close> says, and the waiting runs of \<open>W\<close> are finished as well.
\<close>

definition p_close :: "ident set \<Rightarrow> (ident \<Rightarrow> run_phase) \<Rightarrow> ident set \<Rightarrow> proto \<Rightarrow> proto" where
  "p_close X d W p =
     \<lparr>p_run = (\<lambda>r. if \<exists>t\<in>X. p_att p t = Some (r, True) then Some (d r)
                  else if r \<in> W \<and> p_run p r = Some Waiting then Some Done else p_run p r),
      p_att = (\<lambda>t. map_option (\<lambda>(r, act). (r, act \<and> t \<notin> X)) (p_att p t)),
      p_asg = (\<lambda>a. map_option (\<lambda>(t, ph). (t, if t \<in> X then Closed else ph)) (p_asg p a)),
      p_lease = (\<lambda>l. map_option (\<lambda>(a, act).
                  (a, act \<and> \<not> (case p_asg p a of None \<Rightarrow> False | Some (t, _) \<Rightarrow> t \<in> X)))
                  (p_lease p l))\<rparr>"

inductive pstep :: "proto \<Rightarrow> proto \<Rightarrow> bool" where
  submit: "(\<And>r. r \<in> R \<Longrightarrow> p_run p r = None \<and> (\<forall>t b. p_att p t \<noteq> Some (r, b))) \<Longrightarrow>
     pstep p (p_submit R p)"
| dispatch: "p_run p r = Some Waiting \<Longrightarrow> p_att p t = None \<Longrightarrow> p_asg p a = None \<Longrightarrow>
     pstep p (p_dispatch r t a p)"
| claim: "p_asg p a = Some (t, Offered) \<Longrightarrow> p_lease p l = None \<Longrightarrow> pstep p (p_claim t a l p)"
| close: "(\<And>r. d r \<noteq> Busy) \<Longrightarrow> pstep p (p_close X d W p)"

inductive_cases pstepE: "pstep p q"

lemma submit_ok:
  assumes "proto_ok p" "\<And>r. r \<in> R \<Longrightarrow> p_run p r = None \<and> (\<forall>t b. p_att p t \<noteq> Some (r, b))"
  shows "proto_ok (p_submit R p)"
proof -
  have ok: "att_ok p" "asg_ok p" "lease_ok p" using assms(1) by (auto simp: proto_ok_def)
  have "att_ok (p_submit R p)"
    using att_okD [OF ok(1)] assms(2) unfolding att_ok_def p_submit_def by auto
  moreover have "asg_ok (p_submit R p)" "lease_ok (p_submit R p)"
    using ok(2,3) by (simp_all add: asg_ok_def lease_ok_def p_submit_def)
  ultimately show ?thesis by (simp add: proto_ok_def)
qed

lemma dispatch_ok:
  assumes "proto_ok p" "p_run p r = Some Waiting" "p_att p t = None" "p_asg p a = None"
  shows "proto_ok (p_dispatch r t a p)"
proof -
  have ok: "att_ok p" "asg_ok p" "lease_ok p" using assms(1) by (auto simp: proto_ok_def)
  have r: "p_att p x \<noteq> Some (r, True)" for x
    using att_okD(1) [OF ok(1), of x r] assms(2) by auto
  have t: "p_asg p x \<noteq> Some (t, ph)" for x ph
    using asg_okD(1) [OF ok(2), of x t ph] assms(3) by auto
  have l: "p_lease p x \<noteq> Some (a, b)" for x b
    using lease_okD(1) [OF ok(3), of x a b] assms(4) by auto
  have "att_ok (p_dispatch r t a p)"
    unfolding att_ok_def
  proof (intro conjI allI impI)
    fix x y assume "p_att (p_dispatch r t a p) x = Some (y, True)"
    then show "p_run (p_dispatch r t a p) y = Some Busy"
      using att_okD(1) [OF ok(1)] by (auto simp: p_dispatch_def split: if_splits)
  next
    fix x x' y assume "p_att (p_dispatch r t a p) x = Some (y, True)"
      "p_att (p_dispatch r t a p) x' = Some (y, True)"
    then show "x = x'"
      using att_okD(2) [OF ok(1), of x y x'] r by (auto simp: p_dispatch_def split: if_splits)
  next
    fix y assume y: "p_run (p_dispatch r t a p) y = Some Busy"
    show "\<exists>x. p_att (p_dispatch r t a p) x = Some (y, True)"
    proof (cases "y = r")
      case True
      then show ?thesis by (auto simp: p_dispatch_def)
    next
      case False
      then obtain x where "p_att p x = Some (y, True)"
        using y att_okD(3) [OF ok(1), of y] by (auto simp: p_dispatch_def)
      then show ?thesis using assms(3) by (auto simp: p_dispatch_def intro!: exI [of _ x])
    qed
  qed
  moreover have "asg_ok (p_dispatch r t a p)"
    unfolding asg_ok_def
  proof (intro conjI allI impI)
    fix x y ph assume "p_asg (p_dispatch r t a p) x = Some (y, ph)"
    then show "p_att (p_dispatch r t a p) y \<noteq> None"
      using asg_okD(1) [OF ok(2), of x y ph] by (auto simp: p_dispatch_def split: if_splits)
  next
    fix x y ph assume "p_asg (p_dispatch r t a p) x = Some (y, ph)" "ph \<noteq> Closed"
    then show "\<exists>r'. p_att (p_dispatch r t a p) y = Some (r', True)"
      using asg_okD(2) [OF ok(2), of x y ph] by (auto simp: p_dispatch_def split: if_splits)
  next
    fix x x' y ph ph' assume "p_asg (p_dispatch r t a p) x = Some (y, ph)"
      "p_asg (p_dispatch r t a p) x' = Some (y, ph')"
    then show "x = x'"
      using asg_okD(3) [OF ok(2), of x y ph x' ph'] t by (auto simp: p_dispatch_def split: if_splits)
  next
    fix y r' assume y: "p_att (p_dispatch r t a p) y = Some (r', True)"
    show "\<exists>x ph. p_asg (p_dispatch r t a p) x = Some (y, ph) \<and> ph \<noteq> Closed"
    proof (cases "y = t")
      case True
      then show ?thesis by (auto simp: p_dispatch_def intro: exI [of _ a])
    next
      case False
      then obtain x ph where "p_asg p x = Some (y, ph)" "ph \<noteq> Closed"
        using asg_okD(4) [OF ok(2), of y r'] y by (auto simp: p_dispatch_def)
      then show ?thesis using assms(4) by (auto simp: p_dispatch_def intro!: exI [of _ x])
    qed
  qed
  moreover have "lease_ok (p_dispatch r t a p)"
    unfolding lease_ok_def
  proof (intro conjI allI impI)
    fix x y b assume x: "p_lease (p_dispatch r t a p) x = Some (y, b)"
    then have "y \<noteq> a" using l by (auto simp: p_dispatch_def)
    then show "\<exists>t' ph. p_asg (p_dispatch r t a p) y = Some (t', ph) \<and> ph \<noteq> Offered"
      using x lease_okD(1) [OF ok(3), of x y b] by (simp add: p_dispatch_def)
  next
    fix x y assume x: "p_lease (p_dispatch r t a p) x = Some (y, True)"
    then have "y \<noteq> a" using l by (auto simp: p_dispatch_def)
    then show "\<exists>t'. p_asg (p_dispatch r t a p) y = Some (t', Leased)"
      using x lease_okD(2) [OF ok(3), of x y] by (simp add: p_dispatch_def)
  next
    fix x x' y b b' assume "p_lease (p_dispatch r t a p) x = Some (y, b)"
      "p_lease (p_dispatch r t a p) x' = Some (y, b')"
    then show "x = x'"
      using lease_okD(3) [OF ok(3), of x y b x' b'] by (simp add: p_dispatch_def)
  next
    fix y t' assume "p_asg (p_dispatch r t a p) y = Some (t', Leased)"
    then show "\<exists>x. p_lease (p_dispatch r t a p) x = Some (y, True)"
      using lease_okD(4) [OF ok(3), of y t'] by (auto simp: p_dispatch_def split: if_splits)
  qed
  ultimately show ?thesis by (simp add: proto_ok_def)
qed

lemma claim_ok:
  assumes "proto_ok p" "p_asg p a = Some (t, Offered)" "p_lease p l = None"
  shows "proto_ok (p_claim t a l p)"
proof -
  have ok: "att_ok p" "asg_ok p" "lease_ok p" using assms(1) by (auto simp: proto_ok_def)
  have nl: "p_lease p x \<noteq> Some (a, b)" for x b
    using lease_okD(1) [OF ok(3), of x a b] assms(2) by auto
  have "att_ok (p_claim t a l p)" using ok(1) by (simp add: att_ok_def p_claim_def)
  moreover have "asg_ok (p_claim t a l p)"
    unfolding asg_ok_def
  proof (intro conjI allI impI)
    fix x y ph assume x: "p_asg (p_claim t a l p) x = Some (y, ph)"
    then show "p_att (p_claim t a l p) y \<noteq> None"
      using asg_okD(1) [OF ok(2)] assms(2) by (auto simp: p_claim_def split: if_splits)
    assume "ph \<noteq> Closed"
    then show "\<exists>r'. p_att (p_claim t a l p) y = Some (r', True)"
      using x asg_okD(2) [OF ok(2)] assms(2) by (fastforce simp: p_claim_def split: if_splits)
  next
    fix x x' y ph ph' assume "p_asg (p_claim t a l p) x = Some (y, ph)"
      "p_asg (p_claim t a l p) x' = Some (y, ph')"
    then show "x = x'"
      using asg_okD(3) [OF ok(2)] assms(2) by (auto simp: p_claim_def split: if_splits)
  next
    fix y r' assume "p_att (p_claim t a l p) y = Some (r', True)"
    then obtain x ph where "p_asg p x = Some (y, ph)" "ph \<noteq> Closed"
      using asg_okD(4) [OF ok(2), of y r'] by (auto simp: p_claim_def)
    then show "\<exists>x ph. p_asg (p_claim t a l p) x = Some (y, ph) \<and> ph \<noteq> Closed"
      using assms(2) by (auto simp: p_claim_def intro!: exI [of _ x])
  qed
  moreover have "lease_ok (p_claim t a l p)"
    unfolding lease_ok_def
  proof (intro conjI allI impI)
    fix x y b assume x: "p_lease (p_claim t a l p) x = Some (y, b)"
    then show "\<exists>t' ph. p_asg (p_claim t a l p) y = Some (t', ph) \<and> ph \<noteq> Offered"
      using lease_okD(1) [OF ok(3), of x y b] by (auto simp: p_claim_def split: if_splits)
  next
    fix x y assume "p_lease (p_claim t a l p) x = Some (y, True)"
    then show "\<exists>t'. p_asg (p_claim t a l p) y = Some (t', Leased)"
      using lease_okD(2) [OF ok(3), of x y] by (auto simp: p_claim_def split: if_splits)
  next
    fix x x' y b b' assume "p_lease (p_claim t a l p) x = Some (y, b)"
      "p_lease (p_claim t a l p) x' = Some (y, b')"
    then show "x = x'"
      using lease_okD(3) [OF ok(3), of x y b x' b'] nl by (auto simp: p_claim_def split: if_splits)
  next
    fix y t' assume y: "p_asg (p_claim t a l p) y = Some (t', Leased)"
    show "\<exists>x. p_lease (p_claim t a l p) x = Some (y, True)"
    proof (cases "y = a")
      case True
      then show ?thesis by (auto simp: p_claim_def)
    next
      case False
      then obtain x where "p_lease p x = Some (y, True)"
        using y lease_okD(4) [OF ok(3), of y t'] by (auto simp: p_claim_def)
      then show ?thesis using assms(3) by (auto simp: p_claim_def intro!: exI [of _ x])
    qed
  qed
  ultimately show ?thesis by (simp add: proto_ok_def)
qed

lemma close_run:
  "p_run (p_close X d W p) r =
     (if \<exists>t\<in>X. p_att p t = Some (r, True) then Some (d r)
      else if r \<in> W \<and> p_run p r = Some Waiting then Some Done else p_run p r)"
  by (simp add: p_close_def)

lemma close_att:
  "p_att (p_close X d W p) t = Some (r, True) \<longleftrightarrow> p_att p t = Some (r, True) \<and> t \<notin> X"
  by (auto simp: p_close_def)

lemma close_asg:
  "p_asg (p_close X d W p) a = Some (t, ph) \<longleftrightarrow>
     (\<exists>ph0. p_asg p a = Some (t, ph0) \<and> ph = (if t \<in> X then Closed else ph0))"
  by (auto simp: p_close_def)

lemma close_lease:
  "p_lease (p_close X d W p) l = Some (a, b) \<longleftrightarrow>
     (\<exists>b0. p_lease p l = Some (a, b0) \<and>
        b = (b0 \<and> \<not> (case p_asg p a of None \<Rightarrow> False | Some (t, _) \<Rightarrow> t \<in> X)))"
  by (auto simp: p_close_def)

lemma close_ok:
  assumes "proto_ok p" "\<And>r. d r \<noteq> Busy"
  shows "proto_ok (p_close X d W p)"
proof -
  have ok: "att_ok p" "asg_ok p" "lease_ok p" using assms(1) by (auto simp: proto_ok_def)
  have "att_ok (p_close X d W p)"
    unfolding att_ok_def
  proof (intro conjI allI impI)
    fix t r assume t: "p_att (p_close X d W p) t = Some (r, True)"
    then have t: "p_att p t = Some (r, True)" "t \<notin> X" by (auto simp: close_att)
    then have "p_run p r = Some Busy" using att_okD(1) [OF ok(1)] by blast
    moreover have "\<not> (\<exists>t'\<in>X. p_att p t' = Some (r, True))"
      using att_okD(2) [OF ok(1) t(1)] t(2) by blast
    ultimately show "p_run (p_close X d W p) r = Some Busy" by (simp add: p_close_def)
  next
    fix t t' r assume "p_att (p_close X d W p) t = Some (r, True)"
      "p_att (p_close X d W p) t' = Some (r, True)"
    then show "t = t'" using att_okD(2) [OF ok(1)] by (auto simp: close_att)
  next
    fix r assume "p_run (p_close X d W p) r = Some Busy"
    then have "p_run p r = Some Busy" "\<not> (\<exists>t\<in>X. p_att p t = Some (r, True))"
      using assms(2) by (auto simp: p_close_def split: if_splits)
    then show "\<exists>t. p_att (p_close X d W p) t = Some (r, True)"
      using att_okD(3) [OF ok(1), of r] by (auto simp: close_att)
  qed
  moreover have "asg_ok (p_close X d W p)"
    unfolding asg_ok_def
  proof (intro conjI allI impI)
    fix a t ph assume "p_asg (p_close X d W p) a = Some (t, ph)"
    then show "p_att (p_close X d W p) t \<noteq> None"
      using asg_okD(1) [OF ok(2)] by (auto simp: close_asg p_close_def)
  next
    fix a t ph assume "p_asg (p_close X d W p) a = Some (t, ph)" "ph \<noteq> Closed"
    then show "\<exists>r. p_att (p_close X d W p) t = Some (r, True)"
      using asg_okD(2) [OF ok(2), of a t] by (auto simp: close_asg close_att split: if_splits)
  next
    fix a a' t ph ph' assume "p_asg (p_close X d W p) a = Some (t, ph)"
      "p_asg (p_close X d W p) a' = Some (t, ph')"
    then show "a = a'" using asg_okD(3) [OF ok(2)] by (auto simp: close_asg)
  next
    fix t r assume "p_att (p_close X d W p) t = Some (r, True)"
    then have t: "p_att p t = Some (r, True)" "t \<notin> X" by (auto simp: close_att)
    then obtain a ph where "p_asg p a = Some (t, ph)" "ph \<noteq> Closed"
      using asg_okD(4) [OF ok(2)] by blast
    then have "p_asg (p_close X d W p) a = Some (t, ph)" using t by (simp add: close_asg)
    then show "\<exists>a ph. p_asg (p_close X d W p) a = Some (t, ph) \<and> ph \<noteq> Closed"
      using \<open>ph \<noteq> Closed\<close> by blast
  qed
  moreover have "lease_ok (p_close X d W p)"
    unfolding lease_ok_def
  proof (intro conjI allI impI)
    fix l a b assume "p_lease (p_close X d W p) l = Some (a, b)"
    then obtain b0 where "p_lease p l = Some (a, b0)" unfolding close_lease by blast
    then obtain t ph where "p_asg p a = Some (t, ph)" "ph \<noteq> Offered"
      using lease_okD(1) [OF ok(3)] by blast
    then have "p_asg (p_close X d W p) a = Some (t, if t \<in> X then Closed else ph)"
      by (simp add: close_asg)
    then show "\<exists>t ph. p_asg (p_close X d W p) a = Some (t, ph) \<and> ph \<noteq> Offered"
      using \<open>ph \<noteq> Offered\<close> by fastforce
  next
    fix l a assume "p_lease (p_close X d W p) l = Some (a, True)"
    then have l: "p_lease p l = Some (a, True)"
        "\<not> (case p_asg p a of None \<Rightarrow> False | Some (t, _) \<Rightarrow> t \<in> X)"
      by (auto simp: close_lease)
    then obtain t where "p_asg p a = Some (t, Leased)" using lease_okD(2) [OF ok(3)] by blast
    then have "p_asg (p_close X d W p) a = Some (t, Leased)" using l by (simp add: close_asg)
    then show "\<exists>t. p_asg (p_close X d W p) a = Some (t, Leased)" by blast
  next
    fix l l' a b b' assume "p_lease (p_close X d W p) l = Some (a, b)"
      "p_lease (p_close X d W p) l' = Some (a, b')"
    then show "l = l'" using lease_okD(3) [OF ok(3)] by (auto simp: close_lease)
  next
    fix a t assume "p_asg (p_close X d W p) a = Some (t, Leased)"
    then have a: "p_asg p a = Some (t, Leased)" "t \<notin> X"
      by (auto simp: close_asg split: if_splits)
    then obtain l where "p_lease p l = Some (a, True)" using lease_okD(4) [OF ok(3)] by blast
    then have "p_lease (p_close X d W p) l = Some (a, True)"
      unfolding close_lease using a by (intro exI [of _ True]) simp
    then show "\<exists>l. p_lease (p_close X d W p) l = Some (a, True)" by blast
  qed
  ultimately show ?thesis by (simp add: proto_ok_def)
qed

definition proto_init :: "proto \<Rightarrow> bool" where
  "proto_init p \<longleftrightarrow> p_att p = Map.empty \<and> p_asg p = Map.empty \<and> p_lease p = Map.empty
     \<and> (\<forall>r. p_run p r \<noteq> Some Busy)"

interpretation dispatching: invariant_system proto_init pstep proto_ok
proof
  show "proto_ok p" if "proto_init p" for p
    using that by (auto simp: proto_init_def proto_ok_def att_ok_def asg_ok_def lease_ok_def)
  show "proto_ok q" if "proto_ok p" "pstep p q" for p q
    using that(2,1) by cases (auto intro: submit_ok dispatch_ok claim_ok close_ok)
qed

text \<open>A done run stays done, and a busy run has exactly one active attempt.\<close>

lemma pstep_done: "pstep p q \<Longrightarrow> proto_ok p \<Longrightarrow> p_run p r = Some Done \<Longrightarrow> p_run q r = Some Done"
proof (induction rule: pstep.induct)
  case (close d p X W)
  then have "\<not> (\<exists>t\<in>X. p_att p t = Some (r, True))"
    by (auto simp: proto_ok_def dest: att_okD(1))
  then show ?case using close by (simp add: p_close_def)
qed (auto simp: p_submit_def p_dispatch_def p_claim_def)

lemma pstep_over:
  "pstep p q \<Longrightarrow> p_att p t = Some (r, False) \<Longrightarrow> p_att q t = Some (r, False)"
  by (induction rule: pstep.induct) (auto simp: p_submit_def p_dispatch_def p_claim_def p_close_def)

lemma pstep_over_steps:
  "pstep\<^sup>*\<^sup>* p q \<Longrightarrow> p_att p t = Some (r, False) \<Longrightarrow> p_att q t = Some (r, False)"
  by (induction rule: rtranclp_induct) (auto intro: pstep_over)

lemma pstep_done_steps:
  "pstep\<^sup>*\<^sup>* p q \<Longrightarrow> proto_ok p \<Longrightarrow> p_run p r = Some Done \<Longrightarrow> p_run q r = Some Done"
  by (induction rule: rtranclp_induct) (auto intro: pstep_done dispatching.inv_steps)

end
