(* ===== verification/Exec_Refine.thy ===== *)
theory Exec_Refine
  imports Exec_Batch Protocol
begin

text \<open>
  The store as a state of the dispatch protocol. \<open>abs_store\<close> forgets everything but the phases of
  the rows; \<open>linked\<close> says that the keys are unique and the references resolve. The lemmas of this
  theory are about the steps all operations share: row updates that keep the keys, the settlement
  of a batch and \<open>updateBatchStatus\<close>.
\<close>

fun phase_of_run :: "run_status \<Rightarrow> run_phase" where
  "phase_of_run R_Queued = Waiting"
| "phase_of_run R_Assigned = Busy"
| "phase_of_run R_Running = Busy"
| "phase_of_run _ = Done"

fun phase_of_offer :: "assignment_status \<Rightarrow> offer_phase" where
  "phase_of_offer A_Pending = Offered"
| "phase_of_offer A_Claimed = Leased"
| "phase_of_offer A_Running = Leased"
| "phase_of_offer _ = Closed"

lemma phase_of_run_iff [simp]:
  "phase_of_run st = Waiting \<longleftrightarrow> st = R_Queued"
  "phase_of_run st = Busy \<longleftrightarrow> busy_run st"
  "phase_of_run st = Done \<longleftrightarrow> isTerminalRunStatus st"
  by (cases st; simp)+

lemma phase_of_offer_iff [simp]:
  "phase_of_offer st = Offered \<longleftrightarrow> st = A_Pending"
  "phase_of_offer st = Leased \<longleftrightarrow> leased_assignment st"
  "phase_of_offer st = Closed \<longleftrightarrow> \<not> open_assignment st"
  by (cases st; simp)+

definition abs_store :: "store \<Rightarrow> proto" where
  "abs_store s =
     \<lparr>p_run = (\<lambda>k. map_option (\<lambda>r. phase_of_run (rr_status r)) (row_by rr_id k (st_runs s))),
      p_att = (\<lambda>k. map_option (\<lambda>t. (at_run_id t, active_attempt (at_status t)))
                    (row_by at_id k (st_attempts s))),
      p_asg = (\<lambda>k. map_option (\<lambda>a. (as_attempt_id a, phase_of_offer (as_status a)))
                    (row_by as_id k (st_assignments s))),
      p_lease = (\<lambda>k. map_option (\<lambda>l. (ls_assignment_id l, ls_status l = L_Active))
                      (row_by ls_id k (st_leases s)))\<rparr>"

subsection \<open>Tables with a primary key\<close>

locale keyed_table =
  fixes rows :: "'s \<Rightarrow> 'r list" and set_rows :: "('r list \<Rightarrow> 'r list) \<Rightarrow> 's \<Rightarrow> 's"
    and key :: "'r \<Rightarrow> 'k"
  assumes rows_set: "rows (set_rows f s) = f (rows s)"
begin

lemma lookup_update:
  assumes "\<And>r. P r \<Longrightarrow> key (f r) = key r"
  shows "row_by key k (rows (set_rows (update_where P f) s)) =
    map_option (\<lambda>r. if P r then f r else r) (row_by key k (rows s))"
  by (simp add: rows_set row_by_update assms)

lemma keys_update:
  assumes "\<And>r. P r \<Longrightarrow> key (f r) = key r"
  shows "map key (rows (set_rows (update_where P f) s)) = map key (rows s)"
  by (simp add: rows_set map_key_update_where assms)

lemma update_one:
  assumes "distinct (map key (rows s))" "r \<in> set (rows s)" "P r" "\<And>x. P x \<Longrightarrow> key x = key r"
  shows "count_where P (rows s) = 1"
  using assms by (rule count_where_key)

end

interpretation batch_table: keyed_table st_batches st_batches_update bt_id
  by unfold_locales simp
interpretation run_table: keyed_table st_runs st_runs_update rr_id
  by unfold_locales simp
interpretation attempt_table: keyed_table st_attempts st_attempts_update at_id
  by unfold_locales simp
interpretation assignment_table: keyed_table st_assignments st_assignments_update as_id
  by unfold_locales simp
interpretation lease_table: keyed_table st_leases st_leases_update ls_id
  by unfold_locales simp

subsection \<open>Keys and references\<close>

text \<open>The columns no statement ever updates.\<close>

definition batch_shape :: "store \<Rightarrow> ident list" where
  "batch_shape s = map bt_id (st_batches s)"

definition run_shape :: "store \<Rightarrow> (ident \<times> ident) list" where
  "run_shape s = map (\<lambda>r. (rr_id r, rr_batch_id r)) (st_runs s)"

definition attempt_shape :: "store \<Rightarrow> (ident \<times> ident \<times> int) list" where
  "attempt_shape s = map (\<lambda>t. (at_id t, at_run_id t, at_number t)) (st_attempts s)"

definition assignment_shape :: "store \<Rightarrow> (ident \<times> ident \<times> ident \<times> ident) list" where
  "assignment_shape s =
     map (\<lambda>a. (as_id a, as_attempt_id a, as_run_id a, as_batch_id a)) (st_assignments s)"

definition lease_shape :: "store \<Rightarrow> (ident \<times> ident) list" where
  "lease_shape s = map (\<lambda>l. (ls_id l, ls_assignment_id l)) (st_leases s)"

definition count_shape :: "store \<Rightarrow> (ident \<times> int) list" where
  "count_shape s = map (\<lambda>r. (rr_id r, rr_attempt_count r)) (st_runs s)"

lemmas shape_defs = batch_shape_def run_shape_def attempt_shape_def assignment_shape_def
  lease_shape_def count_shape_def

definition same_shape :: "store \<Rightarrow> store \<Rightarrow> bool" where
  "same_shape s t \<longleftrightarrow> batch_shape s = batch_shape t \<and> run_shape s = run_shape t
     \<and> attempt_shape s = attempt_shape t \<and> assignment_shape s = assignment_shape t
     \<and> lease_shape s = lease_shape t \<and> count_shape s = count_shape t"

lemma same_shape_refl [simp]: "same_shape s s"
  by (simp add: same_shape_def)

lemma same_shape_trans: "same_shape s t \<Longrightarrow> same_shape t u \<Longrightarrow> same_shape s u"
  by (simp add: same_shape_def)

text \<open>An update of one table that keeps these columns keeps the shape.\<close>

lemmas same_shape_update = same_shape_def shape_defs update_where_def comp_def

definition linked :: "store \<Rightarrow> bool" where
  "linked s \<longleftrightarrow>
     distinct (batch_shape s) \<and> distinct (map fst (run_shape s)) \<and>
     distinct (map fst (attempt_shape s)) \<and> distinct (map fst (assignment_shape s)) \<and>
     distinct (map (\<lambda>(a, t, _). t) (assignment_shape s)) \<and>
     distinct (map fst (lease_shape s)) \<and>
     (\<forall>(r, b)\<in>set (run_shape s). b \<in> set (batch_shape s)) \<and>
     (\<forall>(t, r, n)\<in>set (attempt_shape s). r \<in> fst ` set (run_shape s)) \<and>
     (\<forall>(a, t, r, b)\<in>set (assignment_shape s).
        (r, b) \<in> set (run_shape s) \<and> (\<exists>n. (t, r, n) \<in> set (attempt_shape s))) \<and>
     (\<forall>(l, a)\<in>set (lease_shape s). a \<in> fst ` set (assignment_shape s))"

lemma linked_same_shape: "linked s \<Longrightarrow> same_shape s t \<Longrightarrow> linked t"
  by (simp add: linked_def same_shape_def)

lemma linked_keys:
  assumes "linked s"
  shows "distinct (map bt_id (st_batches s))" "distinct (map rr_id (st_runs s))"
    "distinct (map at_id (st_attempts s))" "distinct (map as_id (st_assignments s))"
    "distinct (map as_attempt_id (st_assignments s))" "distinct (map ls_id (st_leases s))"
  using assms by (simp_all add: linked_def shape_defs comp_def)

lemma linked_run_batch:
  assumes "linked s" "r \<in> set (st_runs s)"
  obtains b where "b \<in> set (st_batches s)" "bt_id b = rr_batch_id r"
  using assms by (auto simp: linked_def shape_defs)

lemma linked_attempt_run:
  assumes "linked s" "t \<in> set (st_attempts s)"
  obtains r where "r \<in> set (st_runs s)" "rr_id r = at_run_id t"
  using assms by (fastforce simp: linked_def shape_defs)

lemma linked_assignment:
  assumes "linked s" "a \<in> set (st_assignments s)"
  obtains t r where "t \<in> set (st_attempts s)" "at_id t = as_attempt_id a"
    "at_run_id t = as_run_id a" "r \<in> set (st_runs s)" "rr_id r = as_run_id a"
    "rr_batch_id r = as_batch_id a"
proof -
  have "(as_id a, as_attempt_id a, as_run_id a, as_batch_id a) \<in> set (assignment_shape s)"
    using assms(2) by (auto simp: shape_defs)
  then have 1: "(as_run_id a, as_batch_id a) \<in> set (run_shape s)"
      and 2: "\<exists>n. (as_attempt_id a, as_run_id a, n) \<in> set (attempt_shape s)"
    using assms(1) by (auto simp: linked_def)
  from 1 obtain r where "r \<in> set (st_runs s)" "rr_id r = as_run_id a" "rr_batch_id r = as_batch_id a"
    by (auto simp: shape_defs)
  moreover from 2 obtain t where "t \<in> set (st_attempts s)" "at_id t = as_attempt_id a"
      "at_run_id t = as_run_id a"
    by (auto simp: shape_defs)
  ultimately show thesis by (intro that)
qed

lemma linked_lease:
  assumes "linked s" "l \<in> set (st_leases s)"
  obtains a where "a \<in> set (st_assignments s)" "as_id a = ls_assignment_id l"
  using assms by (fastforce simp: linked_def shape_defs)

lemma linked_rows:
  assumes "linked s"
  shows "b \<in> set (st_batches s) \<Longrightarrow> row_by bt_id (bt_id b) (st_batches s) = Some b"
    and "r \<in> set (st_runs s) \<Longrightarrow> row_by rr_id (rr_id r) (st_runs s) = Some r"
    and "t \<in> set (st_attempts s) \<Longrightarrow> row_by at_id (at_id t) (st_attempts s) = Some t"
    and "a \<in> set (st_assignments s) \<Longrightarrow> row_by as_id (as_id a) (st_assignments s) = Some a"
    and "a \<in> set (st_assignments s) \<Longrightarrow>
           row_by as_attempt_id (as_attempt_id a) (st_assignments s) = Some a"
    and "l \<in> set (st_leases s) \<Longrightarrow> row_by ls_id (ls_id l) (st_leases s) = Some l"
  using linked_keys [OF assms] by (auto intro: row_by_member)

lemma linked_assignment_attempt_eq:
  assumes "linked s" "a \<in> set (st_assignments s)" "a' \<in> set (st_assignments s)"
    "as_attempt_id a = as_attempt_id a'"
  shows "a = a'"
  using linked_keys(5) [OF assms(1)] assms(2-4) by (auto intro: distinct_map_eqD)

lemma linked_assignment_eq:
  assumes "linked s" "a \<in> set (st_assignments s)" "a' \<in> set (st_assignments s)" "as_id a = as_id a'"
  shows "a = a'"
  using linked_keys(4) [OF assms(1)] assms(2-4) by (auto intro: distinct_map_eqD)

lemma linked_run_eq:
  assumes "linked s" "r \<in> set (st_runs s)" "r' \<in> set (st_runs s)" "rr_id r = rr_id r'"
  shows "r = r'"
  using linked_keys(2) [OF assms(1)] assms(2-4) by (auto intro: distinct_map_eqD)

lemma linked_attempt_eq:
  assumes "linked s" "t \<in> set (st_attempts s)" "t' \<in> set (st_attempts s)" "at_id t = at_id t'"
  shows "t = t'"
  using linked_keys(3) [OF assms(1)] assms(2-4) by (auto intro: distinct_map_eqD)

text \<open>The abstract maps, read row by row.\<close>

lemma abs_rows:
  assumes "linked s"
  shows "r \<in> set (st_runs s) \<Longrightarrow> p_run (abs_store s) (rr_id r) = Some (phase_of_run (rr_status r))"
    and "t \<in> set (st_attempts s) \<Longrightarrow>
           p_att (abs_store s) (at_id t) = Some (at_run_id t, active_attempt (at_status t))"
    and "a \<in> set (st_assignments s) \<Longrightarrow>
           p_asg (abs_store s) (as_id a) = Some (as_attempt_id a, phase_of_offer (as_status a))"
    and "l \<in> set (st_leases s) \<Longrightarrow>
           p_lease (abs_store s) (ls_id l) = Some (ls_assignment_id l, ls_status l = L_Active)"
  using linked_rows [OF assms] by (simp_all add: abs_store_def)

lemma abs_att_iff:
  assumes "linked s"
  shows "p_att (abs_store s) k = Some (r, True) \<longleftrightarrow>
    (\<exists>t\<in>set (st_attempts s). at_id t = k \<and> at_run_id t = r \<and> active_attempt (at_status t))"
  using row_by_eq_Some [OF linked_keys(3) [OF assms]] by (auto simp: abs_store_def)

text \<open>The active attempt of a run is its newest.\<close>

definition newest_active :: "store \<Rightarrow> bool" where
  "newest_active s \<longleftrightarrow>
     (\<forall>(t, r, n)\<in>set (attempt_shape s). p_att (abs_store s) t = Some (r, True) \<longrightarrow>
        (\<forall>(t', r', n')\<in>set (attempt_shape s). r' = r \<longrightarrow> t' = t \<or> n' < n))"

text \<open>The attempts of a run are numbered up to its counter.\<close>

definition counted :: "store \<Rightarrow> bool" where
  "counted s \<longleftrightarrow>
     (\<forall>(t, r, n)\<in>set (attempt_shape s). \<forall>(r', c)\<in>set (count_shape s). r' = r \<longrightarrow> n \<le> c)"

definition store_ok :: "store \<Rightarrow> bool" where
  "store_ok s \<longleftrightarrow> linked s \<and> proto_ok (abs_store s) \<and> newest_active s \<and> counted s"

lemma newest_activeD:
  assumes "newest_active s" "linked s" "t \<in> set (st_attempts s)" "active_attempt (at_status t)"
    "t' \<in> set (st_attempts s)" "at_run_id t' = at_run_id t"
  shows "t' = t \<or> at_number t' < at_number t"
proof -
  have "p_att (abs_store s) (at_id t) = Some (at_run_id t, True)"
    using abs_rows(2) [OF assms(2,3)] assms(4) by simp
  moreover have "(at_id t, at_run_id t, at_number t) \<in> set (attempt_shape s)"
    "(at_id t', at_run_id t, at_number t') \<in> set (attempt_shape s)"
    using assms(3,5,6) by (auto simp: attempt_shape_def)
  ultimately have "at_id t' = at_id t \<or> at_number t' < at_number t"
    using assms(1) unfolding newest_active_def by fastforce
  then show ?thesis using linked_attempt_eq [OF assms(2) assms(5,3)] by blast
qed

text \<open>What the protocol invariant says about rows.\<close>

lemma store_okD:
  assumes "store_ok s"
  shows "linked s" "att_ok (abs_store s)" "asg_ok (abs_store s)" "lease_ok (abs_store s)"
  using assms by (auto simp: store_ok_def proto_ok_def)

lemma active_attempt_busy:
  assumes "store_ok s" "t \<in> set (st_attempts s)" "active_attempt (at_status t)"
    "r \<in> set (st_runs s)" "rr_id r = at_run_id t"
  shows "busy_run (rr_status r)"
proof -
  note ok = store_okD [OF assms(1)]
  have "p_att (abs_store s) (at_id t) = Some (rr_id r, True)"
    using abs_rows(2) [OF ok(1) assms(2)] assms(3,5) by simp
  then have "p_run (abs_store s) (rr_id r) = Some Busy" by (rule att_okD(1) [OF ok(2)])
  then show ?thesis using abs_rows(1) [OF ok(1) assms(4)] by simp
qed

lemma active_attempt_unique:
  assumes "store_ok s" "t \<in> set (st_attempts s)" "active_attempt (at_status t)"
    "t' \<in> set (st_attempts s)" "active_attempt (at_status t')" "at_run_id t = at_run_id t'"
  shows "t = t'"
proof -
  note ok = store_okD [OF assms(1)]
  have "p_att (abs_store s) (at_id t) = Some (at_run_id t, True)"
    "p_att (abs_store s) (at_id t') = Some (at_run_id t, True)"
    using abs_rows(2) [OF ok(1)] assms by simp_all
  then have "at_id t = at_id t'" by (rule att_okD(2) [OF ok(2)])
  then show ?thesis using linked_attempt_eq [OF ok(1)] assms(2,4) by blast
qed

lemma busy_run_attempt:
  assumes "store_ok s" "r \<in> set (st_runs s)" "busy_run (rr_status r)"
  obtains t where "t \<in> set (st_attempts s)" "at_run_id t = rr_id r" "active_attempt (at_status t)"
proof -
  note ok = store_okD [OF assms(1)]
  have "p_run (abs_store s) (rr_id r) = Some Busy" using abs_rows(1) [OF ok(1) assms(2)] assms(3) by simp
  then obtain k where "p_att (abs_store s) k = Some (rr_id r, True)" using att_okD(3) [OF ok(2)] by blast
  then show thesis using that by (auto simp: abs_att_iff [OF ok(1)])
qed

lemma open_assignment_attempt:
  assumes "store_ok s" "a \<in> set (st_assignments s)" "open_assignment (as_status a)"
    "t \<in> set (st_attempts s)" "at_id t = as_attempt_id a"
  shows "active_attempt (at_status t)"
proof -
  note ok = store_okD [OF assms(1)]
  have "p_asg (abs_store s) (as_id a) = Some (at_id t, phase_of_offer (as_status a))"
    using abs_rows(3) [OF ok(1) assms(2)] assms(5) by simp
  moreover have "phase_of_offer (as_status a) \<noteq> Closed" using assms(3) by simp
  ultimately obtain r where "p_att (abs_store s) (at_id t) = Some (r, True)"
    using asg_okD(2) [OF ok(3)] by blast
  then show ?thesis using abs_rows(2) [OF ok(1) assms(4)] by simp
qed

lemma active_attempt_assignment:
  assumes "store_ok s" "t \<in> set (st_attempts s)" "active_attempt (at_status t)"
  obtains a where "a \<in> set (st_assignments s)" "as_attempt_id a = at_id t"
    "open_assignment (as_status a)"
proof -
  note ok = store_okD [OF assms(1)]
  have "p_att (abs_store s) (at_id t) = Some (at_run_id t, True)"
    using abs_rows(2) [OF ok(1) assms(2)] assms(3) by simp
  then obtain k ph where "p_asg (abs_store s) k = Some (at_id t, ph)" "ph \<noteq> Closed"
    using asg_okD(4) [OF ok(3)] by blast
  then obtain a where "row_by as_id k (st_assignments s) = Some a" "as_attempt_id a = at_id t"
      "phase_of_offer (as_status a) \<noteq> Closed"
    by (auto simp: abs_store_def)
  then show thesis using that by (auto dest: row_by_SomeD)
qed

lemma active_lease_assignment:
  assumes "store_ok s" "l \<in> set (st_leases s)" "ls_status l = L_Active"
    "a \<in> set (st_assignments s)" "as_id a = ls_assignment_id l"
  shows "leased_assignment (as_status a)"
proof -
  note ok = store_okD [OF assms(1)]
  have "p_lease (abs_store s) (ls_id l) = Some (as_id a, True)"
    using abs_rows(4) [OF ok(1) assms(2)] assms(3,5) by simp
  then obtain t where "p_asg (abs_store s) (as_id a) = Some (t, Leased)"
    using lease_okD(2) [OF ok(4)] by blast
  then show ?thesis using abs_rows(3) [OF ok(1) assms(4)] by simp
qed

lemma lease_unique:
  assumes "store_ok s" "l \<in> set (st_leases s)" "l' \<in> set (st_leases s)"
    "ls_assignment_id l = ls_assignment_id l'"
  shows "l = l'"
proof -
  note ok = store_okD [OF assms(1)]
  have "ls_id l = ls_id l'"
    using lease_okD(3) [OF ok(4), of "ls_id l" _ _ "ls_id l'"] abs_rows(4) [OF ok(1) assms(2)]
      abs_rows(4) [OF ok(1) assms(3)] assms(4) by auto
  then show ?thesis using linked_keys(6) [OF ok(1)] assms(2,3) by (auto intro: distinct_map_eqD)
qed

subsection \<open>Closing the work of a terminated batch\<close>

lemmas terminate_defs = close_unleased_assignments_def revoke_cancelled_leases_def
  cancel_unleased_attempts_def

lemma terminate_stage_shapes:
  "same_shape s (close_unleased_assignments b now s)"
  "same_shape s (revoke_cancelled_leases b s)"
  "same_shape s (cancel_unleased_attempts b reason now s)"
  by (simp_all add: same_shape_update terminate_defs)

lemma terminate_shape: "same_shape s (snd (terminateWaitingRuns b reason now s))"
proof -
  define s3 where "s3 = cancel_unleased_attempts b reason now
    (revoke_cancelled_leases b (close_unleased_assignments b now s))"
  have "same_shape s3 (snd (terminateWaitingRuns b reason now s))"
    by (simp add: terminateWaitingRuns_def Let_def s3_def [symmetric] same_shape_update)
  moreover have "same_shape s s3"
    unfolding s3_def by (blast intro: same_shape_trans terminate_stage_shapes)
  ultimately show ?thesis
    by (rule same_shape_trans [rotated])
qed

text \<open>The valid leases survive the first two statements, and no other lease becomes valid.\<close>

definition s2_of :: "ident \<Rightarrow> time \<Rightarrow> store \<Rightarrow> store" where
  "s2_of b now s = revoke_cancelled_leases b (close_unleased_assignments b now s)"

lemma s2_tables [simp]:
  "st_runs (s2_of b now s) = st_runs s" "st_attempts (s2_of b now s) = st_attempts s"
  "st_batches (s2_of b now s) = st_batches s"
  by (simp_all add: s2_of_def terminate_defs)

lemma s2_assignments:
  "st_assignments (s2_of b now s) = st_assignments (close_unleased_assignments b now s)"
  by (simp add: s2_of_def revoke_cancelled_leases_def)

lemma close_unleased_kept:
  "x \<in> set (st_assignments (close_unleased_assignments b now s)) \<Longrightarrow> as_status x \<noteq> A_Cancelled \<Longrightarrow>
     x \<in> set (st_assignments s)"
  unfolding close_unleased_assignments_def by (simp, drule update_where_kept, auto)

lemma close_unleased_keep:
  "a \<in> set (st_assignments s) \<Longrightarrow> validly_leased s now a \<Longrightarrow>
     a \<in> set (st_assignments (close_unleased_assignments b now s))"
  unfolding close_unleased_assignments_def by (simp add: update_where_keep)

lemma revoke_cancelled_kept:
  "l \<in> set (st_leases (revoke_cancelled_leases b s)) \<Longrightarrow> ls_status l = L_Active \<Longrightarrow>
     l \<in> set (st_leases s)"
  unfolding revoke_cancelled_leases_def by (simp, drule update_where_kept, auto)

lemma close_unleased_keys:
  "map as_id (st_assignments (close_unleased_assignments b now s)) = map as_id (st_assignments s)"
  unfolding close_unleased_assignments_def by (simp add: map_key_update_where)

lemma close_unleased_leases [simp]:
  "st_leases (close_unleased_assignments b now s) = st_leases s"
  by (simp add: close_unleased_assignments_def)

lemma attempt_leased_s2:
  assumes "linked s"
  shows "attempt_leased (s2_of b now s) now t \<longleftrightarrow> attempt_leased s now t"
proof
  assume "attempt_leased (s2_of b now s) now t"
  then obtain a2 l2 where a2: "a2 \<in> set (st_assignments (s2_of b now s))" "as_attempt_id a2 = t"
      "leased_assignment (as_status a2)"
      "l2 \<in> set (st_leases (s2_of b now s))" "ls_assignment_id l2 = as_id a2"
      "ls_status l2 = L_Active" "now < ls_expires_at l2"
    unfolding attempt_leased_def validly_leased_def by blast
  have "a2 \<in> set (st_assignments s)"
    using a2(1,3) close_unleased_kept by (auto simp: s2_assignments)
  moreover have "l2 \<in> set (st_leases s)"
    using a2(4,6) revoke_cancelled_kept [of l2 b "close_unleased_assignments b now s"]
    by (simp add: s2_of_def)
  ultimately show "attempt_leased s now t"
    unfolding attempt_leased_def validly_leased_def using a2 by blast
next
  assume "attempt_leased s now t"
  then obtain a l where a: "a \<in> set (st_assignments s)" "as_attempt_id a = t"
      "leased_assignment (as_status a)" "l \<in> set (st_leases s)" "ls_assignment_id l = as_id a"
      "ls_status l = L_Active" "now < ls_expires_at l"
    unfolding attempt_leased_def validly_leased_def by blast
  then have v: "validly_leased s now a" unfolding validly_leased_def by blast
  note a1 = close_unleased_keep [OF a(1) v, of b]
  have "x = a" if "x \<in> set (st_assignments (close_unleased_assignments b now s))" "as_id x = as_id a"
    for x
    using distinct_map_eqD [OF _ that(1) a1 that(2)] linked_keys(4) [OF assms]
    by (simp add: close_unleased_keys)
  then have "\<not> (\<exists>x\<in>set (st_assignments (close_unleased_assignments b now s)).
      as_id x = ls_assignment_id l \<and> as_batch_id x = b \<and> as_status x = A_Cancelled)"
    using a(3,5) by fastforce
  then have "l \<in> set (st_leases (s2_of b now s))"
    using a(4) unfolding s2_of_def revoke_cancelled_leases_def
    by (simp add: update_where_keep)
  then show "attempt_leased (s2_of b now s) now t"
    unfolding attempt_leased_def validly_leased_def s2_assignments using a a1 by blast
qed

text \<open>The attempts of a batch that are not validly leased, and the runs of a batch.\<close>

definition unleased_attempts :: "store \<Rightarrow> ident \<Rightarrow> time \<Rightarrow> ident set" where
  "unleased_attempts s b now =
     {at_id t | t. t \<in> set (st_attempts s) \<and> \<not> attempt_leased s now (at_id t)
        \<and> (\<exists>r\<in>set (st_runs s). rr_id r = at_run_id t \<and> rr_batch_id r = b)}"

definition batch_run_ids :: "store \<Rightarrow> ident \<Rightarrow> ident set" where
  "batch_run_ids s b = {rr_id r | r. r \<in> set (st_runs s) \<and> rr_batch_id r = b}"

lemma unleased_iff:
  assumes "linked s" "t \<in> set (st_attempts s)"
  shows "at_id t \<in> unleased_attempts s b now \<longleftrightarrow> \<not> attempt_leased s now (at_id t)
    \<and> (\<exists>r\<in>set (st_runs s). rr_id r = at_run_id t \<and> rr_batch_id r = b)"
proof
  assume "at_id t \<in> unleased_attempts s b now"
  then obtain t' where t': "t' \<in> set (st_attempts s)" "at_id t' = at_id t"
      "\<not> attempt_leased s now (at_id t')"
      "\<exists>r\<in>set (st_runs s). rr_id r = at_run_id t' \<and> rr_batch_id r = b"
    by (force simp: unleased_attempts_def)
  then have "t' = t" using linked_attempt_eq [OF assms(1) _ assms(2)] by blast
  with t' show "\<not> attempt_leased s now (at_id t)
    \<and> (\<exists>r\<in>set (st_runs s). rr_id r = at_run_id t \<and> rr_batch_id r = b)" by simp
next
  assume "\<not> attempt_leased s now (at_id t)
    \<and> (\<exists>r\<in>set (st_runs s). rr_id r = at_run_id t \<and> rr_batch_id r = b)"
  then show "at_id t \<in> unleased_attempts s b now"
    using assms(2) by (auto simp: unleased_attempts_def)
qed

lemma unleased_assignment:
  assumes "linked s" "a \<in> set (st_assignments s)"
  shows "as_attempt_id a \<in> unleased_attempts s b now \<longleftrightarrow>
    as_batch_id a = b \<and> \<not> validly_leased s now a"
proof -
  obtain t r where t: "t \<in> set (st_attempts s)" "at_id t = as_attempt_id a"
      "at_run_id t = as_run_id a" "r \<in> set (st_runs s)" "rr_id r = as_run_id a"
      "rr_batch_id r = as_batch_id a"
    using linked_assignment [OF assms] by blast
  have "attempt_leased s now (as_attempt_id a) \<longleftrightarrow> validly_leased s now a"
    using linked_assignment_attempt_eq [OF assms(1) _ assms(2)] assms(2)
    unfolding attempt_leased_def by blast
  moreover have "(\<exists>r'\<in>set (st_runs s). rr_id r' = at_run_id t \<and> rr_batch_id r' = b)
      \<longleftrightarrow> as_batch_id a = b"
    using t linked_run_eq [OF assms(1) _ t(4)] by metis
  ultimately show ?thesis
    using unleased_iff [OF assms(1) t(1), of b now] t(2) by auto
qed

lemma terminate_tables:
  "st_attempts (snd (terminateWaitingRuns b reason now s)) =
     st_attempts (cancel_unleased_attempts b reason now (s2_of b now s))"
  "st_assignments (snd (terminateWaitingRuns b reason now s)) =
     st_assignments (close_unleased_assignments b now s)"
  "st_leases (snd (terminateWaitingRuns b reason now s)) = st_leases (s2_of b now s)"
  "st_batches (snd (terminateWaitingRuns b reason now s)) = st_batches s"
  by (simp_all add: terminateWaitingRuns_def Let_def s2_of_def terminate_defs)

lemma terminate_runs:
  "st_runs (snd (terminateWaitingRuns b reason now s)) =
     update_where (run_undrained (cancel_unleased_attempts b reason now (s2_of b now s)) b now)
       (\<lambda>r. r\<lparr>rr_status := R_Cancelled, rr_terminal_outcome := Some Cancelled,
             rr_terminal_reason_code := Some ''BATCH_TERMINATED_BEFORE_EXECUTION'',
             rr_cancel_requested_at := Some now, rr_updated_at := now,
             rr_version := rr_version r + 1\<rparr>)
       (st_runs s)"
  by (simp add: terminateWaitingRuns_def Let_def s2_of_def terminate_defs)

lemma attempt_leased_s3 [simp]:
  "attempt_leased (cancel_unleased_attempts b reason now s) now t = attempt_leased s now t"
  by (simp add: attempt_leased_def validly_leased_def cancel_unleased_attempts_def)

text \<open>A run keeps going exactly when it has an active attempt that is validly leased.\<close>

lemma run_undrained_iff:
  assumes "linked s"
  shows "run_undrained (cancel_unleased_attempts b reason now (s2_of b now s)) b now r \<longleftrightarrow>
    rr_batch_id r = b \<and> \<not> isTerminalRunStatus (rr_status r) \<and>
    \<not> (\<exists>t\<in>set (st_attempts s). at_run_id t = rr_id r \<and> active_attempt (at_status t)
         \<and> attempt_leased s now (at_id t))"
proof -
  let ?s3 = "cancel_unleased_attempts b reason now (s2_of b now s)"
  have "(\<exists>t\<in>set (st_attempts ?s3). at_run_id t = rr_id r \<and> active_attempt (at_status t)
       \<and> attempt_leased ?s3 now (at_id t)) \<longleftrightarrow>
     (\<exists>t\<in>set (st_attempts s). at_run_id t = rr_id r \<and> active_attempt (at_status t)
       \<and> attempt_leased s now (at_id t))"
  proof
    assume "\<exists>t\<in>set (st_attempts ?s3). at_run_id t = rr_id r \<and> active_attempt (at_status t)
       \<and> attempt_leased ?s3 now (at_id t)"
    then obtain t where t: "t \<in> set (st_attempts ?s3)" "at_run_id t = rr_id r"
        "active_attempt (at_status t)" "attempt_leased s now (at_id t)"
      by (auto simp: attempt_leased_s2 [OF assms])
    have "t \<in> set (st_attempts s)"
      using t(1,3) unfolding cancel_unleased_attempts_def
      by (simp, elim update_where_cases) auto
    with t show "\<exists>t\<in>set (st_attempts s). at_run_id t = rr_id r \<and> active_attempt (at_status t)
       \<and> attempt_leased s now (at_id t)" by blast
  next
    assume "\<exists>t\<in>set (st_attempts s). at_run_id t = rr_id r \<and> active_attempt (at_status t)
       \<and> attempt_leased s now (at_id t)"
    then obtain t where t: "t \<in> set (st_attempts s)" "at_run_id t = rr_id r"
        "active_attempt (at_status t)" "attempt_leased s now (at_id t)" by blast
    then have "t \<in> set (st_attempts ?s3)"
      unfolding cancel_unleased_attempts_def
      by (simp add: attempt_leased_s2 [OF assms] update_where_keep)
    with t show "\<exists>t\<in>set (st_attempts ?s3). at_run_id t = rr_id r \<and> active_attempt (at_status t)
       \<and> attempt_leased ?s3 now (at_id t)"
      by (auto simp: attempt_leased_s2 [OF assms])
  qed
  then show ?thesis by (simp add: run_undrained_def)
qed

lemma row_by_in: "row_by key k rows = Some r \<Longrightarrow> r \<in> set rows"
  by (auto dest: row_by_SomeD)

lemma terminate_abs:
  assumes "store_ok s"
  shows "abs_store (snd (terminateWaitingRuns b reason now s)) =
    p_close (unleased_attempts s b now) (\<lambda>_. Done) (batch_run_ids s b) (abs_store s)"
proof -
  let ?s' = "snd (terminateWaitingRuns b reason now s)"
  let ?q = "p_close (unleased_attempts s b now) (\<lambda>_. Done) (batch_run_ids s b) (abs_store s)"
  note lk = store_okD(1) [OF assms]
  have att: "p_att (abs_store ?s') k = p_att ?q k" for k
  proof (cases "row_by at_id k (st_attempts s)")
    case None
    then show ?thesis
      by (simp add: abs_store_def p_close_def terminate_tables cancel_unleased_attempts_def row_by_update)
  next
    case (Some t)
    have u: "k \<in> unleased_attempts s b now \<longleftrightarrow> \<not> attempt_leased s now (at_id t)
        \<and> (\<exists>r\<in>set (st_runs s). rr_id r = at_run_id t \<and> rr_batch_id r = b)"
      using unleased_iff [OF lk row_by_in [OF Some]] row_by_SomeD [OF Some] by simp
    show ?thesis using Some u
      by (auto simp: abs_store_def p_close_def terminate_tables cancel_unleased_attempts_def
          row_by_update attempt_leased_s2 [OF lk])
  qed
  have asg: "p_asg (abs_store ?s') k = p_asg ?q k" for k
  proof (cases "row_by as_id k (st_assignments s)")
    case None
    then show ?thesis
      by (simp add: abs_store_def p_close_def terminate_tables close_unleased_assignments_def
          row_by_update)
  next
    case (Some a)
    note u = unleased_assignment [OF lk row_by_in [OF Some], of b now]
    show ?thesis using Some u
      by (auto simp: abs_store_def p_close_def terminate_tables close_unleased_assignments_def
          row_by_update)
  qed
  have lease: "p_lease (abs_store ?s') k = p_lease ?q k" for k
  proof (cases "row_by ls_id k (st_leases s)")
    case None
    then show ?thesis
      by (simp add: abs_store_def p_close_def terminate_tables s2_of_def revoke_cancelled_leases_def
          row_by_update)
  next
    case (Some l)
    obtain a where a: "a \<in> set (st_assignments s)" "as_id a = ls_assignment_id l"
      using linked_lease [OF lk row_by_in [OF Some]] .
    have ra: "row_by as_id (ls_assignment_id l) (st_assignments s) = Some a"
      using linked_rows(4) [OF lk a(1)] a(2) by simp
    have "(\<exists>x\<in>set (st_assignments (close_unleased_assignments b now s)).
        as_id x = ls_assignment_id l \<and> as_batch_id x = b \<and> as_status x = A_Cancelled)
      \<longleftrightarrow> as_attempt_id a \<in> unleased_attempts s b now" if act: "ls_status l = L_Active"
    proof -
      have leased: "leased_assignment (as_status a)"
        using active_lease_assignment [OF assms row_by_in [OF Some] act a] .
      let ?P = "as_batch_id a = b \<and> open_assignment (as_status a) \<and> \<not> validly_leased s now a"
      have row: "row_by as_id (ls_assignment_id l) (st_assignments (close_unleased_assignments b now s))
          = Some (if ?P then a\<lparr>as_status := A_Cancelled, as_updated_at := now,
              as_version := as_version a + 1\<rparr> else a)"
        using ra by (simp add: close_unleased_assignments_def row_by_update)
      have d: "distinct (map as_id (st_assignments (close_unleased_assignments b now s)))"
        using linked_keys(4) [OF lk] by (simp add: close_unleased_keys)
      have "(\<exists>x\<in>set (st_assignments (close_unleased_assignments b now s)).
          as_id x = ls_assignment_id l \<and> as_batch_id x = b \<and> as_status x = A_Cancelled)
        \<longleftrightarrow> (\<exists>x. row_by as_id (ls_assignment_id l)
               (st_assignments (close_unleased_assignments b now s)) = Some x
             \<and> as_batch_id x = b \<and> as_status x = A_Cancelled)"
        unfolding row_by_eq_Some [OF d] by blast
      then show ?thesis
        using row leased unleased_assignment [OF lk a(1), of b now] by auto
    qed
    then show ?thesis using Some ra
      by (auto simp: abs_store_def p_close_def terminate_tables s2_of_def
          revoke_cancelled_leases_def row_by_update)
  qed
  have run: "p_run (abs_store ?s') k = p_run ?q k" for k
  proof (cases "row_by rr_id k (st_runs s)")
    case None
    have "p_att (abs_store s) t \<noteq> Some (k, True)" for t
      using att_okD(1) [OF store_okD(2) [OF assms], of t k] None by (auto simp: abs_store_def)
    then show ?thesis using None
      by (simp add: abs_store_def p_close_def terminate_runs row_by_update)
  next
    case (Some r)
    note r = row_by_in [OF Some]
    have k: "rr_id r = k" using row_by_SomeD [OF Some] by simp
    have W: "k \<in> batch_run_ids s b \<longleftrightarrow> rr_batch_id r = b"
    proof
      assume "k \<in> batch_run_ids s b"
      then obtain r' where "r' \<in> set (st_runs s)" "rr_id r' = rr_id r" "rr_batch_id r' = b"
        using k by (auto simp: batch_run_ids_def)
      then show "rr_batch_id r = b" using linked_run_eq [OF lk _ r] by blast
    next
      assume "rr_batch_id r = b"
      then show "k \<in> batch_run_ids s b" using r k by (auto simp: batch_run_ids_def)
    qed
    have here: "(\<exists>r'\<in>set (st_runs s). rr_id r' = k \<and> rr_batch_id r' = b) \<longleftrightarrow> rr_batch_id r = b"
      using W by (auto simp: batch_run_ids_def)
    have X: "(\<exists>t\<in>unleased_attempts s b now. p_att (abs_store s) t = Some (k, True)) \<longleftrightarrow>
        rr_batch_id r = b \<and> (\<exists>t\<in>set (st_attempts s). at_run_id t = k
          \<and> active_attempt (at_status t) \<and> \<not> attempt_leased s now (at_id t))"
    proof
      assume "\<exists>t\<in>unleased_attempts s b now. p_att (abs_store s) t = Some (k, True)"
      then obtain t where t: "at_id t \<in> unleased_attempts s b now" "t \<in> set (st_attempts s)"
          "at_run_id t = k" "active_attempt (at_status t)"
        unfolding abs_att_iff [OF lk] by blast
      then show "rr_batch_id r = b \<and> (\<exists>t\<in>set (st_attempts s). at_run_id t = k
          \<and> active_attempt (at_status t) \<and> \<not> attempt_leased s now (at_id t))"
        using unleased_iff [OF lk t(2), of b now] here by blast
    next
      assume a: "rr_batch_id r = b \<and> (\<exists>t\<in>set (st_attempts s). at_run_id t = k
          \<and> active_attempt (at_status t) \<and> \<not> attempt_leased s now (at_id t))"
      then obtain t where t: "t \<in> set (st_attempts s)" "at_run_id t = k"
          "active_attempt (at_status t)" "\<not> attempt_leased s now (at_id t)" by blast
      then have "at_id t \<in> unleased_attempts s b now"
        using unleased_iff [OF lk t(1), of b now] here a by blast
      moreover have "p_att (abs_store s) (at_id t) = Some (k, True)"
        unfolding abs_att_iff [OF lk] using t by blast
      ultimately show "\<exists>t\<in>unleased_attempts s b now. p_att (abs_store s) t = Some (k, True)"
        by blast
    qed
    have lhs: "p_run (abs_store ?s') k =
        Some (if run_undrained (cancel_unleased_attempts b reason now (s2_of b now s)) b now r
              then Done else phase_of_run (rr_status r))"
      using Some by (simp add: abs_store_def terminate_runs row_by_update)
    have rhs: "p_run ?q k = (if (\<exists>t\<in>unleased_attempts s b now. p_att (abs_store s) t = Some (k, True))
        \<or> (k \<in> batch_run_ids s b \<and> rr_status r = R_Queued) then Some Done
        else Some (phase_of_run (rr_status r)))"
    proof -
      have "p_run (abs_store s) k = Some (phase_of_run (rr_status r))"
        using Some by (simp add: abs_store_def)
      then show ?thesis unfolding close_run by simp
    qed
    consider (queued) "rr_status r = R_Queued" | (busy) "busy_run (rr_status r)"
      | (fin) "isTerminalRunStatus (rr_status r)"
      by (cases "rr_status r") auto
    then show ?thesis
    proof cases
      case queued
      then have "\<not> (\<exists>t\<in>set (st_attempts s). at_run_id t = k \<and> active_attempt (at_status t))"
        using active_attempt_busy [OF assms _ _ r] k by fastforce
      then show ?thesis
        using queued k unfolding lhs rhs run_undrained_iff [OF lk] W X by auto
    next
      case busy
      then obtain t where t: "t \<in> set (st_attempts s)" "at_run_id t = k" "active_attempt (at_status t)"
        using busy_run_attempt [OF assms r] k by blast
      then have uniq: "\<And>t'. t' \<in> set (st_attempts s) \<Longrightarrow> at_run_id t' = k \<Longrightarrow>
          active_attempt (at_status t') \<Longrightarrow> t' = t"
        using active_attempt_unique [OF assms] by metis
      have 1: "(\<exists>t'\<in>set (st_attempts s). at_run_id t' = rr_id r \<and> active_attempt (at_status t')
          \<and> attempt_leased s now (at_id t')) \<longleftrightarrow> attempt_leased s now (at_id t)"
        using t uniq unfolding k by blast
      have 2: "(\<exists>t'\<in>set (st_attempts s). at_run_id t' = k \<and> active_attempt (at_status t')
          \<and> \<not> attempt_leased s now (at_id t')) \<longleftrightarrow> \<not> attempt_leased s now (at_id t)"
        using t uniq by blast
      have 3: "\<not> isTerminalRunStatus (rr_status r)" "rr_status r \<noteq> R_Queued" using busy by auto
      show ?thesis
        unfolding lhs rhs run_undrained_iff [OF lk] W X 1 2 using 3 by simp
    next
      case fin
      then have "\<not> (\<exists>t\<in>set (st_attempts s). at_run_id t = k \<and> active_attempt (at_status t))"
        using active_attempt_busy [OF assms _ _ r] k by fastforce
      moreover have "phase_of_run (rr_status r) = Done" "rr_status r \<noteq> R_Queued"
        using fin by auto
      ultimately show ?thesis
        using fin unfolding lhs rhs run_undrained_iff [OF lk] W X by auto
    qed
  qed
  show ?thesis
    using att asg lease run by (intro proto.equality) auto
qed

subsection \<open>Settling a batch and updating its status\<close>

text \<open>An operation refines the protocol when its effect is a sequence of protocol steps.\<close>

definition core_shape where
  "core_shape s = (batch_shape s, run_shape s, attempt_shape s, assignment_shape s, count_shape s)"

lemma core_shape_same: "same_shape s t \<Longrightarrow> core_shape t = core_shape s"
  by (simp add: core_shape_def same_shape_def)

definition refines :: "store \<Rightarrow> store \<Rightarrow> bool" where
  "refines s t \<longleftrightarrow> linked t \<and> core_shape t = core_shape s
     \<and> pstep\<^sup>*\<^sup>* (abs_store s) (abs_store t)"

lemma refines_linked: "refines s t \<Longrightarrow> linked t"
  by (simp add: refines_def)

lemma refines_refl: "store_ok s \<Longrightarrow> refines s s"
  by (simp add: refines_def store_ok_def)

lemma refines_ok: "store_ok s \<Longrightarrow> refines s t \<Longrightarrow> store_ok t"
proof -
  assume ok: "store_ok s" and r: "refines s t"
  have steps: "pstep\<^sup>*\<^sup>* (abs_store s) (abs_store t)" and shape: "attempt_shape t = attempt_shape s"
      and counts: "count_shape t = count_shape s"
    using r by (simp_all add: refines_def core_shape_def)
  have over: "p_att (abs_store s) k = Some (x, True)"
    if act: "p_att (abs_store t) k = Some (x, True)" and mem: "(k, x, n) \<in> set (attempt_shape s)"
    for k x n
  proof -
    obtain a where a: "a \<in> set (st_attempts s)" "at_id a = k" "at_run_id a = x"
      using mem by (auto simp: attempt_shape_def)
    then have "p_att (abs_store s) k = Some (x, active_attempt (at_status a))"
      using abs_rows(2) [OF store_okD(1) [OF ok] a(1)] by simp
    then show ?thesis using pstep_over_steps [OF steps, of k x] act
      by (cases "active_attempt (at_status a)") auto
  qed
  have "newest_active s" using ok by (simp add: store_ok_def)
  then have "newest_active t"
    using over unfolding newest_active_def shape by blast
  then show ?thesis
    using ok r dispatching.inv_steps [OF steps] shape counts
    by (simp add: store_ok_def refines_def counted_def)
qed

lemma refines_trans: "refines s t \<Longrightarrow> refines t u \<Longrightarrow> refines s u"
  by (auto simp: refines_def)

lemma refines_same: "linked s \<Longrightarrow> same_shape s t \<Longrightarrow> abs_store t = abs_store s \<Longrightarrow> refines s t"
  by (simp add: refines_def linked_same_shape core_shape_same)

lemma refines_step: "linked s \<Longrightarrow> same_shape s t \<Longrightarrow> pstep (abs_store s) (abs_store t) \<Longrightarrow> refines s t"
  by (auto simp: refines_def linked_same_shape core_shape_same)

lemma refines_close:
  assumes "linked s" "same_shape s t" "abs_store t = p_close X d W (abs_store s)" "\<And>r. d r \<noteq> Busy"
  shows "refines s t"
  using assms by (auto simp: refines_def linked_same_shape core_shape_same
      intro!: r_into_rtranclp pstep.close)

lemma terminate_refines:
  assumes "store_ok s"
  shows "refines s (snd (terminateWaitingRuns b reason now s))"
  using store_okD(1) [OF assms] terminate_shape terminate_abs [OF assms]
  by (rule refines_close) simp

lemma abs_store_cong:
  assumes "\<And>k. map_option (\<lambda>r. phase_of_run (rr_status r)) (row_by rr_id k (st_runs t)) =
      map_option (\<lambda>r. phase_of_run (rr_status r)) (row_by rr_id k (st_runs s))"
    and "st_attempts t = st_attempts s" "st_assignments t = st_assignments s"
    and "st_leases t = st_leases s"
  shows "abs_store t = abs_store s"
  using assms by (simp add: abs_store_def)

lemma advanceRound_cases:
  obtains (same) "advanceRoundIfIdle b mode q now s = s"
  | (recover) v where "advanceRoundIfIdle b mode q now s = s\<lparr>st_recoveries := v\<rparr>"
  | (release) nr where "next_round s b = Some nr" "mode = Round"
      "\<And>r. r \<in> set (st_runs s) \<Longrightarrow> rr_batch_id r = b \<Longrightarrow> \<not> busy_run (rr_status r)"
      "\<And>r. r \<in> set (st_runs s) \<Longrightarrow> rr_batch_id r = b \<Longrightarrow> rr_status r = R_Queued \<Longrightarrow>
         rr_held_round r \<noteq> 0"
      "advanceRoundIfIdle b mode q now s = release_round b q now nr s"
proof -
  have c0: "\<not> 0 < count_where P rows \<Longrightarrow> \<forall>r\<in>set rows. \<not> P r"
    for P :: "run_row \<Rightarrow> bool" and rows by simp
  show thesis
  proof (cases "mode = Round \<and>
      \<not> 0 < count_where (\<lambda>r. rr_batch_id r = b \<and> busy_run (rr_status r)) (st_runs s) \<and>
      \<not> 0 < count_where (\<lambda>r. rr_batch_id r = b \<and> rr_status r = R_Queued \<and> rr_held_round r = 0)
           (st_runs s)")
    case False
    then have "advanceRoundIfIdle b mode q now s = s"
      unfolding advanceRoundIfIdle_def by presburger
    then show thesis by (rule same)
  next
    case True
    show thesis
    proof (cases "next_round s b")
      case None
      with True have "advanceRoundIfIdle b mode q now s = s"
        by (simp add: advanceRoundIfIdle_def)
      then show thesis by (rule same)
    next
      case (Some nr)
      let ?steps = "barrier_steps s b (nr - 1)"
      consider (idle) "0 < length ?steps \<and> 0 < count_where (\<lambda>v. rv_status v = RV_Idle) ?steps"
        | (wait) "\<not> (0 < length ?steps \<and> 0 < count_where (\<lambda>v. rv_status v = RV_Idle) ?steps)"
            "0 < length ?steps \<and> count_where (\<lambda>v. rv_status v = RV_Succeeded) ?steps < length ?steps"
        | (go) "\<not> (0 < length ?steps \<and> 0 < count_where (\<lambda>v. rv_status v = RV_Idle) ?steps)"
            "\<not> (0 < length ?steps \<and> count_where (\<lambda>v. rv_status v = RV_Succeeded) ?steps < length ?steps)"
        by blast
      then show thesis
      proof cases
        case idle
        with True Some show thesis
          by (intro recover) (simp only: advanceRoundIfIdle_def Let_def option.case if_True if_False
              simp_thms not_True_eq_False)
      next
        case wait
        with True Some have "advanceRoundIfIdle b mode q now s = s"
          by (simp only: advanceRoundIfIdle_def Let_def option.case if_True if_False
              simp_thms not_True_eq_False)
        then show thesis by (rule same)
      next
        case go
        with True Some have "advanceRoundIfIdle b mode q now s = release_round b q now nr s"
          by (simp only: advanceRoundIfIdle_def Let_def option.case if_True if_False
              simp_thms not_True_eq_False release_round_def)
        then show thesis using True Some by (intro release) (auto dest: c0)
      qed
    qed
  qed
qed

lemma release_round_abs: "abs_store (release_round b q now nr s) = abs_store s"
proof (rule abs_store_cong)
  fix k
  show "map_option (\<lambda>r. phase_of_run (rr_status r)) (row_by rr_id k (st_runs (release_round b q now nr s))) =
    map_option (\<lambda>r. phase_of_run (rr_status r)) (row_by rr_id k (st_runs s))"
    by (cases "row_by rr_id k (st_runs s)") (simp_all add: release_round_def row_by_update)
qed (simp_all add: release_round_def)

lemma advanceRound_abs: "abs_store (advanceRoundIfIdle b mode q now s) = abs_store s"
  by (rule advanceRound_cases [of b mode q now s]) (simp_all add: release_round_abs, simp add: abs_store_def)

lemma advanceRound_shape: "same_shape s (advanceRoundIfIdle b mode q now s)"
  by (rule advanceRound_cases [of b mode q now s])
    (simp_all add: same_shape_update release_round_def)

lemma settle_refines:
  assumes "store_ok s"
  shows "refines s (settle_batch b now s)"
proof (cases "bt_cancel_requested_at b = None")
  case True
  then show ?thesis
    using store_okD(1) [OF assms] refines_refl [OF assms]
    by (auto simp: settle_batch_def Let_def advanceRound_shape advanceRound_abs intro: refines_same)
next
  case False
  then obtain t where "bt_cancel_requested_at b = Some t" by blast
  then show ?thesis
    using terminate_refines [OF assms] by (simp add: settle_batch_def Let_def)
qed

lemma insert_batch_event_Inr:
  assumes "insert_batch_event e s = Inr s'"
  obtains evs where "s' = s\<lparr>st_batch_events := evs\<rparr>"
  using assms unfolding insert_batch_event_def and_then_eq_Inr by blast

lemma set_batch_status_Inr:
  assumes "set_batch_status b status now e why s = Inr (st, s')"
  obtains evs where "st = status" "s' = put_batch_status b status now s\<lparr>st_batch_events := evs\<rparr>"
    "count_where (same_version b) (st_batches s) = 1"
proof (cases "count_where (same_version b) (st_batches s) = 1")
  case False
  then show ?thesis using assms by (simp add: set_batch_status_def)
next
  case True
  define S where "S = put_batch_status b status now s"
  define E where "E = \<lparr>be_id = e, be_batch_id = bt_id b, be_from_status = Some (bt_status b),
            be_to_status = status, be_batch_version = bt_version b + 1, be_reason = why,
            be_recorded_at = now\<rparr>"
  have "and_then (insert_batch_event E S) (\<lambda>s'. Inr (status, s')) = Inr (st, s')"
    using assms True by (simp only: set_batch_status_def S_def E_def if_False simp_thms)
  then obtain s1 where s1: "insert_batch_event E S = Inr s1" "(status, s1) = (st, s')"
    unfolding and_then_eq_Inr by blast
  obtain evs where "s1 = S\<lparr>st_batch_events := evs\<rparr>" using s1(1) by (rule insert_batch_event_Inr)
  then have "st = status" "s' = put_batch_status b status now s\<lparr>st_batch_events := evs\<rparr>"
    using s1(2) unfolding S_def by auto
  then show ?thesis using True by (intro that)
qed

lemma updateBatchStatus_Inr:
  assumes "updateBatchStatus k now e why s = Inr (st, s')"
  obtains (closed) b where "find_batch s k = Some b" "isTerminalBatchStatus (bt_status b)"
      "st = bt_status b" "s' = s"
  | (kept) b where "find_batch s k = Some b" "\<not> isTerminalBatchStatus (bt_status b)"
      "st = aggregateStoredBatchStatus (settle_batch b now s) k (bt_cancel_requested_at b \<noteq> None)"
      "st = bt_status b" "s' = settle_batch b now s"
  | (moved) b evs where "find_batch s k = Some b" "\<not> isTerminalBatchStatus (bt_status b)"
      "st = aggregateStoredBatchStatus (settle_batch b now s) k (bt_cancel_requested_at b \<noteq> None)"
      "st \<noteq> bt_status b"
      "s' = put_batch_status b st now (settle_batch b now s)\<lparr>st_batch_events := evs\<rparr>"
      "count_where (same_version b) (st_batches (settle_batch b now s)) = 1"
proof -
  obtain b where b: "find_batch s k = Some b"
    using assms by (auto simp: updateBatchStatus_def and_then_eq_Inr found_eq_Inr)
  define S where "S = settle_batch b now s"
  define T where "T = aggregateStoredBatchStatus S k (bt_cancel_requested_at b \<noteq> None)"
  have eq: "updateBatchStatus k now e why s =
      (if isTerminalBatchStatus (bt_status b) then Inr (bt_status b, s)
       else if bt_status b = T then Inr (T, S) else set_batch_status b T now e why S)"
    unfolding T_def S_def using b
    by (simp add: updateBatchStatus_def Let_def transitionRunBatch_active)
  consider "isTerminalBatchStatus (bt_status b)"
    | "\<not> isTerminalBatchStatus (bt_status b)" "bt_status b = T"
    | "\<not> isTerminalBatchStatus (bt_status b)" "bt_status b \<noteq> T" by blast
  then show thesis
  proof cases
    case 1
    then have "st = bt_status b" "s' = s" using assms unfolding eq by simp_all
    then show thesis by (rule closed [OF b 1])
  next
    case 2
    then have "st = T" "s' = S" using assms unfolding eq by simp_all
    then show thesis using 2(2) by (intro kept [OF b 2(1)]) (simp_all only: T_def S_def)
  next
    case 3
    then have set: "set_batch_status b T now e why S = Inr (st, s')" using assms unfolding eq by simp
    then obtain evs where "st = T" "s' = put_batch_status b T now S\<lparr>st_batch_events := evs\<rparr>"
        "count_where (same_version b) (st_batches S) = 1"
      by (rule set_batch_status_Inr)
    then show thesis using 3(2) not_sym [OF 3(2)]
      by (intro moved [OF b 3(1), of evs]) (simp_all only: T_def S_def not_False_eq_True)
  qed
qed

lemma put_batch_status_shape: "same_shape s (put_batch_status b st now s\<lparr>st_batch_events := evs\<rparr>)"
  by (simp add: put_batch_status_def same_shape_update same_version_def)

lemma put_batch_status_abs:
  "abs_store (put_batch_status b st now s\<lparr>st_batch_events := evs\<rparr>) = abs_store s"
  by (simp add: put_batch_status_def abs_store_def)

lemma updateBatchStatus_refines:
  assumes "updateBatchStatus k now e why s = Inr (st, s')" "store_ok s"
  shows "refines s s'"
  using assms(1)
proof (cases rule: updateBatchStatus_Inr)
  case (closed b)
  then show ?thesis using refines_refl assms(2) by simp
next
  case (kept b)
  then show ?thesis using settle_refines assms(2) by simp
next
  case (moved b evs)
  note r = settle_refines [OF assms(2), of b now]
  then have "linked (settle_batch b now s)" by (simp add: refines_def)
  then have "refines (settle_batch b now s) s'"
    unfolding moved(5) using put_batch_status_shape put_batch_status_abs by (rule refines_same)
  with r show ?thesis by (rule refines_trans)
qed

end
