(* ===== verification/Exec_Complete.thy ===== *)
theory Exec_Complete
  imports Exec_Batch
begin

text \<open>
  Completion reports: \<open>completeAttempt\<close> of \<open>packages/db/src/sqlite-execution-control.ts\<close>. The first
  report of an attempt is accepted, or late when the lease, the attempt or the run is no longer
  current; it leaves a receipt. A repetition with the same digest is answered from the receipt, one
  with another digest is rejected and only leaves a conflict event.
\<close>

record artifact_declaration =
  ax_artifact_id :: ident
  ax_relative_path :: string
  ax_media_type :: string
  ax_size :: int
  ax_sha256 :: string
  ax_required :: bool

record completion_result =
  cz_status :: attempt_outcome
  cz_result_code :: string
  cz_summary :: string
  cz_duration_ms :: int
  cz_test_ng :: "test_ng_details option"
  cz_log_watermarks :: "(int \<times> int \<times> int) option"
  cz_artifacts :: "artifact_declaration list"

record complete_input =
  co_runner_id :: ident
  co_attempt_id :: ident
  co_completion_id :: ident
  co_lease_token_hash :: string
  co_result_digest :: string
  co_result :: completion_result
  co_event_id :: ident
  co_accepted_at :: time

text \<open>The context handed to the factory of scheduling events.\<close>

record scheduling_context =
  sx_batch_id :: ident
  sx_run_id :: ident
  sx_runner_id :: ident
  sx_attempt_number :: int
  sx_display_name :: string
  sx_held_round :: "int option"

type_synonym event_factory = "scheduling_context \<Rightarrow> bool \<Rightarrow> scheduling_event list"

definition cancellationResult :: "completion_result \<Rightarrow> time option \<Rightarrow> completion_result" where
  "cancellationResult result cancelRequestedAt =
     (if cancelRequestedAt = None \<or> cz_status result = Cancelled then result
      else result\<lparr>cz_status := Cancelled, cz_result_code := ''CANCELLED_BY_CONTROL_PLANE'',
                  cz_summary := ''CANCELLED_BEFORE_COMPLETION''\<rparr>)"

subsection \<open>Completion metadata\<close>

definition declared_artifact :: "ident \<Rightarrow> time \<Rightarrow> artifact_declaration \<Rightarrow> artifact_row" where
  "declared_artifact attemptId recordedAt x =
     \<lparr>af_id = ax_artifact_id x, af_attempt_id = attemptId, af_relative_path = ax_relative_path x,
      af_object_key = None, af_media_type = ax_media_type x, af_size = ax_size x,
      af_sha256 = ax_sha256 x, af_required = ax_required x, af_status = Declared,
      af_created_at = recordedAt, af_updated_at = recordedAt\<rparr>"

text \<open>\<open>INSERT ... ON CONFLICT(attempt_id, relative_path) DO NOTHING\<close>.\<close>

fun insert_artifacts ::
  "ident \<Rightarrow> time \<Rightarrow> artifact_declaration list \<Rightarrow> store \<Rightarrow> domain_error + store" where
  "insert_artifacts attemptId recordedAt [] s = Inr s"
| "insert_artifacts attemptId recordedAt (x # xs) s =
     (if \<exists>f\<in>set (st_artifacts s). af_attempt_id f = attemptId
           \<and> af_relative_path f = ax_relative_path x
        then insert_artifacts attemptId recordedAt xs s
      else and_then (insert_row af_id (declared_artifact attemptId recordedAt x) (st_artifacts s))
        (\<lambda>rows. insert_artifacts attemptId recordedAt xs (s\<lparr>st_artifacts := rows\<rparr>)))"

definition watermark_of :: "int \<times> int \<times> int \<Rightarrow> log_stream \<Rightarrow> int" where
  "watermark_of w stream =
     (case stream of Stdout \<Rightarrow> fst w | Stderr \<Rightarrow> fst (snd w) | Agent_Log \<Rightarrow> snd (snd w))"

definition persistCompletionMetadata ::
  "ident \<Rightarrow> ident \<Rightarrow> completion_result \<Rightarrow> time \<Rightarrow> store \<Rightarrow> domain_error + store" where
  "persistCompletionMetadata batchId attemptId result recordedAt s =
     and_then (insert_artifacts attemptId recordedAt (cz_artifacts result) s) (\<lambda>s1.
       case cz_log_watermarks result of
         None \<Rightarrow> Inr s1
       | Some w \<Rightarrow> and_then (assertBatchId batchId) (\<lambda>_.
           Inr (s1\<lparr>st_logs := recordWatermarks batchId attemptId (watermark_of w) recordedAt
                     (st_logs s1)\<rparr>)))"

subsection \<open>Persisting an accepted completion\<close>

text \<open>The four row updates of \<open>persistCompletion\<close>.\<close>

definition complete_attempt_row ::
  "complete_input \<Rightarrow> completion_result \<Rightarrow> attempt_status \<Rightarrow> store \<Rightarrow> store" where
  "complete_attempt_row i result attemptStatus s =
     s\<lparr>st_attempts := update_where
        (\<lambda>t. at_id t = co_attempt_id i \<and> active_attempt (at_status t))
        (\<lambda>t. t\<lparr>at_status := attemptStatus, at_outcome := outcome_of_status attemptStatus,
              at_result_code := Some (cz_result_code result),
              at_result_summary := Some (cz_summary result),
              at_completion_digest := Some (co_result_digest i),
              at_duration_ms := Some (cz_duration_ms result), at_test_ng := cz_test_ng result,
              at_finished_at := Some (co_accepted_at i), at_version := at_version t + 1\<rparr>)
        (st_attempts s)\<rparr>"

definition complete_assignment_row ::
  "ident \<Rightarrow> assignment_status \<Rightarrow> time \<Rightarrow> store \<Rightarrow> store" where
  "complete_assignment_row assignmentId status now s =
     s\<lparr>st_assignments := update_where
        (\<lambda>a. as_id a = assignmentId \<and> leased_assignment (as_status a))
        (\<lambda>a. a\<lparr>as_status := status, as_completed_at := Some now, as_updated_at := now,
              as_version := as_version a + 1\<rparr>)
        (st_assignments s)\<rparr>"

definition release_lease_row :: "ident \<Rightarrow> lease_status \<Rightarrow> store \<Rightarrow> store" where
  "release_lease_row leaseId status s =
     s\<lparr>st_leases := update_where (\<lambda>l. ls_id l = leaseId \<and> ls_status l = L_Active)
        (\<lambda>l. l\<lparr>ls_status := status\<rparr>) (st_leases s)\<rparr>"

definition finish_run_row ::
  "ident \<Rightarrow> run_status \<Rightarrow> attempt_outcome option \<Rightarrow> ident option \<Rightarrow> string option \<Rightarrow>
   retry_queue_timing \<Rightarrow> time \<Rightarrow> store \<Rightarrow> store" where
  "finish_run_row runId status oc runner reason timing now s =
     s\<lparr>st_runs := update_where (\<lambda>r. rr_id r = runId \<and> busy_run (rr_status r))
        (\<lambda>r. r\<lparr>rr_status := status, rr_terminal_outcome := oc, rr_assigned_runner_id := runner,
              rr_terminal_reason_code := reason, rr_execution_round := qt_execution_round timing,
              rr_held_round := qt_held_round timing,
              rr_queue_deadline_at := qt_queue_deadline_at timing, rr_updated_at := now,
              rr_version := rr_version r + 1\<rparr>)
        (st_runs s)\<rparr>"

definition completed_event ::
  "complete_input \<Rightarrow> attempt_control \<Rightarrow> completion_result \<Rightarrow> attempt_status \<Rightarrow> run_status \<Rightarrow>
   attempt_event_row" where
  "completed_event i control result attemptStatus runStatus =
     \<lparr>ev_id = co_event_id i, ev_attempt_id = co_attempt_id i,
      ev_type = ''attempt.completed'', ev_from_status = Some (ac_status control),
      ev_to_status = Some attemptStatus, ev_reason_code = None,
      ev_actor_type = Actor_Runner, ev_actor_id = Some (co_runner_id i),
      ev_details = Completed_Details (cz_result_code result) (runStatus = R_Queued),
      ev_recorded_at = co_accepted_at i\<rparr>"

definition persistCompletion ::
  "attempt_control \<Rightarrow> assignment_row \<Rightarrow> lease_row \<Rightarrow> completion_result \<Rightarrow> complete_input \<Rightarrow>
   run_status \<Rightarrow> store \<Rightarrow> domain_error + (batch_status \<times> store)" where
  "persistCompletion control assignment lease result i runStatus s =
     and_then (transitionRunAttempt (ac_status control) (status_of_outcome (cz_status result)))
       (\<lambda>attemptStatus.
     and_then (transitionAssignment (as_status assignment) A_Completed) (\<lambda>assignmentStatus.
     and_then (transitionLease (ls_status lease) L_Released) (\<lambda>leaseStatus.
     and_then (transitionExecutionRun (ac_run_status control) runStatus) (\<lambda>executionRunStatus.
       let queueTiming = retryQueueTiming executionRunStatus (ac_retry_mode control)
             (isRetryableRunnerFailure (Some (cz_result_code result)))
             (ac_execution_round control) (co_accepted_at i) (ac_queue_timeout_ms control);
           queued = (executionRunStatus = R_Queued);
           s1 = complete_attempt_row i result attemptStatus s;
           s2 = complete_assignment_row (as_id assignment) assignmentStatus (co_accepted_at i) s1;
           s3 = release_lease_row (ls_id lease) leaseStatus s2;
           s4 = finish_run_row (ac_run_id control) executionRunStatus
                  (if queued then None else outcome_of_status attemptStatus)
                  (if queued then None else Some (ac_runner_id control))
                  (if queued then None else Some (cz_result_code result))
                  queueTiming (co_accepted_at i) s3
       in and_then
         (persistCompletionMetadata (ac_batch_id control) (co_attempt_id i) result
            (co_accepted_at i) s4)
         (\<lambda>s5. and_then
           (appendAttemptEvent (completed_event i control result attemptStatus runStatus) s5)
           (\<lambda>s6. updateBatchStatus (ac_batch_id control) (co_accepted_at i) (co_event_id i)
             ''attempt.completed'' s6))))))"

subsection \<open>\<open>completeAttempt\<close>\<close>

definition insert_receipt ::
  "complete_input \<Rightarrow> complete_response \<Rightarrow> store \<Rightarrow> domain_error + store" where
  "insert_receipt i response s =
     and_then
       (insert_row rc_attempt_id
          \<lparr>rc_attempt_id = co_attempt_id i, rc_completion_id = co_completion_id i,
           rc_result_digest = co_result_digest i, rc_response = response,
           rc_accepted_at = co_accepted_at i\<rparr> (st_receipts s))
       (\<lambda>rows. Inr (s\<lparr>st_receipts := rows\<rparr>))"

datatype complete_outcome = Responded complete_response | Conflicting

definition completion_authorized ::
  "complete_input \<Rightarrow> completion_opening \<Rightarrow> bool" where
  "completion_authorized i op \<longleftrightarrow>
     op_assignment op \<noteq> None \<and>
     (case op_lease op of
        None \<Rightarrow> False
      | Some l \<Rightarrow> ls_runner_id l = co_runner_id i \<and> ls_token_hash l = co_lease_token_hash i)"

definition completion_late :: "complete_input \<Rightarrow> attempt_control \<Rightarrow> lease_row \<Rightarrow> int option \<Rightarrow> bool" where
  "completion_late i control lease latest \<longleftrightarrow>
     ls_status lease \<noteq> L_Active \<or> ls_expires_at lease \<le> co_accepted_at i \<or>
     latest \<noteq> Some (ac_attempt_number control) \<or> isTerminalRunStatus (ac_run_status control)"

definition first_response :: "complete_input \<Rightarrow> completion_opening \<Rightarrow> bool \<Rightarrow> bool \<Rightarrow> complete_response" where
  "first_response i op late retry =
     \<lparr>cp_completion_id = co_completion_id i, cp_accepted_at = co_accepted_at i,
      cp_disposition = (if late then Late else Accepted), cp_retry_scheduled = retry,
      cp_batch_id = Some (ac_batch_id (op_control op)),
      cp_batch_closed = Some (isTerminalBatchStatus (op_batch_status op)),
      cp_has_schedulable_runs = None\<rparr>"

definition completion_decision ::
  "attempt_control \<Rightarrow> completion_result \<Rightarrow> store \<Rightarrow> run_status \<times> bool" where
  "completion_decision control result s =
     (let (runner, ordinary) =
            (if cz_status result = Succeeded then (0, 0) else failureCounts s (ac_run_id control))
      in outcomeAfterCompletion
           \<lparr>ci_outcome = cz_status result, ci_attempt_number = ac_attempt_number control,
            ci_retry_limit = ac_retry_limit control,
            ci_cancellation_requested = ac_run_cancel_requested_at control \<noteq> None,
            ci_retryable_runner_failure = isRetryableRunnerFailure (Some (cz_result_code result)),
            ci_runner_failures_before = Some runner,
            ci_ordinary_failures_before = Some ordinary,
            ci_retry_suppressed = ac_batch_termination_requested_at control \<noteq> None\<rparr>)"

definition accept_completion ::
  "complete_input \<Rightarrow> event_factory option \<Rightarrow> completion_opening \<Rightarrow> assignment_row \<Rightarrow> lease_row \<Rightarrow> store \<Rightarrow>
   domain_error + (complete_response \<times> store)" where
  "accept_completion i factory op assignment lease s =
     (let control = op_control op;
          result = cancellationResult (co_result i) (ac_run_cancel_requested_at control);
          (runStatus, retry) = completion_decision control result s;
          response = first_response i op False retry
      in and_then (insert_receipt i response s) (\<lambda>s1.
         and_then (persistCompletion control assignment lease result i runStatus s1)
           (\<lambda>(batchStatus, s2).
              let final = response\<lparr>cp_batch_closed := Some (isTerminalBatchStatus batchStatus),
                    cp_has_schedulable_runs :=
                      Some (exec_hasSchedulableRuns s2 (ac_batch_id control))\<rparr>
              in case factory of
                   None \<Rightarrow> Inr (final, s2)
                 | Some f \<Rightarrow>
                     and_then
                       (appendSchedulingEventDrafts
                          (f \<lparr>sx_batch_id = ac_batch_id control, sx_run_id = ac_run_id control,
                              sx_runner_id = as_runner_id assignment,
                              sx_attempt_number = ac_attempt_number control,
                              sx_display_name = op_display_name op,
                              sx_held_round = (if op_held_round op > 0
                                then Some (op_held_round op) else None)\<rparr>
                             retry) s2)
                       (\<lambda>s3. Inr (final, s3)))))"

definition conflict_event ::
  "complete_input \<Rightarrow> completion_opening \<Rightarrow> receipt_row \<Rightarrow> attempt_event_row" where
  "conflict_event i op receipt =
     \<lparr>ev_id = co_event_id i, ev_attempt_id = co_attempt_id i,
      ev_type = ''attempt.completion_conflict'',
      ev_from_status = Some (ac_status (op_control op)),
      ev_to_status = Some (ac_status (op_control op)),
      ev_reason_code = Some ''ATTEMPT_COMPLETION_CONFLICT'',
      ev_actor_type = Actor_Runner, ev_actor_id = Some (co_runner_id i),
      ev_details = Conflict_Details (co_completion_id i) (co_result_digest i)
        (rc_result_digest receipt),
      ev_recorded_at = co_accepted_at i\<rparr>"

definition complete_body ::
  "complete_input \<Rightarrow> event_factory option \<Rightarrow> store \<Rightarrow> domain_error + (complete_outcome \<times> store)" where
  "complete_body i factory s =
     and_then (found ''RUN_ATTEMPT_NOT_FOUND'' (completionOpening s (co_attempt_id i))) (\<lambda>op.
       case (op_assignment op, op_lease op) of
         (Some assignment, Some lease) \<Rightarrow>
           (if \<not> completion_authorized i op then Inl (DomainError ''LEASE_AUTH_REJECTED'')
            else case find_receipt s (co_attempt_id i) of
              Some receipt \<Rightarrow>
                if rc_result_digest receipt \<noteq> co_result_digest i
                  then and_then (appendAttemptEvent (conflict_event i op receipt) s)
                    (\<lambda>s1. Inr (Conflicting, s1))
                else
                  let stored = (rc_response receipt)\<lparr>cp_disposition := Duplicate\<rparr>
                  in Inr (Responded
                       (case find_batch s (ac_batch_id (op_control op)) of
                          None \<Rightarrow> stored
                        | Some b \<Rightarrow> stored\<lparr>cp_batch_closed :=
                            Some (isTerminalBatchStatus (bt_status b))\<rparr>), s)
            | None \<Rightarrow>
                if completion_late i (op_control op) lease (op_latest_attempt_number op)
                  then let response = first_response i op True False
                       in and_then (insert_receipt i response s) (\<lambda>s1. Inr (Responded response, s1))
                else and_then (accept_completion i factory op assignment lease s)
                  (\<lambda>(response, s1). Inr (Responded response, s1)))
       | _ \<Rightarrow> Inl (DomainError ''LEASE_AUTH_REJECTED''))"

text \<open>The conflict is thrown after the transaction that records it has committed.\<close>

definition completeAttempt ::
  "complete_input \<Rightarrow> event_factory option \<Rightarrow> store \<Rightarrow> (domain_error + complete_response) \<times> store" where
  "completeAttempt i factory s =
     (case transaction (complete_body i factory) s of
        (Inl e, s') \<Rightarrow> (Inl e, s')
      | (Inr Conflicting, s') \<Rightarrow> (Inl (DomainError ''ATTEMPT_COMPLETION_CONFLICT''), s')
      | (Inr (Responded r), s') \<Rightarrow> (Inr r, s'))"

end
