(* ===== verification/Exec_Recover.thy ===== *)
theory Exec_Recover
  imports Exec_Complete
begin

text \<open>
  Expiry: \<open>recoverExpired\<close>, \<open>expireAttempt\<close> and \<open>settleTerminatingBatches\<close> of
  \<open>packages/db/src/sqlite-execution-control.ts\<close>, with the query of
  \<open>packages/db/src/terminating-batch-settlement.ts\<close>. \<open>julianday(t) + ms/86400000.0 <= julianday(now)\<close>
  is \<open>t + ms \<le> now\<close> on milliseconds; the rounding of the floating-point day numbers is not modelled.
\<close>

datatype recovery_reason = Claim_Timeout | Lease_Expired | Execution_Timeout | Upload_Timeout

record attempt_expiration =
  xp_event_type :: string
  xp_result_code :: string
  xp_summary :: string

fun attemptExpiration :: "recovery_reason \<Rightarrow> attempt_expiration" where
  "attemptExpiration Claim_Timeout =
     \<lparr>xp_event_type = ''assignment.claim_timed_out'', xp_result_code = ''ASSIGNMENT_CLAIM_TIMEOUT'',
      xp_summary = ''Assignment was not claimed before its deadline.''\<rparr>"
| "attemptExpiration Execution_Timeout =
     \<lparr>xp_event_type = ''attempt.execution_timed_out'', xp_result_code = ''EXECUTION_TIMEOUT'',
      xp_summary = ''Execution exceeded its configured timeout.''\<rparr>"
| "attemptExpiration Upload_Timeout =
     \<lparr>xp_event_type = ''attempt.upload_timed_out'', xp_result_code = ''UPLOAD_TIMEOUT'',
      xp_summary = ''Artifact upload and completion exceeded the configured timeout.''\<rparr>"
| "attemptExpiration Lease_Expired =
     \<lparr>xp_event_type = ''lease.expired'', xp_result_code = ''LEASE_EXPIRED'',
      xp_summary = ''Assignment lease expired before completion.''\<rparr>"

record recovered_attempt =
  rx_attempt_id :: ident
  rx_batch_id :: ident
  rx_run_id :: ident
  rx_runner_id :: "ident option"
  rx_reason :: recovery_reason
  rx_retry_scheduled :: bool

record recover_input =
  ri_now :: time
  ri_event_ids :: "ident list"
  ri_limit :: nat
  ri_terminating_only :: bool

subsection \<open>Expiring one attempt\<close>

definition expire_assignment_row :: "ident \<Rightarrow> assignment_status \<Rightarrow> time \<Rightarrow> store \<Rightarrow> store" where
  "expire_assignment_row assignmentId status now s =
     s\<lparr>st_assignments := update_where
        (\<lambda>a. as_id a = assignmentId \<and> open_assignment (as_status a))
        (\<lambda>a. a\<lparr>as_status := status, as_updated_at := now, as_version := as_version a + 1\<rparr>)
        (st_assignments s)\<rparr>"

definition expire_attempt_row :: "ident \<Rightarrow> attempt_expiration \<Rightarrow> time \<Rightarrow> store \<Rightarrow> store" where
  "expire_attempt_row attemptId x now s =
     s\<lparr>st_attempts := update_where
        (\<lambda>t. at_id t = attemptId \<and> active_attempt (at_status t))
        (\<lambda>t. t\<lparr>at_status := T_Timed_Out, at_outcome := Some Timed_Out,
              at_result_code := Some (xp_result_code x), at_result_summary := Some (xp_summary x),
              at_finished_at := Some now, at_version := at_version t + 1\<rparr>)
        (st_attempts s)\<rparr>"

definition expiry_decision ::
  "attempt_control \<Rightarrow> attempt_expiration \<Rightarrow> store \<Rightarrow> run_status \<times> bool" where
  "expiry_decision control x s =
     (let (runner, ordinary) = failureCounts s (ac_run_id control)
      in outcomeAfterCompletion
           \<lparr>ci_outcome = Timed_Out, ci_attempt_number = ac_attempt_number control,
            ci_retry_limit = ac_retry_limit control,
            ci_cancellation_requested = ac_run_cancel_requested_at control \<noteq> None,
            ci_retryable_runner_failure = isRetryableRunnerFailure (Some (xp_result_code x)),
            ci_runner_failures_before = Some runner,
            ci_ordinary_failures_before = Some ordinary,
            ci_retry_suppressed = ac_batch_termination_requested_at control \<noteq> None\<rparr>)"

definition expired_event ::
  "ident \<Rightarrow> ident \<Rightarrow> attempt_expiration \<Rightarrow> attempt_control \<Rightarrow> attempt_status \<Rightarrow> bool \<Rightarrow> time \<Rightarrow>
   attempt_event_row" where
  "expired_event eventId attemptId x control attemptStatus retry recordedAt =
     \<lparr>ev_id = eventId, ev_attempt_id = attemptId, ev_type = xp_event_type x,
      ev_from_status = Some (ac_status control), ev_to_status = Some attemptStatus,
      ev_reason_code = Some (xp_result_code x), ev_actor_type = Actor_System,
      ev_actor_id = None, ev_details = Expired_Details retry, ev_recorded_at = recordedAt\<rparr>"

definition expireAttempt ::
  "ident \<Rightarrow> ident \<Rightarrow> time \<Rightarrow> ident \<Rightarrow> recovery_reason \<Rightarrow> store \<Rightarrow>
   domain_error + (recovered_attempt option \<times> store)" where
  "expireAttempt assignmentId attemptId recordedAt eventId expirationReason s =
     (case findAttemptControl s attemptId of
        None \<Rightarrow> Inr (None, s)
      | Some control \<Rightarrow>
          if isTerminalAttemptStatus (ac_status control) then Inr (None, s)
          else
            let x = attemptExpiration expirationReason;
                (decided, retry) = expiry_decision control x s
            in and_then (transitionRunAttempt (ac_status control) T_Timed_Out) (\<lambda>attemptStatus.
               and_then (transitionExecutionRun (ac_run_status control) decided) (\<lambda>runStatus.
               and_then (requiredAssignment s assignmentId) (\<lambda>assignment.
               and_then (transitionAssignment (as_status assignment) A_Expired) (\<lambda>assignmentStatus.
                 let queueTiming = retryQueueTiming runStatus (ac_retry_mode control)
                       (isRetryableRunnerFailure (Some (xp_result_code x)))
                       (ac_execution_round control) recordedAt (ac_queue_timeout_ms control);
                     queued = (runStatus = R_Queued);
                     s1 = expire_assignment_row assignmentId assignmentStatus recordedAt s;
                     s2 = expire_attempt_row attemptId x recordedAt s1;
                     s3 = finish_run_row (ac_run_id control) runStatus
                            (if queued then None else outcome_of_status attemptStatus) None
                            (if queued then None else Some (xp_result_code x))
                            queueTiming recordedAt s2
                 in and_then
                   (appendAttemptEvent
                      (expired_event eventId attemptId x control attemptStatus retry recordedAt) s3)
                   (\<lambda>s4. and_then
                     (updateBatchStatus (ac_batch_id control) recordedAt eventId
                        (xp_event_type x) s4)
                     (\<lambda>(_, s5). Inr
                       (Some \<lparr>rx_attempt_id = attemptId, rx_batch_id = ac_batch_id control,
                              rx_run_id = ac_run_id control,
                              rx_runner_id = (if expirationReason = Claim_Timeout then None
                                              else Some (ac_runner_id control)),
                              rx_reason = expirationReason, rx_retry_scheduled = retry\<rparr>,
                        s5))))))))"

subsection \<open>Queue timeouts\<close>

definition queue_window_over :: "batch_row \<Rightarrow> time \<Rightarrow> bool" where
  "queue_window_over b now \<longleftrightarrow>
     bt_pause_requested_at b = None \<and>
     (case bt_queue_resumed_at b of None \<Rightarrow> True | Some t \<Rightarrow> t + bt_queue_timeout_ms b \<le> now) \<and>
     active_batch (bt_status b)"

definition batch_window_over :: "store \<Rightarrow> time \<Rightarrow> ident \<Rightarrow> bool" where
  "batch_window_over s now batchId \<longleftrightarrow>
     (\<exists>b\<in>set (st_batches s). bt_id b = batchId \<and> queue_window_over b now)"

definition queue_timed_out :: "store \<Rightarrow> time \<Rightarrow> run_row \<Rightarrow> bool" where
  "queue_timed_out s now r \<longleftrightarrow>
     rr_status r = R_Queued \<and> rr_held_round r = 0 \<and>
     (case rr_queue_deadline_at r of None \<Rightarrow> False | Some d \<Rightarrow> d \<le> now) \<and>
     batch_window_over s now (rr_batch_id r)"

definition expired_queued :: "recover_input \<Rightarrow> store \<Rightarrow> (ident \<times> ident) list" where
  "expired_queued i s =
     map (\<lambda>r. (rr_id r, rr_batch_id r))
       (take (ri_limit i)
         (sort_key (\<lambda>r. (rr_queue_deadline_at r, rr_id r))
           (filter (queue_timed_out s (ri_now i)) (st_runs s))))"

definition fail_queued_run :: "(run_row \<Rightarrow> bool) \<Rightarrow> time \<Rightarrow> store \<Rightarrow> store" where
  "fail_queued_run due now s =
     s\<lparr>st_runs := update_where due
        (\<lambda>r. r\<lparr>rr_status := R_Failed, rr_terminal_outcome := Some Timed_Out,
              rr_terminal_reason_code := Some ''QUEUE_TIMEOUT'',
              rr_updated_at := now, rr_version := rr_version r + 1\<rparr>) (st_runs s)\<rparr>"

text \<open>The loop over the expired queued runs; \<open>recovered\<close> indexes the event identifiers.\<close>

fun expire_queued_runs ::
  "recover_input \<Rightarrow> (ident \<times> ident) list \<Rightarrow> nat \<Rightarrow> store \<Rightarrow> domain_error + (nat \<times> store)" where
  "expire_queued_runs i [] recovered s = Inr (recovered, s)"
| "expire_queued_runs i ((runId, batchId) # rest) recovered s =
     (if length (ri_event_ids i) \<le> recovered then Inr (recovered, s)
      else
        let eventId = ri_event_ids i ! recovered;
            due = (\<lambda>r. rr_id r = runId \<and> queue_timed_out s (ri_now i) r)
        in if count_where due (st_runs s) \<noteq> 1 then expire_queued_runs i rest recovered s
           else and_then
             (updateBatchStatus batchId (ri_now i) eventId ''run.queue_timed_out''
                (fail_queued_run due (ri_now i) s))
             (\<lambda>(_, s1). expire_queued_runs i rest (recovered + 1) s1))"

subsection \<open>Expired leases and unclaimed assignments\<close>

definition upload_over :: "attempt_row \<Rightarrow> run_row \<Rightarrow> time \<Rightarrow> bool" where
  "upload_over t r now \<longleftrightarrow>
     (case at_upload_started_at t of None \<Rightarrow> False | Some u \<Rightarrow> u + rr_upload_timeout_ms r \<le> now)"

definition execution_over :: "attempt_row \<Rightarrow> run_row \<Rightarrow> time \<Rightarrow> bool" where
  "execution_over t r now \<longleftrightarrow>
     at_upload_started_at t = None \<and>
     (case at_started_at t of None \<Rightarrow> False | Some b \<Rightarrow> b + rr_execution_timeout_ms r \<le> now)"

definition expiration_reason :: "attempt_row \<Rightarrow> run_row \<Rightarrow> time \<Rightarrow> recovery_reason" where
  "expiration_reason t r now =
     (if upload_over t r now then Upload_Timeout
      else if execution_over t r now then Execution_Timeout else Lease_Expired)"

text \<open>The five-way join by primary keys, one row per lease.\<close>

definition joined_lease ::
  "store \<Rightarrow> lease_row \<Rightarrow> (assignment_row \<times> attempt_row \<times> run_row \<times> batch_row) option" where
  "joined_lease s l =
     (case find_assignment s (ls_assignment_id l) of
        None \<Rightarrow> None
      | Some a \<Rightarrow> (case (find_attempt s (as_attempt_id a), find_run s (as_run_id a)) of
          (Some t, Some r) \<Rightarrow> map_option (\<lambda>b. (a, t, r, b)) (find_batch s (rr_batch_id r))
        | _ \<Rightarrow> None))"

definition lease_over :: "store \<Rightarrow> time \<Rightarrow> lease_row \<Rightarrow> bool" where
  "lease_over s now l \<longleftrightarrow>
     ls_status l = L_Active \<and>
     (case joined_lease s l of
        None \<Rightarrow> False
      | Some (a, t, r, b) \<Rightarrow>
          leased_assignment (as_status a) \<and> active_attempt (at_status t) \<and>
          busy_run (rr_status r) \<and> active_batch (bt_status b) \<and>
          (ls_expires_at l \<le> now \<or> upload_over t r now \<or> execution_over t r now))"

text \<open>\<open>MIN(a, COALESCE(b, c))\<close> of SQLite is \<open>NULL\<close> when an argument is, and \<open>NULL\<close> sorts first.\<close>

definition expiry_key :: "store \<Rightarrow> lease_row \<Rightarrow> time option" where
  "expiry_key s l =
     (case joined_lease s l of
        None \<Rightarrow> None
      | Some (a, t, r, b) \<Rightarrow>
          (case at_upload_started_at t of
             Some u \<Rightarrow> Some (min (ls_expires_at l) (u + rr_upload_timeout_ms r))
           | None \<Rightarrow> (case at_started_at t of
               Some st \<Rightarrow> Some (min (ls_expires_at l) (st + rr_execution_timeout_ms r))
             | None \<Rightarrow> None)))"

text \<open>What a recovery works on: the lease to expire, if any, the assignment, the attempt, the reason.\<close>

type_synonym expired_item = "ident option \<times> ident \<times> ident \<times> recovery_reason"

definition expired_active :: "recover_input \<Rightarrow> nat \<Rightarrow> store \<Rightarrow> expired_item list" where
  "expired_active i recovered s =
     map (\<lambda>l. case joined_lease s l of
            Some (a, t, r, b) \<Rightarrow>
              (Some (ls_id l), as_id a, as_attempt_id a, expiration_reason t r (ri_now i))
          | None \<Rightarrow> (Some (ls_id l), ls_assignment_id l, '''', Lease_Expired))
       (take (ri_limit i - recovered)
         (sort_key (expiry_key s) (filter (lease_over s (ri_now i)) (st_leases s))))"

definition unclaimed_over :: "store \<Rightarrow> time \<Rightarrow> assignment_row \<Rightarrow> bool" where
  "unclaimed_over s now a \<longleftrightarrow>
     as_status a = A_Pending \<and> as_claim_deadline_at a \<le> now \<and>
     (case (find_attempt s (as_attempt_id a), find_run s (as_run_id a)) of
        (Some t, Some r) \<Rightarrow> at_status t = T_Assigned \<and> rr_status r = R_Assigned \<and>
          (case find_batch s (rr_batch_id r) of
             None \<Rightarrow> False | Some b \<Rightarrow> active_batch (bt_status b))
      | _ \<Rightarrow> False)"

definition expired_unclaimed :: "recover_input \<Rightarrow> nat \<Rightarrow> store \<Rightarrow> expired_item list" where
  "expired_unclaimed i consumed s =
     map (\<lambda>a. (None, as_id a, as_attempt_id a, Claim_Timeout))
       (take (ri_limit i - consumed)
         (sort_key (\<lambda>a. (as_claim_deadline_at a, as_id a))
           (filter (unclaimed_over s (ri_now i)) (st_assignments s))))"

definition expire_lease :: "ident option \<Rightarrow> store \<Rightarrow> store" where
  "expire_lease leaseId s =
     (case leaseId of
        None \<Rightarrow> s
      | Some k \<Rightarrow> s\<lparr>st_leases := update_where (\<lambda>l. ls_id l = k \<and> ls_status l = L_Active)
                      (\<lambda>l. l\<lparr>ls_status := L_Expired\<rparr>) (st_leases s)\<rparr>)"

fun expire_items ::
  "recover_input \<Rightarrow> expired_item list \<Rightarrow> nat \<Rightarrow> store \<Rightarrow>
   domain_error + (recovered_attempt list \<times> nat \<times> store)" where
  "expire_items i [] recovered s = Inr ([], recovered, s)"
| "expire_items i ((leaseId, assignmentId, attemptId, reason) # rest) recovered s =
     (if length (ri_event_ids i) \<le> recovered then Inr ([], recovered, s)
      else
        and_then
          (expireAttempt assignmentId attemptId (ri_now i) (ri_event_ids i ! recovered) reason
             (expire_lease leaseId s))
          (\<lambda>(detail, s1).
             case detail of
               None \<Rightarrow> expire_items i rest recovered s1
             | Some d \<Rightarrow> and_then (expire_items i rest (recovered + 1) s1)
                 (\<lambda>(ds, n, s2). Inr (d # ds, n, s2))))"

subsection \<open>Terminating batches\<close>

text \<open>\<open>terminatingBatchSettlementSql\<close>: cancelled, still active, and no validly leased work left.\<close>

definition draining_work :: "store \<Rightarrow> time \<Rightarrow> ident \<Rightarrow> bool" where
  "draining_work s now batchId \<longleftrightarrow>
     (\<exists>a\<in>set (st_assignments s). as_batch_id a = batchId \<and> validly_leased s now a \<and>
        (case find_attempt s (as_attempt_id a) of None \<Rightarrow> False
         | Some t \<Rightarrow> active_attempt (at_status t)) \<and>
        (case find_run s (as_run_id a) of None \<Rightarrow> False | Some r \<Rightarrow> busy_run (rr_status r)))"

definition settleable_batches :: "time \<Rightarrow> nat \<Rightarrow> store \<Rightarrow> batch_row list" where
  "settleable_batches now limit s =
     take limit (sort_key (\<lambda>b. (bt_updated_at b, bt_id b))
       (filter (\<lambda>b. active_batch (bt_status b) \<and> bt_cancel_requested_at b \<noteq> None
                  \<and> \<not> draining_work s now (bt_id b))
          (st_batches s)))"

fun settle_batches ::
  "recover_input \<Rightarrow> ident list \<Rightarrow> nat \<Rightarrow> store \<Rightarrow> domain_error + store" where
  "settle_batches i [] n s = Inr s"
| "settle_batches i (batchId # rest) n s =
     (if length (ri_event_ids i) \<le> n then Inr s
      else and_then
        (updateBatchStatus batchId (ri_now i) (ri_event_ids i ! n) ''batch.termination_reconciled'' s)
        (\<lambda>(_, s1). settle_batches i rest (n + 1) s1))"

definition settleTerminatingBatches ::
  "recover_input \<Rightarrow> nat \<Rightarrow> store \<Rightarrow> domain_error + store" where
  "settleTerminatingBatches i consumed s =
     settle_batches i (map bt_id (settleable_batches (ri_now i) (min 5 (ri_limit i - consumed)) s))
       consumed s"

subsection \<open>\<open>recoverExpired\<close>\<close>

definition recover_body ::
  "recover_input \<Rightarrow> store \<Rightarrow> domain_error + (recovered_attempt list \<times> store)" where
  "recover_body i s =
     (if ri_terminating_only i
        then and_then (settleTerminatingBatches i 0 s) (\<lambda>s1. Inr ([], s1))
      else
        and_then (expire_queued_runs i (expired_queued i s) 0 s) (\<lambda>(recovered, s1).
          let active = expired_active i recovered s1;
              unclaimed = expired_unclaimed i (recovered + length active) s1
          in and_then (expire_items i (active @ unclaimed) recovered s1) (\<lambda>(details, n, s2).
             and_then (settleTerminatingBatches i n s2) (\<lambda>s3. Inr (details, s3)))))"

definition recoverExpired ::
  "recover_input \<Rightarrow> store \<Rightarrow> (domain_error + recovered_attempt list) \<times> store" where
  "recoverExpired i s = transaction (recover_body i) s"

end
