(* ===== verification/Exec_Cancel.thy ===== *)
theory Exec_Cancel
  imports Exec_Batch
begin

text \<open>
  What a user asks for: cancelling a run, terminating a batch, pausing and resuming its scheduling
  (\<open>cancelRun\<close>, \<open>terminateBatch\<close>, \<open>changeBatchScheduling\<close> of
  \<open>packages/db/src/sqlite-execution-control.ts\<close> and
  \<open>packages/domain/src/batch-scheduling-control.ts\<close>).
\<close>

subsection \<open>Cancelling a run\<close>

record cancel_input =
  cn_run_id :: ident
  cn_actor_id :: ident
  cn_reason :: string
  cn_event_id :: ident
  cn_requested_at :: time

definition latest_attempt :: "store \<Rightarrow> ident \<Rightarrow> attempt_row option" where
  "latest_attempt s runId = latest_by at_number (filter (\<lambda>t. at_run_id t = runId) (st_attempts s))"

text \<open>A run whose attempt holds a valid lease is only asked to stop.\<close>

definition request_cancel :: "cancel_input \<Rightarrow> assignment_row \<Rightarrow> store \<Rightarrow> store" where
  "request_cancel i assignment s =
     s\<lparr>st_runs := update_where (\<lambda>r. rr_id r = cn_run_id i)
          (\<lambda>r. r\<lparr>rr_cancel_requested_at := Some (cn_requested_at i),
                rr_updated_at := cn_requested_at i, rr_version := rr_version r + 1\<rparr>) (st_runs s),
       st_assignments := update_where (\<lambda>a. as_id a = as_id assignment)
          (\<lambda>a. a\<lparr>as_cancel_requested_at := Some (cn_requested_at i),
                as_updated_at := cn_requested_at i, as_version := as_version a + 1\<rparr>)
          (st_assignments s)\<rparr>"

definition cancel_assignment ::
  "cancel_input \<Rightarrow> assignment_row \<Rightarrow> store \<Rightarrow> domain_error + store" where
  "cancel_assignment i assignment s =
     (if terminal_assignment (as_status assignment) then Inr s
      else and_then (transitionAssignment (as_status assignment) A_Cancelled) (\<lambda>status.
        Inr (s\<lparr>st_assignments := update_where (\<lambda>a. as_id a = as_id assignment)
                (\<lambda>a. a\<lparr>as_status := status, as_cancel_requested_at := Some (cn_requested_at i),
                      as_updated_at := cn_requested_at i, as_version := as_version a + 1\<rparr>)
                (st_assignments s),
              st_leases := update_where
                (\<lambda>l. ls_assignment_id l = as_id assignment \<and> ls_status l = L_Active)
                (\<lambda>l. l\<lparr>ls_status := L_Revoked\<rparr>) (st_leases s)\<rparr>)))"

definition cancelled_event :: "cancel_input \<Rightarrow> attempt_row \<Rightarrow> attempt_status \<Rightarrow> attempt_event_row" where
  "cancelled_event i attempt status =
     \<lparr>ev_id = cn_event_id i, ev_attempt_id = at_id attempt, ev_type = ''attempt.cancelled'',
      ev_from_status = Some (at_status attempt), ev_to_status = Some status,
      ev_reason_code = None, ev_actor_type = Actor_User, ev_actor_id = Some (cn_actor_id i),
      ev_details = Cancelled_Details (cn_reason i), ev_recorded_at = cn_requested_at i\<rparr>"

definition cancel_attempt ::
  "cancel_input \<Rightarrow> attempt_row \<Rightarrow> store \<Rightarrow> domain_error + store" where
  "cancel_attempt i attempt s =
     (if isTerminalAttemptStatus (at_status attempt) then Inr s
      else and_then (transitionRunAttempt (at_status attempt) T_Cancelled) (\<lambda>status.
        appendAttemptEvent (cancelled_event i attempt status)
          (s\<lparr>st_attempts := update_where (\<lambda>t. at_id t = at_id attempt)
               (\<lambda>t. t\<lparr>at_status := T_Cancelled, at_outcome := Some Cancelled,
                     at_result_code := Some ''CANCELLED_BY_USER'',
                     at_result_summary := Some (cn_reason i),
                     at_finished_at := Some (cn_requested_at i), at_version := at_version t + 1\<rparr>)
               (st_attempts s)\<rparr>)))"

definition cancel_run_row :: "cancel_input \<Rightarrow> run_status \<Rightarrow> store \<Rightarrow> store" where
  "cancel_run_row i status s =
     s\<lparr>st_runs := update_where (\<lambda>r. rr_id r = cn_run_id i)
        (\<lambda>r. r\<lparr>rr_status := status, rr_terminal_outcome := Some Cancelled,
              rr_terminal_reason_code := Some ''CANCELLED_BY_USER'',
              rr_cancel_requested_at := Some (cn_requested_at i),
              rr_updated_at := cn_requested_at i, rr_version := rr_version r + 1\<rparr>) (st_runs s)\<rparr>"

text \<open>Otherwise the assignment, its lease, the attempt and the run are closed at once.\<close>

definition cancel_work ::
  "cancel_input \<Rightarrow> run_row \<Rightarrow> attempt_row option \<Rightarrow> assignment_row option \<Rightarrow> store \<Rightarrow>
   domain_error + (bool \<times> store)" where
  "cancel_work i r attempt assignment s =
     and_then (case assignment of None \<Rightarrow> Inr s | Some a \<Rightarrow> cancel_assignment i a s) (\<lambda>s1.
     and_then (case attempt of None \<Rightarrow> Inr s1 | Some t \<Rightarrow> cancel_attempt i t s1) (\<lambda>s2.
     and_then (transitionExecutionRun (rr_status r) R_Cancelled) (\<lambda>status.
     and_then (updateBatchStatus (rr_batch_id r) (cn_requested_at i) (cn_event_id i)
         ''run.cancelled'' (cancel_run_row i status s2)) (\<lambda>(_, s3). Inr (True, s3)))))"

definition cancelRunWithinTransaction ::
  "cancel_input \<Rightarrow> store \<Rightarrow> domain_error + (bool \<times> store)" where
  "cancelRunWithinTransaction i s =
     (case find_run s (cn_run_id i) of
        None \<Rightarrow> Inr (False, s)
      | Some r \<Rightarrow>
          if isTerminalRunStatus (rr_status r) then Inr (True, s)
          else
            let attempt = latest_attempt s (cn_run_id i);
                assignment = (case attempt of None \<Rightarrow> None
                              | Some t \<Rightarrow> assignmentForAttempt s (at_id t));
                lease = (case assignment of None \<Rightarrow> None
                         | Some a \<Rightarrow> activeLeaseForAssignment s (as_id a))
            in case (assignment, lease) of
                 (Some a, Some l) \<Rightarrow>
                   if cn_requested_at i < ls_expires_at l then Inr (True, request_cancel i a s)
                   else cancel_work i r attempt assignment s
               | _ \<Rightarrow> cancel_work i r attempt assignment s)"

definition cancelRun :: "cancel_input \<Rightarrow> store \<Rightarrow> (domain_error + bool) \<times> store" where
  "cancelRun i s = transaction (cancelRunWithinTransaction i) s"

subsection \<open>Terminating a batch\<close>

record terminate_input =
  tb_batch_id :: ident
  tb_actor :: "string option"
  tb_reason :: string
  tb_event_id :: ident
  tb_requested_at :: time

definition request_termination :: "terminate_input \<Rightarrow> batch_row \<Rightarrow> store \<Rightarrow> domain_error + store" where
  "request_termination i b s =
     (if bt_cancel_requested_at b \<noteq> None then Inr s
      else
        let here = (\<lambda>x. bt_id x = tb_batch_id i \<and> bt_version x = bt_version b
                        \<and> bt_cancel_requested_at x = None)
        in if count_where here (st_batches s) \<noteq> 1
             then Inl (DomainError ''RUN_BATCH_VERSION_CONFLICT'')
           else Inr (s\<lparr>st_batches := update_where here
                  (\<lambda>x. x\<lparr>bt_cancel_requested_at := Some (tb_requested_at i),
                        bt_updated_at := tb_requested_at i, bt_terminated_by := tb_actor i,
                        bt_version := bt_version x + 1\<rparr>) (st_batches s)\<rparr>))"

definition cancel_recoveries :: "ident \<Rightarrow> time \<Rightarrow> store \<Rightarrow> store" where
  "cancel_recoveries batchId requestedAt s =
     s\<lparr>st_recoveries := update_where
        (\<lambda>v. rv_batch_id v = batchId \<and>
             rv_status v \<in> {RV_Idle, RV_Pending, RV_Polling, RV_Waiting, RV_Releasing})
        (\<lambda>v. v\<lparr>rv_status := RV_Cancelled, rv_lease_owner := None, rv_lease_expires_at := None,
              rv_updated_at := requestedAt\<rparr>) (st_recoveries s)\<rparr>"

definition terminate_body :: "terminate_input \<Rightarrow> store \<Rightarrow> domain_error + (nat \<times> store)" where
  "terminate_body i s =
     and_then (found ''RUN_BATCH_NOT_FOUND'' (find_batch s (tb_batch_id i))) (\<lambda>b.
       if isTerminalBatchStatus (bt_status b) then Inr (0, s)
       else
         and_then (request_termination i b s) (\<lambda>s1.
           let s2 = cancel_recoveries (tb_batch_id i) (tb_requested_at i) s1;
               (changed, s3) = terminateWaitingRuns (tb_batch_id i) (tb_reason i)
                                 (tb_requested_at i) s2
           in and_then
             (updateBatchStatus (tb_batch_id i) (tb_requested_at i) (tb_event_id i)
                ''batch.termination_requested'' s3)
             (\<lambda>(_, s4). Inr (changed, s4))))"

definition terminateBatch :: "terminate_input \<Rightarrow> store \<Rightarrow> (domain_error + nat) \<times> store" where
  "terminateBatch i s = transaction (terminate_body i) s"

subsection \<open>Pausing and resuming\<close>

datatype scheduling_action = Pause | Resume

definition shouldChangeBatchScheduling ::
  "batch_status \<Rightarrow> time option \<Rightarrow> time option \<Rightarrow> scheduling_action \<Rightarrow> domain_error + bool" where
  "shouldChangeBatchScheduling status terminationRequestedAt pauseRequestedAt action =
     (if isTerminalBatchStatus status \<or> terminationRequestedAt \<noteq> None
        then Inl (DomainError ''RUN_BATCH_NOT_ACTIVE'')
      else Inr ((action = Pause) \<noteq> (pauseRequestedAt \<noteq> None)))"

record scheduling_change =
  sg_batch_id :: ident
  sg_action :: scheduling_action
  sg_event_id :: ident
  sg_requested_at :: time

definition set_pause :: "scheduling_change \<Rightarrow> store \<Rightarrow> store" where
  "set_pause i s =
     s\<lparr>st_batches := update_where (\<lambda>b. bt_id b = sg_batch_id i)
        (\<lambda>b. b\<lparr>bt_pause_requested_at :=
                (if sg_action i = Pause then Some (sg_requested_at i) else None),
              bt_queue_resumed_at :=
                (if sg_action i = Resume then Some (sg_requested_at i) else bt_queue_resumed_at b),
              bt_updated_at := sg_requested_at i, bt_version := bt_version b + 1\<rparr>)
        (st_batches s)\<rparr>"

text \<open>\<open>INSERT ... SELECT ... FROM run_batches WHERE id = ?\<close>: nothing when the batch is gone.\<close>

definition record_scheduling_change :: "scheduling_change \<Rightarrow> store \<Rightarrow> domain_error + store" where
  "record_scheduling_change i s =
     (case find_batch s (sg_batch_id i) of
        None \<Rightarrow> Inr s
      | Some b \<Rightarrow> insert_batch_event
          \<lparr>be_id = sg_event_id i, be_batch_id = bt_id b, be_from_status = Some (bt_status b),
           be_to_status = bt_status b, be_batch_version = bt_version b,
           be_reason = (if sg_action i = Pause then ''batch.scheduling_paused''
                        else ''batch.scheduling_resumed''),
           be_recorded_at = sg_requested_at i\<rparr> s)"

definition change_scheduling_body ::
  "scheduling_change \<Rightarrow> store \<Rightarrow> domain_error + (bool \<times> store)" where
  "change_scheduling_body i s =
     and_then (found ''RUN_BATCH_NOT_FOUND'' (find_batch s (sg_batch_id i))) (\<lambda>b.
     and_then (shouldChangeBatchScheduling (bt_status b) (bt_cancel_requested_at b)
                 (bt_pause_requested_at b) (sg_action i)) (\<lambda>should.
       if \<not> should then Inr (False, s)
       else
         and_then
           (if sg_action i = Resume
              then and_then
                (updateBatchStatus (sg_batch_id i) (sg_requested_at i) (sg_event_id i @ '':state'')
                   ''batch.scheduling_resumed'' (set_pause i s))
                (\<lambda>(_, s1). Inr s1)
            else Inr (set_pause i s))
           (\<lambda>s1. and_then (record_scheduling_change i s1) (\<lambda>s2. Inr (True, s2)))))"

definition changeBatchScheduling ::
  "scheduling_change \<Rightarrow> store \<Rightarrow> (domain_error + bool) \<times> store" where
  "changeBatchScheduling i s = transaction (change_scheduling_body i) s"

end
