(* ===== verification/Exec_Claim.thy ===== *)
theory Exec_Claim
  imports Exec_Batch
begin

text \<open>
  Claiming assignments and renewing leases: \<open>claim\<close> and \<open>renewLease\<close> of
  \<open>packages/db/src/sqlite-execution-control.ts\<close>. A claim is idempotent per request identifier: the
  first answer is stored as pairs of assignment and lease and replayed from the current rows.
\<close>

subsection \<open>Specifications and their match\<close>

text \<open>
  \<open>executionSpecSchema\<close> drops the retired capability \<open>isolation:cgroup-v2\<close> when it parses a stored
  specification.
\<close>

definition parseSpec :: "execution_spec \<Rightarrow> execution_spec" where
  "parseSpec spec =
     spec\<lparr>sp_required_capabilities :=
       filter (\<lambda>c. c \<noteq> ''isolation:cgroup-v2'') (sp_required_capabilities spec)\<rparr>"

definition matchesAgent :: "execution_spec \<Rightarrow> string list \<Rightarrow> string list \<Rightarrow> bool" where
  "matchesAgent spec labels capabilities \<longleftrightarrow>
     list_all (\<lambda>l. l \<in> set labels) (sp_required_labels spec) \<and>
     list_all (\<lambda>c. c \<in> set capabilities) (sp_required_capabilities spec)"

record assignment_dto =
  ad_assignment_id :: ident
  ad_attempt_id :: ident
  ad_runner_id :: ident
  ad_priority :: int
  ad_available_at :: time
  ad_claim_deadline_at :: time
  ad_created_at :: time
  ad_spec :: execution_spec

definition mapAssignment :: "assignment_row \<Rightarrow> assignment_dto" where
  "mapAssignment a =
     \<lparr>ad_assignment_id = as_id a, ad_attempt_id = as_attempt_id a, ad_runner_id = as_runner_id a,
      ad_priority = as_priority a, ad_available_at = as_available_at a,
      ad_claim_deadline_at = as_claim_deadline_at a, ad_created_at = as_created_at a,
      ad_spec = parseSpec (as_spec a)\<rparr>"

record claimed_lease =
  lz_id :: ident
  lz_token_encrypted :: string
  lz_version :: int
  lz_expires_at :: time

record claimed_assignment =
  ca_assignment :: assignment_dto
  ca_lease :: claimed_lease

record lease_seed =
  sd_id :: ident
  sd_event_id :: ident
  sd_token_hash :: string
  sd_token_encrypted :: string

record claim_input =
  cl_runner_id :: ident
  cl_request_id :: ident
  cl_available_slots :: nat
  cl_labels :: "string list"
  cl_capabilities :: "string list"
  cl_seeds :: "lease_seed list"
  cl_now :: time
  cl_lease_expires_at :: time

subsection \<open>Replaying an answered request\<close>

definition find_claim :: "store \<Rightarrow> ident \<Rightarrow> ident \<Rightarrow> claim_request_row option" where
  "find_claim s runnerId requestId =
     row_by (\<lambda>q. (cq_runner_id q, cq_request_id q)) (runnerId, requestId) (st_claims s)"

definition replayed :: "assignment_row \<Rightarrow> lease_row \<Rightarrow> claimed_assignment" where
  "replayed a l =
     \<lparr>ca_assignment = mapAssignment a,
      ca_lease = \<lparr>lz_id = ls_id l, lz_token_encrypted = ls_token_encrypted l,
                  lz_version = ls_version l, lz_expires_at = ls_expires_at l\<rparr>\<rparr>"

fun replay_references ::
  "store \<Rightarrow> (ident \<times> ident) list \<Rightarrow> domain_error + claimed_assignment list" where
  "replay_references s [] = Inr []"
| "replay_references s ((aid, lid) # refs) =
     and_then (requiredAssignment s aid) (\<lambda>a.
     and_then (requiredLease s lid) (\<lambda>l.
     and_then (replay_references s refs) (\<lambda>rest. Inr (replayed a l # rest))))"

definition claimReplay ::
  "store \<Rightarrow> ident \<Rightarrow> ident \<Rightarrow> domain_error + claimed_assignment list option" where
  "claimReplay s runnerId requestId =
     (case find_claim s runnerId requestId of
        None \<Rightarrow> Inr None
      | Some q \<Rightarrow> and_then (replay_references s (cq_references q)) (\<lambda>cs. Inr (Some cs)))"

definition saveClaimRequest ::
  "ident \<Rightarrow> ident \<Rightarrow> (ident \<times> ident) list \<Rightarrow> time \<Rightarrow> store \<Rightarrow> domain_error + store" where
  "saveClaimRequest runnerId requestId references createdAt s =
     and_then
       (insert_row (\<lambda>q. (cq_runner_id q, cq_request_id q))
          \<lparr>cq_runner_id = runnerId, cq_request_id = requestId, cq_references = references,
           cq_created_at = createdAt\<rparr> (st_claims s))
       (\<lambda>rows. Inr (s\<lparr>st_claims := rows\<rparr>))"

subsection \<open>Claiming\<close>

text \<open>The candidates: pending, available, not past their claim deadline, batch not terminating.\<close>

definition batch_not_cancelled :: "store \<Rightarrow> ident \<Rightarrow> bool" where
  "batch_not_cancelled s batchId \<longleftrightarrow>
     (\<exists>b\<in>set (st_batches s). bt_id b = batchId \<and> bt_cancel_requested_at b = None)"

definition claim_candidates :: "claim_input \<Rightarrow> store \<Rightarrow> assignment_row list" where
  "claim_candidates i s =
     take (max (cl_available_slots i * 8) 8)
       (sort_key (\<lambda>a. (- as_priority a, as_created_at a, as_id a))
         (filter (\<lambda>a. as_runner_id a = cl_runner_id i \<and> as_status a = A_Pending
                    \<and> as_available_at a \<le> cl_now i \<and> cl_now i < as_claim_deadline_at a
                    \<and> batch_not_cancelled s (as_batch_id a))
            (st_assignments s)))"

definition claim_selected :: "claim_input \<Rightarrow> store \<Rightarrow> assignment_row list" where
  "claim_selected i s =
     take (cl_available_slots i)
       (filter (\<lambda>a. matchesAgent (parseSpec (as_spec a)) (cl_labels i) (cl_capabilities i))
          (claim_candidates i s))"

definition insert_lease :: "lease_row \<Rightarrow> store \<Rightarrow> domain_error + store" where
  "insert_lease l s =
     (if ls_token_hash l \<in> ls_token_hash ` set (st_leases s)
        then Inl (ConstraintError ''UNIQUE'')
      else and_then (insert_row ls_id l (st_leases s)) (\<lambda>rows. Inr (s\<lparr>st_leases := rows\<rparr>)))"

text \<open>One round of the claim loop: the guarded update, the lease, attempt and run started, the event.\<close>

definition claimable :: "store \<Rightarrow> ident \<Rightarrow> assignment_row \<Rightarrow> bool" where
  "claimable s k a \<longleftrightarrow> as_id a = k \<and> as_status a = A_Pending \<and> batch_not_cancelled s (as_batch_id a)"

definition claim_assignment_row :: "ident \<Rightarrow> time \<Rightarrow> store \<Rightarrow> store" where
  "claim_assignment_row assignmentId now s =
     s\<lparr>st_assignments := update_where (claimable s assignmentId)
        (\<lambda>x. x\<lparr>as_status := A_Claimed, as_claimed_at := Some now, as_updated_at := now,
              as_version := as_version x + 1\<rparr>)
        (st_assignments s)\<rparr>"

definition start_attempt_row :: "ident \<Rightarrow> time \<Rightarrow> store \<Rightarrow> store" where
  "start_attempt_row attemptId now s =
     s\<lparr>st_attempts := update_where (\<lambda>t. at_id t = attemptId \<and> at_status t = T_Assigned)
        (\<lambda>t. t\<lparr>at_status := T_Running,
              at_started_at := (case at_started_at t of None \<Rightarrow> Some now | Some x \<Rightarrow> Some x),
              at_version := at_version t + 1\<rparr>)
        (st_attempts s)\<rparr>"

definition start_run_row :: "ident \<Rightarrow> time \<Rightarrow> store \<Rightarrow> store" where
  "start_run_row runId now s =
     s\<lparr>st_runs := update_where (\<lambda>r. rr_id r = runId \<and> rr_status r = R_Assigned)
        (\<lambda>r. r\<lparr>rr_status := R_Running, rr_version := rr_version r + 1, rr_updated_at := now\<rparr>)
        (st_runs s)\<rparr>"

definition seeded_lease :: "claim_input \<Rightarrow> assignment_row \<Rightarrow> lease_seed \<Rightarrow> lease_row" where
  "seeded_lease i a seed =
     \<lparr>ls_id = sd_id seed, ls_assignment_id = as_id a, ls_runner_id = cl_runner_id i,
      ls_token_hash = sd_token_hash seed, ls_token_encrypted = sd_token_encrypted seed,
      ls_status = L_Active, ls_version = 1, ls_expires_at = cl_lease_expires_at i,
      ls_renewed_at = cl_now i, ls_created_at = cl_now i\<rparr>"

definition claimed_event :: "claim_input \<Rightarrow> assignment_row \<Rightarrow> lease_seed \<Rightarrow> attempt_event_row" where
  "claimed_event i a seed =
     \<lparr>ev_id = sd_event_id seed, ev_attempt_id = as_attempt_id a,
      ev_type = ''assignment.claimed'', ev_from_status = Some T_Assigned,
      ev_to_status = Some T_Running, ev_reason_code = None,
      ev_actor_type = Actor_Runner, ev_actor_id = Some (cl_runner_id i),
      ev_details = Claim_Details (as_id a) (sd_id seed) (cl_lease_expires_at i),
      ev_recorded_at = cl_now i\<rparr>"

definition claimed_record :: "claim_input \<Rightarrow> assignment_row \<Rightarrow> lease_seed \<Rightarrow> claimed_assignment" where
  "claimed_record i a seed =
     \<lparr>ca_assignment = mapAssignment
        (a\<lparr>as_status := A_Claimed, as_claimed_at := Some (cl_now i),
           as_updated_at := cl_now i, as_version := as_version a + 1\<rparr>),
      ca_lease = \<lparr>lz_id = sd_id seed, lz_token_encrypted = sd_token_encrypted seed,
                  lz_version = 1, lz_expires_at = cl_lease_expires_at i\<rparr>\<rparr>"

definition claim_one ::
  "claim_input \<Rightarrow> assignment_row \<Rightarrow> lease_seed \<Rightarrow> store \<Rightarrow>
   domain_error + (claimed_assignment option \<times> store)" where
  "claim_one i a seed s =
     (if count_where (claimable s (as_id a)) (st_assignments s) \<noteq> 1 then Inr (None, s)
      else
        and_then
          (insert_lease (seeded_lease i a seed) (claim_assignment_row (as_id a) (cl_now i) s))
          (\<lambda>s2. and_then
            (appendAttemptEvent (claimed_event i a seed)
               (start_run_row (as_run_id a) (cl_now i)
                 (start_attempt_row (as_attempt_id a) (cl_now i) s2)))
            (\<lambda>s5. Inr (Some (claimed_record i a seed), s5))))"

text \<open>The loop over the selected assignments and their seeds; it breaks when the seeds run out.\<close>

fun claim_loop ::
  "claim_input \<Rightarrow> (assignment_row \<times> lease_seed) list \<Rightarrow> store \<Rightarrow>
   domain_error + (claimed_assignment list \<times> (ident \<times> ident) list \<times> store)" where
  "claim_loop i [] s = Inr ([], [], s)"
| "claim_loop i ((a, seed) # rest) s =
     and_then (claim_one i a seed s) (\<lambda>(c, s1).
     and_then (claim_loop i rest s1) (\<lambda>(cs, evs, s2).
       case c of
         None \<Rightarrow> Inr (cs, evs, s2)
       | Some x \<Rightarrow> Inr (x # cs,
           (as_batch_id a, sd_event_id seed) # filter (\<lambda>e. fst e \<noteq> as_batch_id a) evs, s2)))"

fun update_batches ::
  "(ident \<times> ident) list \<Rightarrow> time \<Rightarrow> string \<Rightarrow> store \<Rightarrow> domain_error + store" where
  "update_batches [] now reason s = Inr s"
| "update_batches ((batchId, eventId) # rest) now reason s =
     and_then (updateBatchStatus batchId now eventId reason s)
       (\<lambda>(_, s1). update_batches rest now reason s1)"

definition claim_body :: "claim_input \<Rightarrow> store \<Rightarrow> domain_error + (claimed_assignment list \<times> store)" where
  "claim_body i s =
     and_then (claimReplay s (cl_runner_id i) (cl_request_id i)) (\<lambda>replay.
       case replay of
         Some cs \<Rightarrow> Inr (cs, s)
       | None \<Rightarrow>
           if cl_available_slots i = 0 then Inr ([], s)
           else
             and_then (claim_loop i (zip (claim_selected i s) (cl_seeds i)) s) (\<lambda>(cs, evs, s1).
             and_then (update_batches evs (cl_now i) ''assignment.claimed'' s1) (\<lambda>s2.
               if cs = [] then Inr (cs, s2)
               else and_then
                 (saveClaimRequest (cl_runner_id i) (cl_request_id i)
                    (map (\<lambda>c. (ad_assignment_id (ca_assignment c), lz_id (ca_lease c))) cs)
                    (cl_now i) s2)
                 (\<lambda>s3. Inr (cs, s3)))))"

definition claim ::
  "claim_input \<Rightarrow> store \<Rightarrow> (domain_error + claimed_assignment list) \<times> store" where
  "claim i s = transaction (claim_body i) s"

subsection \<open>Renewing a lease\<close>

record renew_input =
  rn_runner_id :: ident
  rn_lease_id :: ident
  rn_token_hash :: string
  rn_expected_version :: int
  rn_now :: time
  rn_expires_at :: time

datatype instruction = Continue | Cancel | Drain

record renew_response =
  rp_accepted_at :: time
  rp_lease_version :: int
  rp_expires_at :: time
  rp_instruction :: instruction

definition renew_lease_row :: "renew_input \<Rightarrow> lease_row \<Rightarrow> store \<Rightarrow> store" where
  "renew_lease_row i l s =
     s\<lparr>st_leases := update_where
        (\<lambda>x. ls_id x = rn_lease_id i \<and> ls_status x = L_Active \<and> ls_version x = rn_expected_version i)
        (\<lambda>x. x\<lparr>ls_version := ls_version l + 1, ls_expires_at := rn_expires_at i,
              ls_renewed_at := rn_now i\<rparr>)
        (st_leases s)\<rparr>"

definition renew_assignment_row :: "renew_input \<Rightarrow> assignment_row \<Rightarrow> store \<Rightarrow> store" where
  "renew_assignment_row i a s =
     s\<lparr>st_assignments := update_where (\<lambda>x. as_id x = as_id a \<and> leased_assignment (as_status x))
        (\<lambda>x. x\<lparr>as_status := (if as_status x = A_Claimed then A_Running else as_status x),
              as_updated_at := rn_now i, as_version := as_version x + 1\<rparr>)
        (st_assignments s)\<rparr>"

lemmas renew_defs = renew_lease_row_def renew_assignment_row_def

definition renew_body :: "renew_input \<Rightarrow> store \<Rightarrow> domain_error + (renew_response \<times> store)" where
  "renew_body i s =
     and_then (requiredLease s (rn_lease_id i)) (\<lambda>l.
       if ls_runner_id l \<noteq> rn_runner_id i \<or> ls_token_hash l \<noteq> rn_token_hash i
         then Inl (DomainError ''LEASE_AUTH_REJECTED'')
       else if ls_status l \<noteq> L_Active \<or> ls_expires_at l \<le> rn_now i
         then Inl (DomainError ''LEASE_EXPIRED'')
       else if ls_version l \<noteq> rn_expected_version i
         then Inl (DomainError ''LEASE_VERSION_CONFLICT'')
       else and_then (requiredAssignment s (ls_assignment_id l)) (\<lambda>a.
         Inr (\<lparr>rp_accepted_at = rn_now i, rp_lease_version = ls_version l + 1,
                rp_expires_at = rn_expires_at i,
                rp_instruction = (if as_cancel_requested_at a \<noteq> None then Cancel else Continue)\<rparr>,
              renew_assignment_row i a (renew_lease_row i l s))))"

definition renewLease ::
  "renew_input \<Rightarrow> store \<Rightarrow> (domain_error + renew_response) \<times> store" where
  "renewLease i s = transaction (renew_body i) s"

end
