(* ===== verification/Exec_Transfer.thy ===== *)
theory Exec_Transfer
  imports Exec_Claim Exec_Complete
begin

text \<open>
  What a runner may read and write while it holds a lease, and the paged reads of an attempt:
  inputs, logs, artifacts, reconciliation and events of
  \<open>packages/db/src/sqlite-execution-control.ts\<close>. SHA-256 is the parameter \<open>sha\<close>, the codec of the
  log store the parameter \<open>gz\<close>.
\<close>

subsection \<open>Authorization by lease\<close>

definition authorizedTransferContext ::
  "store \<Rightarrow> ident \<Rightarrow> ident \<Rightarrow> string \<Rightarrow> time \<Rightarrow> domain_error + assignment_row" where
  "authorizedTransferContext s runnerId attemptId leaseTokenHash now =
     (case assignmentForAttempt s attemptId of
        None \<Rightarrow> Inl (DomainError ''ATTEMPT_TRANSFER_FORBIDDEN'')
      | Some a \<Rightarrow> (case latestLeaseForAssignment s (as_id a) of
          None \<Rightarrow> Inl (DomainError ''ATTEMPT_TRANSFER_FORBIDDEN'')
        | Some l \<Rightarrow>
            if as_runner_id a \<noteq> runnerId \<or> ls_token_hash l \<noteq> leaseTokenHash
                 \<or> ls_status l \<noteq> L_Active \<or> ls_expires_at l \<le> now
              then Inl (DomainError ''ATTEMPT_TRANSFER_FORBIDDEN'')
            else Inr a))"

lemma authorizedTransferContext_Inr:
  "authorizedTransferContext s runner att h now = Inr a \<longleftrightarrow>
     assignmentForAttempt s att = Some a \<and> as_runner_id a = runner \<and>
     (\<exists>l. latestLeaseForAssignment s (as_id a) = Some l \<and> ls_token_hash l = h
        \<and> ls_status l = L_Active \<and> now < ls_expires_at l)"
  by (auto simp: authorizedTransferContext_def split: option.splits)

subsection \<open>Inputs\<close>

datatype resolved_input =
    Input_Url string int string string
  | Input_Inline string int string string
  | Input_Object string int string string

definition resolve_class_data ::
  "(string \<Rightarrow> string) \<Rightarrow> store \<Rightarrow> ident \<Rightarrow> execution_input \<Rightarrow> domain_error + resolved_input" where
  "resolve_class_data sha s runId input =
     (case find_run s runId of
        None \<Rightarrow> Inl (DomainError ''ATTEMPT_INPUT_INVALID'')
      | Some r \<Rightarrow> (case nonempty (rr_class_data r) of
          None \<Rightarrow> Inl (DomainError ''ATTEMPT_INPUT_INVALID'')
        | Some content \<Rightarrow>
            if rr_class_data_size r \<noteq> Some (xi_size input)
                 \<or> rr_class_data_sha256 r \<noteq> Some (xi_sha256 input)
                 \<or> int (length content) \<noteq> xi_size input \<or> sha content \<noteq> xi_sha256 input
              then Inl (DomainError ''ATTEMPT_INPUT_INVALID'')
            else Inr (Input_Inline content (int (length content)) (xi_sha256 input)
                   (xi_media_type input))))"

definition resolve_object :: "store \<Rightarrow> ident \<Rightarrow> execution_input \<Rightarrow> domain_error + resolved_input" where
  "resolve_object s inputId input =
     (let row = (case row_by so_id inputId (st_case_sources s) of
                   Some o' \<Rightarrow> Some o'
                 | None \<Rightarrow> if nonempty (xi_download_url input) = None
                             then row_by so_id inputId (st_runtime_uploads s) else None)
      in case row of
           None \<Rightarrow> Inl (DomainError ''ATTEMPT_INPUT_INVALID'')
         | Some o' \<Rightarrow>
             if so_size o' \<noteq> xi_size input \<or> so_sha256 o' \<noteq> xi_sha256 input
               then Inl (DomainError ''ATTEMPT_INPUT_INVALID'')
             else Inr (Input_Object (so_object_key o') (so_size o') (so_sha256 o')
                    (xi_media_type input)))"

definition resolveAttemptInput ::
  "(string \<Rightarrow> string) \<Rightarrow> store \<Rightarrow> ident \<Rightarrow> ident \<Rightarrow> ident \<Rightarrow> string \<Rightarrow> time \<Rightarrow>
   domain_error + resolved_input" where
  "resolveAttemptInput sha s runnerId attemptId inputId leaseTokenHash now =
     (case authorizedTransferContext s runnerId attemptId leaseTokenHash now of
        Inl e \<Rightarrow> Inl (if e = DomainError ''ATTEMPT_TRANSFER_FORBIDDEN''
                       then DomainError ''ATTEMPT_INPUT_FORBIDDEN'' else e)
      | Inr a \<Rightarrow>
          (case find (\<lambda>x. xi_input_id x = inputId) (sp_inputs (parseSpec (as_spec a))) of
             None \<Rightarrow> Inl (DomainError ''ATTEMPT_INPUT_FORBIDDEN'')
           | Some input \<Rightarrow>
               (case nonempty (xi_download_url input) of
                  Some url \<Rightarrow>
                    if xi_kind input = Jdk_Archive \<or> xi_kind input = Jar_Bundle
                      then Inr (Input_Url url (xi_size input) (xi_sha256 input)
                             (xi_media_type input))
                    else if xi_kind input = Class_Data
                      then resolve_class_data sha s (as_run_id a) input
                    else resolve_object s inputId input
                | None \<Rightarrow>
                    if xi_kind input = Class_Data
                      then resolve_class_data sha s (as_run_id a) input
                    else resolve_object s inputId input)))"

subsection \<open>Logs\<close>

text \<open>The bounded memory of the batches whose log path is recorded: a set in insertion order.\<close>

definition rememberBounded :: "ident list \<Rightarrow> ident \<Rightarrow> ident list" where
  "rememberBounded values value =
     (let added = (if value \<in> set values then values else values @ [value])
      in if length added \<le> 1024 then added else tl added)"

definition recordAttemptLogsPath ::
  "string \<Rightarrow> ident \<Rightarrow> ident list \<Rightarrow> store \<Rightarrow> domain_error + (ident list \<times> store)" where
  "recordAttemptLogsPath directory batchId recorded s =
     (if batchId \<in> set recorded then Inr (recorded, s)
      else and_then (relativeAttemptLogStorePath directory batchId) (\<lambda>path.
        Inr (rememberBounded recorded batchId,
             s\<lparr>st_batches := update_where
                (\<lambda>b. bt_id b = batchId \<and> bt_attempt_logs_path b \<noteq> Some path)
                (\<lambda>b. b\<lparr>bt_attempt_logs_path := Some path\<rparr>) (st_batches s)\<rparr>)))"

definition appendLogChunks ::
  "(string \<Rightarrow> string) \<Rightarrow> (string \<Rightarrow> string) \<Rightarrow> string \<Rightarrow> ident \<Rightarrow> ident \<Rightarrow> string \<Rightarrow> log_chunk list \<Rightarrow>
   time \<Rightarrow> ident list \<Rightarrow> store \<Rightarrow> domain_error + ((int \<times> int \<times> int) \<times> ident list \<times> store)" where
  "appendLogChunks gz sha directory runnerId attemptId leaseTokenHash chunks receivedAt recorded s =
     and_then (authorizedTransferContext s runnerId attemptId leaseTokenHash receivedAt) (\<lambda>_.
     and_then (requiredBatchIdForAttempt s attemptId) (\<lambda>batchId.
     and_then (appendChunks gz sha batchId attemptId receivedAt chunks (st_logs s)) (\<lambda>(ack, lg).
     and_then (recordAttemptLogsPath directory batchId recorded (s\<lparr>st_logs := lg\<rparr>))
       (\<lambda>(recorded', s'). Inr (ack, recorded', s')))))"

definition logWatermarks :: "store \<Rightarrow> ident \<Rightarrow> domain_error + (int \<times> int \<times> int)" where
  "logWatermarks s attemptId =
     (case requiredBatchIdForAttempt s attemptId of
        Inl _ \<Rightarrow> Inr (-1, -1, -1)
      | Inr batchId \<Rightarrow> and_then (assertBatchId batchId) (\<lambda>_.
          Inr (acknowledgedSequence (st_logs s) batchId attemptId Stdout,
               acknowledgedSequence (st_logs s) batchId attemptId Stderr,
               acknowledgedSequence (st_logs s) batchId attemptId Agent_Log)))"

subsection \<open>Reconciliation after an agent restart\<close>

datatype reconcile_action = Rec_Clean | Rec_Cancel | Rec_Continue

record reconcile_decision =
  rd_attempt_id :: ident
  rd_action :: reconcile_action
  rd_acknowledged :: "(int \<times> int \<times> int) option"

definition reconcile_one ::
  "ident \<Rightarrow> time \<Rightarrow> store \<Rightarrow> ident \<Rightarrow> domain_error + reconcile_decision" where
  "reconcile_one runnerId now s attemptId =
     (let clean = \<lparr>rd_attempt_id = attemptId, rd_action = Rec_Clean, rd_acknowledged = None\<rparr>
      in case findAttemptControl s attemptId of
           None \<Rightarrow> Inr clean
         | Some control \<Rightarrow>
             if ac_runner_id control \<noteq> runnerId then Inr clean
             else if isTerminalRunStatus (ac_run_status control)
                       \<or> isTerminalAttemptStatus (ac_status control) then Inr clean
             else
               let assignment = assignmentForAttempt s attemptId;
                   lease = (case assignment of None \<Rightarrow> None
                            | Some a \<Rightarrow> activeLeaseForAssignment s (as_id a));
                   cancelled = (case assignment of None \<Rightarrow> False
                                | Some a \<Rightarrow> as_cancel_requested_at a \<noteq> None)
                               \<or> ac_run_cancel_requested_at control \<noteq> None;
                   action = (if cancelled then Rec_Cancel
                             else case lease of
                               None \<Rightarrow> Rec_Cancel
                             | Some l \<Rightarrow> if now < ls_expires_at l then Rec_Continue else Rec_Cancel)
               in and_then (logWatermarks s attemptId) (\<lambda>w.
                    Inr \<lparr>rd_attempt_id = attemptId, rd_action = action,
                         rd_acknowledged = Some w\<rparr>))"

fun reconcile ::
  "ident \<Rightarrow> time \<Rightarrow> store \<Rightarrow> ident list \<Rightarrow> domain_error + reconcile_decision list" where
  "reconcile runnerId now s [] = Inr []"
| "reconcile runnerId now s (a # as) =
     and_then (reconcile_one runnerId now s a) (\<lambda>d.
     and_then (reconcile runnerId now s as) (\<lambda>ds. Inr (d # ds)))"

subsection \<open>Artifacts\<close>

definition artifactRow :: "store \<Rightarrow> ident \<Rightarrow> ident \<Rightarrow> artifact_row option" where
  "artifactRow s attemptId artifactId =
     find (\<lambda>f. af_attempt_id f = attemptId \<and> af_id f = artifactId) (st_artifacts s)"

definition sameArtifact :: "artifact_row \<Rightarrow> artifact_declaration \<Rightarrow> bool" where
  "sameArtifact row artifact \<longleftrightarrow>
     af_relative_path row = ax_relative_path artifact \<and> af_media_type row = ax_media_type artifact \<and>
     af_size row = ax_size artifact \<and> af_sha256 row = ax_sha256 artifact \<and>
     af_required row = ax_required artifact"

definition insert_artifact :: "artifact_row \<Rightarrow> store \<Rightarrow> domain_error + store" where
  "insert_artifact f s =
     (if (af_attempt_id f, af_relative_path f)
           \<in> (\<lambda>x. (af_attempt_id x, af_relative_path x)) ` set (st_artifacts s)
        then Inl (ConstraintError ''UNIQUE'')
      else and_then (insert_row af_id f (st_artifacts s)) (\<lambda>rows. Inr (s\<lparr>st_artifacts := rows\<rparr>)))"

fun declare_loop ::
  "ident \<Rightarrow> time \<Rightarrow> artifact_declaration list \<Rightarrow> store \<Rightarrow>
   domain_error + ((artifact_declaration \<times> artifact_status) list \<times> store)" where
  "declare_loop attemptId declaredAt [] s = Inr ([], s)"
| "declare_loop attemptId declaredAt (x # xs) s =
     (case artifactRow s attemptId (ax_artifact_id x) of
        Some f \<Rightarrow>
          if \<not> sameArtifact f x then Inl (DomainError ''ARTIFACT_DECLARATION_CONFLICT'')
          else and_then (declare_loop attemptId declaredAt xs s)
            (\<lambda>(rest, s'). Inr ((x, af_status f) # rest, s'))
      | None \<Rightarrow>
          and_then (insert_artifact (declared_artifact attemptId declaredAt x) s) (\<lambda>s1.
          and_then (declare_loop attemptId declaredAt xs s1)
            (\<lambda>(rest, s'). Inr ((x, Declared) # rest, s'))))"

definition start_upload :: "ident \<Rightarrow> time \<Rightarrow> store \<Rightarrow> store" where
  "start_upload attemptId declaredAt s =
     s\<lparr>st_attempts := update_where (\<lambda>t. at_id t = attemptId \<and> at_status t = T_Running)
        (\<lambda>t. t\<lparr>at_upload_started_at := (case at_upload_started_at t of
                  None \<Rightarrow> Some declaredAt | Some u \<Rightarrow> Some u),
              at_version := at_version t + 1\<rparr>) (st_attempts s)\<rparr>"

definition declareArtifacts ::
  "ident \<Rightarrow> ident \<Rightarrow> string \<Rightarrow> artifact_declaration list \<Rightarrow> time \<Rightarrow> store \<Rightarrow>
   (domain_error + (artifact_declaration \<times> artifact_status) list) \<times> store" where
  "declareArtifacts runnerId attemptId leaseTokenHash artifacts declaredAt s =
     transaction (\<lambda>s.
       and_then (authorizedTransferContext s runnerId attemptId leaseTokenHash declaredAt)
         (\<lambda>_. declare_loop attemptId declaredAt artifacts (start_upload attemptId declaredAt s))) s"

definition resolveArtifactUpload ::
  "ident \<Rightarrow> ident \<Rightarrow> ident \<Rightarrow> string \<Rightarrow> time \<Rightarrow> store \<Rightarrow> domain_error + artifact_row" where
  "resolveArtifactUpload runnerId attemptId artifactId leaseTokenHash now s =
     and_then (authorizedTransferContext s runnerId attemptId leaseTokenHash now) (\<lambda>_.
     and_then (found ''ARTIFACT_NOT_FOUND'' (artifactRow s attemptId artifactId)) (\<lambda>f.
       if af_status f = Rejected then Inl (DomainError ''ARTIFACT_REJECTED'') else Inr f))"

definition markArtifactUploaded ::
  "ident \<Rightarrow> ident \<Rightarrow> string \<Rightarrow> time \<Rightarrow> store \<Rightarrow> (domain_error + unit) \<times> store" where
  "markArtifactUploaded attemptId artifactId objectKey uploadedAt s =
     transaction (\<lambda>s.
       let here = (\<lambda>f. af_id f = artifactId \<and> af_attempt_id f = attemptId
                       \<and> af_status f \<in> {Declared, Uploaded})
       in if count_where here (st_artifacts s) \<noteq> 1
            then Inl (DomainError ''ARTIFACT_NOT_FOUND'')
          else Inr ((), s\<lparr>st_artifacts := update_where here
                 (\<lambda>f. f\<lparr>af_object_key := Some objectKey, af_status := Uploaded,
                       af_updated_at := uploadedAt\<rparr>) (st_artifacts s)\<rparr>)) s"

definition listArtifacts :: "store \<Rightarrow> ident \<Rightarrow> domain_error + artifact_row list" where
  "listArtifacts s attemptId =
     and_then (found ''RUN_ATTEMPT_NOT_FOUND'' (find_attempt s attemptId)) (\<lambda>_.
       Inr (sort_key (\<lambda>f. (af_relative_path f, af_id f))
             (filter (\<lambda>f. af_attempt_id f = attemptId) (st_artifacts s))))"

subsection \<open>Events and contexts\<close>

definition event_key :: "attempt_event_row \<Rightarrow> time \<times> ident" where
  "event_key e = (ev_recorded_at e, ev_id e)"

definition sorted_events :: "store \<Rightarrow> ident \<Rightarrow> attempt_event_row list" where
  "sorted_events s attemptId =
     sort_key event_key (filter (\<lambda>e. ev_attempt_id e = attemptId) (st_attempt_events s))"

text \<open>A page and the cursor of the next one, when there is one.\<close>

definition listAttemptEvents ::
  "store \<Rightarrow> ident \<Rightarrow> ident option \<Rightarrow> nat \<Rightarrow> domain_error + (attempt_event_row list \<times> ident option)" where
  "listAttemptEvents s attemptId afterEventId limit =
     and_then (found ''RUN_ATTEMPT_NOT_FOUND'' (find_attempt s attemptId)) (\<lambda>_.
     and_then
       (case nonempty afterEventId of
          None \<Rightarrow> Inr None
        | Some k \<Rightarrow> and_then
            (found ''ATTEMPT_EVENT_CURSOR_INVALID''
               (find (\<lambda>e. ev_attempt_id e = attemptId \<and> ev_id e = k) (st_attempt_events s)))
            (\<lambda>c. Inr (Some c)))
       (\<lambda>cursor.
          let rows = take (limit + 1)
                (case cursor of
                   None \<Rightarrow> sorted_events s attemptId
                 | Some c \<Rightarrow> filter (\<lambda>e. ev_recorded_at c < ev_recorded_at e \<or>
                       (ev_recorded_at e = ev_recorded_at c \<and> ev_id c < ev_id e))
                     (sorted_events s attemptId));
              page = take limit rows
          in Inr (page, if limit < length rows \<and> page \<noteq> [] then Some (ev_id (last page))
                        else None)))"

definition resolve_context_rows :: "store \<Rightarrow> ident list \<Rightarrow> (ident \<times> scheduling_context) list" where
  "resolve_context_rows s ids =
     List.map_filter
       (\<lambda>t. if at_id t \<in> set ids then
          map_option (\<lambda>r. (at_id t,
            \<lparr>sx_batch_id = rr_batch_id r, sx_run_id = at_run_id t, sx_runner_id = at_runner_id t,
             sx_attempt_number = at_number t, sx_display_name = rr_display_name r,
             sx_held_round = (if rr_held_round r > 0 then Some (rr_held_round r) else None)\<rparr>))
            (find_run s (at_run_id t))
        else None)
       (st_attempts s)"

definition resolveAttemptSchedulingContexts ::
  "store \<Rightarrow> ident list \<Rightarrow> (ident \<times> scheduling_context) list" where
  "resolveAttemptSchedulingContexts s ids =
     concat (map (resolve_context_rows s) (splitIntoChunks ids QUERY_IN_CHUNK_SIZE))"

definition resolveAttemptSchedulingContext :: "store \<Rightarrow> ident \<Rightarrow> scheduling_context option" where
  "resolveAttemptSchedulingContext s attemptId =
     (case resolveAttemptSchedulingContexts s [attemptId] of [] \<Rightarrow> None | c # _ \<Rightarrow> Some (snd c))"

definition countExistingAttemptIds :: "store \<Rightarrow> ident list \<Rightarrow> nat" where
  "countExistingAttemptIds s ids =
     sum_list (map (\<lambda>chunk. count_where (\<lambda>t. at_id t \<in> set chunk) (st_attempts s))
       (splitIntoChunks ids QUERY_IN_CHUNK_SIZE))"

end
