(* ===== verification/Exec_Steps.thy ===== *)
theory Exec_Steps
  imports Exec_Refine Exec_Recover Exec_Cancel Exec_Transfer
begin

text \<open>
  Every operation of the execution control refines the dispatch protocol, and so keeps the store
  invariant: claims are protocol claims, the four ways of ending work are closings, the rest does
  not change a phase.
\<close>

subsection \<open>Claims\<close>

lemma insert_lease_Inr:
  "insert_lease l s = Inr s' \<longleftrightarrow> ls_token_hash l \<notin> ls_token_hash ` set (st_leases s) \<and>
     ls_id l \<notin> ls_id ` set (st_leases s) \<and> s' = s\<lparr>st_leases := st_leases s @ [l]\<rparr>"
  by (auto simp: insert_lease_def and_then_eq_Inr insert_row_Inr)

lemma appendAttemptEvent_Inr:
  assumes "appendAttemptEvent e s = Inr s'"
  obtains evs where "s' = s\<lparr>st_attempt_events := evs\<rparr>"
  using assms unfolding appendAttemptEvent_def and_then_eq_Inr by blast

lemma events_shape [simp]: "same_shape s (s\<lparr>st_attempt_events := evs\<rparr>)"
  by (simp add: same_shape_update)

lemma events_abs [simp]: "abs_store (s\<lparr>st_attempt_events := evs\<rparr>) = abs_store s"
  by (simp add: abs_store_def)

lemma linked_add_lease:
  assumes "linked s" "ls_id l \<notin> ls_id ` set (st_leases s)"
    "ls_assignment_id l \<in> as_id ` set (st_assignments s)"
  shows "linked (s\<lparr>st_leases := st_leases s @ [l]\<rparr>)"
proof -
  have "ls_assignment_id l \<in> fst ` set (assignment_shape s)"
    using assms(3) by (auto simp: assignment_shape_def image_image)
  then show ?thesis
    using assms(1,2) by (auto simp: linked_def shape_defs comp_def)
qed

lemma claim_one_refines:
  assumes run: "claim_one i a seed s = Inr (c, s')" and ok: "store_ok s"
    and a: "(as_id a, as_attempt_id a, as_run_id a, as_batch_id a) \<in> set (assignment_shape s)"
  shows "refines s s' \<and> assignment_shape s' = assignment_shape s"
proof (cases "count_where (claimable s (as_id a)) (st_assignments s) = 1")
  case False
  then show ?thesis using run refines_refl [OF ok] by (simp add: claim_one_def)
next
  case True
  define l where "l = seeded_lease i a seed"
  define s1 where "s1 = claim_assignment_row (as_id a) (cl_now i) s"
  obtain s2 s5 where s2: "insert_lease l s1 = Inr s2" and s5: "appendAttemptEvent (claimed_event i a seed)
      (start_run_row (as_run_id a) (cl_now i) (start_attempt_row (as_attempt_id a) (cl_now i) s2)) = Inr s5"
      "s' = s5"
    using run True unfolding claim_one_def s1_def [symmetric] l_def [symmetric]
    by (auto simp: and_then_eq_Inr)
  obtain evs where s': "s' = (start_run_row (as_run_id a) (cl_now i)
      (start_attempt_row (as_attempt_id a) (cl_now i) s2))\<lparr>st_attempt_events := evs\<rparr>"
    using s5 by (blast elim: appendAttemptEvent_Inr)
  have lease: "ls_id l \<notin> ls_id ` set (st_leases s)" and s2_eq: "s2 = s1\<lparr>st_leases := st_leases s1 @ [l]\<rparr>"
    using s2 by (auto simp: insert_lease_Inr s1_def claim_assignment_row_def)
  note lk = store_okD(1) [OF ok]
  have "\<exists>x\<in>set (st_assignments s). claimable s (as_id a) x"
    using True by (auto simp: count_where_def length_Suc_conv filter_eq_Cons_iff)
  then obtain x where x: "x \<in> set (st_assignments s)" "as_id x = as_id a" "as_status x = A_Pending"
      "claimable s (as_id a) x"
    by (auto simp: claimable_def)
  have rx: "row_by as_id (as_id a) (st_assignments s) = Some x"
    using linked_rows(4) [OF lk x(1)] x(2) by simp
  obtain y where y: "y \<in> set (st_assignments s)" "as_id y = as_id a" "as_attempt_id y = as_attempt_id a"
    using a by (auto simp: assignment_shape_def)
  have xa: "as_attempt_id x = as_attempt_id a"
    using linked_assignment_eq [OF lk x(1) y(1)] x(2) y(2,3) by simp
  have shape1: "same_shape s s1"
    by (simp add: s1_def claim_assignment_row_def same_shape_update claimable_def)
  have "linked s1" using lk shape1 by (rule linked_same_shape)
  then have "linked s2"
    unfolding s2_eq
  proof (rule linked_add_lease)
    show "ls_id l \<notin> ls_id ` set (st_leases s1)"
      using lease by (simp add: s1_def claim_assignment_row_def)
    have "map as_id (st_assignments s1) = map as_id (st_assignments s)"
      by (simp add: s1_def claim_assignment_row_def map_key_update_where claimable_def)
    then have "as_id ` set (st_assignments s1) = as_id ` set (st_assignments s)"
      by (metis image_set)
    then show "ls_assignment_id l \<in> as_id ` set (st_assignments s1)"
      using x(1) x(2) [symmetric] by (auto simp: l_def seeded_lease_def)
  qed
  moreover have shape2: "same_shape s2 s'"
    unfolding s' by (simp add: same_shape_update start_run_row_def start_attempt_row_def)
  ultimately have "linked s'" by (rule linked_same_shape)
  moreover have "core_shape s' = core_shape s"
    using shape1 shape2 by (simp add: core_shape_def same_shape_def s2_eq shape_defs)
  moreover have "abs_store s' = p_claim (as_attempt_id a) (as_id a) (ls_id l) (abs_store s)"
  proof (intro proto.equality ext)
    fix k
    show "p_run (abs_store s') k = p_run (p_claim (as_attempt_id a) (as_id a) (ls_id l) (abs_store s)) k"
      by (cases "row_by rr_id k (st_runs s)")
        (simp_all add: s' s2_eq s1_def p_claim_def abs_store_def claim_assignment_row_def
          start_run_row_def start_attempt_row_def row_by_update)
    show "p_att (abs_store s') k = p_att (p_claim (as_attempt_id a) (as_id a) (ls_id l) (abs_store s)) k"
      by (cases "row_by at_id k (st_attempts s)")
        (simp_all add: s' s2_eq s1_def p_claim_def abs_store_def claim_assignment_row_def
          start_run_row_def start_attempt_row_def row_by_update)
    have "p_asg (abs_store s') k = map_option (\<lambda>a. (as_attempt_id a, phase_of_offer (as_status a)))
        (row_by as_id k (st_assignments s1))"
      by (simp add: s' s2_eq abs_store_def start_run_row_def start_attempt_row_def)
    also have "\<dots> = p_asg (p_claim (as_attempt_id a) (as_id a) (ls_id l) (abs_store s)) k"
    proof (cases "k = as_id a")
      case True
      then show ?thesis using rx x xa
        by (simp add: s1_def claim_assignment_row_def p_claim_def row_by_update claimable_def)
    next
      case False
      then show ?thesis
        by (cases "row_by as_id k (st_assignments s)")
          (auto simp: s1_def claim_assignment_row_def p_claim_def abs_store_def row_by_update
            claimable_def dest: row_by_SomeD)
    qed
    finally show "p_asg (abs_store s') k =
      p_asg (p_claim (as_attempt_id a) (as_id a) (ls_id l) (abs_store s)) k" .
    have "row_by ls_id (ls_id l) (st_leases s) = None" using lease by (simp add: row_by_None)
    then show "p_lease (abs_store s') k =
      p_lease (p_claim (as_attempt_id a) (as_id a) (ls_id l) (abs_store s)) k"
      by (auto simp: s' s2_eq s1_def p_claim_def abs_store_def claim_assignment_row_def
          start_run_row_def start_attempt_row_def row_by_append l_def seeded_lease_def
          split: option.splits)
  qed simp
  moreover have "p_asg (abs_store s) (as_id a) = Some (as_attempt_id a, Offered)"
    using rx x(3) xa by (simp add: abs_store_def)
  moreover have "p_lease (abs_store s) (ls_id l) = None"
    using lease by (simp add: abs_store_def row_by_None)
  ultimately show ?thesis
    unfolding refines_def by (auto simp: core_shape_def intro: r_into_rtranclp pstep.claim)
qed

lemma claim_loop_refines:
  "claim_loop i sel s = Inr (cs, evs, s') \<Longrightarrow> store_ok s \<Longrightarrow>
     (\<And>a seed. (a, seed) \<in> set sel \<Longrightarrow>
        (as_id a, as_attempt_id a, as_run_id a, as_batch_id a) \<in> set (assignment_shape s)) \<Longrightarrow>
     refines s s'"
proof (induction sel arbitrary: s cs evs)
  case Nil
  then show ?case by (simp add: refines_refl)
next
  case (Cons p sel)
  obtain a seed where p: "p = (a, seed)" by fastforce
  obtain c s1 cs1 evs1 s2 where 1: "claim_one i a seed s = Inr (c, s1)"
      "claim_loop i sel s1 = Inr (cs1, evs1, s2)" "s' = s2"
    using Cons.prems(1) by (auto simp: p and_then_eq_Inr split: option.splits)
  have r: "refines s s1" "assignment_shape s1 = assignment_shape s"
    using claim_one_refines [OF 1(1) Cons.prems(2)] Cons.prems(3) [of a seed] p by auto
  have "refines s1 s2"
    using 1(2) [folded 1(3)] refines_ok [OF Cons.prems(2) r(1)] unfolding 1(3) [symmetric]
  proof (rule Cons.IH)
    show "(as_id a, as_attempt_id a, as_run_id a, as_batch_id a) \<in> set (assignment_shape s1)"
      if "(a, seed) \<in> set sel" for a seed
      using Cons.prems(3) [of a seed] that r(2) by simp
  qed
  with r(1) 1(3) show ?case by (blast intro: refines_trans)
qed

lemma update_batches_refines:
  "update_batches evs now why s = Inr s' \<Longrightarrow> store_ok s \<Longrightarrow> refines s s'"
proof (induction evs arbitrary: s)
  case Nil
  then show ?case by (simp add: refines_refl)
next
  case (Cons e evs)
  obtain k ev where e: "e = (k, ev)" by fastforce
  obtain st s1 where 1: "updateBatchStatus k now ev why s = Inr (st, s1)"
      "update_batches evs now why s1 = Inr s'"
    using Cons.prems(1) by (auto simp: e and_then_eq_Inr)
  have r: "refines s s1" using updateBatchStatus_refines [OF 1(1) Cons.prems(2)] .
  with Cons.IH [OF 1(2) refines_ok [OF Cons.prems(2) r]] show ?case by (blast intro: refines_trans)
qed

lemma saveClaimRequest_refines:
  assumes "saveClaimRequest r q refs now s = Inr s'" "store_ok s"
  shows "refines s s'"
proof -
  obtain rows where "s' = s\<lparr>st_claims := rows\<rparr>"
    using assms(1) unfolding saveClaimRequest_def and_then_eq_Inr by blast
  then show ?thesis using store_okD(1) [OF assms(2)]
    by (intro refines_same) (simp_all add: same_shape_update abs_store_def)
qed

lemma claim_selected_subset: "set (claim_selected i s) \<subseteq> set (st_assignments s)"
proof -
  have "set (claim_selected i s) \<subseteq> set (claim_candidates i s)"
    unfolding claim_selected_def using set_take_subset by fastforce
  also have "\<dots> \<subseteq> set (st_assignments s)"
    unfolding claim_candidates_def using set_take_subset by fastforce
  finally show ?thesis .
qed

lemma claim_body_refines:
  assumes "claim_body i s = Inr (cs, s')" "store_ok s"
  shows "refines s s'"
proof -
  obtain replay where rep: "claimReplay s (cl_runner_id i) (cl_request_id i) = Inr replay"
    using assms(1) by (auto simp: claim_body_def and_then_eq_Inr)
  show ?thesis
  proof (cases "replay \<noteq> None \<or> cl_available_slots i = 0")
    case True
    then have "s' = s" using assms(1) rep by (auto simp: claim_body_def split: option.splits)
    then show ?thesis using refines_refl assms(2) by simp
  next
    case False
    then obtain cs1 evs s1 s2 where 1: "claim_loop i (zip (claim_selected i s) (cl_seeds i)) s = Inr (cs1, evs, s1)"
        and 2: "update_batches evs (cl_now i) ''assignment.claimed'' s1 = Inr s2"
        and 3: "s' = s2 \<or> saveClaimRequest (cl_runner_id i) (cl_request_id i)
            (map (\<lambda>c. (ad_assignment_id (ca_assignment c), lz_id (ca_lease c))) cs1) (cl_now i) s2 = Inr s'"
      using assms(1) rep by (auto simp: claim_body_def and_then_eq_Inr split: if_splits)
    have r1: "refines s s1"
    proof (rule claim_loop_refines [OF 1 assms(2)])
      fix a seed assume "(a, seed) \<in> set (zip (claim_selected i s) (cl_seeds i))"
      then have "a \<in> set (st_assignments s)"
        using claim_selected_subset by (blast dest: set_zip_leftD)
      then show "(as_id a, as_attempt_id a, as_run_id a, as_batch_id a) \<in> set (assignment_shape s)"
        by (auto simp: assignment_shape_def)
    qed
    note ok1 = refines_ok [OF assms(2) r1]
    have r2: "refines s1 s2" using update_batches_refines [OF 2 ok1] .
    note ok2 = refines_ok [OF ok1 r2]
    have "refines s2 s'" using 3 saveClaimRequest_refines ok2 refines_refl [OF ok2] by blast
    with r1 r2 show ?thesis by (blast intro: refines_trans)
  qed
qed

subsection \<open>Renewals\<close>

lemma renew_body_refines:
  assumes "renew_body i s = Inr (r, s')" "store_ok s"
  shows "refines s s'"
proof -
  obtain l a where s': "s' = renew_assignment_row i a (renew_lease_row i l s)"
    using assms(1) by (auto simp: renew_body_def and_then_eq_Inr Let_def split: if_splits)
  have "abs_store s' = abs_store s"
  proof (intro proto.equality ext)
    fix k
    show "p_asg (abs_store s') k = p_asg (abs_store s) k"
      by (cases "row_by as_id k (st_assignments s)") (auto simp: s' renew_defs abs_store_def row_by_update)
    show "p_lease (abs_store s') k = p_lease (abs_store s) k"
      by (cases "row_by ls_id k (st_leases s)") (auto simp: s' renew_defs abs_store_def row_by_update)
  qed (simp_all add: s' renew_defs abs_store_def)
  moreover have "same_shape s s'" by (simp add: s' renew_defs same_shape_update)
  ultimately show ?thesis using refines_same store_okD(1) [OF assms(2)] by blast
qed

subsection \<open>Closing one attempt\<close>

lemma close_one_absI:
  assumes ok: "store_ok s" and t: "t \<in> set (st_attempts s)" "active_attempt (at_status t)"
    and a: "a \<in> set (st_assignments s)" "as_attempt_id a = at_id t"
    and run: "\<And>k. p_run (abs_store s') k =
      (if k = at_run_id t then Some d else p_run (abs_store s) k)"
    and att: "\<And>k. p_att (abs_store s') k =
      (if k = at_id t then Some (at_run_id t, False) else p_att (abs_store s) k)"
    and asg: "\<And>k. p_asg (abs_store s') k =
      (if k = as_id a then Some (at_id t, Closed) else p_asg (abs_store s) k)"
    and lease: "\<And>k. p_lease (abs_store s') k =
      map_option (\<lambda>(x, act). (x, act \<and> x \<noteq> as_id a)) (p_lease (abs_store s) k)"
  shows "abs_store s' = p_close {at_id t} (\<lambda>_. d) {} (abs_store s)"
proof (intro proto.equality ext)
  note lk = store_okD(1) [OF ok]
  have pt: "p_att (abs_store s) (at_id t) = Some (at_run_id t, True)"
    using abs_rows(2) [OF lk t(1)] t(2) by simp
  have pa: "p_asg (abs_store s) (as_id a) = Some (at_id t, phase_of_offer (as_status a))"
    using abs_rows(3) [OF lk a(1)] a(2) by simp
  have other: "k = as_id a" if "p_asg (abs_store s) k = Some (at_id t, ph)" for k ph
    using asg_okD(3) [OF store_okD(3) [OF ok] that pa] .
  fix k
  show "p_run (abs_store s') k = p_run (p_close {at_id t} (\<lambda>_. d) {} (abs_store s)) k"
    unfolding close_run run using pt by auto
  show "p_att (abs_store s') k = p_att (p_close {at_id t} (\<lambda>_. d) {} (abs_store s)) k"
    unfolding att using pt by (cases "p_att (abs_store s) k") (auto simp: p_close_def)
  show "p_asg (abs_store s') k = p_asg (p_close {at_id t} (\<lambda>_. d) {} (abs_store s)) k"
  proof (cases "p_asg (abs_store s) k")
    case None
    then have "k \<noteq> as_id a" using pa by auto
    then show ?thesis unfolding asg using None by (simp add: p_close_def)
  next
    case (Some p)
    obtain t' ph where p: "p = (t', ph)" by fastforce
    have "t' = at_id t \<longleftrightarrow> k = as_id a" using Some p pa other [of k] by auto
    then show ?thesis unfolding asg using Some p by (auto simp: p_close_def)
  qed
  show "p_lease (abs_store s') k = p_lease (p_close {at_id t} (\<lambda>_. d) {} (abs_store s)) k"
  proof (cases "p_lease (abs_store s) k")
    case None
    then show ?thesis unfolding lease by (simp add: p_close_def)
  next
    case (Some p)
    obtain x act where p: "p = (x, act)" by fastforce
    have "(case p_asg (abs_store s) x of None \<Rightarrow> False | Some (t', _) \<Rightarrow> t' \<in> {at_id t}) \<longleftrightarrow> x = as_id a"
      using pa other [of x] by (auto split: option.split)
    then show ?thesis unfolding lease using Some p by (simp add: p_close_def)
  qed
qed simp

text \<open>The row updates of a completion or an expiry, table by table.\<close>

lemma finish_run_abs:
  assumes ok: "store_ok s" and t: "t \<in> set (st_attempts s)" "active_attempt (at_status t)"
    and s': "st_runs s' = st_runs (finish_run_row (at_run_id t) st oc w why tm now s)"
  shows "p_run (abs_store s') k =
    (if k = at_run_id t then Some (phase_of_run st) else p_run (abs_store s) k)"
proof -
  note lk = store_okD(1) [OF ok]
  obtain r where r: "r \<in> set (st_runs s)" "rr_id r = at_run_id t"
    using linked_attempt_run [OF lk t(1)] .
  have busy: "busy_run (rr_status r)" using active_attempt_busy [OF ok t r] .
  have row: "row_by rr_id (at_run_id t) (st_runs s) = Some r"
    using linked_rows(2) [OF lk r(1)] r(2) by simp
  show ?thesis
  proof (cases "k = at_run_id t")
    case True
    then show ?thesis using row busy r(2)
      by (auto simp: abs_store_def s' finish_run_row_def row_by_update)
  next
    case False
    then show ?thesis
      by (cases "row_by rr_id k (st_runs s)")
        (auto simp: abs_store_def s' finish_run_row_def row_by_update dest: row_by_SomeD)
  qed
qed

lemma close_attempt_abs:
  assumes lk: "linked s" and t: "t \<in> set (st_attempts s)" "active_attempt (at_status t)"
    and s': "st_attempts s' = update_where (\<lambda>x. at_id x = at_id t \<and> P x) f (st_attempts s)"
    and P: "P t" and f: "\<And>x. at_id (f x) = at_id x" "\<And>x. at_run_id (f x) = at_run_id x"
      "\<And>x. \<not> active_attempt (at_status (f x))"
  shows "p_att (abs_store s') k =
    (if k = at_id t then Some (at_run_id t, False) else p_att (abs_store s) k)"
proof (cases "k = at_id t")
  case True
  then show ?thesis using linked_rows(3) [OF lk t(1)] P f
    by (simp add: abs_store_def s' row_by_update)
next
  case False
  then show ?thesis using f(1)
    by (cases "row_by at_id k (st_attempts s)")
      (auto simp: abs_store_def s' row_by_update dest: row_by_SomeD)
qed

lemma close_assignment_abs:
  assumes lk: "linked s" and a: "a \<in> set (st_assignments s)"
    and s': "st_assignments s' = update_where (\<lambda>x. as_id x = as_id a \<and> P x) f (st_assignments s)"
    and P: "P a" and f: "\<And>x. as_id (f x) = as_id x" "\<And>x. as_attempt_id (f x) = as_attempt_id x"
      "\<And>x. \<not> open_assignment (as_status (f x))"
  shows "p_asg (abs_store s') k =
    (if k = as_id a then Some (as_attempt_id a, Closed) else p_asg (abs_store s) k)"
proof (cases "k = as_id a")
  case True
  then show ?thesis using linked_rows(4) [OF lk a] P f
    by (simp add: abs_store_def s' row_by_update)
next
  case False
  then show ?thesis using f(1)
    by (cases "row_by as_id k (st_assignments s)")
      (auto simp: abs_store_def s' row_by_update dest: row_by_SomeD)
qed

text \<open>Deactivating the one lease of an assignment, by its own key.\<close>

lemma close_lease_abs:
  assumes ok: "store_ok s" and l: "l \<in> set (st_leases s)" "ls_assignment_id l = k0"
    and s': "st_leases s' = update_where (\<lambda>x. ls_id x = ls_id l \<and> ls_status x = L_Active)
      (\<lambda>x. x\<lparr>ls_status := st\<rparr>) (st_leases s)" and st: "st \<noteq> L_Active"
  shows "p_lease (abs_store s') k =
    map_option (\<lambda>(x, act). (x, act \<and> x \<noteq> k0)) (p_lease (abs_store s) k)"
proof (cases "row_by ls_id k (st_leases s)")
  case None
  then show ?thesis by (simp add: abs_store_def s' row_by_update)
next
  case (Some x)
  have "ls_assignment_id x = k0 \<longleftrightarrow> ls_id x = ls_id l"
    using lease_unique [OF ok row_by_in [OF Some] l(1)] l(2) row_by_in [OF Some] l(1)
      linked_rows(6) [OF store_okD(1) [OF ok]] by (metis option.inject)
  then show ?thesis using Some st by (auto simp: abs_store_def s' row_by_update)
qed

lemma no_lease_abs:
  assumes "\<And>l. l \<in> set (st_leases s) \<Longrightarrow> ls_assignment_id l \<noteq> k0"
    and s': "st_leases s' = st_leases s"
  shows "p_lease (abs_store s') k =
    map_option (\<lambda>(x, act). (x, act \<and> x \<noteq> k0)) (p_lease (abs_store s) k)"
  using assms by (cases "row_by ls_id k (st_leases s)")
    (auto simp: abs_store_def dest!: row_by_in)

subsection \<open>Completions\<close>

lemma insert_receipt_refines:
  assumes "insert_receipt i resp s = Inr s'"
  obtains rows where "s' = s\<lparr>st_receipts := rows\<rparr>"
  using assms unfolding insert_receipt_def and_then_eq_Inr by blast

lemma insert_artifacts_Inr:
  "insert_artifacts att now xs s = Inr s' \<Longrightarrow> \<exists>rows. s' = s\<lparr>st_artifacts := rows\<rparr>"
proof (induction xs arbitrary: s)
  case Nil
  then have "s' = s\<lparr>st_artifacts := st_artifacts s\<rparr>" by simp
  then show ?case by blast
next
  case (Cons x xs)
  show ?case
  proof (cases "\<exists>f\<in>set (st_artifacts s). af_attempt_id f = att
           \<and> af_relative_path f = ax_relative_path x")
    case True
    then have "insert_artifacts att now xs s = Inr s'" using Cons.prems by simp
    then show ?thesis by (rule Cons.IH)
  next
    case False
    then obtain rows where "insert_artifacts att now xs (s\<lparr>st_artifacts := rows\<rparr>) = Inr s'"
      using Cons.prems unfolding insert_artifacts.simps if_not_P [OF False] and_then_eq_Inr by blast
    then obtain rows' where "s' = s\<lparr>st_artifacts := rows\<rparr>\<lparr>st_artifacts := rows'\<rparr>"
      using Cons.IH by blast
    then have "s' = s\<lparr>st_artifacts := rows'\<rparr>" by simp
    then show ?thesis by blast
  qed
qed

lemma persistCompletionMetadata_Inr:
  assumes "persistCompletionMetadata b att result now s = Inr s'"
  obtains rows lg where "s' = s\<lparr>st_artifacts := rows, st_logs := lg\<rparr>"
proof -
  obtain s1 where s1: "insert_artifacts att now (cz_artifacts result) s = Inr s1"
      and c: "(case cz_log_watermarks result of
         None \<Rightarrow> Inr s1
       | Some w \<Rightarrow> and_then (assertBatchId b) (\<lambda>_.
           Inr (s1\<lparr>st_logs := recordWatermarks b att (watermark_of w) now (st_logs s1)\<rparr>))) = Inr s'"
    using assms unfolding persistCompletionMetadata_def and_then_eq_Inr by blast
  obtain rows where rows: "s1 = s\<lparr>st_artifacts := rows\<rparr>" using insert_artifacts_Inr [OF s1] by blast
  show thesis
  proof (cases "cz_log_watermarks result")
    case None
    then have "s' = s1" using c by simp
    also have "s1 = s\<lparr>st_artifacts := rows, st_logs := st_logs s\<rparr>" unfolding rows by (cases s) simp
    finally show thesis by (rule that)
  next
    case (Some w)
    then have "s' = s1\<lparr>st_logs := recordWatermarks b att (watermark_of w) now (st_logs s1)\<rparr>"
      using c by (auto simp: and_then_eq_Inr)
    then show thesis using rows that by simp
  qed
qed

lemma sched_events_Inr:
  "appendSchedulingEventDrafts es s = Inr s' \<Longrightarrow> \<exists>rows. s' = s\<lparr>st_sched_events := rows\<rparr>"
proof (induction es arbitrary: s)
  case Nil
  then have "s' = s\<lparr>st_sched_events := st_sched_events s\<rparr>" by simp
  then show ?case by blast
next
  case (Cons e es)
  then obtain rows where "appendSchedulingEventDrafts es (s\<lparr>st_sched_events := rows\<rparr>) = Inr s'"
    by (auto simp: and_then_eq_Inr)
  then obtain rows' where "s' = s\<lparr>st_sched_events := rows\<rparr>\<lparr>st_sched_events := rows'\<rparr>"
    using Cons.IH by blast
  then have "s' = s\<lparr>st_sched_events := rows'\<rparr>" by simp
  then show ?case by blast
qed

text \<open>The state in which \<open>persistCompletion\<close> hands over to the batch update.\<close>

definition completed_rows ::
  "complete_input \<Rightarrow> completion_result \<Rightarrow> attempt_status \<Rightarrow> ident \<Rightarrow> ident \<Rightarrow> ident \<Rightarrow> run_status \<Rightarrow>
   attempt_outcome option \<Rightarrow> ident option \<Rightarrow> string option \<Rightarrow> retry_queue_timing \<Rightarrow> store \<Rightarrow> store" where
  "completed_rows i result ast aid lid rid rst oc w why tm s =
     finish_run_row rid rst oc w why tm (co_accepted_at i)
       (release_lease_row lid L_Released
         (complete_assignment_row aid A_Completed (co_accepted_at i)
           (complete_attempt_row i result ast s)))"

lemma persistCompletion_Inr:
  assumes "persistCompletion control a l result i rst s = Inr (bst, s')"
  obtains tm rows lg evs where
    "transitionRunAttempt (ac_status control) (status_of_outcome (cz_status result)) =
       Inr (status_of_outcome (cz_status result))"
    "transitionAssignment (as_status a) A_Completed = Inr A_Completed"
    "transitionLease (ls_status l) L_Released = Inr L_Released"
    "transitionExecutionRun (ac_run_status control) rst = Inr rst"
    "tm = retryQueueTiming rst (ac_retry_mode control)
       (isRetryableRunnerFailure (Some (cz_result_code result)))
       (ac_execution_round control) (co_accepted_at i) (ac_queue_timeout_ms control)"
    "updateBatchStatus (ac_batch_id control) (co_accepted_at i) (co_event_id i) ''attempt.completed''
       ((completed_rows i result (status_of_outcome (cz_status result)) (as_id a) (ls_id l)
          (ac_run_id control) rst
          (if rst = R_Queued then None else Some (cz_status result))
          (if rst = R_Queued then None else Some (ac_runner_id control))
          (if rst = R_Queued then None else Some (cz_result_code result)) tm s)
        \<lparr>st_artifacts := rows, st_logs := lg, st_attempt_events := evs\<rparr>) = Inr (bst, s')"
proof -
  obtain as asgs ls rs where tr:
      "transitionRunAttempt (ac_status control) (status_of_outcome (cz_status result)) = Inr as"
      "transitionAssignment (as_status a) A_Completed = Inr asgs"
      "transitionLease (ls_status l) L_Released = Inr ls"
      "transitionExecutionRun (ac_run_status control) rst = Inr rs"
    using assms unfolding persistCompletion_def and_then_eq_Inr by blast
  have eq: "as = status_of_outcome (cz_status result)" "asgs = A_Completed" "ls = L_Released" "rs = rst"
    using tr by (simp_all add: att_machine.move_Inr asg_machine.move_Inr lease_machine.move_Inr
        run_machine.move_Inr)
  define tm where "tm = retryQueueTiming rst (ac_retry_mode control)
       (isRetryableRunnerFailure (Some (cz_result_code result)))
       (ac_execution_round control) (co_accepted_at i) (ac_queue_timeout_ms control)"
  define S where "S = completed_rows i result (status_of_outcome (cz_status result)) (as_id a) (ls_id l)
          (ac_run_id control) rst
          (if rst = R_Queued then None else Some (cz_status result))
          (if rst = R_Queued then None else Some (ac_runner_id control))
          (if rst = R_Queued then None else Some (cz_result_code result)) tm s"
  obtain s5 s6 where s5: "persistCompletionMetadata (ac_batch_id control) (co_attempt_id i) result
        (co_accepted_at i) S = Inr s5"
      and s6: "appendAttemptEvent (completed_event i control result
        (status_of_outcome (cz_status result)) rst) s5 = Inr s6"
      and up: "updateBatchStatus (ac_batch_id control) (co_accepted_at i) (co_event_id i)
        ''attempt.completed'' s6 = Inr (bst, s')"
    using assms unfolding persistCompletion_def tr [unfolded eq] and_then_Inr Let_def
      outcome_of_status_of_outcome
    unfolding tm_def [symmetric] S_def [unfolded completed_rows_def, symmetric] and_then_eq_Inr
    by blast
  obtain rows lg where "s5 = S\<lparr>st_artifacts := rows, st_logs := lg\<rparr>"
    using s5 by (rule persistCompletionMetadata_Inr)
  moreover obtain evs where "s6 = s5\<lparr>st_attempt_events := evs\<rparr>"
    using s6 by (rule appendAttemptEvent_Inr)
  ultimately have "s6 = S\<lparr>st_artifacts := rows, st_logs := lg, st_attempt_events := evs\<rparr>" by simp
  then show thesis using that tr eq tm_def up unfolding S_def by metis
qed

lemma status_of_outcome_closed [simp]:
  "status_of_outcome oc \<noteq> T_Assigned \<and> status_of_outcome oc \<noteq> T_Running"
  by (cases oc) auto

lemma outcomeAfterCompletion_not_busy [simp]:
  "fst (outcomeAfterCompletion x) \<noteq> R_Assigned \<and> fst (outcomeAfterCompletion x) \<noteq> R_Running"
  unfolding outcomeAfterCompletion_def Let_def by (auto split: if_splits attempt_outcome.splits)

lemma completed_rows_refines:
  assumes ok: "store_ok s" and t: "t \<in> set (st_attempts s)" "active_attempt (at_status t)"
    and i: "co_attempt_id i = at_id t"
    and a: "a \<in> set (st_assignments s)" "as_attempt_id a = at_id t"
    and l: "l \<in> set (st_leases s)" "ls_assignment_id l = as_id a" "ls_status l = L_Active"
    and rst: "\<not> busy_run rst"
  shows "refines s (completed_rows i result (status_of_outcome oc) (as_id a) (ls_id l)
    (at_run_id t) rst out w why tm s)" (is "refines s ?s")
proof (rule refines_close [OF store_okD(1) [OF ok]])
  note lk = store_okD(1) [OF ok]
  note defs = completed_rows_def complete_attempt_row_def complete_assignment_row_def
    release_lease_row_def
  have leased: "leased_assignment (as_status a)"
    using active_lease_assignment [OF ok l(1,3) a(1)] l(2) by simp
  show "same_shape s ?s"
    by (simp add: defs finish_run_row_def same_shape_update)
  show "phase_of_run rst \<noteq> Busy" using rst by simp
  show "abs_store ?s = p_close {at_id t} (\<lambda>_. phase_of_run rst) {} (abs_store s)"
  proof (rule close_one_absI [OF ok t a])
    fix k
    show "p_run (abs_store ?s) k =
        (if k = at_run_id t then Some (phase_of_run rst) else p_run (abs_store s) k)"
      by (rule finish_run_abs [OF ok t]) (simp add: defs finish_run_row_def)
    show "p_att (abs_store ?s) k =
        (if k = at_id t then Some (at_run_id t, False) else p_att (abs_store s) k)"
      by (rule close_attempt_abs [OF lk t, where P = "\<lambda>x. active_attempt (at_status x)"
            and f = "\<lambda>t. t\<lparr>at_status := status_of_outcome oc,
              at_outcome := outcome_of_status (status_of_outcome oc),
              at_result_code := Some (cz_result_code result),
              at_result_summary := Some (cz_summary result),
              at_completion_digest := Some (co_result_digest i),
              at_duration_ms := Some (cz_duration_ms result), at_test_ng := cz_test_ng result,
              at_finished_at := Some (co_accepted_at i), at_version := at_version t + 1\<rparr>"])
        (use t i status_of_outcome_closed [of oc] in \<open>simp_all add: defs finish_run_row_def\<close>)
    show "p_asg (abs_store ?s) k =
        (if k = as_id a then Some (at_id t, Closed) else p_asg (abs_store s) k)"
      unfolding a(2) [symmetric]
      by (rule close_assignment_abs [OF lk a(1), where P = "\<lambda>x. leased_assignment (as_status x)"
            and f = "\<lambda>a. a\<lparr>as_status := A_Completed, as_completed_at := Some (co_accepted_at i),
              as_updated_at := co_accepted_at i, as_version := as_version a + 1\<rparr>"])
        (use leased in \<open>simp_all add: defs finish_run_row_def\<close>)
    show "p_lease (abs_store ?s) k =
        map_option (\<lambda>(x, act). (x, act \<and> x \<noteq> as_id a)) (p_lease (abs_store s) k)"
      by (rule close_lease_abs [OF ok l(1,2), where st = L_Released])
        (simp_all add: defs finish_run_row_def)
  qed
qed

lemma other_tables_refines:
  assumes "linked s" "st_batches t = st_batches s" "st_runs t = st_runs s"
    "st_attempts t = st_attempts s" "st_assignments t = st_assignments s" "st_leases t = st_leases s"
  shows "refines s t"
  using assms(1)
  by (rule refines_same) (simp_all add: same_shape_def shape_defs abs_store_def assms(2-))

lemma latest_by_in: "latest_by f xs = Some x \<Longrightarrow> x \<in> set xs"
  by (simp add: latest_by_SomeD)

lemma completionOpening_rows:
  assumes "completionOpening s k = Some op"
  obtains t r b where "find_attempt s k = Some t" "find_run s (at_run_id t) = Some r"
    "find_batch s (rr_batch_id r) = Some b" "op_control op = control_of t r b"
    "op_assignment op = assignmentForAttempt s k"
    "op_lease op = (case op_assignment op of None \<Rightarrow> None
       | Some a \<Rightarrow> latestLeaseForAssignment s (as_id a))"
    "op_batch_status op = bt_status b"
    "op_latest_attempt_number op = max_attempt_number s (at_run_id t)"
  using assms by (auto simp: completionOpening_def joined_attempt_def Let_def split: option.splits)

lemma persistCompletion_refines:
  assumes run: "persistCompletion control a l result i rst s = Inr (bst, s')"
    and ok: "store_ok s" and t: "t \<in> set (st_attempts s)" "at_id t = co_attempt_id i"
    and c: "ac_run_id control = at_run_id t"
    and a: "a \<in> set (st_assignments s)" "as_attempt_id a = at_id t"
    and l: "l \<in> set (st_leases s)" "ls_assignment_id l = as_id a" "ls_status l = L_Active"
    and rst: "\<not> busy_run rst"
  shows "refines s s'"
  using run
proof (rule persistCompletion_Inr)
  fix tm rows lg evs
  let ?s1 = "completed_rows i result (status_of_outcome (cz_status result)) (as_id a) (ls_id l)
      (ac_run_id control) rst
      (if rst = R_Queued then None else Some (cz_status result))
      (if rst = R_Queued then None else Some (ac_runner_id control))
      (if rst = R_Queued then None else Some (cz_result_code result)) tm s"
  let ?s2 = "?s1\<lparr>st_artifacts := rows, st_logs := lg, st_attempt_events := evs\<rparr>"
  assume up: "updateBatchStatus (ac_batch_id control) (co_accepted_at i) (co_event_id i)
      ''attempt.completed'' ?s2 = Inr (bst, s')"
  have "leased_assignment (as_status a)"
    using active_lease_assignment [OF ok l(1,3) a(1)] l(2) by simp
  then have "active_attempt (at_status t)"
    using open_assignment_attempt [OF ok a(1) _ t(1)] a(2) by simp
  then have r1: "refines s ?s1"
    unfolding c by (rule completed_rows_refines [OF ok t(1) _ t(2) [symmetric] a l rst])
  have r2: "refines ?s1 ?s2"
    by (rule other_tables_refines) (use r1 in \<open>simp_all add: refines_def\<close>)
  have r12: "refines s ?s2" using r1 r2 by (rule refines_trans)
  show "refines s s'"
    using refines_trans [OF r12 updateBatchStatus_refines [OF up refines_ok [OF ok r12]]] .
qed

lemma accept_completion_refines:
  assumes run: "accept_completion i factory op a l s = Inr (resp, s')"
    and ok: "store_ok s" and t: "t \<in> set (st_attempts s)" "at_id t = co_attempt_id i"
    and c: "ac_run_id (op_control op) = at_run_id t"
    and a: "a \<in> set (st_assignments s)" "as_attempt_id a = at_id t"
    and l: "l \<in> set (st_leases s)" "ls_assignment_id l = as_id a" "ls_status l = L_Active"
  shows "refines s s'"
proof -
  define result where "result = cancellationResult (co_result i) (ac_run_cancel_requested_at (op_control op))"
  obtain rst retry where dec: "completion_decision (op_control op) result s = (rst, retry)" by fastforce
  have rst: "\<not> busy_run rst"
    using arg_cong [OF dec, of fst] by (auto simp: completion_decision_def split: prod.splits if_splits)
  define resp0 where "resp0 = first_response i op False retry"
  obtain s1 bst s2 where s1: "insert_receipt i resp0 s = Inr s1"
    and s2: "persistCompletion (op_control op) a l result i rst s1 = Inr (bst, s2)"
    and s3: "s' = s2 \<or> (\<exists>es. appendSchedulingEventDrafts es s2 = Inr s')"
    using run unfolding accept_completion_def Let_def result_def [symmetric] dec prod.case
      resp0_def [symmetric] and_then_eq_Inr
    by (cases factory) (auto simp: and_then_eq_Inr)
  obtain rows where rows: "s1 = s\<lparr>st_receipts := rows\<rparr>" using s1 by (rule insert_receipt_refines)
  have r1: "refines s s1"
    by (rule other_tables_refines [OF store_okD(1) [OF ok]]) (simp_all add: rows)
  have r2: "refines s1 s2"
    by (rule persistCompletion_refines [OF s2 refines_ok [OF ok r1] _ t(2) c _ a(2) _ l(2,3) rst])
      (simp_all add: rows t a l)
  have r3: "refines s2 s'"
    using s3
  proof
    assume "s' = s2"
    then show ?thesis using refines_ok [OF refines_ok [OF ok r1] r2] by (simp add: refines_refl)
  next
    assume "\<exists>es. appendSchedulingEventDrafts es s2 = Inr s'"
    then obtain rows where "s' = s2\<lparr>st_sched_events := rows\<rparr>" using sched_events_Inr by blast
    then show ?thesis
      using r2 by (intro other_tables_refines) (simp_all add: refines_def)
  qed
  show ?thesis using r1 r2 r3 by (blast intro: refines_trans)
qed

lemma complete_body_refines:
  assumes run: "complete_body i factory s = Inr (res, s')" and ok: "store_ok s"
  shows "refines s s'"
proof -
  note lk = store_okD(1) [OF ok]
  obtain op where op0: "completionOpening s (co_attempt_id i) = Some op"
    using run unfolding complete_body_def and_then_eq_Inr found_eq_Inr by blast
  note body0 = run [unfolded complete_body_def op0 found_Some and_then_Inr]
  have "\<exists>a. op_assignment op = Some a" "\<exists>l. op_lease op = Some l"
    using body0 by (cases "op_assignment op"; cases "op_lease op"; simp)+
  then obtain a l where op: "completionOpening s (co_attempt_id i) = Some op"
      "op_assignment op = Some a" "op_lease op = Some l"
    using op0 by blast
  obtain t r b where rows: "find_attempt s (co_attempt_id i) = Some t"
      "op_control op = control_of t r b" "op_assignment op = assignmentForAttempt s (co_attempt_id i)"
      "op_lease op = (case op_assignment op of None \<Rightarrow> None
         | Some a \<Rightarrow> latestLeaseForAssignment s (as_id a))"
    using completionOpening_rows [OF op(1)] by metis
  have t: "t \<in> set (st_attempts s)" "at_id t = co_attempt_id i"
    using rows(1) by (auto simp: find_defs dest: row_by_SomeD)
  have a: "a \<in> set (st_assignments s)" "as_attempt_id a = at_id t"
    using row_by_SomeD [OF rows(3) [unfolded op(2) assignmentForAttempt_def, symmetric]] t(2)
    by simp_all
  have l: "l \<in> set (st_leases s)" "ls_assignment_id l = as_id a"
    using latest_by_in [OF rows(4) [unfolded op(2,3) option.case latestLeaseForAssignment_def, symmetric]]
    by simp_all
  have body: "(if \<not> completion_authorized i op then Inl (DomainError ''LEASE_AUTH_REJECTED'')
      else case find_receipt s (co_attempt_id i) of
        Some receipt \<Rightarrow>
          if rc_result_digest receipt \<noteq> co_result_digest i
            then and_then (appendAttemptEvent (conflict_event i op receipt) s)
              (\<lambda>s1. Inr (Conflicting, s1))
          else
            let stored = (rc_response receipt)\<lparr>cp_disposition := Duplicate\<rparr>
            in Inr (Responded
                 (case find_batch s (ac_batch_id (op_control op)) of
                    None \<Rightarrow> stored
                  | Some b \<Rightarrow> stored\<lparr>cp_batch_closed :=
                      Some (isTerminalBatchStatus (bt_status b))\<rparr>), s)
      | None \<Rightarrow>
          if completion_late i (op_control op) l (op_latest_attempt_number op)
            then let response = first_response i op True False
                 in and_then (insert_receipt i response s) (\<lambda>s1. Inr (Responded response, s1))
          else and_then (accept_completion i factory op a l s)
            (\<lambda>(response, s1). Inr (Responded response, s1))) = Inr (res, s')"
    using run unfolding complete_body_def op(1) found_Some and_then_Inr op(2,3) prod.case option.case .
  show ?thesis
  proof (cases "find_receipt s (co_attempt_id i)")
    case (Some receipt)
    then have "s' = s \<or> (\<exists>e. appendAttemptEvent e s = Inr s')"
      using body by (auto simp: and_then_eq_Inr Let_def split: if_splits)
    then show ?thesis
    proof
      assume "s' = s"
      then show ?thesis using refines_refl [OF ok] by simp
    next
      assume "\<exists>e. appendAttemptEvent e s = Inr s'"
      then obtain e where "appendAttemptEvent e s = Inr s'" by blast
      then obtain evs where "s' = s\<lparr>st_attempt_events := evs\<rparr>" by (rule appendAttemptEvent_Inr)
      then show ?thesis using refines_same [OF lk] by simp
    qed
  next
    case None
    show ?thesis
    proof (cases "completion_late i (op_control op) l (op_latest_attempt_number op)")
      case True
      then have "\<exists>resp. insert_receipt i resp s = Inr s'"
        using body None by (auto simp: and_then_eq_Inr Let_def split: if_splits)
      then obtain resp where "insert_receipt i resp s = Inr s'" by blast
      then obtain rows where "s' = s\<lparr>st_receipts := rows\<rparr>" by (rule insert_receipt_refines)
      then show ?thesis by (intro other_tables_refines [OF lk]) simp_all
    next
      case False
      then have "\<exists>resp. accept_completion i factory op a l s = Inr (resp, s')"
        using body None by (auto simp: and_then_eq_Inr split: if_splits)
      then obtain resp where acc: "accept_completion i factory op a l s = Inr (resp, s')" by blast
      have "ls_status l = L_Active" using False by (simp add: completion_late_def)
      then show ?thesis
        using accept_completion_refines [OF acc ok t _ a l] rows(2) by (simp add: control_of_def)
    qed
  qed
qed

subsection \<open>Expiry\<close>

lemma terminate_batch_shape: "same_shape s (settle_batch b now s)"
  by (cases "bt_cancel_requested_at b")
    (simp_all add: settle_batch_def Let_def advanceRound_shape terminate_shape)

lemma updateBatchStatus_shape:
  assumes "updateBatchStatus k now e why s = Inr (st, s')"
  shows "same_shape s s'"
  using assms
proof (cases rule: updateBatchStatus_Inr)
  case (moved b evs)
  show ?thesis
    unfolding moved(5) using terminate_batch_shape put_batch_status_shape by (rule same_shape_trans)
qed (simp_all add: terminate_batch_shape)

text \<open>
  What the queries of \<open>recoverExpired\<close> say of an item that no later step of the loop changes: its
  assignment is one of the attempt, and the lease is the one of the assignment, or there is none.
\<close>

definition item_ok :: "store \<Rightarrow> expired_item \<Rightarrow> bool" where
  "item_ok s = (\<lambda>(lid, aid, tid, reason).
     (\<exists>r b. (aid, tid, r, b) \<in> set (assignment_shape s)) \<and>
     (case lid of None \<Rightarrow> aid \<notin> snd ` set (lease_shape s)
      | Some k \<Rightarrow> (k, aid) \<in> set (lease_shape s)))"

lemma item_ok_same_shape: "item_ok s x \<Longrightarrow> same_shape s t \<Longrightarrow> item_ok t x"
  unfolding item_ok_def same_shape_def by metis

lemma item_okE:
  assumes "item_ok s (lid, aid, tid, reason)" "linked s"
  obtains a t where "a \<in> set (st_assignments s)" "as_id a = aid" "as_attempt_id a = tid"
    "t \<in> set (st_attempts s)" "at_id t = tid"
proof -
  obtain a where a: "a \<in> set (st_assignments s)" "as_id a = aid" "as_attempt_id a = tid"
    using assms(1) by (auto simp: item_ok_def assignment_shape_def)
  moreover obtain t where "t \<in> set (st_attempts s)" "at_id t = tid"
    using linked_assignment [OF assms(2) a(1)] a(3) by metis
  ultimately show thesis by (rule that)
qed

lemma linked_joined:
  assumes "linked s" "t \<in> set (st_attempts s)"
  obtains r b where "joined_attempt s (at_id t) = Some (t, r, b)" "r \<in> set (st_runs s)"
    "rr_id r = at_run_id t" "b \<in> set (st_batches s)" "bt_id b = rr_batch_id r"
proof -
  obtain r where r: "r \<in> set (st_runs s)" "rr_id r = at_run_id t"
    using linked_attempt_run [OF assms] .
  obtain b where b: "b \<in> set (st_batches s)" "bt_id b = rr_batch_id r"
    using linked_run_batch [OF assms(1) r(1)] .
  have "joined_attempt s (at_id t) = Some (t, r, b)"
    using linked_rows(3) [OF assms] linked_rows(2) [OF assms(1) r(1)] linked_rows(1) [OF assms(1) b(1)]
    unfolding r(2) b(2) by (simp add: joined_attempt_def find_defs)
  then show thesis using r b by (rule that)
qed

lemma expire_lease_noop:
  assumes "store_ok s" "item_ok s (lid, aid, tid, reason)"
    "\<And>t. t \<in> set (st_attempts s) \<Longrightarrow> at_id t = tid \<Longrightarrow> \<not> active_attempt (at_status t)"
  shows "expire_lease lid s = s"
proof (cases lid)
  case None
  then show ?thesis by (simp add: expire_lease_def)
next
  case (Some k)
  obtain a t where a: "a \<in> set (st_assignments s)" "as_id a = aid" "as_attempt_id a = tid"
      "t \<in> set (st_attempts s)" "at_id t = tid"
    using item_okE [OF assms(2) store_okD(1) [OF assms(1)]] .
  obtain l where l: "l \<in> set (st_leases s)" "ls_id l = k" "ls_assignment_id l = aid"
    using assms(2) Some by (auto simp: item_ok_def lease_shape_def)
  have "\<not> open_assignment (as_status a)"
    using open_assignment_attempt [OF assms(1) a(1) _ a(4)] a(3,5) assms(3) [OF a(4,5)] by auto
  then have nl: "ls_status l \<noteq> L_Active"
    using active_lease_assignment [OF assms(1) l(1) _ a(1)] a(2) l(3) by auto
  have "ls_status x \<noteq> L_Active" if "x \<in> set (st_leases s)" "ls_id x = k" for x
    using that l nl linked_rows(6) [OF store_okD(1) [OF assms(1)]] by (metis option.inject)
  then have "update_where (\<lambda>l. ls_id l = k \<and> ls_status l = L_Active)
      (\<lambda>l. l\<lparr>ls_status := L_Expired\<rparr>) (st_leases s) = st_leases s"
    unfolding update_where_def by (intro map_idI) auto
  then show ?thesis using Some by (simp add: expire_lease_def)
qed

definition expired_rows ::
  "ident option \<Rightarrow> ident \<Rightarrow> ident \<Rightarrow> ident \<Rightarrow> attempt_expiration \<Rightarrow> run_status \<Rightarrow>
   attempt_outcome option \<Rightarrow> string option \<Rightarrow> retry_queue_timing \<Rightarrow> time \<Rightarrow> store \<Rightarrow> store" where
  "expired_rows lid aid tid rid x rst oc why tm now s =
     finish_run_row rid rst oc None why tm now
       (expire_attempt_row tid x now
         (expire_assignment_row aid A_Expired now (expire_lease lid s)))"

lemma expired_rows_shape: "same_shape s (expired_rows lid aid tid rid x rst oc why tm now s)"
  by (cases lid) (simp_all add: expired_rows_def finish_run_row_def expire_attempt_row_def
    expire_assignment_row_def expire_lease_def same_shape_update)

lemma expired_rows_refines:
  assumes ok: "store_ok s" and item: "item_ok s (lid, as_id a, at_id t, reason)"
    and t: "t \<in> set (st_attempts s)" "active_attempt (at_status t)"
    and a: "a \<in> set (st_assignments s)" "as_attempt_id a = at_id t" "open_assignment (as_status a)"
    and rst: "\<not> busy_run rst"
  shows "refines s (expired_rows lid (as_id a) (at_id t) (at_run_id t) x rst oc why tm now s)"
    (is "refines s ?s")
proof (rule refines_close [OF store_okD(1) [OF ok] expired_rows_shape])
  note lk = store_okD(1) [OF ok]
  note defs = expired_rows_def expire_attempt_row_def expire_assignment_row_def finish_run_row_def
  show "phase_of_run rst \<noteq> Busy" using rst by simp
  show "abs_store ?s = p_close {at_id t} (\<lambda>_. phase_of_run rst) {} (abs_store s)"
  proof (rule close_one_absI [OF ok t a(1,2)])
    fix k
    show "p_run (abs_store ?s) k =
        (if k = at_run_id t then Some (phase_of_run rst) else p_run (abs_store s) k)"
      by (rule finish_run_abs [OF ok t]) (cases lid; simp add: defs expire_lease_def)
    show "p_att (abs_store ?s) k =
        (if k = at_id t then Some (at_run_id t, False) else p_att (abs_store s) k)"
      by (rule close_attempt_abs [OF lk t, where P = "\<lambda>x. active_attempt (at_status x)"
            and f = "\<lambda>t. t\<lparr>at_status := T_Timed_Out, at_outcome := Some Timed_Out,
              at_result_code := Some (xp_result_code x), at_result_summary := Some (xp_summary x),
              at_finished_at := Some now, at_version := at_version t + 1\<rparr>"])
        (use t in \<open>cases lid; simp add: defs expire_lease_def\<close>)+
    show "p_asg (abs_store ?s) k =
        (if k = as_id a then Some (at_id t, Closed) else p_asg (abs_store s) k)"
      unfolding a(2) [symmetric]
      by (rule close_assignment_abs [OF lk a(1), where P = "\<lambda>x. open_assignment (as_status x)"
            and f = "\<lambda>a. a\<lparr>as_status := A_Expired, as_updated_at := now,
              as_version := as_version a + 1\<rparr>"])
        (use a in \<open>cases lid; simp add: defs expire_lease_def\<close>)+
    show "p_lease (abs_store ?s) k =
        map_option (\<lambda>(x, act). (x, act \<and> x \<noteq> as_id a)) (p_lease (abs_store s) k)"
    proof (cases lid)
      case None
      then show ?thesis using item
        by (intro no_lease_abs) (auto simp: item_ok_def lease_shape_def defs expire_lease_def
          image_iff)
    next
      case (Some l0)
      then obtain l where l: "l \<in> set (st_leases s)" "ls_id l = l0" "ls_assignment_id l = as_id a"
        using item by (auto simp: item_ok_def lease_shape_def)
      show ?thesis
        by (rule close_lease_abs [OF ok l(1,3), where st = L_Expired])
          (simp_all add: defs expire_lease_def Some l(2))
    qed
  qed
qed

lemma expireAttempt_Inr:
  assumes run: "expireAttempt aid (at_id t) now e reason s = Inr (res, s')"
    and t: "joined_attempt s (at_id t) = Some (t, r, b)" "active_attempt (at_status t)"
  obtains rst retry a tm evs st where
    "expiry_decision (control_of t r b) (attemptExpiration reason) s = (rst, retry)"
    "find_assignment s aid = Some a" "as_status a = A_Expired \<or> open_assignment (as_status a)"
    "transitionExecutionRun (rr_status r) rst = Inr rst"
    "updateBatchStatus (bt_id b) now e (xp_event_type (attemptExpiration reason))
      (finish_run_row (at_run_id t) rst (if rst = R_Queued then None else Some Timed_Out) None
          (if rst = R_Queued then None else Some (xp_result_code (attemptExpiration reason)))
          tm now
        (expire_attempt_row (at_id t) (attemptExpiration reason) now
          (expire_assignment_row aid A_Expired now s))\<lparr>st_attempt_events := evs\<rparr>) = Inr (st, s')"
    "res = Some \<lparr>rx_attempt_id = at_id t, rx_batch_id = bt_id b, rx_run_id = at_run_id t,
      rx_runner_id = (if reason = Claim_Timeout then None else Some (at_runner_id t)),
      rx_reason = reason, rx_retry_scheduled = retry\<rparr>"
    "tm = retryQueueTiming rst (bt_retry_mode b)
       (isRetryableRunnerFailure (Some (xp_result_code (attemptExpiration reason))))
       (at_round t) now (bt_queue_timeout_ms b)"
proof -
  define x where "x = attemptExpiration reason"
  define c where "c = control_of t r b"
  have sel: "ac_status c = at_status t" "ac_run_status c = rr_status r" "ac_run_id c = at_run_id t"
      "ac_batch_id c = bt_id b" "ac_runner_id c = at_runner_id t" "ac_retry_mode c = bt_retry_mode b"
      "ac_execution_round c = at_round t" "ac_queue_timeout_ms c = bt_queue_timeout_ms b"
    by (simp_all add: c_def control_of_def)
  have find: "findAttemptControl s (at_id t) = Some c"
    by (simp add: findAttemptControl_def t(1) c_def)
  have act: "\<not> isTerminalAttemptStatus (at_status t)" using t(2) by (auto simp: isTerminalAttempt_iff)
  obtain rst retry where dec: "expiry_decision c x s = (rst, retry)" by fastforce
  note body = run [unfolded expireAttempt_def find option.case sel if_not_P [OF act] Let_def
      x_def [symmetric] dec prod.case]
  obtain ast rst' a as' where tr: "transitionRunAttempt (at_status t) T_Timed_Out = Inr ast"
      "transitionExecutionRun (rr_status r) rst = Inr rst'"
      "requiredAssignment s aid = Inr a" "transitionAssignment (as_status a) A_Expired = Inr as'"
    using body unfolding and_then_eq_Inr by blast
  have eq: "ast = T_Timed_Out" "rst' = rst" "as' = A_Expired"
    using tr by (simp_all add: att_machine.move_Inr asg_machine.move_Inr run_machine.move_Inr)
  have open_a: "as_status a = A_Expired \<or> open_assignment (as_status a)"
    using tr(4) by (cases "as_status a") (auto simp: asg_machine.move_Inr)
  define tm where "tm = retryQueueTiming rst (bt_retry_mode b)
       (isRetryableRunnerFailure (Some (xp_result_code x))) (at_round t) now (bt_queue_timeout_ms b)"
  define S where "S = finish_run_row (at_run_id t) rst
          (if rst = R_Queued then None else Some Timed_Out) None
          (if rst = R_Queued then None else Some (xp_result_code x)) tm now
        (expire_attempt_row (at_id t) x now (expire_assignment_row aid A_Expired now s))"
  obtain s4 st where s4: "appendAttemptEvent (expired_event e (at_id t) x c T_Timed_Out retry now) S = Inr s4"
    and up: "updateBatchStatus (bt_id b) now e (xp_event_type x) s4 = Inr (st, s')"
    and res: "res = Some \<lparr>rx_attempt_id = at_id t, rx_batch_id = bt_id b, rx_run_id = at_run_id t,
      rx_runner_id = (if reason = Claim_Timeout then None else Some (at_runner_id t)),
      rx_reason = reason, rx_retry_scheduled = retry\<rparr>"
    using body [unfolded tr [unfolded eq] and_then_Inr outcome_of_status.simps
        tm_def [symmetric] S_def [symmetric]]
    by (auto simp: and_then_eq_Inr)
  obtain evs where "s4 = S\<lparr>st_attempt_events := evs\<rparr>" using s4 by (rule appendAttemptEvent_Inr)
  then have up': "updateBatchStatus (bt_id b) now e (xp_event_type x) (S\<lparr>st_attempt_events := evs\<rparr>) =
      Inr (st, s')" using up by simp
  have a: "find_assignment s aid = Some a"
    using tr(3) by (simp add: requiredAssignment_def found_eq_Inr)
  show thesis
    by (rule that [OF dec [unfolded x_def c_def] a open_a tr(2) [unfolded eq(2)]
        up' [unfolded S_def x_def] res tm_def [unfolded x_def]])
qed

lemma expire_lease_reads:
  "joined_attempt (expire_lease lid s) k = joined_attempt s k"
  "find_assignment (expire_lease lid s) k = find_assignment s k"
proof -
  have "find_attempt (expire_lease lid s) = find_attempt s" "find_run (expire_lease lid s) = find_run s"
    "find_batch (expire_lease lid s) = find_batch s"
    by (cases lid; simp add: expire_lease_def find_defs fun_eq_iff)+
  then show "joined_attempt (expire_lease lid s) k = joined_attempt s k"
    by (simp only: joined_attempt_def)
  show "find_assignment (expire_lease lid s) k = find_assignment s k"
    by (cases lid) (simp_all add: expire_lease_def find_defs)
qed

lemma expire_item_refines:
  assumes run: "expireAttempt aid tid now e reason (expire_lease lid s) = Inr (res, s')"
    and ok: "store_ok s" and item: "item_ok s (lid, aid, tid, reason)"
  shows "refines s s' \<and> same_shape s s'"
proof -
  note lk = store_okD(1) [OF ok]
  obtain a t where a: "a \<in> set (st_assignments s)" "as_id a = aid" "as_attempt_id a = tid"
      and t: "t \<in> set (st_attempts s)" "at_id t = tid"
    using item_okE [OF item lk] .
  obtain r b where j: "joined_attempt s (at_id t) = Some (t, r, b)" "r \<in> set (st_runs s)"
      "rr_id r = at_run_id t"
    using linked_joined [OF lk t(1)] by metis
  show ?thesis
  proof (cases "active_attempt (at_status t)")
    case False
    then have "expire_lease lid s = s"
      using expire_lease_noop [OF ok item] linked_attempt_eq [OF lk t(1)] t(2) by metis
    moreover have "s' = expire_lease lid s"
      using run False j(1) unfolding t(2) [symmetric]
      by (simp add: expireAttempt_def findAttemptControl_def expire_lease_reads control_of_def
          isTerminalAttempt_iff)
    ultimately show ?thesis using refines_refl [OF ok] by simp
  next
    case True
    have j': "joined_attempt (expire_lease lid s) (at_id t) = Some (t, r, b)"
      using j(1) by (simp add: expire_lease_reads)
    show ?thesis
    proof (rule expireAttempt_Inr [OF run [folded t(2)] j' True])
      fix rst retry a' tm evs st
      let ?S = "expired_rows lid aid (at_id t) (at_run_id t) (attemptExpiration reason) rst
        (if rst = R_Queued then None else Some Timed_Out)
        (if rst = R_Queued then None else Some (xp_result_code (attemptExpiration reason))) tm now s"
      assume dec: "expiry_decision (control_of t r b) (attemptExpiration reason) (expire_lease lid s)
          = (rst, retry)"
        and a': "find_assignment (expire_lease lid s) aid = Some a'"
          "as_status a' = A_Expired \<or> open_assignment (as_status a')"
        and up: "updateBatchStatus (bt_id b) now e (xp_event_type (attemptExpiration reason))
          (finish_run_row (at_run_id t) rst (if rst = R_Queued then None else Some Timed_Out) None
            (if rst = R_Queued then None else Some (xp_result_code (attemptExpiration reason)))
            tm now
          (expire_attempt_row (at_id t) (attemptExpiration reason) now
            (expire_assignment_row aid A_Expired now (expire_lease lid s)))
            \<lparr>st_attempt_events := evs\<rparr>) = Inr (st, s')"
      have rst: "\<not> busy_run rst"
        using arg_cong [OF dec, of fst] by (auto simp: expiry_decision_def split: prod.splits)
      obtain a0 where a0: "a0 \<in> set (st_assignments s)" "as_attempt_id a0 = at_id t"
          "open_assignment (as_status a0)"
        using active_attempt_assignment [OF ok t(1) True] .
      have "a0 = a" using linked_assignment_attempt_eq [OF lk a0(1) a(1)] a0(2) a(3) t(2) by simp
      then have open_a: "open_assignment (as_status a)" using a0(3) by simp
      have r1: "refines s ?S"
        using expired_rows_refines [OF ok item [folded a(2) t(2)] t(1) True a(1) _ open_a rst] a(2,3) t(2)
        by metis
      have r2: "refines ?S (?S\<lparr>st_attempt_events := evs\<rparr>)"
        by (rule refines_same) (use r1 in \<open>simp_all add: refines_def\<close>)
      have up': "updateBatchStatus (bt_id b) now e (xp_event_type (attemptExpiration reason))
          (?S\<lparr>st_attempt_events := evs\<rparr>) = Inr (st, s')"
        using up unfolding expired_rows_def .
      note r12 = refines_trans [OF r1 r2]
      have "refines s s'"
        using refines_trans [OF r12 updateBatchStatus_refines [OF up' refines_ok [OF ok r12]]] .
      moreover have "same_shape s s'"
        using same_shape_trans [OF same_shape_trans [OF expired_rows_shape events_shape]
            updateBatchStatus_shape [OF up']] .
      ultimately show ?thesis by blast
    qed
  qed
qed

text \<open>Finishing runs that wait in the queue is a closing step without attempts.\<close>

lemma finish_queued_refines:
  assumes lk: "linked s" and t: "t = s\<lparr>st_runs := update_where due f (st_runs s)\<rparr>"
    and due: "\<And>r. r \<in> set (st_runs s) \<Longrightarrow> due r \<Longrightarrow> rr_status r = R_Queued"
    and keeps: "\<And>r. rr_id (f r) = rr_id r" "\<And>r. rr_batch_id (f r) = rr_batch_id r"
      "\<And>r. rr_attempt_count (f r) = rr_attempt_count r"
    and fin: "\<And>r. phase_of_run (rr_status (f r)) = Done"
  shows "refines s t"
proof (rule refines_close [OF lk])
  let ?W = "rr_id ` {r \<in> set (st_runs s). due r}"
  show "same_shape s t" by (auto simp: t same_shape_update keeps)
  show "abs_store t = p_close {} (\<lambda>_. Done) ?W (abs_store s)"
  proof (intro proto.equality ext)
    fix j
    show "p_run (abs_store t) j = p_run (p_close {} (\<lambda>_. Done) ?W (abs_store s)) j"
    proof (cases "row_by rr_id j (st_runs s)")
      case None
      then show ?thesis by (simp add: abs_store_def t row_by_update keeps p_close_def)
    next
      case (Some r)
      then have r: "r \<in> set (st_runs s)" "rr_id r = j" by (auto dest: row_by_SomeD)
      have "j \<in> ?W \<longleftrightarrow> due r" using r linked_run_eq [OF lk] by blast
      then show ?thesis using Some due [OF r(1)]
        by (auto simp: abs_store_def t row_by_update keeps fin p_close_def)
    qed
    show "p_att (abs_store t) j = p_att (p_close {} (\<lambda>_. Done) ?W (abs_store s)) j"
      by (cases "row_by at_id j (st_attempts s)") (simp_all add: abs_store_def t p_close_def)
    show "p_asg (abs_store t) j = p_asg (p_close {} (\<lambda>_. Done) ?W (abs_store s)) j"
      by (cases "row_by as_id j (st_assignments s)") (simp_all add: abs_store_def t p_close_def)
    have none: "(case p_asg p x of None \<Rightarrow> False | Some (t, _) \<Rightarrow> t \<in> {}) = False" for p x
      by (simp split: option.split)
    show "p_lease (abs_store t) j = p_lease (p_close {} (\<lambda>_. Done) ?W (abs_store s)) j"
      unfolding p_close_def proto.simps none
      by (cases "row_by ls_id j (st_leases s)") (simp_all add: abs_store_def t)
  qed simp
qed simp

lemma fail_queued_run_refines:
  assumes "store_ok s"
  shows "refines s (fail_queued_run (\<lambda>r. rr_id r = k \<and> queue_timed_out s now r) now s)"
  using store_okD(1) [OF assms] fail_queued_run_def
  by (rule finish_queued_refines) (simp_all add: queue_timed_out_def)

lemma expire_queued_runs_refines:
  "expire_queued_runs i xs n s = Inr (m, s') \<Longrightarrow> store_ok s \<Longrightarrow> refines s s'"
proof (induction i xs n s arbitrary: m s' rule: expire_queued_runs.induct)
  case (1 i n s)
  then show ?case using refines_refl by simp
next
  case (2 i k b rest n s)
  note ok = 2(4)
  define due where "due = (\<lambda>r. rr_id r = k \<and> queue_timed_out s (ri_now i) r)"
  show ?case
  proof (cases "length (ri_event_ids i) \<le> n")
    case True
    then have "s' = s" using 2(3) by (simp add: due_def)
    then show ?thesis using refines_refl [OF ok] by simp
  next
    case False
    show ?thesis
    proof (cases "count_where due (st_runs s) \<noteq> 1")
      case True
      then have "expire_queued_runs i rest n s = Inr (m, s')"
        using 2(3) False by (simp add: due_def Let_def)
      then show ?thesis using 2(1) [OF False refl due_def _ _ ok] True by simp
    next
      case one: False
      obtain st s1 where s1: "updateBatchStatus b (ri_now i) (ri_event_ids i ! n)
            ''run.queue_timed_out'' (fail_queued_run due (ri_now i) s) = Inr (st, s1)"
        and rest: "expire_queued_runs i rest (n + 1) s1 = Inr (m, s')"
        using 2(3) False one by (auto simp: due_def Let_def and_then_eq_Inr)
      have r1: "refines s (fail_queued_run due (ri_now i) s)"
        unfolding due_def by (rule fail_queued_run_refines [OF ok])
      have r2: "refines s s1"
        using refines_trans [OF r1 updateBatchStatus_refines [OF s1 refines_ok [OF ok r1]]] .
      have "refines s1 s'"
        using 2(2) [OF False refl due_def _ rest refines_ok [OF ok r2]] one by blast
      with r2 show ?thesis by (rule refines_trans)
    qed
  qed
qed

lemma expire_items_refines:
  "expire_items i xs n s = Inr (ds, m, s') \<Longrightarrow> store_ok s \<Longrightarrow>
     (\<And>x. x \<in> set xs \<Longrightarrow> item_ok s x) \<Longrightarrow> refines s s'"
proof (induction xs arbitrary: n s ds)
  case Nil
  then show ?case using refines_refl by simp
next
  case (Cons x xs)
  obtain lid aid tid reason where x: "x = (lid, aid, tid, reason)" by (cases x)
  show ?case
  proof (cases "length (ri_event_ids i) \<le> n")
    case True
    then have "s' = s" using Cons.prems(1) x by simp
    then show ?thesis using refines_refl [OF Cons.prems(2)] by simp
  next
    case False
    obtain res s1 where s1: "expireAttempt aid tid (ri_now i) (ri_event_ids i ! n) reason
          (expire_lease lid s) = Inr (res, s1)"
      and cont: "(case res of None \<Rightarrow> expire_items i xs n s1
         | Some d \<Rightarrow> and_then (expire_items i xs (n + 1) s1)
             (\<lambda>(ds, n, s2). Inr (d # ds, n, s2))) = Inr (ds, m, s')"
      using Cons.prems(1) False unfolding x expire_items.simps if_not_P [OF False] and_then_eq_Inr
      by auto
    have rest: "\<exists>n ds. expire_items i xs n s1 = Inr (ds, m, s')"
      using cont by (cases res) (auto simp: and_then_eq_Inr)
    have step: "refines s s1 \<and> same_shape s s1"
      using expire_item_refines [OF s1 Cons.prems(2)] Cons.prems(3) x by simp
    then have ok1: "store_ok s1" using refines_ok [OF Cons.prems(2)] by blast
    have "item_ok s1 y" if "y \<in> set xs" for y
      using Cons.prems(3) [of y] that step item_ok_same_shape by auto
    then have "refines s1 s'" using rest Cons.IH ok1 by blast
    then show ?thesis using step refines_trans by blast
  qed
qed

lemma expired_active_ok:
  assumes "store_ok s" "x \<in> set (expired_active i n s)"
  shows "item_ok s x"
proof -
  obtain l where l: "l \<in> set (st_leases s)" "lease_over s (ri_now i) l"
      and x: "x = (case joined_lease s l of
            Some (a, t, r, b) \<Rightarrow>
              (Some (ls_id l), as_id a, as_attempt_id a, expiration_reason t r (ri_now i))
          | None \<Rightarrow> (Some (ls_id l), ls_assignment_id l, '''', Lease_Expired))"
    using assms(2) unfolding expired_active_def by (auto dest!: in_set_takeD)
  obtain a t r b where j: "joined_lease s l = Some (a, t, r, b)"
    using l(2) by (auto simp: lease_over_def split: option.splits)
  then have a: "a \<in> set (st_assignments s)" "as_id a = ls_assignment_id l"
    by (auto simp: joined_lease_def find_defs split: option.splits dest: row_by_SomeD)
  show ?thesis
    using l(1) a(1) a(2) [symmetric]
    by (auto simp: x j item_ok_def assignment_shape_def lease_shape_def image_iff)
qed

lemma pending_no_lease:
  assumes "store_ok s" "a \<in> set (st_assignments s)" "as_status a = A_Pending"
    "l \<in> set (st_leases s)"
  shows "ls_assignment_id l \<noteq> as_id a"
proof
  assume l: "ls_assignment_id l = as_id a"
  note ok = store_okD [OF assms(1)]
  have "p_lease (abs_store s) (ls_id l) = Some (as_id a, ls_status l = L_Active)"
    using abs_rows(4) [OF ok(1) assms(4)] l by simp
  then obtain t ph where "p_asg (abs_store s) (as_id a) = Some (t, ph)" "ph \<noteq> Offered"
    using lease_okD(1) [OF ok(4)] by blast
  then show False using abs_rows(3) [OF ok(1) assms(2)] assms(3) by simp
qed

lemma expired_unclaimed_ok:
  assumes "store_ok s" "x \<in> set (expired_unclaimed i n s)"
  shows "item_ok s x"
proof -
  obtain a where a: "a \<in> set (st_assignments s)" "as_status a = A_Pending"
      and x: "x = (None, as_id a, as_attempt_id a, Claim_Timeout)"
    using assms(2) unfolding expired_unclaimed_def
    by (auto dest!: in_set_takeD simp: unclaimed_over_def)
  have "as_id a \<notin> snd ` set (lease_shape s)"
    using pending_no_lease [OF assms(1) a] by (force simp: lease_shape_def)
  then show ?thesis using a(1) by (auto simp: x item_ok_def assignment_shape_def intro!: image_eqI)
qed

lemma settle_batches_refines:
  "settle_batches i xs n s = Inr s' \<Longrightarrow> store_ok s \<Longrightarrow> refines s s'"
proof (induction xs arbitrary: n s)
  case Nil
  then show ?case using refines_refl by simp
next
  case (Cons b xs)
  show ?case
  proof (cases "length (ri_event_ids i) \<le> n")
    case True
    then show ?thesis using Cons.prems refines_refl by simp
  next
    case False
    then obtain st s1 where s1: "updateBatchStatus b (ri_now i) (ri_event_ids i ! n)
          ''batch.termination_reconciled'' s = Inr (st, s1)"
      and rest: "settle_batches i xs (n + 1) s1 = Inr s'"
      using Cons.prems(1) by (auto simp: and_then_eq_Inr)
    note r = updateBatchStatus_refines [OF s1 Cons.prems(2)]
    show ?thesis using refines_trans [OF r Cons.IH [OF rest refines_ok [OF Cons.prems(2) r]]] .
  qed
qed

lemma recover_body_refines:
  assumes run: "recover_body i s = Inr (ds, s')" and ok: "store_ok s"
  shows "refines s s'"
proof (cases "ri_terminating_only i")
  case True
  then have "settleTerminatingBatches i 0 s = Inr s'"
    using run by (auto simp: recover_body_def and_then_eq_Inr)
  then show ?thesis using settle_batches_refines ok by (simp add: settleTerminatingBatches_def)
next
  case False
  obtain n s1 where s1: "expire_queued_runs i (expired_queued i s) 0 s = Inr (n, s1)"
    and cont: "and_then (expire_items i (expired_active i n s1 @
          expired_unclaimed i (n + length (expired_active i n s1)) s1) n s1)
        (\<lambda>(details, n, s2). and_then (settleTerminatingBatches i n s2) (\<lambda>s3. Inr (details, s3))) =
      Inr (ds, s')"
    using run [unfolded recover_body_def if_not_P [OF False] Let_def, THEN and_then_eq_Inr [THEN iffD1]]
    by auto
  have more: "\<exists>m k ds s2. expire_items i (expired_active i n s1 @ expired_unclaimed i m s1) n s1 =
        Inr (ds, k, s2) \<and> settleTerminatingBatches i k s2 = Inr s'"
    using cont by (auto simp: and_then_eq_Inr)
  note r1 = expire_queued_runs_refines [OF s1 ok]
  note ok1 = refines_ok [OF ok r1]
  obtain m k ds s2 where s2: "expire_items i (expired_active i n s1 @ expired_unclaimed i m s1) n s1 =
        Inr (ds, k, s2)" and s3: "settleTerminatingBatches i k s2 = Inr s'" using more by blast
  have r2: "refines s1 s2"
  proof (rule expire_items_refines [OF s2 ok1])
    fix x assume "x \<in> set (expired_active i n s1 @ expired_unclaimed i m s1)"
    then show "item_ok s1 x"
      unfolding set_append using expired_active_ok [OF ok1] expired_unclaimed_ok [OF ok1] by blast
  qed
  have "refines s2 s'"
    using settle_batches_refines s3 refines_ok [OF ok1 r2] by (simp add: settleTerminatingBatches_def)
  then show ?thesis using r1 r2 refines_trans by blast
qed

subsection \<open>Cancellations\<close>

lemma newest_attempt:
  assumes ok: "store_ok s" and t: "t \<in> set (st_attempts s)" "active_attempt (at_status t)"
    "at_run_id t = k"
  shows "latest_attempt s k = Some t"
proof -
  have na: "newest_active s" using ok by (simp add: store_ok_def)
  have mem: "t \<in> set (filter (\<lambda>t. at_run_id t = k) (st_attempts s))" using t by simp
  then obtain u where u: "latest_attempt s k = Some u"
    unfolding latest_attempt_def by (metis latest_by_None empty_iff empty_set not_None_eq)
  have "u \<in> set (st_attempts s)" "at_run_id u = k" "at_number t \<le> at_number u"
    using latest_by_SomeD [OF u [unfolded latest_attempt_def]] mem by auto
  then have "u = t"
    using newest_activeD [OF na store_okD(1) [OF ok] t(1,2), of u] t(3) by auto
  then show ?thesis using u by simp
qed

lemma latest_attempt_in:
  assumes "latest_attempt s k = Some t"
  shows "t \<in> set (st_attempts s)" "at_run_id t = k"
  using latest_by_SomeD [OF assms [unfolded latest_attempt_def]] by auto

definition cancelled_rows ::
  "cancel_input \<Rightarrow> run_row \<Rightarrow> attempt_row \<Rightarrow> assignment_row \<Rightarrow> store \<Rightarrow> store" where
  "cancelled_rows i r t a s =
     s\<lparr>st_assignments := update_where (\<lambda>x. as_id x = as_id a)
         (\<lambda>a. a\<lparr>as_status := A_Cancelled, as_cancel_requested_at := Some (cn_requested_at i),
               as_updated_at := cn_requested_at i, as_version := as_version a + 1\<rparr>)
         (st_assignments s),
       st_leases := update_where (\<lambda>l. ls_assignment_id l = as_id a \<and> ls_status l = L_Active)
         (\<lambda>l. l\<lparr>ls_status := L_Revoked\<rparr>) (st_leases s),
       st_attempts := update_where (\<lambda>x. at_id x = at_id t)
         (\<lambda>t. t\<lparr>at_status := T_Cancelled, at_outcome := Some Cancelled,
               at_result_code := Some ''CANCELLED_BY_USER'',
               at_result_summary := Some (cn_reason i),
               at_finished_at := Some (cn_requested_at i), at_version := at_version t + 1\<rparr>)
         (st_attempts s)\<rparr>"

lemma cancel_run_row_refines_queued:
  assumes ok: "store_ok s" and r: "r \<in> set (st_runs s)" "rr_id r = cn_run_id i"
    "rr_status r = R_Queued"
  shows "refines s (cancel_run_row i R_Cancelled s)" (is "refines s ?s")
proof (rule refines_close [OF store_okD(1) [OF ok]])
  note lk = store_okD(1) [OF ok]
  have row: "row_by rr_id (cn_run_id i) (st_runs s) = Some r" using linked_rows(2) [OF lk r(1)] r(2) by simp
  show "same_shape s ?s" by (simp add: cancel_run_row_def same_shape_update)
  show "abs_store ?s = p_close {} (\<lambda>_. Done) {cn_run_id i} (abs_store s)"
  proof (intro proto.equality ext)
    fix j
    show "p_run (abs_store ?s) j = p_run (p_close {} (\<lambda>_. Done) {cn_run_id i} (abs_store s)) j"
      using row r
      by (cases "row_by rr_id j (st_runs s)"; cases "j = cn_run_id i")
        (auto simp: abs_store_def cancel_run_row_def row_by_update p_close_def dest: row_by_SomeD)
    show "p_att (abs_store ?s) j = p_att (p_close {} (\<lambda>_. Done) {cn_run_id i} (abs_store s)) j"
      by (cases "row_by at_id j (st_attempts s)")
        (simp_all add: abs_store_def cancel_run_row_def p_close_def)
    show "p_asg (abs_store ?s) j = p_asg (p_close {} (\<lambda>_. Done) {cn_run_id i} (abs_store s)) j"
      by (cases "row_by as_id j (st_assignments s)")
        (simp_all add: abs_store_def cancel_run_row_def p_close_def)
    have none: "(case p_asg p x of None \<Rightarrow> False | Some (t, _) \<Rightarrow> t \<in> {}) = False" for p x
      by (simp split: option.split)
    show "p_lease (abs_store ?s) j = p_lease (p_close {} (\<lambda>_. Done) {cn_run_id i} (abs_store s)) j"
      unfolding p_close_def proto.simps none
      by (cases "row_by ls_id j (st_leases s)") (simp_all add: abs_store_def cancel_run_row_def)
  qed simp
qed simp

lemma cancelled_rows_refines:
  assumes ok: "store_ok s" and r: "r \<in> set (st_runs s)" "rr_id r = cn_run_id i" "at_run_id t = rr_id r"
    and t: "t \<in> set (st_attempts s)" "active_attempt (at_status t)"
    and a: "a \<in> set (st_assignments s)" "as_attempt_id a = at_id t" "open_assignment (as_status a)"
  shows "refines s (cancel_run_row i R_Cancelled (cancelled_rows i r t a s))" (is "refines s ?s")
proof (rule refines_close [OF store_okD(1) [OF ok]])
  note lk = store_okD(1) [OF ok]
  note defs = cancelled_rows_def cancel_run_row_def
  have row: "row_by rr_id (cn_run_id i) (st_runs s) = Some r" using linked_rows(2) [OF lk r(1)] r(2) by simp
  show "same_shape s ?s" by (simp add: defs same_shape_update)
  show "phase_of_run R_Cancelled \<noteq> Busy" by simp
  show "abs_store ?s = p_close {at_id t} (\<lambda>_. phase_of_run R_Cancelled) {} (abs_store s)"
  proof (rule close_one_absI [OF ok t a(1,2)])
    fix k
    show "p_run (abs_store ?s) k =
        (if k = at_run_id t then Some (phase_of_run R_Cancelled) else p_run (abs_store s) k)"
      using row r(2,3)
      by (cases "row_by rr_id k (st_runs s)"; cases "k = cn_run_id i")
        (auto simp: abs_store_def defs row_by_update dest: row_by_SomeD)
    show "p_att (abs_store ?s) k =
        (if k = at_id t then Some (at_run_id t, False) else p_att (abs_store s) k)"
      by (rule close_attempt_abs [OF lk t, where P = "\<lambda>_. True"
            and f = "\<lambda>t. t\<lparr>at_status := T_Cancelled, at_outcome := Some Cancelled,
              at_result_code := Some ''CANCELLED_BY_USER'',
              at_result_summary := Some (cn_reason i),
              at_finished_at := Some (cn_requested_at i), at_version := at_version t + 1\<rparr>"])
        (simp_all add: defs)
    show "p_asg (abs_store ?s) k =
        (if k = as_id a then Some (at_id t, Closed) else p_asg (abs_store s) k)"
      unfolding a(2) [symmetric]
      by (rule close_assignment_abs [OF lk a(1), where P = "\<lambda>_. True"
            and f = "\<lambda>a. a\<lparr>as_status := A_Cancelled, as_cancel_requested_at := Some (cn_requested_at i),
               as_updated_at := cn_requested_at i, as_version := as_version a + 1\<rparr>"])
        (simp_all add: defs)
    show "p_lease (abs_store ?s) k =
        map_option (\<lambda>(x, act). (x, act \<and> x \<noteq> as_id a)) (p_lease (abs_store s) k)"
      by (cases "row_by ls_id k (st_leases s)") (auto simp: abs_store_def defs row_by_update)
  qed
qed

lemma updateBatch_after:
  assumes "refines s s1" "store_ok s" "updateBatchStatus k now e why s1 = Inr (st, s')"
  shows "refines s s'"
  using refines_trans [OF assms(1) updateBatchStatus_refines [OF assms(3) refines_ok [OF assms(2,1)]]] .

lemma cancel_work_refines:
  assumes run: "cancel_work i r att asg s = Inr (res, s')" and ok: "store_ok s"
    and r: "r \<in> set (st_runs s)" "rr_id r = cn_run_id i" "\<not> isTerminalRunStatus (rr_status r)"
    and att: "att = latest_attempt s (cn_run_id i)"
    and asg: "asg = (case att of None \<Rightarrow> None | Some t \<Rightarrow> assignmentForAttempt s (at_id t))"
  shows "refines s s'"
proof -
  note lk = store_okD(1) [OF ok]
  obtain s1 s2 st where s1: "(case asg of None \<Rightarrow> Inr s | Some a \<Rightarrow> cancel_assignment i a s) = Inr s1"
    and s2: "(case att of None \<Rightarrow> Inr s1 | Some t \<Rightarrow> cancel_attempt i t s1) = Inr s2"
    and tr: "transitionExecutionRun (rr_status r) R_Cancelled = Inr st"
    and up: "\<exists>b. updateBatchStatus (rr_batch_id r) (cn_requested_at i) (cn_event_id i)
         ''run.cancelled'' (cancel_run_row i st s2) = Inr (b, s')"
    using run by (auto simp: cancel_work_def and_then_eq_Inr)
  have st: "st = R_Cancelled" using tr by (simp add: run_machine.move_Inr)
  have "refines s (cancel_run_row i R_Cancelled s2)"
  proof (cases "rr_status r = R_Queued")
    case True
    have over: "\<not> active_attempt (at_status t)" if "att = Some t" for t
      using active_attempt_busy [OF ok latest_attempt_in(1) [OF that [unfolded att]] _ r(1)]
        latest_attempt_in(2) [OF that [unfolded att]] r(2) True by fastforce
    have "s1 = s"
    proof (cases asg)
      case None
      then show ?thesis using s1 by simp
    next
      case (Some a)
      then obtain t where t: "att = Some t" "assignmentForAttempt s (at_id t) = Some a"
        using asg by (cases att) auto
      have a: "a \<in> set (st_assignments s)" "as_attempt_id a = at_id t"
        using row_by_SomeD [OF t(2) [unfolded assignmentForAttempt_def]] by simp_all
      have "\<not> open_assignment (as_status a)"
        using open_assignment_attempt [OF ok a(1) _ latest_attempt_in(1) [OF t(1) [unfolded att]]]
          over [OF t(1)] a(2) by auto
      then have "terminal_assignment (as_status a)" by (cases "as_status a") (auto simp: terminal_assignment_def)
      then show ?thesis using s1 Some by (simp add: cancel_assignment_def)
    qed
    moreover have "s2 = s1"
      using s2 over by (cases att) (auto simp: cancel_attempt_def isTerminalAttempt_iff)
    ultimately show ?thesis using cancel_run_row_refines_queued [OF ok r(1,2) True] by simp
  next
    case False
    then have "busy_run (rr_status r)" using r(3) by (auto simp: isTerminalRun_iff)
    then obtain t where t: "t \<in> set (st_attempts s)" "at_run_id t = rr_id r"
        "active_attempt (at_status t)"
      using busy_run_attempt [OF ok r(1)] by blast
    have at: "att = Some t" using newest_attempt [OF ok t(1,3)] t(2) r(2) att by simp
    obtain a where a: "a \<in> set (st_assignments s)" "as_attempt_id a = at_id t"
        "open_assignment (as_status a)"
      using active_attempt_assignment [OF ok t(1,3)] .
    have as: "asg = Some a"
      using linked_rows(5) [OF lk a(1)] a(2) asg at by (simp add: assignmentForAttempt_def)
    have nt: "\<not> terminal_assignment (as_status a)" using a(3) by (auto simp: terminal_assignment_def)
    have "\<exists>as'. transitionAssignment (as_status a) A_Cancelled = Inr as'"
      using s1 nt by (auto simp: as cancel_assignment_def and_then_eq_Inr)
    then have ta: "transitionAssignment (as_status a) A_Cancelled = Inr A_Cancelled"
      by (auto simp: asg_machine.move_Inr)
    have e1: "s1 = s\<lparr>st_assignments := update_where (\<lambda>x. as_id x = as_id a)
         (\<lambda>a. a\<lparr>as_status := A_Cancelled, as_cancel_requested_at := Some (cn_requested_at i),
               as_updated_at := cn_requested_at i, as_version := as_version a + 1\<rparr>)
         (st_assignments s),
       st_leases := update_where (\<lambda>l. ls_assignment_id l = as_id a \<and> ls_status l = L_Active)
         (\<lambda>l. l\<lparr>ls_status := L_Revoked\<rparr>) (st_leases s)\<rparr>"
      using s1 nt by (simp add: as cancel_assignment_def ta)
    have act: "\<not> isTerminalAttemptStatus (at_status t)" using t(3) by (auto simp: isTerminalAttempt_iff)
    obtain e x where "appendAttemptEvent e (s1\<lparr>st_attempts := update_where (\<lambda>x. at_id x = at_id t)
         (\<lambda>t. t\<lparr>at_status := T_Cancelled, at_outcome := Some Cancelled,
               at_result_code := Some ''CANCELLED_BY_USER'',
               at_result_summary := Some (cn_reason i),
               at_finished_at := Some (cn_requested_at i), at_version := at_version t + 1\<rparr>)
         (st_attempts s1)\<rparr>) = Inr s2" "x = e"
      using s2 act by (auto simp: at cancel_attempt_def and_then_eq_Inr)
    then obtain evs where e2: "s2 = (cancelled_rows i r t a s)\<lparr>st_attempt_events := evs\<rparr>"
      by (auto simp: e1 cancelled_rows_def elim!: appendAttemptEvent_Inr)
    have r1: "refines s (cancel_run_row i R_Cancelled (cancelled_rows i r t a s))"
      by (rule cancelled_rows_refines [OF ok r(1,2) t(2) t(1,3) a])
    have "refines (cancel_run_row i R_Cancelled (cancelled_rows i r t a s)) (cancel_run_row i R_Cancelled s2)"
      by (rule other_tables_refines [OF refines_linked [OF r1]]) (simp_all add: e2 cancel_run_row_def)
    with r1 show ?thesis by (rule refines_trans)
  qed
  then show ?thesis using updateBatch_after [OF _ ok] up st by blast
qed

lemma request_cancel_refines:
  assumes "linked s"
  shows "refines s (request_cancel i a s)"
proof (rule refines_same [OF assms])
  show "same_shape s (request_cancel i a s)" by (simp add: request_cancel_def same_shape_update)
  show "abs_store (request_cancel i a s) = abs_store s"
  proof (intro proto.equality ext)
    fix k
    show "p_run (abs_store (request_cancel i a s)) k = p_run (abs_store s) k"
      by (cases "row_by rr_id k (st_runs s)") (simp_all add: abs_store_def request_cancel_def row_by_update)
    show "p_asg (abs_store (request_cancel i a s)) k = p_asg (abs_store s) k"
      by (cases "row_by as_id k (st_assignments s)")
        (simp_all add: abs_store_def request_cancel_def row_by_update)
  qed (simp_all add: abs_store_def request_cancel_def)
qed

lemma cancelRun_refines:
  assumes run: "cancelRunWithinTransaction i s = Inr (res, s')" and ok: "store_ok s"
  shows "refines s s'"
proof (cases "find_run s (cn_run_id i)")
  case None
  then show ?thesis using run refines_refl [OF ok] by (simp add: cancelRunWithinTransaction_def)
next
  case (Some r)
  then have r: "r \<in> set (st_runs s)" "rr_id r = cn_run_id i"
    by (auto simp: find_defs dest: row_by_SomeD)
  show ?thesis
  proof (cases "isTerminalRunStatus (rr_status r)")
    case True
    then show ?thesis using run Some refines_refl [OF ok] by (simp add: cancelRunWithinTransaction_def)
  next
    case False
    define att where "att = latest_attempt s (cn_run_id i)"
    define asg where "asg = (case att of None \<Rightarrow> None | Some t \<Rightarrow> assignmentForAttempt s (at_id t))"
    have "(\<exists>a. s' = request_cancel i a s) \<or> cancel_work i r att asg s = Inr (res, s')"
      using run False unfolding cancelRunWithinTransaction_def Some option.case Let_def
        att_def [symmetric] asg_def [symmetric]
      by (auto split: option.splits if_splits)
    then show ?thesis
      using request_cancel_refines [OF store_okD(1) [OF ok]]
        cancel_work_refines [OF _ ok r False att_def asg_def] by blast
  qed
qed

lemma terminate_body_refines:
  assumes run: "terminate_body i s = Inr (n, s')" and ok: "store_ok s"
  shows "refines s s'"
proof -
  note lk = store_okD(1) [OF ok]
  obtain b where b: "find_batch s (tb_batch_id i) = Some b"
    using run by (auto simp: terminate_body_def and_then_eq_Inr found_eq_Inr)
  show ?thesis
  proof (cases "isTerminalBatchStatus (bt_status b)")
    case True
    then show ?thesis using run b refines_refl [OF ok] by (simp add: terminate_body_def)
  next
    case False
    obtain s1 where s1: "request_termination i b s = Inr s1"
      and up: "\<exists>st. updateBatchStatus (tb_batch_id i) (tb_requested_at i) (tb_event_id i)
          ''batch.termination_requested''
          (snd (terminateWaitingRuns (tb_batch_id i) (tb_reason i) (tb_requested_at i)
            (cancel_recoveries (tb_batch_id i) (tb_requested_at i) s1))) = Inr (st, s')"
      using run b False by (auto simp: terminate_body_def and_then_eq_Inr Let_def case_prod_beta)
    have "same_shape s s1 \<and> abs_store s1 = abs_store s"
      using s1 by (auto simp: request_termination_def Let_def same_shape_update abs_store_def
          split: if_splits)
    then have r1: "refines s s1" using refines_same [OF lk] by blast
    have r2: "refines s1 (cancel_recoveries (tb_batch_id i) (tb_requested_at i) s1)"
      by (rule other_tables_refines [OF refines_linked [OF r1]]) (simp_all add: cancel_recoveries_def)
    note r12 = refines_trans [OF r1 r2]
    note r3 = refines_trans [OF r12 terminate_refines [OF refines_ok [OF ok r12]]]
    show ?thesis using up updateBatch_after [OF r3 ok] by blast
  qed
qed

lemma change_scheduling_refines:
  assumes run: "change_scheduling_body i s = Inr (res, s')" and ok: "store_ok s"
  shows "refines s s'"
proof -
  note lk = store_okD(1) [OF ok]
  have r1: "refines s (set_pause i s)"
    by (rule refines_same [OF lk]) (simp_all add: set_pause_def same_shape_update abs_store_def)
  have rec: "refines s s2" if "refines s s1" "record_scheduling_change i s1 = Inr s2" for s1 s2
  proof -
    have "s2 = s1 \<or> (\<exists>rows. s2 = s1\<lparr>st_batch_events := rows\<rparr>)"
      using that(2) by (auto simp: record_scheduling_change_def insert_batch_event_def and_then_eq_Inr
          split: option.splits)
    then have "refines s1 s2"
      using refines_refl [OF refines_ok [OF ok that(1)]] other_tables_refines [OF refines_linked [OF that(1)]]
      by auto
    with that(1) show ?thesis by (rule refines_trans)
  qed
  have "s' = s \<or> record_scheduling_change i (set_pause i s) = Inr s' \<or>
    (\<exists>st s1. updateBatchStatus (sg_batch_id i) (sg_requested_at i) (sg_event_id i @ '':state'')
        ''batch.scheduling_resumed'' (set_pause i s) = Inr (st, s1) \<and>
      record_scheduling_change i s1 = Inr s')"
    using run by (auto simp: change_scheduling_body_def and_then_eq_Inr split: if_splits)
  then show ?thesis
    using refines_refl [OF ok] rec [OF r1] rec [OF updateBatch_after [OF r1 ok]] by blast
qed

end
