(* ===== verification/Runner.thy ===== *)
theory Runner
  imports Run_Types
begin

text \<open>
  Runners: \<open>packages/domain/src/runner.ts\<close>, \<open>packages/domain/src/runner-compatibility.ts\<close> and the
  mapping of a stored row (\<open>packages/db/src/runner-mapper.ts\<close>). The regular expressions of the
  source are written as functions on strings; \<open>Number\<close> of a version part that is not a digit
  sequence is \<open>NaN\<close>.
\<close>

datatype runner_state = Online | Offline | Draining | Disabled

record disk_snapshot =
  dk_path :: string
  dk_total_bytes :: rat
  dk_available_bytes :: rat

record resource_snapshot =
  rs_disk :: "disk_snapshot option"
  rs_cpu_percent :: rat
  rs_memory_percent :: rat
  rs_memory_total :: "rat option"
  rs_memory_available :: "rat option"
  rs_memory_credit :: "rat option"
  rs_load_average :: rat
  rs_logical_cpus :: rat
  rs_observed_at :: time

record runner =
  rn_id :: ident
  rn_name :: string
  rn_state :: runner_state
  rn_os :: string
  rn_architecture :: string
  rn_agent_version :: string
  rn_protocol_version :: int
  rn_labels :: "string list"
  rn_capabilities :: "string list"
  rn_max_concurrency :: int
  rn_busy_slots :: int
  rn_last_seen_at :: time
  rn_resources :: "resource_snapshot option"
  rn_terminal_enabled :: bool
  rn_credential_version :: int
  rn_credential_revoked_at :: "time option"
  rn_credential_rotation_requested_at :: "time option"
  rn_deregistered_at :: "time option"
  rn_purged_at :: "time option"
  rn_created_at :: time
  rn_updated_at :: time

datatype authentication_block = Deregistered | Credential_Revoked | Block_Disabled

definition runnerAuthenticationBlock :: "runner \<Rightarrow> authentication_block option" where
  "runnerAuthenticationBlock r =
     (if rn_purged_at r \<noteq> None then Some Deregistered
      else if rn_deregistered_at r \<noteq> None then Some Deregistered
      else if rn_credential_revoked_at r \<noteq> None then Some Credential_Revoked
      else if rn_state r = Disabled then Some Block_Disabled
      else None)"

subsection \<open>Versions\<close>

definition CURRENT_RUNNER_PROTOCOL_VERSION :: int where
  "CURRENT_RUNNER_PROTOCOL_VERSION = 1"

definition MINIMUM_JAVA_MAJOR_VERSION :: int where
  "MINIMUM_JAVA_MAJOR_VERSION = 11"

definition SUPPORTED_TESTNG_VERSION :: string where
  "SUPPORTED_TESTNG_VERSION = ''7.11.0''"

definition COTEST_ADAPTER_CAPABILITY :: string where
  "COTEST_ADAPTER_CAPABILITY = ''adapter:cotest-testng-v1''"

definition DDT_CASE_ID_CAPABILITY :: string where
  "DDT_CASE_ID_CAPABILITY = ''adapter:ddt-case-id-v1''"

definition DDT_INSIGHT_URL_CAPABILITY :: string where
  "DDT_INSIGHT_URL_CAPABILITY = ''adapter:ddt-insight-url-v1''"

definition PROJECT_RUNTIME_ASSETS_CAPABILITY :: string where
  "PROJECT_RUNTIME_ASSETS_CAPABILITY = ''runtime:project-assets-v1''"

definition REQUIRED_EXECUTION_CAPABILITIES :: "string list" where
  "REQUIRED_EXECUTION_CAPABILITIES = [''executor:testng-v1'', ''testng:'' @ SUPPORTED_TESTNG_VERSION]"

definition REQUIRED_EXECUTION_LABELS :: "string list" where
  "REQUIRED_EXECUTION_LABELS = [''java'', ''testng'']"

definition is_digit :: "char \<Rightarrow> bool" where
  "is_digit c \<longleftrightarrow> 48 \<le> (of_char c :: nat) \<and> (of_char c :: nat) \<le> 57"

definition is_segment_char :: "char \<Rightarrow> bool" where
  "is_segment_char c \<longleftrightarrow>
     is_digit c \<or> (65 \<le> (of_char c :: nat) \<and> (of_char c :: nat) \<le> 90)
     \<or> (97 \<le> (of_char c :: nat) \<and> (of_char c :: nat) \<le> 122) \<or> c = CHR ''.'' \<or> c = CHR ''-''"

text \<open>One or more characters of a class, as many as there are.\<close>

definition take_class :: "(char \<Rightarrow> bool) \<Rightarrow> string \<Rightarrow> (string \<times> string) option" where
  "take_class P s =
     (if takeWhile P s = [] then None else Some (takeWhile P s, dropWhile P s))"

definition take_char :: "char \<Rightarrow> string \<Rightarrow> string option" where
  "take_char c s = (case s of [] \<Rightarrow> None | x # xs \<Rightarrow> if x = c then Some xs else None)"

text \<open>An optional segment behind a mark; the mark without a segment does not match.\<close>

definition take_segment :: "char \<Rightarrow> string \<Rightarrow> string option" where
  "take_segment mark s =
     (case take_char mark s of
        None \<Rightarrow> Some s
      | Some rest \<Rightarrow> map_option snd (take_class is_segment_char rest))"

text \<open>\<open>semanticVersionPattern.test\<close>\<close>

definition semantic_version :: "string \<Rightarrow> bool" where
  "semantic_version s =
     (Option.bind (take_class is_digit s) (\<lambda>(_, s1).
      Option.bind (take_char CHR ''.'' s1) (\<lambda>s2.
      Option.bind (take_class is_digit s2) (\<lambda>(_, s3).
      Option.bind (take_char CHR ''.'' s3) (\<lambda>s4.
      Option.bind (take_class is_digit s4) (\<lambda>(_, s5).
      Option.bind (take_segment CHR ''-'' s5) (take_segment CHR ''+'')))))) = Some [])"

text \<open>\<open>String.prototype.split\<close> by one character.\<close>

fun split_char :: "char \<Rightarrow> string \<Rightarrow> string list" where
  "split_char c [] = [[]]"
| "split_char c (x # xs) =
     (if x = c then [] # split_char c xs
      else (case split_char c xs of [] \<Rightarrow> [[x]] | p # ps \<Rightarrow> (x # p) # ps))"

definition digits_value :: "string \<Rightarrow> nat" where
  "digits_value s = foldl (\<lambda>n c. 10 * n + (of_char c - 48)) 0 s"

definition js_number_of :: "string \<Rightarrow> js_number" where
  "js_number_of s = (if s \<noteq> [] \<and> list_all is_digit s then js_int (int (digits_value s)) else JNaN)"

text \<open>\<open>split("-", 2)\<close> keeps the first two parts, also when there are more.\<close>

definition parseAgentVersion :: "string \<Rightarrow> (js_number list \<times> string option) option" where
  "parseAgentVersion version =
     (if \<not> semantic_version version then None
      else
        let parts = split_char CHR ''-'' version
        in Some (map js_number_of (split_char CHR ''.'' (hd parts)),
                 if length parts < 2 then None else Some (parts ! 1)))"

text \<open>\<open>!==\<close> on numbers: \<open>NaN\<close> differs from everything, itself included.\<close>

definition js_differs :: "js_number \<Rightarrow> js_number \<Rightarrow> bool" where
  "js_differs a b \<longleftrightarrow> a = JNaN \<or> b = JNaN \<or> a \<noteq> b"

fun first_difference :: "(js_number \<times> js_number) list \<Rightarrow> bool option" where
  "first_difference [] = None"
| "first_difference ((a, b) # rest) =
     (if js_differs a b then Some (js_less a b) else first_difference rest)"

definition isAgentUpdateAvailable :: "string \<Rightarrow> string \<Rightarrow> bool" where
  "isAgentUpdateAvailable currentVersion latestVersion =
     (case (parseAgentVersion currentVersion, parseAgentVersion latestVersion) of
        (Some (current, currentPre), Some (latest, latestPre)) \<Rightarrow>
          (case first_difference (take 3 (zip current latest)) of
             Some before \<Rightarrow> before
           | None \<Rightarrow> currentPre \<noteq> None \<and> latestPre = None)
      | _ \<Rightarrow> False)"

text \<open>\<open>version.match(/\d+/g)\<close>: the maximal digit sequences.\<close>

function digit_runs :: "string \<Rightarrow> string list" where
  "digit_runs [] = []"
| "digit_runs (c # cs) =
     (if is_digit c then takeWhile is_digit (c # cs) # digit_runs (dropWhile is_digit cs)
      else digit_runs cs)"
  by pat_completeness auto
termination
  by (relation "measure length") (auto simp: length_dropWhile_le less_Suc_eq_le)

definition javaMajorVersion :: "string \<Rightarrow> nat option" where
  "javaMajorVersion version =
     (case map digits_value (digit_runs version) of
        [] \<Rightarrow> None
      | [n] \<Rightarrow> Some n
      | n # m # _ \<Rightarrow> Some (if n = 1 then m else n))"

definition capabilityVersion :: "string list \<Rightarrow> string \<Rightarrow> string option" where
  "capabilityVersion capabilities prefix =
     (case sort (map (drop (length prefix))
             (filter (\<lambda>c. has_prefix prefix c \<and> length prefix < length c) capabilities)) of
        [] \<Rightarrow> None
      | v # _ \<Rightarrow> Some v)"

subsection \<open>Compatibility\<close>

datatype compatibility_issue =
    Protocol_Unsupported
  | Platform_Unsupported
  | TestNg_Executor_Missing
  | Resource_Isolation_Missing
  | Java_Version_Unknown
  | Java_Version_Unsupported
  | TestNg_Version_Unknown
  | TestNg_Version_Unsupported
  | Agent_Version_Unversioned

datatype compatibility_status = Compatible | Attention | Incompatible

record runner_compatibility =
  rk_compatible :: bool
  rk_status :: compatibility_status
  rk_issues :: "compatibility_issue list"
  rk_java_version :: "string option"
  rk_testng_version :: "string option"

definition accepts_project_runtime :: "string list \<Rightarrow> bool" where
  "accepts_project_runtime capabilities \<longleftrightarrow>
     COTEST_ADAPTER_CAPABILITY \<in> set capabilities
     \<and> PROJECT_RUNTIME_ASSETS_CAPABILITY \<in> set capabilities"

definition supported_platform :: "string \<Rightarrow> string \<Rightarrow> bool" where
  "supported_platform os architecture \<longleftrightarrow>
     to_lower os @ ''/'' @ to_lower architecture \<in> {''linux/amd64'', ''linux/arm64''}"

definition java_issues :: "string option \<Rightarrow> compatibility_issue list" where
  "java_issues version =
     (case version of
        None \<Rightarrow> [Java_Version_Unknown]
      | Some v \<Rightarrow>
          if int (case javaMajorVersion v of None \<Rightarrow> 0 | Some n \<Rightarrow> n) < MINIMUM_JAVA_MAJOR_VERSION
            then [Java_Version_Unsupported] else [])"

definition testng_issues :: "string option \<Rightarrow> compatibility_issue list" where
  "testng_issues version =
     (case version of
        None \<Rightarrow> [TestNg_Version_Unknown]
      | Some v \<Rightarrow> if v \<noteq> SUPPORTED_TESTNG_VERSION then [TestNg_Version_Unsupported] else [])"

definition compatibility_issues :: "runner \<Rightarrow> compatibility_issue list" where
  "compatibility_issues r =
     (let capabilities = rn_capabilities r;
          project = accepts_project_runtime capabilities
      in (if rn_protocol_version r \<noteq> CURRENT_RUNNER_PROTOCOL_VERSION
            then [Protocol_Unsupported] else [])
         @ (if \<not> supported_platform (rn_os r) (rn_architecture r)
              then [Platform_Unsupported] else [])
         @ (if ''executor:testng-v1'' \<notin> set capabilities then [TestNg_Executor_Missing] else [])
         @ (if ''isolation:cgroup-v2'' \<notin> set capabilities
              then [Resource_Isolation_Missing] else [])
         @ (if project then [] else java_issues (capabilityVersion capabilities ''java:''))
         @ (if project then [] else testng_issues (capabilityVersion capabilities ''testng:''))
         @ (if \<not> semantic_version (rn_agent_version r) then [Agent_Version_Unversioned] else []))"

definition blocking_issue :: "compatibility_issue \<Rightarrow> bool" where
  "blocking_issue issue \<longleftrightarrow>
     issue \<in> {Protocol_Unsupported, Platform_Unsupported, TestNg_Executor_Missing,
       Java_Version_Unknown, Java_Version_Unsupported, TestNg_Version_Unknown,
       TestNg_Version_Unsupported}"

definition assessRunnerCompatibility :: "runner \<Rightarrow> runner_compatibility" where
  "assessRunnerCompatibility r =
     (let issues = compatibility_issues r;
          compatible = (\<not> list_ex blocking_issue issues)
      in \<lparr>rk_compatible = compatible,
          rk_status = (if compatible then (if issues = [] then Compatible else Attention)
                       else Incompatible),
          rk_issues = issues,
          rk_java_version = capabilityVersion (rn_capabilities r) ''java:'',
          rk_testng_version = capabilityVersion (rn_capabilities r) ''testng:''\<rparr>)"

subsection \<open>The stored row\<close>

record stored_runner =
  sr_id :: ident
  sr_name :: string
  sr_credential_version :: int
  sr_credential_revoked_at :: "time option"
  sr_credential_rotation_requested_at :: "time option"
  sr_deregistered_at :: "time option"
  sr_purged_at :: "time option"
  sr_disabled :: bool
  sr_draining :: bool
  sr_os :: string
  sr_architecture :: string
  sr_agent_version :: string
  sr_protocol_version :: int
  sr_labels :: "string list"
  sr_capabilities :: "string list"
  sr_max_concurrency :: int
  sr_busy_slots :: int
  sr_last_seen_at :: time
  sr_cpu_percent :: "rat option"
  sr_memory_percent :: "rat option"
  sr_memory_total :: "rat option"
  sr_memory_available :: "rat option"
  sr_memory_credit :: "rat option"
  sr_disk_path :: "string option"
  sr_disk_total :: "rat option"
  sr_disk_available :: "rat option"
  sr_load_average :: "rat option"
  sr_logical_cpus :: "rat option"
  sr_observed_at :: "time option"
  sr_terminal_enabled :: bool
  sr_created_at :: time
  sr_updated_at :: time

definition stored_disk :: "stored_runner \<Rightarrow> disk_snapshot option" where
  "stored_disk row =
     (case (sr_disk_path row, sr_disk_total row, sr_disk_available row) of
        (Some p, Some t, Some a) \<Rightarrow>
          Some \<lparr>dk_path = p, dk_total_bytes = t, dk_available_bytes = a\<rparr>
      | _ \<Rightarrow> None)"

definition stored_snapshot :: "stored_runner \<Rightarrow> resource_snapshot option" where
  "stored_snapshot row =
     (case (sr_cpu_percent row, sr_memory_percent row, sr_load_average row,
            sr_logical_cpus row, sr_observed_at row) of
        (Some cpu, Some memory, Some load, Some cpus, Some observed) \<Rightarrow>
          let both = (sr_memory_total row \<noteq> None \<and> sr_memory_available row \<noteq> None)
          in Some \<lparr>rs_disk = stored_disk row, rs_cpu_percent = cpu, rs_memory_percent = memory,
                   rs_memory_total = (if both then sr_memory_total row else None),
                   rs_memory_available = (if both then sr_memory_available row else None),
                   rs_memory_credit = (if both then sr_memory_credit row else None),
                   rs_load_average = load, rs_logical_cpus = cpus, rs_observed_at = observed\<rparr>
      | _ \<Rightarrow> None)"

definition stored_state :: "stored_runner \<Rightarrow> time option \<Rightarrow> runner_state" where
  "stored_state row offlineBefore =
     (if sr_disabled row then Disabled
      else if sr_draining row then Draining
      else (case offlineBefore of
          None \<Rightarrow> Online
        | Some t \<Rightarrow> if sr_last_seen_at row < t then Offline else Online))"

definition mapStoredRunner :: "stored_runner \<Rightarrow> time option \<Rightarrow> runner" where
  "mapStoredRunner row offlineBefore =
     \<lparr>rn_id = sr_id row, rn_name = sr_name row, rn_state = stored_state row offlineBefore,
      rn_os = sr_os row, rn_architecture = sr_architecture row,
      rn_agent_version = sr_agent_version row, rn_protocol_version = sr_protocol_version row,
      rn_labels = sr_labels row, rn_capabilities = sr_capabilities row,
      rn_max_concurrency = sr_max_concurrency row, rn_busy_slots = sr_busy_slots row,
      rn_last_seen_at = sr_last_seen_at row, rn_resources = stored_snapshot row,
      rn_terminal_enabled = sr_terminal_enabled row,
      rn_credential_version = sr_credential_version row,
      rn_credential_revoked_at = sr_credential_revoked_at row,
      rn_credential_rotation_requested_at = sr_credential_rotation_requested_at row,
      rn_deregistered_at = sr_deregistered_at row, rn_purged_at = sr_purged_at row,
      rn_created_at = sr_created_at row, rn_updated_at = sr_updated_at row\<rparr>"

subsection \<open>Lemmas\<close>

lemma compatible_iff:
  "rk_compatible (assessRunnerCompatibility r) \<longleftrightarrow>
     (\<forall>i\<in>set (compatibility_issues r). \<not> blocking_issue i)"
  by (auto simp: assessRunnerCompatibility_def Let_def list_ex_iff)

lemma java_issues_blocking: "i \<in> set (java_issues v) \<Longrightarrow> blocking_issue i"
  by (auto simp: java_issues_def blocking_issue_def split: option.splits if_splits)

lemma testng_issues_blocking: "i \<in> set (testng_issues v) \<Longrightarrow> blocking_issue i"
  by (auto simp: testng_issues_def blocking_issue_def split: option.splits if_splits)

text \<open>Which runner may be given work, without the list of issues.\<close>

definition may_execute :: "runner \<Rightarrow> bool" where
  "may_execute r \<longleftrightarrow>
     rn_protocol_version r = CURRENT_RUNNER_PROTOCOL_VERSION \<and>
     supported_platform (rn_os r) (rn_architecture r) \<and>
     ''executor:testng-v1'' \<in> set (rn_capabilities r) \<and>
     (accepts_project_runtime (rn_capabilities r) \<or>
      java_issues (capabilityVersion (rn_capabilities r) ''java:'') = [] \<and>
      testng_issues (capabilityVersion (rn_capabilities r) ''testng:'') = [])"

lemma compatible_may_execute: "rk_compatible (assessRunnerCompatibility r) \<longleftrightarrow> may_execute r"
proof -
  have empty: "(\<forall>i\<in>set (java_issues v). \<not> blocking_issue i) \<longleftrightarrow> java_issues v = []"
    "(\<forall>i\<in>set (testng_issues v). \<not> blocking_issue i) \<longleftrightarrow> testng_issues v = []" for v
    using java_issues_blocking testng_issues_blocking
    by (metis empty_iff list.set_intros(1) neq_Nil_conv set_empty)+
  show ?thesis
    unfolding compatible_iff compatibility_issues_def may_execute_def Let_def set_append ball_Un
    by (auto simp: empty) (simp_all add: blocking_issue_def)
qed

text \<open>The smallest version of several wins, in string order.\<close>

lemma capabilityVersion_Some:
  assumes "capabilityVersion cs p = Some v"
  shows "p @ v \<in> set cs \<and> v \<noteq> []"
proof -
  let ?vs = "map (drop (length p)) (filter (\<lambda>c. has_prefix p c \<and> length p < length c) cs)"
  have "v \<in> set (sort ?vs)"
    using assms by (cases "sort ?vs") (auto simp: capabilityVersion_def)
  then obtain c where "c \<in> set cs" "has_prefix p c" "length p < length c" "v = drop (length p) c"
    by auto
  then show ?thesis by (metis append_take_drop_id drop_eq_Nil has_prefix_def leD)
qed

text \<open>No two versions are each an update of the other.\<close>

lemma js_less_asym: "js_less a b \<Longrightarrow> \<not> js_less b a"
  by (cases a; cases b) auto

lemma first_difference_swap:
  "first_difference (zip as bs) = Some True \<Longrightarrow> first_difference (zip bs as) = Some False"
proof (induction as bs rule: list_induct2')
  case (4 a as b bs)
  then show ?case using js_less_asym [of a b] by (auto simp: js_differs_def split: if_splits)
qed simp_all

lemma first_difference_swap_None:
  "first_difference (zip as bs) = None \<Longrightarrow> first_difference (zip bs as) = None"
  by (induction as bs rule: list_induct2') (auto simp: js_differs_def split: if_splits)

lemma agent_update_asym:
  assumes "isAgentUpdateAvailable a b"
  shows "\<not> isAgentUpdateAvailable b a"
proof -
  obtain as ap bs bp where p: "parseAgentVersion a = Some (as, ap)" "parseAgentVersion b = Some (bs, bp)"
    using assms by (auto simp: isAgentUpdateAvailable_def split: option.splits)
  have z: "take 3 (zip xs ys) = zip (take 3 xs) (take 3 ys)" for xs ys :: "js_number list"
    by (rule take_zip)
  show ?thesis
  proof (cases "first_difference (take 3 (zip as bs))")
    case None
    then have "first_difference (take 3 (zip bs as)) = None"
      unfolding z by (rule first_difference_swap_None)
    then show ?thesis using assms None by (auto simp: isAgentUpdateAvailable_def p)
  next
    case (Some v)
    then have "first_difference (take 3 (zip as bs)) = Some True"
      using assms by (simp add: isAgentUpdateAvailable_def p)
    then have "first_difference (take 3 (zip bs as)) = Some False"
      unfolding z by (rule first_difference_swap)
    then show ?thesis by (simp add: isAgentUpdateAvailable_def p)
  qed
qed

end
