(* ===== verification/Scheduler.thy ===== *)
theory Scheduler
  imports Runner "HOL-Library.Product_Lexorder" "HOL-Library.Multiset" "HOL-Library.Sublist"
begin

text \<open>
  The pure scheduler, \<open>packages/domain/src/scheduler.ts\<close>: the admission of a runner with its block
  reasons and score, the choice of a runner for a run (best candidate with fallback, round robin on
  a retry) and the loop that plans a round. A candidate that is selected is updated in place in the
  source; here the plan threads the list of candidates and a selection is an index into it.
  \<open>localeCompare\<close> is applied to runner identifiers only and is the order of their characters; an
  infinite number of memory slots is \<open>None\<close>.
\<close>

datatype memory_admission_mode = Reserved | Threshold | Memory_Disabled

record scheduling_thresholds =
  th_memory_mode :: "memory_admission_mode option"
  th_cpu :: rat
  th_memory :: rat
  th_load :: rat

datatype block_reason =
    Runner_Not_Online
  | Runner_Incompatible
  | Metrics_Unavailable
  | Metrics_Stale
  | Capacity_Exhausted
  | Cpu_Limit_Exceeded
  | Memory_Limit_Exceeded
  | Memory_Reservation_Exhausted
  | Load_Limit_Exceeded

record candidate =
  cd_runner :: runner
  cd_reserved :: int
  cd_live :: "int option"

record evaluation =
  el_runner_id :: ident
  el_eligible :: bool
  el_reasons :: "block_reason list"
  el_available :: int
  el_load :: "rat option"
  el_score :: "rat option"

record decision =
  dc_run_id :: ident
  dc_runner_id :: ident
  dc_score :: rat

record scheduling_plan =
  pl_decisions :: "decision list"
  pl_evaluations :: "evaluation list"
  pl_unassigned :: "ident list"

definition EXECUTION_MEMORY_BYTES :: int where
  "EXECUTION_MEMORY_BYTES = 2147483648"

definition rounded :: "rat \<Rightarrow> rat" where
  "rounded v = of_int (js_round (v * 1000)) / 1000"

definition headroom :: "rat \<Rightarrow> rat \<Rightarrow> rat" where
  "headroom v maximum = max 0 (min 1 ((maximum - v) / maximum))"

definition liveOccupiedRunnerSlots :: "candidate \<Rightarrow> int" where
  "liveOccupiedRunnerSlots c =
     (case cd_live c of
        None \<Rightarrow> rn_busy_slots (cd_runner c)
      | Some live \<Rightarrow> rn_max_concurrency (cd_runner c)
          - min (rn_max_concurrency (cd_runner c)) (max 0 live))"

definition occupiedRunnerSlots :: "candidate \<Rightarrow> int" where
  "occupiedRunnerSlots c = max (liveOccupiedRunnerSlots c) (cd_reserved c)"

subsection \<open>Memory admission\<close>

record memory_budget =
  mb_system_reserve :: rat
  mb_execution_credit :: rat
  mb_reserved_growth :: rat
  mb_available :: rat

definition is_safe_integer :: "rat \<Rightarrow> bool" where
  "is_safe_integer q \<longleftrightarrow> of_int \<lfloor>q\<rfloor> = q \<and> \<bar>q\<bar> \<le> 9007199254740991"

definition memory_report_valid :: "rat option \<Rightarrow> rat option \<Rightarrow> rat \<Rightarrow> bool" where
  "memory_report_valid physical available credit =
     (case (physical, available) of
        (Some t, Some a) \<Rightarrow>
          is_safe_integer t \<and> 0 < t \<and> is_safe_integer a \<and> 0 \<le> a \<and> a \<le> t \<and>
          is_safe_integer credit \<and> 0 \<le> credit \<and> credit \<le> t - a
      | _ \<Rightarrow> False)"

definition runnerMemoryBudget :: "candidate \<Rightarrow> scheduling_thresholds \<Rightarrow> memory_budget option" where
  "runnerMemoryBudget c th =
     (if th_memory_mode th = Some Threshold \<or> th_memory_mode th = Some Memory_Disabled then None
      else
        let metrics = rn_resources (cd_runner c);
            physical = Option.bind metrics rs_memory_total;
            available = Option.bind metrics rs_memory_available;
            committed = of_int (occupiedRunnerSlots c * EXECUTION_MEMORY_BYTES);
            reported = (case Option.bind metrics rs_memory_credit of None \<Rightarrow> 0 | Some v \<Rightarrow> v)
        in if physical = None \<and> available = None then None
           else if \<not> memory_report_valid physical available reported
             then Some \<lparr>mb_system_reserve = 0, mb_execution_credit = 0,
                        mb_reserved_growth = committed, mb_available = 0\<rparr>
           else
             let reserve = of_int \<lceil>the physical * (1 - th_memory th / 100)\<rceil>;
                 credit = min reported (min committed
                   (of_int (liveOccupiedRunnerSlots c * EXECUTION_MEMORY_BYTES)));
                 growth = committed - credit
             in Some \<lparr>mb_system_reserve = reserve, mb_execution_credit = credit,
                      mb_reserved_growth = growth,
                      mb_available = max 0 (the available - reserve - growth)\<rparr>)"

definition availableMemorySlots :: "candidate \<Rightarrow> scheduling_thresholds \<Rightarrow> int option" where
  "availableMemorySlots c th =
     map_option (\<lambda>b. max 0 \<lfloor>mb_available b / of_int EXECUTION_MEMORY_BYTES\<rfloor>)
       (runnerMemoryBudget c th)"

definition min_slots :: "int \<Rightarrow> int option \<Rightarrow> int" where
  "min_slots n slots = (case slots of None \<Rightarrow> n | Some m \<Rightarrow> min n m)"

record capacity_explanation =
  ce_concurrency_slots :: int
  ce_memory_slots :: "int option"
  ce_memory_per_attempt :: int
  ce_system_reserve :: "rat option"
  ce_execution_credit :: "rat option"
  ce_reserved_growth :: "rat option"

definition explainRunnerSchedulingCapacity ::
  "candidate \<Rightarrow> scheduling_thresholds \<Rightarrow> capacity_explanation" where
  "explainRunnerSchedulingCapacity c th =
     (let budget = runnerMemoryBudget c th
      in \<lparr>ce_concurrency_slots =
            max 0 (rn_max_concurrency (cd_runner c) - occupiedRunnerSlots c),
          ce_memory_slots = availableMemorySlots c th,
          ce_memory_per_attempt = EXECUTION_MEMORY_BYTES,
          ce_system_reserve = map_option mb_system_reserve budget,
          ce_execution_credit = map_option mb_execution_credit budget,
          ce_reserved_growth = map_option mb_reserved_growth budget\<rparr>)"

subsection \<open>Admission and score\<close>

definition schedulingScore :: "candidate \<Rightarrow> scheduling_thresholds \<Rightarrow> rat \<Rightarrow> rat" where
  "schedulingScore c th loadPerCpu =
     (case rn_resources (cd_runner c) of
        None \<Rightarrow> 0
      | Some m \<Rightarrow>
          let maximum = rn_max_concurrency (cd_runner c);
              capacity = of_int (min_slots (maximum - occupiedRunnerSlots c)
                           (availableMemorySlots c th)) / of_int maximum;
              cpu = headroom (rs_cpu_percent m) (th_cpu th);
              memory = (if th_memory_mode th = Some Memory_Disabled then 1
                        else headroom (rs_memory_percent m) (th_memory th));
              load = headroom loadPerCpu (th_load th)
          in rounded (100 * (4 / 10 * capacity + 25 / 100 * cpu + 2 / 10 * memory
               + 15 / 100 * load)))"

definition slot_reasons :: "candidate \<Rightarrow> scheduling_thresholds \<Rightarrow> block_reason list" where
  "slot_reasons c th =
     (if rn_state (cd_runner c) \<noteq> Online then [Runner_Not_Online] else [])
     @ (if \<not> rk_compatible (assessRunnerCompatibility (cd_runner c))
          then [Runner_Incompatible] else [])
     @ (if max 0 (rn_max_concurrency (cd_runner c) - occupiedRunnerSlots c) = 0
          then [Capacity_Exhausted] else [])
     @ (if availableMemorySlots c th = Some 0 then [Memory_Reservation_Exhausted] else [])"

definition metric_reasons ::
  "resource_snapshot \<Rightarrow> scheduling_thresholds \<Rightarrow> time \<Rightarrow> block_reason list" where
  "metric_reasons m th freshAfter =
     (if rs_observed_at m < freshAfter then [Metrics_Stale] else [])
     @ (if rs_cpu_percent m > th_cpu th then [Cpu_Limit_Exceeded] else [])
     @ (if th_memory_mode th \<noteq> Some Memory_Disabled \<and> rs_memory_percent m > th_memory th
          then [Memory_Limit_Exceeded] else [])
     @ (if rs_load_average m / rs_logical_cpus m > th_load th then [Load_Limit_Exceeded] else [])"

definition evaluateRunnerForScheduling ::
  "candidate \<Rightarrow> scheduling_thresholds \<Rightarrow> time \<Rightarrow> evaluation" where
  "evaluateRunnerForScheduling c th freshAfter =
     (let slots = min_slots (max 0 (rn_max_concurrency (cd_runner c) - occupiedRunnerSlots c))
            (availableMemorySlots c th);
          early = slot_reasons c th
      in case rn_resources (cd_runner c) of
           None \<Rightarrow>
             \<lparr>el_runner_id = rn_id (cd_runner c), el_eligible = False,
              el_reasons = early @ [Metrics_Unavailable], el_available = slots,
              el_load = None, el_score = None\<rparr>
         | Some m \<Rightarrow>
             let reasons = early @ metric_reasons m th freshAfter;
                 loadPerCpu = rs_load_average m / rs_logical_cpus m
             in if reasons \<noteq> []
                  then \<lparr>el_runner_id = rn_id (cd_runner c), el_eligible = False,
                        el_reasons = reasons, el_available = slots,
                        el_load = Some (rounded loadPerCpu), el_score = None\<rparr>
                else \<lparr>el_runner_id = rn_id (cd_runner c), el_eligible = True,
                      el_reasons = [], el_available = slots,
                      el_load = Some (rounded loadPerCpu),
                      el_score = Some (schedulingScore c th loadPerCpu)\<rparr>)"

subsection \<open>Choosing a runner\<close>

text \<open>A pool entry: the index of the candidate, the candidate and its score.\<close>

type_synonym pool = "(nat \<times> candidate \<times> rat) list"

definition eligible_pool ::
  "scheduling_thresholds \<Rightarrow> time \<Rightarrow> (nat \<times> candidate) list \<Rightarrow> pool" where
  "eligible_pool th freshAfter ics =
     List.map_filter
       (\<lambda>(i, c). let e = evaluateRunnerForScheduling c th freshAfter
                 in if el_eligible e then map_option (\<lambda>s. (i, c, s)) (el_score e) else None)
       ics"

definition pool_id :: "nat \<times> candidate \<times> rat \<Rightarrow> ident" where
  "pool_id x = rn_id (cd_runner (fst (snd x)))"

definition first_of :: "pool \<Rightarrow> (nat \<times> rat) option" where
  "first_of p = (case p of [] \<Rightarrow> None | (i, c, s) # _ \<Rightarrow> Some (i, s))"

definition best_key :: "nat \<times> candidate \<times> rat \<Rightarrow> int \<times> rat \<times> ident" where
  "best_key x = (occupiedRunnerSlots (fst (snd x)), - snd (snd x), pool_id x)"

definition bestCandidate ::
  "(nat \<times> candidate) list \<Rightarrow> scheduling_thresholds \<Rightarrow> time \<Rightarrow> (nat \<times> rat) option" where
  "bestCandidate ics th freshAfter = first_of (sort_key best_key (eligible_pool th freshAfter ics))"

definition not_excluded :: "ident list option \<Rightarrow> nat \<times> candidate \<Rightarrow> bool" where
  "not_excluded excluded ic \<longleftrightarrow>
     (case excluded of None \<Rightarrow> True | Some ids \<Rightarrow> rn_id (cd_runner (snd ic)) \<notin> set ids)"

definition bestCandidateWithFallback ::
  "(nat \<times> candidate) list \<Rightarrow> ident list option \<Rightarrow> scheduling_thresholds \<Rightarrow> time \<Rightarrow>
   (nat \<times> rat) option" where
  "bestCandidateWithFallback ics excluded th freshAfter =
     (case bestCandidate (filter (not_excluded excluded) ics) th freshAfter of
        Some x \<Rightarrow> Some x
      | None \<Rightarrow> bestCandidate ics th freshAfter)"

text \<open>\<open>indexOf\<close>\<close>

fun js_index_of :: "'a list \<Rightarrow> 'a \<Rightarrow> int" where
  "js_index_of [] x = -1"
| "js_index_of (y # ys) x =
     (if y = x then 0 else let k = js_index_of ys x in if k < 0 then -1 else k + 1)"

definition cyclicDistance :: "ident list \<Rightarrow> int \<Rightarrow> ident \<Rightarrow> int" where
  "cyclicDistance ids start runnerId =
     (let index = js_index_of ids runnerId
      in if index \<ge> start then index - start else int (length ids) - start + index)"

definition retry_start :: "ident list \<Rightarrow> ident \<Rightarrow> int" where
  "retry_start ids previous =
     (let index = js_index_of ids previous
      in if index < 0 then 0 else (index + 1) mod int (length ids))"

definition roundRobinRetryCandidate ::
  "(nat \<times> candidate) list \<Rightarrow> ident \<Rightarrow> ident list option \<Rightarrow> scheduling_thresholds \<Rightarrow> time \<Rightarrow>
   (nat \<times> rat) option" where
  "roundRobinRetryCandidate ics previous excluded th freshAfter =
     (let eligible = eligible_pool th freshAfter ics;
          preferred = filter (\<lambda>(i, c, s). not_excluded excluded (i, c)) eligible;
          chosen = (if preferred \<noteq> [] then preferred else eligible);
          ids = sort (dedup (map (\<lambda>(i, c). rn_id (cd_runner c)) ics));
          start = retry_start ids previous
      in first_of
           (sort_key
              (\<lambda>x. (occupiedRunnerSlots (fst (snd x)), cyclicDistance ids start (pool_id x),
                    pool_id x))
              chosen))"

subsection \<open>The loop\<close>

record schedule_input =
  si_runs :: "execution_run list"
  si_candidates :: "candidate list"
  si_thresholds :: scheduling_thresholds
  si_fresh_after :: time
  si_excluded :: "(ident \<times> ident list) list"
  si_history :: "(ident \<times> ident list) list"
  si_max_assignments :: "int option"

definition select_candidate :: "schedule_input \<Rightarrow> ident \<Rightarrow> candidate list \<Rightarrow> (nat \<times> rat) option" where
  "select_candidate i runId cs =
     (let excluded = map_of (si_excluded i) runId;
          history = (case map_of (si_history i) runId of None \<Rightarrow> [] | Some h \<Rightarrow> h);
          ics = enumerate 0 cs
      in if history \<noteq> []
           then roundRobinRetryCandidate ics (last history) excluded (si_thresholds i)
             (si_fresh_after i)
         else bestCandidateWithFallback ics excluded (si_thresholds i) (si_fresh_after i))"

definition occupy :: "nat \<Rightarrow> candidate list \<Rightarrow> candidate list" where
  "occupy k cs = cs[k := (cs ! k)\<lparr>cd_reserved := occupiedRunnerSlots (cs ! k) + 1\<rparr>]"

definition assignments_left :: "schedule_input \<Rightarrow> nat \<Rightarrow> bool" where
  "assignments_left i n \<longleftrightarrow>
     (case si_max_assignments i of None \<Rightarrow> True | Some m \<Rightarrow> int n < m)"

fun schedule_loop ::
  "schedule_input \<Rightarrow> execution_run list \<Rightarrow> nat \<Rightarrow> candidate list \<Rightarrow>
   decision list \<times> ident list \<times> candidate list" where
  "schedule_loop i [] n cs = ([], [], cs)"
| "schedule_loop i (run # runs) n cs =
     (if \<not> assignments_left i n
        then let (ds, us, cs') = schedule_loop i runs n cs in (ds, er_id run # us, cs')
      else (case select_candidate i (er_id run) cs of
          None \<Rightarrow> let (ds, us, cs') = schedule_loop i runs n cs in (ds, er_id run # us, cs')
        | Some (k, score) \<Rightarrow>
            let (ds, us, cs') = schedule_loop i runs (n + 1) (occupy k cs)
            in (\<lparr>dc_run_id = er_id run, dc_runner_id = rn_id (cd_runner (cs ! k)),
                 dc_score = score\<rparr> # ds, us, cs')))"

definition scheduleExecutionRuns :: "schedule_input \<Rightarrow> scheduling_plan" where
  "scheduleExecutionRuns i =
     (let (ds, us, cs') = schedule_loop i (si_runs i) 0 (si_candidates i)
      in \<lparr>pl_decisions = ds,
          pl_evaluations = map (\<lambda>c. evaluateRunnerForScheduling c (si_thresholds i)
            (si_fresh_after i)) (si_candidates i),
          pl_unassigned = us\<rparr>)"

subsection \<open>Admission, as a condition\<close>

definition admitted :: "candidate \<Rightarrow> scheduling_thresholds \<Rightarrow> time \<Rightarrow> bool" where
  "admitted c th freshAfter \<longleftrightarrow>
     rn_state (cd_runner c) = Online \<and> may_execute (cd_runner c) \<and>
     occupiedRunnerSlots c < rn_max_concurrency (cd_runner c) \<and>
     availableMemorySlots c th \<noteq> Some 0 \<and>
     (case rn_resources (cd_runner c) of
        None \<Rightarrow> False
      | Some m \<Rightarrow>
          freshAfter \<le> rs_observed_at m \<and> rs_cpu_percent m \<le> th_cpu th \<and>
          (th_memory_mode th = Some Memory_Disabled \<or> rs_memory_percent m \<le> th_memory th) \<and>
          rs_load_average m / rs_logical_cpus m \<le> th_load th)"

lemma slot_reasons_Nil: "slot_reasons c th = [] \<longleftrightarrow>
    rn_state (cd_runner c) = Online \<and> may_execute (cd_runner c) \<and>
    occupiedRunnerSlots c < rn_max_concurrency (cd_runner c) \<and> availableMemorySlots c th \<noteq> Some 0"
  by (auto simp: slot_reasons_def compatible_may_execute)

lemma metric_reasons_Nil: "metric_reasons m th f = [] \<longleftrightarrow>
    f \<le> rs_observed_at m \<and> rs_cpu_percent m \<le> th_cpu th \<and>
    (th_memory_mode th = Some Memory_Disabled \<or> rs_memory_percent m \<le> th_memory th) \<and>
    rs_load_average m / rs_logical_cpus m \<le> th_load th"
  by (auto simp: metric_reasons_def)

lemma evaluate_admitted: "el_eligible (evaluateRunnerForScheduling c th f) \<longleftrightarrow> admitted c th f"
  by (simp add: evaluateRunnerForScheduling_def Let_def admitted_def slot_reasons_Nil
      metric_reasons_Nil split: option.split)

lemma evaluate_score:
  "el_score (evaluateRunnerForScheduling c th f) \<noteq> None \<longleftrightarrow> admitted c th f"
  unfolding evaluate_admitted [symmetric]
  by (simp add: evaluateRunnerForScheduling_def Let_def split: option.split)

lemma evaluate_reasons:
  "el_reasons (evaluateRunnerForScheduling c th f) = [] \<longleftrightarrow> admitted c th f"
  unfolding evaluate_admitted [symmetric]
  by (simp add: evaluateRunnerForScheduling_def Let_def split: option.split)

lemma evaluate_available:
  "el_available (evaluateRunnerForScheduling c th f) =
     min_slots (max 0 (rn_max_concurrency (cd_runner c) - occupiedRunnerSlots c))
       (availableMemorySlots c th)"
  by (simp add: evaluateRunnerForScheduling_def Let_def split: option.split)

lemma memory_slots_nonneg: "availableMemorySlots c th = Some n \<Longrightarrow> 0 \<le> n"
  by (auto simp: availableMemorySlots_def)

lemma admitted_slots: "admitted c th f \<Longrightarrow> 1 \<le> el_available (evaluateRunnerForScheduling c th f)"
  unfolding evaluate_available admitted_def min_slots_def
  using memory_slots_nonneg [of c th] by (fastforce split: option.split)

subsection \<open>Score\<close>

lemma headroom_bounds [simp]: "0 \<le> headroom v m" "headroom v m \<le> 1"
  by (simp_all add: headroom_def)

lemma rounded_mono: "a \<le> b \<Longrightarrow> rounded a \<le> rounded b"
  by (simp add: rounded_def js_round_mono divide_right_mono)

lemma rounded_0 [simp]: "rounded 0 = 0"
  by (simp add: rounded_def)

lemma rounded_100 [simp]: "rounded 100 = 100"
proof -
  have "js_round 100000 = 100000" using js_round_of_int [of 100000] by simp
  then show ?thesis by (simp add: rounded_def)
qed

lemma occupied_nonneg:
  "0 \<le> rn_busy_slots (cd_runner c) \<Longrightarrow> 0 \<le> occupiedRunnerSlots c"
  by (auto simp: occupiedRunnerSlots_def liveOccupiedRunnerSlots_def le_max_iff_disj split: option.split)

lemma weighted_bounds:
  fixes a b c d :: rat
  assumes "0 \<le> a" "a \<le> 1" "0 \<le> b" "b \<le> 1" "0 \<le> c" "c \<le> 1" "0 \<le> d" "d \<le> 1"
  shows "0 \<le> 100 * (4 / 10 * a + 25 / 100 * b + 2 / 10 * c + 15 / 100 * d) \<and>
    100 * (4 / 10 * a + 25 / 100 * b + 2 / 10 * c + 15 / 100 * d) \<le> 100"
  using assms by simp

lemma score_bounds:
  assumes "admitted c th f" "0 \<le> rn_busy_slots (cd_runner c)"
  shows "0 \<le> schedulingScore c th l" "schedulingScore c th l \<le> 100"
proof -
  let ?max = "rn_max_concurrency (cd_runner c)"
  let ?slots = "min_slots (?max - occupiedRunnerSlots c) (availableMemorySlots c th)"
  have occ: "0 \<le> occupiedRunnerSlots c" "occupiedRunnerSlots c < ?max"
    using occupied_nonneg assms by (auto simp: admitted_def)
  have "0 \<le> ?slots" "?slots \<le> ?max"
    using occ memory_slots_nonneg [of c th] by (auto simp: min_slots_def split: option.split)
  then have cap: "0 \<le> (of_int ?slots / of_int ?max :: rat)" "(of_int ?slots / of_int ?max :: rat) \<le> 1"
    using occ by (simp_all add: divide_le_eq_1)
  obtain m where m: "rn_resources (cd_runner c) = Some m"
    using assms(1) by (auto simp: admitted_def split: option.splits)
  define mem where "mem = (if th_memory_mode th = Some Memory_Disabled then 1
      else headroom (rs_memory_percent m) (th_memory th))"
  have mem: "0 \<le> mem" "mem \<le> 1" by (simp_all add: mem_def)
  have eq: "schedulingScore c th l = rounded (100 * (4 / 10 * (of_int ?slots / of_int ?max)
      + 25 / 100 * headroom (rs_cpu_percent m) (th_cpu th) + 2 / 10 * mem
      + 15 / 100 * headroom l (th_load th)))"
    by (simp add: schedulingScore_def m mem_def Let_def)
  note w = weighted_bounds [OF cap headroom_bounds [of "rs_cpu_percent m" "th_cpu th"] mem
      headroom_bounds [of l "th_load th"]]
  show "0 \<le> schedulingScore c th l"
    using rounded_mono [OF conjunct1 [OF w]] unfolding eq by simp
  show "schedulingScore c th l \<le> 100"
    using rounded_mono [OF conjunct2 [OF w]] unfolding eq by simp
qed

subsection \<open>Selections\<close>

lemma eligible_poolD:
  assumes "(i, c, s) \<in> set (eligible_pool th f ics)"
  shows "(i, c) \<in> set ics" "admitted c th f"
    "el_score (evaluateRunnerForScheduling c th f) = Some s"
  using assms unfolding evaluate_admitted [symmetric] eligible_pool_def
  by (auto simp: List.map_filter_def Let_def split: if_splits)

lemma eligible_poolI:
  assumes "(i, c) \<in> set ics" "admitted c th f"
  shows "\<exists>s. (i, c, s) \<in> set (eligible_pool th f ics)"
proof -
  obtain s where s: "el_score (evaluateRunnerForScheduling c th f) = Some s"
    using assms(2) evaluate_score [of c th f] by auto
  have "(i, c, s) \<in> set (eligible_pool th f ics)"
    using assms s unfolding evaluate_admitted [symmetric] eligible_pool_def
    by (force simp: List.map_filter_def Let_def)
  then show ?thesis ..
qed

lemma first_of_sorted:
  assumes "first_of (sort_key k p) = Some (i, s)"
  obtains c where "(i, c, s) \<in> set p" "\<And>y. y \<in> set p \<Longrightarrow> k (i, c, s) \<le> k y"
proof -
  obtain c rest where r: "sort_key k p = (i, c, s) # rest"
    using assms by (auto simp: first_of_def split: list.splits)
  have "(i, c, s) \<in> set p" using r by (metis list.set_intros(1) set_sort)
  moreover have "k (i, c, s) \<le> k y" if "y \<in> set p" for y
  proof -
    have "sorted (map k ((i, c, s) # rest))" using sorted_sort_key [of k p] r by simp
    moreover have "y \<in> set ((i, c, s) # rest)" using that r by (metis set_sort)
    ultimately show ?thesis by auto
  qed
  ultimately show thesis by (rule that)
qed

lemma first_of_None: "first_of (sort_key k p) = None \<longleftrightarrow> p = []"
proof -
  have "sort_key k p = [] \<longleftrightarrow> p = []" by (metis length_0_conv length_sort)
  then show ?thesis by (cases "sort_key k p") (auto simp: first_of_def)
qed

lemma eligible_pool_Nil: "eligible_pool th f ics = [] \<longleftrightarrow> (\<forall>(i, c)\<in>set ics. \<not> admitted c th f)"
proof
  assume e: "eligible_pool th f ics = []"
  have "\<not> admitted c th f" if "(i, c) \<in> set ics" for i c
    using eligible_poolI [OF that, of th f] e by auto
  then show "\<forall>(i, c)\<in>set ics. \<not> admitted c th f" by auto
next
  assume no: "\<forall>(i, c)\<in>set ics. \<not> admitted c th f"
  show "eligible_pool th f ics = []"
  proof (cases "eligible_pool th f ics")
    case (Cons x xs)
    obtain i c s where "x = (i, c, s)" by (cases x)
    then have "(i, c, s) \<in> set (eligible_pool th f ics)" using Cons by simp
    from eligible_poolD(1,2) [OF this] show ?thesis using no by auto
  qed simp
qed

lemma bestCandidate_Some:
  assumes "bestCandidate ics th f = Some (k, s)"
  obtains c where "(k, c) \<in> set ics" "admitted c th f"
    "el_score (evaluateRunnerForScheduling c th f) = Some s"
    "\<And>j d. (j, d) \<in> set ics \<Longrightarrow> admitted d th f \<Longrightarrow> occupiedRunnerSlots c \<le> occupiedRunnerSlots d"
proof -
  obtain c where c: "(k, c, s) \<in> set (eligible_pool th f ics)"
      and min: "\<And>y. y \<in> set (eligible_pool th f ics) \<Longrightarrow> best_key (k, c, s) \<le> best_key y"
    using first_of_sorted [OF assms [unfolded bestCandidate_def]] by metis
  have "occupiedRunnerSlots c \<le> occupiedRunnerSlots d"
    if d: "(j, d) \<in> set ics" "admitted d th f" for j d
  proof -
    obtain t where "(j, d, t) \<in> set (eligible_pool th f ics)" using eligible_poolI [OF d] ..
    from min [OF this] show ?thesis by (auto simp: best_key_def less_eq_prod_def)
  qed
  then show thesis using that eligible_poolD [OF c] by blast
qed

lemma bestCandidate_None:
  "bestCandidate ics th f = None \<longleftrightarrow> (\<forall>(i, c)\<in>set ics. \<not> admitted c th f)"
  by (simp add: bestCandidate_def first_of_None eligible_pool_Nil)

lemma in_enumerate: "(k, c) \<in> set (enumerate 0 cs) \<longleftrightarrow> k < length cs \<and> c = cs ! k"
  by (auto simp: in_set_enumerate_eq)

lemma in_enumerate_ex: "c \<in> set cs \<Longrightarrow> \<exists>k. (k, c) \<in> set (enumerate 0 cs)"
  unfolding in_enumerate by (metis in_set_conv_nth)

text \<open>What a selection is: an admitted candidate, an excluded one only when no other is admitted.\<close>

definition good_choice ::
  "schedule_input \<Rightarrow> ident \<Rightarrow> candidate list \<Rightarrow> nat \<Rightarrow> rat \<Rightarrow> bool" where
  "good_choice i runId cs k s \<longleftrightarrow>
     k < length cs \<and> admitted (cs ! k) (si_thresholds i) (si_fresh_after i) \<and>
     el_score (evaluateRunnerForScheduling (cs ! k) (si_thresholds i) (si_fresh_after i)) = Some s \<and>
     (\<forall>ids. map_of (si_excluded i) runId = Some ids \<longrightarrow> rn_id (cd_runner (cs ! k)) \<in> set ids \<longrightarrow>
        (\<forall>c\<in>set cs. admitted c (si_thresholds i) (si_fresh_after i) \<longrightarrow> rn_id (cd_runner c) \<in> set ids))"

lemma select_candidate_good:
  assumes "select_candidate i runId cs = Some (k, s)"
  shows "good_choice i runId cs k s"
proof -
  let ?th = "si_thresholds i" and ?f = "si_fresh_after i"
  let ?ex = "map_of (si_excluded i) runId" and ?ics = "enumerate 0 cs"
  consider (best) "bestCandidate (filter (not_excluded ?ex) ?ics) ?th ?f = Some (k, s)"
    | (fallback) "bestCandidate (filter (not_excluded ?ex) ?ics) ?th ?f = None"
        "bestCandidate ?ics ?th ?f = Some (k, s)"
    | (retry) p where "roundRobinRetryCandidate ?ics p ?ex ?th ?f = Some (k, s)"
    using assms by (auto simp: select_candidate_def Let_def bestCandidateWithFallback_def
        split: if_splits option.splits)
  then show ?thesis
  proof cases
    case best
    then obtain c where c: "(k, c) \<in> set (filter (not_excluded ?ex) ?ics)" "admitted c ?th ?f"
        "el_score (evaluateRunnerForScheduling c ?th ?f) = Some s"
      by (rule bestCandidate_Some)
    then show ?thesis by (auto simp: good_choice_def in_enumerate not_excluded_def split: option.splits)
  next
    case fallback
    from fallback(2) obtain c where c: "(k, c) \<in> set ?ics" "admitted c ?th ?f"
        "el_score (evaluateRunnerForScheduling c ?th ?f) = Some s"
      by (rule bestCandidate_Some)
    have "rn_id (cd_runner d) \<in> set ids" if "?ex = Some ids" "d \<in> set cs" "admitted d ?th ?f" for ids d
    proof -
      obtain j where "(j, d) \<in> set ?ics" using in_enumerate_ex [OF \<open>d \<in> set cs\<close>] ..
      then show ?thesis using fallback(1) that unfolding bestCandidate_None
        by (auto simp: not_excluded_def)
    qed
    then show ?thesis using c by (auto simp: good_choice_def in_enumerate)
  next
    case retry
    let ?el = "eligible_pool ?th ?f ?ics"
    let ?pref = "filter (\<lambda>(i, c, s). not_excluded ?ex (i, c)) ?el"
    obtain c where c: "(k, c, s) \<in> set (if ?pref \<noteq> [] then ?pref else ?el)"
      using first_of_sorted [OF retry [unfolded roundRobinRetryCandidate_def Let_def]] by metis
    then have el: "(k, c, s) \<in> set ?el" by (auto split: if_splits)
    note e = eligible_poolD [OF el]
    have "rn_id (cd_runner d) \<in> set ids"
      if "?ex = Some ids" "rn_id (cd_runner c) \<in> set ids" "d \<in> set cs" "admitted d ?th ?f" for ids d
    proof -
      obtain j where "(j, d) \<in> set ?ics" using in_enumerate_ex [OF \<open>d \<in> set cs\<close>] ..
      then obtain t where d: "(j, d, t) \<in> set ?el" using eligible_poolI \<open>admitted d ?th ?f\<close> by blast
      have "?pref = []" using c that(1,2) by (auto simp: not_excluded_def split: if_splits)
      then have "\<forall>x\<in>set ?el. \<not> (case x of (i, c, s) \<Rightarrow> not_excluded ?ex (i, c))"
        by (simp add: filter_empty_conv)
      then show ?thesis using d that(1) by (auto simp: not_excluded_def)
    qed
    then show ?thesis using e by (auto simp: good_choice_def in_enumerate)
  qed
qed

lemma select_candidate_None:
  assumes "select_candidate i runId cs = None" "c \<in> set cs"
  shows "\<not> admitted c (si_thresholds i) (si_fresh_after i)"
proof -
  let ?th = "si_thresholds i" and ?f = "si_fresh_after i" and ?ics = "enumerate 0 cs"
  have "eligible_pool ?th ?f ?ics = []"
    using assms(1) by (auto simp: select_candidate_def Let_def bestCandidateWithFallback_def
        roundRobinRetryCandidate_def first_of_None bestCandidate_def split: if_splits option.splits)
  moreover obtain j where "(j, c) \<in> set ?ics" using in_enumerate_ex [OF assms(2)] ..
  ultimately show ?thesis by (auto simp: eligible_pool_Nil)
qed

subsection \<open>The plan\<close>

definition slots_of :: "candidate \<Rightarrow> scheduling_thresholds \<Rightarrow> int" where
  "slots_of c th = min_slots (max 0 (rn_max_concurrency (cd_runner c) - occupiedRunnerSlots c))
     (availableMemorySlots c th)"

lemma slots_nonneg: "0 \<le> slots_of c th"
  using memory_slots_nonneg [of c th] by (auto simp: slots_of_def min_slots_def split: option.split)

lemma admitted_slots_of: "admitted c th f \<Longrightarrow> 1 \<le> slots_of c th"
  using admitted_slots unfolding evaluate_available slots_of_def .

text \<open>One more assignment takes one slot, of the concurrency and of the memory.\<close>

abbreviation taken :: "candidate \<Rightarrow> candidate" where
  "taken c \<equiv> c\<lparr>cd_reserved := occupiedRunnerSlots c + 1\<rparr>"

lemma live_taken [simp]: "liveOccupiedRunnerSlots (taken c) = liveOccupiedRunnerSlots c"
  by (simp add: liveOccupiedRunnerSlots_def split: option.split)

lemma occupied_taken [simp]: "occupiedRunnerSlots (taken c) = occupiedRunnerSlots c + 1"
  unfolding occupiedRunnerSlots_def [of "taken c"] live_taken by (simp add: occupiedRunnerSlots_def)

lemma budget_taken:
  assumes "runnerMemoryBudget c th = Some b"
  obtains b' where "runnerMemoryBudget (taken c) th = Some b'"
    "mb_available b' = max 0 (mb_available b - of_int EXECUTION_MEMORY_BYTES) \<or>
     (mb_available b = 0 \<and> mb_available b' = 0)"
proof -
  let ?m = "rn_resources (cd_runner c)"
  define phys where "phys = Option.bind ?m rs_memory_total"
  define avail where "avail = Option.bind ?m rs_memory_available"
  define rep where "rep = (case Option.bind ?m rs_memory_credit of None \<Rightarrow> 0 | Some v \<Rightarrow> v)"
  define com where "com = (of_int (occupiedRunnerSlots c) * of_int EXECUTION_MEMORY_BYTES :: rat)"
  define live where "live = (of_int (liveOccupiedRunnerSlots c) * of_int EXECUTION_MEMORY_BYTES :: rat)"
  define M where "M = (of_int EXECUTION_MEMORY_BYTES :: rat)"
  have com': "(of_int (occupiedRunnerSlots c) + 1) * of_int EXECUTION_MEMORY_BYTES = com + M"
    by (simp add: com_def M_def distrib_right)
  have "live \<le> com"
    by (simp add: live_def com_def occupiedRunnerSlots_def EXECUTION_MEMORY_BYTES_def)
  moreover have "0 < M" by (simp add: M_def EXECUTION_MEMORY_BYTES_def)
  ultimately have cred: "min rep (min com live) = min rep live" "min rep (min (com + M) live) = min rep live"
    by (auto simp: min_def)
  define res where "res = (of_int \<lceil>the phys * (1 - th_memory th / 100)\<rceil> :: rat)"
  have mode: "\<not> (th_memory_mode th = Some Threshold \<or> th_memory_mode th = Some Memory_Disabled)"
      and report: "\<not> (phys = None \<and> avail = None)"
    using assms by (auto simp: runnerMemoryBudget_def phys_def avail_def Let_def split: if_splits)
  show thesis
  proof (cases "memory_report_valid phys avail rep")
    case False
    have "mb_available b = 0"
      using assms mode report False by (auto simp: runnerMemoryBudget_def Let_def phys_def [symmetric]
          avail_def [symmetric] rep_def [symmetric])
    moreover have "runnerMemoryBudget (taken c) th = Some \<lparr>mb_system_reserve = 0,
        mb_execution_credit = 0, mb_reserved_growth = com + M, mb_available = 0\<rparr>"
      using mode report False by (simp add: runnerMemoryBudget_def Let_def phys_def [symmetric]
          avail_def [symmetric] rep_def [symmetric] com' [symmetric])
    ultimately show thesis using that by simp
  next
    case True
    have "runnerMemoryBudget c th = Some \<lparr>mb_system_reserve = res, mb_execution_credit = min rep live,
        mb_reserved_growth = com - min rep live,
        mb_available = max 0 (the avail - res - (com - min rep live))\<rparr>"
      using mode report True unfolding cred(1) [symmetric]
      by (simp add: runnerMemoryBudget_def Let_def phys_def [symmetric] avail_def [symmetric]
          rep_def [symmetric] com_def [symmetric] live_def [symmetric] res_def [symmetric])
    then have b: "mb_available b = max 0 (the avail - res - (com - min rep live))"
      using assms by simp
    have "runnerMemoryBudget (taken c) th = Some \<lparr>mb_system_reserve = res,
        mb_execution_credit = min rep live, mb_reserved_growth = com + M - min rep live,
        mb_available = max 0 (the avail - res - (com + M - min rep live))\<rparr>"
      using mode report True unfolding cred(2) [symmetric]
      by (simp add: runnerMemoryBudget_def Let_def phys_def [symmetric] avail_def [symmetric]
          rep_def [symmetric] com' live_def [symmetric] res_def [symmetric])
    then show thesis
      using that \<open>0 < M\<close> unfolding b M_def [symmetric] by (simp add: max_def algebra_simps)
  qed
qed

lemma memory_slots_taken:
  "availableMemorySlots (taken c) th = map_option (\<lambda>n. max 0 (n - 1)) (availableMemorySlots c th)"
proof (cases "runnerMemoryBudget c th")
  case None
  then have "runnerMemoryBudget (taken c) th = None"
    by (auto simp: runnerMemoryBudget_def Let_def split: if_splits)
  with None show ?thesis by (simp add: availableMemorySlots_def)
next
  case (Some b)
  obtain b' where b': "runnerMemoryBudget (taken c) th = Some b'"
    "mb_available b' = max 0 (mb_available b - of_int EXECUTION_MEMORY_BYTES) \<or>
     (mb_available b = 0 \<and> mb_available b' = 0)"
    using budget_taken [OF Some] .
  have M: "(0::rat) < of_int EXECUTION_MEMORY_BYTES" by (simp add: EXECUTION_MEMORY_BYTES_def)
  have shift: "(x - of_int EXECUTION_MEMORY_BYTES) / of_int EXECUTION_MEMORY_BYTES =
      x / of_int EXECUTION_MEMORY_BYTES - (1::rat)" for x
    using M by (simp add: diff_divide_distrib)
  have floor0: "max 0 \<lfloor>max 0 y / of_int EXECUTION_MEMORY_BYTES\<rfloor> =
      max 0 \<lfloor>y / of_int EXECUTION_MEMORY_BYTES\<rfloor>" for y :: rat
    using M by (auto simp: max_def floor_less_zero divide_less_0_iff not_le floor_less_iff zero_le_divide_iff)
  have "max 0 \<lfloor>mb_available b' / of_int EXECUTION_MEMORY_BYTES\<rfloor> =
      max 0 (max 0 \<lfloor>mb_available b / of_int EXECUTION_MEMORY_BYTES\<rfloor> - 1)"
    using b'(2) floor0 [of "mb_available b - of_int EXECUTION_MEMORY_BYTES"] shift [of "mb_available b"]
    by (auto simp: max_def)
  then show ?thesis by (simp add: availableMemorySlots_def Some b'(1))
qed

lemma slots_taken: "1 \<le> slots_of c th \<Longrightarrow> slots_of (taken c) th = slots_of c th - 1"
  by (auto simp: slots_of_def min_slots_def memory_slots_taken split: option.splits)

lemma occupy_runner: "k < length cs \<Longrightarrow> map cd_runner (occupy k cs) = map cd_runner cs"
  by (simp add: occupy_def map_update) (metis list_update_id nth_map)

lemma occupy_length [simp]: "length (occupy k cs) = length cs"
  by (simp add: occupy_def)

text \<open>Every run is decided or left over, in order.\<close>

lemma schedule_loop_partition:
  "schedule_loop i runs n cs = (ds, us, cs') \<Longrightarrow>
     mset (map dc_run_id ds) + mset us = mset (map er_id runs)"
  by (induction i runs n cs arbitrary: ds us cs' rule: schedule_loop.induct)
    (fastforce split: if_splits option.splits prod.splits simp: Let_def)+

lemma schedule_loop_subseq:
  "schedule_loop i runs n cs = (ds, us, cs') \<Longrightarrow> subseq (map dc_run_id ds) (map er_id runs)"
  by (induction i runs n cs arbitrary: ds us cs' rule: schedule_loop.induct)
    (auto split: if_splits option.splits prod.splits simp: Let_def)

lemma schedule_loop_limit:
  "schedule_loop i runs n cs = (ds, us, cs') \<Longrightarrow> si_max_assignments i = Some m \<Longrightarrow>
     int (length ds) \<le> max 0 (m - int n)"
proof (induction i runs n cs arbitrary: ds us cs' rule: schedule_loop.induct)
  case (1 i n cs)
  then show ?case by simp
next
  case (2 i run runs n cs)
  show ?case
  proof (cases "assignments_left i n")
    case False
    then show ?thesis
      using 2(1) [OF False] 2(4,5) by (auto simp: Let_def split: prod.splits)
  next
    case True
    then have n: "int n < m" using 2(5) by (simp add: assignments_left_def)
    show ?thesis
    proof (cases "select_candidate i (er_id run) cs")
      case None
      then show ?thesis using 2(2) 2(4,5) True by (auto simp: Let_def split: prod.splits)
    next
      case (Some p)
      obtain k s where p: "p = (k, s)" by fastforce
      obtain ds1 us1 cs1 where r: "schedule_loop i runs (n + 1) (occupy k cs) = (ds1, us1, cs1)"
        by (metis prod_cases3)
      have "int (length ds1) \<le> max 0 (m - int (n + 1))"
        by (rule 2(3) [OF _ Some p [symmetric] r 2(5)]) (simp add: True)
      moreover have "length ds = Suc (length ds1)" using 2(4) True Some p r by auto
      ultimately show ?thesis using n by simp
    qed
  qed
qed

text \<open>No runner gets more runs than its slots, of which an inadmissible runner has none.\<close>

definition room :: "schedule_input \<Rightarrow> candidate \<Rightarrow> int" where
  "room i c = (if admitted c (si_thresholds i) (si_fresh_after i) then slots_of c (si_thresholds i) else 0)"

lemma room_nonneg: "0 \<le> room i c"
  by (simp add: room_def slots_nonneg)

lemma room_taken: "admitted c (si_thresholds i) (si_fresh_after i) \<Longrightarrow> room i (taken c) \<le> room i c - 1"
  using slots_taken [OF admitted_slots_of, of c "si_thresholds i" "si_fresh_after i"]
    admitted_slots_of [of c "si_thresholds i" "si_fresh_after i"]
  by (auto simp: room_def)

definition runner_count :: "ident \<Rightarrow> decision list \<Rightarrow> nat" where
  "runner_count r ds = length (filter (\<lambda>d. dc_runner_id d = r) ds)"

lemma schedule_loop_room:
  "schedule_loop i runs n cs = (ds, us, cs') \<Longrightarrow> distinct (map (rn_id \<circ> cd_runner) cs) \<Longrightarrow>
     k < length cs \<Longrightarrow> int (runner_count (rn_id (cd_runner (cs ! k))) ds) \<le> room i (cs ! k)"
proof (induction i runs n cs arbitrary: ds us cs' rule: schedule_loop.induct)
  case (1 i n cs)
  then show ?case by (simp add: runner_count_def room_nonneg)
next
  case (2 i run runs n cs)
  show ?case
  proof (cases "assignments_left i n")
    case False
    then show ?thesis using 2(1) [OF False] 2(4-6) by (auto simp: Let_def split: prod.splits)
  next
    case left: True
    show ?thesis
    proof (cases "select_candidate i (er_id run) cs")
      case None
      then show ?thesis using 2(2) 2(4-6) left by (auto simp: Let_def split: prod.splits)
    next
      case (Some p)
      obtain j s where p: "p = (j, s)" by fastforce
      have good: "good_choice i (er_id run) cs j s" using select_candidate_good Some p by simp
      then have j: "j < length cs" "admitted (cs ! j) (si_thresholds i) (si_fresh_after i)"
        by (auto simp: good_choice_def)
      obtain ds1 us1 cs1 where r: "schedule_loop i runs (n + 1) (occupy j cs) = (ds1, us1, cs1)"
        by (metis prod_cases3)
      have ids: "map (rn_id \<circ> cd_runner) (occupy j cs) = map (rn_id \<circ> cd_runner) cs"
        using arg_cong [OF occupy_runner [OF j(1)], of "map rn_id"] by simp
      have same: "cd_runner (occupy j cs ! k) = cd_runner (cs ! k)"
        using arg_cong [OF occupy_runner [OF j(1)], of "\<lambda>xs. xs ! k"] 2(6) by simp
      have "int (runner_count (rn_id (cd_runner (occupy j cs ! k))) ds1) \<le> room i (occupy j cs ! k)"
        by (rule 2(3) [OF _ Some p [symmetric] r]) (simp_all only: left ids 2(5,6) occupy_length simp_thms)
      then have ih: "int (runner_count (rn_id (cd_runner (cs ! k))) ds1) \<le> room i (occupy j cs ! k)"
        unfolding same .
      have ds: "ds = \<lparr>dc_run_id = er_id run, dc_runner_id = rn_id (cd_runner (cs ! j)),
          dc_score = s\<rparr> # ds1"
        using 2(4) left Some p r by auto
      show ?thesis
      proof (cases "k = j")
        case True
        have "occupy j cs ! k = taken (cs ! k)" using j(1) True by (simp add: occupy_def)
        then have "room i (occupy j cs ! k) \<le> room i (cs ! k) - 1" using room_taken j(2) True by simp
        then show ?thesis using ih True by (simp add: ds runner_count_def)
      next
        case False
        have "rn_id (cd_runner (cs ! j)) \<noteq> rn_id (cd_runner (cs ! k))"
          using 2(5,6) j(1) False by (auto simp: distinct_conv_nth)
        moreover have "occupy j cs ! k = cs ! k" using False by (simp add: occupy_def)
        ultimately show ?thesis using ih by (simp add: ds runner_count_def)
      qed
    qed
  qed
qed

end
