(* ===== verification/Exec_Spec.thy ===== *)
theory Exec_Spec
  imports Exec_Store Scheduler
begin

text \<open>
  What an assignment asks of the agent: the adapter runtime of a batch
  (\<open>packages/db/src/project-adapter-runtime.ts\<close>) and \<open>executionSpec\<close> with its inputs of
  \<open>packages/db/src/sqlite-run-batch.ts\<close>. A run with an adapter rotates through the environment
  addresses of the batch from attempt to attempt.
\<close>

subsection \<open>Adapter runtimes\<close>

record runtime_asset =
  ua_id :: ident
  ua_is_url :: bool
  ua_url :: "string option"
  ua_sha256 :: string
  ua_size :: int
  ua_is_zip :: bool

record adapter_runtime =
  pr_ddt_debug :: "string option"
  pr_requires_ddt_case_id :: bool
  pr_suite_name :: string
  pr_test_name :: string
  pr_addresses :: "string list"
  pr_address_by_run :: "(ident \<times> string) list"
  pr_fallback_address :: string
  pr_jdk :: "runtime_asset option"
  pr_jar_bundle :: "runtime_asset option"

definition projectAdapterCapabilitiesForFeatures :: "bool \<Rightarrow> bool \<Rightarrow> bool \<Rightarrow> string list" where
  "projectAdapterCapabilitiesForFeatures adapterEnabled projectRuntimeAssets ddtCaseId =
     (if \<not> adapterEnabled then REQUIRED_EXECUTION_CAPABILITIES
      else
        let capabilities =
              (if projectRuntimeAssets
                 then [COTEST_ADAPTER_CAPABILITY, PROJECT_RUNTIME_ASSETS_CAPABILITY]
               else COTEST_ADAPTER_CAPABILITY # REQUIRED_EXECUTION_CAPABILITIES)
        in if ddtCaseId
             then capabilities @ [DDT_CASE_ID_CAPABILITY, DDT_INSIGHT_URL_CAPABILITY]
           else capabilities)"

definition projectAdapterRequiredCapabilities :: "adapter_runtime option \<Rightarrow> string list" where
  "projectAdapterRequiredCapabilities rt =
     projectAdapterCapabilitiesForFeatures (rt \<noteq> None)
       (case rt of None \<Rightarrow> False | Some r \<Rightarrow> pr_jdk r \<noteq> None \<and> pr_jar_bundle r \<noteq> None)
       (case rt of None \<Rightarrow> False | Some r \<Rightarrow> pr_requires_ddt_case_id r)"

definition supportsProjectAdapterRuntime :: "string list \<Rightarrow> adapter_runtime option \<Rightarrow> bool" where
  "supportsProjectAdapterRuntime capabilities rt \<longleftrightarrow>
     list_all (\<lambda>c. c \<in> set capabilities) (projectAdapterRequiredCapabilities rt)"

definition adapterEnvironmentAddress :: "adapter_runtime \<Rightarrow> ident \<Rightarrow> int \<Rightarrow> string" where
  "adapterEnvironmentAddress rt runId attemptNumber =
     (let initial = (case map_of (pr_address_by_run rt) runId of
                       None \<Rightarrow> pr_fallback_address rt | Some a \<Rightarrow> a);
          index = js_index_of (pr_addresses rt) initial
      in if length (pr_addresses rt) < 2 then initial
         else if index < 0 then initial
         else pr_addresses rt !
                nat ((index + max 0 (attemptNumber - 1)) mod int (length (pr_addresses rt))))"

subsection \<open>Resource limits\<close>

definition DEFAULT_EXECUTION_RESOURCE_LIMITS :: resource_limits where
  "DEFAULT_EXECUTION_RESOURCE_LIMITS =
     \<lparr>xl_cpu_millicores = 2000, xl_memory_bytes = 2147483648, xl_disk_bytes = 10737418240,
      xl_process_count = 256, xl_file_count = 10000, xl_log_bytes = 1073741824,
      xl_artifact_bytes = 10737418240\<rparr>"

definition maximumExecutionDiskBytes :: int where
  "maximumExecutionDiskBytes = 10995116277760"

definition MAX_SAFE_INTEGER :: int where
  "MAX_SAFE_INTEGER = 9007199254740991"

definition safeByteSum :: "int \<Rightarrow> int \<Rightarrow> domain_error + int" where
  "safeByteSum acc sizeBytes =
     (if \<bar>sizeBytes\<bar> > MAX_SAFE_INTEGER \<or> sizeBytes \<le> 0 \<or> acc > MAX_SAFE_INTEGER - sizeBytes
        then Inl (PlainError ''Execution input sizes exceed the protocol range.'')
      else Inr (acc + sizeBytes))"

fun sum_sizes :: "int \<Rightarrow> int list \<Rightarrow> domain_error + int" where
  "sum_sizes acc [] = Inr acc"
| "sum_sizes acc (x # xs) = and_then (safeByteSum acc x) (\<lambda>t. sum_sizes t xs)"

definition executionResourceLimitsForInputs :: "int list \<Rightarrow> bool \<Rightarrow> domain_error + resource_limits" where
  "executionResourceLimitsForInputs inputSizes usesAdapter =
     (if \<not> usesAdapter then Inr DEFAULT_EXECUTION_RESOURCE_LIMITS
      else and_then (sum_sizes 0 inputSizes) (\<lambda>totalInputBytes.
        if totalInputBytes > maximumExecutionDiskBytes
          then Inl (PlainError ''Execution inputs exceed the Runner Protocol disk limit.'')
        else
          let expandedBudget = min maximumExecutionDiskBytes (totalInputBytes * 8)
          in Inr (DEFAULT_EXECUTION_RESOURCE_LIMITS
               \<lparr>xl_disk_bytes := max (xl_disk_bytes DEFAULT_EXECUTION_RESOURCE_LIMITS) expandedBudget,
                 xl_file_count := 100000\<rparr>)))"

subsection \<open>Execution specifications\<close>

definition runtimeInput :: "runtime_asset \<Rightarrow> input_kind \<Rightarrow> string \<Rightarrow> execution_input" where
  "runtimeInput asset kind pathPrefix =
     \<lparr>xi_input_id = ua_id asset, xi_kind = kind,
      xi_target_path = pathPrefix @ (if ua_is_zip asset then ''.zip'' else ''.tar.gz''),
      xi_download_url = (if ua_is_url asset then nonempty (ua_url asset) else None),
      xi_size = ua_size asset, xi_sha256 = ua_sha256 asset,
      xi_media_type = (if ua_is_zip asset then ''application/zip'' else ''application/gzip'')\<rparr>"

definition runtimeAssetInputs :: "adapter_runtime \<Rightarrow> execution_input list" where
  "runtimeAssetInputs rt =
     (case pr_jdk rt of None \<Rightarrow> []
      | Some a \<Rightarrow> [runtimeInput a Jdk_Archive ''runtime-inputs/jdk''])
     @ (case pr_jar_bundle rt of None \<Rightarrow> []
        | Some a \<Rightarrow> [runtimeInput a Jar_Bundle ''runtime-inputs/jars''])"

text \<open>The run joined with its case version, the source of that version and its definition.\<close>

record case_input =
  cj_class_name :: string
  cj_parameters :: "(string \<times> string) list"
  cj_is_ddt :: bool
  cj_display_name :: string
  cj_project_id :: ident
  cj_project_version_id :: "ident option"
  cj_test_stage_id :: "ident option"
  cj_source_id :: ident
  cj_source_sha256 :: string
  cj_source_size :: int

record spec_input =
  ex_attempt_id :: ident
  ex_run_id :: ident
  ex_batch_id :: ident
  ex_attempt_number :: int
  ex_case :: case_input
  ex_runtime :: "adapter_runtime option"
  ex_environment :: "(string \<times> string) list"
  ex_secret_bindings :: "(string \<times> ident \<times> ident) list"
  ex_execution_timeout_ms :: int
  ex_upload_timeout_ms :: int
  ex_case_timeout_seconds :: int
  ex_policy :: "batch_policy option"

text \<open>The DDT scope of a run, when it is a DDT case of a version and a stage.\<close>

definition ddt_scope_of :: "case_input \<Rightarrow> ddt_scope option" where
  "ddt_scope_of c =
     (if cj_is_ddt c
        then (case (nonempty (cj_project_version_id c), nonempty (cj_test_stage_id c)) of
                (Some v, Some t) \<Rightarrow> Some \<lparr>ds_project_id = cj_project_id c,
                    ds_project_version_id = v, ds_test_stage_id = t\<rparr>
              | _ \<Rightarrow> None)
      else None)"

definition spec_adapter_of :: "spec_input \<Rightarrow> adapter_runtime \<Rightarrow> spec_adapter" where
  "spec_adapter_of x rt =
     \<lparr>sa_suite_name = pr_suite_name rt, sa_test_name = pr_test_name rt,
      sa_environment_address = adapterEnvironmentAddress rt (ex_run_id x) (ex_attempt_number x),
      sa_case_timeout_seconds = ex_case_timeout_seconds x,
      sa_case_id = (if cj_is_ddt (ex_case x) then Some (cj_display_name (ex_case x)) else None),
      sa_ddt_scope = map_option (\<lambda>d. (d, pr_ddt_debug rt)) (ddt_scope_of (ex_case x))\<rparr>"

definition execution_inputs :: "spec_input \<Rightarrow> execution_input list" where
  "execution_inputs x =
     \<lparr>xi_input_id = cj_source_id (ex_case x), xi_kind = Other_Input ''test-jar'',
      xi_target_path = ''inputs/tests.jar'', xi_download_url = None,
      xi_size = cj_source_size (ex_case x), xi_sha256 = cj_source_sha256 (ex_case x),
      xi_media_type = ''application/java-archive''\<rparr>
     # (case ex_runtime x of None \<Rightarrow> [] | Some rt \<Rightarrow> runtimeAssetInputs rt)"

definition executionSpec :: "spec_input \<Rightarrow> domain_error + execution_spec" where
  "executionSpec x =
     and_then (executionResourceLimitsForInputs (map xi_size (execution_inputs x)) (ex_runtime x \<noteq> None))
       (\<lambda>limits. Inr
     \<lparr>sp_executor = (case ex_policy x of None \<Rightarrow> TestNg | Some p \<Rightarrow> bp_executor p),
      sp_attempt_id = ex_attempt_id x, sp_run_id = ex_run_id x, sp_batch_id = ex_batch_id x,
      sp_class_name = cj_class_name (ex_case x), sp_parameters = cj_parameters (ex_case x),
      sp_adapter = map_option (spec_adapter_of x) (ex_runtime x),
      sp_inputs = execution_inputs x, sp_environment = ex_environment x,
      sp_secret_references = ex_secret_bindings x,
      sp_required_labels = REQUIRED_EXECUTION_LABELS
        @ (case ex_policy x of None \<Rightarrow> [] | Some p \<Rightarrow> bp_runner_labels p),
      sp_required_capabilities =
        projectAdapterRequiredCapabilities
          (map_option (\<lambda>r. r\<lparr>pr_requires_ddt_case_id := cj_is_ddt (ex_case x)\<rparr>) (ex_runtime x))
        @ (case ex_policy x of None \<Rightarrow> []
           | Some p \<Rightarrow> if bp_executor p = TestNg_Container
                         then [''executor:testng-container-v1''] else []),
      sp_artifact_rules = map (\<lambda>pattern. (pattern, artifactMediaType pattern))
        (case ex_policy x of None \<Rightarrow> [''reports/testng/**''] | Some p \<Rightarrow> bp_artifact_patterns p),
      sp_timeout_ms = ex_execution_timeout_ms x, sp_upload_timeout_ms = ex_upload_timeout_ms x,
      sp_resource_limits = limits\<rparr>)"

subsection \<open>Rotation of the environments\<close>

lemma js_index_of_mem:
  "x \<in> set xs \<Longrightarrow> 0 \<le> js_index_of xs x \<and> nat (js_index_of xs x) < length xs \<and> xs ! nat (js_index_of xs x) = x"
proof (induction xs)
  case (Cons y ys)
  show ?case
  proof (cases "y = x")
    case False
    with Cons have "0 \<le> js_index_of ys x" "nat (js_index_of ys x) < length ys"
        "ys ! nat (js_index_of ys x) = x" by simp_all
    then show ?thesis using False by (simp add: Let_def nat_add_distrib)
  qed simp
qed simp

definition initial_address :: "adapter_runtime \<Rightarrow> ident \<Rightarrow> string" where
  "initial_address rt runId =
     (case map_of (pr_address_by_run rt) runId of None \<Rightarrow> pr_fallback_address rt | Some a \<Rightarrow> a)"

lemma adapterEnvironmentAddress_nth:
  assumes "initial_address rt k \<in> set (pr_addresses rt)" "1 \<le> n"
  shows "adapterEnvironmentAddress rt k n =
    pr_addresses rt ! nat ((js_index_of (pr_addresses rt) (initial_address rt k) + (n - 1))
      mod int (length (pr_addresses rt)))"
proof -
  let ?A = "pr_addresses rt" and ?a = "initial_address rt k"
  note i = js_index_of_mem [OF assms(1)]
  show ?thesis
  proof (cases "length ?A < 2")
    case True
    then have A: "?A = [?a]" using assms(1) by (cases ?A) auto
    then show ?thesis
      by (simp add: adapterEnvironmentAddress_def initial_address_def [symmetric] Let_def)
  next
    case False
    then show ?thesis using i assms(2)
      by (simp add: adapterEnvironmentAddress_def initial_address_def [symmetric] Let_def)
  qed
qed

text \<open>The first attempts of a run, one for each address, are made on every address of the pool.\<close>

lemma rotation_covers:
  assumes "initial_address rt k \<in> set (pr_addresses rt)"
  shows "set (map (adapterEnvironmentAddress rt k) [1..int (length (pr_addresses rt))]) =
    set (pr_addresses rt)"
proof -
  let ?A = "pr_addresses rt" and ?i = "js_index_of (pr_addresses rt) (initial_address rt k)"
  let ?n = "int (length ?A)"
  note i = js_index_of_mem [OF assms]
  have pos: "0 < ?n" using i by linarith
  have "\<exists>m\<in>{1..?n}. adapterEnvironmentAddress rt k m = ?A ! j" if j: "j < length ?A" for j
  proof (intro bexI)
    let ?m = "(int j - ?i) mod ?n + 1"
    have "0 \<le> (int j - ?i) mod ?n" "(int j - ?i) mod ?n < ?n" using pos by simp_all
    then show m: "?m \<in> {1..?n}" by simp
    have "(?i + (?m - 1)) mod ?n = int j mod ?n"
      by (simp add: mod_add_right_eq)
    then have "nat ((?i + (?m - 1)) mod ?n) = j" using j by simp
    then show "adapterEnvironmentAddress rt k ?m = ?A ! j"
      using adapterEnvironmentAddress_nth [OF assms, of ?m] m by simp
  qed
  then have "set ?A \<subseteq> adapterEnvironmentAddress rt k ` {1..?n}"
    by (force simp: in_set_conv_nth)
  moreover have "adapterEnvironmentAddress rt k m \<in> set ?A" if "m \<in> {1..?n}" for m
    using adapterEnvironmentAddress_nth [OF assms, of m] that pos
    by (simp add: nat_less_iff)
  ultimately show ?thesis by auto
qed

text \<open>The disk of an attempt with an adapter is never below the default nor above the maximum.\<close>

lemma sum_sizes_bounds: "sum_sizes acc xs = Inr t \<Longrightarrow> acc \<le> t \<and> t = acc + sum_list xs"
  by (induction acc xs rule: sum_sizes.induct)
    (force simp: and_then_eq_Inr safeByteSum_def split: if_splits)+

lemma resource_limits_bounds:
  assumes "executionResourceLimitsForInputs sizes True = Inr limits"
  shows "xl_disk_bytes limits = max 10737418240 (min 10995116277760 (8 * sum_list sizes))"
    "sum_list sizes \<le> 10995116277760"
  using assms
  by (auto simp: executionResourceLimitsForInputs_def and_then_eq_Inr Let_def
      DEFAULT_EXECUTION_RESOURCE_LIMITS_def maximumExecutionDiskBytes_def dest!: sum_sizes_bounds
      split: if_splits)

end
