(* ===== verification/Reservation.thy ===== *)
theory Reservation
  imports Exec_Spec
begin

text \<open>
  Placing work: \<open>create\<close> (the rows the execution control works on), \<open>reserveAssignments\<close>,
  \<open>hasSchedulableRuns\<close> and \<open>updateBatchSchedulingStatus\<close> of \<open>packages/db/src/sqlite-run-batch.ts\<close>,
  with the capabilities of \<open>packages/db/src/project-adapter-runtime.ts\<close> and
  \<open>packages/db/src/database-batches.ts\<close>. Tables the reservation only reads (runners, the runners of a
  batch, adapter runtimes, the joined case versions) are the record
  \<open>reserve_tables\<close>; the random dispatch order key of a run is not modelled.
\<close>

subsection \<open>The input of a reservation\<close>

record reserve_decision =
  dn_run_id :: ident
  dn_runner_id :: ident
  dn_attempt_id :: ident
  dn_assignment_id :: ident

record reserve_input =
  ru_batch :: ident
  ru_event_id :: "ident option"
  ru_project_maximum :: "int option"
  ru_decisions :: "reserve_decision list"
  ru_thresholds :: scheduling_thresholds
  ru_offline_before :: time
  ru_fresh_after :: time
  ru_scheduled_at :: time
  ru_live :: "(ident \<times> int) list"

record reserve_tables =
  rq_runners :: "stored_runner list"
  rq_batch_runners :: "(ident \<times> ident) list"
  rq_adapters :: "(ident \<times> adapter_runtime) list"
  rq_case_timeout_seconds :: int
  rq_case_inputs :: "(ident \<times> case_input) list"

definition RELATIONAL_WRITE_BATCH_SIZE :: nat where
  "RELATIONAL_WRITE_BATCH_SIZE = 500"

text \<open>Attempts in flight of a set of batches, the joins being by primary key.\<close>

definition in_flight :: "store \<Rightarrow> (attempt_row \<Rightarrow> run_row \<Rightarrow> batch_row \<Rightarrow> bool) \<Rightarrow> attempt_row \<Rightarrow> bool" where
  "in_flight s P t \<longleftrightarrow>
     active_attempt (at_status t) \<and>
     (case find_run s (at_run_id t) of None \<Rightarrow> False
      | Some r \<Rightarrow> busy_run (rr_status r) \<and>
          (case find_batch s (rr_batch_id r) of None \<Rightarrow> False | Some b \<Rightarrow> P t r b))"

definition activeReservations :: "store \<Rightarrow> ident \<Rightarrow> int" where
  "activeReservations s runnerId =
     int (count_where (in_flight s (\<lambda>t r b. at_runner_id t = runnerId \<and> active_batch (bt_status b)))
       (st_attempts s))"

definition projectActiveRuns :: "store \<Rightarrow> ident \<Rightarrow> int" where
  "projectActiveRuns s projectId =
     int (count_where (in_flight s (\<lambda>t r b. bt_project_id b = projectId \<and> active_batch (bt_status b)))
       (st_attempts s))"

definition batchActiveRuns :: "store \<Rightarrow> ident \<Rightarrow> int" where
  "batchActiveRuns s batchId =
     int (count_where (in_flight s (\<lambda>t r b. rr_batch_id r = batchId)) (st_attempts s))"

definition reserve_hasSchedulableRuns :: "store \<Rightarrow> ident \<Rightarrow> bool" where
  "reserve_hasSchedulableRuns s batchId \<longleftrightarrow>
     (\<exists>r\<in>set (st_runs s). rr_batch_id r = batchId \<and> rr_status r = R_Queued \<and> rr_held_round r = 0 \<and>
        (\<exists>b\<in>set (st_batches s). bt_id b = rr_batch_id r \<and> bt_pause_requested_at b = None
           \<and> bt_cancel_requested_at b = None))"

subsection \<open>Filtering the decisions\<close>

definition decision_runner :: "reserve_tables \<Rightarrow> reserve_input \<Rightarrow> ident \<Rightarrow> stored_runner option" where
  "decision_runner tb i runnerId =
     (if (ru_batch i, runnerId) \<in> set (rq_batch_runners tb)
        then row_by sr_id runnerId (rq_runners tb) else None)"

text \<open>The score of a decision, or nothing when the loop skips it.\<close>

definition decision_score ::
  "reserve_tables \<Rightarrow> reserve_input \<Rightarrow> (ident \<Rightarrow> int) \<Rightarrow> reserve_decision \<Rightarrow> rat option" where
  "decision_score tb i reservations d =
     (case decision_runner tb i (dn_runner_id d) of
        None \<Rightarrow> None
      | Some row \<Rightarrow>
          let r = mapStoredRunner row (Some (ru_offline_before i))
          in if \<not> rk_compatible (assessRunnerCompatibility r) then None
             else if \<not> supportsProjectAdapterRuntime (rn_capabilities r)
                         (map_of (rq_adapters tb) (ru_batch i)) then None
             else
               let e = evaluateRunnerForScheduling
                     \<lparr>cd_runner = r, cd_reserved = reservations (dn_runner_id d),
                      cd_live = map_of (ru_live i) (dn_runner_id d)\<rparr>
                     (ru_thresholds i) (ru_fresh_after i)
               in if \<not> el_eligible e then None
                  else case el_score e of
                    None \<Rightarrow> None
                  | Some score \<Rightarrow>
                      if map_of (rq_case_inputs tb) (dn_run_id d) = None then None else Some score)"

fun accept_decisions ::
  "reserve_tables \<Rightarrow> reserve_input \<Rightarrow> int \<Rightarrow> int option \<Rightarrow> (ident \<Rightarrow> int) \<Rightarrow> reserve_decision list \<Rightarrow>
   (reserve_decision \<times> rat) list" where
  "accept_decisions tb i projectSlots batchSlots reservations [] = []"
| "accept_decisions tb i projectSlots batchSlots reservations (d # ds) =
     (if projectSlots = 0 \<or> batchSlots = Some 0 then []
      else case decision_score tb i reservations d of
        None \<Rightarrow> accept_decisions tb i projectSlots batchSlots reservations ds
      | Some score \<Rightarrow> (d, score) #
          accept_decisions tb i (projectSlots - 1) (map_option (\<lambda>n. n - 1) batchSlots)
            (reservations(dn_runner_id d := reservations (dn_runner_id d) + 1)) ds)"

definition project_slots :: "reserve_input \<Rightarrow> batch_row \<Rightarrow> store \<Rightarrow> int" where
  "project_slots i b s =
     max 0 ((case ru_project_maximum i of None \<Rightarrow> MAX_SAFE_INTEGER | Some m \<Rightarrow> m)
       - projectActiveRuns s (bt_project_id b))"

definition batch_concurrency :: "store \<Rightarrow> batch_row \<Rightarrow> int option" where
  "batch_concurrency s b =
     (case row_by rw_batch_id (bt_id b) (st_retry_states s) of
        Some row \<Rightarrow> Some (rw_concurrency row)
      | None \<Rightarrow> map_option bp_concurrency (bt_policy b))"

definition batch_slots :: "batch_row \<Rightarrow> store \<Rightarrow> int option" where
  "batch_slots b s =
     map_option (\<lambda>c. max 0 (c - batchActiveRuns s (bt_id b))) (batch_concurrency s b)"

subsection \<open>Writing the reservation\<close>

definition queue_open :: "store \<Rightarrow> time \<Rightarrow> run_row \<Rightarrow> bool" where
  "queue_open s now r \<longleftrightarrow>
     (case rr_queue_deadline_at r of
        None \<Rightarrow> True
      | Some deadline \<Rightarrow> now < deadline \<or>
          (\<exists>b\<in>set (st_batches s). bt_id b = rr_batch_id r \<and>
             (case bt_queue_resumed_at b of None \<Rightarrow> False
              | Some t \<Rightarrow> now < t + bt_queue_timeout_ms b)))"

definition reservable :: "reserve_input \<Rightarrow> store \<Rightarrow> run_row \<Rightarrow> bool" where
  "reservable i s r \<longleftrightarrow>
     rr_batch_id r = ru_batch i \<and> rr_status r = R_Queued \<and> rr_held_round r = 0 \<and>
     queue_open s (ru_scheduled_at i) r"

definition decision_for ::
  "(reserve_decision \<times> rat) list \<Rightarrow> ident \<Rightarrow> (reserve_decision \<times> rat) option" where
  "decision_for chunk runId = find (\<lambda>(d, score). dn_run_id d = runId) chunk"

definition assign_run :: "reserve_input \<Rightarrow> (reserve_decision \<times> rat) list \<Rightarrow> run_row \<Rightarrow> run_row" where
  "assign_run i chunk r =
     (case decision_for chunk (rr_id r) of
        None \<Rightarrow> r
      | Some (d, score) \<Rightarrow>
          r\<lparr>rr_status := R_Assigned, rr_assigned_runner_id := Some (dn_runner_id d),
            rr_attempt_count := rr_attempt_count r + 1, rr_scheduling_score := Some score,
            rr_assigned_at := Some (ru_scheduled_at i), rr_updated_at := ru_scheduled_at i\<rparr>)"

definition to_assign :: "reserve_input \<Rightarrow> (reserve_decision \<times> rat) list \<Rightarrow> store \<Rightarrow> run_row \<Rightarrow> bool" where
  "to_assign i chunk s r \<longleftrightarrow> decision_for chunk (rr_id r) \<noteq> None \<and> reservable i s r"

definition assign_runs :: "reserve_input \<Rightarrow> (reserve_decision \<times> rat) list \<Rightarrow> store \<Rightarrow> store" where
  "assign_runs i chunk s =
     s\<lparr>st_runs := update_where (to_assign i chunk s) (assign_run i chunk) (st_runs s)\<rparr>"

text \<open>\<open>RETURNING id, attempt_count, execution_round\<close>\<close>

definition assigned_rows :: "reserve_input \<Rightarrow> (reserve_decision \<times> rat) list \<Rightarrow> store \<Rightarrow> run_row list" where
  "assigned_rows i chunk s = map (assign_run i chunk) (filter (to_assign i chunk s) (st_runs s))"

text \<open>A decision whose run was assigned, with the row that was returned for it.\<close>

type_synonym reserved = "reserve_decision \<times> rat \<times> run_row"

definition reserved_decisions ::
  "(reserve_decision \<times> rat) list \<Rightarrow> run_row list \<Rightarrow> reserved list" where
  "reserved_decisions chunk rows =
     List.map_filter (\<lambda>(d, score). map_option (\<lambda>r. (d, score, r)) (row_by rr_id (dn_run_id d) rows)) chunk"

definition new_attempt :: "reserve_input \<Rightarrow> reserved \<Rightarrow> attempt_row" where
  "new_attempt i = (\<lambda>(d, score, r).
     \<lparr>at_id = dn_attempt_id d, at_run_id = dn_run_id d, at_runner_id = dn_runner_id d,
      at_number = rr_attempt_count r, at_round = rr_execution_round r, at_status = T_Assigned,
      at_scheduling_score = score, at_created_at = ru_scheduled_at i, at_version = 1,
      at_started_at = None, at_upload_started_at = None, at_finished_at = None, at_outcome = None,
      at_result_code = None, at_result_summary = None, at_completion_digest = None,
      at_duration_ms = None, at_test_ng = None\<rparr>)"

definition insert_attempt :: "attempt_row \<Rightarrow> store \<Rightarrow> domain_error + store" where
  "insert_attempt t s =
     (if (at_run_id t, at_number t) \<in> (\<lambda>x. (at_run_id x, at_number x)) ` set (st_attempts s)
        then Inl (ConstraintError ''UNIQUE'')
      else and_then (insert_row at_id t (st_attempts s)) (\<lambda>rows. Inr (s\<lparr>st_attempts := rows\<rparr>)))"

definition assignment_spec ::
  "reserve_tables \<Rightarrow> reserve_input \<Rightarrow> batch_row \<Rightarrow> reserved \<Rightarrow> domain_error + execution_spec" where
  "assignment_spec tb i b = (\<lambda>(d, score, r).
     executionSpec
       \<lparr>ex_attempt_id = dn_attempt_id d, ex_run_id = dn_run_id d, ex_batch_id = ru_batch i,
        ex_attempt_number = rr_attempt_count r,
        ex_case = the (map_of (rq_case_inputs tb) (dn_run_id d)),
        ex_runtime = map_of (rq_adapters tb) (ru_batch i),
        ex_environment = bt_environment b, ex_secret_bindings = bt_secret_bindings b,
        ex_execution_timeout_ms = bt_execution_timeout_ms b,
        ex_upload_timeout_ms = bt_upload_timeout_ms b,
        ex_case_timeout_seconds = rq_case_timeout_seconds tb, ex_policy = bt_policy b\<rparr>)"

text \<open>The row of an assignment, for a decision whose specification could be built.\<close>

definition new_assignment ::
  "reserve_tables \<Rightarrow> reserve_input \<Rightarrow> batch_row \<Rightarrow> reserved \<Rightarrow> assignment_row" where
  "new_assignment tb i b = (\<lambda>(d, score, r).
     \<lparr>as_id = dn_assignment_id d, as_attempt_id = dn_attempt_id d, as_run_id = dn_run_id d,
      as_batch_id = ru_batch i, as_runner_id = dn_runner_id d, as_status = A_Pending,
      as_priority = bt_priority b, as_spec = projr (assignment_spec tb i b (d, score, r)),
      as_available_at = ru_scheduled_at i,
      as_claim_deadline_at = ru_scheduled_at i + bt_claim_timeout_ms b,
      as_claimed_at = None, as_completed_at = None, as_cancel_requested_at = None, as_version = 1,
      as_created_at = ru_scheduled_at i, as_updated_at = ru_scheduled_at i\<rparr>)"

definition insert_assignment :: "assignment_row \<Rightarrow> store \<Rightarrow> domain_error + store" where
  "insert_assignment a s =
     (if as_attempt_id a \<in> as_attempt_id ` set (st_assignments s)
        then Inl (ConstraintError ''UNIQUE'')
      else and_then (insert_row as_id a (st_assignments s))
        (\<lambda>rows. Inr (s\<lparr>st_assignments := rows\<rparr>)))"

fun insert_all :: "('a \<Rightarrow> store \<Rightarrow> domain_error + store) \<Rightarrow> 'a list \<Rightarrow> store \<Rightarrow> domain_error + store" where
  "insert_all ins [] s = Inr s"
| "insert_all ins (x # xs) s = and_then (ins x s) (insert_all ins xs)"

fun first_error :: "(domain_error + 'a) list \<Rightarrow> domain_error option" where
  "first_error [] = None"
| "first_error (Inl e # rs) = Some e"
| "first_error (Inr _ # rs) = first_error rs"

definition reserve_chunk ::
  "reserve_tables \<Rightarrow> reserve_input \<Rightarrow> batch_row \<Rightarrow> (reserve_decision \<times> rat) list \<Rightarrow> store \<Rightarrow>
   domain_error + (ident list \<times> store)" where
  "reserve_chunk tb i b chunk s =
     (let rds = reserved_decisions chunk (assigned_rows i chunk s);
          s1 = assign_runs i chunk s
      in if rds = [] then Inr ([], s1)
         else and_then (insert_all insert_attempt (map (new_attempt i) rds) s1) (\<lambda>s2.
              case first_error (map (assignment_spec tb i b) rds) of
                Some e \<Rightarrow> Inl e
              | None \<Rightarrow>
                  and_then (insert_all insert_assignment (map (new_assignment tb i b) rds) s2) (\<lambda>s3.
                    Inr (map (\<lambda>(d, score, r). dn_attempt_id d) rds, s3))))"

fun reserve_chunks ::
  "reserve_tables \<Rightarrow> reserve_input \<Rightarrow> batch_row \<Rightarrow> (reserve_decision \<times> rat) list list \<Rightarrow> store \<Rightarrow>
   domain_error + (ident list \<times> store)" where
  "reserve_chunks tb i b [] s = Inr ([], s)"
| "reserve_chunks tb i b (chunk # chunks) s =
     and_then (reserve_chunk tb i b chunk s) (\<lambda>(ids, s1).
     and_then (reserve_chunks tb i b chunks s1) (\<lambda>(rest, s2). Inr (ids @ rest, s2)))"

text \<open>\<open>updateBatchSchedulingStatus\<close>: the version is raised also when the status stays.\<close>

definition scheduling_status :: "store \<Rightarrow> ident \<Rightarrow> batch_status" where
  "scheduling_status s batchId =
     (let here = filter (\<lambda>r. rr_batch_id r = batchId) (st_runs s)
      in if \<not> list_ex (\<lambda>r. rr_status r = R_Queued) here then B_Scheduled
         else if list_ex (\<lambda>r. busy_run (rr_status r)) here then B_Dispatching
         else B_Queued)"

definition scheduled_event :: "ident \<Rightarrow> batch_row \<Rightarrow> batch_status \<Rightarrow> time \<Rightarrow> batch_event_row" where
  "scheduled_event eventId b status updatedAt =
     \<lparr>be_id = eventId, be_batch_id = bt_id b, be_from_status = Some (bt_status b),
      be_to_status = status, be_batch_version = bt_version b + 1,
      be_reason = ''scheduling.updated'', be_recorded_at = updatedAt\<rparr>"

definition put_scheduling_status :: "batch_row \<Rightarrow> batch_status \<Rightarrow> time \<Rightarrow> store \<Rightarrow> store" where
  "put_scheduling_status b status updatedAt s =
     s\<lparr>st_batches := update_where (\<lambda>x. bt_id x = bt_id b \<and> bt_version x = bt_version b)
        (\<lambda>x. x\<lparr>bt_status := status, bt_updated_at := updatedAt, bt_version := bt_version b + 1\<rparr>)
        (st_batches s)\<rparr>"

definition updateBatchSchedulingStatus ::
  "ident \<Rightarrow> time \<Rightarrow> ident \<Rightarrow> store \<Rightarrow> domain_error + store" where
  "updateBatchSchedulingStatus batchId updatedAt eventId s =
     (let status = scheduling_status s batchId
      in and_then (found ''RUN_BATCH_NOT_FOUND'' (find_batch s batchId)) (\<lambda>b.
         and_then (transitionRunBatch (bt_status b) status) (\<lambda>_.
           if count_where (\<lambda>x. bt_id x = bt_id b \<and> bt_version x = bt_version b) (st_batches s) \<noteq> 1
             then Inl (DomainError ''RUN_BATCH_VERSION_CONFLICT'')
           else
             let s1 = put_scheduling_status b status updatedAt s
             in if bt_status b = status then Inr s1
                else insert_batch_event (scheduled_event eventId b status updatedAt) s1)))"

definition reserve_event_id :: "reserve_input \<Rightarrow> ident" where
  "reserve_event_id i =
     (case ru_event_id i of
        Some e \<Rightarrow> e
      | None \<Rightarrow> (case ru_decisions i of [] \<Rightarrow> ru_batch i | d # _ \<Rightarrow> dn_assignment_id d))"

definition accepted :: "reserve_tables \<Rightarrow> reserve_input \<Rightarrow> batch_row \<Rightarrow> store \<Rightarrow> (reserve_decision \<times> rat) list" where
  "accepted tb i b s =
     accept_decisions tb i (project_slots i b s) (batch_slots b s) (activeReservations s)
       (ru_decisions i)"

definition reserve_body ::
  "reserve_tables \<Rightarrow> reserve_input \<Rightarrow> store \<Rightarrow> domain_error + (ident list \<times> store)" where
  "reserve_body tb i s =
     and_then (found ''RUN_BATCH_NOT_FOUND'' (find_batch s (ru_batch i))) (\<lambda>b.
       if bt_cancel_requested_at b \<noteq> None \<or> bt_pause_requested_at b \<noteq> None then Inr ([], s)
       else
         and_then
           (reserve_chunks tb i b (splitIntoChunks (accepted tb i b s) RELATIONAL_WRITE_BATCH_SIZE) s)
           (\<lambda>(ids, s1).
              and_then
                (updateBatchSchedulingStatus (ru_batch i) (ru_scheduled_at i) (reserve_event_id i) s1)
                (\<lambda>s2. Inr (ids, s2))))"

definition reserveAssignments ::
  "reserve_tables \<Rightarrow> reserve_input \<Rightarrow> store \<Rightarrow> (domain_error + ident list) \<times> store" where
  "reserveAssignments tb i s = transaction (reserve_body tb i) s"

subsection \<open>Scheduling events\<close>

definition appendSchedulingEvents :: "scheduling_event list \<Rightarrow> store \<Rightarrow> (domain_error + unit) \<times> store" where
  "appendSchedulingEvents events s =
     transaction (\<lambda>s. and_then (appendSchedulingEventDrafts events s) (\<lambda>t. Inr ((), t))) s"

subsection \<open>Creating a batch\<close>

record new_run =
  nr_id :: ident
  nr_case_definition_id :: ident
  nr_display_name :: string

record new_recovery =
  nv_rule_id :: ident
  nv_after_round :: int
  nv_jenkins_job_url :: string
  nv_api_key_ciphertext :: string
  nv_wait_minutes :: int

text \<open>Who triggers a public execution: the publisher of the link and the key of the request.\<close>

record public_execution =
  pe_publisher :: ident
  pe_request_key :: string

record create_record =
  cb_id :: ident
  cb_project_id :: ident
  cb_suite_id :: ident
  cb_expected_suite_revision :: "int option"
  cb_public :: "public_execution option"
  cb_case_log_rerun :: bool
  cb_event_id :: "ident option"
  cb_retry_limit :: int
  cb_retry_mode :: "retry_mode option"
  cb_priority :: "int option"
  cb_queue_timeout_ms :: "int option"
  cb_claim_timeout_ms :: "int option"
  cb_execution_timeout_ms :: "int option"
  cb_upload_timeout_ms :: "int option"
  cb_environment :: "(string \<times> string) list"
  cb_secret_bindings :: "(string \<times> ident \<times> ident) list"
  cb_policy :: "batch_policy option"
  cb_runner_ids :: "ident list"
  cb_recoveries :: "new_recovery list"
  cb_runs :: "new_run list"
  cb_scheduled_for :: "time option"
  cb_created_at :: time

text \<open>The suites with their revisions, the links that are not revoked, the active users.\<close>

record create_tables =
  ct_suites :: "(ident \<times> int) list"
  ct_links :: "(ident \<times> ident) list"
  ct_active_users :: "ident list"

definition assertCaseSuiteRevision :: "int option \<Rightarrow> int \<Rightarrow> domain_error option" where
  "assertCaseSuiteRevision currentRevision expectedRevision =
     (case currentRevision of
        None \<Rightarrow> Some (DomainError ''CASE_SUITE_NOT_FOUND'')
      | Some v \<Rightarrow> if v \<noteq> expectedRevision then Some (DomainError ''CASE_SUITE_REVISION_CONFLICT'')
                 else None)"

definition publicRequestKey :: "ident \<Rightarrow> ident \<Rightarrow> string \<Rightarrow> ident \<times> ident \<times> string" where
  "publicRequestKey suiteId publisherId requestKey = (suiteId, publisherId, requestKey)"

definition suite_check :: "create_tables \<Rightarrow> create_record \<Rightarrow> domain_error option" where
  "suite_check ct c =
     (case cb_expected_suite_revision c of
        None \<Rightarrow> None
      | Some e \<Rightarrow> assertCaseSuiteRevision (map_of (ct_suites ct) (cb_suite_id c)) e)"

definition public_check :: "create_tables \<Rightarrow> create_record \<Rightarrow> store \<Rightarrow> domain_error option" where
  "public_check ct c s =
     (case cb_public c of
        None \<Rightarrow> None
      | Some p \<Rightarrow>
          let key = publicRequestKey (cb_suite_id c) (pe_publisher p) (pe_request_key p)
          in if list_ex (\<lambda>b. bt_public_request_key b = Some key) (st_batches s)
               then Some (DomainError ''PUBLIC_EXECUTION_REPLAY'')
             else if \<not> ((cb_suite_id c, pe_publisher p) \<in> set (ct_links ct)
                 \<and> pe_publisher p \<in> set (ct_active_users ct))
               then Some (DomainError ''PUBLIC_SUITE_LINK_NOT_FOUND'')
             else if list_ex (\<lambda>b. bt_suite_id b = cb_suite_id c \<and> active_batch (bt_status b)
                 \<and> \<not> bt_case_log_rerun b) (st_batches s)
               then Some (DomainError ''PUBLIC_SUITE_EXECUTION_ACTIVE'')
             else None)"

definition next_sequence :: "store \<Rightarrow> int" where
  "next_sequence s =
     (if st_batches s = [] then 0 else Max (set (map bt_sequence_number (st_batches s)))) + 1"

definition new_batch_row :: "create_record \<Rightarrow> int \<Rightarrow> batch_row" where
  "new_batch_row c nextSequence =
     \<lparr>bt_id = cb_id c, bt_project_id = cb_project_id c, bt_sequence_number = nextSequence,
      bt_suite_id = cb_suite_id c, bt_case_log_rerun = cb_case_log_rerun c,
      bt_public_request_key =
        map_option (\<lambda>p. publicRequestKey (cb_suite_id c) (pe_publisher p) (pe_request_key p))
          (cb_public c),
      bt_status = B_Queued,
      bt_retry_limit = cb_retry_limit c, bt_retry_mode = or_default (cb_retry_mode c) Immediate,
      bt_current_round = 1, bt_queue_timeout_ms = or_default (cb_queue_timeout_ms c) 86400000,
      bt_claim_timeout_ms = or_default (cb_claim_timeout_ms c) 300000,
      bt_execution_timeout_ms = or_default (cb_execution_timeout_ms c) 3600000,
      bt_upload_timeout_ms = or_default (cb_upload_timeout_ms c) 600000,
      bt_priority = or_default (cb_priority c) 0, bt_environment = cb_environment c,
      bt_secret_bindings = cb_secret_bindings c, bt_policy = cb_policy c,
      bt_terminated_by = None, bt_attempt_logs_path = None, bt_cancel_requested_at = None,
      bt_pause_requested_at = None, bt_queue_resumed_at = None, bt_version = 1,
      bt_updated_at = cb_created_at c\<rparr>"

definition new_run_row :: "create_record \<Rightarrow> new_run \<Rightarrow> run_row" where
  "new_run_row c n =
     \<lparr>rr_id = nr_id n, rr_batch_id = cb_id c, rr_case_definition_id = nr_case_definition_id n,
      rr_display_name = nr_display_name n, rr_class_data = None, rr_class_data_size = None,
      rr_class_data_sha256 = None, rr_status = R_Queued, rr_assigned_runner_id = None,
      rr_attempt_count = 0, rr_execution_round = 1, rr_scheduling_score = None, rr_version = 1,
      rr_terminal_outcome = None, rr_terminal_reason_code = None, rr_cancel_requested_at = None,
      rr_queue_deadline_at = Some (queueDeadlineAfter (or_default (cb_scheduled_for c) (cb_created_at c))
        (or_default (cb_queue_timeout_ms c) 86400000)),
      rr_execution_timeout_ms = or_default (cb_execution_timeout_ms c) 3600000,
      rr_upload_timeout_ms = or_default (cb_upload_timeout_ms c) 600000,
      rr_assigned_at = None, rr_held_round = 0, rr_updated_at = cb_created_at c\<rparr>"

definition created_event :: "create_record \<Rightarrow> batch_event_row" where
  "created_event c =
     \<lparr>be_id = or_default (cb_event_id c) (cb_id c), be_batch_id = cb_id c, be_from_status = None,
      be_to_status = B_Queued, be_batch_version = 1, be_reason = ''batch.created'',
      be_recorded_at = cb_created_at c\<rparr>"

definition new_recovery_row :: "create_record \<Rightarrow> new_recovery \<Rightarrow> recovery_row" where
  "new_recovery_row c v =
     \<lparr>rv_batch_id = cb_id c, rv_rule_id = nv_rule_id v, rv_after_round = nv_after_round v,
      rv_next_round = nv_after_round v + 1, rv_jenkins_job_url = nv_jenkins_job_url v,
      rv_api_key_ciphertext = nv_api_key_ciphertext v, rv_wait_minutes = nv_wait_minutes v,
      rv_status = RV_Idle, rv_poll_failure_count = 0, rv_source_build_number = None,
      rv_rebuild_number = None, rv_rebuild_url = None, rv_available_at = cb_created_at c,
      rv_activated_at = None, rv_started_at = None, rv_finished_at = None, rv_build_result = None,
      rv_error_message = None, rv_lease_owner = None, rv_lease_expires_at = None,
      rv_created_at = cb_created_at c, rv_updated_at = cb_created_at c\<rparr>"

definition insert_batch :: "batch_row \<Rightarrow> store \<Rightarrow> domain_error + store" where
  "insert_batch b s =
     (if bt_public_request_key b \<noteq> None
         \<and> bt_public_request_key b \<in> bt_public_request_key ` set (st_batches s)
        then Inl (ConstraintError ''UNIQUE'')
      else and_then (insert_row bt_id b (st_batches s)) (\<lambda>rows. Inr (s\<lparr>st_batches := rows\<rparr>)))"

definition insert_recovery :: "recovery_row \<Rightarrow> store \<Rightarrow> domain_error + store" where
  "insert_recovery v s =
     and_then (insert_row (\<lambda>x. (rv_batch_id x, rv_rule_id x)) v (st_recoveries s))
       (\<lambda>rows. Inr (s\<lparr>st_recoveries := rows\<rparr>))"

definition insert_run :: "run_row \<Rightarrow> store \<Rightarrow> domain_error + store" where
  "insert_run r s =
     (if (rr_batch_id r, rr_case_definition_id r)
           \<in> (\<lambda>x. (rr_batch_id x, rr_case_definition_id x)) ` set (st_runs s)
        then Inl (ConstraintError ''UNIQUE'')
      else and_then (insert_row rr_id r (st_runs s)) (\<lambda>rows. Inr (s\<lparr>st_runs := rows\<rparr>)))"

text \<open>
  The transaction of \<open>create\<close>. The writes to the tables the model leaves out (round concurrencies,
  public access, queue jobs, audit) are not steps of it; of \<open>run_batch_runners\<close> only the unique
  index is.
\<close>

definition create_body :: "create_tables \<Rightarrow> create_record \<Rightarrow> store \<Rightarrow> domain_error + (ident \<times> store)" where
  "create_body ct c s =
     (case suite_check ct c of Some e \<Rightarrow> Inl e | None \<Rightarrow>
     (case public_check ct c s of Some e \<Rightarrow> Inl e | None \<Rightarrow>
        and_then (insert_batch (new_batch_row c (next_sequence s)) s) (\<lambda>s1.
        and_then (insert_batch_event (created_event c) s1) (\<lambda>s2.
          if \<not> distinct (cb_runner_ids c) then Inl (ConstraintError ''UNIQUE'')
          else
            and_then (insert_all insert_recovery (map (new_recovery_row c) (cb_recoveries c)) s2) (\<lambda>s3.
            and_then (insert_all insert_run (map (new_run_row c) (cb_runs c)) s3) (\<lambda>s4.
              Inr (cb_id c, s4)))))))"

definition create_batch ::
  "create_tables \<Rightarrow> create_record \<Rightarrow> store \<Rightarrow> (domain_error + ident) \<times> store" where
  "create_batch ct c s = transaction (create_body ct c) s"

end
