(* ===== verification/Exec_Place.thy ===== *)
theory Exec_Place
  imports Exec_Steps Reservation
begin

text \<open>
  Creating batches and reserving assignments are steps of the dispatch protocol: a created run waits,
  a reserved one is dispatched with an attempt and an assignment of its own. The limits of the
  reservation hold of the store it leaves.
\<close>

subsection \<open>Appending rows\<close>

text \<open>An insert statement appends its row when the key is new.\<close>

locale inserting = keyed_table rows set_rows key
  for rows :: "store \<Rightarrow> 'r list" and set_rows :: "('r list \<Rightarrow> 'r list) \<Rightarrow> store \<Rightarrow> store"
    and key :: "'r \<Rightarrow> 'k" +
  fixes ins :: "'r \<Rightarrow> store \<Rightarrow> domain_error + store"
  assumes ins_Inr: "ins x s = Inr t \<Longrightarrow>
      t = set_rows (\<lambda>rs. rs @ [x]) s \<and> key x \<notin> key ` set (rows s)"
    and set_compose: "set_rows f (set_rows g s) = set_rows (\<lambda>rs. f (g rs)) s"
    and set_id: "set_rows (\<lambda>rs. rs @ []) s = s"
begin

lemma insert_all_Inr:
  "insert_all ins xs s = Inr t \<Longrightarrow>
     t = set_rows (\<lambda>rs. rs @ xs) s \<and> distinct (map key xs) \<and> key ` set xs \<inter> key ` set (rows s) = {}"
proof (induction xs arbitrary: s)
  case Nil
  then show ?case by (simp only: insert_all.simps sum.inject set_id) simp
next
  case (Cons x xs)
  then obtain u where u: "ins x s = Inr u" "insert_all ins xs u = Inr t"
    by (auto simp: and_then_eq_Inr)
  have s: "u = set_rows (\<lambda>rs. rs @ [x]) s" "key x \<notin> key ` set (rows s)"
    using ins_Inr [OF u(1)] by auto
  have r: "t = set_rows (\<lambda>rs. rs @ xs) u" "distinct (map key xs)"
      "key ` set xs \<inter> key ` set (rows u) = {}"
    using Cons.IH [OF u(2)] by auto
  have "rows u = rows s @ [x]" by (simp add: s(1) rows_set)
  with r(2,3) s(2) show ?case
    by (auto simp: r(1) s(1) set_compose)
qed

end

interpretation attempts_by_id: inserting st_attempts st_attempts_update at_id insert_attempt
  by unfold_locales
    (auto simp: insert_attempt_def and_then_eq_Inr insert_row_Inr comp_def split: if_splits)

interpretation attempts_by_number: inserting st_attempts st_attempts_update
    "\<lambda>t. (at_run_id t, at_number t)" insert_attempt
  by unfold_locales
    (auto simp: insert_attempt_def and_then_eq_Inr insert_row_Inr comp_def split: if_splits)

interpretation assignments_by_id: inserting st_assignments st_assignments_update as_id
    insert_assignment
  by unfold_locales
    (auto simp: insert_assignment_def and_then_eq_Inr insert_row_Inr comp_def split: if_splits)

interpretation assignments_by_attempt: inserting st_assignments st_assignments_update as_attempt_id
    insert_assignment
  by unfold_locales
    (auto simp: insert_assignment_def and_then_eq_Inr insert_row_Inr comp_def split: if_splits)

interpretation runs_by_id: inserting st_runs st_runs_update rr_id insert_run
  by unfold_locales
    (auto simp: insert_run_def and_then_eq_Inr insert_row_Inr comp_def split: if_splits)

lemma row_by_app:
  "row_by key k (xs @ ys) = (case row_by key k xs of None \<Rightarrow> row_by key k ys | Some x \<Rightarrow> Some x)"
  by (induction xs) (auto simp: row_by_def)

lemma row_by_map_of: "map_option g (row_by key k xs) = map_of (map (\<lambda>x. (key x, g x)) xs) k"
  by (induction xs) (auto simp: row_by_def)

subsection \<open>Dispatching several runs\<close>

fun dispatch_all :: "(ident \<times> ident \<times> ident) list \<Rightarrow> proto \<Rightarrow> proto" where
  "dispatch_all [] p = p"
| "dispatch_all ((r, t, a) # ds) p = dispatch_all ds (p_dispatch r t a p)"

lemma dispatch_all_steps:
  assumes "distinct (map fst ds)" "distinct (map (\<lambda>(r, t, a). t) ds)"
    "distinct (map (\<lambda>(r, t, a). a) ds)"
    "\<And>r t a. (r, t, a) \<in> set ds \<Longrightarrow>
       p_run p r = Some Waiting \<and> p_att p t = None \<and> p_asg p a = None"
  shows "pstep\<^sup>*\<^sup>* p (dispatch_all ds p)"
  using assms
proof (induction ds arbitrary: p)
  case (Cons d ds)
  obtain r t a where d: "d = (r, t, a)" using prod_cases3 by blast
  have "pstep p (p_dispatch r t a p)"
    using Cons.prems(4) [of r t a] by (intro pstep.dispatch) (simp_all add: d)
  moreover have "pstep\<^sup>*\<^sup>* (p_dispatch r t a p) (dispatch_all ds (p_dispatch r t a p))"
  proof (rule Cons.IH)
    fix r' t' a' assume mem: "(r', t', a') \<in> set ds"
    then have "r' \<noteq> r" "t' \<noteq> t" "a' \<noteq> a" using Cons.prems(1-3) by (force simp: d)+
    then show "p_run (p_dispatch r t a p) r' = Some Waiting \<and> p_att (p_dispatch r t a p) t' = None
        \<and> p_asg (p_dispatch r t a p) a' = None"
      using Cons.prems(4) [of r' t' a'] mem by (simp add: p_dispatch_def)
  qed (use Cons.prems in \<open>simp_all add: d\<close>)
  ultimately show ?case by (simp add: d converse_rtranclp_into_rtranclp)
qed simp

lemma dispatch_all_run:
  "p_run (dispatch_all ds p) k = (if k \<in> fst ` set ds then Some Busy else p_run p k)"
  by (induction ds p rule: dispatch_all.induct) (auto simp: p_dispatch_def)

lemma dispatch_all_att:
  "distinct (map (\<lambda>(r, t, a). t) ds) \<Longrightarrow> p_att (dispatch_all ds p) k =
     (case map_of (map (\<lambda>(r, t, a). (t, (r, True))) ds) k of None \<Rightarrow> p_att p k | Some v \<Rightarrow> Some v)"
proof (induction ds p rule: dispatch_all.induct)
  case (2 r t a ds p)
  have "t \<notin> (\<lambda>(r, t, a). t) ` set ds" using 2(2) by simp
  then have "map_of (map (\<lambda>(r, t, a). (t, (r, True))) ds) t = None"
    by (force simp: map_of_eq_None_iff)
  with 2 show ?case by (auto simp: p_dispatch_def split: option.split)
qed simp

lemma dispatch_all_asg:
  "distinct (map (\<lambda>(r, t, a). a) ds) \<Longrightarrow> p_asg (dispatch_all ds p) k =
     (case map_of (map (\<lambda>(r, t, a). (a, (t, Offered))) ds) k of None \<Rightarrow> p_asg p k | Some v \<Rightarrow> Some v)"
proof (induction ds p rule: dispatch_all.induct)
  case (2 r t a ds p)
  have "a \<notin> (\<lambda>(r, t, a). a) ` set ds" using 2(2) by simp
  then have "map_of (map (\<lambda>(r, t, a). (a, (t, Offered))) ds) a = None"
    by (force simp: map_of_eq_None_iff)
  with 2 show ?case by (auto simp: p_dispatch_def split: option.split)
qed simp

lemma dispatch_all_lease [simp]: "p_lease (dispatch_all ds p) = p_lease p"
  by (induction ds p rule: dispatch_all.induct) (auto simp: p_dispatch_def)

subsection \<open>The runs a reservation takes\<close>

lemma assign_run_keys [simp]:
  "rr_id (assign_run i chunk r) = rr_id r" "rr_batch_id (assign_run i chunk r) = rr_batch_id r"
  by (simp_all add: assign_run_def split: option.split)

lemma assign_run_taken:
  assumes "to_assign i chunk s r"
  shows "rr_status (assign_run i chunk r) = R_Assigned"
    "rr_attempt_count (assign_run i chunk r) = rr_attempt_count r + 1"
  using assms by (auto simp: to_assign_def assign_run_def)

lemma decision_for_NoneI: "decision_for chunk k \<noteq> None \<longleftrightarrow> k \<in> (\<lambda>(d, score). dn_run_id d) ` set chunk"
  by (force simp: decision_for_def find_None_iff)

definition taken_ids :: "reserved list \<Rightarrow> (ident \<times> ident \<times> ident) list" where
  "taken_ids rds = map (\<lambda>(d, score, r). (dn_run_id d, dn_attempt_id d, dn_assignment_id d)) rds"

lemma reserved_in:
  assumes "(d, score, r) \<in> set (reserved_decisions chunk (assigned_rows i chunk s))"
  obtains r0 where "r0 \<in> set (st_runs s)" "to_assign i chunk s r0" "r = assign_run i chunk r0"
    "rr_id r0 = dn_run_id d"
proof -
  have "row_by rr_id (dn_run_id d) (assigned_rows i chunk s) = Some r"
    using assms by (auto simp: reserved_decisions_def List.map_filter_def)
  then have "r \<in> set (assigned_rows i chunk s)" "rr_id r = dn_run_id d"
    by (auto dest: row_by_SomeD)
  then show thesis by (auto simp: assigned_rows_def intro: that)
qed

lemma reserved_out:
  assumes "r0 \<in> set (st_runs s)" "to_assign i chunk s r0"
  obtains d score r where "(d, score, r) \<in> set (reserved_decisions chunk (assigned_rows i chunk s))"
    "dn_run_id d = rr_id r0"
proof -
  have "rr_id r0 \<in> (\<lambda>(d, score). dn_run_id d) ` set chunk"
    using assms(2) unfolding to_assign_def decision_for_NoneI by blast
  then obtain d score where d: "(d, score) \<in> set chunk" "dn_run_id d = rr_id r0" by auto
  have "rr_id r0 \<in> rr_id ` set (assigned_rows i chunk s)"
    using assms by (simp add: assigned_rows_def image_image)
  then obtain r where "row_by rr_id (rr_id r0) (assigned_rows i chunk s) = Some r"
    using row_by_None [of rr_id "rr_id r0" "assigned_rows i chunk s"] by fastforce
  with d have "(d, score, r) \<in> set (reserved_decisions chunk (assigned_rows i chunk s))"
    by (force simp: reserved_decisions_def List.map_filter_def)
  then show thesis using d(2) by (rule that)
qed

lemma reserve_chunk_Inr:
  assumes "reserve_chunk tb i b chunk s = Inr (ids, t)"
  obtains rds where "rds = reserved_decisions chunk (assigned_rows i chunk s)"
    "ids = map (\<lambda>(d, score, r). dn_attempt_id d) rds"
    "t = (assign_runs i chunk s)\<lparr>st_attempts := st_attempts s @ map (new_attempt i) rds,
           st_assignments := st_assignments s @ map (new_assignment tb i b) rds\<rparr>"
    "distinct (map at_id (map (new_attempt i) rds))"
    "at_id ` set (map (new_attempt i) rds) \<inter> at_id ` set (st_attempts s) = {}"
    "distinct (map (\<lambda>t. (at_run_id t, at_number t)) (map (new_attempt i) rds))"
    "distinct (map as_id (map (new_assignment tb i b) rds))"
    "as_id ` set (map (new_assignment tb i b) rds) \<inter> as_id ` set (st_assignments s) = {}"
    "distinct (map as_attempt_id (map (new_assignment tb i b) rds))"
    "as_attempt_id ` set (map (new_assignment tb i b) rds) \<inter> as_attempt_id ` set (st_assignments s) = {}"
proof -
  define rds where "rds = reserved_decisions chunk (assigned_rows i chunk s)"
  define s1 where "s1 = assign_runs i chunk s"
  have s1: "st_attempts s1 = st_attempts s" "st_assignments s1 = st_assignments s"
    by (simp_all add: s1_def assign_runs_def)
  show thesis
  proof (cases "rds = []")
    case True
    then have "ids = []" "t = s1"
      using assms by (simp_all add: reserve_chunk_def Let_def rds_def [symmetric] s1_def [symmetric])
    then show thesis
      using True s1 by (intro that [OF rds_def]) (simp_all add: s1_def [symmetric])
  next
    case False
    then obtain s2 s3 where s2: "insert_all insert_attempt (map (new_attempt i) rds) s1 = Inr s2"
        and s3: "insert_all insert_assignment (map (new_assignment tb i b) rds) s2 = Inr s3"
        and r: "ids = map (\<lambda>(d, score, r). dn_attempt_id d) rds" "t = s3"
      using assms
      by (auto simp: reserve_chunk_def Let_def rds_def [symmetric] s1_def [symmetric] and_then_eq_Inr
          split: option.splits)
    note a = attempts_by_id.insert_all_Inr [OF s2, unfolded s1]
      attempts_by_number.insert_all_Inr [OF s2, unfolded s1]
    then have e2: "s2 = s1\<lparr>st_attempts := st_attempts s @ map (new_attempt i) rds\<rparr>"
      by (simp add: s1)
    have old: "st_assignments s2 = st_assignments s" by (simp add: e2 s1)
    note c = assignments_by_id.insert_all_Inr [OF s3, unfolded old]
      assignments_by_attempt.insert_all_Inr [OF s3, unfolded old]
    then have e3: "t = s1\<lparr>st_attempts := st_attempts s @ map (new_attempt i) rds,
           st_assignments := st_assignments s @ map (new_assignment tb i b) rds\<rparr>"
      using r(2) by (simp add: e2 s1)
    show thesis
      by (rule that [OF rds_def r(1) e3 [unfolded s1_def]])
        (use a c in \<open>simp_all only: simp_thms\<close>)
  qed
qed

lemma new_attempt_fields [simp]:
  "at_id (new_attempt i (d, score, r)) = dn_attempt_id d"
  "at_run_id (new_attempt i (d, score, r)) = dn_run_id d"
  "at_number (new_attempt i (d, score, r)) = rr_attempt_count r"
  "at_status (new_attempt i (d, score, r)) = T_Assigned"
  "at_runner_id (new_attempt i (d, score, r)) = dn_runner_id d"
  by (simp_all add: new_attempt_def)

lemma new_attempt_memE:
  assumes "x \<in> set (map (new_attempt i) rds)"
  obtains d score r where "(d, score, r) \<in> set rds" "x = new_attempt i (d, score, r)"
  using assms by auto

lemma new_assignment_fields [simp]:
  "as_id (new_assignment tb i b (d, score, r)) = dn_assignment_id d"
  "as_attempt_id (new_assignment tb i b (d, score, r)) = dn_attempt_id d"
  "as_run_id (new_assignment tb i b (d, score, r)) = dn_run_id d"
  "as_batch_id (new_assignment tb i b (d, score, r)) = ru_batch i"
  "as_status (new_assignment tb i b (d, score, r)) = A_Pending"
  by (simp_all add: new_assignment_def)

definition advances :: "store \<Rightarrow> store \<Rightarrow> bool" where
  "advances s t \<longleftrightarrow> store_ok t \<and> pstep\<^sup>*\<^sup>* (abs_store s) (abs_store t)"

lemma advances_refl: "store_ok s \<Longrightarrow> advances s s"
  by (simp add: advances_def)

lemma advances_trans: "advances s t \<Longrightarrow> advances t u \<Longrightarrow> advances s u"
  by (auto simp: advances_def)

lemma refines_advances: "store_ok s \<Longrightarrow> refines s t \<Longrightarrow> advances s t"
  using refines_ok by (auto simp: advances_def refines_def)

text \<open>
  The state after the three statements of a chunk: the taken runs, and what was appended.
\<close>

definition chunk_state ::
  "reserve_tables \<Rightarrow> reserve_input \<Rightarrow> batch_row \<Rightarrow> (reserve_decision \<times> rat) list \<Rightarrow> reserved list \<Rightarrow>
   store \<Rightarrow> store" where
  "chunk_state tb i b chunk rds s =
     (assign_runs i chunk s)\<lparr>st_attempts := st_attempts s @ map (new_attempt i) rds,
        st_assignments := st_assignments s @ map (new_assignment tb i b) rds\<rparr>"

lemma chunk_state_tables [simp]:
  "st_runs (chunk_state tb i b chunk rds s) =
     update_where (to_assign i chunk s) (assign_run i chunk) (st_runs s)"
  "st_attempts (chunk_state tb i b chunk rds s) = st_attempts s @ map (new_attempt i) rds"
  "st_assignments (chunk_state tb i b chunk rds s) =
     st_assignments s @ map (new_assignment tb i b) rds"
  "st_leases (chunk_state tb i b chunk rds s) = st_leases s"
  "st_batches (chunk_state tb i b chunk rds s) = st_batches s"
  by (simp_all add: chunk_state_def assign_runs_def)

text \<open>What the constraints of the tables say of the taken rows.\<close>

definition fresh_rows :: "reserved list \<Rightarrow> store \<Rightarrow> bool" where
  "fresh_rows rds s \<longleftrightarrow>
     distinct (map (\<lambda>(d, score, r). dn_run_id d) rds) \<and>
     distinct (map (\<lambda>(d, score, r). dn_attempt_id d) rds) \<and>
     distinct (map (\<lambda>(d, score, r). dn_assignment_id d) rds) \<and>
     (\<forall>(d, score, r)\<in>set rds. dn_attempt_id d \<notin> at_id ` set (st_attempts s)
        \<and> dn_assignment_id d \<notin> as_id ` set (st_assignments s)
        \<and> dn_attempt_id d \<notin> as_attempt_id ` set (st_assignments s))"

lemma fresh_rowsD:
  assumes "fresh_rows rds s" "(d, score, r) \<in> set rds"
  shows "x \<in> set (st_attempts s) \<Longrightarrow> at_id x \<noteq> dn_attempt_id d"
    and "a \<in> set (st_assignments s) \<Longrightarrow> as_id a \<noteq> dn_assignment_id d"
    and "a \<in> set (st_assignments s) \<Longrightarrow> as_attempt_id a \<noteq> dn_attempt_id d"
proof -
  have "dn_attempt_id d \<notin> at_id ` set (st_attempts s)
        \<and> dn_assignment_id d \<notin> as_id ` set (st_assignments s)
        \<and> dn_attempt_id d \<notin> as_attempt_id ` set (st_assignments s)"
    using assms unfolding fresh_rows_def by blast
  then show "x \<in> set (st_attempts s) \<Longrightarrow> at_id x \<noteq> dn_attempt_id d"
    and "a \<in> set (st_assignments s) \<Longrightarrow> as_id a \<noteq> dn_assignment_id d"
    and "a \<in> set (st_assignments s) \<Longrightarrow> as_attempt_id a \<noteq> dn_attempt_id d"
    by force+
qed

lemma map_new_rows:
  "map at_id (map (new_attempt i) rds) = map (\<lambda>(d, score, r). dn_attempt_id d) rds"
  "map as_id (map (new_assignment tb i b) rds) = map (\<lambda>(d, score, r). dn_assignment_id d) rds"
  "map as_attempt_id (map (new_assignment tb i b) rds) = map (\<lambda>(d, score, r). dn_attempt_id d) rds"
  by auto

lemma reserve_chunk_state:
  assumes "reserve_chunk tb i b chunk s = Inr (ids, t)"
  obtains rds where "rds = reserved_decisions chunk (assigned_rows i chunk s)"
    "ids = map (\<lambda>(d, score, r). dn_attempt_id d) rds" "t = chunk_state tb i b chunk rds s"
    "fresh_rows rds s"
  using assms
proof (cases rule: reserve_chunk_Inr)
  case (1 rds)
  have number: "rr_attempt_count r = rr_attempt_count r'"
    if "(d, score, r) \<in> set rds" "(d', score', r') \<in> set rds" "dn_run_id d = dn_run_id d'"
    for d score r d' score' r'
    using that unfolding 1(1) by (auto simp: reserved_decisions_def List.map_filter_def)
  have "inj_on (\<lambda>t. at_run_id t) (set (map (new_attempt i) rds))"
  proof (rule inj_onI)
    fix x y assume xy: "x \<in> set (map (new_attempt i) rds)" "y \<in> set (map (new_attempt i) rds)"
      "at_run_id x = at_run_id y"
    obtain d sc r where x: "(d, sc, r) \<in> set rds" "x = new_attempt i (d, sc, r)"
      using xy(1) by (rule new_attempt_memE)
    obtain d' sc' r' where y: "(d', sc', r') \<in> set rds" "y = new_attempt i (d', sc', r')"
      using xy(2) by (rule new_attempt_memE)
    have "at_number x = at_number y" using number [OF x(1) y(1)] xy(3) by (simp add: x(2) y(2))
    then show "x = y" using distinct_map_eqD [OF 1(6) xy(1,2)] xy(3) by simp
  qed
  then have "distinct (map at_run_id (map (new_attempt i) rds))"
    using 1(6) unfolding distinct_map [of _ "map (new_attempt i) rds"] by blast
  moreover have "map at_run_id (map (new_attempt i) rds) = map (\<lambda>(d, score, r). dn_run_id d) rds"
    by auto
  ultimately have "distinct (map (\<lambda>(d, score, r). dn_run_id d) rds)" by argo
  moreover note 1(4,7) [unfolded map_new_rows]
  moreover have "dn_attempt_id d \<notin> at_id ` set (st_attempts s)
        \<and> dn_assignment_id d \<notin> as_id ` set (st_assignments s)
        \<and> dn_attempt_id d \<notin> as_attempt_id ` set (st_assignments s)"
    if "(d, score, r) \<in> set rds" for d score r
  proof -
    have "dn_attempt_id d \<in> at_id ` set (map (new_attempt i) rds)"
      "dn_assignment_id d \<in> as_id ` set (map (new_assignment tb i b) rds)"
      "dn_attempt_id d \<in> as_attempt_id ` set (map (new_assignment tb i b) rds)"
      using that by (force simp: image_image)+
    then show ?thesis using 1(5,8,10) by blast
  qed
  ultimately have "fresh_rows rds s" unfolding fresh_rows_def by blast
  then show ?thesis by (rule that [OF 1(1,2) 1(3) [folded chunk_state_def]])
qed

lemma taken_run:
  assumes "(d, score, r) \<in> set (reserved_decisions chunk (assigned_rows i chunk s))"
  obtains r0 where "r0 \<in> set (st_runs s)" "to_assign i chunk s r0" "r = assign_run i chunk r0"
    "rr_id r0 = dn_run_id d" "rr_status r0 = R_Queued" "rr_batch_id r0 = ru_batch i"
    "rr_attempt_count r = rr_attempt_count r0 + 1"
  using assms
proof (cases rule: reserved_in)
  case (1 r0)
  then show ?thesis
    using that [OF 1] assign_run_taken(2) [OF 1(2)] by (simp add: to_assign_def reservable_def)
qed

lemma to_assign_iff:
  assumes "linked s" "r0 \<in> set (st_runs s)"
    "rds = reserved_decisions chunk (assigned_rows i chunk s)"
  shows "to_assign i chunk s r0 \<longleftrightarrow> rr_id r0 \<in> fst ` set (taken_ids rds)"
proof
  assume "to_assign i chunk s r0"
  then obtain d score r where "(d, score, r) \<in> set rds" "dn_run_id d = rr_id r0"
    using assms(2,3) by (auto elim: reserved_out)
  then show "rr_id r0 \<in> fst ` set (taken_ids rds)" by (force simp: taken_ids_def)
next
  assume "rr_id r0 \<in> fst ` set (taken_ids rds)"
  then obtain d score r where d: "(d, score, r) \<in> set rds" "dn_run_id d = rr_id r0"
    by (auto simp: taken_ids_def)
  obtain r1 where "r1 \<in> set (st_runs s)" "to_assign i chunk s r1" "rr_id r1 = dn_run_id d"
    using d(1) unfolding assms(3) by (rule taken_run)
  then show "to_assign i chunk s r0"
    using linked_run_eq [OF assms(1) _ assms(2)] d(2) by metis
qed

lemma taken_ids_projections:
  "map fst (taken_ids rds) = map (\<lambda>(d, score, r). dn_run_id d) rds"
  "map (\<lambda>(r, t, a). t) (taken_ids rds) = map (\<lambda>(d, score, r). dn_attempt_id d) rds"
  "map (\<lambda>(r, t, a). a) (taken_ids rds) = map (\<lambda>(d, score, r). dn_assignment_id d) rds"
  by (auto simp: taken_ids_def)

lemma taken_ids_maps:
  "map (\<lambda>(r, t, a). (t, (r, True))) (taken_ids rds) =
     map (\<lambda>x. (at_id x, (at_run_id x, active_attempt (at_status x)))) (map (new_attempt i) rds)"
  "map (\<lambda>(r, t, a). (a, (t, Offered))) (taken_ids rds) =
     map (\<lambda>x. (as_id x, (as_attempt_id x, phase_of_offer (as_status x))))
       (map (new_assignment tb i b) rds)"
  by (auto simp: taken_ids_def)

lemma chunk_state_abs:
  assumes "store_ok s" "rds = reserved_decisions chunk (assigned_rows i chunk s)" "fresh_rows rds s"
  shows "abs_store (chunk_state tb i b chunk rds s) = dispatch_all (taken_ids rds) (abs_store s)"
    (is "abs_store ?t = ?q")
proof -
  note lk = store_okD(1) [OF assms(1)]
  have dis: "distinct (map (\<lambda>(r, t, a). t) (taken_ids rds))"
      "distinct (map (\<lambda>(r, t, a). a) (taken_ids rds))"
    using assms(3) by (simp_all add: taken_ids_projections fresh_rows_def)
  have run: "p_run (abs_store ?t) k = p_run ?q k" for k
  proof (cases "row_by rr_id k (st_runs s)")
    case None
    then have "k \<notin> fst ` set (taken_ids rds)"
      unfolding row_by_None assms(2) taken_ids_def by (force elim: taken_run)
    then show ?thesis
      using None by (simp add: abs_store_def dispatch_all_run row_by_update)
  next
    case (Some r0)
    note r0 = row_by_SomeD [OF Some]
    have "to_assign i chunk s r0 \<longleftrightarrow> k \<in> fst ` set (taken_ids rds)"
      using to_assign_iff [OF lk _ assms(2), of r0] r0 by simp
    then show ?thesis
      using Some assign_run_taken(1) [of i chunk s r0]
      by (simp add: abs_store_def dispatch_all_run row_by_update)
  qed
  have att: "p_att (abs_store ?t) k = p_att ?q k" for k
  proof (cases "row_by at_id k (st_attempts s)")
    case None
    then have "p_att (abs_store ?t) k =
        map_option (\<lambda>x. (at_run_id x, active_attempt (at_status x)))
          (row_by at_id k (map (new_attempt i) rds))" "p_att (abs_store s) k = None"
      by (simp_all add: abs_store_def row_by_app)
    then show ?thesis
      unfolding row_by_map_of taken_ids_maps(1) [symmetric] dispatch_all_att [OF dis(1)]
      by (simp split: option.split)
  next
    case (Some x)
    then have "k \<notin> set (map at_id (map (new_attempt i) rds))"
      using row_by_SomeD [OF Some] fresh_rowsD [OF assms(3)]
      unfolding map_new_rows by auto
    then have "map_of (map (\<lambda>(r, t, a). (t, (r, True))) (taken_ids rds)) k = None"
      unfolding taken_ids_maps(1) [of rds i] map_of_eq_None_iff by force
    then show ?thesis
      using Some by (simp add: abs_store_def dispatch_all_att [OF dis(1)] row_by_app)
  qed
  have asg: "p_asg (abs_store ?t) k = p_asg ?q k" for k
  proof (cases "row_by as_id k (st_assignments s)")
    case None
    then have "p_asg (abs_store ?t) k =
        map_option (\<lambda>x. (as_attempt_id x, phase_of_offer (as_status x)))
          (row_by as_id k (map (new_assignment tb i b) rds))" "p_asg (abs_store s) k = None"
      by (simp_all add: abs_store_def row_by_app)
    then show ?thesis
      unfolding row_by_map_of taken_ids_maps(2) [symmetric] dispatch_all_asg [OF dis(2)]
      by (simp split: option.split)
  next
    case (Some x)
    then have "k \<notin> set (map as_id (map (new_assignment tb i b) rds))"
      using row_by_SomeD [OF Some] fresh_rowsD [OF assms(3)]
      unfolding map_new_rows by auto
    then have "map_of (map (\<lambda>(r, t, a). (a, (t, Offered))) (taken_ids rds)) k = None"
      unfolding taken_ids_maps(2) [of rds tb i b] map_of_eq_None_iff by force
    then show ?thesis
      using Some by (simp add: abs_store_def dispatch_all_asg [OF dis(2)] row_by_app)
  qed
  have "p_lease (abs_store ?t) = p_lease ?q" by (simp add: abs_store_def)
  then show ?thesis using run att asg by (intro proto.equality) auto
qed

lemma dispatch_taken:
  assumes "store_ok s" "rds = reserved_decisions chunk (assigned_rows i chunk s)" "fresh_rows rds s"
  shows "pstep\<^sup>*\<^sup>* (abs_store s) (dispatch_all (taken_ids rds) (abs_store s))"
proof (rule dispatch_all_steps)
  fix r t a assume "(r, t, a) \<in> set (taken_ids rds)"
  then obtain d score x where d: "(d, score, x) \<in> set rds" "r = dn_run_id d" "t = dn_attempt_id d"
      "a = dn_assignment_id d"
    by (auto simp: taken_ids_def)
  obtain r0 where r0: "r0 \<in> set (st_runs s)" "rr_id r0 = dn_run_id d" "rr_status r0 = R_Queued"
    using d(1) unfolding assms(2) by (rule taken_run)
  have "p_run (abs_store s) r = Some Waiting"
    using abs_rows(1) [OF store_okD(1) [OF assms(1)] r0(1)] r0(2,3) d(2) by simp
  moreover have "t \<notin> at_id ` set (st_attempts s)" "a \<notin> as_id ` set (st_assignments s)"
    using assms(3) d by (auto simp: fresh_rows_def)
  then have "p_att (abs_store s) t = None" "p_asg (abs_store s) a = None"
    by (simp_all add: abs_store_def row_by_None)
  ultimately show "p_run (abs_store s) r = Some Waiting \<and> p_att (abs_store s) t = None
      \<and> p_asg (abs_store s) a = None" by blast
qed (use assms(3) in \<open>simp_all add: taken_ids_projections fresh_rows_def\<close>)

lemma chunk_state_shapes:
  "batch_shape (chunk_state tb i b chunk rds s) = batch_shape s"
  "run_shape (chunk_state tb i b chunk rds s) = run_shape s"
  "attempt_shape (chunk_state tb i b chunk rds s) = attempt_shape s
     @ map (\<lambda>(d, score, r). (dn_attempt_id d, dn_run_id d, rr_attempt_count r)) rds"
  "assignment_shape (chunk_state tb i b chunk rds s) = assignment_shape s
     @ map (\<lambda>(d, score, r). (dn_assignment_id d, dn_attempt_id d, dn_run_id d, ru_batch i)) rds"
  "lease_shape (chunk_state tb i b chunk rds s) = lease_shape s"
  by (auto simp: shape_defs update_where_def)

lemma chunk_state_linked:
  assumes "linked s" "rds = reserved_decisions chunk (assigned_rows i chunk s)" "fresh_rows rds s"
  shows "linked (chunk_state tb i b chunk rds s)"
proof -
  have taken: "(dn_run_id d, ru_batch i) \<in> set (run_shape s)" if mem: "(d, score, r) \<in> set rds" for d score r
  proof -
    obtain r0 where "r0 \<in> set (st_runs s)" "rr_id r0 = dn_run_id d" "rr_batch_id r0 = ru_batch i"
      using mem unfolding assms(2) by (rule taken_run)
    then show ?thesis by (force simp: run_shape_def)
  qed
  have ids: "fst ` set (attempt_shape s) = at_id ` set (st_attempts s)"
      "fst ` set (assignment_shape s) = as_id ` set (st_assignments s)"
      "(\<lambda>(a, t, _). t) ` set (assignment_shape s) = as_attempt_id ` set (st_assignments s)"
    by (force simp: attempt_shape_def assignment_shape_def)+
  have d1: "distinct (map (\<lambda>(d, score, r). dn_attempt_id d) rds)"
      "distinct (map (\<lambda>(d, score, r). dn_assignment_id d) rds)"
    using assms(3) by (simp_all add: fresh_rows_def)
  have d2: "fst ` set (attempt_shape s) \<inter> (\<lambda>(d, score, r). dn_attempt_id d) ` set rds = {}"
      "fst ` set (assignment_shape s) \<inter> (\<lambda>(d, score, r). dn_assignment_id d) ` set rds = {}"
      "(\<lambda>(a, t, _). t) ` set (assignment_shape s) \<inter> (\<lambda>(d, score, r). dn_attempt_id d) ` set rds = {}"
    using fresh_rowsD [OF assms(3)] unfolding ids by (auto 4 4)
  have m: "map fst (map (\<lambda>(d, score, r). (dn_attempt_id d, dn_run_id d, rr_attempt_count r)) rds)
        = map (\<lambda>(d, score, r). dn_attempt_id d) rds"
      "map fst (map (\<lambda>(d, score, r). (dn_assignment_id d, dn_attempt_id d, dn_run_id d, ru_batch i)) rds)
        = map (\<lambda>(d, score, r). dn_assignment_id d) rds"
      "map (\<lambda>(a, t, _). t)
        (map (\<lambda>(d, score, r). (dn_assignment_id d, dn_attempt_id d, dn_run_id d, ru_batch i)) rds)
        = map (\<lambda>(d, score, r). dn_attempt_id d) rds"
    by auto
  have keys: "distinct (map fst (attempt_shape (chunk_state tb i b chunk rds s)))"
      "distinct (map fst (assignment_shape (chunk_state tb i b chunk rds s)))"
      "distinct (map (\<lambda>(a, t, _). t) (assignment_shape (chunk_state tb i b chunk rds s)))"
    unfolding chunk_state_shapes map_append m distinct_append
    using assms(1) d1 d2 by (simp_all add: linked_def)
  have old: "\<forall>(t, r, n)\<in>set (attempt_shape s). r \<in> fst ` set (run_shape s)"
      "\<forall>(a, t, r, b)\<in>set (assignment_shape s).
        (r, b) \<in> set (run_shape s) \<and> (\<exists>n. (t, r, n) \<in> set (attempt_shape s))"
      "\<forall>(l, a)\<in>set (lease_shape s). a \<in> fst ` set (assignment_shape s)"
    using assms(1) unfolding linked_def by blast+
  have att: "(dn_attempt_id d, dn_run_id d, rr_attempt_count r)
      \<in> set (attempt_shape (chunk_state tb i b chunk rds s))" if "(d, score, r) \<in> set rds" for d score r
    using that unfolding chunk_state_shapes(3) set_append by force
  have old_att: "x \<in> set (attempt_shape (chunk_state tb i b chunk rds s))"
    if "x \<in> set (attempt_shape s)" for x
    using that unfolding chunk_state_shapes(3) set_append by blast
  have refs: "\<forall>(t, r, n)\<in>set (attempt_shape (chunk_state tb i b chunk rds s)).
        r \<in> fst ` set (run_shape s)"
    using old(1) taken unfolding chunk_state_shapes(3) set_append by force
  have asg: "\<forall>(a, t, r, b')\<in>set (assignment_shape (chunk_state tb i b chunk rds s)).
        (r, b') \<in> set (run_shape s)
        \<and> (\<exists>n. (t, r, n) \<in> set (attempt_shape (chunk_state tb i b chunk rds s)))"
    unfolding chunk_state_shapes(4) set_append ball_Un
  proof
    show "\<forall>(a, t, r, b')\<in>set (assignment_shape s). (r, b') \<in> set (run_shape s)
        \<and> (\<exists>n. (t, r, n) \<in> set (attempt_shape (chunk_state tb i b chunk rds s)))"
      using old(2) old_att by blast
    show "\<forall>(a, t, r, b')\<in>set (map (\<lambda>(d, score, r).
          (dn_assignment_id d, dn_attempt_id d, dn_run_id d, ru_batch i)) rds).
        (r, b') \<in> set (run_shape s)
        \<and> (\<exists>n. (t, r, n) \<in> set (attempt_shape (chunk_state tb i b chunk rds s)))"
      using taken att by fastforce
  qed
  have lease: "\<forall>(l, a)\<in>set (lease_shape s).
        a \<in> fst ` set (assignment_shape (chunk_state tb i b chunk rds s))"
    using old(3) unfolding chunk_state_shapes(4) set_append image_Un by blast
  have base: "distinct (batch_shape s)" "distinct (map fst (run_shape s))"
      "distinct (map fst (lease_shape s))" "\<forall>(r, b)\<in>set (run_shape s). b \<in> set (batch_shape s)"
    using assms(1) unfolding linked_def by blast+
  show ?thesis
    unfolding linked_def chunk_state_shapes(1,2,5)
    by (intro conjI base keys refs asg lease)
qed

lemma taken_number:
  assumes "store_ok s" "rds = reserved_decisions chunk (assigned_rows i chunk s)"
    "(d, score, r) \<in> set rds" "(t, dn_run_id d, n) \<in> set (attempt_shape s)"
  shows "n < rr_attempt_count r"
proof -
  obtain r0 where r0: "r0 \<in> set (st_runs s)" "rr_id r0 = dn_run_id d"
      "rr_attempt_count r = rr_attempt_count r0 + 1"
    using assms(3) unfolding assms(2) by (rule taken_run)
  have "(rr_id r0, rr_attempt_count r0) \<in> set (count_shape s)"
    using r0(1) by (auto simp: count_shape_def)
  then have "n \<le> rr_attempt_count r0"
    using assms(1,4) r0(2) unfolding store_ok_def counted_def by fastforce
  then show ?thesis using r0(3) by simp
qed

lemma chunk_state_counted:
  assumes "store_ok s" "rds = reserved_decisions chunk (assigned_rows i chunk s)" "fresh_rows rds s"
  shows "counted (chunk_state tb i b chunk rds s)"
proof -
  note lk = store_okD(1) [OF assms(1)]
  have "n \<le> c" if tn: "(t, k, n) \<in> set (attempt_shape (chunk_state tb i b chunk rds s))"
    and kc: "(k, c) \<in> set (count_shape (chunk_state tb i b chunk rds s))" for t k n c
  proof -
    obtain r1 where r1: "r1 \<in> set (st_runs s)" "rr_id r1 = k"
        "c = (if to_assign i chunk s r1 then rr_attempt_count r1 + 1 else rr_attempt_count r1)"
      using kc assign_run_taken(2) [of i chunk s]
      by (auto simp: count_shape_def update_where_def split: if_splits)
    consider (old) "(t, k, n) \<in> set (attempt_shape s)"
      | (new) d score r where "(d, score, r) \<in> set rds" "k = dn_run_id d" "n = rr_attempt_count r"
      using tn unfolding chunk_state_shapes(3) set_append by auto
    then show "n \<le> c"
    proof cases
      case old
      have "(k, rr_attempt_count r1) \<in> set (count_shape s)" using r1 by (auto simp: count_shape_def)
      then have "n \<le> rr_attempt_count r1"
        using assms(1) old unfolding store_ok_def counted_def by fastforce
      then show ?thesis by (simp add: r1(3))
    next
      case new
      obtain r0 where r0: "r0 \<in> set (st_runs s)" "rr_id r0 = dn_run_id d" "to_assign i chunk s r0"
          "rr_attempt_count r = rr_attempt_count r0 + 1"
        using new(1) unfolding assms(2) by (rule taken_run)
      then have "r0 = r1" using linked_run_eq [OF lk r0(1) r1(1)] new(2) r1(2) by simp
      then show ?thesis using r0(3,4) r1(3) new(3) by simp
    qed
  qed
  then show ?thesis unfolding counted_def by blast
qed

lemma chunk_state_newest:
  assumes "store_ok s" "rds = reserved_decisions chunk (assigned_rows i chunk s)" "fresh_rows rds s"
  shows "newest_active (chunk_state tb i b chunk rds s)"
proof -
  let ?t = "chunk_state tb i b chunk rds s"
  note ok = store_okD [OF assms(1)]
  have dis: "distinct (map (\<lambda>(r, t, a). t) (taken_ids rds))"
    using assms(3) by (simp add: taken_ids_projections fresh_rows_def)
  have unique: "d = d'" if "(d, x) \<in> set rds" "(d', x') \<in> set rds" "dn_run_id d = dn_run_id d'"
    for d x d' x'
  proof -
    have "(d, x) = (d', x')"
      by (rule distinct_map_eqD [of "\<lambda>(d, score, r). dn_run_id d" rds])
        (use assms(3) that in \<open>auto simp: fresh_rows_def split: prod.splits\<close>)
    then show ?thesis by simp
  qed
  have busy: "p_run (abs_store s) (dn_run_id d) = Some Waiting" if mem: "(d, score, r) \<in> set rds"
    for d score r
  proof -
    obtain r0 where r0: "r0 \<in> set (st_runs s)" "rr_id r0 = dn_run_id d" "rr_status r0 = R_Queued"
      using mem unfolding assms(2) by (rule taken_run)
    then show ?thesis using abs_rows(1) [OF ok(1) r0(1)] by simp
  qed
  have "t' = t \<or> n' < n"
    if tn: "(t, k, n) \<in> set (attempt_shape ?t)" and act: "p_att (abs_store ?t) t = Some (k, True)"
      and tn': "(t', k, n') \<in> set (attempt_shape ?t)" for t k n t' n'
  proof -
    consider (old) "(t, k, n) \<in> set (attempt_shape s)"
      | (new) d score r where "(d, score, r) \<in> set rds" "t = dn_attempt_id d" "k = dn_run_id d"
          "n = rr_attempt_count r"
      using tn unfolding chunk_state_shapes(3) set_append by auto
    then show ?thesis
    proof cases
      case old
      then obtain a where a: "a \<in> set (st_attempts s)" "at_id a = t" by (auto simp: attempt_shape_def)
      have "map_of (map (\<lambda>(r, t, a). (t, (r, True))) (taken_ids rds)) t = None"
        using fresh_rowsD(1) [OF assms(3) _ a(1)] a(2)
        by (force simp: map_of_eq_None_iff taken_ids_def)
      then have act0: "p_att (abs_store s) t = Some (k, True)"
        using act unfolding chunk_state_abs [OF assms] dispatch_all_att [OF dis] by simp
      then have "p_run (abs_store s) k = Some Busy" by (rule att_okD(1) [OF ok(2)])
      then have "(t', k, n') \<in> set (attempt_shape s)"
        using tn' busy unfolding chunk_state_shapes(3) set_append by fastforce
      then show ?thesis using assms(1) old act0 unfolding store_ok_def newest_active_def by fastforce
    next
      case new
      from tn' consider (old') "(t', k, n') \<in> set (attempt_shape s)"
        | (new') d' score' r' where "(d', score', r') \<in> set rds" "t' = dn_attempt_id d'" "k = dn_run_id d'"
        unfolding chunk_state_shapes(3) set_append by auto
      then show ?thesis
      proof cases
        case old'
        then show ?thesis using taken_number [OF assms(1,2) new(1)] new(3,4) by simp
      next
        case new'
        then show ?thesis using unique [OF new(1) new'(1)] new(2,3) by simp
      qed
    qed
  qed
  then show ?thesis unfolding newest_active_def by blast
qed

lemma reserve_chunk_advances:
  assumes "reserve_chunk tb i b chunk s = Inr (ids, t)" "store_ok s"
  shows "advances s t"
  using assms(1)
proof (cases rule: reserve_chunk_state)
  case (1 rds)
  note ok = assms(2) 1(1,4)
  have "pstep\<^sup>*\<^sup>* (abs_store s) (abs_store t)"
    using dispatch_taken [OF ok] by (simp add: 1(3) chunk_state_abs [OF ok])
  then show ?thesis
    using chunk_state_linked [OF store_okD(1) [OF assms(2)] 1(1,4)] chunk_state_counted [OF ok]
      chunk_state_newest [OF ok] dispatching.inv_steps assms(2)
    unfolding advances_def store_ok_def 1(3) by blast
qed

lemma reserve_chunks_advances:
  "reserve_chunks tb i b chunks s = Inr (ids, t) \<Longrightarrow> store_ok s \<Longrightarrow> advances s t"
proof (induction chunks arbitrary: s ids)
  case Nil
  then show ?case by (simp add: advances_refl)
next
  case (Cons c cs)
  then obtain ids1 s1 ids2 where c: "reserve_chunk tb i b c s = Inr (ids1, s1)"
      "reserve_chunks tb i b cs s1 = Inr (ids2, t)"
    by (auto simp: and_then_eq_Inr)
  note a = reserve_chunk_advances [OF c(1) Cons.prems(2)]
  then have "store_ok s1" by (simp add: advances_def)
  with a Cons.IH [OF c(2)] show ?case by (blast intro: advances_trans)
qed

lemma put_scheduling_status_refines:
  assumes "store_ok s"
  shows "refines s (put_scheduling_status b st now s)"
    "refines s (put_scheduling_status b st now s\<lparr>st_batch_events := evs\<rparr>)"
  using store_okD(1) [OF assms]
  by (auto intro!: refines_same simp: put_scheduling_status_def same_shape_update abs_store_def)

lemma updateBatchSchedulingStatus_Inr:
  assumes "updateBatchSchedulingStatus k now e s = Inr t"
  obtains b evs where "find_batch s k = Some b"
    "transitionRunBatch (bt_status b) (scheduling_status s k) = Inr (scheduling_status s k)"
    "t = put_scheduling_status b (scheduling_status s k) now s\<lparr>st_batch_events := evs\<rparr>"
proof -
  obtain b st where b: "find_batch s k = Some b"
      and tr: "transitionRunBatch (bt_status b) (scheduling_status s k) = Inr st"
      and w: "(let s1 = put_scheduling_status b (scheduling_status s k) now s
             in if bt_status b = scheduling_status s k then Inr s1
                else insert_batch_event (scheduled_event e b (scheduling_status s k) now) s1) = Inr t"
    using assms unfolding updateBatchSchedulingStatus_def Let_def
    by (auto simp: and_then_eq_Inr found_eq_Inr split: if_splits)
  have "st = scheduling_status s k"
    using tr by (auto simp: transitionRunBatch_def transitionState_def split: if_splits)
  show thesis
  proof (cases "bt_status b = scheduling_status s k")
    case True
    then have "t = put_scheduling_status b (scheduling_status s k) now s
        \<lparr>st_batch_events := st_batch_events (put_scheduling_status b (scheduling_status s k) now s)\<rparr>"
      using w by simp
    then show thesis using that b tr \<open>st = _\<close> by blast
  next
    case False
    then have "insert_batch_event (scheduled_event e b (scheduling_status s k) now)
        (put_scheduling_status b (scheduling_status s k) now s) = Inr t" using w by simp
    then obtain evs where
      "t = put_scheduling_status b (scheduling_status s k) now s\<lparr>st_batch_events := evs\<rparr>"
      by (rule insert_batch_event_Inr)
    then show thesis using that b tr \<open>st = _\<close> by blast
  qed
qed

lemma updateBatchSchedulingStatus_refines:
  assumes "updateBatchSchedulingStatus k now e s = Inr t" "store_ok s"
  shows "refines s t"
  using assms(1)
  by (rule updateBatchSchedulingStatus_Inr)
    (simp add: put_scheduling_status_refines(2) [OF assms(2)])

lemma reserve_body_Inr:
  assumes "reserve_body tb i s = Inr (ids, t)"
  obtains (closed) b where "find_batch s (ru_batch i) = Some b"
      "bt_cancel_requested_at b \<noteq> None \<or> bt_pause_requested_at b \<noteq> None" "ids = []" "t = s"
  | (opened) b u where "find_batch s (ru_batch i) = Some b"
      "bt_cancel_requested_at b = None" "bt_pause_requested_at b = None"
      "reserve_chunks tb i b (splitIntoChunks (accepted tb i b s) RELATIONAL_WRITE_BATCH_SIZE) s
         = Inr (ids, u)"
      "updateBatchSchedulingStatus (ru_batch i) (ru_scheduled_at i) (reserve_event_id i) u = Inr t"
proof -
  obtain b where b: "find_batch s (ru_batch i) = Some b"
    using assms by (auto simp: reserve_body_def and_then_eq_Inr found_eq_Inr)
  show thesis
  proof (cases "bt_cancel_requested_at b \<noteq> None \<or> bt_pause_requested_at b \<noteq> None")
    case True
    have "(ids, t) = ([], s)"
      using assms unfolding reserve_body_def b found_Some and_then_Inr if_P [OF True] by simp
    then show thesis using closed [OF b True] by simp
  next
    case False
    then obtain u where "reserve_chunks tb i b
          (splitIntoChunks (accepted tb i b s) RELATIONAL_WRITE_BATCH_SIZE) s = Inr (ids, u)"
      "updateBatchSchedulingStatus (ru_batch i) (ru_scheduled_at i) (reserve_event_id i) u = Inr t"
      using assms unfolding reserve_body_def b found_Some and_then_Inr if_not_P [OF False]
      by (auto simp: and_then_eq_Inr)
    then show thesis using opened [OF b] False by blast
  qed
qed

lemma reserve_body_advances:
  assumes "reserve_body tb i s = Inr (ids, t)" "store_ok s"
  shows "advances s t"
  using assms(1)
proof (cases rule: reserve_body_Inr)
  case (closed b)
  then show ?thesis using advances_refl assms(2) by simp
next
  case (opened b u)
  note a = reserve_chunks_advances [OF opened(4) assms(2)]
  then have "store_ok u" by (simp add: advances_def)
  then show ?thesis
    using advances_trans [OF a] refines_advances updateBatchSchedulingStatus_refines [OF opened(5)] by blast
qed

subsection \<open>Creating a batch\<close>

lemma insert_run_advances:
  assumes "insert_run r s = Inr t" "store_ok s" "rr_status r = R_Queued"
    "rr_batch_id r \<in> bt_id ` set (st_batches s)"
  shows "advances s t \<and> st_batches t = st_batches s"
proof -
  note lk = store_okD(1) [OF assms(2)]
  have t: "t = s\<lparr>st_runs := st_runs s @ [r]\<rparr>" and new: "rr_id r \<notin> rr_id ` set (st_runs s)"
    using runs_by_id.ins_Inr [OF assms(1)] by simp_all
  have shapes: "batch_shape t = batch_shape s" "run_shape t = run_shape s @ [(rr_id r, rr_batch_id r)]"
      "attempt_shape t = attempt_shape s" "assignment_shape t = assignment_shape s"
      "lease_shape t = lease_shape s" "count_shape t = count_shape s @ [(rr_id r, rr_attempt_count r)]"
    by (simp_all add: t shape_defs)
  have newr: "rr_id r \<notin> fst ` set (run_shape s)" using new by (force simp: run_shape_def)
  have refs: "\<forall>(t, r, n)\<in>set (attempt_shape s). r \<in> fst ` set (run_shape s)"
    using lk unfolding linked_def by blast
  have noatt: "(k, rr_id r, n) \<notin> set (attempt_shape s)" for k n
    using refs newr by fastforce
  have att: "p_att (abs_store s) k \<noteq> Some (rr_id r, act)" for k act
  proof
    assume "p_att (abs_store s) k = Some (rr_id r, act)"
    then obtain x where "x \<in> set (st_attempts s)" "at_run_id x = rr_id r"
      by (auto simp: abs_store_def dest: row_by_in)
    then have "(at_id x, rr_id r, at_number x) \<in> set (attempt_shape s)" by (force simp: attempt_shape_def)
    then show False using noatt by blast
  qed
  have abs: "abs_store t = p_submit {rr_id r} (abs_store s)"
  proof (intro proto.equality)
    show "p_run (abs_store t) = p_run (p_submit {rr_id r} (abs_store s))"
      using assms(3) new row_by_None [of rr_id "rr_id r" "st_runs s"]
      by (intro ext) (simp add: t abs_store_def p_submit_def row_by_append split: option.split)
  qed (simp_all add: t abs_store_def p_submit_def)
  have "pstep (abs_store s) (p_submit {rr_id r} (abs_store s))"
  proof (rule pstep.submit)
    fix k assume "k \<in> {rr_id r}"
    then have "k = rr_id r" by simp
    then show "p_run (abs_store s) k = None \<and> (\<forall>x b. p_att (abs_store s) x \<noteq> Some (k, b))"
      using new att by (simp add: abs_store_def row_by_None)
  qed
  then have steps: "pstep\<^sup>*\<^sup>* (abs_store s) (abs_store t)" by (simp add: abs r_into_rtranclp)
  have "rr_batch_id r \<in> set (batch_shape s)" using assms(4) by (simp add: batch_shape_def)
  then have "linked t"
    using lk newr unfolding linked_def shapes by (auto 0 4)
  moreover have "newest_active t"
    using assms(2) unfolding store_ok_def newest_active_def shapes by (simp add: abs p_submit_def)
  moreover have "counted t"
    using assms(2) noatt unfolding store_ok_def counted_def shapes by fastforce
  ultimately have "store_ok t"
    using dispatching.inv_steps [OF steps] assms(2) unfolding store_ok_def by blast
  then show ?thesis using steps by (simp add: advances_def t)
qed

lemma insert_runs_advances:
  "insert_all insert_run (map (new_run_row c) ns) s = Inr t \<Longrightarrow> store_ok s \<Longrightarrow>
     cb_id c \<in> bt_id ` set (st_batches s) \<Longrightarrow> advances s t"
proof (induction ns arbitrary: s)
  case Nil
  then show ?case by (simp add: advances_refl)
next
  case (Cons n ns)
  then obtain u where u: "insert_run (new_run_row c n) s = Inr u"
      "insert_all insert_run (map (new_run_row c) ns) u = Inr t"
    by (auto simp: and_then_eq_Inr)
  have "advances s u \<and> st_batches u = st_batches s"
    by (rule insert_run_advances [OF u(1) Cons.prems(2)])
      (use Cons.prems(3) in \<open>simp_all add: new_run_row_def\<close>)
  moreover from this have "store_ok u" by (simp add: advances_def)
  ultimately show ?case
    using Cons.IH [OF u(2)] Cons.prems(3) by (auto intro: advances_trans)
qed

lemma insert_recoveries_Inr:
  "insert_all insert_recovery vs s = Inr t \<Longrightarrow> \<exists>rows. t = s\<lparr>st_recoveries := rows\<rparr>"
proof (induction vs arbitrary: s)
  case Nil
  then have "t = s\<lparr>st_recoveries := st_recoveries s\<rparr>" by simp
  then show ?case by blast
next
  case (Cons v vs)
  then obtain u where u: "insert_recovery v s = Inr u" "insert_all insert_recovery vs u = Inr t"
    by (auto simp: and_then_eq_Inr)
  from u(1) obtain rows where "u = s\<lparr>st_recoveries := rows\<rparr>"
    by (auto simp: insert_recovery_def and_then_eq_Inr)
  with Cons.IH [OF u(2)] show ?case by auto
qed

lemma insert_batch_Inr:
  assumes "insert_batch b s = Inr t"
  shows "t = s\<lparr>st_batches := st_batches s @ [b]\<rparr>" "bt_id b \<notin> bt_id ` set (st_batches s)"
  using assms by (auto simp: insert_batch_def and_then_eq_Inr insert_row_Inr split: if_splits)

lemma insert_batch_ok:
  assumes "insert_batch b s = Inr t" "store_ok s"
  shows "store_ok t" "abs_store t = abs_store s"
proof -
  note t = insert_batch_Inr [OF assms(1)]
  show a: "abs_store t = abs_store s" by (simp add: t(1) abs_store_def)
  have "linked t"
    using store_okD(1) [OF assms(2)] t(2)
    unfolding t(1) linked_def shape_defs by (auto 0 4)
  then show "store_ok t"
    using assms(2) a unfolding store_ok_def newest_active_def counted_def
    by (simp add: t(1) shape_defs)
qed

lemma create_body_Inr:
  assumes "create_body ct c s = Inr (k, t)"
  obtains s1 s2 s3 where "suite_check ct c = None" "public_check ct c s = None"
    "insert_batch (new_batch_row c (next_sequence s)) s = Inr s1"
    "insert_batch_event (created_event c) s1 = Inr s2"
    "insert_all insert_recovery (map (new_recovery_row c) (cb_recoveries c)) s2 = Inr s3"
    "insert_all insert_run (map (new_run_row c) (cb_runs c)) s3 = Inr t" "k = cb_id c"
  using assms unfolding create_body_def
  by (auto simp: and_then_eq_Inr split: option.splits if_splits)

lemma create_body_advances:
  assumes "create_body ct c s = Inr (k, t)" "store_ok s"
  shows "advances s t"
  using assms(1)
proof (cases rule: create_body_Inr)
  case (1 s1 s2 s3)
  note b = insert_batch_ok [OF 1(3) assms(2)]
  obtain evs where s2: "s2 = s1\<lparr>st_batch_events := evs\<rparr>" using 1(4) by (rule insert_batch_event_Inr)
  obtain rows where s3: "s3 = s2\<lparr>st_recoveries := rows\<rparr>" using insert_recoveries_Inr [OF 1(5)] by blast
  have "refines s1 s3"
    using store_okD(1) [OF b(1)]
    by (intro refines_same) (auto simp: s2 s3 same_shape_update abs_store_def)
  then have "advances s1 s3" using refines_advances [OF b(1)] by blast
  then have "advances s s3" by (simp add: advances_def b(2))
  moreover have "store_ok s3" using \<open>advances s1 s3\<close> by (simp add: advances_def)
  moreover have "cb_id c \<in> bt_id ` set (st_batches s3)"
    by (simp add: s3 s2 insert_batch_Inr(1) [OF 1(3)] new_batch_row_def)
  ultimately show ?thesis
    using insert_runs_advances [OF 1(6)] by (blast intro: advances_trans)
qed

subsection \<open>The limits of a reservation\<close>

text \<open>Attempts in flight in the batches that satisfy a predicate.\<close>

definition flying :: "store \<Rightarrow> (batch_row \<Rightarrow> bool) \<Rightarrow> nat" where
  "flying s Q = count_where (in_flight s (\<lambda>t r b. Q b)) (st_attempts s)"

lemma projectActiveRuns_flying:
  "projectActiveRuns s p = int (flying s (\<lambda>b. bt_project_id b = p \<and> active_batch (bt_status b)))"
  by (simp add: projectActiveRuns_def flying_def)

lemma batchActiveRuns_flying: "batchActiveRuns s k = int (flying s (\<lambda>b. bt_id b = k))"
proof -
  have "in_flight s (\<lambda>t r b. rr_batch_id r = k) = in_flight s (\<lambda>t r b. bt_id b = k)"
    by (auto simp: in_flight_def fun_eq_iff find_batch_def dest!: row_by_SomeD split: option.splits)
  then show ?thesis by (simp add: batchActiveRuns_def flying_def)
qed

lemma count_where_append [simp]: "count_where P (xs @ ys) = count_where P xs + count_where P ys"
  by (simp add: count_where_def)

lemma count_where_cong: "(\<And>x. x \<in> set xs \<Longrightarrow> P x \<longleftrightarrow> Q x) \<Longrightarrow> count_where P xs = count_where Q xs"
  by (simp add: count_where_def cong: filter_cong)

lemma count_where_const: "(\<And>x. x \<in> set xs \<Longrightarrow> P x \<longleftrightarrow> c) \<Longrightarrow> count_where P xs = (if c then length xs else 0)"
  by (induction xs) (auto simp: count_where_def)

lemma chunk_state_run:
  "find_run (chunk_state tb i b chunk rds s) k =
     map_option (\<lambda>r. if to_assign i chunk s r then assign_run i chunk r else r) (find_run s k)"
  by (simp add: find_run_def row_by_update)

lemma chunk_state_flying:
  assumes "store_ok s" "rds = reserved_decisions chunk (assigned_rows i chunk s)"
    "find_batch s (ru_batch i) = Some b0"
  shows "flying (chunk_state tb i b chunk rds s) Q = flying s Q + (if Q b0 then length rds else 0)"
proof -
  let ?t = "chunk_state tb i b chunk rds s"
  note lk = store_okD(1) [OF assms(1)]
  have batch: "find_batch ?t k = find_batch s k" for k by (simp add: find_batch_def)
  have old: "in_flight ?t (\<lambda>t r b. Q b) x \<longleftrightarrow> in_flight s (\<lambda>t r b. Q b) x"
    if x: "x \<in> set (st_attempts s)" for x
  proof (cases "active_attempt (at_status x)")
    case True
    obtain r where r: "r \<in> set (st_runs s)" "rr_id r = at_run_id x" using linked_attempt_run [OF lk x] .
    have "busy_run (rr_status r)" using active_attempt_busy [OF assms(1) x True r] .
    then have "\<not> to_assign i chunk s r" by (auto simp: to_assign_def reservable_def)
    moreover have "find_run s (at_run_id x) = Some r"
      using linked_rows(2) [OF lk r(1)] r(2) by (simp add: find_run_def)
    ultimately show ?thesis by (simp add: in_flight_def chunk_state_run batch)
  next
    case False
    then show ?thesis by (simp add: in_flight_def)
  qed
  have new: "in_flight ?t (\<lambda>t r b. Q b) x \<longleftrightarrow> Q b0" if mem: "x \<in> set (map (new_attempt i) rds)" for x
  proof -
    obtain d score r where d: "(d, score, r) \<in> set rds" "x = new_attempt i (d, score, r)"
      using mem by (rule new_attempt_memE)
    obtain r0 where r0: "r0 \<in> set (st_runs s)" "to_assign i chunk s r0" "rr_id r0 = dn_run_id d"
        "rr_batch_id r0 = ru_batch i"
      using d(1) unfolding assms(2) by (rule taken_run)
    have "find_run s (at_run_id x) = Some r0"
      using linked_rows(2) [OF lk r0(1)] r0(3) d(2) by (simp add: find_run_def)
    then show ?thesis
      using r0 assms(3) assign_run_taken(1) [OF r0(2)]
      by (simp add: in_flight_def chunk_state_run batch d(2))
  qed
  have "count_where (in_flight ?t (\<lambda>t r b. Q b)) (st_attempts s) = flying s Q"
    unfolding flying_def by (rule count_where_cong) (rule old)
  moreover have "count_where (in_flight ?t (\<lambda>t r b. Q b)) (map (new_attempt i) rds)
      = (if Q b0 then length (map (new_attempt i) rds) else 0)"
    by (rule count_where_const) (rule new)
  ultimately show ?thesis by (simp add: flying_def)
qed

lemma reserve_chunk_flying:
  assumes "reserve_chunk tb i b chunk s = Inr (ids, t)" "store_ok s"
    "find_batch s (ru_batch i) = Some b0"
  shows "flying t Q = flying s Q + (if Q b0 then length ids else 0)" "length ids \<le> length chunk"
    "st_batches t = st_batches s"
proof -
  obtain rds where r: "rds = reserved_decisions chunk (assigned_rows i chunk s)"
      "ids = map (\<lambda>(d, score, r). dn_attempt_id d) rds" "t = chunk_state tb i b chunk rds s"
    using assms(1) by (rule reserve_chunk_state)
  show "flying t Q = flying s Q + (if Q b0 then length ids else 0)"
    using chunk_state_flying [OF assms(2) r(1) assms(3)] by (simp add: r(2,3))
  show "st_batches t = st_batches s" by (simp add: r(3))
  have "length (List.map_filter f xs) \<le> length xs" for f :: "'x \<Rightarrow> 'y option" and xs
    by (simp add: List.map_filter_def)
  then show "length ids \<le> length chunk" by (simp add: r(1,2) reserved_decisions_def)
qed

lemma reserve_chunks_flying:
  "reserve_chunks tb i b chunks s = Inr (ids, t) \<Longrightarrow> store_ok s \<Longrightarrow>
     find_batch s (ru_batch i) = Some b0 \<Longrightarrow>
     flying t Q = flying s Q + (if Q b0 then length ids else 0)
       \<and> length ids \<le> length (concat chunks) \<and> st_batches t = st_batches s"
proof (induction chunks arbitrary: s ids)
  case Nil
  then show ?case by simp
next
  case (Cons c cs)
  then obtain ids1 s1 ids2 where c: "reserve_chunk tb i b c s = Inr (ids1, s1)"
      "reserve_chunks tb i b cs s1 = Inr (ids2, t)" "ids = ids1 @ ids2"
    by (auto simp: and_then_eq_Inr)
  note f = reserve_chunk_flying [OF c(1) Cons.prems(2,3)]
  have "store_ok s1" using reserve_chunk_advances [OF c(1) Cons.prems(2)] by (simp add: advances_def)
  moreover have "find_batch s1 (ru_batch i) = Some b0"
    using Cons.prems(3) by (simp add: find_batch_def f(3))
  ultimately show ?case using Cons.IH [OF c(2)] f by (auto simp: c(3))
qed

lemma accept_decisions_limits:
  "0 \<le> p \<Longrightarrow> int (length (accept_decisions tb i p q res ds)) \<le> p"
  "0 \<le> n \<Longrightarrow> int (length (accept_decisions tb i p (Some n) res ds)) \<le> n"
proof -
  show "0 \<le> p \<Longrightarrow> int (length (accept_decisions tb i p q res ds)) \<le> p"
    by (induction tb i p q res ds rule: accept_decisions.induct) (auto split: option.split)
  show "0 \<le> n \<Longrightarrow> int (length (accept_decisions tb i p (Some n) res ds)) \<le> n"
  proof (induction ds arbitrary: p n res)
    case (Cons d ds)
    show ?case
    proof (cases "p = 0 \<or> n = 0 \<or> decision_score tb i res d = None")
      case True
      then show ?thesis using Cons by auto
    next
      case False
      define res' where "res' = res(dn_runner_id d := res (dn_runner_id d) + 1)"
      obtain y where "decision_score tb i res d = Some y" using False by blast
      then have eq: "accept_decisions tb i p (Some n) res (d # ds) =
          (d, y) # accept_decisions tb i (p - 1) (Some (n - 1)) res' ds"
        using False by (simp add: res'_def)
      have "int (length (accept_decisions tb i (p - 1) (Some (n - 1)) res' ds)) \<le> n - 1"
        using Cons.prems False by (intro Cons.IH) simp
      then show ?thesis unfolding eq by simp
    qed
  qed simp
qed

lemma accepted_limits:
  "int (length (accepted tb i b s)) \<le> project_slots i b s"
  "batch_slots b s = Some n \<Longrightarrow> int (length (accepted tb i b s)) \<le> n"
proof -
  show "int (length (accepted tb i b s)) \<le> project_slots i b s"
    unfolding accepted_def by (rule accept_decisions_limits) (simp add: project_slots_def)
  assume n: "batch_slots b s = Some n"
  then have "0 \<le> n" by (auto simp: batch_slots_def)
  then show "int (length (accepted tb i b s)) \<le> n"
    unfolding accepted_def n by (rule accept_decisions_limits)
qed

lemma scheduling_status_active [simp]: "active_batch (scheduling_status s k)"
  by (simp add: scheduling_status_def Let_def)

text \<open>A transition to an active status starts at one.\<close>

lemma transition_active:
  assumes "transitionRunBatch st st' = Inr v" "active_batch st'"
  shows "active_batch st"
  using assms by (cases st) (auto simp: transitionRunBatch_def transitionState_def split: if_splits)

lemma scheduling_flying:
  assumes "updateBatchSchedulingStatus k now e s = Inr t" "linked s"
    "\<And>x st. active_batch (bt_status x) \<Longrightarrow> active_batch st \<Longrightarrow>
       Q (x\<lparr>bt_status := st, bt_updated_at := now, bt_version := bt_version x + 1\<rparr>) = Q x"
  shows "flying t Q = flying s Q"
  using assms(1)
proof (cases rule: updateBatchSchedulingStatus_Inr)
  case (1 b evs)
  have act: "active_batch (bt_status b)" using transition_active [OF 1(2) scheduling_status_active] .
  have b: "b \<in> set (st_batches s)" using 1(1) by (auto simp: find_batch_def dest: row_by_SomeD)
  have "in_flight t (\<lambda>t r b. Q b) x \<longleftrightarrow> in_flight s (\<lambda>t r b. Q b) x" for x
  proof -
    have "(case find_batch t j of None \<Rightarrow> False | Some x \<Rightarrow> Q x) \<longleftrightarrow>
        (case find_batch s j of None \<Rightarrow> False | Some x \<Rightarrow> Q x)" for j
    proof (cases "find_batch s j")
      case None
      then show ?thesis
        by (simp add: 1(3) put_scheduling_status_def find_batch_def row_by_update)
    next
      case (Some x)
      then have x: "x \<in> set (st_batches s)" by (auto simp: find_batch_def dest: row_by_SomeD)
      have "x = b" if "bt_id x = bt_id b"
        using distinct_map_eqD [OF linked_keys(1) [OF assms(2)] x b that] .
      then show ?thesis
        using Some assms(3) [OF act scheduling_status_active, of s k]
        by (auto simp: 1(3) put_scheduling_status_def find_batch_def row_by_update)
    qed
    moreover have "find_run t j = find_run s j" for j
      by (simp add: 1(3) put_scheduling_status_def find_run_def)
    ultimately show ?thesis by (simp add: in_flight_def split: option.split)
  qed
  then have "in_flight t (\<lambda>t r b. Q b) = in_flight s (\<lambda>t r b. Q b)" by blast
  moreover have "st_attempts t = st_attempts s" by (simp add: 1(3) put_scheduling_status_def)
  ultimately show ?thesis by (simp only: flying_def)
qed

lemma reserve_body_flying:
  assumes "reserve_body tb i s = Inr (ids, t)" "store_ok s" "find_batch s (ru_batch i) = Some b"
    "\<And>x st. active_batch (bt_status x) \<Longrightarrow> active_batch st \<Longrightarrow>
       Q (x\<lparr>bt_status := st, bt_updated_at := ru_scheduled_at i, bt_version := bt_version x + 1\<rparr>) = Q x"
  shows "flying t Q = flying s Q + (if Q b then length ids else 0)"
    "ids \<noteq> [] \<Longrightarrow> length ids \<le> length (accepted tb i b s)"
  using assms(1)
proof (atomize (full), cases rule: reserve_body_Inr)
  case (closed b')
  then show "flying t Q = flying s Q + (if Q b then length ids else 0)
      \<and> (ids \<noteq> [] \<longrightarrow> length ids \<le> length (accepted tb i b s))" by simp
next
  case (opened b' u)
  have "b' = b" using opened(1) assms(3) by simp
  note f = reserve_chunks_flying [OF opened(4) assms(2,3)]
  have "linked u"
    using reserve_chunks_advances [OF opened(4) assms(2)] by (simp add: advances_def store_ok_def)
  then have "flying t Q = flying u Q" using scheduling_flying [OF opened(5) _ assms(4)] by blast
  moreover have "concat (splitIntoChunks (accepted tb i b s) RELATIONAL_WRITE_BATCH_SIZE) = accepted tb i b s"
    by (rule splitIntoChunks_concat) (simp add: RELATIONAL_WRITE_BATCH_SIZE_def)
  ultimately show "flying t Q = flying s Q + (if Q b then length ids else 0)
      \<and> (ids \<noteq> [] \<longrightarrow> length ids \<le> length (accepted tb i b s))"
    using f [of Q] \<open>b' = b\<close> by simp
qed

text \<open>Neither limit is exceeded by a reservation.\<close>

lemma reserve_project_bound:
  assumes "reserve_body tb i s = Inr (ids, t)" "store_ok s" "find_batch s (ru_batch i) = Some b"
    "ru_project_maximum i = Some m"
  shows "projectActiveRuns t (bt_project_id b) \<le> max m (projectActiveRuns s (bt_project_id b))"
proof -
  let ?Q = "\<lambda>x. bt_project_id x = bt_project_id b \<and> active_batch (bt_status x)"
  have f: "flying t ?Q = flying s ?Q + (if ?Q b then length ids else 0)"
    and l: "ids \<noteq> [] \<Longrightarrow> length ids \<le> length (accepted tb i b s)"
    by (rule reserve_body_flying [OF assms(1-3)], simp)+
  then have "ids \<noteq> [] \<Longrightarrow> int (length ids) \<le> project_slots i b s"
    using accepted_limits(1) [of tb i b s] by linarith
  then show ?thesis
    using f by (cases "ids = []") (auto simp: projectActiveRuns_flying project_slots_def assms(4))
qed

lemma reserve_batch_bound:
  assumes "reserve_body tb i s = Inr (ids, t)" "store_ok s" "find_batch s (ru_batch i) = Some b"
    "batch_concurrency s b = Some c"
  shows "batchActiveRuns t (bt_id b) \<le> max c (batchActiveRuns s (bt_id b))"
proof -
  let ?Q = "\<lambda>x. bt_id x = bt_id b"
  have f: "flying t ?Q = flying s ?Q + (if ?Q b then length ids else 0)"
    and l: "ids \<noteq> [] \<Longrightarrow> length ids \<le> length (accepted tb i b s)"
    by (rule reserve_body_flying [OF assms(1-3)], simp)+
  moreover have n: "batch_slots b s = Some (max 0 (c - batchActiveRuns s (bt_id b)))"
    by (simp add: batch_slots_def assms(4))
  ultimately show ?thesis
    using accepted_limits(2) [OF n, of tb i]
    by (cases "ids = []") (auto simp: batchActiveRuns_flying)
qed

end
