(* ===== verification/Round_Recovery.thy ===== *)
theory Round_Recovery
  imports Exec_Steps "HOL-Library.Product_Lexorder"
begin

text \<open>
  Environment recovery between two rounds of a batch, \<open>packages/db/src/sqlite-round-recovery.ts\<close>: the
  steps of a barrier are claimed under a lease, rebuilt by an external server, waited for, and the
  last one that is ready releases the round. Here are the operations of the repository and their
  place in the store; the service that drives them is theory \<open>Recovery_Service\<close>.
\<close>

section \<open>The operations\<close>

definition owned_step :: "ident \<Rightarrow> ident \<Rightarrow> string \<Rightarrow> recovery_status set \<Rightarrow> recovery_row \<Rightarrow> bool" where
  "owned_step batchId ruleId workerId statuses v \<longleftrightarrow>
     rv_batch_id v = batchId \<and> rv_rule_id v = ruleId \<and> rv_lease_owner v = Some workerId \<and>
     rv_status v \<in> statuses"

text \<open>One \<open>UPDATE\<close> of the recoveries, with \<open>changes === 1\<close>.\<close>

definition update_step ::
  "(recovery_row \<Rightarrow> bool) \<Rightarrow> (recovery_row \<Rightarrow> recovery_row) \<Rightarrow> store \<Rightarrow> bool \<times> store" where
  "update_step here f s =
     (count_where here (st_recoveries s) = 1,
      s\<lparr>st_recoveries := update_where here f (st_recoveries s)\<rparr>)"

definition coalesce :: "'a option \<Rightarrow> 'a option \<Rightarrow> 'a option" where
  "coalesce a b = (if a \<noteq> None then a else b)"

subsection \<open>Claiming\<close>

definition claimable_status :: "recovery_status set" where
  "claimable_status = {RV_Pending, RV_Polling, RV_Waiting, RV_Releasing}"

definition lease_free :: "time \<Rightarrow> recovery_row \<Rightarrow> bool" where
  "lease_free now v \<longleftrightarrow> (case rv_lease_expires_at v of None \<Rightarrow> True | Some t \<Rightarrow> t \<le> now)"

definition recovery_due :: "time \<Rightarrow> recovery_row \<Rightarrow> batch_row \<Rightarrow> bool" where
  "recovery_due now v b \<longleftrightarrow>
     bt_id b = rv_batch_id v \<and> rv_status v \<in> claimable_status \<and> rv_available_at v \<le> now \<and>
     lease_free now v \<and> bt_status b \<in> {B_Queued, B_Dispatching, B_Scheduled, B_Running} \<and>
     bt_cancel_requested_at b = None"

definition dueRows :: "time \<Rightarrow> nat \<Rightarrow> store \<Rightarrow> (recovery_row \<times> ident) list" where
  "dueRows now limit s =
     take limit
       (sort_key (\<lambda>(v, suite). (rv_available_at v, rv_batch_id v, rv_after_round v))
         (concat (map (\<lambda>v. map (\<lambda>b. (v, bt_suite_id b)) (filter (recovery_due now v) (st_batches s)))
           (st_recoveries s))))"

record recovery_claim =
  rm_batch_id :: ident
  rm_suite_id :: ident
  rm_rule_id :: ident
  rm_after_round :: int
  rm_next_round :: int
  rm_jenkins_job_url :: string
  rm_api_key_ciphertext :: string
  rm_wait_minutes :: int
  rm_status :: recovery_status
  rm_poll_failure_count :: int
  rm_source_build_number :: "int option"
  rm_rebuild_number :: "int option"
  rm_rebuild_url :: "string option"

definition toClaim :: "recovery_row \<times> ident \<Rightarrow> recovery_claim" where
  "toClaim r =
     (let v = fst r
      in \<lparr>rm_batch_id = rv_batch_id v, rm_suite_id = snd r, rm_rule_id = rv_rule_id v,
          rm_after_round = rv_after_round v, rm_next_round = rv_next_round v,
          rm_jenkins_job_url = rv_jenkins_job_url v,
          rm_api_key_ciphertext = rv_api_key_ciphertext v, rm_wait_minutes = rv_wait_minutes v,
          rm_status = rv_status v, rm_poll_failure_count = rv_poll_failure_count v,
          rm_source_build_number = rv_source_build_number v,
          rm_rebuild_number = rv_rebuild_number v, rm_rebuild_url = rv_rebuild_url v\<rparr>)"

record claim_due_input =
  cu_worker_id :: string
  cu_now :: time
  cu_lease_expires_at :: time
  cu_limit :: int

fun claim_rows ::
  "claim_due_input \<Rightarrow> (recovery_row \<times> ident) list \<Rightarrow> store \<Rightarrow> recovery_claim list \<times> store" where
  "claim_rows i [] s = ([], s)"
| "claim_rows i (row # rows) s =
     (let (claimed, s1) = update_step
            (\<lambda>v. rv_batch_id v = rv_batch_id (fst row) \<and> rv_rule_id v = rv_rule_id (fst row) \<and>
                 rv_status v \<in> claimable_status \<and> lease_free (cu_now i) v)
            (\<lambda>v. v\<lparr>rv_lease_owner := Some (cu_worker_id i),
                  rv_lease_expires_at := Some (cu_lease_expires_at i),
                  rv_updated_at := cu_now i\<rparr>) s;
          (claims, s2) = claim_rows i rows s1
      in (if claimed then toClaim row # claims else claims, s2))"

definition claimDue :: "claim_due_input \<Rightarrow> store \<Rightarrow> recovery_claim list \<times> store" where
  "claimDue i s =
     (if cu_limit i \<le> 0 \<or> dueRows (cu_now i) 1 s = [] then ([], s)
      else claim_rows i (dueRows (cu_now i) (nat (cu_limit i)) s) s)"

subsection \<open>Polling and waiting\<close>

definition release_claim :: "time \<Rightarrow> recovery_row \<Rightarrow> recovery_row" where
  "release_claim now v = v\<lparr>rv_lease_owner := None, rv_lease_expires_at := None, rv_updated_at := now\<rparr>"

record polling_input =
  mp_batch_id :: ident
  mp_rule_id :: ident
  mp_worker_id :: string
  mp_source_build_number :: int
  mp_rebuild_number :: "int option"
  mp_rebuild_url :: "string option"
  mp_started_at :: "string option"
  mp_available_at :: time
  mp_updated_at :: time

definition markPolling :: "polling_input \<Rightarrow> store \<Rightarrow> bool \<times> store" where
  "markPolling i s = update_step
     (owned_step (mp_batch_id i) (mp_rule_id i) (mp_worker_id i) {RV_Pending, RV_Polling})
     (\<lambda>v. release_claim (mp_updated_at i)
        (v\<lparr>rv_status := RV_Polling, rv_source_build_number := Some (mp_source_build_number i),
           rv_rebuild_number := coalesce (mp_rebuild_number i) (rv_rebuild_number v),
           rv_rebuild_url := coalesce (mp_rebuild_url i) (rv_rebuild_url v),
           rv_started_at := coalesce (mp_started_at i) (rv_started_at v),
           rv_available_at := mp_available_at i, rv_poll_failure_count := 0,
           rv_error_message := None\<rparr>)) s"

record waiting_input =
  mw_batch_id :: ident
  mw_rule_id :: ident
  mw_worker_id :: string
  mw_rebuild_number :: int
  mw_rebuild_url :: string
  mw_started_at :: "string option"
  mw_finished_at :: "string option"
  mw_build_result :: string
  mw_available_at :: time
  mw_updated_at :: time

definition markWaiting :: "waiting_input \<Rightarrow> store \<Rightarrow> bool \<times> store" where
  "markWaiting i s = update_step
     (owned_step (mw_batch_id i) (mw_rule_id i) (mw_worker_id i) {RV_Polling})
     (\<lambda>v. release_claim (mw_updated_at i)
        (v\<lparr>rv_status := RV_Waiting, rv_rebuild_number := Some (mw_rebuild_number i),
           rv_rebuild_url := Some (mw_rebuild_url i),
           rv_started_at := coalesce (mw_started_at i) (rv_started_at v),
           rv_finished_at := mw_finished_at i, rv_build_result := Some (mw_build_result i),
           rv_available_at := mw_available_at i, rv_poll_failure_count := 0,
           rv_error_message := None\<rparr>)) s"

record defer_input =
  dp_batch_id :: ident
  dp_rule_id :: ident
  dp_worker_id :: string
  dp_error_message :: string
  dp_available_at :: time
  dp_updated_at :: time

definition deferPollingFailure :: "defer_input \<Rightarrow> store \<Rightarrow> bool \<times> store" where
  "deferPollingFailure i s = update_step
     (owned_step (dp_batch_id i) (dp_rule_id i) (dp_worker_id i) {RV_Polling})
     (\<lambda>v. release_claim (dp_updated_at i)
        (v\<lparr>rv_poll_failure_count := rv_poll_failure_count v + 1,
           rv_error_message := Some (dp_error_message i), rv_available_at := dp_available_at i\<rparr>)) s"

subsection \<open>The barrier\<close>

record step_input =
  sn_batch_id :: ident
  sn_rule_id :: ident
  sn_worker_id :: string
  sn_updated_at :: time

datatype step_completion = Claim_Lost | Step_Completed nat | Round_Releasing

definition release_step :: "step_input \<Rightarrow> store \<Rightarrow> store" where
  "release_step i s = snd (update_step
     (owned_step (sn_batch_id i) (sn_rule_id i) (sn_worker_id i) {RV_Succeeded})
     (\<lambda>v. v\<lparr>rv_lease_owner := None, rv_lease_expires_at := None\<rparr>) s)"

definition remaining_steps :: "store \<Rightarrow> ident \<Rightarrow> int \<Rightarrow> nat" where
  "remaining_steps s batchId afterRound =
     count_where (\<lambda>v. rv_status v \<noteq> RV_Succeeded) (barrier_steps s batchId afterRound)"

text \<open>What follows the update of the own step: the barrier is counted, and the last step opens it.\<close>

definition close_barrier :: "step_input \<Rightarrow> store \<Rightarrow> domain_error + (step_completion \<times> store)" where
  "close_barrier i s =
     and_then (found ''TypeError'' (row_by (\<lambda>v. (rv_batch_id v, rv_rule_id v))
         (sn_batch_id i, sn_rule_id i) (st_recoveries s))) (\<lambda>recovery.
       let remaining = remaining_steps s (sn_batch_id i) (rv_after_round recovery)
       in if 0 < remaining then Inr (Step_Completed remaining, release_step i s)
          else
            and_then (found ''TypeError'' (find_batch s (sn_batch_id i))) (\<lambda>b.
              Inr (Round_Releasing,
                release_round (sn_batch_id i) (bt_queue_timeout_ms b) (sn_updated_at i)
                  (rv_next_round recovery)
                  (snd (update_step
                    (owned_step (sn_batch_id i) (sn_rule_id i) (sn_worker_id i) {RV_Succeeded})
                    (\<lambda>v. v\<lparr>rv_status := RV_Releasing\<rparr>) s)))))"

definition complete_waiting_body ::
  "step_input \<Rightarrow> store \<Rightarrow> domain_error + (step_completion \<times> store)" where
  "complete_waiting_body i s =
     (let (updated, s1) = update_step
            (owned_step (sn_batch_id i) (sn_rule_id i) (sn_worker_id i) {RV_Waiting})
            (\<lambda>v. v\<lparr>rv_status := RV_Succeeded, rv_updated_at := sn_updated_at i\<rparr>) s
      in if \<not> updated then Inr (Claim_Lost, s1) else close_barrier i s1)"

definition completeWaitingStep :: "step_input \<Rightarrow> store \<Rightarrow> (domain_error + step_completion) \<times> store" where
  "completeWaitingStep i s = transaction (complete_waiting_body i) s"

definition completeRoundRelease :: "step_input \<Rightarrow> store \<Rightarrow> bool \<times> store" where
  "completeRoundRelease i s = update_step
     (owned_step (sn_batch_id i) (sn_rule_id i) (sn_worker_id i) {RV_Releasing})
     (\<lambda>v. release_claim (sn_updated_at i) (v\<lparr>rv_status := RV_Succeeded, rv_error_message := None\<rparr>)) s"

definition retryRoundRelease :: "defer_input \<Rightarrow> store \<Rightarrow> bool \<times> store" where
  "retryRoundRelease i s = update_step
     (owned_step (dp_batch_id i) (dp_rule_id i) (dp_worker_id i) {RV_Releasing})
     (\<lambda>v. release_claim (dp_updated_at i)
        (v\<lparr>rv_error_message := Some (dp_error_message i), rv_available_at := dp_available_at i\<rparr>)) s"

subsection \<open>Failure\<close>

record fail_input =
  fl_batch_id :: ident
  fl_rule_id :: ident
  fl_worker_id :: string
  fl_error_message :: string
  fl_rebuild_number :: "int option"
  fl_rebuild_url :: "string option"
  fl_started_at :: "string option"
  fl_finished_at :: "string option"
  fl_build_result :: "string option"
  fl_event_id :: ident
  fl_updated_at :: time

definition fail_held_runs :: "ident \<Rightarrow> time \<Rightarrow> store \<Rightarrow> store" where
  "fail_held_runs batchId now s =
     s\<lparr>st_runs := update_where
        (\<lambda>r. rr_batch_id r = batchId \<and> rr_status r = R_Queued \<and> 0 < rr_held_round r)
        (\<lambda>r. r\<lparr>rr_status := R_Failed, rr_terminal_outcome := Some Failed,
              rr_terminal_reason_code := Some ''JENKINS_ROUND_RECOVERY_FAILED'',
              rr_held_round := 0, rr_updated_at := now\<rparr>) (st_runs s)\<rparr>"

definition fail_batch :: "fail_input \<Rightarrow> batch_row \<Rightarrow> store \<Rightarrow> domain_error + store" where
  "fail_batch i b s =
     (if bt_status b = B_Failed \<or> bt_status b = B_Cancelled \<or> bt_status b = B_Succeeded then Inr s
      else insert_batch_event
        \<lparr>be_id = fl_event_id i, be_batch_id = fl_batch_id i, be_from_status = Some (bt_status b),
         be_to_status = B_Failed, be_batch_version = bt_version b + 1,
         be_reason = ''jenkins.round_recovery.failed'', be_recorded_at = fl_updated_at i\<rparr>
        (put_batch_status b B_Failed (fl_updated_at i) s))"

definition fail_step :: "fail_input \<Rightarrow> store \<Rightarrow> bool \<times> store" where
  "fail_step i s = update_step
     (owned_step (fl_batch_id i) (fl_rule_id i) (fl_worker_id i) {RV_Pending, RV_Polling, RV_Waiting})
     (\<lambda>v. release_claim (fl_updated_at i)
        (v\<lparr>rv_status := RV_Failed, rv_error_message := Some (fl_error_message i),
           rv_rebuild_number := coalesce (fl_rebuild_number i) (rv_rebuild_number v),
           rv_rebuild_url := coalesce (fl_rebuild_url i) (rv_rebuild_url v),
           rv_started_at := coalesce (fl_started_at i) (rv_started_at v),
           rv_finished_at := coalesce (fl_finished_at i) (rv_finished_at v),
           rv_build_result := coalesce (fl_build_result i) (rv_build_result v)\<rparr>)) s"

definition fail_recovery_body :: "fail_input \<Rightarrow> store \<Rightarrow> domain_error + (bool \<times> store)" where
  "fail_recovery_body i s =
     (let (failed, s1) = fail_step i s
      in if \<not> failed then Inr (False, s1)
         else
           let s2 = fail_held_runs (fl_batch_id i) (fl_updated_at i) s1
           in and_then (found ''TypeError'' (find_batch s2 (fl_batch_id i))) (\<lambda>b.
              and_then (fail_batch i b s2) (\<lambda>s3. Inr (True, s3))))"

definition failRecovery :: "fail_input \<Rightarrow> store \<Rightarrow> (domain_error + bool) \<times> store" where
  "failRecovery i s = transaction (fail_recovery_body i) s"

section \<open>The protocol of the store\<close>

text \<open>Recoveries are no table of the dispatch protocol.\<close>

lemma update_step_tables [simp]:
  "st_batches (snd (update_step here f s)) = st_batches s"
  "st_runs (snd (update_step here f s)) = st_runs s"
  "st_attempts (snd (update_step here f s)) = st_attempts s"
  "st_assignments (snd (update_step here f s)) = st_assignments s"
  "st_leases (snd (update_step here f s)) = st_leases s"
  "st_recoveries (snd (update_step here f s)) = update_where here f (st_recoveries s)"
  by (simp_all add: update_step_def)

lemma fst_update_step [simp]:
  "fst (update_step here f s) \<longleftrightarrow> count_where here (st_recoveries s) = 1"
  by (simp add: update_step_def)

lemma count_one: "count_where P xs = Suc 0 \<Longrightarrow> \<exists>v\<in>set xs. P v"
  using count_where_0 [of P xs] by (metis nat.distinct(1))

lemma update_step_refines: "linked s \<Longrightarrow> refines s (snd (update_step here f s))"
  by (rule other_tables_refines) simp_all

lemma claim_rows_tables [simp]:
  "st_batches (snd (claim_rows i rows s)) = st_batches s"
  "st_runs (snd (claim_rows i rows s)) = st_runs s"
  "st_attempts (snd (claim_rows i rows s)) = st_attempts s"
  "st_assignments (snd (claim_rows i rows s)) = st_assignments s"
  "st_leases (snd (claim_rows i rows s)) = st_leases s"
  by (induction i rows s rule: claim_rows.induct)
    (simp_all add: Let_def split_def update_step_def)

lemma claimDue_refines:
  assumes "store_ok s"
  shows "refines s (snd (claimDue i s))"
  using refines_refl [OF assms] other_tables_refines [OF store_okD(1) [OF assms]]
  by (simp add: claimDue_def)

lemma release_round_refines:
  assumes "linked s"
  shows "refines s (release_round b q now nr s)"
  using assms
proof (rule refines_same)
  show "same_shape s (release_round b q now nr s)"
    by (simp add: release_round_def same_shape_update)
qed (rule release_round_abs)

lemma fail_held_runs_refines:
  assumes "linked s"
  shows "refines s (fail_held_runs b now s)"
  using assms fail_held_runs_def by (rule finish_queued_refines) simp_all

lemma complete_waiting_refines:
  assumes "complete_waiting_body i s = Inr (v, t)" "store_ok s"
  shows "refines s t"
proof -
  define s1 where "s1 = snd (update_step
      (owned_step (sn_batch_id i) (sn_rule_id i) (sn_worker_id i) {RV_Waiting})
      (\<lambda>v. v\<lparr>rv_status := RV_Succeeded, rv_updated_at := sn_updated_at i\<rparr>) s)"
  have r1: "refines s s1"
    unfolding s1_def by (rule update_step_refines [OF store_okD(1) [OF assms(2)]])
  note l1 = refines_linked [OF r1]
  have "refines s1 t"
    using assms(1) refines_refl [OF refines_ok [OF assms(2) r1]]
      update_step_refines [OF l1] refines_trans [OF update_step_refines [OF l1] release_round_refines]
      refines_linked [OF update_step_refines [OF l1]]
    unfolding complete_waiting_body_def close_barrier_def release_step_def
    by (auto simp: Let_def split_def s1_def [symmetric] and_then_eq_Inr split: if_splits)
  with r1 show ?thesis by (rule refines_trans)
qed

lemma fail_batch_refines:
  assumes "fail_batch i b s = Inr t" "store_ok s"
  shows "refines s t"
proof (cases "isTerminalBatchStatus (bt_status b)")
  case True
  then have "t = s" using assms(1) by (cases "bt_status b") (simp_all add: fail_batch_def)
  then show ?thesis using refines_refl [OF assms(2)] by simp
next
  case False
  then obtain e where "insert_batch_event e (put_batch_status b B_Failed (fl_updated_at i) s) = Inr t"
    using assms(1) by (auto simp: fail_batch_def split: if_splits)
  then obtain evs where t: "t = put_batch_status b B_Failed (fl_updated_at i) s\<lparr>st_batch_events := evs\<rparr>"
    by (rule insert_batch_event_Inr)
  show ?thesis
    unfolding t using store_okD(1) [OF assms(2)] put_batch_status_shape put_batch_status_abs
    by (rule refines_same)
qed

lemma fail_recovery_refines:
  assumes "fail_recovery_body i s = Inr (v, t)" "store_ok s"
  shows "refines s t"
proof -
  define s1 where "s1 = snd (fail_step i s)"
  have r1: "refines s s1"
    unfolding s1_def fail_step_def by (rule update_step_refines [OF store_okD(1) [OF assms(2)]])
  show ?thesis
  proof (cases "fst (fail_step i s)")
    case False
    then have "t = s1" using assms(1) by (simp add: fail_recovery_body_def Let_def split_def s1_def)
    then show ?thesis using r1 by simp
  next
    case True
    define s2 where "s2 = fail_held_runs (fl_batch_id i) (fl_updated_at i) s1"
    note r2 = refines_trans [OF r1 fail_held_runs_refines [OF refines_linked [OF r1]]]
    obtain b where "fail_batch i b s2 = Inr t"
      using assms(1) True
      by (auto simp: fail_recovery_body_def Let_def split_def s1_def s2_def and_then_eq_Inr)
    then show ?thesis
      using fail_batch_refines refines_ok [OF assms(2) r2] refines_trans [OF r2] unfolding s2_def by blast
  qed
qed

section \<open>The barrier\<close>

abbreviation step_key :: "recovery_row \<Rightarrow> ident \<times> ident" where
  "step_key v \<equiv> (rv_batch_id v, rv_rule_id v)"

definition steps_unique :: "store \<Rightarrow> bool" where
  "steps_unique s \<longleftrightarrow> distinct (map step_key (st_recoveries s))"

lemma steps_uniqueD:
  "steps_unique s \<Longrightarrow> v \<in> set (st_recoveries s) \<Longrightarrow> w \<in> set (st_recoveries s) \<Longrightarrow>
     step_key v = step_key w \<Longrightarrow> v = w"
  unfolding steps_unique_def by (metis distinct_map_eqD)

lemma step_row:
  "steps_unique s \<Longrightarrow> v \<in> set (st_recoveries s) \<Longrightarrow> row_by step_key (step_key v) (st_recoveries s) = Some v"
  unfolding steps_unique_def by (rule row_by_member)

lemma steps_unique_update:
  "(\<And>v. step_key (f v) = step_key v) \<Longrightarrow> steps_unique s \<Longrightarrow> steps_unique (snd (update_step here f s))"
  by (simp add: steps_unique_def map_key_update_where)

text \<open>
  A round is released exactly by the step that finds every other step of its barrier succeeded. A
  step that is not the last changes no run and no batch.
\<close>

lemma last_step_releases:
  fixes s t :: store
  assumes "close_barrier i s = Inr (Round_Releasing, t)"
    "row_by step_key (sn_batch_id i, sn_rule_id i) (st_recoveries s) = Some rec"
    "remaining_steps s (sn_batch_id i) (rv_after_round rec) = 0"
  obtains b :: batch_row where "t = release_round (sn_batch_id i) (bt_queue_timeout_ms b) (sn_updated_at i)
        (rv_next_round rec) (snd (update_step
          (owned_step (sn_batch_id i) (sn_rule_id i) (sn_worker_id i) {RV_Succeeded})
          (\<lambda>v. v\<lparr>rv_status := RV_Releasing\<rparr>) s))"
proof -
  obtain b where "find_batch s (sn_batch_id i) = Some b"
    using assms unfolding close_barrier_def Let_def by (auto simp: and_then_eq_Inr found_eq_Inr)
  with assms show thesis
    unfolding close_barrier_def Let_def by (intro that [of b]) (simp add: and_then_eq_Inr found_eq_Inr)
qed

lemma release_waits_for_barrier:
  assumes "complete_waiting_body i s = Inr (Round_Releasing, t)" "steps_unique s"
  obtains v where "v \<in> set (st_recoveries s)" "step_key v = (sn_batch_id i, sn_rule_id i)"
    "rv_status v = RV_Waiting" "rv_lease_owner v = Some (sn_worker_id i)"
    "\<And>w. w \<in> set (st_recoveries s) \<Longrightarrow> rv_batch_id w = rv_batch_id v \<Longrightarrow>
       rv_after_round w = rv_after_round v \<Longrightarrow> w \<noteq> v \<Longrightarrow> rv_status w = RV_Succeeded"
    "\<And>r. r \<in> set (st_runs t) \<Longrightarrow> rr_batch_id r = rv_batch_id v \<Longrightarrow> rr_status r = R_Queued \<Longrightarrow>
       rr_held_round r = 0 \<or> rv_next_round v < rr_held_round r"
    "\<And>b. b \<in> set (st_batches t) \<Longrightarrow> bt_id b = rv_batch_id v \<Longrightarrow> bt_current_round b = rv_next_round v"
proof -
  let ?here = "owned_step (sn_batch_id i) (sn_rule_id i) (sn_worker_id i) {RV_Waiting}"
  let ?up = "\<lambda>v. v\<lparr>rv_status := RV_Succeeded, rv_updated_at := sn_updated_at i\<rparr>"
  define s1 where "s1 = snd (update_step ?here ?up s)"
  have "(if \<not> fst (update_step ?here ?up s) then Inr (Claim_Lost, s1) else close_barrier i s1) =
      Inr (Round_Releasing, t)"
    using assms(1) unfolding complete_waiting_body_def split_def Let_def s1_def .
  then have one: "count_where ?here (st_recoveries s) = Suc 0"
      and body: "close_barrier i s1 = Inr (Round_Releasing, t)"
    by (simp_all split: if_splits)
  obtain rec where rec: "row_by step_key (sn_batch_id i, sn_rule_id i) (st_recoveries s1) = Some rec"
    using body unfolding close_barrier_def and_then_eq_Inr found_eq_Inr by blast
  have none: "remaining_steps s1 (sn_batch_id i) (rv_after_round rec) = 0"
    using body rec by (simp add: close_barrier_def Let_def split: if_splits)
  obtain b :: batch_row where t: "t = release_round (sn_batch_id i) (bt_queue_timeout_ms b) (sn_updated_at i)
        (rv_next_round rec) (snd (update_step
          (owned_step (sn_batch_id i) (sn_rule_id i) (sn_worker_id i) {RV_Succeeded})
          (\<lambda>v. v\<lparr>rv_status := RV_Releasing\<rparr>) s1))"
    using last_step_releases [OF body rec none] .
  obtain v where v: "v \<in> set (st_recoveries s)" "?here v"
    using count_one [OF one] by blast
  have key: "step_key v = (sn_batch_id i, sn_rule_id i)" using v(2) by (simp add: owned_step_def)
  have u1: "steps_unique s1"
    unfolding s1_def by (rule steps_unique_update) (simp_all add: assms(2))
  have "?up v \<in> set (st_recoveries s1)"
    unfolding s1_def update_step_tables using v by (rule update_where_change [of v _ ?here ?up])
  then have "row_by step_key (step_key (?up v)) (st_recoveries s1) = Some (?up v)"
    by (rule step_row [OF u1])
  then have r: "rec = ?up v" using rec key by simp
  have others: "rv_status w = RV_Succeeded"
    if w: "w \<in> set (st_recoveries s)" "rv_batch_id w = rv_batch_id v" "rv_after_round w = rv_after_round v"
      "w \<noteq> v" for w
  proof -
    have "step_key w \<noteq> step_key v" using steps_uniqueD [OF assms(2) w(1) v(1)] w(4) by blast
    then have "\<not> ?here w" using key by (auto simp: owned_step_def)
    then have "w \<in> set (st_recoveries s1)" using w(1) by (simp add: s1_def update_where_keep)
    then show ?thesis
      using none w(2,3) key by (auto simp: remaining_steps_def barrier_steps_def r)
  qed
  have runs: "rr_held_round x = 0 \<or> rv_next_round v < rr_held_round x"
    if x: "x \<in> set (st_runs t)" "rr_batch_id x = rv_batch_id v" "rr_status x = R_Queued" for x
    using x key unfolding t release_round_def by (auto simp: r elim!: in_update_whereE split: if_splits)
  have batches: "bt_current_round c = rv_next_round v"
    if c: "c \<in> set (st_batches t)" "bt_id c = rv_batch_id v" for c
    using c key unfolding t release_round_def by (auto simp: r elim!: in_update_whereE split: if_splits)
  show thesis
    using v key others runs batches by (intro that [of v]) (auto simp: owned_step_def)
qed

lemma waiting_step_frame:
  assumes "complete_waiting_body i s = Inr (Step_Completed n, t)"
  shows "st_runs t = st_runs s \<and> st_batches t = st_batches s \<and> 0 < n"
  using assms unfolding complete_waiting_body_def close_barrier_def release_step_def
  by (auto simp: Let_def split_def and_then_eq_Inr split: if_splits)

section \<open>Exclusive claims\<close>

text \<open>What a claimed step looks like, and that the later updates of the loop leave it so.\<close>

lemma claim_rows_keep:
  assumes "\<And>v. v \<in> set (st_recoveries s) \<Longrightarrow> step_key v = k \<Longrightarrow> \<not> lease_free (cu_now i) v"
    "w \<in> set (st_recoveries (snd (claim_rows i rows s)))" "step_key w = k"
  shows "w \<in> set (st_recoveries s)"
  using assms
proof (induction rows arbitrary: s)
  case Nil
  then show ?case by simp
next
  case (Cons row rows)
  let ?here = "\<lambda>v. rv_batch_id v = rv_batch_id (fst row) \<and> rv_rule_id v = rv_rule_id (fst row) \<and>
                 rv_status v \<in> claimable_status \<and> lease_free (cu_now i) v"
  let ?f = "\<lambda>v. v\<lparr>rv_lease_owner := Some (cu_worker_id i),
                  rv_lease_expires_at := Some (cu_lease_expires_at i), rv_updated_at := cu_now i\<rparr>"
  let ?s = "snd (update_step ?here ?f s)"
  have same: "v \<in> set (st_recoveries s)" if v: "v \<in> set (st_recoveries ?s)" "step_key v = k" for v
    using v(1) unfolding update_step_tables
  proof (cases rule: update_where_cases)
    case (changed x)
    then have "step_key x = k" "lease_free (cu_now i) x" using v(2) by simp_all
    then show ?thesis using Cons.prems(1) changed(1) by blast
  qed
  have "w \<in> set (st_recoveries (snd (claim_rows i rows ?s)))"
    using Cons.prems(2) by (simp add: Let_def split_def)
  moreover have "\<not> lease_free (cu_now i) v" if v: "v \<in> set (st_recoveries ?s)" "step_key v = k" for v
    using Cons.prems(1) [OF same [OF v] v(2)] .
  ultimately have "w \<in> set (st_recoveries ?s)" using Cons.IH Cons.prems(3) by blast
  then show ?case using same Cons.prems(3) by blast
qed

lemma claimed_leased:
  assumes "c \<in> set (fst (claim_rows i rows s))" "steps_unique s" "cu_now i < cu_lease_expires_at i"
    "w \<in> set (st_recoveries (snd (claim_rows i rows s)))" "step_key w = (rm_batch_id c, rm_rule_id c)"
  shows "rv_lease_expires_at w = Some (cu_lease_expires_at i) \<and> rv_lease_owner w = Some (cu_worker_id i)"
  using assms(1,2,4)
proof (induction rows arbitrary: s)
  case Nil
  then show ?case by simp
next
  case (Cons row rows)
  let ?here = "\<lambda>v. rv_batch_id v = rv_batch_id (fst row) \<and> rv_rule_id v = rv_rule_id (fst row) \<and>
                 rv_status v \<in> claimable_status \<and> lease_free (cu_now i) v"
  let ?f = "\<lambda>v. v\<lparr>rv_lease_owner := Some (cu_worker_id i),
                  rv_lease_expires_at := Some (cu_lease_expires_at i), rv_updated_at := cu_now i\<rparr>"
  let ?s = "snd (update_step ?here ?f s)"
  have u: "steps_unique ?s" by (rule steps_unique_update) (simp_all add: Cons.prems(2))
  have w: "w \<in> set (st_recoveries (snd (claim_rows i rows ?s)))"
    using Cons.prems(3) by (simp add: Let_def split_def)
  show ?case
  proof (cases "c \<in> set (fst (claim_rows i rows ?s))")
    case True
    then show ?thesis using Cons.IH [OF _ u w] by blast
  next
    case False
    then have c: "c = toClaim row" and one: "count_where ?here (st_recoveries s) = Suc 0"
      using Cons.prems(1) by (auto simp: Let_def split_def split: if_splits)
    obtain v where v: "v \<in> set (st_recoveries s)" "?here v"
      using count_one [OF one] by blast
    have k: "step_key w = step_key (?f v)"
      using assms(5) c v(2) by (simp add: toClaim_def Let_def)
    have fv: "?f v \<in> set (st_recoveries ?s)"
      unfolding update_step_tables using v by (rule update_where_change [of v _ ?here ?f])
    have "\<not> lease_free (cu_now i) x"
      if "x \<in> set (st_recoveries ?s)" "step_key x = step_key (?f v)" for x
      using steps_uniqueD [OF u that(1) fv that(2)] assms(3) by (simp add: lease_free_def)
    then have "w \<in> set (st_recoveries ?s)" using claim_rows_keep [OF _ w k] by blast
    then have "w = ?f v" using steps_uniqueD [OF u _ fv k] by blast
    then show ?thesis by simp
  qed
qed

text \<open>Until its lease is over a claimed step is claimed by nobody else.\<close>

lemma dueRows_due:
  "(v, suite) \<in> set (dueRows now n s) \<Longrightarrow> v \<in> set (st_recoveries s) \<and> lease_free now v"
  by (auto simp: dueRows_def recovery_due_def dest!: in_set_takeD)

lemma claim_rows_subset:
  "c \<in> set (fst (claim_rows i rows s)) \<Longrightarrow> \<exists>row\<in>set rows. c = toClaim row"
proof (induction rows arbitrary: s)
  case (Cons row rows)
  define r where "r = update_step (\<lambda>v. rv_batch_id v = rv_batch_id (fst row) \<and>
      rv_rule_id v = rv_rule_id (fst row) \<and> rv_status v \<in> claimable_status \<and> lease_free (cu_now i) v)
    (\<lambda>v. v\<lparr>rv_lease_owner := Some (cu_worker_id i),
        rv_lease_expires_at := Some (cu_lease_expires_at i), rv_updated_at := cu_now i\<rparr>) s"
  have "fst (claim_rows i (row # rows) s) =
      (if fst r then toClaim row # fst (claim_rows i rows (snd r)) else fst (claim_rows i rows (snd r)))"
    by (simp only: claim_rows.simps r_def [symmetric] Let_def split_def) simp
  then have "c = toClaim row \<or> c \<in> set (fst (claim_rows i rows (snd r)))"
    using Cons.prems by (auto split: if_splits)
  then show ?case using Cons.IH by auto
qed simp

lemma claimDue_claims:
  assumes "c \<in> set (fst (claimDue i s))"
  obtains v suite where "(v, suite) \<in> set (dueRows (cu_now i) (nat (cu_limit i)) s)" "c = toClaim (v, suite)"
    "claimDue i s = claim_rows i (dueRows (cu_now i) (nat (cu_limit i)) s) s"
  using assms claim_rows_subset [of c i] by (fastforce simp: claimDue_def split: if_splits)

lemma claims_exclusive:
  assumes "c \<in> set (fst (claimDue i s))" "d \<in> set (fst (claimDue j (snd (claimDue i s))))"
    "steps_unique s" "cu_now i < cu_lease_expires_at i" "cu_now j < cu_lease_expires_at i"
  shows "(rm_batch_id c, rm_rule_id c) \<noteq> (rm_batch_id d, rm_rule_id d)"
proof
  assume same: "(rm_batch_id c, rm_rule_id c) = (rm_batch_id d, rm_rule_id d)"
  obtain v suite where v: "(v, suite) \<in> set (dueRows (cu_now j) (nat (cu_limit j)) (snd (claimDue i s)))"
      "d = toClaim (v, suite)"
    using claimDue_claims [OF assms(2)] .
  from dueRows_due [OF v(1)] have mem: "v \<in> set (st_recoveries (snd (claimDue i s)))"
    and free: "lease_free (cu_now j) v" by blast+
  have "step_key v = (rm_batch_id c, rm_rule_id c)"
    using v(2) same by (simp add: toClaim_def Let_def)
  then have "rv_lease_expires_at v = Some (cu_lease_expires_at i)"
    using claimDue_claims [OF assms(1)] claimed_leased [OF _ assms(3,4)] assms(1) mem by metis
  then show False using free assms(5) by (simp add: lease_free_def)
qed

end
