(* ===== verification/Case_Suite.thy ===== *)
theory Case_Suite
  imports Run_Types "HOL-Library.Multiset"
begin

text \<open>
  Case suites, \<open>packages/domain/src/case-suite.ts\<close>: the execution policy with its merge of
  overrides, the normalisation of stored rules, the order of pinned suites, the version snapshot,
  and the staged rules that change the concurrency of a batch from one retry round to the next.
  Stored JSON is a value of \<open>json\<close>; an absent property is \<open>None\<close>. The collation of names by
  \<open>Intl.Collator\<close> is a parameter that gives the sort key of a name.
\<close>

section \<open>Policies\<close>

datatype json =
    J_Null | J_Bool bool | J_Number js_number | J_String string
  | J_Array "json list" | J_Object "(string \<times> json) list"

record adapter_configuration =
  ac_enabled :: bool
  ac_suite_name :: string
  ac_test_name :: string
  ac_environment_addresses :: "string list"

record round_recovery_rule =
  rec_id :: string
  rec_after_round :: int
  rec_jenkins_job_url :: string
  rec_wait_minutes :: int
  rec_api_key_configured :: bool

record suite_policy =
  cp_ai_analysis :: "bool option"
  cp_executor :: executor_kind
  cp_adapter :: adapter_configuration
  cp_priority :: int
  cp_concurrency :: int
  cp_retry_limit :: int
  cp_retry_mode :: retry_mode
  cp_queue_timeout_ms :: int
  cp_claim_timeout_ms :: int
  cp_upload_timeout_ms :: int
  cp_project_version_id :: "string option"
  cp_runner_ids :: "string list"
  cp_runner_group_id :: "string option"
  cp_runner_labels :: "string list"
  cp_artifact_patterns :: "string list"
  cp_retry_concurrency_rules :: "retry_concurrency_rule list"
  cp_round_recovery_rules :: "round_recovery_rule list"

definition defaultCaseSuiteExecutionPolicy :: suite_policy where
  "defaultCaseSuiteExecutionPolicy =
     \<lparr>cp_ai_analysis = None, cp_executor = TestNg,
      cp_adapter = \<lparr>ac_enabled = False, ac_suite_name = '''', ac_test_name = '''',
        ac_environment_addresses = []\<rparr>,
      cp_priority = 0, cp_concurrency = 4, cp_retry_limit = 0, cp_retry_mode = Round,
      cp_queue_timeout_ms = 86400000, cp_claim_timeout_ms = 300000,
      cp_upload_timeout_ms = 600000, cp_project_version_id = None, cp_runner_ids = [],
      cp_runner_group_id = None, cp_runner_labels = [],
      cp_artifact_patterns = [''reports/testng/**''],
      cp_retry_concurrency_rules = [], cp_round_recovery_rules = []\<rparr>"

text \<open>An override has each field or not; the rules of an override may come from stored JSON.\<close>

record policy_override =
  ov_ai_analysis :: "bool option"
  ov_executor :: "executor_kind option"
  ov_adapter :: "adapter_configuration option"
  ov_priority :: "int option"
  ov_concurrency :: "int option"
  ov_retry_limit :: "int option"
  ov_retry_mode :: "retry_mode option"
  ov_queue_timeout_ms :: "int option"
  ov_claim_timeout_ms :: "int option"
  ov_upload_timeout_ms :: "int option"
  ov_project_version_id :: "string option"
  ov_runner_ids :: "string list option"
  ov_runner_group_id :: "string option"
  ov_runner_labels :: "string list option"
  ov_artifact_patterns :: "string list option"
  ov_retry_concurrency_rules :: "json option"
  ov_round_recovery_rules :: "round_recovery_rule list option"

definition no_override :: policy_override where
  "no_override =
     \<lparr>ov_ai_analysis = None, ov_executor = None, ov_adapter = None, ov_priority = None,
      ov_concurrency = None, ov_retry_limit = None, ov_retry_mode = None,
      ov_queue_timeout_ms = None, ov_claim_timeout_ms = None, ov_upload_timeout_ms = None,
      ov_project_version_id = None, ov_runner_ids = None, ov_runner_group_id = None,
      ov_runner_labels = None, ov_artifact_patterns = None, ov_retry_concurrency_rules = None,
      ov_round_recovery_rules = None\<rparr>"

subsection \<open>Stored rules\<close>

definition json_get :: "(string \<times> json) list \<Rightarrow> string \<Rightarrow> json option" where
  "json_get kvs k = map_of (rev kvs) k"

definition integer_value :: "js_number \<Rightarrow> int option" where
  "integer_value n = (case n of JNum q \<Rightarrow> if of_int \<lfloor>q\<rfloor> = q then Some \<lfloor>q\<rfloor> else None | _ \<Rightarrow> None)"

definition optionalInteger :: "json option \<Rightarrow> int option" where
  "optionalInteger v = (case v of Some (J_Number n) \<Rightarrow> integer_value n | _ \<Rightarrow> None)"

definition normalize_rule :: "json \<Rightarrow> retry_concurrency_rule list" where
  "normalize_rule candidate =
     (case candidate of
        J_Object rule \<Rightarrow>
          let executionRound =
                (if optionalInteger (json_get rule ''executionRound'') \<noteq> None
                   then json_get rule ''executionRound'' else json_get rule ''executionRoundFrom'')
          in (case (json_get rule ''id'', optionalInteger executionRound,
                    optionalInteger (json_get rule ''concurrency'')) of
                (Some (J_String ruleId), Some rnd, Some concurrency) \<Rightarrow>
                  [\<lparr>rule_id = ruleId, rule_execution_round = rnd,
                    rule_pass_rate_minimum = optionalInteger (json_get rule ''previousRoundPassRateMinimum''),
                    rule_pass_rate_maximum = optionalInteger (json_get rule ''previousRoundPassRateMaximum''),
                    rule_remaining_minimum = optionalInteger (json_get rule ''remainingRunsMinimum''),
                    rule_remaining_maximum = optionalInteger (json_get rule ''remainingRunsMaximum''),
                    rule_concurrency = concurrency\<rparr>]
              | _ \<Rightarrow> [])
      | _ \<Rightarrow> [])"

definition normalizeStoredRetryConcurrencyRules :: "json \<Rightarrow> retry_concurrency_rule list" where
  "normalizeStoredRetryConcurrencyRules value =
     (case value of J_Array cs \<Rightarrow> concat (map normalize_rule cs) | _ \<Rightarrow> [])"

text \<open>The JSON of a rule, as \<open>JSON.stringify\<close> stores it.\<close>

definition json_optional :: "string \<Rightarrow> int option \<Rightarrow> (string \<times> json) list" where
  "json_optional k v = (case v of None \<Rightarrow> [] | Some n \<Rightarrow> [(k, J_Number (js_int n))])"

definition rule_json :: "retry_concurrency_rule \<Rightarrow> json" where
  "rule_json r = J_Object
     ([(''id'', J_String (rule_id r)),
       (''executionRound'', J_Number (js_int (rule_execution_round r)))] @
      json_optional ''previousRoundPassRateMinimum'' (rule_pass_rate_minimum r) @
      json_optional ''previousRoundPassRateMaximum'' (rule_pass_rate_maximum r) @
      json_optional ''remainingRunsMinimum'' (rule_remaining_minimum r) @
      json_optional ''remainingRunsMaximum'' (rule_remaining_maximum r) @
      [(''concurrency'', J_Number (js_int (rule_concurrency r)))])"

definition rules_json :: "retry_concurrency_rule list \<Rightarrow> json" where
  "rules_json rs = J_Array (map rule_json rs)"

lemma integer_value_js_int [simp]: "integer_value (js_int n) = Some n"
  by (simp add: integer_value_def js_int_def)

lemma optionalInteger_simps [simp]:
  "optionalInteger None = None"
  "optionalInteger (Some (J_Number n)) = integer_value n"
  by (simp_all add: optionalInteger_def)

lemma normalize_rule_json [simp]: "normalize_rule (rule_json r) = [r]"
  by (simp add: normalize_rule_def rule_json_def json_get_def json_optional_def Let_def
      split: option.split)

text \<open>Normalising the JSON of rules gives the rules back.\<close>

lemma normalize_rules_json [simp]: "normalizeStoredRetryConcurrencyRules (rules_json rs) = rs"
  by (induction rs) (simp_all add: normalizeStoredRetryConcurrencyRules_def rules_json_def)

subsection \<open>Merging\<close>

definition or_else :: "'a option \<Rightarrow> 'a \<Rightarrow> 'a" where
  "or_else v d = (case v of None \<Rightarrow> d | Some x \<Rightarrow> x)"

definition or_base :: "string option \<Rightarrow> string option \<Rightarrow> string option" where
  "or_base v b = (if v \<noteq> None then nonempty v else nonempty b)"

definition merged_rules :: "json option \<Rightarrow> retry_concurrency_rule list \<Rightarrow> retry_concurrency_rule list" where
  "merged_rules v rules = normalizeStoredRetryConcurrencyRules
     (case v of None \<Rightarrow> rules_json rules | Some J_Null \<Rightarrow> rules_json rules | Some x \<Rightarrow> x)"

definition mergeCaseSuiteExecutionPolicy :: "suite_policy \<Rightarrow> policy_override \<Rightarrow> suite_policy" where
  "mergeCaseSuiteExecutionPolicy b ov =
     \<lparr>cp_ai_analysis = (if ov_ai_analysis ov \<noteq> None then ov_ai_analysis ov else cp_ai_analysis b),
      cp_executor = or_else (ov_executor ov) (cp_executor b),
      cp_adapter = or_else (ov_adapter ov) (cp_adapter b),
      cp_priority = or_else (ov_priority ov) (cp_priority b),
      cp_concurrency = or_else (ov_concurrency ov) (cp_concurrency b),
      cp_retry_limit = or_else (ov_retry_limit ov) (cp_retry_limit b),
      cp_retry_mode = or_else (ov_retry_mode ov) (cp_retry_mode b),
      cp_queue_timeout_ms = or_else (ov_queue_timeout_ms ov) (cp_queue_timeout_ms b),
      cp_claim_timeout_ms = or_else (ov_claim_timeout_ms ov) (cp_claim_timeout_ms b),
      cp_upload_timeout_ms = or_else (ov_upload_timeout_ms ov) (cp_upload_timeout_ms b),
      cp_project_version_id = or_base (ov_project_version_id ov) (cp_project_version_id b),
      cp_runner_ids = or_else (ov_runner_ids ov) (cp_runner_ids b),
      cp_runner_group_id = or_base (ov_runner_group_id ov) (cp_runner_group_id b),
      cp_runner_labels = or_else (ov_runner_labels ov) (cp_runner_labels b),
      cp_artifact_patterns = or_else (ov_artifact_patterns ov) (cp_artifact_patterns b),
      cp_retry_concurrency_rules = merged_rules (ov_retry_concurrency_rules ov)
        (cp_retry_concurrency_rules b),
      cp_round_recovery_rules = or_else (ov_round_recovery_rules ov) (cp_round_recovery_rules b)\<rparr>"

lemma or_else_twice [simp]: "or_else v (or_else v d) = or_else v d"
  by (simp add: or_else_def split: option.split)

lemma or_else_None [simp]: "or_else None d = d"
  by (simp add: or_else_def)

lemma or_base_twice [simp]: "or_base v (or_base v b) = or_base v b"
  by (simp add: or_base_def nonempty_def split: option.split)

lemma or_base_again [simp]: "or_base None (or_base v b) = or_base v b"
  by (simp add: or_base_def nonempty_def split: option.split)

lemma merged_rules_twice [simp]: "merged_rules v (merged_rules v rs) = merged_rules v rs"
  by (simp add: merged_rules_def split: option.split json.split)

lemma merged_rules_None [simp]: "merged_rules None rs = rs"
  by (simp add: merged_rules_def)

lemmas merge_def = mergeCaseSuiteExecutionPolicy_def

text \<open>Merging the same override twice, or an empty one afterwards, changes nothing more.\<close>

lemma merge_idem:
  "mergeCaseSuiteExecutionPolicy (mergeCaseSuiteExecutionPolicy b ov) ov =
     mergeCaseSuiteExecutionPolicy b ov"
  by (simp add: merge_def)

lemma merge_none:
  "mergeCaseSuiteExecutionPolicy (mergeCaseSuiteExecutionPolicy b ov) no_override =
     mergeCaseSuiteExecutionPolicy b ov"
  by (simp add: merge_def no_override_def)

section \<open>Suites\<close>

datatype suite_status = Suite_Active | Suite_Archived

record case_suite =
  su_id :: ident
  su_is_rerun :: "bool option"
  su_project_id :: ident
  su_name :: string
  su_description :: "string option"
  su_version :: int
  su_revision :: int
  su_status :: suite_status
  su_enabled :: bool
  su_policy :: suite_policy
  su_case_count :: int
  su_created_by :: "ident option"
  su_updated_by :: "ident option"
  su_created_at :: time
  su_updated_at :: time

definition orderCaseSuitesByPins ::
  "(string \<Rightarrow> 'k::linorder) \<Rightarrow> case_suite list \<Rightarrow> ident set \<Rightarrow> case_suite list" where
  "orderCaseSuitesByPins collation suites pinned =
     sort_key (\<lambda>s. collation (su_name s)) (filter (\<lambda>s. su_id s \<in> pinned) suites) @
     filter (\<lambda>s. su_id s \<notin> pinned) suites"

lemma orderCaseSuitesByPins_mset: "mset (orderCaseSuitesByPins k suites pinned) = mset suites"
  by (simp add: orderCaseSuitesByPins_def multiset_partition [symmetric])

record suite_snapshot =
  sv_name :: string
  sv_description :: "string option"
  sv_status :: suite_status
  sv_enabled :: bool
  sv_policy :: suite_policy
  sv_case_definition_ids :: "ident list"
  sv_ddt_case_ids :: "ident list option"

definition buildCaseSuiteVersionSnapshot ::
  "case_suite \<Rightarrow> ident list \<Rightarrow> ident list \<Rightarrow> suite_snapshot" where
  "buildCaseSuiteVersionSnapshot suite caseDefinitionIds ddtCaseIds =
     \<lparr>sv_name = su_name suite, sv_description = nonempty (su_description suite),
      sv_status = su_status suite, sv_enabled = su_enabled suite,
      sv_policy = mergeCaseSuiteExecutionPolicy (su_policy suite) no_override,
      sv_case_definition_ids = sort caseDefinitionIds,
      sv_ddt_case_ids = (if ddtCaseIds \<noteq> [] then Some (sort ddtCaseIds) else None)\<rparr>"

text \<open>A snapshot does not depend on the order the cases are listed in.\<close>

lemma snapshot_order:
  assumes "mset cs = mset cs'" "mset ds = mset ds'"
  shows "buildCaseSuiteVersionSnapshot su cs ds = buildCaseSuiteVersionSnapshot su cs' ds'"
proof -
  have "sort cs = sort cs'" "sort ds = sort ds'"
    using assms by (auto intro: properties_for_sort)
  moreover have "ds = [] \<longleftrightarrow> ds' = []" using assms(2) by (metis mset_zero_iff)
  ultimately show ?thesis by (simp add: buildCaseSuiteVersionSnapshot_def)
qed

section \<open>Concurrency of the retry rounds\<close>

record retry_context =
  rt_execution_round :: int
  rt_previous_pass_rate :: "int option"
  rt_remaining_runs :: int

record concurrency_state =
  cs_rule_id :: string
  cs_rule_index :: int
  cs_concurrency :: int
  cs_activated_round :: int

record concurrency_decision =
  cd_concurrency :: int
  cd_active :: "concurrency_state option"
  cd_transition :: "concurrency_state option"

definition at_least :: "int option \<Rightarrow> int option \<Rightarrow> bool" where
  "at_least bound v =
     (case bound of None \<Rightarrow> True | Some m \<Rightarrow> (case v of None \<Rightarrow> False | Some x \<Rightarrow> m \<le> x))"

definition at_most :: "int option \<Rightarrow> int option \<Rightarrow> bool" where
  "at_most bound v =
     (case bound of None \<Rightarrow> True | Some m \<Rightarrow> (case v of None \<Rightarrow> False | Some x \<Rightarrow> x \<le> m))"

definition retryConcurrencyRuleMatches :: "retry_concurrency_rule \<Rightarrow> retry_context \<Rightarrow> bool" where
  "retryConcurrencyRuleMatches r c \<longleftrightarrow>
     rt_execution_round c = rule_execution_round r \<and>
     at_least (rule_pass_rate_minimum r) (rt_previous_pass_rate c) \<and>
     at_most (rule_pass_rate_maximum r) (rt_previous_pass_rate c) \<and>
     at_least (rule_remaining_minimum r) (Some (rt_remaining_runs c)) \<and>
     at_most (rule_remaining_maximum r) (Some (rt_remaining_runs c))"

definition validRetryConcurrencyState ::
  "retry_concurrency_rule list \<Rightarrow> int \<Rightarrow> concurrency_state option \<Rightarrow> concurrency_state option" where
  "validRetryConcurrencyState rules executionRound state =
     (case state of
        None \<Rightarrow> None
      | Some s \<Rightarrow>
          if executionRound < cs_activated_round s \<or> cs_rule_index s < 0 then None
          else if nat (cs_rule_index s) < length rules \<and>
                  rule_id (rules ! nat (cs_rule_index s)) = cs_rule_id s \<and>
                  rule_concurrency (rules ! nat (cs_rule_index s)) = cs_concurrency s
            then Some s else None)"

text \<open>\<open>findIndex\<close> with the index in the predicate.\<close>

definition find_rule ::
  "retry_concurrency_rule list \<Rightarrow> nat \<Rightarrow> retry_context \<Rightarrow> (nat \<times> retry_concurrency_rule) option" where
  "find_rule rules first c =
     find (\<lambda>(i, r). first \<le> i \<and> retryConcurrencyRuleMatches r c) (enumerate 0 rules)"

definition stage_transition ::
  "nat \<Rightarrow> retry_concurrency_rule \<Rightarrow> retry_context \<Rightarrow> concurrency_state" where
  "stage_transition i r c =
     \<lparr>cs_rule_id = rule_id r, cs_rule_index = int i, cs_concurrency = rule_concurrency r,
      cs_activated_round = rt_execution_round c\<rparr>"

definition retryConcurrencyDecisionForRound ::
  "int \<Rightarrow> retry_concurrency_rule list \<Rightarrow> retry_context \<Rightarrow> concurrency_state option \<Rightarrow>
   concurrency_decision" where
  "retryConcurrencyDecisionForRound base rules c state =
     (let activeState = validRetryConcurrencyState rules (rt_execution_round c) state
      in case activeState of
           Some s \<Rightarrow>
             if cs_activated_round s = rt_execution_round c
               then \<lparr>cd_concurrency = cs_concurrency s, cd_active = Some s, cd_transition = None\<rparr>
             else (case find_rule rules (nat (cs_rule_index s + 1)) c of
                 Some (i, r) \<Rightarrow>
                   let t = stage_transition i r c in \<lparr>cd_concurrency = cs_concurrency t, cd_active = Some t, cd_transition = Some t\<rparr>
               | None \<Rightarrow> \<lparr>cd_concurrency = cs_concurrency s, cd_active = Some s, cd_transition = None\<rparr>)
         | None \<Rightarrow>
             (case find_rule rules 0 c of
                 Some (i, r) \<Rightarrow>
                   let t = stage_transition i r c in \<lparr>cd_concurrency = cs_concurrency t, cd_active = Some t, cd_transition = Some t\<rparr>
               | None \<Rightarrow> \<lparr>cd_concurrency = base, cd_active = None, cd_transition = None\<rparr>))"

definition retryConcurrencyForRound ::
  "int \<Rightarrow> retry_concurrency_rule list \<Rightarrow> retry_context \<Rightarrow> concurrency_state option \<Rightarrow> int" where
  "retryConcurrencyForRound base rules c state =
     cd_concurrency (retryConcurrencyDecisionForRound base rules c state)"

lemma find_rule_Some:
  assumes "find_rule rules first c = Some (i, r)"
  shows "first \<le> i \<and> i < length rules \<and> r = rules ! i \<and> retryConcurrencyRuleMatches r c"
  using assms by (auto simp: find_rule_def in_set_enumerate_eq dest: find_SomeD)

lemma valid_state_Some:
  "validRetryConcurrencyState rules n state = Some s \<Longrightarrow>
     state = Some s \<and> cs_activated_round s \<le> n \<and> 0 \<le> cs_rule_index s \<and>
     cs_rule_index s < int (length rules)"
  by (auto simp: validRetryConcurrencyState_def split: option.splits if_splits)

text \<open>A state that a rule activates is valid from its round on.\<close>

lemma activated_valid:
  assumes "find_rule rules first c = Some (i, r)" "rt_execution_round c \<le> n"
  shows "validRetryConcurrencyState rules n (Some (stage_transition i r c)) =
    Some (stage_transition i r c)"
  using find_rule_Some [OF assms(1)] assms(2)
  by (simp add: validRetryConcurrencyState_def stage_transition_def)

lemma valid_state_fixed:
  "validRetryConcurrencyState rules n state = Some s \<Longrightarrow>
     validRetryConcurrencyState rules n (Some s) = Some s"
  by (auto dest: valid_state_Some)

text \<open>The outcomes of a decision: the base concurrency, the stage that is active, a new stage.\<close>

lemma decision_cases:
  fixes base rules c state
  defines "d \<equiv> retryConcurrencyDecisionForRound base rules c state"
    and "v \<equiv> validRetryConcurrencyState rules (rt_execution_round c) state"
  obtains
    (Base) "v = None" "find_rule rules 0 c = None"
      "d = \<lparr>cd_concurrency = base, cd_active = None, cd_transition = None\<rparr>"
  | (Keep) s where "v = Some s"
      "d = \<lparr>cd_concurrency = cs_concurrency s, cd_active = Some s, cd_transition = None\<rparr>"
      "cs_activated_round s = rt_execution_round c \<or> find_rule rules (nat (cs_rule_index s + 1)) c = None"
  | (Move) i r where
      "find_rule rules (case v of None \<Rightarrow> 0 | Some s \<Rightarrow> nat (cs_rule_index s + 1)) c = Some (i, r)"
      "\<And>s. v = Some s \<Longrightarrow> cs_activated_round s \<noteq> rt_execution_round c"
      "d = \<lparr>cd_concurrency = rule_concurrency r, cd_active = Some (stage_transition i r c),
            cd_transition = Some (stage_transition i r c)\<rparr>"
proof (cases v)
  case None
  show thesis
  proof (cases "find_rule rules 0 c")
    case None': None
    show thesis by (rule Base) (use None None' in \<open>simp_all add: d_def v_def retryConcurrencyDecisionForRound_def Let_def\<close>)
  next
    case (Some p)
    obtain i r where p: "p = (i, r)" by fastforce
    show thesis
      by (rule Move [of i r])
        (use None Some p in \<open>simp_all add: d_def v_def retryConcurrencyDecisionForRound_def stage_transition_def Let_def\<close>)
  qed
next
  case v: (Some s)
  show thesis
  proof (cases "cs_activated_round s = rt_execution_round c")
    case True
    show thesis
      by (rule Keep [of s]) (use v True in \<open>simp_all add: d_def v_def retryConcurrencyDecisionForRound_def Let_def\<close>)
  next
    case False
    show thesis
    proof (cases "find_rule rules (nat (cs_rule_index s + 1)) c")
      case None
      show thesis
        by (rule Keep [of s])
          (use v False None in \<open>simp_all add: d_def v_def retryConcurrencyDecisionForRound_def Let_def\<close>)
    next
      case (Some p)
      obtain i r where p: "p = (i, r)" by fastforce
      show thesis
        by (rule Move [of i r])
          (use v False Some p in \<open>simp_all add: d_def v_def retryConcurrencyDecisionForRound_def stage_transition_def Let_def\<close>)
    qed
  qed
qed

text \<open>
  A round decides once: repeated with the state it left, the decision of a round is the same and
  reports no new transition.
\<close>

lemma decision_kept:
  assumes "validRetryConcurrencyState rules (rt_execution_round c) state = Some s"
    "cs_activated_round s = rt_execution_round c \<or> find_rule rules (nat (cs_rule_index s + 1)) c = None"
  shows "retryConcurrencyDecisionForRound base rules c state =
    \<lparr>cd_concurrency = cs_concurrency s, cd_active = Some s, cd_transition = None\<rparr>"
  using assms by (auto simp: retryConcurrencyDecisionForRound_def)

lemma decision_repeats:
  fixes base rules c state
  defines "d \<equiv> retryConcurrencyDecisionForRound base rules c state"
  shows "retryConcurrencyDecisionForRound base rules c (cd_active d) = d\<lparr>cd_transition := None\<rparr>"
proof (cases rule: decision_cases [of rules c state base])
  case Base
  then show ?thesis
    by (simp add: d_def retryConcurrencyDecisionForRound_def validRetryConcurrencyState_def)
next
  case (Keep s)
  then show ?thesis using decision_kept [OF valid_state_fixed [OF Keep(1)] Keep(3)] by (simp add: d_def)
next
  case (Move i r)
  have "retryConcurrencyDecisionForRound base rules c (Some (stage_transition i r c)) =
      \<lparr>cd_concurrency = cs_concurrency (stage_transition i r c),
       cd_active = Some (stage_transition i r c), cd_transition = None\<rparr>"
    by (rule decision_kept [OF activated_valid [OF Move(1) order_refl]])
      (simp add: stage_transition_def)
  then show ?thesis using Move by (simp add: d_def stage_transition_def)
qed

text \<open>Stages only move forward, by rules that match, and the concurrency is the one of the stage.\<close>

lemma decision_active:
  assumes "cd_active (retryConcurrencyDecisionForRound base rules c state) = Some t"
  shows "cd_concurrency (retryConcurrencyDecisionForRound base rules c state) = cs_concurrency t"
    and "validRetryConcurrencyState rules (rt_execution_round c) (Some t) = Some t"
proof -
  have "cd_concurrency (retryConcurrencyDecisionForRound base rules c state) = cs_concurrency t \<and>
      validRetryConcurrencyState rules (rt_execution_round c) (Some t) = Some t"
  proof (cases rule: decision_cases [of rules c state base])
    case (Keep s)
    then show ?thesis using assms valid_state_fixed by auto
  next
    case (Move i r)
    then show ?thesis using assms activated_valid [OF Move(1) order_refl]
      by (auto simp: stage_transition_def)
  qed (use assms in simp)
  then show "cd_concurrency (retryConcurrencyDecisionForRound base rules c state) = cs_concurrency t"
    "validRetryConcurrencyState rules (rt_execution_round c) (Some t) = Some t" by blast+
qed

lemma decision_transition:
  assumes "cd_transition (retryConcurrencyDecisionForRound base rules c state) = Some t"
  shows "cd_active (retryConcurrencyDecisionForRound base rules c state) = Some t \<and>
    retryConcurrencyRuleMatches (rules ! nat (cs_rule_index t)) c \<and>
    cs_activated_round t = rt_execution_round c \<and>
    (\<forall>s. validRetryConcurrencyState rules (rt_execution_round c) state = Some s \<longrightarrow>
      cs_rule_index s < cs_rule_index t)"
proof (cases rule: decision_cases [of rules c state base])
  case (Move i r)
  have "cs_rule_index s < int i"
    if "validRetryConcurrencyState rules (rt_execution_round c) state = Some s" for s
    using find_rule_Some [OF Move(1)] that by auto
  then show ?thesis using Move(3) assms find_rule_Some [OF Move(1)] by (auto simp: stage_transition_def)
qed (use assms in simp_all)

lemma decision_no_transition:
  assumes "cd_transition (retryConcurrencyDecisionForRound base rules c state) = None"
  shows "cd_active (retryConcurrencyDecisionForRound base rules c state) =
    validRetryConcurrencyState rules (rt_execution_round c) state"
  by (cases rule: decision_cases [of rules c state base]) (use assms in simp_all)

text \<open>The stages of a batch over a list of contexts, one for each round that is scheduled.\<close>

fun stages ::
  "int \<Rightarrow> retry_concurrency_rule list \<Rightarrow> retry_context list \<Rightarrow> concurrency_state option \<Rightarrow>
   concurrency_state list" where
  "stages base rules [] state = []"
| "stages base rules (c # cs) state =
     (let d = retryConcurrencyDecisionForRound base rules c state
      in (case cd_transition d of None \<Rightarrow> [] | Some t \<Rightarrow> [t]) @ stages base rules cs (cd_active d))"

text \<open>When rounds do not go back, the rules fire in the order of the list, each at most once.\<close>

lemma stages_increase:
  assumes "sorted (map rt_execution_round cs)"
    "\<And>s c. state = Some s \<Longrightarrow> c \<in> set cs \<Longrightarrow>
       validRetryConcurrencyState rules (rt_execution_round c) (Some s) = Some s"
  shows "sorted_wrt (<) ((case state of None \<Rightarrow> [] | Some s \<Rightarrow> [cs_rule_index s]) @
    map cs_rule_index (stages base rules cs state))"
  using assms
proof (induction cs arbitrary: state)
  case Nil
  then show ?case by (simp split: option.split)
next
  case (Cons c cs)
  let ?d = "retryConcurrencyDecisionForRound base rules c state"
  have stay: "validRetryConcurrencyState rules n (Some s) = Some s"
    if "cd_active ?d = Some s" "rt_execution_round c \<le> n" for s n
    using decision_active(2) [OF that(1)] that(2)
    by (auto simp: validRetryConcurrencyState_def split: if_splits)
  have ih: "sorted_wrt (<) ((case cd_active ?d of None \<Rightarrow> [] | Some s \<Rightarrow> [cs_rule_index s]) @
      map cs_rule_index (stages base rules cs (cd_active ?d)))"
    using Cons.prems(1) stay by (intro Cons.IH) auto
  show ?case
  proof (cases "cd_transition ?d")
    case None
    have "validRetryConcurrencyState rules (rt_execution_round c) state = state"
      using Cons.prems(2) by (cases state) (simp_all add: validRetryConcurrencyState_def)
    then have "cd_active ?d = state" using decision_no_transition [OF None] by simp
    then show ?thesis using ih None by (simp add: Let_def)
  next
    case (Some t)
    note tr = decision_transition [OF Some]
    have "cs_rule_index s < cs_rule_index t" if "state = Some s" for s
      using tr Cons.prems(2) [OF that] that by simp
    then show ?thesis using ih Some tr by (fastforce simp: Let_def split: option.splits)
  qed
qed

end
