(* ===== verification/Round_Concurrency.thy ===== *)
theory Round_Concurrency
  imports Reservation Case_Suite
begin

text \<open>
  The concurrency of the retry rounds in the store: \<open>packages/db/src/retry-concurrency-state.ts\<close>,
  \<open>runner-failure-history.ts\<close>, and \<open>activateRetryConcurrency\<close>, \<open>recordRoundConcurrency\<close> and
  \<open>retryContext\<close> of \<open>sqlite-run-batch.ts\<close>. The staged rules themselves are in theory \<open>Case_Suite\<close>.
\<close>

section \<open>Activation of a rule\<close>

definition retryConcurrencyStateFromRow :: "retry_state_row \<Rightarrow> concurrency_state" where
  "retryConcurrencyStateFromRow row =
     \<lparr>cs_rule_id = rw_rule_id row, cs_rule_index = rw_rule_index row,
      cs_concurrency = rw_concurrency row, cs_activated_round = rw_activated_round row\<rparr>"

record activation_input =
  av_batch_id :: ident
  av_execution_round :: int
  av_expected_rule_id :: "string option"
  av_state :: concurrency_state
  av_updated_at :: time

definition policy_rules :: "batch_policy \<Rightarrow> retry_concurrency_rule list" where
  "policy_rules p = (case bp_retry_concurrency_rules p of None \<Rightarrow> [] | Some rules \<Rightarrow> rules)"

definition rule_at :: "batch_policy option \<Rightarrow> int \<Rightarrow> retry_concurrency_rule option" where
  "rule_at policy k =
     (case policy of
        None \<Rightarrow> None
      | Some p \<Rightarrow> if 0 \<le> k \<and> nat k < length (policy_rules p) then Some (policy_rules p ! nat k) else None)"

definition assertRetryConcurrencyTransition ::
  "batch_policy option \<Rightarrow> int \<Rightarrow> concurrency_state \<Rightarrow> domain_error + unit" where
  "assertRetryConcurrencyTransition policy executionRound state =
     (case rule_at policy (cs_rule_index state) of
        None \<Rightarrow> Inl (DomainError ''RETRY_CONCURRENCY_TRANSITION_INVALID'')
      | Some rule \<Rightarrow>
          if rule_id rule \<noteq> cs_rule_id state \<or> rule_concurrency rule \<noteq> cs_concurrency state \<or>
             cs_activated_round state \<noteq> executionRound \<or> executionRound \<noteq> rule_execution_round rule
            then Inl (DomainError ''RETRY_CONCURRENCY_TRANSITION_INVALID'')
          else Inr ())"

datatype activation_outcome = Activate | Stale | Unchanged concurrency_state

definition retryConcurrencyActivationDecision ::
  "concurrency_state option \<Rightarrow> int \<Rightarrow> activation_input \<Rightarrow> activation_outcome" where
  "retryConcurrencyActivationDecision storedState batchExecutionRound i =
     (if batchExecutionRound \<noteq> av_execution_round i then Stale
      else if map_option cs_rule_id storedState \<noteq> av_expected_rule_id i then
        (case storedState of Some s \<Rightarrow> Unchanged s | None \<Rightarrow> Stale)
      else
        (case storedState of
           Some s \<Rightarrow>
             if av_execution_round i \<le> cs_activated_round s \<or> cs_rule_index (av_state i) \<le> cs_rule_index s
               then Unchanged s else Activate
         | None \<Rightarrow> Activate))"

definition retry_state :: "store \<Rightarrow> ident \<Rightarrow> concurrency_state option" where
  "retry_state s batchId =
     map_option retryConcurrencyStateFromRow (row_by rw_batch_id batchId (st_retry_states s))"

definition state_row :: "activation_input \<Rightarrow> retry_state_row" where
  "state_row i =
     \<lparr>rw_batch_id = av_batch_id i, rw_rule_id = cs_rule_id (av_state i),
      rw_rule_index = cs_rule_index (av_state i), rw_concurrency = cs_concurrency (av_state i),
      rw_activated_round = cs_activated_round (av_state i), rw_updated_at = av_updated_at i\<rparr>"

text \<open>\<open>INSERT ... ON CONFLICT DO UPDATE\<close> on the primary key.\<close>

definition upsert_state :: "activation_input \<Rightarrow> store \<Rightarrow> store" where
  "upsert_state i s =
     s\<lparr>st_retry_states :=
        (if row_by rw_batch_id (av_batch_id i) (st_retry_states s) = None
           then st_retry_states s @ [state_row i]
         else update_where (\<lambda>row. rw_batch_id row = av_batch_id i) (\<lambda>_. state_row i) (st_retry_states s))\<rparr>"

definition activate_body ::
  "activation_input \<Rightarrow> store \<Rightarrow> domain_error + (concurrency_state option \<times> store)" where
  "activate_body i s =
     and_then (found ''RUN_BATCH_NOT_FOUND'' (find_batch s (av_batch_id i))) (\<lambda>b.
       case retryConcurrencyActivationDecision (retry_state s (av_batch_id i)) (bt_current_round b) i of
         Stale \<Rightarrow> Inr (None, s)
       | Unchanged state \<Rightarrow> Inr (Some state, s)
       | Activate \<Rightarrow>
           and_then (assertRetryConcurrencyTransition (bt_policy b) (av_execution_round i) (av_state i))
             (\<lambda>_. Inr (Some (av_state i), upsert_state i s)))"

definition activateRetryConcurrency ::
  "activation_input \<Rightarrow> store \<Rightarrow> (domain_error + concurrency_state option) \<times> store" where
  "activateRetryConcurrency i s = transaction (activate_body i) s"

section \<open>The concurrency a round starts with\<close>

record record_concurrency_input =
  rl_batch_id :: ident
  rl_round :: int
  rl_concurrency :: int
  rl_source :: concurrency_source
  rl_rule_id :: "string option"
  rl_previous :: "int option"
  rl_transition_event :: "(ident \<times> string \<times> (string \<times> string) list) option"
  rl_recorded_at :: time

definition sameRoundConcurrencyTransition ::
  "round_concurrency_row \<Rightarrow> record_concurrency_input \<Rightarrow> bool" where
  "sameRoundConcurrencyTransition current i \<longleftrightarrow>
     ry_source current = Rule_Transition \<and> ry_rule_id current = rl_rule_id i \<and>
     ry_concurrency current = rl_concurrency i"

abbreviation round_key :: "round_concurrency_row \<Rightarrow> ident \<times> int" where
  "round_key row \<equiv> (ry_batch_id row, ry_round row)"

definition transition_event ::
  "record_concurrency_input \<Rightarrow> ident \<times> string \<times> (string \<times> string) list \<Rightarrow> scheduling_event" where
  "transition_event i = (\<lambda>(eventId, message, payload).
     \<lparr>se_id = eventId, se_batch_id = rl_batch_id i, se_runner_id = None, se_run_id = None,
      se_attempt_id = None, se_type = ''retry_concurrency_changed'', se_message = message,
      se_payload = Some payload, se_recorded_at = rl_recorded_at i\<rparr>)"

definition new_round_row :: "record_concurrency_input \<Rightarrow> round_concurrency_row" where
  "new_round_row i =
     \<lparr>ry_batch_id = rl_batch_id i, ry_round = rl_round i, ry_concurrency = rl_concurrency i,
      ry_source = rl_source i, ry_rule_id = rl_rule_id i, ry_previous = rl_previous i,
      ry_recorded_at = rl_recorded_at i\<rparr>"

text \<open>\<open>set\<close> leaves a column alone whose value is \<open>undefined\<close>.\<close>

definition put_transition :: "record_concurrency_input \<Rightarrow> round_concurrency_row \<Rightarrow> round_concurrency_row" where
  "put_transition i row =
     row\<lparr>ry_concurrency := rl_concurrency i, ry_source := Rule_Transition,
         ry_rule_id := (if rl_rule_id i = None then ry_rule_id row else rl_rule_id i),
         ry_previous := (if rl_previous i = None then ry_previous row else rl_previous i),
         ry_recorded_at := rl_recorded_at i\<rparr>"

definition insert_event_once :: "scheduling_event \<Rightarrow> store \<Rightarrow> store" where
  "insert_event_once e s =
     (if row_by se_id (se_id e) (st_sched_events s) = None
        then s\<lparr>st_sched_events := st_sched_events s @ [e]\<rparr> else s)"

definition record_body :: "record_concurrency_input \<Rightarrow> store \<Rightarrow> domain_error + (bool \<times> store)" where
  "record_body i s =
     (case row_by round_key (rl_batch_id i, rl_round i) (st_round_concurrencies s) of
        Some existing \<Rightarrow>
          (case rl_transition_event i of
             Some e \<Rightarrow>
               if sameRoundConcurrencyTransition existing i then Inr (False, s)
               else Inr (False, insert_event_once (transition_event i e)
                 (s\<lparr>st_round_concurrencies :=
                    update_where (\<lambda>row. round_key row = (rl_batch_id i, rl_round i)) (put_transition i)
                      (st_round_concurrencies s)\<rparr>))
           | None \<Rightarrow> Inr (False, s))
      | None \<Rightarrow>
          and_then (insert_row round_key (new_round_row i) (st_round_concurrencies s)) (\<lambda>rows.
            let s1 = s\<lparr>st_round_concurrencies := rows\<rparr>
            in case rl_transition_event i of
                 None \<Rightarrow> Inr (True, s1)
               | Some e \<Rightarrow>
                   and_then (appendSchedulingEventDrafts [transition_event i e] s1) (\<lambda>s2. Inr (True, s2))))"

text \<open>
  \<open>True\<close> is \<open>created\<close>. The probe before the transaction reads the same rows and answers \<open>existing\<close>
  where the transaction would change nothing.
\<close>

definition recordRoundConcurrency ::
  "record_concurrency_input \<Rightarrow> store \<Rightarrow> (domain_error + bool) \<times> store" where
  "recordRoundConcurrency i s =
     (case row_by round_key (rl_batch_id i, rl_round i) (st_round_concurrencies s) of
        Some current \<Rightarrow>
          if rl_transition_event i = None \<or> sameRoundConcurrencyTransition current i then (Inr False, s)
          else transaction (record_body i) s
      | None \<Rightarrow> transaction (record_body i) s)"

section \<open>What a decision is made from\<close>

text \<open>The attempts of a round that are the last of their run in it.\<close>

definition last_of_round :: "store \<Rightarrow> ident \<Rightarrow> int \<Rightarrow> attempt_row \<Rightarrow> bool" where
  "last_of_round s batchId roundNumber a \<longleftrightarrow>
     (case find_run s (at_run_id a) of None \<Rightarrow> False | Some r \<Rightarrow> rr_batch_id r = batchId) \<and>
     at_round a = roundNumber \<and>
     (\<forall>x\<in>set (st_attempts s). at_run_id x = at_run_id a \<longrightarrow> at_round x = at_round a \<longrightarrow>
        at_number x \<le> at_number a)"

definition retryContext :: "store \<Rightarrow> batch_row \<Rightarrow> retry_context" where
  "retryContext s b =
     (let remaining = int (count_where (\<lambda>r. rr_batch_id r = bt_id b \<and>
            (busy_run (rr_status r) \<or> rr_status r = R_Queued \<and> rr_held_round r = 0)) (st_runs s));
          previous = last_of_round s (bt_id b) (bt_current_round b - 1);
          passed = int (count_where (\<lambda>a. previous a \<and> at_status a = T_Succeeded) (st_attempts s));
          completed = int (count_where (\<lambda>a. previous a \<and>
            at_status a \<in> {T_Succeeded, T_Failed, T_Timed_Out, T_Cancelled}) (st_attempts s))
      in \<lparr>rt_execution_round = bt_current_round b,
          rt_previous_pass_rate =
            (if bt_current_round b \<le> 1 \<or> completed = 0 then None else Some (percent_of passed completed)),
          rt_remaining_runs = remaining\<rparr>)"

definition runnerFailureIdsByExecutionRun :: "attempt_row list \<Rightarrow> (ident \<times> ident list) list" where
  "runnerFailureIdsByExecutionRun attempts =
     (let failed = filter (\<lambda>a. isRetryableRunnerFailure (at_result_code a)) attempts
      in map (\<lambda>k. (k, dedup (map at_runner_id (filter (\<lambda>a. at_run_id a = k) failed))))
           (dedup (map at_run_id failed)))"

definition runnerHistoryIdsByExecutionRun :: "attempt_row list \<Rightarrow> (ident \<times> ident list) list" where
  "runnerHistoryIdsByExecutionRun attempts =
     (let ordered = sort_key (\<lambda>a. (at_number a, at_created_at a, at_id a)) attempts
      in map (\<lambda>k. (k, map at_runner_id (filter (\<lambda>a. at_run_id a = k) ordered)))
           (dedup (map at_run_id ordered)))"

section \<open>Properties\<close>

lemma upsert_state_tables [simp]:
  "st_batches (upsert_state i s) = st_batches s" "st_runs (upsert_state i s) = st_runs s"
  "st_attempts (upsert_state i s) = st_attempts s"
  "st_assignments (upsert_state i s) = st_assignments s" "st_leases (upsert_state i s) = st_leases s"
  by (simp_all add: upsert_state_def)

lemma state_row_key [simp]: "rw_batch_id (state_row i) = av_batch_id i"
  "retryConcurrencyStateFromRow (state_row i) = av_state i"
  by (simp_all add: state_row_def retryConcurrencyStateFromRow_def)

lemma upsert_row:
  "row_by rw_batch_id k (st_retry_states (upsert_state i s)) =
     (if k = av_batch_id i then Some (state_row i) else row_by rw_batch_id k (st_retry_states s))"
proof (cases "row_by rw_batch_id (av_batch_id i) (st_retry_states s)")
  case None
  then show ?thesis by (simp add: upsert_state_def row_by_append split: option.split)
next
  case (Some row)
  then have "rw_batch_id row = av_batch_id i" by (rule row_by_SomeD [THEN conjunct2])
  have "row_by rw_batch_id k (update_where (\<lambda>row. rw_batch_id row = av_batch_id i) (\<lambda>_. state_row i)
      (st_retry_states s)) = map_option (\<lambda>r. if rw_batch_id r = av_batch_id i then state_row i else r)
        (row_by rw_batch_id k (st_retry_states s))"
    by (rule row_by_update) simp
  then show ?thesis
    using Some by (cases "row_by rw_batch_id k (st_retry_states s)")
      (auto simp: upsert_state_def dest: row_by_SomeD)
qed

lemma upsert_retry_state:
  "retry_state (upsert_state i s) k = (if k = av_batch_id i then Some (av_state i) else retry_state s k)"
  by (simp add: retry_state_def upsert_row)

lemma activation_Activate:
  "retryConcurrencyActivationDecision st r i = Activate \<longleftrightarrow>
     r = av_execution_round i \<and> map_option cs_rule_id st = av_expected_rule_id i \<and>
     (\<forall>s. st = Some s \<longrightarrow>
        cs_activated_round s < av_execution_round i \<and> cs_rule_index s < cs_rule_index (av_state i))"
  by (cases st) (auto simp: retryConcurrencyActivationDecision_def)

lemma assert_transition_Inr:
  "assertRetryConcurrencyTransition policy n st = Inr () \<longleftrightarrow>
     (\<exists>rule. rule_at policy (cs_rule_index st) = Some rule \<and> rule_id rule = cs_rule_id st \<and>
        rule_concurrency rule = cs_concurrency st \<and> cs_activated_round st = n \<and>
        rule_execution_round rule = n)"
  by (auto simp: assertRetryConcurrencyTransition_def split: option.split)

text \<open>A batch moves through its rules in order: an activation changes only its own batch, and only
  forward to a rule of the policy for the round the batch is in.\<close>

lemma activation_progress:
  assumes "activateRetryConcurrency i s = (Inr r, t)"
  obtains (Same) "t = s"
  | (Moved) b rule where "find_batch s (av_batch_id i) = Some b" "t = upsert_state i s"
      "r = Some (av_state i)" "rule_at (bt_policy b) (cs_rule_index (av_state i)) = Some rule"
      "rule_execution_round rule = bt_current_round b"
      "rule_concurrency rule = cs_concurrency (av_state i)"
      "\<And>old. retry_state s (av_batch_id i) = Some old \<Longrightarrow>
         cs_rule_index old < cs_rule_index (av_state i) \<and>
         cs_activated_round old < cs_activated_round (av_state i)"
proof -
  have body: "activate_body i s = Inr (r, t)"
    using assms by (simp add: activateRetryConcurrency_def transaction_Inr)
  then obtain b where b: "find_batch s (av_batch_id i) = Some b"
    by (auto simp: activate_body_def and_then_eq_Inr found_eq_Inr)
  show thesis
  proof (cases "retryConcurrencyActivationDecision (retry_state s (av_batch_id i)) (bt_current_round b) i")
    case Activate
    have ok: "assertRetryConcurrencyTransition (bt_policy b) (av_execution_round i) (av_state i) = Inr ()"
      "r = Some (av_state i)" "t = upsert_state i s"
      using body b Activate by (auto simp: activate_body_def and_then_eq_Inr)
    obtain rule where "rule_at (bt_policy b) (cs_rule_index (av_state i)) = Some rule"
        "rule_concurrency rule = cs_concurrency (av_state i)"
        "cs_activated_round (av_state i) = av_execution_round i"
        "rule_execution_round rule = av_execution_round i"
      using ok(1) unfolding assert_transition_Inr by blast
    then show thesis
      using Moved [OF b ok(3,2)] Activate unfolding activation_Activate by simp
  qed (use body b Same in \<open>simp_all add: activate_body_def\<close>)
qed

text \<open>A decision on a current snapshot is activated, and the reservation then goes by it.\<close>

lemma valid_rule_at:
  assumes "find_rule rules first c = Some (k, r)" "bt_policy b = Some p" "policy_rules p = rules"
  shows "rule_at (bt_policy b) (int k) = Some r"
  using find_rule_Some [OF assms(1)] assms(2,3) by (auto simp: rule_at_def)

lemma decision_activates:
  assumes b: "find_batch s (av_batch_id i) = Some b" "bt_policy b = Some p"
    and c: "rt_execution_round c = bt_current_round b"
    and valid: "validRetryConcurrencyState (policy_rules p) (bt_current_round b)
      (retry_state s (av_batch_id i)) = retry_state s (av_batch_id i)"
    and d: "cd_transition (retryConcurrencyDecisionForRound (bp_concurrency p) (policy_rules p) c
      (retry_state s (av_batch_id i))) = Some (av_state i)"
    and i: "av_execution_round i = rt_execution_round c"
      "av_expected_rule_id i = map_option cs_rule_id (retry_state s (av_batch_id i))"
  shows "activateRetryConcurrency i s = (Inr (Some (av_state i)), upsert_state i s)"
proof -
  let ?st = "retry_state s (av_batch_id i)"
  have "retryConcurrencyActivationDecision ?st (bt_current_round b) i = Activate \<and>
      assertRetryConcurrencyTransition (bt_policy b) (av_execution_round i) (av_state i) = Inr ()"
  proof (cases rule: decision_cases [of "policy_rules p" c ?st "bp_concurrency p"])
    case (Move k r)
    have st: "av_state i = stage_transition k r c" using Move(3) d by simp
    have fwd: "cs_activated_round old < rt_execution_round c \<and> cs_rule_index old < int k"
      if old: "?st = Some old" for old
    proof -
      have v: "validRetryConcurrencyState (policy_rules p) (rt_execution_round c) ?st = Some old"
        using valid c old by simp
      then show ?thesis
        using Move(2) [OF v] valid_state_Some [OF v] find_rule_Some [OF Move(1)] by (auto simp: v)
    qed
    have "rule_execution_round r = rt_execution_round c"
      using find_rule_Some [OF Move(1)] by (simp add: retryConcurrencyRuleMatches_def)
    then have "assertRetryConcurrencyTransition (bt_policy b) (av_execution_round i) (av_state i) = Inr ()"
      unfolding assert_transition_Inr st
      using valid_rule_at [OF Move(1) b(2) refl] i(1) by (simp add: stage_transition_def)
    then show ?thesis
      using fwd c i unfolding activation_Activate st by (simp add: stage_transition_def)
  qed (use d in simp_all)
  then show ?thesis
    using b(1) by (simp add: activateRetryConcurrency_def transaction_Inr activate_body_def)
qed

lemma activated_concurrency:
  "bt_id b = av_batch_id i \<Longrightarrow>
     batch_concurrency (upsert_state i s) b = Some (cs_concurrency (av_state i))"
  by (simp add: batch_concurrency_def upsert_row state_row_def)

text \<open>Each round has one row; only a transition of the same round replaces what was recorded.\<close>

lemma insert_event_once_tables [simp]:
  "st_round_concurrencies (insert_event_once e s) = st_round_concurrencies s"
  "st_batches (insert_event_once e s) = st_batches s" "st_runs (insert_event_once e s) = st_runs s"
  "st_attempts (insert_event_once e s) = st_attempts s"
  "st_assignments (insert_event_once e s) = st_assignments s"
  "st_leases (insert_event_once e s) = st_leases s"
  by (simp_all add: insert_event_once_def)

lemma drafts_tables:
  assumes "appendSchedulingEventDrafts es s = Inr t"
  shows "st_round_concurrencies t = st_round_concurrencies s \<and> st_batches t = st_batches s \<and>
    st_runs t = st_runs s \<and> st_attempts t = st_attempts s \<and> st_assignments t = st_assignments s \<and>
    st_leases t = st_leases s"
  using assms by (induction es arbitrary: s) (auto simp: and_then_eq_Inr)

lemma put_transition_key [simp]: "round_key (put_transition i row) = round_key row"
  by (simp add: put_transition_def)

lemma record_cases:
  assumes "recordRoundConcurrency i s = (Inr r, t)"
  obtains (Kept) row where "t = s"
      "row_by round_key (rl_batch_id i, rl_round i) (st_round_concurrencies s) = Some row"
  | (Replaced) row e where
      "row_by round_key (rl_batch_id i, rl_round i) (st_round_concurrencies s) = Some row"
      "rl_transition_event i = Some e"
      "t = insert_event_once (transition_event i e) (s\<lparr>st_round_concurrencies :=
         update_where (\<lambda>x. round_key x = (rl_batch_id i, rl_round i)) (put_transition i)
           (st_round_concurrencies s)\<rparr>)"
  | (Created) rows where "insert_row round_key (new_round_row i) (st_round_concurrencies s) = Inr rows"
      "t = s\<lparr>st_round_concurrencies := rows\<rparr> \<or>
       (\<exists>es. appendSchedulingEventDrafts es (s\<lparr>st_round_concurrencies := rows\<rparr>) = Inr t)"
proof (cases "row_by round_key (rl_batch_id i, rl_round i) (st_round_concurrencies s)")
  case None
  then have "record_body i s = Inr (r, t)"
    using assms by (simp add: recordRoundConcurrency_def transaction_Inr)
  then obtain rows where rows: "insert_row round_key (new_round_row i) (st_round_concurrencies s) = Inr rows"
      and rest: "(case rl_transition_event i of None \<Rightarrow> Inr (True, s\<lparr>st_round_concurrencies := rows\<rparr>)
        | Some e \<Rightarrow> and_then (appendSchedulingEventDrafts [transition_event i e]
            (s\<lparr>st_round_concurrencies := rows\<rparr>)) (\<lambda>s2. Inr (True, s2))) = Inr (r, t)"
    using None unfolding record_body_def Let_def by (auto simp: and_then_eq_Inr)
  show thesis
  proof (cases "rl_transition_event i")
    case None
    then show thesis using Created [OF rows] rest by simp
  next
    case (Some e)
    then have "appendSchedulingEventDrafts [transition_event i e]
        (s\<lparr>st_round_concurrencies := rows\<rparr>) = Inr t"
      using rest by (simp only: option.case and_then_eq_Inr) blast
    then show thesis using Created [OF rows] by blast
  qed
next
  case (Some row)
  show thesis
  proof (cases "rl_transition_event i = None \<or> sameRoundConcurrencyTransition row i")
    case True
    then show thesis using assms Some Kept by (simp add: recordRoundConcurrency_def)
  next
    case False
    then obtain e where e: "rl_transition_event i = Some e" by auto
    have "record_body i s = Inr (r, t)"
      using assms Some False by (simp add: recordRoundConcurrency_def transaction_Inr)
    then show thesis using Replaced [OF Some e] e Some False by (simp add: record_body_def)
  qed
qed

lemma record_unique:
  assumes "recordRoundConcurrency i s = (Inr r, t)" "distinct (map round_key (st_round_concurrencies s))"
  shows "distinct (map round_key (st_round_concurrencies t))"
  using assms(1)
proof (cases rule: record_cases)
  case (Replaced row e)
  then show ?thesis using assms(2) by (simp add: map_key_update_where)
next
  case (Created rows)
  have "st_round_concurrencies t = rows" using Created(2) drafts_tables by fastforce
  then show ?thesis using assms(2) Created(1) by (auto simp: insert_row_Inr)
qed (use assms(2) in simp)

text \<open>The pass rate of the previous round is a percentage.\<close>

lemma count_where_mono: "(\<And>x. P x \<Longrightarrow> Q x) \<Longrightarrow> count_where P xs \<le> count_where Q xs"
  by (induction xs) (auto simp: count_where_def)

lemma retryContext_pass_rate:
  assumes "rt_previous_pass_rate (retryContext s b) = Some q"
  shows "0 \<le> q \<and> q \<le> 100"
proof -
  let ?last = "last_of_round s (bt_id b) (bt_current_round b - 1)"
  define passed where "passed = int (count_where (\<lambda>a. ?last a \<and> at_status a = T_Succeeded) (st_attempts s))"
  define completed where "completed = int (count_where (\<lambda>a. ?last a \<and>
      at_status a \<in> {T_Succeeded, T_Failed, T_Timed_Out, T_Cancelled}) (st_attempts s))"
  have nonneg: "0 \<le> passed" "0 \<le> completed" by (simp_all add: passed_def completed_def)
  have "passed \<le> completed"
    unfolding passed_def completed_def by (intro of_nat_mono count_where_mono) simp
  moreover have "completed \<noteq> 0 \<and> q = percent_of passed completed"
    using assms unfolding retryContext_def Let_def passed_def completed_def by (simp split: if_splits)
  ultimately show ?thesis
    using percent_of_bounds [of passed completed] nonneg by simp
qed

end
