(* ===== verification/Exec_System.thy ===== *)
theory Exec_System
  imports Exec_Place Round_Recovery Round_Concurrency
begin

text \<open>
  The execution store as a transition system: a step is one call of an operation of the repository,
  successful or not. Its states satisfy \<open>store_ok\<close>, and it simulates the dispatch protocol of theory
  \<open>Protocol\<close>.
\<close>

definition empty_store :: "store \<Rightarrow> bool" where
  "empty_store s \<longleftrightarrow> st_batches s = [] \<and> st_runs s = [] \<and> st_attempts s = []
     \<and> st_assignments s = [] \<and> st_leases s = []"

inductive exec_step :: "store \<Rightarrow> store \<Rightarrow> bool" where
  create: "create_batch ct c s = (res_c, t) \<Longrightarrow> exec_step s t"
| reserve: "reserveAssignments tb ri s = (res_r, t) \<Longrightarrow> exec_step s t"
| claim: "claim ci s = (res_cl, t) \<Longrightarrow> exec_step s t"
| renew: "renewLease ni s = (res_n, t) \<Longrightarrow> exec_step s t"
| complete: "completeAttempt oi factory s = (res_o, t) \<Longrightarrow> exec_step s t"
| recover: "recoverExpired vi s = (res_v, t) \<Longrightarrow> exec_step s t"
| cancel: "cancelRun ki s = (res_k, t) \<Longrightarrow> exec_step s t"
| terminate: "terminateBatch ti s = (res_t, t) \<Longrightarrow> exec_step s t"
| scheduling: "changeBatchScheduling gi s = (res_g, t) \<Longrightarrow> exec_step s t"
| declare_artifacts: "declareArtifacts runner attempt token xs now s = (res_d, t) \<Longrightarrow> exec_step s t"
| artifact_uploaded: "markArtifactUploaded attempt artifact obj now s = (res_u, t) \<Longrightarrow> exec_step s t"
| append_logs: "appendLogChunks gz sha dir runner attempt token chunks now recorded s
    = Inr (ack, recorded', t) \<Longrightarrow> exec_step s t"
| scheduling_events: "appendSchedulingEvents es s = (res_e, t) \<Longrightarrow> exec_step s t"
| activate_concurrency: "activateRetryConcurrency ai s = (res_ac, t) \<Longrightarrow> exec_step s t"
| record_concurrency: "recordRoundConcurrency ri_c s = (res_rc, t) \<Longrightarrow> exec_step s t"
| claim_due: "claimDue qi s = (res_q, t) \<Longrightarrow> exec_step s t"
| mark_polling: "markPolling pli s = (res_p, t) \<Longrightarrow> exec_step s t"
| mark_waiting: "markWaiting wi s = (res_w, t) \<Longrightarrow> exec_step s t"
| defer_polling: "deferPollingFailure di s = (res_di, t) \<Longrightarrow> exec_step s t"
| waiting_step: "completeWaitingStep si s = (res_s, t) \<Longrightarrow> exec_step s t"
| round_released: "completeRoundRelease si s = (res_f, t) \<Longrightarrow> exec_step s t"
| retry_release: "retryRoundRelease di s = (res_y, t) \<Longrightarrow> exec_step s t"
| recovery_failed: "failRecovery fi s = (res_x, t) \<Longrightarrow> exec_step s t"

text \<open>A transaction either commits what its body computes or changes nothing.\<close>

lemma transaction_advances:
  assumes "transaction body s = (res, t)" "store_ok s"
    "\<And>v u. body s = Inr (v, u) \<Longrightarrow> advances s u"
  shows "advances s t"
proof (cases res)
  case (Inl e)
  then show ?thesis using assms(1) advances_refl [OF assms(2)] by (simp add: transaction_Inl)
next
  case (Inr v)
  then show ?thesis using assms(1,3) by (simp add: transaction_Inr)
qed

lemma completeAttempt_state: "snd (completeAttempt i f s) = snd (transaction (complete_body i f) s)"
  by (auto simp: completeAttempt_def split: prod.split sum.split complete_outcome.split)

lemma start_upload_refines:
  assumes "store_ok s"
  shows "refines s (start_upload k now s)"
proof (rule refines_same [OF store_okD(1) [OF assms]])
  show "same_shape s (start_upload k now s)" by (simp add: start_upload_def same_shape_update)
  have "map_option (\<lambda>t. (at_run_id t, active_attempt (at_status t)))
          (row_by at_id j (st_attempts (start_upload k now s))) =
        map_option (\<lambda>t. (at_run_id t, active_attempt (at_status t))) (row_by at_id j (st_attempts s))"
    for j
    by (cases "row_by at_id j (st_attempts s)") (auto simp: start_upload_def row_by_update)
  then show "abs_store (start_upload k now s) = abs_store s"
    by (simp add: abs_store_def) (simp add: start_upload_def)
qed

lemma declare_loop_Inr:
  "declare_loop k now xs s = Inr (r, t) \<Longrightarrow> \<exists>rows. t = s\<lparr>st_artifacts := rows\<rparr>"
proof (induction xs arbitrary: s r)
  case Nil
  then have "t = s\<lparr>st_artifacts := st_artifacts s\<rparr>" by simp
  then show ?case by blast
next
  case (Cons x xs)
  show ?case
  proof (cases "artifactRow s k (ax_artifact_id x)")
    case None
    then obtain u r' where u: "insert_artifact (declared_artifact k now x) s = Inr u"
        "declare_loop k now xs u = Inr (r', t)"
      using Cons.prems by (auto simp: and_then_eq_Inr)
    obtain rows where "u = s\<lparr>st_artifacts := rows\<rparr>"
      using u(1) by (auto simp: insert_artifact_def and_then_eq_Inr split: if_splits)
    with Cons.IH [OF u(2)] show ?thesis by auto
  next
    case (Some f)
    then obtain r' where "declare_loop k now xs s = Inr (r', t)"
      using Cons.prems by (auto simp: and_then_eq_Inr split: if_splits)
    then show ?thesis by (rule Cons.IH)
  qed
qed

lemma artifacts_refines: "linked s \<Longrightarrow> refines s (s\<lparr>st_artifacts := rows\<rparr>)"
  by (rule other_tables_refines) simp_all

lemma recordAttemptLogsPath_refines:
  assumes "recordAttemptLogsPath dir k recorded s = Inr (recorded', t)" "linked s"
  shows "refines s t"
proof -
  consider "t = s"
    | path where "t = s\<lparr>st_batches := update_where
                (\<lambda>b. bt_id b = k \<and> bt_attempt_logs_path b \<noteq> Some path)
                (\<lambda>b. b\<lparr>bt_attempt_logs_path := Some path\<rparr>) (st_batches s)\<rparr>"
    using assms(1) by (auto simp: recordAttemptLogsPath_def and_then_eq_Inr split: if_splits)
  then show ?thesis
    by cases (auto intro!: refines_same [OF assms(2)] simp: same_shape_update abs_store_def)
qed

lemma appendLogChunks_advances:
  assumes "appendLogChunks gz sha dir runner k token chunks now recorded s = Inr (ack, recorded', t)"
    "store_ok s"
  shows "advances s t"
proof -
  obtain batchId lg where "recordAttemptLogsPath dir batchId recorded (s\<lparr>st_logs := lg\<rparr>)
      = Inr (recorded', t)"
    using assms(1) by (auto simp: appendLogChunks_def and_then_eq_Inr)
  moreover have "refines s (s\<lparr>st_logs := lg\<rparr>)"
    by (rule other_tables_refines) (simp_all add: store_okD(1) [OF assms(2)])
  ultimately have "refines s t"
    using recordAttemptLogsPath_refines refines_linked refines_trans by blast
  then show ?thesis using refines_advances [OF assms(2)] by blast
qed

lemma update_step_advances: "update_step here f s = (v, t) \<Longrightarrow> store_ok s \<Longrightarrow> advances s t"
  using refines_advances update_step_refines [of s here f] by (simp add: store_okD(1))

lemma record_concurrency_advances:
  assumes "recordRoundConcurrency i s = (res, t)" "store_ok s"
  shows "advances s t"
proof (cases res)
  case (Inl e)
  have "t = s"
    using assms(1) unfolding Inl recordRoundConcurrency_def
    by (auto simp: transaction_Inl split: option.splits if_splits)
  then show ?thesis using advances_refl [OF assms(2)] by simp
next
  case (Inr v)
  have "refines s t"
    using assms(1) unfolding Inr
  proof (cases rule: record_cases)
    case (Kept row)
    then show ?thesis using refines_refl [OF assms(2)] by simp
  next
    case (Replaced row e)
    then show ?thesis by (simp add: other_tables_refines [OF store_okD(1) [OF assms(2)]])
  next
    case (Created rows)
    then show ?thesis
      using drafts_tables by (intro other_tables_refines [OF store_okD(1) [OF assms(2)]]) fastforce+
  qed
  then show ?thesis by (rule refines_advances [OF assms(2)])
qed

lemma exec_step_advances:
  assumes "exec_step s t" "store_ok s"
  shows "advances s t"
  using assms(1)
proof (cases rule: exec_step.cases)
  case (create ct c res)
  then show ?thesis
    unfolding create_batch_def by (rule transaction_advances [OF _ assms(2) create_body_advances])
      (simp_all add: assms(2))
next
  case (reserve tb ri res)
  then show ?thesis
    unfolding reserveAssignments_def
    by (rule transaction_advances [OF _ assms(2) reserve_body_advances]) (simp_all add: assms(2))
next
  case (claim ci res)
  then show ?thesis
    unfolding claim_def
    by (rule transaction_advances [OF _ assms(2) refines_advances [OF assms(2) claim_body_refines]])
      (simp_all add: assms(2))
next
  case (renew ni res)
  then show ?thesis
    unfolding renewLease_def
    by (rule transaction_advances [OF _ assms(2) refines_advances [OF assms(2) renew_body_refines]])
      (simp_all add: assms(2))
next
  case (complete oi factory res)
  then have "transaction (complete_body oi factory) s = (fst (transaction (complete_body oi factory) s), t)"
    using completeAttempt_state [of oi factory s] by (metis prod.collapse snd_conv)
  then show ?thesis
    by (rule transaction_advances [OF _ assms(2) refines_advances [OF assms(2) complete_body_refines]])
      (simp_all add: assms(2))
next
  case (recover vi res)
  then show ?thesis
    unfolding recoverExpired_def
    by (rule transaction_advances [OF _ assms(2) refines_advances [OF assms(2) recover_body_refines]])
      (simp_all add: assms(2))
next
  case (cancel ki res)
  then show ?thesis
    unfolding cancelRun_def
    by (rule transaction_advances [OF _ assms(2) refines_advances [OF assms(2) cancelRun_refines]])
      (simp_all add: assms(2))
next
  case (terminate ti res)
  then show ?thesis
    unfolding terminateBatch_def
    by (rule transaction_advances [OF _ assms(2) refines_advances [OF assms(2) terminate_body_refines]])
      (simp_all add: assms(2))
next
  case (scheduling gi res)
  then show ?thesis
    unfolding changeBatchScheduling_def
    by (rule transaction_advances [OF _ assms(2) refines_advances [OF assms(2) change_scheduling_refines]])
      (simp_all add: assms(2))
next
  case (declare_artifacts runner attempt token xs now res)
  then show ?thesis
    unfolding declareArtifacts_def
  proof (rule transaction_advances [OF _ assms(2)])
    fix v u assume "and_then (authorizedTransferContext s runner attempt token now)
        (\<lambda>_. declare_loop attempt now xs (start_upload attempt now s)) = Inr (v, u)"
    then have d: "declare_loop attempt now xs (start_upload attempt now s) = Inr (v, u)"
      by (auto simp: and_then_eq_Inr)
    note r = start_upload_refines [OF assms(2), of attempt now]
    have "refines (start_upload attempt now s) u"
      using declare_loop_Inr [OF d] artifacts_refines [OF refines_linked [OF r]] by blast
    then show "advances s u" using refines_advances [OF assms(2)] refines_trans [OF r] by blast
  qed
next
  case (artifact_uploaded attempt artifact obj now res)
  then show ?thesis
    unfolding markArtifactUploaded_def
  proof (rule transaction_advances [OF _ assms(2)])
    fix v u assume "(let here = (\<lambda>f. af_id f = artifact \<and> af_attempt_id f = attempt
                       \<and> af_status f \<in> {Declared, Uploaded})
       in if count_where here (st_artifacts s) \<noteq> 1
            then Inl (DomainError ''ARTIFACT_NOT_FOUND'')
          else Inr ((), s\<lparr>st_artifacts := update_where here
                 (\<lambda>f. f\<lparr>af_object_key := Some obj, af_status := Uploaded,
                       af_updated_at := now\<rparr>) (st_artifacts s)\<rparr>)) = Inr (v, u)"
    then show "advances s u"
      using artifacts_refines [OF store_okD(1) [OF assms(2)]] refines_advances [OF assms(2)]
      unfolding Let_def by (auto split: if_splits)
  qed
next
  case (append_logs gz sha dir runner attempt token chunks now recorded ack recorded')
  then show ?thesis using appendLogChunks_advances assms(2) by blast
next
  case (scheduling_events es res)
  then show ?thesis
    unfolding appendSchedulingEvents_def
  proof (rule transaction_advances [OF _ assms(2)])
    fix v u assume "and_then (appendSchedulingEventDrafts es s) (\<lambda>t. Inr ((), t)) = Inr (v, u)"
    then obtain rows where "u = s\<lparr>st_sched_events := rows\<rparr>"
      using sched_events_Inr [of es s] by (auto simp: and_then_eq_Inr)
    then have "refines s u"
      by (simp add: other_tables_refines [OF store_okD(1) [OF assms(2)]])
    then show "advances s u" by (rule refines_advances [OF assms(2)])
  qed
next
  case (activate_concurrency ai res)
  show ?thesis
  proof (cases res)
    case (Inl e)
    then show ?thesis
      using activate_concurrency advances_refl [OF assms(2)]
      by (simp add: activateRetryConcurrency_def transaction_Inl)
  next
    case (Inr v)
    have "refines s t"
      using activate_concurrency [unfolded Inr]
      by (cases rule: activation_progress)
        (simp_all add: refines_refl [OF assms(2)] other_tables_refines [OF store_okD(1) [OF assms(2)]])
    then show ?thesis by (rule refines_advances [OF assms(2)])
  qed
next
  case (record_concurrency ri_c res)
  then show ?thesis using record_concurrency_advances assms(2) by blast
next
  case (claim_due qi res)
  then show ?thesis using refines_advances [OF assms(2) claimDue_refines [OF assms(2), of qi]] by simp
next
  case (mark_polling pli res)
  then show ?thesis unfolding markPolling_def by (rule update_step_advances [OF _ assms(2)])
next
  case (mark_waiting wi res)
  then show ?thesis unfolding markWaiting_def by (rule update_step_advances [OF _ assms(2)])
next
  case (defer_polling di res)
  then show ?thesis unfolding deferPollingFailure_def by (rule update_step_advances [OF _ assms(2)])
next
  case (waiting_step si res)
  then show ?thesis
    unfolding completeWaitingStep_def
    by (rule transaction_advances [OF _ assms(2) refines_advances [OF assms(2) complete_waiting_refines]])
      (simp_all add: assms(2))
next
  case (round_released si res)
  then show ?thesis unfolding completeRoundRelease_def by (rule update_step_advances [OF _ assms(2)])
next
  case (retry_release di res)
  then show ?thesis unfolding retryRoundRelease_def by (rule update_step_advances [OF _ assms(2)])
next
  case (recovery_failed fi res)
  then show ?thesis
    unfolding failRecovery_def
    by (rule transaction_advances [OF _ assms(2) refines_advances [OF assms(2) fail_recovery_refines]])
      (simp_all add: assms(2))
qed

lemma empty_store_ok: "empty_store s \<Longrightarrow> store_ok s"
  by (auto simp: empty_store_def store_ok_def linked_def shape_defs proto_ok_def att_ok_def asg_ok_def
      lease_ok_def abs_store_def newest_active_def counted_def)

interpretation execution: simulated_system empty_store exec_step store_ok abs_store pstep
proof
  show "empty_store s \<Longrightarrow> store_ok s" for s by (rule empty_store_ok)
  show "store_ok s \<Longrightarrow> exec_step s t \<Longrightarrow> store_ok t" for s t
    using exec_step_advances by (auto simp: advances_def)
  show "store_ok s \<Longrightarrow> exec_step s t \<Longrightarrow> pstep\<^sup>*\<^sup>* (abs_store s) (abs_store t)" for s t
    using exec_step_advances by (auto simp: advances_def)
qed

end
