(* ===== verification/Scenario.thy ===== *)
theory Scenario
  imports Exec_System
begin

text \<open>
  A run of the system from the empty store: a batch of two cases is created, work is reserved on a
  compatible runner, claimed, kept alive and reported. The states are computed from the operations,
  so the invariant of theory \<open>Exec_System\<close> holds of each of them; the witnesses of the properties
  are stated at these states.
\<close>

definition ex_empty :: store where
  "ex_empty = \<lparr>st_batches = [], st_runs = [], st_attempts = [], st_assignments = [], st_leases = [],
     st_receipts = [], st_claims = [], st_attempt_events = [], st_batch_events = [],
     st_recoveries = [], st_artifacts = [], st_sched_events = [], st_case_sources = [],
     st_runtime_uploads = [], st_logs = \<lparr>lg_chunks = [], lg_watermarks = []\<rparr>,
     st_retry_states = [], st_round_concurrencies = []\<rparr>"

definition ex_tables :: create_tables where
  "ex_tables = \<lparr>ct_suites = [(''suite'', 3)], ct_links = [], ct_active_users = []\<rparr>"

definition ex_rule :: retry_concurrency_rule where
  "ex_rule = \<lparr>rule_id = ''calm'', rule_execution_round = 2, rule_pass_rate_minimum = None,
     rule_pass_rate_maximum = Some 50, rule_remaining_minimum = None,
     rule_remaining_maximum = None, rule_concurrency = 2\<rparr>"

definition ex_batch_policy :: batch_policy where
  "ex_batch_policy = \<lparr>bp_ai_analysis_after_completion = None, bp_ai_analysis_execution_id = None,
     bp_executor = TestNg, bp_concurrency = 1, bp_project_version_id = None,
     bp_runner_labels = [], bp_artifact_patterns = [], bp_retry_concurrency_rules = Some [ex_rule]\<rparr>"

definition ex_record :: create_record where
  "ex_record =
     \<lparr>cb_id = ''b'', cb_project_id = ''p'', cb_suite_id = ''suite'',
      cb_expected_suite_revision = Some 3, cb_public = None, cb_case_log_rerun = False,
      cb_event_id = None, cb_retry_limit = 1, cb_retry_mode = None, cb_priority = None,
      cb_queue_timeout_ms = Some 1000, cb_claim_timeout_ms = Some 100,
      cb_execution_timeout_ms = None, cb_upload_timeout_ms = None, cb_environment = [],
      cb_secret_bindings = [], cb_policy = Some ex_batch_policy, cb_runner_ids = [''agent''], cb_recoveries = [],
      cb_runs = [\<lparr>nr_id = ''r1'', nr_case_definition_id = ''c1'', nr_display_name = ''one''\<rparr>,
                 \<lparr>nr_id = ''r2'', nr_case_definition_id = ''c2'', nr_display_name = ''two''\<rparr>],
      cb_scheduled_for = None, cb_created_at = 0\<rparr>"

definition ex_created :: store where
  "ex_created = snd (create_batch ex_tables ex_record ex_empty)"

definition ex_runner :: stored_runner where
  "ex_runner =
     \<lparr>sr_id = ''agent'', sr_name = ''agent'', sr_credential_version = 1,
      sr_credential_revoked_at = None, sr_credential_rotation_requested_at = None,
      sr_deregistered_at = None, sr_purged_at = None, sr_disabled = False, sr_draining = False,
      sr_os = ''linux'', sr_architecture = ''amd64'', sr_agent_version = ''1.2.3'',
      sr_protocol_version = 1, sr_labels = [''java'', ''testng''],
      sr_capabilities = [''executor:testng-v1'', ''testng:7.11.0'', ''isolation:cgroup-v2'', ''java:17''],
      sr_max_concurrency = 1, sr_busy_slots = 0, sr_last_seen_at = 9,
      sr_cpu_percent = Some 10, sr_memory_percent = Some 20, sr_memory_total = None,
      sr_memory_available = None, sr_memory_credit = None, sr_disk_path = None,
      sr_disk_total = None, sr_disk_available = None, sr_load_average = Some 0,
      sr_logical_cpus = Some 4, sr_observed_at = Some 9, sr_terminal_enabled = False,
      sr_created_at = 0, sr_updated_at = 0\<rparr>"

definition ex_case :: case_input where
  "ex_case =
     \<lparr>cj_class_name = ''C'', cj_parameters = [], cj_is_ddt = False, cj_display_name = ''one'',
      cj_project_id = ''p'', cj_project_version_id = None, cj_test_stage_id = None,
      cj_source_id = ''src'', cj_source_sha256 = ''s'', cj_source_size = 10\<rparr>"

definition ex_reserve_tables :: reserve_tables where
  "ex_reserve_tables =
     \<lparr>rq_runners = [ex_runner], rq_batch_runners = [(''b'', ''agent'')],
      rq_adapters = [], rq_case_timeout_seconds = 60,
      rq_case_inputs = [(''r1'', ex_case), (''r2'', ex_case)]\<rparr>"

definition ex_reserve :: reserve_input where
  "ex_reserve =
     \<lparr>ru_batch = ''b'', ru_event_id = Some ''e1'', ru_project_maximum = Some 4,
      ru_decisions = [\<lparr>dn_run_id = ''r1'', dn_runner_id = ''agent'', dn_attempt_id = ''t1'',
                       dn_assignment_id = ''a1''\<rparr>,
                      \<lparr>dn_run_id = ''r2'', dn_runner_id = ''agent'', dn_attempt_id = ''t2'',
                       dn_assignment_id = ''a2''\<rparr>],
      ru_thresholds = \<lparr>th_memory_mode = None, th_cpu = 80, th_memory = 90, th_load = 2\<rparr>,
      ru_offline_before = 0, ru_fresh_after = 0, ru_scheduled_at = 10, ru_live = []\<rparr>"

definition ex_reserved :: store where
  "ex_reserved = snd (reserveAssignments ex_reserve_tables ex_reserve ex_created)"

definition ex_claim :: claim_input where
  "ex_claim =
     \<lparr>cl_runner_id = ''agent'', cl_request_id = ''q1'', cl_available_slots = 1,
      cl_labels = [''java'', ''testng''],
      cl_capabilities = [''executor:testng-v1'', ''testng:7.11.0''],
      cl_seeds = [\<lparr>sd_id = ''l1'', sd_event_id = ''v1'', sd_token_hash = ''h'', sd_token_encrypted = ''x''\<rparr>],
      cl_now = 20, cl_lease_expires_at = 60\<rparr>"

definition ex_claimed :: store where
  "ex_claimed = snd (claim ex_claim ex_reserved)"

definition ex_renew :: renew_input where
  "ex_renew =
     \<lparr>rn_runner_id = ''agent'', rn_lease_id = ''l1'', rn_token_hash = ''h'', rn_expected_version = 1,
      rn_now = 30, rn_expires_at = 90\<rparr>"

definition ex_renewed :: store where
  "ex_renewed = snd (renewLease ex_renew ex_claimed)"

definition ex_result :: completion_result where
  "ex_result =
     \<lparr>cz_status = Succeeded, cz_result_code = ''PASSED'', cz_summary = ''ok'', cz_duration_ms = 5,
      cz_test_ng = None, cz_log_watermarks = None, cz_artifacts = []\<rparr>"

definition ex_complete :: complete_input where
  "ex_complete =
     \<lparr>co_runner_id = ''agent'', co_attempt_id = ''t1'', co_completion_id = ''k1'',
      co_lease_token_hash = ''h'', co_result_digest = ''d'', co_result = ex_result,
      co_event_id = ''v2'', co_accepted_at = 40\<rparr>"

definition ex_completed :: store where
  "ex_completed = snd (completeAttempt ex_complete None ex_renewed)"

text \<open>The states, written out. The equations are those the kernel evaluates later facts with.\<close>

definition ex_batch :: "batch_status \<Rightarrow> int \<Rightarrow> time \<Rightarrow> batch_row" where
  "ex_batch st version now =
     (new_batch_row ex_record 1)\<lparr>bt_status := st, bt_version := version, bt_updated_at := now\<rparr>"

definition ex_run :: "nat \<Rightarrow> run_row" where
  "ex_run k = new_run_row ex_record (cb_runs ex_record ! k)"

definition ex_taken :: run_row where
  "ex_taken = (ex_run 0)\<lparr>rr_status := R_Assigned, rr_assigned_runner_id := Some ''agent'',
     rr_attempt_count := 1, rr_scheduling_score := Some (92431 / 1000), rr_assigned_at := Some 10,
     rr_updated_at := 10\<rparr>"

definition ex_decision :: reserved where
  "ex_decision = (hd (ru_decisions ex_reserve), 92431 / 1000, ex_taken)"

definition ex_event :: "ident \<Rightarrow> batch_status \<Rightarrow> batch_status \<Rightarrow> int \<Rightarrow> string \<Rightarrow> time \<Rightarrow> batch_event_row" where
  "ex_event k from to version reason now = \<lparr>be_id = k, be_batch_id = ''b'', be_from_status = Some from,
     be_to_status = to, be_batch_version = version, be_reason = reason, be_recorded_at = now\<rparr>"

definition ex_assigned :: assignment_row where
  "ex_assigned = new_assignment ex_reserve_tables ex_reserve (ex_batch B_Queued 1 0) ex_decision"

definition ex_response :: complete_response where
  "ex_response = \<lparr>cp_completion_id = ''k1'', cp_accepted_at = 40, cp_disposition = Accepted,
     cp_retry_scheduled = False, cp_batch_id = Some ''b'', cp_batch_closed = Some False,
     cp_has_schedulable_runs = Some True\<rparr>"

lemma ex_created_eq [code]:
  "ex_created = ex_empty\<lparr>st_batches := [ex_batch B_Queued 1 0], st_runs := [ex_run 0, ex_run 1],
     st_batch_events := [created_event ex_record]\<rparr>"
  by code_simp

lemma ex_reserved_eq [code]:
  "ex_reserved = ex_created\<lparr>st_batches := [ex_batch B_Dispatching 2 10],
     st_runs := [ex_taken, ex_run 1], st_attempts := [new_attempt ex_reserve ex_decision],
     st_assignments := [ex_assigned],
     st_batch_events := [created_event ex_record,
       ex_event ''e1'' B_Queued B_Dispatching 2 ''scheduling.updated'' 10]\<rparr>"
  by code_simp

lemma ex_claimed_eq [code]:
  "ex_claimed = ex_reserved\<lparr>st_batches := [ex_batch B_Running 3 20],
     st_runs := [ex_taken\<lparr>rr_status := R_Running, rr_version := 2, rr_updated_at := 20\<rparr>, ex_run 1],
     st_attempts := [(new_attempt ex_reserve ex_decision)\<lparr>at_status := T_Running, at_version := 2,
       at_started_at := Some 20\<rparr>],
     st_assignments := [ex_assigned\<lparr>as_status := A_Claimed, as_claimed_at := Some 20,
       as_version := 2, as_updated_at := 20\<rparr>],
     st_leases := [seeded_lease ex_claim ex_assigned (hd (cl_seeds ex_claim))],
     st_claims := [\<lparr>cq_runner_id = ''agent'', cq_request_id = ''q1'',
       cq_references = [(''a1'', ''l1'')], cq_created_at = 20\<rparr>],
     st_attempt_events := [claimed_event ex_claim ex_assigned (hd (cl_seeds ex_claim))],
     st_batch_events := [created_event ex_record,
       ex_event ''e1'' B_Queued B_Dispatching 2 ''scheduling.updated'' 10,
       ex_event ''v1'' B_Dispatching B_Running 3 ''assignment.claimed'' 20]\<rparr>"
  by code_simp

lemma ex_renewed_eq [code]:
  "ex_renewed = ex_claimed\<lparr>
     st_assignments := [ex_assigned\<lparr>as_status := A_Running, as_claimed_at := Some 20,
       as_version := 3, as_updated_at := 30\<rparr>],
     st_leases := [(seeded_lease ex_claim ex_assigned (hd (cl_seeds ex_claim)))\<lparr>ls_version := 2,
       ls_expires_at := 90, ls_renewed_at := 30\<rparr>]\<rparr>"
  by code_simp

lemma ex_completed_eq [code]:
  "ex_completed = ex_renewed\<lparr>st_batches := [ex_batch B_Queued 4 40],
     st_runs := [ex_taken\<lparr>rr_status := R_Succeeded, rr_version := 3, rr_updated_at := 40,
       rr_terminal_outcome := Some Succeeded, rr_terminal_reason_code := Some ''PASSED'',
       rr_queue_deadline_at := None\<rparr>, ex_run 1],
     st_attempts := [(new_attempt ex_reserve ex_decision)\<lparr>at_status := T_Succeeded, at_version := 3,
       at_started_at := Some 20, at_finished_at := Some 40, at_outcome := Some Succeeded,
       at_result_code := Some ''PASSED'', at_result_summary := Some ''ok'',
       at_completion_digest := Some ''d'', at_duration_ms := Some 5\<rparr>],
     st_assignments := [ex_assigned\<lparr>as_status := A_Completed, as_claimed_at := Some 20,
       as_completed_at := Some 40, as_version := 4, as_updated_at := 40\<rparr>],
     st_leases := [(seeded_lease ex_claim ex_assigned (hd (cl_seeds ex_claim)))\<lparr>
       ls_status := L_Released, ls_version := 2, ls_expires_at := 90, ls_renewed_at := 30\<rparr>],
     st_receipts := [\<lparr>rc_attempt_id = ''t1'', rc_completion_id = ''k1'', rc_result_digest = ''d'',
       rc_response = ex_response\<lparr>cp_has_schedulable_runs := None\<rparr>, rc_accepted_at = 40\<rparr>],
     st_attempt_events := [claimed_event ex_claim ex_assigned (hd (cl_seeds ex_claim)),
       \<lparr>ev_id = ''v2'', ev_attempt_id = ''t1'', ev_type = ''attempt.completed'',
        ev_from_status = Some T_Running, ev_to_status = Some T_Succeeded, ev_reason_code = None,
        ev_actor_type = Actor_Runner, ev_actor_id = Some ''agent'',
        ev_details = Completed_Details ''PASSED'' False, ev_recorded_at = 40\<rparr>],
     st_batch_events := [created_event ex_record,
       ex_event ''e1'' B_Queued B_Dispatching 2 ''scheduling.updated'' 10,
       ex_event ''v1'' B_Dispatching B_Running 3 ''assignment.claimed'' 20,
       ex_event ''v2'' B_Running B_Queued 4 ''attempt.completed'' 40]\<rparr>"
  by code_simp

definition ex_terminate :: terminate_input where
  "ex_terminate = \<lparr>tb_batch_id = ''b'', tb_actor = Some ''u'', tb_reason = ''stop'', tb_event_id = ''v3'',
     tb_requested_at = 50\<rparr>"

lemma ex_steps:
  "exec_step ex_empty ex_created" "exec_step ex_created ex_reserved"
  "exec_step ex_reserved ex_claimed" "exec_step ex_claimed ex_renewed"
  "exec_step ex_renewed ex_completed"
  unfolding ex_created_def ex_reserved_def ex_claimed_def ex_renewed_def ex_completed_def
  by (auto intro: exec_step.intros prod.collapse [symmetric])

lemma ex_ok:
  "store_ok ex_empty" "store_ok ex_created" "store_ok ex_reserved" "store_ok ex_claimed"
  "store_ok ex_renewed" "store_ok ex_completed"
proof -
  show 0: "store_ok ex_empty" by (rule empty_store_ok) (simp add: empty_store_def ex_empty_def)
  show 1: "store_ok ex_created" by (rule execution.inv_step [OF 0 ex_steps(1)])
  show 2: "store_ok ex_reserved" by (rule execution.inv_step [OF 1 ex_steps(2)])
  show 3: "store_ok ex_claimed" by (rule execution.inv_step [OF 2 ex_steps(3)])
  show 4: "store_ok ex_renewed" by (rule execution.inv_step [OF 3 ex_steps(4)])
  show "store_ok ex_completed" by (rule execution.inv_step [OF 4 ex_steps(5)])
qed

subsection \<open>A cancellation that the agent does not live to see\<close>

definition ex_cancel :: cancel_input where
  "ex_cancel = \<lparr>cn_run_id = ''r1'', cn_actor_id = ''u'', cn_reason = ''stop'', cn_event_id = ''v4'',
     cn_requested_at = 35\<rparr>"

definition ex_cancelling :: store where
  "ex_cancelling = snd (cancelRun ex_cancel ex_renewed)"

definition ex_recover :: recover_input where
  "ex_recover = \<lparr>ri_now = 100, ri_event_ids = [''v5'', ''v6'', ''v7'', ''v8''], ri_limit = 4,
     ri_terminating_only = False\<rparr>"

definition ex_recovered :: store where
  "ex_recovered = snd (recoverExpired ex_recover ex_cancelling)"

lemma ex_cancel_ok: "store_ok ex_cancelling" "store_ok ex_recovered"
proof -
  have "exec_step ex_renewed ex_cancelling" "exec_step ex_cancelling ex_recovered"
    unfolding ex_cancelling_def ex_recovered_def
    by (auto intro: exec_step.intros prod.collapse [symmetric])
  then show "store_ok ex_cancelling" "store_ok ex_recovered"
    using execution.inv_step [OF ex_ok(5)] execution.inv_step by blast+
qed

text \<open>The columns of a stored run that the invariant of the domain is about.\<close>

definition stored_outcome :: "store \<Rightarrow> ident \<Rightarrow> (run_status \<times> attempt_outcome option) option" where
  "stored_outcome s k = map_option (\<lambda>r. (rr_status r, rr_terminal_outcome r)) (find_run s k)"

subsection \<open>Answers along the way\<close>

definition ex_terminated :: store where
  "ex_terminated = snd (terminateBatch ex_terminate ex_completed)"

lemma ex_terminated_eq [code]:
  "ex_terminated = ex_completed\<lparr>
     st_batches := [(ex_batch B_Cancelled 6 50)\<lparr>bt_terminated_by := Some ''u'',
       bt_cancel_requested_at := Some 50\<rparr>],
     st_runs := [hd (st_runs ex_completed), (ex_run 1)\<lparr>rr_status := R_Cancelled, rr_version := 2,
       rr_terminal_outcome := Some Cancelled,
       rr_terminal_reason_code := Some ''BATCH_TERMINATED_BEFORE_EXECUTION'',
       rr_cancel_requested_at := Some 50, rr_updated_at := 50\<rparr>],
     st_batch_events := st_batch_events ex_completed
       @ [ex_event ''v3'' B_Queued B_Cancelled 6 ''batch.termination_requested'' 50]\<rparr>"
  by code_simp

lemma ex_reserve_answer:
  "reserveAssignments ex_reserve_tables ex_reserve ex_created = (Inr [''t1''], ex_reserved)"
proof -
  have "fst (reserveAssignments ex_reserve_tables ex_reserve ex_created) = Inr [''t1'']" by code_simp
  then show ?thesis unfolding ex_reserved_def by (metis prod.collapse)
qed

lemma ex_complete_answer: "completeAttempt ex_complete None ex_renewed = (Inr ex_response, ex_completed)"
proof -
  have "fst (completeAttempt ex_complete None ex_renewed) = Inr ex_response" by code_simp
  then show ?thesis unfolding ex_completed_def by (metis prod.collapse)
qed

lemma ex_terminate_answer: "terminateBatch ex_terminate ex_completed = (Inr 1, ex_terminated)"
proof -
  have "fst (terminateBatch ex_terminate ex_completed) = Inr 1" by code_simp
  then show ?thesis unfolding ex_terminated_def by (metis prod.collapse)
qed

lemma ex_reach:
  "exec_step\<^sup>*\<^sup>* ex_empty ex_claimed" "exec_step\<^sup>*\<^sup>* ex_empty ex_completed"
  "exec_step\<^sup>*\<^sup>* ex_completed ex_terminated" "empty_store ex_empty"
proof -
  show "exec_step\<^sup>*\<^sup>* ex_empty ex_claimed" "exec_step\<^sup>*\<^sup>* ex_empty ex_completed"
    using ex_steps by (meson r_into_rtranclp rtranclp_trans)+
  show "exec_step\<^sup>*\<^sup>* ex_completed ex_terminated"
    using exec_step.terminate [OF ex_terminate_answer] by blast
  show "empty_store ex_empty" by (simp add: empty_store_def ex_empty_def)
qed

section \<open>Small inputs of the other components\<close>

definition ex_candidate :: candidate where
  "ex_candidate = \<lparr>cd_runner = mapStoredRunner ex_runner (Some 0), cd_reserved = 0, cd_live = None\<rparr>"

definition ex_plan :: schedule_input where
  "ex_plan = \<lparr>si_runs = [], si_candidates = [ex_candidate],
     si_thresholds = ru_thresholds ex_reserve, si_fresh_after = 0, si_excluded = [],
     si_history = [], si_max_assignments = Some 2\<rparr>"

definition ex_chunk :: "int \<Rightarrow> chunk_row" where
  "ex_chunk n = \<lparr>cr_batch = ''b'', cr_attempt = ''t1'', cr_stream = Stdout, cr_sequence = n,
     cr_content = ''x'', cr_encoding = Identity_Encoding, cr_size = 1, cr_stored_size = Some 1,
     cr_sha = None, cr_recorded_at = 1, cr_received_at = 2\<rparr>"

definition ex_logs :: log_store where
  "ex_logs = \<lparr>lg_chunks = [ex_chunk 0, ex_chunk 3, ex_chunk 1], lg_watermarks = []\<rparr>"

definition ex_runtime :: adapter_runtime where
  "ex_runtime = \<lparr>pr_ddt_debug = None, pr_requires_ddt_case_id = False, pr_suite_name = ''suite'',
     pr_test_name = ''test'', pr_addresses = [''a'', ''b'', ''c''], pr_address_by_run = [(''r1'', ''b'')],
     pr_fallback_address = ''a'', pr_jdk = None, pr_jar_bundle = None\<rparr>"

definition ex_log_chunk :: "int \<Rightarrow> log_chunk" where
  "ex_log_chunk n = \<lparr>ch_stream = Stdout, ch_sequence = n, ch_content = ''line'', ch_recorded_at = 1\<rparr>"

end
