(* ===== verification/Batch_Rounds.thy ===== *)
theory Batch_Rounds
  imports Run_Types
begin

text \<open>
  The rounds of a batch, \<open>packages/domain/src/run-batch.ts\<close>: which attempts and runs belong to a
  round, the summary of each round, of all rounds and of the final results. A JavaScript \<open>Map\<close>
  keeps the place of a key that is set again, as \<open>AList.update\<close> does; a \<open>Set\<close> that is only counted
  is a list without repetition.
\<close>

section \<open>The code\<close>

datatype round_status = Round_Running | Round_Completed | Round_Waiting

record round_summary =
  sm_round :: int
  sm_status :: round_status
  sm_total_runs :: int
  sm_executed :: int
  sm_passed :: int
  sm_failed :: int
  sm_timed_out :: int
  sm_cancelled :: int
  sm_not_executed :: int
  sm_round_pass_rate :: "int option"
  sm_overall_passed :: int
  sm_overall_pass_rate :: int
  sm_started_at :: "time option"
  sm_duration_ms :: "int option"

record all_rounds_summary =
  al_total_runs :: int
  al_passed :: int
  al_failed :: int
  al_timed_out :: int
  al_cancelled :: int
  al_not_executed :: int
  al_pass_rate :: int

subsection \<open>Attempts and runs of a round\<close>

definition runAttemptExecutionRound :: "run_attempt \<Rightarrow> int" where
  "runAttemptExecutionRound a =
     (case ra_execution_round a of None \<Rightarrow> ra_attempt_number a | Some n \<Rightarrow> n)"

definition runAttemptOutcome :: "run_attempt \<Rightarrow> attempt_outcome option" where
  "runAttemptOutcome a =
     (case ra_outcome a of None \<Rightarrow> outcome_of_status (ra_status a) | Some oc \<Rightarrow> Some oc)"

definition latest_attempt_step ::
  "int \<Rightarrow> (ident \<times> run_attempt) list \<Rightarrow> run_attempt \<Rightarrow> (ident \<times> run_attempt) list" where
  "latest_attempt_step rnd m a =
     (if runAttemptExecutionRound a \<noteq> rnd then m
      else case map_of m (ra_execution_run_id a) of
        None \<Rightarrow> AList.update (ra_execution_run_id a) a m
      | Some current \<Rightarrow>
          if ra_attempt_number current < ra_attempt_number a
            then AList.update (ra_execution_run_id a) a m else m)"

definition runAttemptsForExecutionRound :: "run_attempt list \<Rightarrow> int \<Rightarrow> run_attempt list" where
  "runAttemptsForExecutionRound attempts rnd = map snd (foldl (latest_attempt_step rnd) [] attempts)"

definition runs_by_id :: "execution_run list \<Rightarrow> ident \<Rightarrow> execution_run option" where
  "runs_by_id runs = map_of (rev (map (\<lambda>r. (er_id r, r)) runs))"

definition attempt_eligible :: "execution_run list \<Rightarrow> int \<Rightarrow> run_attempt \<Rightarrow> bool" where
  "attempt_eligible runs rnd a \<longleftrightarrow>
     runAttemptExecutionRound a = rnd \<or>
     (Option.bind (runs_by_id runs (ra_execution_run_id a)) er_execution_round = None \<and>
      ra_execution_round a = None \<and> ra_attempt_number a = rnd - 1 \<and>
      (runAttemptOutcome a = Some Failed \<or> runAttemptOutcome a = Some Timed_Out))"

definition executionRunsForRound ::
  "execution_run list \<Rightarrow> run_attempt list \<Rightarrow> int \<Rightarrow> execution_run list" where
  "executionRunsForRound runs attempts rnd =
     (if rnd = 1 then runs
      else filter (\<lambda>r.
        (\<exists>a\<in>set attempts. ra_execution_run_id a = er_id r \<and> attempt_eligible runs rnd a) \<or>
        (\<exists>q\<in>set runs. er_id q = er_id r \<and>
           (er_execution_round q = Some rnd \<or> er_held_round q = Some rnd))) runs)"

definition runBatchRoundNumbers ::
  "run_batch \<Rightarrow> execution_run list \<Rightarrow> run_attempt list \<Rightarrow> int list" where
  "runBatchRoundNumbers b runs attempts =
     sort (dedup ([1, rb_current_round b] @ map runAttemptExecutionRound attempts @
       concat (map (\<lambda>r.
         (case er_execution_round r of None \<Rightarrow> [] | Some n \<Rightarrow> [n]) @
         (case er_held_round r of None \<Rightarrow> [] | Some n \<Rightarrow> if n > 0 then [n] else [])) runs)))"

subsection \<open>The summary of a round\<close>

definition isTerminalRunBatchStatus :: "batch_status \<Rightarrow> bool" where
  "isTerminalRunBatchStatus st \<longleftrightarrow> st = B_Succeeded \<or> st = B_Failed \<or> st = B_Cancelled"

definition roundStatus ::
  "run_batch \<Rightarrow> int \<Rightarrow> run_attempt list \<Rightarrow> int \<Rightarrow> int \<Rightarrow> round_status" where
  "roundStatus b rnd roundAttempts totalRuns executed =
     (if \<exists>a\<in>set roundAttempts. ra_status a = T_Assigned \<or> ra_status a = T_Running
        then Round_Running
      else if isTerminalRunBatchStatus (rb_status b) \<or> rnd < rb_current_round b
        then Round_Completed
      else if rb_retry_mode b = Immediate
        then if roundAttempts = [] then Round_Waiting
             else if executed < totalRuns then Round_Running else Round_Completed
      else if rnd > rb_current_round b \<or> roundAttempts = [] then Round_Waiting
      else if executed < totalRuns then Round_Running else Round_Completed)"

definition countOutcome :: "run_attempt list \<Rightarrow> attempt_outcome \<Rightarrow> int" where
  "countOutcome roundAttempts oc =
     int (length (filter (\<lambda>a. runAttemptOutcome a = Some oc) roundAttempts))"

definition begun_at :: "run_attempt \<Rightarrow> time" where
  "begun_at a = (case ra_started_at a of None \<Rightarrow> ra_created_at a | Some t \<Rightarrow> t)"

fun roundStartedAt :: "run_attempt list \<Rightarrow> time option" where
  "roundStartedAt [] = None"
| "roundStartedAt (a # as) = Some (foldl (\<lambda>e x. if begun_at x < e then begun_at x else e) (begun_at a) as)"

definition latest_finish :: "run_attempt list \<Rightarrow> time option" where
  "latest_finish roundAttempts =
     foldl (\<lambda>l a. case ra_finished_at a of
         None \<Rightarrow> l
       | Some t \<Rightarrow> (case l of None \<Rightarrow> Some t | Some m \<Rightarrow> if m < t then Some t else l))
       None roundAttempts"

definition roundDurationMs :: "run_attempt list \<Rightarrow> int option" where
  "roundDurationMs roundAttempts =
     (case (roundStartedAt roundAttempts, latest_finish roundAttempts) of
        (Some st, Some fin) \<Rightarrow> Some (max 0 (fin - st))
      | _ \<Rightarrow> None)"

definition percent_or_0 :: "int \<Rightarrow> int \<Rightarrow> int" where
  "percent_or_0 part whole = (if whole = 0 then 0 else percent_of part whole)"

definition add_passed :: "ident list \<Rightarrow> run_attempt list \<Rightarrow> ident list" where
  "add_passed passed roundAttempts =
     fold (\<lambda>a. if runAttemptOutcome a = Some Succeeded then List.insert (ra_execution_run_id a) else id)
       roundAttempts passed"

definition summarize_round ::
  "run_batch \<Rightarrow> execution_run list \<Rightarrow> run_attempt list \<Rightarrow> int \<Rightarrow> ident list \<Rightarrow> round_summary" where
  "summarize_round b runs attempts rnd passedRunIds =
     (let roundAttempts = runAttemptsForExecutionRound attempts rnd;
          total = int (length (executionRunsForRound runs attempts rnd));
          executed = int (length (dedup (map ra_execution_run_id roundAttempts)));
          status = roundStatus b rnd roundAttempts total executed;
          passed = countOutcome roundAttempts Succeeded;
          timedOut = countOutcome roundAttempts Timed_Out;
          failed = countOutcome roundAttempts Failed;
          cancelled = countOutcome roundAttempts Cancelled;
          completed = passed + failed + timedOut + cancelled
      in \<lparr>sm_round = rnd, sm_status = status, sm_total_runs = total, sm_executed = executed,
          sm_passed = passed, sm_failed = failed, sm_timed_out = timedOut,
          sm_cancelled = cancelled, sm_not_executed = max 0 (total - executed),
          sm_round_pass_rate = (if completed = 0 then None else Some (percent_of passed completed)),
          sm_overall_passed = int (length passedRunIds),
          sm_overall_pass_rate = percent_or_0 (int (length passedRunIds)) (rb_total_runs b),
          sm_started_at = roundStartedAt roundAttempts,
          sm_duration_ms = (if status = Round_Running then None else roundDurationMs roundAttempts)\<rparr>)"

fun summarize_rounds ::
  "run_batch \<Rightarrow> execution_run list \<Rightarrow> run_attempt list \<Rightarrow> int list \<Rightarrow> ident list \<Rightarrow>
   round_summary list" where
  "summarize_rounds b runs attempts [] passed = []"
| "summarize_rounds b runs attempts (rnd # rnds) passed =
     (let passed' = add_passed passed (runAttemptsForExecutionRound attempts rnd)
      in summarize_round b runs attempts rnd passed' #
         summarize_rounds b runs attempts rnds passed')"

definition summarizeRunBatchRounds ::
  "run_batch \<Rightarrow> execution_run list \<Rightarrow> run_attempt list \<Rightarrow> round_summary list" where
  "summarizeRunBatchRounds b runs attempts =
     summarize_rounds b runs attempts (runBatchRoundNumbers b runs attempts) []"

subsection \<open>All rounds, and the final results\<close>

definition add_summary :: "all_rounds_summary \<Rightarrow> round_summary \<Rightarrow> all_rounds_summary" where
  "add_summary t s =
     t\<lparr>al_total_runs := al_total_runs t + sm_total_runs s, al_passed := al_passed t + sm_passed s,
       al_failed := al_failed t + sm_failed s, al_timed_out := al_timed_out t + sm_timed_out s,
       al_cancelled := al_cancelled t + sm_cancelled s,
       al_not_executed := al_not_executed t + sm_not_executed s\<rparr>"

definition summarizeAllRunBatchRounds :: "round_summary list \<Rightarrow> all_rounds_summary" where
  "summarizeAllRunBatchRounds summaries =
     (let t = foldl add_summary
        \<lparr>al_total_runs = 0, al_passed = 0, al_failed = 0, al_timed_out = 0, al_cancelled = 0,
         al_not_executed = 0, al_pass_rate = 0\<rparr> summaries
      in t\<lparr>al_pass_rate := percent_or_0 (al_passed t) (al_total_runs t)\<rparr>)"

definition final_attempt_step ::
  "(ident \<times> run_attempt) list \<Rightarrow> run_attempt \<Rightarrow> (ident \<times> run_attempt) list" where
  "final_attempt_step m a =
     (case map_of m (ra_execution_run_id a) of
        None \<Rightarrow> AList.update (ra_execution_run_id a) a m
      | Some current \<Rightarrow>
          let currentSucceeded = (runAttemptOutcome current = Some Succeeded);
              attemptSucceeded = (runAttemptOutcome a = Some Succeeded)
          in if (\<not> currentSucceeded \<and> attemptSucceeded) \<or>
                (currentSucceeded = attemptSucceeded \<and> ra_attempt_number current < ra_attempt_number a)
               then AList.update (ra_execution_run_id a) a m else m)"

definition finalRunAttemptByExecutionRun :: "run_attempt list \<Rightarrow> (ident \<times> run_attempt) list" where
  "finalRunAttemptByExecutionRun attempts = foldl final_attempt_step [] attempts"

definition final_outcome :: "run_attempt list \<Rightarrow> execution_run \<Rightarrow> attempt_outcome option" where
  "final_outcome attempts r =
     Option.bind (map_of (finalRunAttemptByExecutionRun attempts) (er_id r)) runAttemptOutcome"

definition count_final ::
  "run_attempt list \<Rightarrow> execution_run list \<Rightarrow> attempt_outcome option \<Rightarrow> int" where
  "count_final attempts runs oc = int (length (filter (\<lambda>r. final_outcome attempts r = oc) runs))"

definition summarizeRunBatchFinalResults ::
  "run_batch \<Rightarrow> execution_run list \<Rightarrow> run_attempt list \<Rightarrow> all_rounds_summary" where
  "summarizeRunBatchFinalResults b runs attempts =
     (let passed = count_final attempts runs (Some Succeeded)
      in \<lparr>al_total_runs = rb_total_runs b, al_passed = passed,
          al_failed = count_final attempts runs (Some Failed),
          al_timed_out = count_final attempts runs (Some Timed_Out),
          al_cancelled = count_final attempts runs (Some Cancelled),
          al_not_executed = count_final attempts runs None,
          al_pass_rate = percent_or_0 passed (rb_total_runs b)\<rparr>)"

subsection \<open>Counters\<close>

definition statusAfterFailedAttempt :: "js_number \<Rightarrow> js_number \<Rightarrow> domain_error + run_status" where
  "statusAfterFailedAttempt attemptNumber retryLimit =
     (if \<not> js_is_integer attemptNumber \<or> js_less attemptNumber (js_int 1)
        then Inl (PlainError ''attemptNumber'')
      else if \<not> js_is_integer retryLimit \<or> js_less retryLimit (js_int 0)
        then Inl (PlainError ''retryLimit'')
      else Inr (if js_less retryLimit attemptNumber then R_Failed else R_Queued))"

definition summarizeRunBatchCounters :: "run_batch \<Rightarrow> all_rounds_summary" where
  "summarizeRunBatchCounters b =
     (let terminal = rb_succeeded_runs b + rb_failed_runs b + rb_timed_out_runs b + rb_cancelled_runs b
      in \<lparr>al_total_runs = rb_total_runs b, al_passed = rb_succeeded_runs b,
          al_failed = rb_failed_runs b, al_timed_out = rb_timed_out_runs b,
          al_cancelled = rb_cancelled_runs b,
          al_not_executed = max 0 (rb_total_runs b - terminal),
          al_pass_rate = percent_or_0 (rb_succeeded_runs b) (rb_total_runs b)\<rparr>)"

section \<open>The attempts that are shown\<close>

text \<open>
  \<open>latest_attempt_step\<close> and \<open>final_attempt_step\<close> are the same loop with two preferences: a new
  attempt of a run replaces the one that is kept when it is better.
\<close>

definition prefer_step ::
  "(run_attempt \<Rightarrow> bool) \<Rightarrow> (run_attempt \<Rightarrow> run_attempt \<Rightarrow> bool) \<Rightarrow>
   (ident \<times> run_attempt) list \<Rightarrow> run_attempt \<Rightarrow> (ident \<times> run_attempt) list" where
  "prefer_step sel better m a =
     (if \<not> sel a then m
      else case map_of m (ra_execution_run_id a) of
        None \<Rightarrow> AList.update (ra_execution_run_id a) a m
      | Some current \<Rightarrow>
          if better a current then AList.update (ra_execution_run_id a) a m else m)"

definition succeeded :: "run_attempt \<Rightarrow> bool" where
  "succeeded a \<longleftrightarrow> runAttemptOutcome a = Some Succeeded"

definition later :: "run_attempt \<Rightarrow> run_attempt \<Rightarrow> bool" where
  "later a current \<longleftrightarrow> ra_attempt_number current < ra_attempt_number a"

definition final_better :: "run_attempt \<Rightarrow> run_attempt \<Rightarrow> bool" where
  "final_better a current \<longleftrightarrow>
     (\<not> succeeded current \<and> succeeded a) \<or> (succeeded current = succeeded a \<and> later a current)"

lemma latest_attempt_step_prefer:
  "latest_attempt_step rnd = prefer_step (\<lambda>a. runAttemptExecutionRound a = rnd) later"
  by (intro ext) (simp add: latest_attempt_step_def prefer_step_def later_def split: option.split)

lemma final_attempt_step_prefer: "final_attempt_step = prefer_step (\<lambda>a. True) final_better"
  by (intro ext)
    (simp add: final_attempt_step_def prefer_step_def final_better_def later_def succeeded_def Let_def
      split: option.split)

text \<open>
  What such a loop keeps for a run: nothing when no attempt of it is selected, otherwise a selected
  attempt that no other selected one of the run is better than.
\<close>

definition kept :: "(run_attempt \<Rightarrow> bool) \<Rightarrow> (run_attempt \<Rightarrow> run_attempt \<Rightarrow> bool) \<Rightarrow>
   run_attempt list \<Rightarrow> (ident \<times> run_attempt) list \<Rightarrow> bool" where
  "kept sel better as m \<longleftrightarrow> distinct (map fst m) \<and>
     (\<forall>k a. (k, a) \<in> set m \<longrightarrow> a \<in> set as \<and> sel a \<and> ra_execution_run_id a = k) \<and>
     (\<forall>a\<in>set as. sel a \<longrightarrow>
        (\<exists>c. map_of m (ra_execution_run_id a) = Some c \<and> \<not> better a c))"

lemma kept_step:
  assumes kept: "kept sel better as m"
    and irrefl: "\<And>a. \<not> better a a"
    and trans: "\<And>a b c. better b c \<Longrightarrow> \<not> better a c \<Longrightarrow> \<not> better a b"
  shows "kept sel better (as @ [a]) (prefer_step sel better m a)"
proof -
  let ?k = "ra_execution_run_id a"
  let ?n = "AList.update ?k a m"
  have d: "distinct (map fst m)"
    and from_as: "\<And>k x. (k, x) \<in> set m \<Longrightarrow> x \<in> set as \<and> sel x \<and> ra_execution_run_id x = k"
    and best: "\<And>x. x \<in> set as \<Longrightarrow> sel x \<Longrightarrow>
      \<exists>c. map_of m (ra_execution_run_id x) = Some c \<and> \<not> better x c"
    using kept unfolding kept_def by blast+
  have put: "kept sel better (as @ [a]) ?n"
    if "sel a" and new: "\<And>c. map_of m ?k = Some c \<Longrightarrow> better a c"
  proof -
    have map: "map_of ?n = (map_of m)(?k \<mapsto> a)" by (simp add: AList.update_conv' fun_upd_def)
    have dn: "distinct (map fst ?n)" using d by (simp add: AList.distinct_update)
    have "x \<in> set (as @ [a]) \<and> sel x \<and> ra_execution_run_id x = k" if "(k, x) \<in> set ?n" for k x
    proof -
      have "map_of ?n k = Some x" using dn that by simp
      then have "(k = ?k \<and> x = a) \<or> map_of m k = Some x" by (auto simp: map split: if_splits)
      then show ?thesis using from_as map_of_SomeD \<open>sel a\<close> by fastforce
    qed
    moreover have "\<exists>c. map_of ?n (ra_execution_run_id x) = Some c \<and> \<not> better x c"
      if x: "x \<in> set (as @ [a])" "sel x" for x
    proof (cases "x \<in> set as \<and> ra_execution_run_id x = ?k")
      case True
      then obtain c where "map_of m ?k = Some c" "\<not> better x c" using best x(2) by metis
      then have "\<not> better x a" using new trans by blast
      then show ?thesis using True by (simp add: map)
    next
      case False
      then show ?thesis using x best irrefl by (auto simp: map)
    qed
    ultimately show ?thesis using dn unfolding kept_def by blast
  qed
  have keep: "kept sel better (as @ [a]) m"
    if "sel a \<Longrightarrow> \<exists>c. map_of m ?k = Some c \<and> \<not> better a c"
    unfolding kept_def using d from_as best that by auto
  show ?thesis
    using put keep unfolding prefer_step_def by (auto split: option.split)
qed

lemma kept_fold:
  assumes "\<And>a. \<not> better a a" "\<And>a b c. better b c \<Longrightarrow> \<not> better a c \<Longrightarrow> \<not> better a b"
  shows "kept sel better as (foldl (prefer_step sel better) [] as)"
proof (induction as rule: rev_induct)
  case Nil
  then show ?case by (simp add: kept_def)
next
  case (snoc a as)
  from kept_step [OF snoc assms] show ?case by simp
qed

lemma kept_latest: "kept (\<lambda>a. runAttemptExecutionRound a = rnd) later as
   (foldl (latest_attempt_step rnd) [] as)"
  unfolding latest_attempt_step_prefer by (intro kept_fold) (auto simp: later_def)

lemma kept_final: "kept (\<lambda>a. True) final_better as (finalRunAttemptByExecutionRun as)"
  unfolding finalRunAttemptByExecutionRun_def final_attempt_step_prefer
  by (intro kept_fold) (auto simp: final_better_def later_def)

lemma round_attempts:
  fixes attempts rnd
  defines "ra \<equiv> runAttemptsForExecutionRound attempts rnd"
  shows "distinct (map ra_execution_run_id ra)"
    and "a \<in> set ra \<Longrightarrow> a \<in> set attempts \<and> runAttemptExecutionRound a = rnd"
    and "a \<in> set attempts \<Longrightarrow> runAttemptExecutionRound a = rnd \<Longrightarrow>
      \<exists>c\<in>set ra. ra_execution_run_id c = ra_execution_run_id a \<and> ra_attempt_number a \<le> ra_attempt_number c"
proof -
  define m where "m = foldl (latest_attempt_step rnd) [] attempts"
  have ra: "ra = map snd m" by (simp add: ra_def runAttemptsForExecutionRound_def m_def)
  have k: "kept (\<lambda>a. runAttemptExecutionRound a = rnd) later attempts m"
    unfolding m_def by (rule kept_latest)
  then have d: "distinct (map fst m)"
    and mem: "\<And>k x. (k, x) \<in> set m \<Longrightarrow>
        x \<in> set attempts \<and> runAttemptExecutionRound x = rnd \<and> ra_execution_run_id x = k"
    and best: "\<And>x. x \<in> set attempts \<Longrightarrow> runAttemptExecutionRound x = rnd \<Longrightarrow>
        \<exists>c. map_of m (ra_execution_run_id x) = Some c \<and> \<not> later x c"
    unfolding kept_def by blast+
  have "map ra_execution_run_id ra = map fst m"
    unfolding ra map_map using mem by (intro map_cong) auto
  then show "distinct (map ra_execution_run_id ra)" using d by simp
  show "a \<in> set attempts \<and> runAttemptExecutionRound a = rnd" if "a \<in> set ra"
    using that mem unfolding ra by auto
  show "\<exists>c\<in>set ra. ra_execution_run_id c = ra_execution_run_id a \<and> ra_attempt_number a \<le> ra_attempt_number c"
    if a: "a \<in> set attempts" "runAttemptExecutionRound a = rnd"
  proof -
    obtain c where c: "map_of m (ra_execution_run_id a) = Some c" "\<not> later a c"
      using best [OF a] by blast
    have "(ra_execution_run_id a, c) \<in> set m" using c(1) by (rule map_of_SomeD)
    then show ?thesis using mem c(2) unfolding ra by (force simp: later_def)
  qed
qed

subsection \<open>The counts of a round\<close>

text \<open>Stored data: runs have their own identifiers, and attempts belong to runs of the batch.\<close>

definition stored_runs :: "execution_run list \<Rightarrow> run_attempt list \<Rightarrow> bool" where
  "stored_runs runs attempts \<longleftrightarrow>
     distinct (map er_id runs) \<and> (\<forall>a\<in>set attempts. ra_execution_run_id a \<in> er_id ` set runs)"

lemma length_le_of_subset: "distinct xs \<Longrightarrow> set xs \<subseteq> set ys \<Longrightarrow> length xs \<le> length ys"
  by (metis card_length card_mono distinct_card finite_set le_trans)

lemma runs_for_round_ids:
  assumes "stored_runs runs attempts" "a \<in> set attempts" "runAttemptExecutionRound a = rnd"
  shows "ra_execution_run_id a \<in> er_id ` set (executionRunsForRound runs attempts rnd)"
proof -
  obtain r where "r \<in> set runs" "er_id r = ra_execution_run_id a"
    using assms(1,2) unfolding stored_runs_def by force
  moreover have "attempt_eligible runs rnd a" using assms(3) by (simp add: attempt_eligible_def)
  ultimately have "r \<in> set (executionRunsForRound runs attempts rnd)"
    using assms(2) by (auto simp: executionRunsForRound_def)
  then show ?thesis using \<open>er_id r = ra_execution_run_id a\<close> by (metis imageI)
qed

lemma executed_le_total:
  assumes "stored_runs runs attempts"
  shows "length (runAttemptsForExecutionRound attempts rnd) \<le>
    length (executionRunsForRound runs attempts rnd)"
proof -
  let ?ra = "runAttemptsForExecutionRound attempts rnd"
  have "set (map ra_execution_run_id ?ra) \<subseteq> set (map er_id (executionRunsForRound runs attempts rnd))"
    using runs_for_round_ids [OF assms] round_attempts(2) by fastforce
  from length_le_of_subset [OF round_attempts(1) this] show ?thesis by simp
qed

lemma executed_eq:
  "length (dedup (map ra_execution_run_id (runAttemptsForExecutionRound attempts rnd))) =
    length (runAttemptsForExecutionRound attempts rnd)"
  by (simp add: dedup_id [OF round_attempts(1)])

text \<open>The four outcomes are disjoint, so their counts add up to at most the number of attempts.\<close>

lemma count_outcomes:
  "countOutcome as Succeeded + countOutcome as Failed + countOutcome as Timed_Out + countOutcome as Cancelled
     + int (length (filter (\<lambda>a. runAttemptOutcome a = None) as)) = int (length as)"
proof (induction as)
  case (Cons a as)
  show ?case
  proof (cases "runAttemptOutcome a")
    case None
    then show ?thesis using Cons by (simp add: countOutcome_def)
  next
    case (Some oc)
    then show ?thesis using Cons by (cases oc) (simp_all add: countOutcome_def)
  qed
qed (simp add: countOutcome_def)

lemma countOutcome_nonneg [simp]: "0 \<le> countOutcome as oc"
  by (simp add: countOutcome_def)

lemma round_rate_bounds:
  assumes "sm_round_pass_rate (summarize_round b runs attempts rnd passed) = Some p"
  shows "0 \<le> p \<and> p \<le> 100"
proof -
  define ra where "ra = runAttemptsForExecutionRound attempts rnd"
  define n where "n = countOutcome ra Succeeded + countOutcome ra Failed + countOutcome ra Timed_Out
    + countOutcome ra Cancelled"
  have n: "n \<noteq> 0" "p = percent_of (countOutcome ra Succeeded) n"
    using assms unfolding n_def ra_def by (auto simp: summarize_round_def Let_def split: if_splits)
  have "countOutcome ra Succeeded \<le> n" "0 \<le> n" by (simp_all add: n_def)
  then show ?thesis using percent_of_bounds [of "countOutcome ra Succeeded" n] n by simp
qed

lemma round_counts:
  fixes b runs attempts rnd passed
  defines "s \<equiv> summarize_round b runs attempts rnd passed"
  assumes "stored_runs runs attempts"
  shows "sm_executed s + sm_not_executed s = sm_total_runs s \<and> 0 \<le> sm_not_executed s \<and>
    sm_passed s + sm_failed s + sm_timed_out s + sm_cancelled s \<le> sm_executed s"
  using executed_le_total [OF assms(2), of rnd] count_outcomes [of "runAttemptsForExecutionRound attempts rnd"]
  by (simp add: s_def summarize_round_def Let_def executed_eq)

lemma summarize_rounds_each:
  assumes "s \<in> set (summarize_rounds b runs attempts rnds passed)"
  obtains rnd p where "rnd \<in> set rnds" "s = summarize_round b runs attempts rnd p"
  using assms by (induction rnds arbitrary: passed) (auto simp: Let_def)

lemma sum_of_rounds:
  "al_total_runs (summarizeAllRunBatchRounds ss) = sum_list (map sm_total_runs ss)"
  "al_passed (summarizeAllRunBatchRounds ss) = sum_list (map sm_passed ss)"
  "al_failed (summarizeAllRunBatchRounds ss) = sum_list (map sm_failed ss)"
  "al_timed_out (summarizeAllRunBatchRounds ss) = sum_list (map sm_timed_out ss)"
  "al_cancelled (summarizeAllRunBatchRounds ss) = sum_list (map sm_cancelled ss)"
  "al_not_executed (summarizeAllRunBatchRounds ss) = sum_list (map sm_not_executed ss)"
proof -
  have "al_total_runs (foldl add_summary t ss) = al_total_runs t + sum_list (map sm_total_runs ss)"
    "al_passed (foldl add_summary t ss) = al_passed t + sum_list (map sm_passed ss)"
    "al_failed (foldl add_summary t ss) = al_failed t + sum_list (map sm_failed ss)"
    "al_timed_out (foldl add_summary t ss) = al_timed_out t + sum_list (map sm_timed_out ss)"
    "al_cancelled (foldl add_summary t ss) = al_cancelled t + sum_list (map sm_cancelled ss)"
    "al_not_executed (foldl add_summary t ss) = al_not_executed t + sum_list (map sm_not_executed ss)"
    for t
    by (induction ss arbitrary: t) (simp_all add: add_summary_def)
  then show
    "al_total_runs (summarizeAllRunBatchRounds ss) = sum_list (map sm_total_runs ss)"
    "al_passed (summarizeAllRunBatchRounds ss) = sum_list (map sm_passed ss)"
    "al_failed (summarizeAllRunBatchRounds ss) = sum_list (map sm_failed ss)"
    "al_timed_out (summarizeAllRunBatchRounds ss) = sum_list (map sm_timed_out ss)"
    "al_cancelled (summarizeAllRunBatchRounds ss) = sum_list (map sm_cancelled ss)"
    "al_not_executed (summarizeAllRunBatchRounds ss) = sum_list (map sm_not_executed ss)"
    by (simp_all add: summarizeAllRunBatchRounds_def Let_def)
qed

subsection \<open>The final results\<close>

text \<open>The final outcome of a run is a success exactly when one of its attempts succeeded.\<close>

lemma final_attempt:
  "map_of (finalRunAttemptByExecutionRun attempts) k = Some c \<Longrightarrow>
     c \<in> set attempts \<and> ra_execution_run_id c = k"
  "a \<in> set attempts \<Longrightarrow>
     \<exists>c. map_of (finalRunAttemptByExecutionRun attempts) (ra_execution_run_id a) = Some c
       \<and> \<not> final_better a c"
  using kept_final [of attempts] unfolding kept_def by (blast dest: map_of_SomeD)+

lemma final_succeeded:
  "final_outcome attempts r = Some Succeeded \<longleftrightarrow>
     (\<exists>a\<in>set attempts. ra_execution_run_id a = er_id r \<and> succeeded a)"
proof
  assume "final_outcome attempts r = Some Succeeded"
  then obtain c where "map_of (finalRunAttemptByExecutionRun attempts) (er_id r) = Some c"
      "succeeded c"
    by (auto simp: final_outcome_def succeeded_def split: bind_splits)
  then show "\<exists>a\<in>set attempts. ra_execution_run_id a = er_id r \<and> succeeded a"
    using final_attempt(1) by blast
next
  assume "\<exists>a\<in>set attempts. ra_execution_run_id a = er_id r \<and> succeeded a"
  then obtain a where a: "a \<in> set attempts" "ra_execution_run_id a = er_id r" "succeeded a" by blast
  obtain c where c: "map_of (finalRunAttemptByExecutionRun attempts) (er_id r) = Some c"
      "\<not> final_better a c"
    using final_attempt(2) [OF a(1)] a(2) by auto
  then have "succeeded c" using a(3) by (auto simp: final_better_def)
  then show "final_outcome attempts r = Some Succeeded"
    using c(1) by (simp add: final_outcome_def succeeded_def)
qed

text \<open>Every run of the batch is counted once.\<close>

lemma final_partition:
  "count_final as rs (Some Succeeded) + count_final as rs (Some Failed) +
     count_final as rs (Some Timed_Out) + count_final as rs (Some Cancelled) +
     count_final as rs None = int (length rs)"
proof (induction rs)
  case (Cons r rs)
  show ?case
  proof (cases "final_outcome as r")
    case None
    then show ?thesis using Cons by (simp add: count_final_def)
  next
    case (Some oc)
    then show ?thesis using Cons by (cases oc) (simp_all add: count_final_def)
  qed
qed (simp add: count_final_def)

subsection \<open>Two counts of the runs that passed\<close>

lemma add_passed_set:
  "set (add_passed p as) = set p \<union> ra_execution_run_id ` {a \<in> set as. succeeded a}"
  by (induction as arbitrary: p) (auto simp: add_passed_def succeeded_def)

lemma add_passed_distinct: "distinct p \<Longrightarrow> distinct (add_passed p as)"
  by (induction as arbitrary: p) (auto simp: add_passed_def)

text \<open>The runs that passed in the rounds up to the last one of the list.\<close>

fun passed_after :: "run_attempt list \<Rightarrow> int list \<Rightarrow> ident list \<Rightarrow> ident list" where
  "passed_after attempts [] p = p"
| "passed_after attempts (rnd # rnds) p =
     passed_after attempts rnds (add_passed p (runAttemptsForExecutionRound attempts rnd))"

lemma passed_after_set:
  "set (passed_after attempts rnds p) = set p \<union>
     (\<Union>rnd\<in>set rnds. ra_execution_run_id ` {a \<in> set (runAttemptsForExecutionRound attempts rnd). succeeded a})"
  by (induction rnds arbitrary: p) (auto simp: add_passed_set)

lemma passed_after_distinct: "distinct p \<Longrightarrow> distinct (passed_after attempts rnds p)"
  by (induction rnds arbitrary: p) (simp_all add: add_passed_distinct)

lemma passed_after_grows: "length p \<le> length (passed_after attempts rnds p)" if "distinct p"
  using that passed_after_distinct [OF that, of attempts rnds]
  by (intro length_le_of_subset) (auto simp: passed_after_set)

lemma summarize_rounds_nth:
  "k < length rnds \<Longrightarrow> summarize_rounds b runs attempts rnds p ! k =
     summarize_round b runs attempts (rnds ! k) (passed_after attempts (take (Suc k) rnds) p)"
proof (induction rnds arbitrary: k p)
  case (Cons rnd rnds)
  then show ?case by (cases k) (simp_all add: Let_def)
qed simp

lemma length_summarize_rounds [simp]: "length (summarize_rounds b runs attempts rnds p) = length rnds"
  by (induction rnds arbitrary: p) (simp_all add: Let_def)

lemma overall_passed_of:
  "sm_overall_passed (summarize_round b runs attempts rnd p) = int (length p)"
  by (simp add: summarize_round_def Let_def)

text \<open>The overall count never falls from one round to a later one.\<close>

lemma overall_passed_mono:
  assumes "j \<le> k" "k < length (summarizeRunBatchRounds b runs attempts)"
  shows "sm_overall_passed (summarizeRunBatchRounds b runs attempts ! j) \<le>
    sm_overall_passed (summarizeRunBatchRounds b runs attempts ! k)"
proof -
  let ?rs = "runBatchRoundNumbers b runs attempts"
  have "length (passed_after attempts (take (Suc j) ?rs) []) \<le>
      length (passed_after attempts (take (Suc k) ?rs) [])"
    using assms(1) set_take_subset_set_take [of "Suc j" "Suc k" ?rs]
    by (intro length_le_of_subset) (auto simp: passed_after_set passed_after_distinct)
  then show ?thesis
    using assms by (simp add: summarizeRunBatchRounds_def summarize_rounds_nth overall_passed_of)
qed

lemma round_numbers_set:
  "set (runBatchRoundNumbers b runs attempts) = {1, rb_current_round b} \<union>
     runAttemptExecutionRound ` set attempts \<union>
     {n. \<exists>r\<in>set runs. er_execution_round r = Some n \<or> (er_held_round r = Some n \<and> 0 < n)}"
  unfolding runBatchRoundNumbers_def set_sort set_dedup set_append set_concat set_map
  by (auto split: option.splits if_splits)

lemma round_numbers_sorted:
  "sorted (runBatchRoundNumbers b runs attempts) \<and> distinct (runBatchRoundNumbers b runs attempts)"
  unfolding runBatchRoundNumbers_def by (simp only: sorted_sort distinct_sort distinct_dedup simp_thms)

text \<open>
  After its success a run is not attempted again. Then the count of the last round is the count of
  the final results.
\<close>

definition success_is_last :: "run_attempt list \<Rightarrow> bool" where
  "success_is_last attempts \<longleftrightarrow>
     (\<forall>a\<in>set attempts. \<forall>c\<in>set attempts. succeeded a \<longrightarrow>
        ra_execution_run_id c = ra_execution_run_id a \<longrightarrow> ra_attempt_number a \<le> ra_attempt_number c \<longrightarrow> c = a)"

lemma passed_all_rounds:
  assumes "success_is_last attempts"
  shows "set (passed_after attempts (runBatchRoundNumbers b runs attempts) []) =
    ra_execution_run_id ` {a \<in> set attempts. succeeded a}"
proof -
  have "\<exists>c\<in>set (runAttemptsForExecutionRound attempts (runAttemptExecutionRound a)).
      succeeded c \<and> ra_execution_run_id c = ra_execution_run_id a"
    if a: "a \<in> set attempts" "succeeded a" for a
  proof -
    obtain c where c: "c \<in> set (runAttemptsForExecutionRound attempts (runAttemptExecutionRound a))"
        "ra_execution_run_id c = ra_execution_run_id a" "ra_attempt_number a \<le> ra_attempt_number c"
      using round_attempts(3) [OF a(1) refl] by blast
    have "c = a"
      using assms a c(2,3) round_attempts(2) [OF c(1)] unfolding success_is_last_def by blast
    then show ?thesis using c(1) a(2) by blast
  qed
  note shown = this
  show ?thesis
  proof (intro subset_antisym subsetI)
    fix k assume "k \<in> set (passed_after attempts (runBatchRoundNumbers b runs attempts) [])"
    then obtain rnd c where "c \<in> set (runAttemptsForExecutionRound attempts rnd)" "succeeded c"
        "k = ra_execution_run_id c"
      unfolding passed_after_set by auto
    then show "k \<in> ra_execution_run_id ` {a \<in> set attempts. succeeded a}"
      using round_attempts(2) by blast
  next
    fix k assume "k \<in> ra_execution_run_id ` {a \<in> set attempts. succeeded a}"
    then obtain a where a: "a \<in> set attempts" "succeeded a" "k = ra_execution_run_id a" by blast
    have "runAttemptExecutionRound a \<in> set (runBatchRoundNumbers b runs attempts)"
      unfolding round_numbers_set using a(1) by blast
    moreover obtain c where "c \<in> set (runAttemptsForExecutionRound attempts (runAttemptExecutionRound a))"
        "succeeded c" "ra_execution_run_id c = k"
      using shown [OF a(1,2)] a(3) by auto
    ultimately show "k \<in> set (passed_after attempts (runBatchRoundNumbers b runs attempts) [])"
      unfolding passed_after_set by (intro UnI2 UN_I [of "runAttemptExecutionRound a"]) auto
  qed
qed

lemma passed_ids:
  assumes "stored_runs runs attempts"
  shows "ra_execution_run_id ` {a \<in> set attempts. succeeded a} =
    set (map er_id (filter (\<lambda>r. final_outcome attempts r = Some Succeeded) runs))"
proof
  show "ra_execution_run_id ` {a \<in> set attempts. succeeded a} \<subseteq>
      set (map er_id (filter (\<lambda>r. final_outcome attempts r = Some Succeeded) runs))"
  proof
    fix k assume "k \<in> ra_execution_run_id ` {a \<in> set attempts. succeeded a}"
    then obtain a where a: "a \<in> set attempts" "succeeded a" "k = ra_execution_run_id a" by blast
    then obtain r where "r \<in> set runs" "er_id r = k"
      using assms unfolding stored_runs_def by force
    moreover have "final_outcome attempts r = Some Succeeded"
      unfolding final_succeeded using a \<open>er_id r = k\<close> by auto
    ultimately show "k \<in> set (map er_id (filter (\<lambda>r. final_outcome attempts r = Some Succeeded) runs))"
      by auto
  qed
next
  show "set (map er_id (filter (\<lambda>r. final_outcome attempts r = Some Succeeded) runs)) \<subseteq>
      ra_execution_run_id ` {a \<in> set attempts. succeeded a}"
    unfolding final_succeeded by (auto simp flip: image_iff) (metis (mono_tags, lifting) imageI mem_Collect_eq)
qed

lemma overall_is_final:
  assumes "stored_runs runs attempts" "success_is_last attempts"
  shows "sm_overall_passed (last (summarizeRunBatchRounds b runs attempts)) =
    al_passed (summarizeRunBatchFinalResults b runs attempts)"
proof -
  let ?rs = "runBatchRoundNumbers b runs attempts"
  let ?S = "ra_execution_run_id ` {a \<in> set attempts. succeeded a}"
  have ne: "?rs \<noteq> []" using round_numbers_set [of b runs attempts] by force
  then have "summarizeRunBatchRounds b runs attempts \<noteq> []"
    by (simp add: summarizeRunBatchRounds_def flip: length_greater_0_conv)
  then have "last (summarizeRunBatchRounds b runs attempts) =
      summarizeRunBatchRounds b runs attempts ! (length ?rs - 1)"
    by (simp add: last_conv_nth summarizeRunBatchRounds_def)
  also have "\<dots> = summarize_round b runs attempts (?rs ! (length ?rs - 1)) (passed_after attempts ?rs [])"
    using ne by (simp add: summarizeRunBatchRounds_def summarize_rounds_nth)
  finally have "sm_overall_passed (last (summarizeRunBatchRounds b runs attempts)) =
      int (length (passed_after attempts ?rs []))"
    by (simp add: overall_passed_of)
  also have "\<dots> = int (card ?S)"
    using distinct_card [OF passed_after_distinct, of "[]" attempts ?rs]
      passed_all_rounds [OF assms(2), of b runs] by simp
  also have "?S = set (map er_id (filter (\<lambda>r. final_outcome attempts r = Some Succeeded) runs))"
    by (rule passed_ids [OF assms(1)])
  also have "card \<dots> = length (filter (\<lambda>r. final_outcome attempts r = Some Succeeded) runs)"
    using assms(1) distinct_card [of "map er_id (filter (\<lambda>r. final_outcome attempts r = Some Succeeded) runs)"]
    by (simp add: stored_runs_def distinct_map_filter)
  finally show ?thesis by (simp add: summarizeRunBatchFinalResults_def Let_def count_final_def)
qed

text \<open>Failing attempts are retried while the limit is not used up.\<close>

lemma statusAfterFailedAttempt_iff:
  "statusAfterFailedAttempt (js_int n) (js_int k) =
     (if n < 1 then Inl (PlainError ''attemptNumber'')
      else if k < 0 then Inl (PlainError ''retryLimit'')
      else Inr (if n \<le> k then R_Queued else R_Failed))"
  by (simp add: statusAfterFailedAttempt_def not_le)

end
