(* ===== verification/Schedule_Expression.thy ===== *)
theory Schedule_Expression
  imports Runner
begin

text \<open>
  Cron expressions of case suite schedules, \<open>packages/application/src/schedule-expression.ts\<close>: the
  parser of the five fields and the search for the next minute that matches. The time zone
  database behind \<open>Intl.DateTimeFormat\<close> is a parameter: for a zone it knows, the calendar fields
  of an instant. White space is the white space of the Latin-1 range. Numbers are read exactly: a
  number that JavaScript would round is far out of the range of its field.
\<close>

section \<open>Parsing\<close>

record schedule_parts =
  sc_minute :: "int list"
  sc_hour :: "int list"
  sc_day_of_month :: "int list"
  sc_month :: "int list"
  sc_day_of_week :: "int list"

definition is_space :: "char \<Rightarrow> bool" where
  "is_space c \<longleftrightarrow> (of_char c :: nat) \<in> {9, 10, 11, 12, 13, 32, 160}"

definition js_trim :: "string \<Rightarrow> string" where
  "js_trim s = rev (dropWhile is_space (rev (dropWhile is_space s)))"

text \<open>\<open>split(/\s+/)\<close>\<close>

function split_spaces :: "string \<Rightarrow> string list" where
  "split_spaces s =
     (let rest = dropWhile (\<lambda>c. \<not> is_space c) s
      in if rest = [] then [s]
         else takeWhile (\<lambda>c. \<not> is_space c) s # split_spaces (dropWhile is_space rest))"
  by auto
termination
proof (relation "measure length")
  fix s :: string and rest
  assume r: "rest = dropWhile (\<lambda>c. \<not> is_space c) s" "rest \<noteq> []"
  then have "is_space (hd rest)" using hd_dropWhile by metis
  then have "length (dropWhile is_space rest) < length rest"
    using r(2) by (cases rest) (auto simp: length_dropWhile_le less_Suc_eq_le)
  also have "length rest \<le> length s" unfolding r(1) by (rule length_dropWhile_le)
  finally show "(dropWhile is_space rest, s) \<in> measure length" by simp
qed simp

declare split_spaces.simps [simp del]

definition invalidCron :: "domain_error + 'a" where
  "invalidCron = Inl (DomainError ''SCHEDULE_CRON_INVALID'')"

definition parseInteger :: "string option \<Rightarrow> domain_error + int" where
  "parseInteger value =
     (case value of
        None \<Rightarrow> invalidCron
      | Some s \<Rightarrow> if s = [] \<or> \<not> list_all is_digit s then invalidCron else Inr (int (digits_value s)))"

definition parseValue :: "string option \<Rightarrow> int \<Rightarrow> int \<Rightarrow> bool \<Rightarrow> domain_error + int" where
  "parseValue value lo hi sundayAlias =
     and_then (parseInteger value) (\<lambda>parsed.
       if sundayAlias \<and> parsed = 7 then Inr 0
       else if parsed < lo \<or> hi < parsed then invalidCron
       else Inr parsed)"

definition part :: "string list \<Rightarrow> nat \<Rightarrow> string option" where
  "part ps n = (if n < length ps then Some (ps ! n) else None)"

text \<open>\<open>for (current = start; current <= end; current += step)\<close>\<close>

function progression :: "int \<Rightarrow> int \<Rightarrow> int \<Rightarrow> int list" where
  "progression current final step =
     (if current \<le> final \<and> 0 < step then current # progression (current + step) final step else [])"
  by auto
termination by (relation "measure (\<lambda>(c, f, s). nat (f - c + 1))") auto

declare progression.simps [simp del]

definition segment_bounds :: "string \<Rightarrow> int \<Rightarrow> int \<Rightarrow> bool \<Rightarrow> domain_error + (int \<times> int)" where
  "segment_bounds rangePart lo hi sundayAlias =
     (if rangePart = ''*'' then Inr (lo, hi)
      else
        let bounds = split_char CHR ''-'' rangePart
        in and_then (parseValue (part bounds 0) lo hi sundayAlias) (\<lambda>start.
           and_then (if length bounds = 1 then Inr start
                     else parseValue (part bounds 1) lo hi sundayAlias) (\<lambda>final.
             if final < start then invalidCron else Inr (start, final))))"

definition segment_step :: "string option \<Rightarrow> int \<Rightarrow> int \<Rightarrow> domain_error + int" where
  "segment_step stepPart lo hi =
     and_then (case stepPart of None \<Rightarrow> Inr 1 | Some s \<Rightarrow> parseInteger (Some s)) (\<lambda>step.
       if step < 1 \<or> hi - lo + 1 < step then invalidCron else Inr step)"

definition parse_segment :: "string \<Rightarrow> int \<Rightarrow> int \<Rightarrow> bool \<Rightarrow> domain_error + int list" where
  "parse_segment segment lo hi sundayAlias =
     (let parts = split_char CHR ''/'' segment
      in and_then (segment_step (part parts 1) lo hi) (\<lambda>step.
         and_then (segment_bounds (hd parts) lo hi sundayAlias) (\<lambda>(start, final).
           Inr (progression start final step))))"

fun parse_segments :: "string list \<Rightarrow> int \<Rightarrow> int \<Rightarrow> bool \<Rightarrow> int list \<Rightarrow> domain_error + int list" where
  "parse_segments [] lo hi sundayAlias selected = Inr selected"
| "parse_segments (s # ss) lo hi sundayAlias selected =
     and_then (parse_segment s lo hi sundayAlias) (\<lambda>ns.
       parse_segments ss lo hi sundayAlias (fold List.insert ns selected))"

definition parseField :: "string \<Rightarrow> int \<Rightarrow> int \<Rightarrow> bool \<Rightarrow> domain_error + int list" where
  "parseField value lo hi sundayAlias =
     and_then (parse_segments (split_char CHR '','' value) lo hi sundayAlias []) (\<lambda>selected.
       if selected = [] then invalidCron else Inr selected)"

definition parseCronExpression :: "string \<Rightarrow> domain_error + schedule_parts" where
  "parseCronExpression expression =
     (let fields = split_spaces (js_trim expression)
      in if length fields \<noteq> 5 then invalidCron
         else
           and_then (parseField (fields ! 0) 0 59 False) (\<lambda>minute.
           and_then (parseField (fields ! 1) 0 23 False) (\<lambda>hour.
           and_then (parseField (fields ! 2) 1 31 False) (\<lambda>dayOfMonth.
           and_then (parseField (fields ! 3) 1 12 False) (\<lambda>month.
           and_then (parseField (fields ! 4) 0 6 True) (\<lambda>dayOfWeek.
             Inr \<lparr>sc_minute = minute, sc_hour = hour, sc_day_of_month = dayOfMonth,
                  sc_month = month, sc_day_of_week = dayOfWeek\<rparr>))))))"

section \<open>The next occurrence\<close>

record date_fields =
  df_minute :: int
  df_hour :: int
  df_day_of_month :: int
  df_month :: int
  df_day_of_week :: int

type_synonym time_zones = "string \<Rightarrow> (time \<Rightarrow> date_fields) option"

definition MAXIMUM_SEARCH_MINUTES :: int where
  "MAXIMUM_SEARCH_MINUTES = 366 * 24 * 60"

definition validateCronExpression :: "time_zones \<Rightarrow> string \<Rightarrow> string \<Rightarrow> domain_error + unit" where
  "validateCronExpression zones expression timeZone =
     and_then (parseCronExpression expression) (\<lambda>_.
       if zones timeZone = None then Inl (DomainError ''SCHEDULE_TIME_ZONE_INVALID'') else Inr ())"

definition schedule_matches :: "schedule_parts \<Rightarrow> date_fields \<Rightarrow> bool" where
  "schedule_matches p f \<longleftrightarrow>
     df_minute f \<in> set (sc_minute p) \<and> df_hour f \<in> set (sc_hour p) \<and>
     df_day_of_month f \<in> set (sc_day_of_month p) \<and> df_month f \<in> set (sc_month p) \<and>
     df_day_of_week f \<in> set (sc_day_of_week p)"

function search_minutes ::
  "schedule_parts \<Rightarrow> (time \<Rightarrow> date_fields) \<Rightarrow> int \<Rightarrow> time \<Rightarrow> domain_error + time" where
  "search_minutes p cal index candidate =
     (if MAXIMUM_SEARCH_MINUTES \<le> index
        then Inl (DomainError ''SCHEDULE_NEXT_TRIGGER_UNAVAILABLE'')
      else if schedule_matches p (cal candidate) then Inr candidate
      else search_minutes p cal (index + 1) (candidate + 60000))"
  by auto
termination
  by (relation "measure (\<lambda>(p, cal, i, c). nat (MAXIMUM_SEARCH_MINUTES - i))") auto

declare search_minutes.simps [simp del]

definition nextCronOccurrence :: "time_zones \<Rightarrow> string \<Rightarrow> string \<Rightarrow> time \<Rightarrow> domain_error + time" where
  "nextCronOccurrence zones expression timeZone after =
     and_then (parseCronExpression expression) (\<lambda>schedule.
     and_then (validateCronExpression zones expression timeZone) (\<lambda>_.
       search_minutes schedule (the (zones timeZone)) 0 (after div 60000 * 60000 + 60000)))"

section \<open>What the parser accepts\<close>

lemma invalidCron_neq [simp]: "invalidCron \<noteq> Inr x" "Inr x \<noteq> invalidCron"
  by (simp_all add: invalidCron_def)

text \<open>The loop enumerates the arithmetic progression.\<close>

lemma progression_set:
  "0 < step \<Longrightarrow> n \<in> set (progression start final step) \<longleftrightarrow>
     start \<le> n \<and> n \<le> final \<and> step dvd (n - start)"
proof (induction start final step rule: progression.induct)
  case (1 start final step)
  show ?case
  proof (cases "start \<le> final")
    case True
    have "n \<in> set (progression start final step) \<longleftrightarrow>
        n = start \<or> (start + step \<le> n \<and> n \<le> final \<and> step dvd (n - (start + step)))"
      using 1 True by (simp add: progression.simps [of start])
    also have "step dvd (n - (start + step)) \<longleftrightarrow> step dvd (n - start)"
      using dvd_add_left_iff [of step step "n - (start + step)"] by (simp add: algebra_simps)
    also have "n = start \<or> (start + step \<le> n \<and> n \<le> final \<and> step dvd (n - start)) \<longleftrightarrow>
        start \<le> n \<and> n \<le> final \<and> step dvd (n - start)"
    proof -
      have "start + step \<le> n" if "start \<le> n" "n \<noteq> start" "step dvd (n - start)"
        using zdvd_imp_le [OF that(3)] that(1,2) by simp
      then show ?thesis using True 1(2) by auto
    qed
    finally show ?thesis .
  next
    case False
    then show ?thesis by (simp add: progression.simps [of start])
  qed
qed

lemma parseValue_bounds:
  assumes "parseValue v lo hi sun = Inr n" "sun \<longrightarrow> lo \<le> 0 \<and> 0 \<le> hi"
  shows "lo \<le> n \<and> n \<le> hi"
  using assms by (auto simp: parseValue_def and_then_eq_Inr split: if_splits)

lemma segment_bounds_ok:
  assumes "segment_bounds r lo hi sun = Inr (a, b)" "sun \<longrightarrow> lo \<le> 0 \<and> 0 \<le> hi" "lo \<le> hi"
  shows "lo \<le> a \<and> a \<le> b \<and> b \<le> hi"
  using assms parseValue_bounds [OF _ assms(2)]
  by (fastforce simp: segment_bounds_def Let_def and_then_eq_Inr split: if_splits)

lemma parse_segment_Inr:
  assumes "parse_segment s lo hi sun = Inr ns" "sun \<longrightarrow> lo \<le> 0 \<and> 0 \<le> hi" "lo \<le> hi"
  obtains a b step where "lo \<le> a" "a \<le> b" "b \<le> hi" "1 \<le> step" "step \<le> hi - lo + 1"
    "segment_step (part (split_char CHR ''/'' s) 1) lo hi = Inr step"
    "segment_bounds (hd (split_char CHR ''/'' s)) lo hi sun = Inr (a, b)"
    "ns = progression a b step"
proof -
  obtain step a b where st: "segment_step (part (split_char CHR ''/'' s) 1) lo hi = Inr step"
    "segment_bounds (hd (split_char CHR ''/'' s)) lo hi sun = Inr (a, b)"
    "ns = progression a b step"
    using assms(1) by (auto simp: parse_segment_def Let_def and_then_eq_Inr)
  have "1 \<le> step \<and> step \<le> hi - lo + 1"
    using st(1) by (auto simp: segment_step_def and_then_eq_Inr split: if_splits)
  with segment_bounds_ok [OF st(2) assms(2,3)] st that show thesis by blast
qed

text \<open>What one segment selects, read off its text.\<close>

definition segment_selects :: "string \<Rightarrow> int \<Rightarrow> int \<Rightarrow> bool \<Rightarrow> int \<Rightarrow> bool" where
  "segment_selects s lo hi sun n \<longleftrightarrow>
     (case (segment_step (part (split_char CHR ''/'' s) 1) lo hi,
            segment_bounds (hd (split_char CHR ''/'' s)) lo hi sun) of
        (Inr step, Inr (a, b)) \<Rightarrow> a \<le> n \<and> n \<le> b \<and> step dvd (n - a)
      | _ \<Rightarrow> False)"

lemma fold_insert_set: "set (fold List.insert ns xs) = set ns \<union> set xs"
  by (induction ns arbitrary: xs) auto

lemma parse_segments_set:
  assumes "parse_segments ss lo hi sun sel = Inr res" "sun \<longrightarrow> lo \<le> 0 \<and> 0 \<le> hi" "lo \<le> hi"
  shows "n \<in> set res \<longleftrightarrow> n \<in> set sel \<or> (\<exists>s\<in>set ss. segment_selects s lo hi sun n)"
  using assms(1)
proof (induction ss arbitrary: sel)
  case Nil
  then show ?case by simp
next
  case (Cons s ss)
  obtain ns where ns: "parse_segment s lo hi sun = Inr ns"
      "parse_segments ss lo hi sun (fold List.insert ns sel) = Inr res"
    using Cons.prems by (auto simp: and_then_eq_Inr)
  obtain a b step where p: "1 \<le> step"
    "segment_step (part (split_char CHR ''/'' s) 1) lo hi = Inr step"
    "segment_bounds (hd (split_char CHR ''/'' s)) lo hi sun = Inr (a, b)"
    "ns = progression a b step"
    using parse_segment_Inr [OF ns(1) assms(2,3)] by metis
  have "n \<in> set ns \<longleftrightarrow> segment_selects s lo hi sun n"
    using p by (simp add: progression_set segment_selects_def)
  then show ?case using Cons.IH [OF ns(2)] by (auto simp: fold_insert_set)
qed

text \<open>
  A field that is accepted selects the numbers its segments describe, at least one, all of them
  within the range of the field.
\<close>

lemma parseField_set:
  assumes "parseField v lo hi sun = Inr ns" "sun \<longrightarrow> lo \<le> 0 \<and> 0 \<le> hi" "lo \<le> hi"
  shows "n \<in> set ns \<longleftrightarrow> (\<exists>s\<in>set (split_char CHR '','' v). segment_selects s lo hi sun n)"
    and "ns \<noteq> []" and "set ns \<subseteq> {lo..hi}"
proof -
  have p: "parse_segments (split_char CHR '','' v) lo hi sun [] = Inr ns" and ne: "ns \<noteq> []"
    using assms(1) by (auto simp: parseField_def and_then_eq_Inr split: if_splits)
  show sel: "n \<in> set ns \<longleftrightarrow> (\<exists>s\<in>set (split_char CHR '','' v). segment_selects s lo hi sun n)" for n
    using parse_segments_set [OF p assms(2,3)] by simp
  show "ns \<noteq> []" by (rule ne)
  show "set ns \<subseteq> {lo..hi}"
    unfolding subset_iff sel
    by (force simp: segment_selects_def dest!: segment_bounds_ok [OF _ assms(2,3)]
        split: sum.splits prod.splits)
qed

text \<open>
  The alias 7 of Sunday is replaced before a range is read: \<open>0-7\<close> is Sunday alone and \<open>1-7\<close> is
  rejected, where both mean every day.
\<close>

lemma sunday_alias_in_ranges:
  "parseField ''0-7'' 0 6 True = Inr [0]" "parseField ''1-7'' 0 6 True = invalidCron"
  by code_simp+

section \<open>What the search finds\<close>

lemma search_minutes_Inr:
  assumes "search_minutes p cal i c = Inr t" "i \<le> MAXIMUM_SEARCH_MINUTES"
  shows "\<exists>k. 0 \<le> k \<and> k < MAXIMUM_SEARCH_MINUTES - i \<and> t = c + k * 60000 \<and>
    schedule_matches p (cal t) \<and> (\<forall>j. 0 \<le> j \<longrightarrow> j < k \<longrightarrow> \<not> schedule_matches p (cal (c + j * 60000)))"
  using assms
proof (induction p cal i c rule: search_minutes.induct)
  case (1 p cal i c)
  have i: "i < MAXIMUM_SEARCH_MINUTES"
    using 1(2) by (simp add: search_minutes.simps [of p cal i c] split: if_splits)
  show ?case
  proof (cases "schedule_matches p (cal c)")
    case True
    then have "t = c" using 1(2) i by (simp add: search_minutes.simps [of p cal i c])
    then show ?thesis using True i by (intro exI [of _ 0]) simp
  next
    case False
    then have "search_minutes p cal (i + 1) (c + 60000) = Inr t"
      using 1(2) i by (simp add: search_minutes.simps [of p cal i c])
    then obtain k where k: "0 \<le> k" "k < MAXIMUM_SEARCH_MINUTES - (i + 1)" "t = c + 60000 + k * 60000"
        "schedule_matches p (cal t)"
        "\<And>j. 0 \<le> j \<Longrightarrow> j < k \<Longrightarrow> \<not> schedule_matches p (cal (c + 60000 + j * 60000))"
      using 1(1) False i by auto
    have "\<not> schedule_matches p (cal (c + j * 60000))" if "0 \<le> j" "j < k + 1" for j
    proof (cases "j = 0")
      case False
      then show ?thesis using k(5) [of "j - 1"] that by (simp add: algebra_simps)
    qed (use False in simp)
    then show ?thesis using k by (intro exI [of _ "k + 1"]) (auto simp: algebra_simps)
  qed
qed

lemma search_minutes_Inl:
  assumes "search_minutes p cal i c = Inl e"
  shows "e = DomainError ''SCHEDULE_NEXT_TRIGGER_UNAVAILABLE'' \<and>
    (\<forall>j. 0 \<le> j \<longrightarrow> j < MAXIMUM_SEARCH_MINUTES - i \<longrightarrow> \<not> schedule_matches p (cal (c + j * 60000)))"
  using assms
proof (induction p cal i c rule: search_minutes.induct)
  case (1 p cal i c)
  show ?case
  proof (cases "MAXIMUM_SEARCH_MINUTES \<le> i")
    case True
    then show ?thesis using 1(2) by (simp add: search_minutes.simps [of p cal i c])
  next
    case i: False
    have no: "\<not> schedule_matches p (cal c)"
      using 1(2) i by (auto simp: search_minutes.simps [of p cal i c] split: if_splits)
    then have "search_minutes p cal (i + 1) (c + 60000) = Inl e"
      using 1(2) i by (simp add: search_minutes.simps [of p cal i c])
    then have ih: "e = DomainError ''SCHEDULE_NEXT_TRIGGER_UNAVAILABLE''"
        "\<And>j. 0 \<le> j \<Longrightarrow> j < MAXIMUM_SEARCH_MINUTES - (i + 1) \<Longrightarrow>
          \<not> schedule_matches p (cal (c + 60000 + j * 60000))"
      using 1(1) i no by auto
    have "\<not> schedule_matches p (cal (c + j * 60000))" if "0 \<le> j" "j < MAXIMUM_SEARCH_MINUTES - i" for j
    proof (cases "j = 0")
      case False
      then show ?thesis using ih(2) [of "j - 1"] that by (simp add: algebra_simps)
    qed (use no in simp)
    then show ?thesis using ih(1) by blast
  qed
qed

text \<open>The whole minutes after an instant are the candidates of the search.\<close>

lemma minute_after:
  fixes after u :: int
  assumes "after < u" "60000 dvd u"
  obtains j where "0 \<le> j" "u = after div 60000 * 60000 + 60000 + j * 60000"
proof -
  obtain q where q: "u = 60000 * q" using assms(2) by (elim dvdE)
  have "after div 60000 < q" using assms(1) q by (simp add: div_less_iff_less_mult)
  then show thesis using that [of "q - after div 60000 - 1"] q by (simp add: algebra_simps)
qed

lemma nextCronOccurrence_Inr:
  assumes "nextCronOccurrence zones e z after = Inr t"
  obtains p cal where "parseCronExpression e = Inr p" "zones z = Some cal"
    "after < t" "t \<le> after + MAXIMUM_SEARCH_MINUTES * 60000" "60000 dvd t"
    "schedule_matches p (cal t)"
    "\<And>u. after < u \<Longrightarrow> u < t \<Longrightarrow> 60000 dvd u \<Longrightarrow> \<not> schedule_matches p (cal u)"
proof -
  obtain p cal where p: "parseCronExpression e = Inr p" "zones z = Some cal"
      "search_minutes p cal 0 (after div 60000 * 60000 + 60000) = Inr t"
    using assms by (auto simp: nextCronOccurrence_def validateCronExpression_def and_then_eq_Inr
        split: if_splits)
  let ?c = "after div 60000 * 60000 + 60000"
  obtain k where k: "0 \<le> k" "k < MAXIMUM_SEARCH_MINUTES" "t = ?c + k * 60000"
      "schedule_matches p (cal t)"
      "\<And>j. 0 \<le> j \<Longrightarrow> j < k \<Longrightarrow> \<not> schedule_matches p (cal (?c + j * 60000))"
    using search_minutes_Inr [OF p(3)] by (auto simp: MAXIMUM_SEARCH_MINUTES_def)
  have c: "after < ?c" "?c \<le> after + 60000"
    using mult_div_mod_eq [of 60000 after] pos_mod_bound [of 60000 after] pos_mod_sign [of 60000 after]
    by (simp_all add: algebra_simps)
  have "\<not> schedule_matches p (cal u)" if u: "after < u" "u < t" "60000 dvd u" for u
  proof -
    obtain j where "0 \<le> j" "u = ?c + j * 60000" using minute_after [OF u(1,3)] .
    then show ?thesis using k(3,5) u(2) by simp
  qed
  moreover have "60000 dvd t" unfolding k(3) by simp
  moreover have "after < t" "t \<le> after + MAXIMUM_SEARCH_MINUTES * 60000"
    using k(1-3) c by linarith+
  ultimately show thesis using that p(1,2) k(4) by blast
qed

lemma nextCronOccurrence_none:
  assumes "nextCronOccurrence zones e z after = Inl (DomainError ''SCHEDULE_NEXT_TRIGGER_UNAVAILABLE'')"
    "parseCronExpression e = Inr p" "zones z = Some cal"
    "after < u" "u \<le> after + MAXIMUM_SEARCH_MINUTES * 60000" "60000 dvd u"
  shows "\<not> schedule_matches p (cal u)"
proof -
  let ?c = "after div 60000 * 60000 + 60000"
  have "search_minutes p cal 0 ?c = Inl (DomainError ''SCHEDULE_NEXT_TRIGGER_UNAVAILABLE'')"
    using assms(1-3) by (simp add: nextCronOccurrence_def validateCronExpression_def)
  from search_minutes_Inl [OF this]
  have no: "\<And>j. 0 \<le> j \<Longrightarrow> j < MAXIMUM_SEARCH_MINUTES \<Longrightarrow> \<not> schedule_matches p (cal (?c + j * 60000))"
    by simp
  obtain j where j: "0 \<le> j" "u = ?c + j * 60000" using minute_after [OF assms(4,6)] .
  have "after < ?c"
    using mult_div_mod_eq [of 60000 after] pos_mod_bound [of 60000 after] by (simp add: algebra_simps)
  then have "j < MAXIMUM_SEARCH_MINUTES" using j(2) assms(5) by linarith
  then show ?thesis using no j by simp
qed

end
