(* ===== verification/Calls.thy ===== *)
theory Calls
  imports Prelude
begin

text \<open>
  Application services over a repository. A service makes a sequence of calls; before each of them
  the other processes of the control plane may change the store (\<open>interference\<close>), so what is proved of
  a service holds under every interleaving with them. The store is a type parameter: the services of
  the execution and of identities have different repositories.
\<close>

section \<open>Calls of a service\<close>

record 's service_world =
  wd_store :: 's
  wd_calls :: nat

text \<open>A call throws (\<open>Inl\<close> the message) or returns; what it did to the store stays in both cases.\<close>

type_synonym ('s, 'z, 'e, 'a) svc =
  "('s, 'z) service_world_scheme \<Rightarrow> ('e + 'a) \<times> ('s, 'z) service_world_scheme"

text \<open>What the other processes do to the store before the n-th call.\<close>

type_synonym 's interference = "nat \<Rightarrow> 's \<Rightarrow> 's"

definition svc_return :: "'a \<Rightarrow> ('s, 'z, 'e, 'a) svc" where
  "svc_return x w = (Inr x, w)"

definition svc_bind :: "('s, 'z, 'e, 'a) svc \<Rightarrow> ('a \<Rightarrow> ('s, 'z, 'e, 'b) svc) \<Rightarrow> ('s, 'z, 'e, 'b) svc" where
  "svc_bind m f w = (case m w of (Inl e, w') \<Rightarrow> (Inl e, w') | (Inr a, w') \<Rightarrow> f a w')"

definition svc_catch :: "('s, 'z, 'e, 'a) svc \<Rightarrow> ('e \<Rightarrow> ('s, 'z, 'e, 'a) svc) \<Rightarrow> ('s, 'z, 'e, 'a) svc" where
  "svc_catch m h w = (case m w of (Inl e, w') \<Rightarrow> h e w' | (Inr a, w') \<Rightarrow> (Inr a, w'))"

definition svc_call :: "(nat \<Rightarrow> 'e + 'a) \<Rightarrow> ('s, 'z, 'e, 'a) svc" where
  "svc_call g w = (g (wd_calls w), w\<lparr>wd_calls := Suc (wd_calls w)\<rparr>)"

definition svc_read :: "(nat \<Rightarrow> 'a) \<Rightarrow> ('s, 'z, 'e, 'a) svc" where
  "svc_read g = svc_call (\<lambda>n. Inr (g n))"

definition svc_store :: "'s interference \<Rightarrow> (nat \<Rightarrow> 's \<Rightarrow> ('e + 'a) \<times> 's) \<Rightarrow> ('s, 'z, 'e, 'a) svc" where
  "svc_store others f w =
     (let (r, t) = f (wd_calls w) (others (wd_calls w) (wd_store w))
      in (r, w\<lparr>wd_store := t, wd_calls := Suc (wd_calls w)\<rparr>))"

text \<open>Calls of the repository: an update returns whether it changed its row, a transaction may throw.\<close>

definition repo_update :: "'s interference \<Rightarrow> ('s \<Rightarrow> 'a \<times> 's) \<Rightarrow> ('s, 'z, 'e, 'a) svc" where
  "repo_update others f = svc_store others (\<lambda>_ s. let (b, t) = f s in (Inr b, t))"

definition repo_transaction ::
  "'s interference \<Rightarrow> (domain_error \<Rightarrow> 'e) \<Rightarrow> ('s \<Rightarrow> (domain_error + 'a) \<times> 's) \<Rightarrow> ('s, 'z, 'e, 'a) svc" where
  "repo_transaction others g f = svc_store others (\<lambda>_ s.
     let (r, t) = f s in (case r of Inl x \<Rightarrow> Inl (g x) | Inr a \<Rightarrow> Inr a, t))"

definition when_true :: "bool \<Rightarrow> ('s, 'z, 'e, unit) svc \<Rightarrow> ('s, 'z, 'e, unit) svc" where
  "when_true b m = (if b then m else svc_return ())"

subsection \<open>What a call keeps\<close>

text \<open>
  Triples in the style of rely and guarantee: from a store with \<open>P\<close> a call that returns \<open>a\<close> ends in a
  store with \<open>Q a\<close>, one that throws in a store with \<open>E\<close>. The precondition of a call of the store is
  stable under what the others do.
\<close>

definition svc_valid ::
  "('s \<Rightarrow> bool) \<Rightarrow> ('s, 'z, 'e, 'a) svc \<Rightarrow> ('a \<Rightarrow> 's \<Rightarrow> bool) \<Rightarrow> ('s \<Rightarrow> bool) \<Rightarrow> bool" where
  "svc_valid P m Q E \<longleftrightarrow> (\<forall>w r w'. P (wd_store w) \<longrightarrow> m w = (r, w') \<longrightarrow>
     (case r of Inl x \<Rightarrow> E (wd_store w') | Inr a \<Rightarrow> Q a (wd_store w')))"

definition stable_env :: "'s interference \<Rightarrow> ('s \<Rightarrow> bool) \<Rightarrow> bool" where
  "stable_env others P \<longleftrightarrow> (\<forall>n s. P s \<longrightarrow> P (others n s))"

lemma svc_validI:
  assumes "\<And>w x w'. P (wd_store w) \<Longrightarrow> m w = (Inl x, w') \<Longrightarrow> E (wd_store w')"
    "\<And>w a w'. P (wd_store w) \<Longrightarrow> m w = (Inr a, w') \<Longrightarrow> Q a (wd_store w')"
  shows "svc_valid P m Q E"
  unfolding svc_valid_def
proof (intro allI impI)
  fix w r w' assume p: "P (wd_store w)" and m: "m w = (r, w')"
  show "case r of Inl x \<Rightarrow> E (wd_store w') | Inr a \<Rightarrow> Q a (wd_store w')"
    using assms(1) [OF p] assms(2) [OF p] m by (cases r) simp_all
qed

lemma svc_valid_Inl: "svc_valid P m Q E \<Longrightarrow> P (wd_store w) \<Longrightarrow> m w = (Inl x, w') \<Longrightarrow> E (wd_store w')"
  unfolding svc_valid_def by fastforce

lemma svc_valid_Inr: "svc_valid P m Q E \<Longrightarrow> P (wd_store w) \<Longrightarrow> m w = (Inr a, w') \<Longrightarrow> Q a (wd_store w')"
  unfolding svc_valid_def by fastforce

lemma valid_pre: "svc_valid P m Q E \<Longrightarrow> (\<And>s. P' s \<Longrightarrow> P s) \<Longrightarrow> svc_valid P' m Q E"
  unfolding svc_valid_def by blast

lemma valid_False: "(\<And>s. \<not> P s) \<Longrightarrow> svc_valid P m Q E"
  by (simp add: svc_valid_def)

lemma valid_return: "(\<And>s. P s \<Longrightarrow> Q x s) \<Longrightarrow> svc_valid P (svc_return x) Q E"
  by (rule svc_validI) (simp_all add: svc_return_def)

lemma valid_bind:
  assumes "svc_valid P m R E" "\<And>a. svc_valid (R a) (f a) Q E"
  shows "svc_valid P (svc_bind m f) Q E"
proof (rule svc_validI)
  fix w x w' assume p: "P (wd_store w)" and m: "svc_bind m f w = (Inl x, w')"
  from m consider "m w = (Inl x, w')" | a u where "m w = (Inr a, u)" "f a u = (Inl x, w')"
    by (auto simp: svc_bind_def split: prod.splits sum.splits)
  then show "E (wd_store w')"
  proof cases
    case 1
    then show ?thesis using svc_valid_Inl [OF assms(1) p] by blast
  next
    case 2
    then show ?thesis using svc_valid_Inr [OF assms(1) p] svc_valid_Inl [OF assms(2)] by blast
  qed
next
  fix w b w' assume p: "P (wd_store w)" and m: "svc_bind m f w = (Inr b, w')"
  from m obtain a u where "m w = (Inr a, u)" "f a u = (Inr b, w')"
    by (auto simp: svc_bind_def split: prod.splits sum.splits)
  then show "Q b (wd_store w')" using svc_valid_Inr [OF assms(1) p] svc_valid_Inr [OF assms(2)] by blast
qed

lemma valid_catch:
  assumes "svc_valid P m Q R" "\<And>x. svc_valid R (h x) Q E"
  shows "svc_valid P (svc_catch m h) Q E"
proof (rule svc_validI)
  fix w x w' assume p: "P (wd_store w)" and m: "svc_catch m h w = (Inl x, w')"
  from m obtain y u where "m w = (Inl y, u)" "h y u = (Inl x, w')"
    by (auto simp: svc_catch_def split: prod.splits sum.splits)
  then show "E (wd_store w')" using svc_valid_Inl [OF assms(1) p] svc_valid_Inl [OF assms(2)] by blast
next
  fix w b w' assume p: "P (wd_store w)" and m: "svc_catch m h w = (Inr b, w')"
  from m consider "m w = (Inr b, w')" | y u where "m w = (Inl y, u)" "h y u = (Inr b, w')"
    by (auto simp: svc_catch_def split: prod.splits sum.splits)
  then show "Q b (wd_store w')"
  proof cases
    case 1
    then show ?thesis using svc_valid_Inr [OF assms(1) p] by blast
  next
    case 2
    then show ?thesis using svc_valid_Inl [OF assms(1) p] svc_valid_Inr [OF assms(2)] by blast
  qed
qed

lemma valid_call: "svc_valid P (svc_call g) (\<lambda>_. P) P"
  by (rule svc_validI) (auto simp: svc_call_def)

lemma valid_read: "svc_valid P (svc_read g) (\<lambda>_. P) P"
  unfolding svc_read_def by (rule valid_call)

lemma valid_store:
  assumes "stable_env others P"
    "\<And>n s x t. P s \<Longrightarrow> f n s = (Inl x, t) \<Longrightarrow> E t"
    "\<And>n s a t. P s \<Longrightarrow> f n s = (Inr a, t) \<Longrightarrow> Q a t"
  shows "svc_valid P (svc_store others f) Q E"
proof (rule svc_validI)
  fix w x w' assume "P (wd_store w)" and m: "svc_store others f w = (Inl x, w')"
  then have p: "P (others (wd_calls w) (wd_store w))" using assms(1) by (simp add: stable_env_def)
  from m show "E (wd_store w')" by (auto simp: svc_store_def split: prod.splits intro: assms(2) [OF p])
next
  fix w a w' assume "P (wd_store w)" and m: "svc_store others f w = (Inr a, w')"
  then have p: "P (others (wd_calls w) (wd_store w))" using assms(1) by (simp add: stable_env_def)
  from m show "Q a (wd_store w')" by (auto simp: svc_store_def split: prod.splits intro: assms(3) [OF p])
qed

lemma valid_update:
  assumes "stable_env others P" "\<And>s b t. P s \<Longrightarrow> f s = (b, t) \<Longrightarrow> Q b t"
  shows "svc_valid P (repo_update others f) Q E"
  unfolding repo_update_def
  by (rule valid_store [OF assms(1)]) (auto split: prod.splits intro: assms(2))

lemma valid_transaction:
  assumes "stable_env others P"
    "\<And>s x t. P s \<Longrightarrow> f s = (Inl x, t) \<Longrightarrow> E t" "\<And>s a t. P s \<Longrightarrow> f s = (Inr a, t) \<Longrightarrow> Q a t"
  shows "svc_valid P (repo_transaction others g f) Q E"
  unfolding repo_transaction_def
  by (rule valid_store [OF assms(1)]) (auto split: prod.splits sum.splits intro: assms(2,3))

lemma valid_when:
  assumes "b \<Longrightarrow> svc_valid P m Q E" "\<not> b \<Longrightarrow> \<forall>s. P s \<longrightarrow> Q () s"
  shows "svc_valid P (when_true b m) Q E"
  using assms by (auto simp: when_true_def intro: valid_return)

lemma valid_result:
  assumes "svc_valid P m (\<lambda>_. Q) Q" "P (wd_store w)"
  shows "Q (wd_store (snd (m w)))"
proof (cases "fst (m w)")
  case (Inl x)
  then show ?thesis using svc_valid_Inl [OF assms, of x "snd (m w)"] by (metis prod.collapse)
next
  case (Inr a)
  then show ?thesis using svc_valid_Inr [OF assms, of a "snd (m w)"] by (metis prod.collapse)
qed

subsection \<open>Invariants of the store\<close>

abbreviation svc_keeps :: "('s \<Rightarrow> bool) \<Rightarrow> ('s, 'z, 'e, 'a) svc \<Rightarrow> bool" where
  "svc_keeps P m \<equiv> svc_valid P m (\<lambda>_. P) P"

named_theorems keeps_rules

lemma keeps_return [keeps_rules]: "svc_keeps P (svc_return x)"
  by (rule valid_return)

lemma keeps_bind [keeps_rules]: "svc_keeps P m \<Longrightarrow> (\<And>a. svc_keeps P (f a)) \<Longrightarrow> svc_keeps P (svc_bind m f)"
  by (rule valid_bind)

lemma keeps_catch [keeps_rules]: "svc_keeps P m \<Longrightarrow> (\<And>x. svc_keeps P (h x)) \<Longrightarrow> svc_keeps P (svc_catch m h)"
  by (rule valid_catch)

lemma keeps_when [keeps_rules]: "svc_keeps P m \<Longrightarrow> svc_keeps P (when_true b m)"
  by (rule valid_when) simp_all

lemmas [keeps_rules] = valid_call valid_read

text \<open>Calls that find nothing to do.\<close>

lemma dead_update:
  assumes "stable_env others P" "\<And>s. P s \<Longrightarrow> f s = (v, s)" "svc_keeps P (k v)"
  shows "svc_keeps P (svc_bind (repo_update others f) k)"
proof (rule valid_bind)
  show "svc_valid P (repo_update others f) (\<lambda>b s. b = v \<and> P s) P"
    by (rule valid_update [OF assms(1)]) (use assms(2) in fastforce)
  show "svc_valid (\<lambda>s. b = v \<and> P s) (k b) (\<lambda>_. P) P" for b
    using assms(3) by (auto simp: svc_valid_def)
qed

lemma dead_transaction:
  assumes "stable_env others P" "\<And>s. P s \<Longrightarrow> f s = (Inr v, s)" "svc_keeps P (k v)"
  shows "svc_keeps P (svc_bind (repo_transaction others g f) k)"
proof (rule valid_bind)
  show "svc_valid P (repo_transaction others g f) (\<lambda>b s. b = v \<and> P s) P"
    by (rule valid_transaction [OF assms(1)]) (use assms(2) in fastforce)+
  show "svc_valid (\<lambda>s. b = v \<and> P s) (k b) (\<lambda>_. P) P" for b
    using assms(3) by (auto simp: svc_valid_def)
qed

lemma when_false [simp]: "when_true False m = svc_return ()"
  by (simp add: when_true_def)

end
