(* ===== verification/Service.thy ===== *)
theory Service
  imports Exec_System Calls
begin

text \<open>
  Services over the execution store: invariants that the steps of the repository and the other
  processes keep are kept by the services.
\<close>

text \<open>Kept by the steps of the repository and by the others.\<close>

definition exec_invariant :: "store interference \<Rightarrow> (store \<Rightarrow> bool) \<Rightarrow> bool" where
  "exec_invariant others P \<longleftrightarrow>
     stable_env others P \<and> (\<forall>s t. P s \<longrightarrow> exec_step s t \<longrightarrow> P t)"

lemma keeps_update:
  "exec_invariant others P \<Longrightarrow> (\<And>s b t. f s = (b, t) \<Longrightarrow> exec_step s t) \<Longrightarrow> svc_keeps P (repo_update others f)"
  by (rule valid_update) (auto simp: exec_invariant_def)

lemma keeps_transaction:
  "exec_invariant others P \<Longrightarrow> (\<And>s r t. f s = (r, t) \<Longrightarrow> exec_step s t) \<Longrightarrow> svc_keeps P (repo_transaction others g f)"
  by (rule valid_transaction) (auto simp: exec_invariant_def)

end
