(* ===== verification/Decimal.thy ===== *)
theory Decimal
  imports Runner
begin

text \<open>
  Decimal numerals: \<open>String(n)\<close> of a natural number, \<open>padStart(2, "0")\<close>, and that \<open>Number\<close> reads the
  numeral back. Template literals and sequence names of several components use them.
\<close>

definition digit_char :: "nat \<Rightarrow> char" where
  "digit_char n = char_of (48 + n)"

fun show_nat :: "nat \<Rightarrow> string" where
  "show_nat n = (if n < 10 then [digit_char n] else show_nat (n div 10) @ [digit_char (n mod 10)])"

declare show_nat.simps [simp del]

definition show_int :: "int \<Rightarrow> string" where
  "show_int n = (if n < 0 then ''-'' @ show_nat (nat (- n)) else show_nat (nat n))"

text \<open>\<open>padStart(2, "0")\<close>.\<close>

definition pad2 :: "string \<Rightarrow> string" where
  "pad2 s = replicate (2 - length s) CHR ''0'' @ s"

lemma of_char_digit_char: "n < 10 \<Longrightarrow> of_char (digit_char n) = 48 + n"
  by (simp add: digit_char_def)

lemma is_digit_digit_char [simp]: "n < 10 \<Longrightarrow> is_digit (digit_char n)"
  by (simp add: is_digit_def of_char_digit_char)

lemma show_nat_digits: "list_all is_digit (show_nat n)"
proof (induction n rule: show_nat.induct)
  case (1 n)
  then show ?case by (subst show_nat.simps) simp
qed

lemma show_nat_nonempty [simp]: "show_nat n \<noteq> []"
  by (subst show_nat.simps) simp

lemma digits_value_snoc: "digits_value (s @ [c]) = 10 * digits_value s + (of_char c - 48)"
  by (simp add: digits_value_def)

lemma digits_value_show [simp]: "digits_value (show_nat n) = n"
proof (induction n rule: show_nat.induct)
  case (1 n)
  show ?case
  proof (cases "n < 10")
    case True
    then show ?thesis by (subst show_nat.simps) (simp add: digits_value_def of_char_digit_char)
  next
    case False
    then have "show_nat n = show_nat (n div 10) @ [digit_char (n mod 10)]"
      by (subst show_nat.simps) simp
    then show ?thesis
      using 1 False by (simp add: digits_value_snoc of_char_digit_char)
  qed
qed

lemma show_nat_inject [simp]: "show_nat m = show_nat n \<longleftrightarrow> m = n"
  by (metis digits_value_show)

lemma digits_value_zeros: "digits_value (replicate k CHR ''0'' @ s) = digits_value s"
proof (induction k)
  case (Suc k)
  have "of_char CHR ''0'' = (48::nat)" by simp
  then have "digits_value (CHR ''0'' # t) = digits_value t" for t
    by (simp add: digits_value_def del: of_char_Char)
  then show ?case using Suc by simp
qed simp

lemma pad2_digits: "list_all is_digit (pad2 (show_nat n))"
proof -
  have "is_digit CHR ''0''" by (simp add: is_digit_def)
  then show ?thesis using show_nat_digits [of n] by (auto simp: pad2_def list_all_iff)
qed

lemma digits_value_pad2 [simp]: "digits_value (pad2 (show_nat n)) = n"
  by (simp add: pad2_def digits_value_zeros)

lemma length_pad2: "2 \<le> length (pad2 s)"
  by (simp add: pad2_def)

end
