(* ===== verification/Recovery_Service.thy ===== *)
theory Recovery_Service
  imports Service Decimal
begin

text \<open>
  The service that drives the recovery of the environment between two rounds,
  \<open>packages/application/src/run-round-recovery.ts\<close>. Its calls of the clock, the identifiers, the
  build server, the cipher and the scheduler are fields of \<open>recovery_env\<close>; \<open>en_others\<close> is what the
  other processes do to the store before each call, so that every interleaving with them is covered.
\<close>

section \<open>The service\<close>

datatype rebuild_state =
  Discovering
| Build_Running int string "string option"
| Build_Succeeded int string "string option" "string option"
| Build_Failed int string "string option" "string option" string

text \<open>What an event says; its text in the language of the console is the field \<open>en_text\<close>.\<close>

datatype recovery_note =
  Poll_Retrying int time
| Recovery_Error
| Rebuild_Triggered int
| Rebuild_Failed int string
| Wait_Started int time
| Rebuild_Running int
| Steps_Left nat
| Round_Resumed

record recovery_env =
  en_clock :: "nat \<Rightarrow> time"
  en_id :: "nat \<Rightarrow> ident"
  en_others :: "store interference"
  en_rebuild_last :: "nat \<Rightarrow> string \<Rightarrow> string \<Rightarrow> string + int"
  en_inspect_rebuild ::
    "nat \<Rightarrow> string \<Rightarrow> string \<Rightarrow> int \<Rightarrow> int option \<Rightarrow> string option \<Rightarrow> string + rebuild_state"
  en_decrypt :: "string \<Rightarrow> string \<Rightarrow> string + string"
  en_schedule :: "nat \<Rightarrow> ident \<Rightarrow> store \<Rightarrow> (string + unit) \<times> store"
  en_text :: "recovery_note \<Rightarrow> string \<Rightarrow> recovery_claim \<Rightarrow> string"
  en_error_text :: "domain_error \<Rightarrow> string"
  en_failed_text :: "int \<Rightarrow> string \<Rightarrow> string"
  en_time_text :: "time \<Rightarrow> string"

type_synonym 'a recovery_call = "(store, unit, string, 'a) svc"

subsection \<open>Constants\<close>

definition RECOVERY_LEASE_MS :: int where "RECOVERY_LEASE_MS = 30000"
definition JENKINS_POLL_MS :: int where "JENKINS_POLL_MS = 5000"
definition MAX_CONSECUTIVE_POLL_FAILURES :: int where "MAX_CONSECUTIVE_POLL_FAILURES = 10"
definition MAX_POLL_RETRY_DELAY_MS :: int where "MAX_POLL_RETRY_DELAY_MS = 60000"

definition safeErrorMessage :: "string \<Rightarrow> string" where
  "safeErrorMessage message = take 1000 message"

definition pollRetryDelayMs :: "int \<Rightarrow> int" where
  "pollRetryDelayMs failureCount =
     min (JENKINS_POLL_MS * 2 ^ nat (max 0 (failureCount - 1))) MAX_POLL_RETRY_DELAY_MS"

definition roundRecoverySecretPurpose :: "ident \<Rightarrow> ident \<Rightarrow> string" where
  "roundRecoverySecretPurpose suiteId ruleId = ''case-suite-round-recovery:'' @ suiteId @ '':'' @ ruleId"

subsection \<open>Events\<close>

fun note_payload :: "recovery_env \<Rightarrow> recovery_note \<Rightarrow> recovery_claim \<Rightarrow> (string \<times> string) list" where
  "note_payload e (Poll_Retrying n t) c =
     [(''state'', ''poll_retrying''), (''consecutiveFailures'', show_int n), (''retryAt'', en_time_text e t)]"
| "note_payload e Recovery_Error c = [(''state'', ''failed'')]"
| "note_payload e (Rebuild_Triggered n) c = [(''state'', ''polling''), (''sourceBuildNumber'', show_int n)]"
| "note_payload e (Rebuild_Failed n r) c =
     [(''state'', ''failed''), (''buildNumber'', show_int n), (''buildResult'', r)]"
| "note_payload e (Wait_Started n t) c =
     [(''state'', ''waiting''), (''buildNumber'', show_int n), (''resumeAt'', en_time_text e t)]"
| "note_payload e (Rebuild_Running n) c = [(''state'', ''running''), (''buildNumber'', show_int n)]"
| "note_payload e (Steps_Left n) c = [(''state'', ''step_completed''), (''remainingSteps'', show_nat n)]"
| "note_payload e Round_Resumed c =
     [(''state'', ''resumed''), (''barrierComplete'', ''true''), (''nextRound'', show_int (rm_next_round c))]"

definition recovery_event ::
  "recovery_env \<Rightarrow> ident \<Rightarrow> recovery_claim \<Rightarrow> recovery_note \<Rightarrow> string \<Rightarrow> time \<Rightarrow> scheduling_event" where
  "recovery_event e eventId c note detail recordedAt =
     \<lparr>se_id = eventId, se_batch_id = rm_batch_id c, se_runner_id = None, se_run_id = None,
      se_attempt_id = None, se_type = ''round_recovery'', se_message = en_text e note detail c,
      se_payload = Some ([(''afterRound'', show_int (rm_after_round c)),
                          (''nextRound'', show_int (rm_next_round c))] @ note_payload e note c),
      se_recorded_at = recordedAt\<rparr>"

definition appendEvent ::
  "recovery_env \<Rightarrow> recovery_claim \<Rightarrow> recovery_note \<Rightarrow> string \<Rightarrow> time \<Rightarrow> unit recovery_call" where
  "appendEvent e c note detail recordedAt =
     svc_bind (svc_read (en_id e)) (\<lambda>eventId.
       repo_transaction (en_others e) (en_error_text e) (appendSchedulingEvents [recovery_event e eventId c note detail recordedAt]))"

subsection \<open>Processing a claim\<close>

definition decryptCredential :: "recovery_env \<Rightarrow> recovery_claim \<Rightarrow> string + string" where
  "decryptCredential e c =
     en_decrypt e (rm_api_key_ciphertext c) (roundRecoverySecretPurpose (rm_suite_id c) (rm_rule_id c))"

definition own_step_input :: "string \<Rightarrow> recovery_claim \<Rightarrow> time \<Rightarrow> step_input" where
  "own_step_input workerId c updatedAt =
     \<lparr>sn_batch_id = rm_batch_id c, sn_rule_id = rm_rule_id c, sn_worker_id = workerId,
      sn_updated_at = updatedAt\<rparr>"

definition own_defer_input :: "string \<Rightarrow> recovery_claim \<Rightarrow> string \<Rightarrow> time \<Rightarrow> time \<Rightarrow> defer_input" where
  "own_defer_input workerId c message availableAt updatedAt =
     \<lparr>dp_batch_id = rm_batch_id c, dp_rule_id = rm_rule_id c, dp_worker_id = workerId,
      dp_error_message = message, dp_available_at = availableAt, dp_updated_at = updatedAt\<rparr>"

definition own_polling_input ::
  "string \<Rightarrow> recovery_claim \<Rightarrow> int \<Rightarrow> int option \<Rightarrow> string option \<Rightarrow> string option \<Rightarrow> time \<Rightarrow> polling_input" where
  "own_polling_input workerId c source number url startedAt updatedAt =
     \<lparr>mp_batch_id = rm_batch_id c, mp_rule_id = rm_rule_id c, mp_worker_id = workerId,
      mp_source_build_number = source, mp_rebuild_number = number, mp_rebuild_url = url,
      mp_started_at = startedAt, mp_available_at = updatedAt + JENKINS_POLL_MS,
      mp_updated_at = updatedAt\<rparr>"

definition own_fail_input :: "string \<Rightarrow> recovery_claim \<Rightarrow> string \<Rightarrow> ident \<Rightarrow> time \<Rightarrow> fail_input" where
  "own_fail_input workerId c message eventId updatedAt =
     \<lparr>fl_batch_id = rm_batch_id c, fl_rule_id = rm_rule_id c, fl_worker_id = workerId,
      fl_error_message = message, fl_rebuild_number = None, fl_rebuild_url = None,
      fl_started_at = None, fl_finished_at = None, fl_build_result = None,
      fl_event_id = eventId, fl_updated_at = updatedAt\<rparr>"

definition trigger :: "recovery_env \<Rightarrow> string \<Rightarrow> recovery_claim \<Rightarrow> unit recovery_call" where
  "trigger e workerId c =
     svc_bind (svc_call (\<lambda>_. decryptCredential e c)) (\<lambda>credential.
     svc_bind (svc_call (\<lambda>n. en_rebuild_last e n (rm_jenkins_job_url c) credential)) (\<lambda>source.
     svc_bind (svc_read (en_clock e)) (\<lambda>updatedAt.
     svc_bind (repo_update (en_others e)
       (markPolling (own_polling_input workerId c source None None None updatedAt))) (\<lambda>updated.
     when_true updated (appendEvent e c (Rebuild_Triggered source) [] updatedAt)))))"

definition rebuild_failed ::
  "recovery_env \<Rightarrow> string \<Rightarrow> recovery_claim \<Rightarrow> int \<Rightarrow> string \<Rightarrow> string option \<Rightarrow> string option \<Rightarrow>
   string \<Rightarrow> time \<Rightarrow> unit recovery_call" where
  "rebuild_failed e workerId c number url startedAt finishedAt result updatedAt =
     (let message = en_failed_text e number result
      in svc_bind (svc_read (en_id e)) (\<lambda>eventId.
         svc_bind (repo_transaction (en_others e) (en_error_text e) (failRecovery
           ((own_fail_input workerId c message eventId updatedAt)
              \<lparr>fl_rebuild_number := Some number, fl_rebuild_url := Some url,
               fl_started_at := nonempty startedAt, fl_finished_at := nonempty finishedAt,
               fl_build_result := Some result\<rparr>))) (\<lambda>failed.
         when_true failed (appendEvent e c (Rebuild_Failed number result) message updatedAt))))"

definition rebuild_succeeded ::
  "recovery_env \<Rightarrow> string \<Rightarrow> recovery_claim \<Rightarrow> int \<Rightarrow> string \<Rightarrow> string option \<Rightarrow> string option \<Rightarrow>
   time \<Rightarrow> unit recovery_call" where
  "rebuild_succeeded e workerId c number url startedAt finishedAt updatedAt =
     (let resumeAt = updatedAt + rm_wait_minutes c * 60000
      in svc_bind (repo_update (en_others e) (markWaiting
           \<lparr>mw_batch_id = rm_batch_id c, mw_rule_id = rm_rule_id c, mw_worker_id = workerId,
            mw_rebuild_number = number, mw_rebuild_url = url, mw_started_at = nonempty startedAt,
            mw_finished_at = nonempty finishedAt, mw_build_result = ''SUCCESS'',
            mw_available_at = resumeAt, mw_updated_at = updatedAt\<rparr>)) (\<lambda>updated.
         when_true updated (appendEvent e c (Wait_Started number resumeAt) [] updatedAt)))"

definition rebuild_running ::
  "recovery_env \<Rightarrow> string \<Rightarrow> recovery_claim \<Rightarrow> int \<Rightarrow> (int \<times> string \<times> string option) option \<Rightarrow>
   time \<Rightarrow> unit recovery_call" where
  "rebuild_running e workerId c source build updatedAt =
     svc_bind (repo_update (en_others e) (markPolling
       (own_polling_input workerId c source (map_option fst build)
          (map_option (\<lambda>(_, url, _). url) build)
          (Option.bind build (\<lambda>(_, _, startedAt). nonempty startedAt)) updatedAt))) (\<lambda>updated.
     (case build of
        None \<Rightarrow> svc_return ()
      | Some (number, _) \<Rightarrow>
          when_true (updated \<and> rm_rebuild_number c = None)
            (appendEvent e c (Rebuild_Running number) [] updatedAt)))"

definition poll :: "recovery_env \<Rightarrow> string \<Rightarrow> recovery_claim \<Rightarrow> unit recovery_call" where
  "poll e workerId c =
     (case rm_source_build_number c of
        None \<Rightarrow> svc_call (\<lambda>_. Inl ''MISSING_SOURCE_BUILD_NUMBER'')
      | Some source \<Rightarrow>
          svc_bind (svc_call (\<lambda>_. decryptCredential e c)) (\<lambda>credential.
          svc_bind (svc_call (\<lambda>n. en_inspect_rebuild e n (rm_jenkins_job_url c) credential source
            (rm_rebuild_number c) (rm_rebuild_url c))) (\<lambda>state.
          svc_bind (svc_read (en_clock e)) (\<lambda>updatedAt.
            (case state of
               Build_Failed number url startedAt finishedAt result \<Rightarrow>
                 rebuild_failed e workerId c number url startedAt finishedAt result updatedAt
             | Build_Succeeded number url startedAt finishedAt \<Rightarrow>
                 rebuild_succeeded e workerId c number url startedAt finishedAt updatedAt
             | Build_Running number url startedAt \<Rightarrow>
                 rebuild_running e workerId c source (Some (number, url, startedAt)) updatedAt
             | Discovering \<Rightarrow> rebuild_running e workerId c source None updatedAt)))))"

definition releaseRound :: "recovery_env \<Rightarrow> string \<Rightarrow> recovery_claim \<Rightarrow> unit recovery_call" where
  "releaseRound e workerId c =
     svc_bind
       (svc_catch
         (svc_bind (svc_store (en_others e) (\<lambda>n. en_schedule e n (rm_batch_id c))) (\<lambda>_.
          svc_bind (svc_read (en_clock e)) (\<lambda>updatedAt.
            repo_update (en_others e) (completeRoundRelease (own_step_input workerId c updatedAt)))))
         (\<lambda>message.
          svc_bind (svc_read (en_clock e)) (\<lambda>updatedAt.
          svc_bind (repo_update (en_others e) (retryRoundRelease
            (own_defer_input workerId c (safeErrorMessage message)
              (updatedAt + JENKINS_POLL_MS) updatedAt))) (\<lambda>_. svc_return False))))
       (\<lambda>completed. when_true completed
          (svc_bind (svc_read (en_clock e)) (\<lambda>recordedAt. appendEvent e c Round_Resumed [] recordedAt)))"

definition resume :: "recovery_env \<Rightarrow> string \<Rightarrow> recovery_claim \<Rightarrow> unit recovery_call" where
  "resume e workerId c =
     svc_bind (svc_read (en_clock e)) (\<lambda>updatedAt.
     svc_bind (repo_transaction (en_others e) (en_error_text e) (completeWaitingStep (own_step_input workerId c updatedAt))) (\<lambda>completion.
       (case completion of
          Claim_Lost \<Rightarrow> svc_return ()
        | Step_Completed n \<Rightarrow> appendEvent e c (Steps_Left n) [] updatedAt
        | Round_Releasing \<Rightarrow> releaseRound e workerId c)))"

definition claim_failed :: "recovery_env \<Rightarrow> string \<Rightarrow> recovery_claim \<Rightarrow> string \<Rightarrow> unit recovery_call" where
  "claim_failed e workerId c error =
     svc_bind (svc_read (en_clock e)) (\<lambda>updatedAt.
       let message = safeErrorMessage error
       in if rm_status c = RV_Polling \<and> rm_poll_failure_count c < MAX_CONSECUTIVE_POLL_FAILURES
          then
            let failureCount = rm_poll_failure_count c + 1;
                retryAt = updatedAt + pollRetryDelayMs failureCount
            in svc_bind (repo_update (en_others e) (deferPollingFailure
                 (own_defer_input workerId c message retryAt updatedAt))) (\<lambda>deferred.
               when_true deferred (appendEvent e c (Poll_Retrying failureCount retryAt) message updatedAt))
          else
            svc_bind (svc_read (en_id e)) (\<lambda>eventId.
            svc_bind (repo_transaction (en_others e) (en_error_text e)
              (failRecovery (own_fail_input workerId c message eventId updatedAt))) (\<lambda>failed.
            when_true failed (appendEvent e c Recovery_Error message updatedAt))))"

definition claim_work :: "recovery_env \<Rightarrow> string \<Rightarrow> recovery_claim \<Rightarrow> unit recovery_call" where
  "claim_work e workerId c =
     (if rm_status c = RV_Pending then trigger e workerId c
      else if rm_status c = RV_Polling then poll e workerId c
      else if rm_status c = RV_Waiting then resume e workerId c
      else releaseRound e workerId c)"

definition processClaim :: "recovery_env \<Rightarrow> string \<Rightarrow> recovery_claim \<Rightarrow> unit recovery_call" where
  "processClaim e workerId c = svc_catch (claim_work e workerId c) (claim_failed e workerId c)"

text \<open>The claims of a dispatch; they are processed concurrently, each by \<open>processClaim\<close>.\<close>

definition dispatchClaims :: "recovery_env \<Rightarrow> string \<Rightarrow> int \<Rightarrow> recovery_claim list recovery_call" where
  "dispatchClaims e workerId limit =
     svc_bind (svc_read (en_clock e)) (\<lambda>now.
       repo_update (en_others e) (claimDue \<lparr>cu_worker_id = workerId, cu_now = now,
         cu_lease_expires_at = now + RECOVERY_LEASE_MS, cu_limit = limit\<rparr>))"

section \<open>What processing a claim keeps\<close>

definition service_invariant :: "recovery_env \<Rightarrow> (store \<Rightarrow> bool) \<Rightarrow> bool" where
  "service_invariant e P \<longleftrightarrow>
     exec_invariant (en_others e) P \<and> (\<forall>n b s. P s \<longrightarrow> P (snd (en_schedule e n b s)))"

lemma service_exec: "service_invariant e P \<Longrightarrow> exec_invariant (en_others e) P"
  by (simp add: service_invariant_def)

lemma keeps_schedule:
  assumes "service_invariant e P"
  shows "svc_keeps P (svc_store (en_others e) (\<lambda>n. en_schedule e n b))"
proof (rule valid_store)
  show "stable_env (en_others e) P" using assms by (simp add: service_invariant_def exec_invariant_def)
  have "P t" if "P s" "en_schedule e n b s = (r, t)" for n s r t
    using assms that unfolding service_invariant_def by (metis snd_conv)
  then show "P t" if "P s" "en_schedule e n b s = (Inl x, t)" for n s x t using that by blast
  show "P t" if "P s" "en_schedule e n b s = (Inr a, t)" for n s a t
    using \<open>\<And>n s r t. P s \<Longrightarrow> en_schedule e n b s = (r, t) \<Longrightarrow> P t\<close> that by blast
qed

lemma keeps_event: "service_invariant e P \<Longrightarrow> svc_keeps P (appendEvent e c nt detail t)"
  unfolding appendEvent_def
  by (intro keeps_rules keeps_transaction service_exec) (auto intro: exec_step.scheduling_events)

lemma keeps_trigger: "service_invariant e P \<Longrightarrow> svc_keeps P (trigger e wk c)"
  unfolding trigger_def
  by (intro keeps_rules keeps_update service_exec keeps_event) (auto intro: exec_step.mark_polling)

lemma keeps_running: "service_invariant e P \<Longrightarrow> svc_keeps P (rebuild_running e wk c source build t)"
  unfolding rebuild_running_def
  by (cases build)
    (auto intro!: keeps_rules keeps_update service_exec keeps_event simp: split_def intro: exec_step.mark_polling)

lemma keeps_poll:
  assumes "service_invariant e P"
  shows "svc_keeps P (poll e wk c)"
proof (cases "rm_source_build_number c")
  case None
  then show ?thesis by (simp add: poll_def valid_call)
next
  case (Some source)
  have failed: "svc_keeps P (rebuild_failed e wk c n u st f r t)" for n u st f r t
    unfolding rebuild_failed_def Let_def
    by (intro keeps_rules keeps_transaction service_exec keeps_event assms) (auto intro: exec_step.recovery_failed)
  have succeeded: "svc_keeps P (rebuild_succeeded e wk c n u st f t)" for n u st f t
    unfolding rebuild_succeeded_def Let_def
    by (intro keeps_rules keeps_update service_exec keeps_event assms) (auto intro: exec_step.mark_waiting)
  show ?thesis
    unfolding poll_def Some option.case
    by (intro keeps_rules) (auto intro: failed succeeded keeps_running [OF assms] split: rebuild_state.split)
qed

lemma keeps_release: "service_invariant e P \<Longrightarrow> svc_keeps P (releaseRound e wk c)"
  unfolding releaseRound_def
  by (intro keeps_rules keeps_update service_exec keeps_event keeps_schedule)
    (auto intro: exec_step.round_released exec_step.retry_release)

lemma keeps_resume:
  assumes "service_invariant e P"
  shows "svc_keeps P (resume e wk c)"
  unfolding resume_def
proof (intro keeps_bind valid_read)
  fix t
  show "svc_keeps P (repo_transaction (en_others e) (en_error_text e) (completeWaitingStep (own_step_input wk c t)))"
    by (rule keeps_transaction [OF service_exec [OF assms]]) (rule exec_step.waiting_step)
next
  fix t completion
  show "svc_keeps P (case completion of Claim_Lost \<Rightarrow> svc_return ()
      | Step_Completed n \<Rightarrow> appendEvent e c (Steps_Left n) [] t
      | Round_Releasing \<Rightarrow> releaseRound e wk c)"
    using keeps_return keeps_event [OF assms] keeps_release [OF assms]
    by (cases completion) simp_all
qed

lemma keeps_failed:
  assumes "service_invariant e P"
  shows "svc_keeps P (claim_failed e wk c x)"
  unfolding claim_failed_def Let_def
proof (intro keeps_bind valid_read)
  fix t
  show "svc_keeps P (if rm_status c = RV_Polling \<and> rm_poll_failure_count c < MAX_CONSECUTIVE_POLL_FAILURES
      then svc_bind (repo_update (en_others e) (deferPollingFailure (own_defer_input wk c (safeErrorMessage x)
             (t + pollRetryDelayMs (rm_poll_failure_count c + 1)) t)))
           (\<lambda>deferred. when_true deferred (appendEvent e c (Poll_Retrying (rm_poll_failure_count c + 1)
             (t + pollRetryDelayMs (rm_poll_failure_count c + 1))) (safeErrorMessage x) t))
      else svc_bind (svc_read (en_id e)) (\<lambda>eventId.
           svc_bind (repo_transaction (en_others e) (en_error_text e) (failRecovery (own_fail_input wk c (safeErrorMessage x) eventId t)))
             (\<lambda>failed. when_true failed (appendEvent e c Recovery_Error (safeErrorMessage x) t))))"
    using exec_step.defer_polling exec_step.recovery_failed
    by (auto intro!: keeps_rules keeps_update [OF service_exec [OF assms]] keeps_transaction [OF service_exec [OF assms]] keeps_event [OF assms])
qed

lemma keeps_process:
  assumes "service_invariant e P"
  shows "svc_keeps P (processClaim e wk c)"
  unfolding processClaim_def claim_work_def
  using keeps_trigger [OF assms] keeps_poll [OF assms] keeps_resume [OF assms] keeps_release [OF assms]
    keeps_failed [OF assms]
  by (auto intro!: keeps_catch)

text \<open>The service changes the store by steps of the repository only.\<close>

lemma process_steps:
  assumes "\<And>n s. exec_step\<^sup>*\<^sup>* s (en_others e n s)" "\<And>n b s. exec_step\<^sup>*\<^sup>* s (snd (en_schedule e n b s))"
  shows "exec_step\<^sup>*\<^sup>* (wd_store w) (wd_store (snd (processClaim e wk c w)))"
proof -
  have "service_invariant e (exec_step\<^sup>*\<^sup>* (wd_store w))"
    using assms unfolding service_invariant_def exec_invariant_def stable_env_def
    by (meson rtranclp_trans rtranclp.rtrancl_into_rtrancl)
  then show ?thesis by (rule valid_result [OF keeps_process]) simp
qed

subsection \<open>A worker that lost its claim\<close>

definition claim_lost :: "string \<Rightarrow> recovery_claim \<Rightarrow> store \<Rightarrow> bool" where
  "claim_lost workerId c s \<longleftrightarrow>
     (\<forall>v\<in>set (st_recoveries s). rv_batch_id v = rm_batch_id c \<longrightarrow> rv_rule_id v = rm_rule_id c \<longrightarrow>
        rv_lease_owner v \<noteq> Some workerId)"

lemma lost_update:
  assumes "claim_lost wk c s"
  shows "update_step (owned_step (rm_batch_id c) (rm_rule_id c) wk st) f s = (False, s)"
proof -
  have "\<not> owned_step (rm_batch_id c) (rm_rule_id c) wk st v" if "v \<in> set (st_recoveries s)" for v
    using assms that by (auto simp: claim_lost_def owned_step_def)
  then have none: "\<forall>v\<in>set (st_recoveries s). \<not> owned_step (rm_batch_id c) (rm_rule_id c) wk st v"
    by blast
  have "count_where (owned_step (rm_batch_id c) (rm_rule_id c) wk st) (st_recoveries s) = 0"
    using none unfolding count_where_0 .
  moreover have "update_where (owned_step (rm_batch_id c) (rm_rule_id c) wk st) f (st_recoveries s) =
      st_recoveries s"
    by (rule update_where_none) (use none in blast)
  ultimately show ?thesis by (simp add: update_step_def del: count_where_0)
qed

lemmas lost_operations = markPolling_def markWaiting_def deferPollingFailure_def completeRoundRelease_def
  retryRoundRelease_def own_polling_input_def own_defer_input_def own_step_input_def

lemma lost_fail:
  assumes "claim_lost wk c s" "fl_batch_id i = rm_batch_id c" "fl_rule_id i = rm_rule_id c"
    "fl_worker_id i = wk"
  shows "failRecovery i s = (Inr False, s)"
proof -
  have "fail_step i s = (False, s)"
    unfolding fail_step_def assms(2-4) by (rule lost_update [OF assms(1)])
  then have "fail_recovery_body i s = Inr (False, s)" by (simp add: fail_recovery_body_def)
  then show ?thesis unfolding failRecovery_def by (simp add: transaction_Inr)
qed

lemma lost_waiting:
  assumes "claim_lost wk c s"
  shows "completeWaitingStep (own_step_input wk c t) s = (Inr Claim_Lost, s)"
proof -
  have "complete_waiting_body (own_step_input wk c t) s = Inr (Claim_Lost, s)"
    by (simp add: complete_waiting_body_def own_step_input_def lost_update [OF assms])
  then show ?thesis unfolding completeWaitingStep_def by (simp add: transaction_Inr)
qed

lemma lost_process:
  assumes env: "stable_env (en_others e) P" and lost: "\<And>s. P s \<Longrightarrow> claim_lost wk c s"
    and st: "rm_status c \<noteq> RV_Releasing" "rm_status c \<in> claimable_status"
  shows "svc_keeps P (processClaim e wk c)"
proof -
  note dead = dead_update [OF env, where v = False] dead_transaction [OF env]
  have trigger: "svc_keeps P (trigger e wk c)"
    unfolding trigger_def
    by (intro keeps_bind valid_call valid_read dead)
      (simp_all add: lost_operations lost_update lost keeps_return)
  have failed: "svc_keeps P (rebuild_failed e wk c n u s f r t)" for n u s f r t
    unfolding rebuild_failed_def Let_def
    by (intro keeps_bind valid_read dead_transaction [OF env, where v = False])
      (simp_all add: lost_fail [of wk c] lost own_fail_input_def keeps_return)
  have succeeded: "svc_keeps P (rebuild_succeeded e wk c n u s f t)" for n u s f t
    unfolding rebuild_succeeded_def Let_def
    by (intro dead) (simp_all add: lost_operations lost_update lost keeps_return)
  have running: "svc_keeps P (rebuild_running e wk c source build t)" for source build t
    unfolding rebuild_running_def
    by (intro dead) (simp_all add: lost_operations lost_update lost keeps_return split: option.split)
  have poll: "svc_keeps P (poll e wk c)"
  proof (cases "rm_source_build_number c")
    case None
    then show ?thesis by (simp add: poll_def valid_call)
  next
    case (Some source)
    show ?thesis
      unfolding poll_def Some option.case
      by (intro keeps_rules) (auto intro: failed succeeded running split: rebuild_state.split)
  qed
  have resume: "svc_keeps P (resume e wk c)"
    unfolding resume_def
    by (intro keeps_bind valid_read dead_transaction [OF env, where v = Claim_Lost])
      (simp_all add: lost_waiting lost keeps_return)
  have deferred: "svc_keeps P (svc_bind (repo_update (en_others e) (deferPollingFailure (own_defer_input wk c x a t)))
      (\<lambda>b. when_true b (k b)))" for x a t k
    by (intro dead) (simp_all add: lost_operations lost_update lost keeps_return)
  have given_up: "svc_keeps P (svc_bind (svc_read (en_id e)) (\<lambda>i.
      svc_bind (repo_transaction (en_others e) (en_error_text e) (failRecovery (own_fail_input wk c x i t))) (\<lambda>b. when_true b (k b))))"
    for x t k
    by (intro keeps_bind valid_read dead_transaction [OF env, where v = False])
      (simp_all add: lost_fail [of wk c] lost own_fail_input_def keeps_return)
  have "svc_keeps P (claim_failed e wk c x)" for x
    unfolding claim_failed_def Let_def
    by (intro keeps_bind valid_read) (simp add: deferred given_up)
  then show ?thesis
    unfolding processClaim_def claim_work_def using trigger poll resume st
    by (intro keeps_catch) (auto simp: claimable_status_def)
qed

lemma lost_process_others:
  assumes rely: "\<And>n s. claim_lost wk c s \<Longrightarrow> claim_lost wk c (en_others e n s)"
    and w: "claim_lost wk c (wd_store w)"
    and st: "rm_status c \<noteq> RV_Releasing" "rm_status c \<in> claimable_status"
  shows "(\<lambda>s t. \<exists>n. t = en_others e n s)\<^sup>*\<^sup>* (wd_store w) (wd_store (snd (processClaim e wk c w)))"
proof -
  let ?P = "\<lambda>s. (\<lambda>s t. \<exists>n. t = en_others e n s)\<^sup>*\<^sup>* (wd_store w) s \<and> claim_lost wk c s"
  have "stable_env (en_others e) ?P"
    unfolding stable_env_def using rely by (blast intro: rtranclp.rtrancl_into_rtrancl)
  then have "svc_keeps ?P (processClaim e wk c)"
    by (rule lost_process) (use st in simp_all)
  then have "?P (wd_store (snd (processClaim e wk c w)))"
    by (rule valid_result) (simp add: w)
  then show ?thesis by blast
qed

subsection \<open>Polling failures\<close>

lemma pollRetryDelay_bounds:
  "JENKINS_POLL_MS \<le> pollRetryDelayMs n" "pollRetryDelayMs n \<le> MAX_POLL_RETRY_DELAY_MS"
proof -
  have "(1::int) \<le> 2 ^ nat (max 0 (n - 1))" by simp
  then have "JENKINS_POLL_MS * 1 \<le> JENKINS_POLL_MS * 2 ^ nat (max 0 (n - 1))"
    by (intro mult_left_mono) (simp_all add: JENKINS_POLL_MS_def)
  then show "JENKINS_POLL_MS \<le> pollRetryDelayMs n" "pollRetryDelayMs n \<le> MAX_POLL_RETRY_DELAY_MS"
    by (simp_all add: pollRetryDelayMs_def JENKINS_POLL_MS_def MAX_POLL_RETRY_DELAY_MS_def)
qed

lemma pollRetryDelay_mono: "m \<le> n \<Longrightarrow> pollRetryDelayMs m \<le> pollRetryDelayMs n"
proof -
  assume "m \<le> n"
  then have "(2::int) ^ nat (max 0 (m - 1)) \<le> 2 ^ nat (max 0 (n - 1))"
    by (intro power_increasing) (simp_all add: nat_mono)
  then show ?thesis
    unfolding pollRetryDelayMs_def JENKINS_POLL_MS_def by (intro min.mono mult_left_mono) simp_all
qed

lemma deferral_keeps_work:
  assumes "claim_failed e wk c x w = (r, w')" "rm_status c = RV_Polling"
    "rm_poll_failure_count c < MAX_CONSECUTIVE_POLL_FAILURES" "\<And>n s. en_others e n s = s"
  shows "st_runs (wd_store w') = st_runs (wd_store w) \<and> st_batches (wd_store w') = st_batches (wd_store w)"
proof -
  let ?P = "\<lambda>s. st_runs s = st_runs (wd_store w) \<and> st_batches s = st_batches (wd_store w)"
  have env: "stable_env (en_others e) ?P" by (simp add: stable_env_def assms(4))
  have event: "svc_keeps ?P (appendEvent e c nt d t)" for nt d t
    unfolding appendEvent_def
  proof (intro keeps_bind valid_read valid_transaction [OF env])
    fix i s x t' assume p: "?P s" and a: "appendSchedulingEvents [recovery_event e i c nt d t] s = (Inl x, t')"
    show "?P t'" using a p by (simp add: appendSchedulingEvents_def transaction_Inl)
  next
    fix i s a' t' assume p: "?P s" and a: "appendSchedulingEvents [recovery_event e i c nt d t] s = (Inr a', t')"
    have "appendSchedulingEventDrafts [recovery_event e i c nt d t] s = Inr t'"
      using a by (simp add: appendSchedulingEvents_def transaction_Inr and_then_eq_Inr)
    then show "?P t'" using sched_events_Inr p by fastforce
  qed
  have "svc_keeps ?P (claim_failed e wk c x)"
    unfolding claim_failed_def Let_def
    by (intro keeps_bind valid_read)
      (auto simp: assms(2,3) deferPollingFailure_def prod_eq_iff intro!: keeps_rules valid_update [OF env] event)
  then have "?P (wd_store (snd (claim_failed e wk c x w)))" by (rule valid_result) simp
  then show ?thesis using assms(1) by simp
qed

end
