(* ===== verification/Recovery_Credentials.thy ===== *)
theory Recovery_Credentials
  imports Case_Suite
begin

text \<open>
  The credentials of round recoveries, \<open>packages/application/src/round-recovery-credentials.ts\<close> and
  \<open>inspect-round-recovery.ts\<close>: a rule brings its own key, or reuses the key of another rule of the
  draft or of a stored suite. Chains of reuse are followed with the set of the rules being visited
  and a memo table. The URL parser, the cipher and the visible suites are parameters.
\<close>

section \<open>Credentials\<close>

definition index_of :: "char \<Rightarrow> string \<Rightarrow> int" where
  "index_of c s = (if c \<in> set s then int (length (takeWhile (\<lambda>x. x \<noteq> c) s)) else - 1)"

definition assertJenkinsCredential :: "string \<Rightarrow> domain_error + unit" where
  "assertJenkinsCredential value =
     (let separator = index_of CHR '':'' value
      in if separator \<le> 0 \<or> separator = int (length value) - 1
         then Inl (DomainError ''JENKINS_CREDENTIAL_INVALID'') else Inr ())"

record credential_reference =
  cf_suite_id :: ident
  cf_rule_id :: ident

record rule_input =
  ri_id :: ident
  ri_after_round :: int
  ri_jenkins_job_url :: string
  ri_api_key :: "string option"
  ri_api_key_source :: "credential_reference option"

text \<open>\<open>ce_suites\<close> are the suites the caller may manage, \<open>ce_cipher\<close> whether a master key is loaded.\<close>

record credential_env =
  ce_suites :: "ident \<Rightarrow> case_suite option"
  ce_rows :: "(ident \<times> ident \<times> string) list"
  ce_cipher :: bool
  ce_decrypt :: "string \<Rightarrow> string \<Rightarrow> domain_error + string"
  ce_encrypt :: "string \<Rightarrow> string \<Rightarrow> string"
  ce_origin :: "string \<Rightarrow> string option"
  ce_normal_url :: "string \<Rightarrow> string option"

definition secretPurpose :: "ident \<Rightarrow> ident \<Rightarrow> string" where
  "secretPurpose suiteId ruleId = ''case-suite-round-recovery:'' @ suiteId @ '':'' @ ruleId"

definition assertSameJenkinsOrigin :: "credential_env \<Rightarrow> string \<Rightarrow> string \<Rightarrow> domain_error + unit" where
  "assertSameJenkinsOrigin e sourceUrl targetUrl =
     (case (ce_origin e sourceUrl, ce_origin e targetUrl) of
        (Some a, Some b) \<Rightarrow>
          if a \<noteq> b then Inl (DomainError ''JENKINS_CREDENTIAL_ORIGIN_MISMATCH'') else Inr ()
      | _ \<Rightarrow> Inl (PlainError ''Invalid URL''))"

definition getRoundRecoveryCredentials ::
  "(ident \<times> ident \<times> string) list \<Rightarrow> ident \<Rightarrow> ident list \<Rightarrow> ident \<Rightarrow> string option" where
  "getRoundRecoveryCredentials rows suiteId ruleIds =
     map_of (rev (map snd (filter (\<lambda>(s, r, _). s = suiteId \<and> r \<in> set ruleIds) rows)))"

definition requireCipher :: "credential_env \<Rightarrow> domain_error + unit" where
  "requireCipher e = (if ce_cipher e then Inr () else Inl (DomainError ''SECRET_CIPHER_UNAVAILABLE''))"

definition stored_rule_by_id :: "case_suite \<Rightarrow> ident \<Rightarrow> round_recovery_rule option" where
  "stored_rule_by_id suite ruleId =
     find (\<lambda>r. rec_id r = ruleId) (cp_round_recovery_rules (su_policy suite))"

subsection \<open>The key of a stored rule\<close>

definition stored_key ::
  "credential_env \<Rightarrow> case_suite \<Rightarrow> round_recovery_rule \<Rightarrow> domain_error + string" where
  "stored_key e suite rule =
     and_then (requireCipher e) (\<lambda>_.
     and_then (found ''JENKINS_CREDENTIAL_REQUIRED''
       (nonempty (getRoundRecoveryCredentials (ce_rows e) (su_id suite) [rec_id rule] (rec_id rule))))
       (\<lambda>ciphertext.
     and_then (ce_decrypt e ciphertext (secretPurpose (su_id suite) (rec_id rule))) (\<lambda>credential.
     and_then (assertJenkinsCredential credential) (\<lambda>_. Inr credential))))"

definition configured_rule :: "case_suite \<Rightarrow> ident \<Rightarrow> domain_error + round_recovery_rule" where
  "configured_rule suite ruleId =
     (case stored_rule_by_id suite ruleId of
        Some rule \<Rightarrow>
          if rec_api_key_configured rule then Inr rule
          else Inl (DomainError ''JENKINS_CREDENTIAL_REQUIRED'')
      | None \<Rightarrow> Inl (DomainError ''JENKINS_CREDENTIAL_REQUIRED''))"

definition readSource ::
  "credential_env \<Rightarrow> credential_reference \<Rightarrow> string \<Rightarrow> case_suite option \<Rightarrow> domain_error + string" where
  "readSource e source targetJobUrl currentSuite =
     (let suite = (case currentSuite of
            Some s \<Rightarrow> if cf_suite_id source = su_id s then Some s else ce_suites e (cf_suite_id source)
          | None \<Rightarrow> ce_suites e (cf_suite_id source))
      in and_then (found ''CASE_SUITE_NOT_FOUND'' suite) (\<lambda>suite.
         and_then (configured_rule suite (cf_rule_id source)) (\<lambda>rule.
         and_then (assertSameJenkinsOrigin e (rec_jenkins_job_url rule) targetJobUrl) (\<lambda>_.
           stored_key e suite rule))))"

subsection \<open>Chains of reuse\<close>

definition draft_rule :: "rule_input list \<Rightarrow> ident \<Rightarrow> rule_input option" where
  "draft_rule rules k = map_of (rev (map (\<lambda>r. (ri_id r, r)) rules)) k"

lemma draft_rule_SomeD: "draft_rule rules k = Some r \<Longrightarrow> ri_id r = k \<and> r \<in> set rules"
  unfolding draft_rule_def by (drule map_of_SomeD) auto

function resolve ::
  "credential_env \<Rightarrow> case_suite \<Rightarrow> rule_input list \<Rightarrow> rule_input \<Rightarrow> ident set \<Rightarrow> (ident \<rightharpoonup> string) \<Rightarrow>
   domain_error + (string \<times> (ident \<rightharpoonup> string))" where
  "resolve e suite rules rule visiting resolved =
     (if ri_id rule \<in> visiting then Inl (DomainError ''JENKINS_CREDENTIAL_REFERENCE_CYCLE'')
      else
        case resolved (ri_id rule) of
          Some credential \<Rightarrow> Inr (credential, resolved)
        | None \<Rightarrow>
            and_then
              (case ri_api_key rule of
                 Some key \<Rightarrow> and_then (assertJenkinsCredential key) (\<lambda>_. Inr (key, resolved))
               | None \<Rightarrow>
                   (case ri_api_key_source rule of
                      Some source \<Rightarrow>
                        if cf_suite_id source = su_id suite then
                          (case draft_rule rules (cf_rule_id source) of
                             None \<Rightarrow> Inl (DomainError ''JENKINS_CREDENTIAL_REQUIRED'')
                           | Some draft \<Rightarrow>
                               and_then (assertSameJenkinsOrigin e (ri_jenkins_job_url draft)
                                           (ri_jenkins_job_url rule)) (\<lambda>_.
                                 resolve e suite rules draft (insert (ri_id rule) visiting) resolved))
                        else
                          and_then (readSource e source (ri_jenkins_job_url rule) (Some suite))
                            (\<lambda>credential. Inr (credential, resolved))
                    | None \<Rightarrow>
                        and_then (readSource e \<lparr>cf_suite_id = su_id suite, cf_rule_id = ri_id rule\<rparr>
                                    (ri_jenkins_job_url rule) (Some suite))
                          (\<lambda>credential. Inr (credential, resolved))))
              (\<lambda>(credential, resolved'). Inr (credential, resolved'(ri_id rule \<mapsto> credential))))"
  by pat_completeness auto

text \<open>Each call visits one rule of the draft more.\<close>

termination
proof (relation "measure (\<lambda>(e, suite, rules, rule, visiting, resolved).
    card (insert (ri_id rule) (ri_id ` set rules) - visiting))")
  fix e :: credential_env and suite :: case_suite and rules :: "rule_input list" and rule draft :: rule_input
    and visiting :: "ident set" and resolved :: "ident \<rightharpoonup> string" and source :: credential_reference
  assume "ri_id rule \<notin> visiting" and d: "draft_rule rules (cf_rule_id source) = Some draft"
  have "ri_id draft \<in> ri_id ` set rules" using draft_rule_SomeD [OF d] by blast
  then have "insert (ri_id draft) (ri_id ` set rules) - insert (ri_id rule) visiting =
      ri_id ` set rules - insert (ri_id rule) visiting" by blast
  moreover have "ri_id ` set rules - insert (ri_id rule) visiting \<subset>
      insert (ri_id rule) (ri_id ` set rules) - visiting"
    using \<open>ri_id rule \<notin> visiting\<close> by blast
  ultimately show "((e, suite, rules, draft, insert (ri_id rule) visiting, resolved),
      (e, suite, rules, rule, visiting, resolved)) \<in> measure (\<lambda>(e, suite, rules, rule, visiting, resolved).
        card (insert (ri_id rule) (ri_id ` set rules) - visiting))"
    by (simp add: psubset_card_mono)
qed simp

declare resolve.simps [simp del]

subsection \<open>Saving the rules of a suite\<close>

fun prepare_rules ::
  "credential_env \<Rightarrow> case_suite \<Rightarrow> rule_input list \<Rightarrow> (ident \<rightharpoonup> string) \<Rightarrow> rule_input list \<Rightarrow>
   (ident \<rightharpoonup> string) \<Rightarrow> (ident \<rightharpoonup> string) \<Rightarrow> domain_error + (ident \<rightharpoonup> string)" where
  "prepare_rules e suite rules existing [] resolved upserts = Inr upserts"
| "prepare_rules e suite rules existing (rule # rest) resolved upserts =
     (if ri_api_key rule \<noteq> None \<or> ri_api_key_source rule \<noteq> None then
        and_then (resolve e suite rules rule {} resolved) (\<lambda>(credential, resolved').
        and_then (requireCipher e) (\<lambda>_.
          prepare_rules e suite rules existing rest resolved'
            (upserts(ri_id rule \<mapsto> ce_encrypt e credential (secretPurpose (su_id suite) (ri_id rule))))))
      else if nonempty (existing (ri_id rule)) = None then
        Inl (DomainError ''JENKINS_CREDENTIAL_REQUIRED'')
      else prepare_rules e suite rules existing rest resolved upserts)"

definition prepare_credentials ::
  "credential_env \<Rightarrow> case_suite \<Rightarrow> rule_input list \<Rightarrow> domain_error + (ident \<rightharpoonup> string)" where
  "prepare_credentials e suite rules =
     prepare_rules e suite rules
       (getRoundRecoveryCredentials (ce_rows e) (su_id suite) (map ri_id rules)) rules Map.empty Map.empty"

subsection \<open>Inspection of a configuration\<close>

record inspect_input =
  ir_rule_id :: ident
  ir_jenkins_job_url :: string
  ir_api_key :: "string option"
  ir_api_key_source :: "credential_reference option"

definition storedCredential :: "credential_env \<Rightarrow> case_suite \<Rightarrow> ident \<Rightarrow> string \<Rightarrow> domain_error + string" where
  "storedCredential e suite ruleId requestedJobUrl =
     and_then (configured_rule suite ruleId) (\<lambda>rule.
       case (ce_normal_url e (rec_jenkins_job_url rule), ce_normal_url e requestedJobUrl) of
         (Some a, Some b) \<Rightarrow>
           if a \<noteq> b then Inl (DomainError ''JENKINS_CREDENTIAL_REQUIRED'')
           else
             and_then (requireCipher e) (\<lambda>_.
             and_then (found ''JENKINS_CREDENTIAL_REQUIRED''
               (nonempty (getRoundRecoveryCredentials (ce_rows e) (su_id suite) [ruleId] ruleId)))
               (\<lambda>ciphertext. ce_decrypt e ciphertext (secretPurpose (su_id suite) ruleId)))
       | _ \<Rightarrow> Inl (PlainError ''Invalid URL''))"

definition inspect_configuration ::
  "(string \<Rightarrow> string \<Rightarrow> string + 'a) \<Rightarrow> credential_env \<Rightarrow> case_suite \<Rightarrow> inspect_input \<Rightarrow> domain_error + 'a" where
  "inspect_configuration inspectJob e suite i =
     and_then
       (case ir_api_key i of
          Some key \<Rightarrow> Inr key
        | None \<Rightarrow>
            (case ir_api_key_source i of
               Some source \<Rightarrow> readSource e source (ir_jenkins_job_url i) (Some suite)
             | None \<Rightarrow> storedCredential e suite (ir_rule_id i) (ir_jenkins_job_url i)))
       (\<lambda>credential.
     and_then (assertJenkinsCredential credential) (\<lambda>_.
       case inspectJob (ir_jenkins_job_url i) credential of
         Inl _ \<Rightarrow> Inl (DomainError ''JENKINS_CONFIGURATION_TEST_FAILED'')
       | Inr job \<Rightarrow> Inr job))"

section \<open>What a chain of reuse means\<close>

text \<open>
  The specification has neither a set of visited rules nor a memo table: a rule has the credential
  \<open>c\<close> after \<open>n\<close> steps of reuse. A rule on a cycle has none.
\<close>

inductive credential_of ::
  "credential_env \<Rightarrow> case_suite \<Rightarrow> rule_input list \<Rightarrow> rule_input \<Rightarrow> nat \<Rightarrow> string \<Rightarrow> bool"
  for e suite rules where
  own_key: "ri_api_key r = Some key \<Longrightarrow> assertJenkinsCredential key = Inr () \<Longrightarrow>
    credential_of e suite rules r 0 key"
| other_suite: "ri_api_key r = None \<Longrightarrow> ri_api_key_source r = Some source \<Longrightarrow>
    cf_suite_id source \<noteq> su_id suite \<Longrightarrow>
    readSource e source (ri_jenkins_job_url r) (Some suite) = Inr c \<Longrightarrow> credential_of e suite rules r 0 c"
| stored_rule: "ri_api_key r = None \<Longrightarrow> ri_api_key_source r = None \<Longrightarrow>
    readSource e \<lparr>cf_suite_id = su_id suite, cf_rule_id = ri_id r\<rparr> (ri_jenkins_job_url r) (Some suite)
      = Inr c \<Longrightarrow> credential_of e suite rules r 0 c"
| reused: "ri_api_key r = None \<Longrightarrow> ri_api_key_source r = Some source \<Longrightarrow>
    cf_suite_id source = su_id suite \<Longrightarrow> draft_rule rules (cf_rule_id source) = Some d \<Longrightarrow>
    assertSameJenkinsOrigin e (ri_jenkins_job_url d) (ri_jenkins_job_url r) = Inr () \<Longrightarrow>
    credential_of e suite rules d n c \<Longrightarrow> credential_of e suite rules r (Suc n) c"

lemma credential_of_unique:
  "credential_of e su rules r n c \<Longrightarrow> credential_of e su rules r m d \<Longrightarrow> n = m \<and> c = d"
proof (induction arbitrary: m d rule: credential_of.induct)
  case (own_key r key)
  from own_key.prems show ?case by (cases rule: credential_of.cases) (simp_all add: own_key.hyps)
next
  case (other_suite r source c)
  from other_suite.prems show ?case
    using other_suite.hyps by (cases rule: credential_of.cases) simp_all
next
  case (stored_rule r c)
  from stored_rule.prems show ?case
    using stored_rule.hyps by (cases rule: credential_of.cases) simp_all
next
  case (reused r source q n c)
  from reused.prems show ?case
  proof (cases rule: credential_of.cases)
    case (reused source' q' n')
    then have "q' = q" using \<open>ri_api_key_source r = Some source\<close> \<open>draft_rule rules (cf_rule_id source) = Some q\<close>
      by simp
    then show ?thesis using reused.IH local.reused by blast
  qed (use reused.hyps in simp_all)
qed

definition memo_sound ::
  "credential_env \<Rightarrow> case_suite \<Rightarrow> rule_input list \<Rightarrow> (ident \<rightharpoonup> string) \<Rightarrow> bool" where
  "memo_sound e su rules resolved \<longleftrightarrow>
     (\<forall>r\<in>set rules. \<forall>c. resolved (ri_id r) = Some c \<longrightarrow> (\<exists>n. credential_of e su rules r n c))"

lemma memo_sound_empty [simp]: "memo_sound e su rules Map.empty"
  by (simp add: memo_sound_def)

lemma memo_sound_update:
  assumes "memo_sound e su rules m" "credential_of e su rules r n c" "r \<in> set rules"
    "distinct (map ri_id rules)"
  shows "memo_sound e su rules (m(ri_id r \<mapsto> c))"
  unfolding memo_sound_def
proof (intro ballI allI impI)
  fix q c' assume q: "q \<in> set rules" "(m(ri_id r \<mapsto> c)) (ri_id q) = Some c'"
  show "\<exists>n. credential_of e su rules q n c'"
  proof (cases "ri_id q = ri_id r")
    case True
    then have "q = r" using q(1) assms(3,4) by (metis distinct_map_eqD)
    then show ?thesis using q(2) assms(2) by auto
  next
    case False
    then show ?thesis using q assms(1) by (auto simp: memo_sound_def)
  qed
qed

lemma resolve_sound:
  "resolve e su rules r V m = Inr (c, m') \<Longrightarrow> r \<in> set rules \<Longrightarrow> memo_sound e su rules m \<Longrightarrow>
   distinct (map ri_id rules) \<Longrightarrow> (\<exists>n. credential_of e su rules r n c) \<and> memo_sound e su rules m'"
proof (induction e su rules r V m arbitrary: c m' rule: resolve.induct)
  case (1 e su rules r V m)
  have v: "ri_id r \<notin> V" using "1.prems"(1) by (subst (asm) resolve.simps) (auto split: if_splits)
  show ?case
  proof (cases "m (ri_id r)")
    case (Some x)
    then have "c = x \<and> m' = m" using "1.prems"(1) v by (subst (asm) resolve.simps) simp
    then show ?thesis using Some "1.prems"(2,3) by (auto simp: memo_sound_def)
  next
    case None
    have "\<exists>n m1. credential_of e su rules r n c \<and> memo_sound e su rules m1 \<and> m' = m1(ri_id r \<mapsto> c)"
    proof (cases "ri_api_key r")
      case (Some key)
      then have "assertJenkinsCredential key = Inr () \<and> c = key \<and> m' = m(ri_id r \<mapsto> c)"
        using "1.prems"(1) v None by (subst (asm) resolve.simps) (auto simp: and_then_eq_Inr)
      then show ?thesis using credential_of.own_key [OF Some] "1.prems"(3) by blast
    next
      case key: None
      show ?thesis
      proof (cases "ri_api_key_source r")
        case src: None
        then have "readSource e \<lparr>cf_suite_id = su_id su, cf_rule_id = ri_id r\<rparr> (ri_jenkins_job_url r)
            (Some su) = Inr c \<and> m' = m(ri_id r \<mapsto> c)"
          using "1.prems"(1) v None key by (subst (asm) resolve.simps) (auto simp: and_then_eq_Inr)
        then show ?thesis using credential_of.stored_rule [OF key src] "1.prems"(3) by blast
      next
        case (Some source)
        show ?thesis
        proof (cases "cf_suite_id source = su_id su")
          case False
          then have "readSource e source (ri_jenkins_job_url r) (Some su) = Inr c \<and> m' = m(ri_id r \<mapsto> c)"
            using "1.prems"(1) v None key Some by (subst (asm) resolve.simps) (auto simp: and_then_eq_Inr)
          then show ?thesis using credential_of.other_suite [OF key Some False] "1.prems"(3) by blast
        next
          case True
          then obtain q m1 where q: "draft_rule rules (cf_rule_id source) = Some q"
              "assertSameJenkinsOrigin e (ri_jenkins_job_url q) (ri_jenkins_job_url r) = Inr ()"
              "resolve e su rules q (insert (ri_id r) V) m = Inr (c, m1)" "m' = m1(ri_id r \<mapsto> c)"
            using "1.prems"(1) v None key Some
            by (subst (asm) resolve.simps) (auto simp: and_then_eq_Inr split: option.splits)
          have qm: "q \<in> set rules" using draft_rule_SomeD [OF q(1)] by blast
          note ih = "1.IH" [OF v None key Some True q(1,3) qm "1.prems"(3,4)]
          then show ?thesis using credential_of.reused [OF key Some True q(1,2)] q(4) by blast
        qed
      qed
    qed
    then show ?thesis using memo_sound_update "1.prems"(2,4) by blast
  qed
qed

lemma resolve_complete:
  "credential_of e su rules r n c \<Longrightarrow> r \<in> set rules \<Longrightarrow> memo_sound e su rules m \<Longrightarrow>
   distinct (map ri_id rules) \<Longrightarrow>
   (\<forall>q\<in>set rules. \<forall>k d. ri_id q \<in> V \<longrightarrow> credential_of e su rules q k d \<longrightarrow> n < k) \<Longrightarrow>
   \<exists>m'. resolve e su rules r V m = Inr (c, m')"
proof (induction arbitrary: V rule: credential_of.induct)
  case (own_key r key)
  then have "ri_id r \<notin> V" using credential_of.own_key by blast
  moreover have "x = key" if "m (ri_id r) = Some x" for x
    using own_key that credential_of.own_key credential_of_unique unfolding memo_sound_def by metis
  ultimately show ?case using own_key by (subst resolve.simps) (auto split: option.split)
next
  case (other_suite r source c)
  then have "ri_id r \<notin> V" using credential_of.other_suite by blast
  moreover have "x = c" if "m (ri_id r) = Some x" for x
    using other_suite that credential_of.other_suite credential_of_unique unfolding memo_sound_def by metis
  ultimately show ?case using other_suite by (subst resolve.simps) (auto split: option.split)
next
  case (stored_rule r c)
  then have "ri_id r \<notin> V" using credential_of.stored_rule by blast
  moreover have "x = c" if "m (ri_id r) = Some x" for x
    using stored_rule that credential_of.stored_rule credential_of_unique unfolding memo_sound_def by metis
  ultimately show ?case using stored_rule by (subst resolve.simps) (auto split: option.split)
next
  case (reused r source q n c)
  have here: "credential_of e su rules r (Suc n) c" using credential_of.reused reused.hyps by blast
  then have v: "ri_id r \<notin> V" using reused.prems(1,4) by blast
  have q: "q \<in> set rules" using draft_rule_SomeD [OF reused.hyps(4)] by blast
  have "\<forall>x\<in>set rules. \<forall>k d. ri_id x \<in> insert (ri_id r) V \<longrightarrow> credential_of e su rules x k d \<longrightarrow> n < k"
  proof (intro ballI allI impI)
    fix x k d assume x: "x \<in> set rules" "ri_id x \<in> insert (ri_id r) V" "credential_of e su rules x k d"
    show "n < k"
    proof (cases "ri_id x = ri_id r")
      case True
      then have "x = r" using x(1) reused.prems(1,3) by (metis distinct_map_eqD)
      then show ?thesis using credential_of_unique [OF here] x(3) by auto
    next
      case False
      then show ?thesis using reused.prems(4) x by (meson Suc_lessD insertE)
    qed
  qed
  then obtain m1 where m1: "resolve e su rules q (insert (ri_id r) V) m = Inr (c, m1)"
    using reused.IH [OF q reused.prems(2,3)] by blast
  have "x = c" if "m (ri_id r) = Some x" for x
    using that here reused.prems(1,2) credential_of_unique unfolding memo_sound_def by metis
  then show ?case using v m1 reused.hyps by (subst resolve.simps) (auto split: option.split)
qed

lemma resolve_iff:
  assumes "r \<in> set rules" "distinct (map ri_id rules)" "memo_sound e su rules m"
  shows "(\<exists>m'. resolve e su rules r {} m = Inr (c, m')) \<longleftrightarrow> (\<exists>n. credential_of e su rules r n c)"
  using resolve_sound [OF _ assms(1,3,2)] resolve_complete [OF _ assms(1,3,2), where V = "{}"] by blast

subsection \<open>Saved credentials\<close>

lemma prepare_rules_saves:
  "prepare_rules e su rules existing rest m ups = Inr ups' \<Longrightarrow> set rest \<subseteq> set rules \<Longrightarrow>
   distinct (map ri_id rules) \<Longrightarrow> distinct (map ri_id rest) \<Longrightarrow> memo_sound e su rules m \<Longrightarrow>
   (\<forall>k. k \<notin> ri_id ` set rest \<longrightarrow> ups' k = ups k) \<and>
   (\<forall>r\<in>set rest. if ri_api_key r \<noteq> None \<or> ri_api_key_source r \<noteq> None
      then \<exists>n c. credential_of e su rules r n c \<and>
             ups' (ri_id r) = Some (ce_encrypt e c (secretPurpose (su_id su) (ri_id r)))
      else nonempty (existing (ri_id r)) \<noteq> None \<and> ups' (ri_id r) = ups (ri_id r))"
proof (induction rest arbitrary: m ups)
  case (Cons r rest)
  note prems = Cons.prems
  show ?case
  proof (cases "ri_api_key r \<noteq> None \<or> ri_api_key_source r \<noteq> None")
    case True
    let ?ups = "\<lambda>c. ups(ri_id r \<mapsto> ce_encrypt e c (secretPurpose (su_id su) (ri_id r)))"
    obtain c m' where r: "resolve e su rules r {} m = Inr (c, m')"
        "prepare_rules e su rules existing rest m' (?ups c) = Inr ups'"
      using prems(1) True by (auto simp: and_then_eq_Inr)
    have mem: "r \<in> set rules" using prems(2) by simp
    obtain n where n: "credential_of e su rules r n c" and m': "memo_sound e su rules m'"
      using resolve_sound [OF r(1) mem prems(5,3)] by blast
    have ih: "(\<forall>k. k \<notin> ri_id ` set rest \<longrightarrow> ups' k = ?ups c k) \<and>
       (\<forall>q\<in>set rest. if ri_api_key q \<noteq> None \<or> ri_api_key_source q \<noteq> None
          then \<exists>n d. credential_of e su rules q n d \<and>
                 ups' (ri_id q) = Some (ce_encrypt e d (secretPurpose (su_id su) (ri_id q)))
          else nonempty (existing (ri_id q)) \<noteq> None \<and> ups' (ri_id q) = ?ups c (ri_id q))"
      using Cons.IH [OF r(2)] prems(2,3,4) m' by simp
    have "ri_id q \<noteq> ri_id r" if "q \<in> set rest" for q
      using prems(4) that by (metis distinct.simps(2) image_eqI list.simps(9) set_map)
    moreover have "ups' (ri_id r) = ?ups c (ri_id r)" using ih prems(4) by simp
    ultimately show ?thesis using ih n True by auto
  next
    case False
    then have r: "nonempty (existing (ri_id r)) \<noteq> None"
        "prepare_rules e su rules existing rest m ups = Inr ups'"
      using prems(1) by (auto split: if_splits)
    have ih: "(\<forall>k. k \<notin> ri_id ` set rest \<longrightarrow> ups' k = ups k) \<and>
       (\<forall>q\<in>set rest. if ri_api_key q \<noteq> None \<or> ri_api_key_source q \<noteq> None
          then \<exists>n d. credential_of e su rules q n d \<and>
                 ups' (ri_id q) = Some (ce_encrypt e d (secretPurpose (su_id su) (ri_id q)))
          else nonempty (existing (ri_id q)) \<noteq> None \<and> ups' (ri_id q) = ups (ri_id q))"
      using Cons.IH [OF r(2)] prems(2-5) by simp
    moreover have "ups' (ri_id r) = ups (ri_id r)" using ih prems(4) by simp
    ultimately show ?thesis using r(1) False by auto
  qed
qed simp

lemma prepare_saves:
  assumes "prepare_credentials e su rules = Inr ups" "distinct (map ri_id rules)" "r \<in> set rules"
  shows "if ri_api_key r \<noteq> None \<or> ri_api_key_source r \<noteq> None
      then \<exists>n c. credential_of e su rules r n c \<and>
             ups (ri_id r) = Some (ce_encrypt e c (secretPurpose (su_id su) (ri_id r)))
      else ups (ri_id r) = None \<and>
           nonempty (getRoundRecoveryCredentials (ce_rows e) (su_id su) (map ri_id rules) (ri_id r)) \<noteq> None"
  using prepare_rules_saves [OF assms(1) [unfolded prepare_credentials_def] subset_refl assms(2,2)] assms(3)
  by auto

text \<open>A cycle of reuse inside the draft has no credential, so it is not saved.\<close>

lemma cycle_has_no_credential:
  assumes "ri_api_key r = None" "ri_api_key_source r = Some source" "cf_suite_id source = su_id su"
    "draft_rule rules (cf_rule_id source) = Some r"
  shows "\<not> credential_of e su rules r n c"
proof
  assume h: "credential_of e su rules r n c"
  then show False
  proof (cases rule: credential_of.cases)
    case (reused source' d n')
    then have "d = r" using assms by simp
    then show False using reused credential_of_unique [OF h] by fastforce
  qed (use assms in simp_all)
qed

end
