(* ===== verification/Scheduling_Service.thy ===== *)
theory Scheduling_Service
  imports Service Decimal
begin

text \<open>
  Scheduling of a batch, \<open>packages/application/src/schedule-run-batches.ts\<close>: a pass reads a snapshot
  (\<open>getSchedulingSnapshot\<close> of \<open>sqlite-run-batch.ts\<close>), decides the concurrency of the round, plans
  (theory \<open>Scheduler\<close>) and reserves in chunks (theory \<open>Reservation\<close>); other processes change the store
  between its calls. Concurrent requests for one batch are coalesced
  (\<open>coalesced-operation.ts\<close>).
\<close>

section \<open>The snapshot\<close>

text \<open>
  Columns and tables a pass only reads: what the runs of a batch are sorted by, when the batch may
  start, the runner of the previous batch of a case rerun, and what \<open>execution_run\<close> has more than a
  row of the store.
\<close>

record run_details =
  rx_case_version :: int
  rx_class_name :: string
  rx_case_type :: case_type
  rx_ddt_sr_num :: "string option"
  rx_created_at :: time

record schedule_tables =
  sq_reserve :: reserve_tables
  sq_order_key :: "ident \<Rightarrow> string"
  sq_scheduled_for :: "ident \<Rightarrow> time"
  sq_family_runner :: "ident \<Rightarrow> ident option"
  sq_run_details :: "ident \<Rightarrow> run_details"

record scheduling_snapshot =
  ss_batch :: batch_row
  ss_queued :: "execution_run list"
  ss_candidates :: "candidate list"
  ss_failures :: "(ident \<times> ident list) list"
  ss_history :: "(ident \<times> ident list) list"
  ss_project_active :: int
  ss_assigned :: int
  ss_retry_state :: "concurrency_state option"
  ss_context :: retry_context

definition SCHEDULING_RUN_WINDOW_SIZE :: int where
  "SCHEDULING_RUN_WINDOW_SIZE = 4096"

definition toExecutionRun :: "run_details \<Rightarrow> run_row \<Rightarrow> execution_run" where
  "toExecutionRun x r =
     \<lparr>er_id = rr_id r, er_batch_id = rr_batch_id r, er_case_definition_id = rr_case_definition_id r,
      er_case_version = rx_case_version x, er_display_name = rr_display_name r,
      er_class_name = rx_class_name x, er_case_type = Some (rx_case_type x),
      er_ddt_sr_num = nonempty (rx_ddt_sr_num x), er_status = rr_status r,
      er_assigned_runner_id = nonempty (rr_assigned_runner_id r),
      er_attempt_count = rr_attempt_count r, er_execution_round = Some (rr_execution_round r),
      er_scheduling_score = rr_scheduling_score r, er_terminal_outcome = rr_terminal_outcome r,
      er_terminal_reason_code = nonempty (rr_terminal_reason_code r),
      er_cancel_requested_at = rr_cancel_requested_at r,
      er_held_round = (if 0 < rr_held_round r then Some (rr_held_round r) else None),
      er_version = js_int (rr_version r), er_created_at = rx_created_at x,
      er_assigned_at = rr_assigned_at r, er_updated_at = rr_updated_at r\<rparr>"

definition queuedRows :: "schedule_tables \<Rightarrow> store \<Rightarrow> batch_row \<Rightarrow> int \<Rightarrow> run_row list" where
  "queuedRows tb s b maximumQueuedRuns =
     (if bt_cancel_requested_at b \<noteq> None \<or> bt_pause_requested_at b \<noteq> None then []
      else take (nat (min SCHEDULING_RUN_WINDOW_SIZE (max 1 maximumQueuedRuns)))
        (sort_key (\<lambda>r. (sq_order_key tb (rr_id r), rr_id r))
          (filter (\<lambda>r. rr_batch_id r = bt_id b \<and> rr_status r = R_Queued \<and> rr_held_round r = 0)
            (st_runs s))))"

definition selected_runner_ids :: "schedule_tables \<Rightarrow> ident \<Rightarrow> ident list" where
  "selected_runner_ids tb batchId =
     map snd (filter (\<lambda>(b, r). b = batchId) (rq_batch_runners (sq_reserve tb)))"

definition snapshot_candidates ::
  "schedule_tables \<Rightarrow> store \<Rightarrow> batch_row \<Rightarrow> run_row list \<Rightarrow> time \<Rightarrow> candidate list" where
  "snapshot_candidates tb s b queued offlineBefore =
     (let runtime = map_of (rq_adapters (sq_reserve tb)) (bt_id b);
          runtime' = (if list_ex (\<lambda>r. rx_case_type (sq_run_details tb (rr_id r)) = Ddt_Case) queued
            then map_option (\<lambda>x. x\<lparr>pr_requires_ddt_case_id := True\<rparr>) runtime else runtime)
      in filter (\<lambda>c. supportsProjectAdapterRuntime (rn_capabilities (cd_runner c)) runtime')
           (map (\<lambda>row. \<lparr>cd_runner = mapStoredRunner row (Some offlineBefore),
                        cd_reserved = activeReservations s (sr_id row), cd_live = None\<rparr>)
             (filter (\<lambda>row. sr_id row \<in> set (selected_runner_ids tb (bt_id b)))
               (rq_runners (sq_reserve tb)))))"

definition snapshot_history ::
  "schedule_tables \<Rightarrow> batch_row \<Rightarrow> run_row list \<Rightarrow> attempt_row list \<Rightarrow> (ident \<times> ident list) list" where
  "snapshot_history tb b queued attempts =
     (case sq_family_runner tb (bt_id b) of
        Some runner \<Rightarrow>
          if bt_case_log_rerun b then map (\<lambda>r. (rr_id r, [runner])) queued
          else runnerHistoryIdsByExecutionRun attempts
      | None \<Rightarrow> runnerHistoryIdsByExecutionRun attempts)"

text \<open>\<open>assignedRuns\<close> of the summary: runs that are assigned or running.\<close>

definition assigned_runs :: "store \<Rightarrow> ident \<Rightarrow> int" where
  "assigned_runs s batchId = int (count_where (\<lambda>r. rr_batch_id r = batchId \<and> busy_run (rr_status r)) (st_runs s))"

definition getSchedulingSnapshot ::
  "schedule_tables \<Rightarrow> ident \<Rightarrow> time \<Rightarrow> int \<Rightarrow> store \<Rightarrow> scheduling_snapshot option" where
  "getSchedulingSnapshot tb batchId offlineBefore maximumQueuedRuns s =
     map_option (\<lambda>b.
       let queued = queuedRows tb s b maximumQueuedRuns;
           attempts = filter (\<lambda>a. at_run_id a \<in> rr_id ` set queued) (st_attempts s)
       in \<lparr>ss_batch = b,
           ss_queued = map (\<lambda>r. toExecutionRun (sq_run_details tb (rr_id r)) r) queued,
           ss_candidates = snapshot_candidates tb s b queued offlineBefore,
           ss_failures = runnerFailureIdsByExecutionRun attempts,
           ss_history = snapshot_history tb b queued attempts,
           ss_project_active = projectActiveRuns s (bt_project_id b),
           ss_assigned = assigned_runs s batchId,
           ss_retry_state = retry_state s batchId,
           ss_context = retryContext s b\<rparr>) (find_batch s batchId)"

section \<open>A pass\<close>

record scheduling_configuration =
  sf_thresholds :: scheduling_thresholds
  sf_metrics_maximum_age :: int
  sf_project_maximum :: int
  sf_aging_minutes :: int

datatype scheduling_note =
  Concurrency_Changed int int int
| Run_Assigned string ident rat
| Batch_Scheduled nat nat
| Runner_Resources ident int

record scheduling_env =
  ev_clock :: "nat \<Rightarrow> time"
  ev_id :: "nat \<Rightarrow> ident"
  ev_others :: "store interference"
  ev_tables :: "nat \<Rightarrow> schedule_tables"
  ev_default_configuration :: scheduling_configuration
  ev_live_configuration :: "nat \<Rightarrow> scheduling_configuration option"
  ev_text :: "scheduling_note \<Rightarrow> string"
  ev_score_text :: "rat \<Rightarrow> string"
  ev_reasons_text :: "block_reason list \<Rightarrow> string"

record scheduling_world = "store service_world" +
  sw_last_metrics :: "ident \<Rightarrow> time option"

type_synonym 'a scheduling_call = "(store, unit scheduling_world_ext, domain_error, 'a) svc"

definition OFFLINE_AFTER_SECONDS :: int where "OFFLINE_AFTER_SECONDS = 45"
definition RUNNER_METRICS_THROTTLE_MS :: int where "RUNNER_METRICS_THROTTLE_MS = 30000"
definition MAXIMUM_SCHEDULING_WINDOW :: int where "MAXIMUM_SCHEDULING_WINDOW = 4096"
definition ASSIGNMENTS_PER_RESERVATION :: nat where "ASSIGNMENTS_PER_RESERVATION = 64"

definition offlineBefore :: "time \<Rightarrow> time" where
  "offlineBefore now = now - OFFLINE_AFTER_SECONDS * 1000"

definition metricsFreshAfter :: "time \<Rightarrow> int \<Rightarrow> time" where
  "metricsFreshAfter now maximumAgeSeconds = now - maximumAgeSeconds * 1000"

definition currentSchedulingConfiguration :: "scheduling_env \<Rightarrow> nat \<Rightarrow> scheduling_configuration" where
  "currentSchedulingConfiguration e n =
     (case ev_live_configuration e n of None \<Rightarrow> ev_default_configuration e | Some c \<Rightarrow> c)"

definition repo_read :: "scheduling_env \<Rightarrow> (nat \<Rightarrow> store \<Rightarrow> 'a) \<Rightarrow> 'a scheduling_call" where
  "repo_read e f = svc_store (ev_others e) (\<lambda>n s. (Inr (f n s), s))"

definition required :: "'a option \<Rightarrow> 'a scheduling_call" where
  "required v = svc_call (\<lambda>_. found ''RUN_BATCH_NOT_FOUND'' v)"

definition getSummary :: "scheduling_env \<Rightarrow> ident \<Rightarrow> batch_row scheduling_call" where
  "getSummary e batchId = svc_bind (repo_read e (\<lambda>_ s. find_batch s batchId)) required"

subsection \<open>The concurrency of the round\<close>

definition recorded_source :: "concurrency_state option \<Rightarrow> int \<Rightarrow> concurrency_source" where
  "recorded_source active executionRound =
     (case active of
        None \<Rightarrow> Base_Concurrency
      | Some st \<Rightarrow> if cs_activated_round st = executionRound then Rule_Transition else Inherited_Rule)"

definition concurrency_event ::
  "scheduling_env \<Rightarrow> ident \<Rightarrow> retry_context \<Rightarrow> concurrency_state \<Rightarrow> int \<Rightarrow>
   ident \<times> string \<times> (string \<times> string) list" where
  "concurrency_event e eventId c st previous =
     (eventId, ev_text e (Concurrency_Changed (rt_execution_round c) previous (cs_concurrency st)),
      [(''executionRound'', show_int (rt_execution_round c)), (''ruleId'', cs_rule_id st),
       (''previousConcurrency'', show_int previous), (''concurrency'', show_int (cs_concurrency st)),
       (''previousRoundPassRate'',
          (case rt_previous_pass_rate c of None \<Rightarrow> ''null'' | Some n \<Rightarrow> show_int n)),
       (''remainingRuns'', show_int (rt_remaining_runs c))])"

definition record_round ::
  "scheduling_env \<Rightarrow> ident \<Rightarrow> time \<Rightarrow> retry_context \<Rightarrow> int \<Rightarrow> concurrency_source \<Rightarrow> string option \<Rightarrow>
   int option \<Rightarrow> (ident \<times> string \<times> (string \<times> string) list) option \<Rightarrow> bool scheduling_call" where
  "record_round e batchId now c concurrency source ruleId previous event =
     repo_transaction (ev_others e) (\<lambda>x. x) (recordRoundConcurrency
       \<lparr>rl_batch_id = batchId, rl_round = rt_execution_round c, rl_concurrency = concurrency,
        rl_source = source, rl_rule_id = nonempty ruleId, rl_previous = previous,
        rl_transition_event = event, rl_recorded_at = now\<rparr>)"

text \<open>The concurrency of the round, or nothing when the round has moved on meanwhile.\<close>

definition round_concurrency ::
  "scheduling_env \<Rightarrow> ident \<Rightarrow> time \<Rightarrow> scheduling_snapshot \<Rightarrow> batch_policy \<Rightarrow> int option scheduling_call" where
  "round_concurrency e batchId now sn p =
     (let c = ss_context sn;
          d = retryConcurrencyDecisionForRound (bp_concurrency p) (policy_rules p) c (ss_retry_state sn)
      in case cd_transition d of
           Some st \<Rightarrow>
             svc_bind (repo_transaction (ev_others e) (\<lambda>x. x) (activateRetryConcurrency
               \<lparr>av_batch_id = batchId, av_execution_round = rt_execution_round c,
                av_expected_rule_id = map_option cs_rule_id (ss_retry_state sn), av_state = st,
                av_updated_at = now\<rparr>)) (\<lambda>activated.
               case activated of
                 None \<Rightarrow> svc_return None
               | Some a \<Rightarrow>
                   let previous = (case ss_retry_state sn of None \<Rightarrow> bp_concurrency p | Some old \<Rightarrow> cs_concurrency old)
                   in svc_bind (svc_read (ev_id e)) (\<lambda>eventId.
                      svc_bind (record_round e batchId now c (cs_concurrency a) Rule_Transition
                        (Some (cs_rule_id a)) (Some previous)
                        (Some (concurrency_event e eventId c a previous))) (\<lambda>_.
                      svc_return (Some (cs_concurrency a)))))
         | None \<Rightarrow>
             svc_bind (record_round e batchId now c (cd_concurrency d)
               (recorded_source (cd_active d) (rt_execution_round c))
               (map_option cs_rule_id (cd_active d)) None None) (\<lambda>_.
             svc_return (Some (cd_concurrency d))))"

subsection \<open>The plan\<close>

definition max_assignments :: "scheduling_configuration \<Rightarrow> scheduling_snapshot \<Rightarrow> int option \<Rightarrow> int" where
  "max_assignments cf sn concurrency =
     (let project = max 0 (sf_project_maximum cf - ss_project_active sn)
      in case concurrency of
           None \<Rightarrow> project
         | Some c \<Rightarrow> min (max 0 (c - ss_assigned sn)) project)"

definition plan_candidates :: "scheduling_snapshot \<Rightarrow> (ident \<times> int) list \<Rightarrow> candidate list" where
  "plan_candidates sn live =
     filter (\<lambda>c. map_option bp_executor (bt_policy (ss_batch sn)) \<noteq> Some TestNg_Container \<or>
                 ''executor:testng-container-v1'' \<in> set (rn_capabilities (cd_runner c)))
       (map (\<lambda>c. case map_of (rev live) (rn_id (cd_runner c)) of
                   None \<Rightarrow> c | Some slots \<Rightarrow> c\<lparr>cd_live := Some slots\<rparr>) (ss_candidates sn))"

definition pass_plan ::
  "scheduling_configuration \<Rightarrow> time \<Rightarrow> scheduling_snapshot \<Rightarrow> (ident \<times> int) list \<Rightarrow> int option \<Rightarrow>
   scheduling_plan" where
  "pass_plan cf now sn live concurrency =
     scheduleExecutionRuns
       \<lparr>si_runs = ss_queued sn, si_candidates = plan_candidates sn live,
        si_thresholds = sf_thresholds cf,
        si_fresh_after = metricsFreshAfter now (sf_metrics_maximum_age cf),
        si_excluded = ss_failures sn, si_history = ss_history sn,
        si_max_assignments = Some (max_assignments cf sn concurrency)\<rparr>"

text \<open>A decision of the plan with the identifiers of its attempt and assignment.\<close>

type_synonym planned = "reserve_decision \<times> rat"

fun with_ids :: "scheduling_env \<Rightarrow> decision list \<Rightarrow> planned list scheduling_call" where
  "with_ids e [] = svc_return []"
| "with_ids e (d # ds) =
     svc_bind (svc_read (ev_id e)) (\<lambda>attemptId.
     svc_bind (svc_read (ev_id e)) (\<lambda>assignmentId.
     svc_bind (with_ids e ds) (\<lambda>rest.
     svc_return ((\<lparr>dn_run_id = dc_run_id d, dn_runner_id = dc_runner_id d, dn_attempt_id = attemptId,
       dn_assignment_id = assignmentId\<rparr>, dc_score d) # rest))))"

subsection \<open>The events of a round\<close>

definition plain_event :: "ident \<Rightarrow> ident \<Rightarrow> string \<Rightarrow> string \<Rightarrow> time \<Rightarrow> scheduling_event" where
  "plain_event eventId batchId eventType message recordedAt =
     \<lparr>se_id = eventId, se_batch_id = batchId, se_runner_id = None, se_run_id = None,
      se_attempt_id = None, se_type = eventType, se_message = message, se_payload = None,
      se_recorded_at = recordedAt\<rparr>"

definition display_name :: "scheduling_snapshot \<Rightarrow> ident \<Rightarrow> string" where
  "display_name sn runId =
     (case map_of (map (\<lambda>r. (er_id r, er_display_name r)) (ss_queued sn)) runId of
        None \<Rightarrow> runId | Some n \<Rightarrow> n)"

fun assigned_events ::
  "scheduling_env \<Rightarrow> ident \<Rightarrow> scheduling_snapshot \<Rightarrow> time \<Rightarrow> planned list \<Rightarrow> scheduling_event list scheduling_call" where
  "assigned_events e batchId sn now [] = svc_return []"
| "assigned_events e batchId sn now ((d, score) # ds) =
     svc_bind (svc_read (ev_id e)) (\<lambda>eventId.
     svc_bind (assigned_events e batchId sn now ds) (\<lambda>rest.
     svc_return ((plain_event eventId batchId ''run_assigned''
         (ev_text e (Run_Assigned (display_name sn (dn_run_id d)) (dn_runner_id d) score)) now)
       \<lparr>se_runner_id := Some (dn_runner_id d), se_run_id := Some (dn_run_id d),
        se_attempt_id := Some (dn_attempt_id d)\<rparr> # rest)))"

definition metrics_event ::
  "scheduling_env \<Rightarrow> ident \<Rightarrow> scheduling_plan \<Rightarrow> time \<Rightarrow> ident \<Rightarrow> ident \<Rightarrow> scheduling_event" where
  "metrics_event e batchId plan now runnerId eventId =
     (let evaluation = find (\<lambda>x. el_runner_id x = runnerId) (pl_evaluations plan);
          slots = (case evaluation of None \<Rightarrow> 0 | Some x \<Rightarrow> el_available x)
      in (plain_event eventId batchId ''runner_metrics'' (ev_text e (Runner_Resources runnerId slots)) now)
           \<lparr>se_runner_id := Some runnerId,
            se_payload := Some ([(''availableSlots'', show_int slots)] @
              (case Option.bind evaluation el_score of None \<Rightarrow> [] | Some q \<Rightarrow> [(''score'', ev_score_text e q)]) @
              [(''blockReasons'', ev_reasons_text e
                 (case evaluation of None \<Rightarrow> [] | Some x \<Rightarrow> el_reasons x))])\<rparr>)"

definition throttled :: "(ident \<Rightarrow> time option) \<Rightarrow> time \<Rightarrow> ident \<Rightarrow> bool" where
  "throttled sent now runnerId \<longleftrightarrow>
     (case sent runnerId of None \<Rightarrow> False | Some t \<Rightarrow> now - t < RUNNER_METRICS_THROTTLE_MS)"

definition last_metrics :: "(ident \<Rightarrow> time option) scheduling_call" where
  "last_metrics w = (Inr (sw_last_metrics w), w)"

definition set_metrics :: "ident \<Rightarrow> time \<Rightarrow> unit scheduling_call" where
  "set_metrics runnerId now w =
     (Inr (), w\<lparr>sw_last_metrics := (sw_last_metrics w)(runnerId := Some now)\<rparr>)"

fun metrics_events ::
  "scheduling_env \<Rightarrow> ident \<Rightarrow> scheduling_plan \<Rightarrow> time \<Rightarrow> ident set \<Rightarrow> planned list \<Rightarrow>
   scheduling_event list scheduling_call" where
  "metrics_events e batchId plan now seen [] = svc_return []"
| "metrics_events e batchId plan now seen ((d, score) # ds) =
     (let runnerId = dn_runner_id d
      in if runnerId \<in> seen then metrics_events e batchId plan now seen ds
         else
           svc_bind last_metrics (\<lambda>sent.
             if throttled sent now runnerId then metrics_events e batchId plan now (insert runnerId seen) ds
             else
               svc_bind (svc_read (ev_id e)) (\<lambda>eventId.
               svc_bind (set_metrics runnerId now) (\<lambda>_.
               svc_bind (metrics_events e batchId plan now (insert runnerId seen) ds) (\<lambda>rest.
               svc_return (metrics_event e batchId plan now runnerId eventId # rest))))))"

definition batch_event ::
  "scheduling_env \<Rightarrow> ident \<Rightarrow> scheduling_snapshot \<Rightarrow> nat \<Rightarrow> nat \<Rightarrow> time \<Rightarrow> ident \<Rightarrow> scheduling_event" where
  "batch_event e batchId sn assigned total_assigned now eventId =
     (let remaining = length (ss_queued sn) - total_assigned
      in (plain_event eventId batchId ''batch_scheduled''
            (ev_text e (Batch_Scheduled assigned remaining)) now)
           \<lparr>se_payload := Some [(''assignedCount'', show_nat assigned), (''queueRemaining'', show_nat remaining),
              (''decisions'', show_nat assigned)]\<rparr>)"

definition appendSchedulingRoundEvents ::
  "scheduling_env \<Rightarrow> ident \<Rightarrow> scheduling_snapshot \<Rightarrow> scheduling_plan \<Rightarrow> planned list \<Rightarrow> nat \<Rightarrow> nat \<Rightarrow>
   time \<Rightarrow> unit scheduling_call" where
  "appendSchedulingRoundEvents e batchId sn plan chosen assigned total_assigned now =
     svc_bind (assigned_events e batchId sn now chosen) (\<lambda>runs.
     svc_bind (svc_read (ev_id e)) (\<lambda>eventId.
     svc_bind (metrics_events e batchId plan now {} chosen) (\<lambda>metrics.
     repo_transaction (ev_others e) (\<lambda>x. x) (appendSchedulingEvents
       (runs @ [batch_event e batchId sn assigned total_assigned now eventId] @ metrics)))))"

subsection \<open>Reserving\<close>

definition chunk_input ::
  "ident \<Rightarrow> scheduling_configuration \<Rightarrow> (ident \<times> int) list \<Rightarrow> planned list \<Rightarrow> time \<Rightarrow> ident \<Rightarrow> reserve_input" where
  "chunk_input batchId cf live chunk now eventId =
     \<lparr>ru_batch = batchId, ru_event_id = Some eventId, ru_project_maximum = Some (sf_project_maximum cf),
      ru_decisions = map fst chunk, ru_thresholds = sf_thresholds cf,
      ru_offline_before = offlineBefore now,
      ru_fresh_after = metricsFreshAfter now (sf_metrics_maximum_age cf),
      ru_scheduled_at = now, ru_live = live\<rparr>"

fun reserve_pass ::
  "scheduling_env \<Rightarrow> ident \<Rightarrow> scheduling_configuration \<Rightarrow> (ident \<times> int) list \<Rightarrow> scheduling_snapshot \<Rightarrow>
   scheduling_plan \<Rightarrow> planned list list \<Rightarrow> nat \<Rightarrow> nat scheduling_call" where
  "reserve_pass e batchId cf live sn plan [] reserved = svc_return reserved"
| "reserve_pass e batchId cf live sn plan (chunk # chunks) reserved =
     svc_bind (svc_read (ev_clock e)) (\<lambda>reservationTime.
     svc_bind (svc_read (ev_id e)) (\<lambda>eventId.
     svc_bind (svc_store (ev_others e) (\<lambda>n. reserveAssignments (sq_reserve (ev_tables e n))
       (chunk_input batchId cf live chunk reservationTime eventId))) (\<lambda>ids.
     svc_bind (appendSchedulingRoundEvents e batchId sn plan
       (filter (\<lambda>(d, _). dn_attempt_id d \<in> set ids) chunk) (length ids) (reserved + length ids)
       reservationTime) (\<lambda>_.
     reserve_pass e batchId cf live sn plan chunks (reserved + length ids)))))"

definition plan_and_reserve ::
  "scheduling_env \<Rightarrow> ident \<Rightarrow> scheduling_configuration \<Rightarrow> (ident \<times> int) list \<Rightarrow> scheduling_snapshot \<Rightarrow> time \<Rightarrow>
   int option \<Rightarrow> nat scheduling_call" where
  "plan_and_reserve e batchId cf live sn now concurrency =
     (let plan = pass_plan cf now sn live concurrency
      in svc_bind (with_ids e (pl_decisions plan)) (\<lambda>decisions.
         reserve_pass e batchId cf live sn plan
           (splitIntoChunks decisions ASSIGNMENTS_PER_RESERVATION) 0))"

definition finish_pass :: "scheduling_env \<Rightarrow> ident \<Rightarrow> nat \<Rightarrow> (batch_row \<times> nat) scheduling_call" where
  "finish_pass e batchId reserved =
     svc_bind (getSummary e batchId) (\<lambda>b. svc_return (b, reserved))"

definition snapshot_pass ::
  "scheduling_env \<Rightarrow> ident \<Rightarrow> scheduling_configuration \<Rightarrow> (ident \<times> int) list \<Rightarrow> time \<Rightarrow> scheduling_snapshot \<Rightarrow>
   (batch_row \<times> nat) scheduling_call" where
  "snapshot_pass e batchId cf live now sn =
     (if ss_queued sn = [] then finish_pass e batchId 0
      else
        (case bt_policy (ss_batch sn) of
           None \<Rightarrow> svc_bind (plan_and_reserve e batchId cf live sn now None) (finish_pass e batchId)
         | Some p \<Rightarrow>
             svc_bind (round_concurrency e batchId now sn p) (\<lambda>concurrency.
               case concurrency of
                 None \<Rightarrow> finish_pass e batchId 0
               | Some c \<Rightarrow>
                   svc_bind (plan_and_reserve e batchId cf live sn now (Some c)) (finish_pass e batchId))))"

definition scheduleBatch ::
  "scheduling_env \<Rightarrow> ident \<Rightarrow> (ident \<times> int) list \<Rightarrow> (batch_row \<times> nat) scheduling_call" where
  "scheduleBatch e batchId live =
     svc_bind (svc_read (ev_clock e)) (\<lambda>now.
     svc_bind (repo_read e (\<lambda>_ s. reserve_hasSchedulableRuns s batchId)) (\<lambda>schedulable.
       if \<not> schedulable then finish_pass e batchId 0
       else
         svc_bind (svc_read (currentSchedulingConfiguration e)) (\<lambda>cf.
         svc_bind (repo_read e (\<lambda>n s. map_option (\<lambda>sn. (sn, sq_scheduled_for (ev_tables e n) batchId))
           (getSchedulingSnapshot (ev_tables e n) batchId (offlineBefore now)
             (min MAXIMUM_SCHEDULING_WINDOW (sf_project_maximum cf)) s))) (\<lambda>snapshot.
         svc_bind (required snapshot) (\<lambda>(sn, scheduledFor).
           if bt_pause_requested_at (ss_batch sn) \<noteq> None \<or> now < scheduledFor
             then svc_return (ss_batch sn, 0)
           else snapshot_pass e batchId cf live now sn)))))"

section \<open>What a pass keeps\<close>

lemma keeps_required [keeps_rules]: "svc_keeps P (required v)"
  unfolding required_def by (rule valid_call)

lemma keeps_last [keeps_rules]: "svc_keeps P last_metrics"
  by (rule svc_validI) (auto simp: last_metrics_def)

lemma keeps_set [keeps_rules]: "svc_keeps P (set_metrics runnerId now)"
  by (rule svc_validI) (auto simp: set_metrics_def)

lemma keeps_repo_read: "stable_env (ev_others e) P \<Longrightarrow> svc_keeps P (repo_read e f)"
  unfolding repo_read_def by (rule valid_store) auto

lemma keeps_finish: "stable_env (ev_others e) P \<Longrightarrow> svc_keeps P (finish_pass e batchId n)"
  unfolding finish_pass_def getSummary_def by (intro keeps_rules keeps_repo_read)

lemma keeps_with_ids: "svc_keeps P (with_ids e ds)"
  by (induction ds) (auto intro!: keeps_rules)

lemma keeps_assigned: "svc_keeps P (assigned_events e batchId sn now ds)"
  by (induction ds) (auto intro!: keeps_rules)

lemma keeps_metrics: "svc_keeps P (metrics_events e batchId plan now seen ds)"
  by (induction ds arbitrary: seen) (auto simp: Let_def intro!: keeps_rules)

text \<open>What the transactions of a pass have to keep.\<close>

definition pass_invariant :: "scheduling_env \<Rightarrow> (store \<Rightarrow> bool) \<Rightarrow> bool" where
  "pass_invariant e P \<longleftrightarrow>
     stable_env (ev_others e) P \<and>
     (\<forall>i s. P s \<longrightarrow> P (snd (activateRetryConcurrency i s))) \<and>
     (\<forall>i s. P s \<longrightarrow> P (snd (recordRoundConcurrency i s))) \<and>
     (\<forall>es s. P s \<longrightarrow> P (snd (appendSchedulingEvents es s))) \<and>
     (\<forall>n tb i s. ru_project_maximum i = Some (sf_project_maximum (currentSchedulingConfiguration e n)) \<longrightarrow>
        P s \<longrightarrow> P (snd (reserveAssignments tb i s)))"

lemma pass_stable: "pass_invariant e P \<Longrightarrow> stable_env (ev_others e) P"
  by (simp add: pass_invariant_def)

lemma keeps_pass_transaction:
  assumes "stable_env others P" "\<And>s. P s \<Longrightarrow> P (snd (f s))"
  shows "svc_keeps P (repo_transaction others g f)"
  by (rule valid_transaction [OF assms(1)]) (metis assms(2) snd_conv)+

lemma keeps_round_events:
  assumes "pass_invariant e P"
  shows "svc_keeps P (appendSchedulingRoundEvents e batchId sn plan ds a b now)"
  unfolding appendSchedulingRoundEvents_def
  by (intro keeps_rules keeps_assigned keeps_metrics keeps_pass_transaction [OF pass_stable [OF assms]])
    (use assms in \<open>simp add: pass_invariant_def\<close>)

lemma keeps_concurrency:
  assumes "pass_invariant e P"
  shows "svc_keeps P (round_concurrency e batchId now sn p)"
proof -
  have r: "svc_keeps P (record_round e batchId now c n source ruleId previous ev)"
    for c n source ruleId previous ev
    unfolding record_round_def
    by (rule keeps_pass_transaction [OF pass_stable [OF assms]]) (use assms in \<open>simp add: pass_invariant_def\<close>)
  have a: "svc_keeps P (repo_transaction (ev_others e) (\<lambda>x. x) (activateRetryConcurrency i))" for i
    by (rule keeps_pass_transaction [OF pass_stable [OF assms]]) (use assms in \<open>simp add: pass_invariant_def\<close>)
  show ?thesis
    unfolding round_concurrency_def Let_def
    by (auto intro!: keeps_rules r a split: option.split)
qed

lemma keeps_reserve_pass:
  assumes "pass_invariant e P" "cf = currentSchedulingConfiguration e n"
  shows "svc_keeps P (reserve_pass e batchId cf live sn plan chunks k)"
proof (induction chunks arbitrary: k)
  case (Cons chunk chunks)
  have res: "P t" if "P s" "reserveAssignments tb (chunk_input batchId cf live chunk now i) s = (r, t)"
    for s tb now i r t
    using assms(1) that unfolding pass_invariant_def
    by (metis assms(2) chunk_input_def reserve_input.select_convs(3) snd_conv)
  show ?case
    unfolding reserve_pass.simps
    by (intro keeps_bind valid_read keeps_round_events [OF assms(1)] Cons.IH
        valid_store [OF pass_stable [OF assms(1)]]) (erule (1) res)+
qed (simp add: keeps_return)

lemma keeps_schedule_batch:
  assumes "pass_invariant e P"
  shows "svc_keeps P (scheduleBatch e batchId live)"
proof -
  note st = pass_stable [OF assms]
  have reserve: "svc_keeps P (plan_and_reserve e batchId (currentSchedulingConfiguration e n) live sn now c)"
    for n sn now c
    unfolding plan_and_reserve_def Let_def
    by (intro keeps_rules keeps_with_ids keeps_reserve_pass [OF assms refl])
  have pass: "svc_keeps P (snapshot_pass e batchId (currentSchedulingConfiguration e n) live now sn)" for n now sn
    unfolding snapshot_pass_def
    by (auto intro!: keeps_rules reserve keeps_concurrency [OF assms] keeps_finish [OF st] split: option.split)
  have conf: "svc_valid P (svc_read (currentSchedulingConfiguration e))
      (\<lambda>cf s. (\<exists>n. cf = currentSchedulingConfiguration e n) \<and> P s) P"
    by (rule svc_validI) (auto simp: svc_read_def svc_call_def)
  show ?thesis
    unfolding scheduleBatch_def
  proof (intro keeps_bind valid_read keeps_repo_read [OF st])
    fix now schedulable
    let ?rest = "\<lambda>cf. svc_bind (repo_read e (\<lambda>n s. map_option (\<lambda>sn. (sn, sq_scheduled_for (ev_tables e n) batchId))
        (getSchedulingSnapshot (ev_tables e n) batchId (offlineBefore now)
          (min MAXIMUM_SCHEDULING_WINDOW (sf_project_maximum cf)) s))) (\<lambda>snapshot.
      svc_bind (required snapshot) (\<lambda>(sn, scheduledFor).
        if bt_pause_requested_at (ss_batch sn) \<noteq> None \<or> now < scheduledFor
          then svc_return (ss_batch sn, 0)
        else snapshot_pass e batchId cf live now sn))"
    have rest: "svc_valid (\<lambda>s. (\<exists>n. cf = currentSchedulingConfiguration e n) \<and> P s) (?rest cf) (\<lambda>_. P) P" for cf
    proof (cases "\<exists>n. cf = currentSchedulingConfiguration e n")
      case True
      then obtain n where "cf = currentSchedulingConfiguration e n" by blast
      then have "svc_keeps P (?rest cf)"
        by (auto intro!: keeps_rules keeps_repo_read [OF st] pass)
      then show ?thesis by (rule valid_pre) simp
    next
      case False
      then show ?thesis by (intro valid_False) blast
    qed
    show "svc_keeps P (if \<not> schedulable then finish_pass e batchId 0
        else svc_bind (svc_read (currentSchedulingConfiguration e)) ?rest)"
      using keeps_finish [OF st] valid_bind [OF conf rest] by simp
  qed
qed

subsection \<open>Consistency and limits\<close>

text \<open>A pass changes the store by steps of the repository only.\<close>

lemma pass_steps:
  assumes "\<And>n s. exec_step\<^sup>*\<^sup>* s (ev_others e n s)"
  shows "exec_step\<^sup>*\<^sup>* (wd_store w) (wd_store (snd (scheduleBatch e batchId live w)))"
proof -
  let ?P = "exec_step\<^sup>*\<^sup>* (wd_store w)"
  have more: "?P t" if "?P s" "exec_step s t" for s t
    using that by (rule rtranclp.rtrancl_into_rtrancl)
  have "pass_invariant e ?P"
    unfolding pass_invariant_def stable_env_def
  proof (intro conjI allI impI)
    show "?P (ev_others e n s)" if "?P s" for n s using that assms [of s n] by (rule rtranclp_trans)
    show "?P (snd (activateRetryConcurrency i s))" if "?P s" for i s
      by (rule more [OF that exec_step.activate_concurrency [OF prod.collapse [symmetric]]])
    show "?P (snd (recordRoundConcurrency i s))" if "?P s" for i s
      by (rule more [OF that exec_step.record_concurrency [OF prod.collapse [symmetric]]])
    show "?P (snd (appendSchedulingEvents es s))" if "?P s" for es s
      by (rule more [OF that exec_step.scheduling_events [OF prod.collapse [symmetric]]])
    show "?P (snd (reserveAssignments tb i s))" if "?P s" for tb i s
      by (rule more [OF that exec_step.reserve [OF prod.collapse [symmetric]]])
  qed
  then show ?thesis by (rule valid_result [OF keeps_schedule_batch]) simp
qed

lemma reserve_any_project:
  assumes "reserveAssignments tb i s = (r, t)" "store_ok s" "ru_project_maximum i = Some m"
  shows "projectActiveRuns t p \<le> max m (projectActiveRuns s p)"
proof (cases r)
  case (Inl x)
  then have "t = s" using assms(1) by (simp add: reserveAssignments_def transaction_Inl)
  then show ?thesis by simp
next
  case (Inr ids)
  then have body: "reserve_body tb i s = Inr (ids, t)"
    using assms(1) by (simp add: reserveAssignments_def transaction_Inr)
  then obtain b where b: "find_batch s (ru_batch i) = Some b"
    by (auto simp: reserve_body_def and_then_eq_Inr found_eq_Inr)
  show ?thesis
  proof (cases "bt_project_id b = p")
    case True
    then show ?thesis using reserve_project_bound [OF body assms(2) b assms(3)] by simp
  next
    case False
    let ?Q = "\<lambda>x. bt_project_id x = p \<and> active_batch (bt_status x)"
    have "flying t ?Q = flying s ?Q + (if ?Q b then length ids else 0)"
      by (rule reserve_body_flying [OF body assms(2) b]) simp
    then show ?thesis using False by (simp add: projectActiveRuns_flying)
  qed
qed

lemma project_unchanged:
  "st_attempts t = st_attempts s \<Longrightarrow> st_runs t = st_runs s \<Longrightarrow> st_batches t = st_batches s \<Longrightarrow>
     projectActiveRuns t p = projectActiveRuns s p"
proof -
  assume t: "st_attempts t = st_attempts s" "st_runs t = st_runs s" "st_batches t = st_batches s"
  have "find_run t = find_run s" "find_batch t = find_batch s"
    by (simp_all add: fun_eq_iff find_run_def find_batch_def t)
  then have "in_flight t = in_flight s" by (simp add: in_flight_def [abs_def] cong: option.case_cong)
  then show ?thesis by (simp add: projectActiveRuns_def t)
qed

lemma activate_tables:
  "st_attempts (snd (activateRetryConcurrency i s)) = st_attempts s \<and>
   st_runs (snd (activateRetryConcurrency i s)) = st_runs s \<and>
   st_batches (snd (activateRetryConcurrency i s)) = st_batches s"
proof (cases "fst (activateRetryConcurrency i s)")
  case (Inl x)
  then have "activateRetryConcurrency i s = (Inl x, snd (activateRetryConcurrency i s))"
    by (metis prod.collapse)
  then show ?thesis by (simp add: activateRetryConcurrency_def transaction_Inl)
next
  case (Inr v)
  then have "activateRetryConcurrency i s = (Inr v, snd (activateRetryConcurrency i s))"
    by (metis prod.collapse)
  then show ?thesis by (cases rule: activation_progress) simp_all
qed

lemma record_tables:
  "st_attempts (snd (recordRoundConcurrency i s)) = st_attempts s \<and>
   st_runs (snd (recordRoundConcurrency i s)) = st_runs s \<and>
   st_batches (snd (recordRoundConcurrency i s)) = st_batches s"
proof (cases "fst (recordRoundConcurrency i s)")
  case (Inl x)
  then have "recordRoundConcurrency i s = (Inl x, snd (recordRoundConcurrency i s))"
    by (metis prod.collapse)
  then have "snd (recordRoundConcurrency i s) = s"
    by (auto simp: recordRoundConcurrency_def transaction_Inl split: option.splits if_splits)
  then show ?thesis by simp
next
  case (Inr v)
  then have "recordRoundConcurrency i s = (Inr v, snd (recordRoundConcurrency i s))"
    by (metis prod.collapse)
  then show ?thesis
  proof (cases rule: record_cases)
    case (Created rows)
    from Created(2) show ?thesis
    proof (elim disjE exE)
      fix es assume "appendSchedulingEventDrafts es (s\<lparr>st_round_concurrencies := rows\<rparr>) =
          Inr (snd (recordRoundConcurrency i s))"
      from drafts_tables [OF this] show ?thesis by simp
    qed simp
  qed simp_all
qed

lemma append_events_tables:
  "st_attempts (snd (appendSchedulingEvents es s)) = st_attempts s \<and>
   st_runs (snd (appendSchedulingEvents es s)) = st_runs s \<and>
   st_batches (snd (appendSchedulingEvents es s)) = st_batches s"
proof (cases "appendSchedulingEventDrafts es s")
  case (Inl x)
  then show ?thesis by (simp add: appendSchedulingEvents_def transaction_def and_then_def)
next
  case (Inr t)
  then show ?thesis using drafts_tables [OF Inr]
    by (simp add: appendSchedulingEvents_def transaction_def and_then_def)
qed

text \<open>
  The passes of all processes together keep every project within its limit, whatever the snapshots
  they plan from: each reservation counts again.
\<close>

lemma pass_project_limit:
  assumes rely: "\<And>n s. store_ok s \<Longrightarrow> projectActiveRuns s p \<le> m \<Longrightarrow>
      store_ok (ev_others e n s) \<and> projectActiveRuns (ev_others e n s) p \<le> m"
    and conf: "\<And>n. sf_project_maximum (currentSchedulingConfiguration e n) \<le> m"
    and w: "store_ok (wd_store w)" "projectActiveRuns (wd_store w) p \<le> m"
  shows "store_ok (wd_store (snd (scheduleBatch e batchId live w))) \<and>
    projectActiveRuns (wd_store (snd (scheduleBatch e batchId live w))) p \<le> m"
proof -
  let ?P = "\<lambda>s. store_ok s \<and> projectActiveRuns s p \<le> m"
  have ok: "store_ok t" if "exec_step s t" "store_ok s" for s t
    using exec_step_advances [OF that] by (simp add: advances_def)
  have "pass_invariant e ?P"
    unfolding pass_invariant_def
  proof (intro conjI allI impI)
    show "stable_env (ev_others e) ?P" using rely by (simp add: stable_env_def)
    fix i s assume s: "?P s"
    show "store_ok (snd (activateRetryConcurrency i s))"
      by (rule ok [OF exec_step.activate_concurrency [OF prod.collapse [symmetric]]]) (simp add: s)
    show "projectActiveRuns (snd (activateRetryConcurrency i s)) p \<le> m"
      using s activate_tables [of i s] project_unchanged [of "snd (activateRetryConcurrency i s)" s p] by simp
  next
    fix i s assume s: "?P s"
    show "store_ok (snd (recordRoundConcurrency i s))"
      by (rule ok [OF exec_step.record_concurrency [OF prod.collapse [symmetric]]]) (simp add: s)
    show "projectActiveRuns (snd (recordRoundConcurrency i s)) p \<le> m"
      using s record_tables [of i s] project_unchanged [of "snd (recordRoundConcurrency i s)" s p] by simp
  next
    fix es s assume s: "?P s"
    show "store_ok (snd (appendSchedulingEvents es s))"
      by (rule ok [OF exec_step.scheduling_events [OF prod.collapse [symmetric]]]) (simp add: s)
    show "projectActiveRuns (snd (appendSchedulingEvents es s)) p \<le> m"
      using s append_events_tables [of es s] project_unchanged [of "snd (appendSchedulingEvents es s)" s p] by simp
  next
    fix n tb and i :: reserve_input and s
    assume i: "ru_project_maximum i = Some (sf_project_maximum (currentSchedulingConfiguration e n))" and s: "?P s"
    show "store_ok (snd (reserveAssignments tb i s))"
      by (rule ok [OF exec_step.reserve [OF prod.collapse [symmetric]]]) (simp add: s)
    have "projectActiveRuns (snd (reserveAssignments tb i s)) p \<le>
        max (sf_project_maximum (currentSchedulingConfiguration e n)) (projectActiveRuns s p)"
      by (rule reserve_any_project [OF prod.collapse [symmetric] _ i]) (simp add: s)
    then show "projectActiveRuns (snd (reserveAssignments tb i s)) p \<le> m" using s conf [of n] by linarith
  qed
  then have "svc_keeps ?P (scheduleBatch e batchId live)" by (rule keeps_schedule_batch)
  then show ?thesis by (rule valid_result) (intro conjI w)
qed

text \<open>A batch whose start lies in the future is left alone.\<close>

lemma delayed_pass:
  assumes "\<And>n m. ev_clock e n < sq_scheduled_for (ev_tables e m) batchId"
    and "scheduleBatch e batchId live w = (Inr (b, n), w')"
  shows "n = 0 \<and> (\<lambda>s t. \<exists>n. t = ev_others e n s)\<^sup>*\<^sup>* (wd_store w) (wd_store w')"
proof -
  let ?P = "(\<lambda>s t. \<exists>n. t = ev_others e n s)\<^sup>*\<^sup>* (wd_store w)"
  let ?Q = "\<lambda>(b :: batch_row, n :: nat) s. n = 0 \<and> ?P s"
  have st: "stable_env (ev_others e) ?P"
    unfolding stable_env_def by (blast intro: rtranclp.rtrancl_into_rtrancl)
  have finish: "svc_valid ?P (finish_pass e batchId 0) ?Q ?P"
    unfolding finish_pass_def getSummary_def
    by (rule valid_bind [OF keeps_bind [OF keeps_repo_read [OF st] keeps_required]]) (auto intro: valid_return)
  have now: "svc_valid ?P (svc_read (ev_clock e)) (\<lambda>t s. (\<exists>n. t = ev_clock e n) \<and> ?P s) ?P"
    by (rule svc_validI) (auto simp: svc_read_def svc_call_def)
  have snap: "svc_valid ?P (repo_read e (\<lambda>n s. map_option (\<lambda>sn. (sn, sq_scheduled_for (ev_tables e n) batchId))
        (getSchedulingSnapshot (ev_tables e n) batchId x y s)))
      (\<lambda>v s. (\<forall>sn t. v = Some (sn, t) \<longrightarrow> (\<exists>m. t = sq_scheduled_for (ev_tables e m) batchId)) \<and> ?P s) ?P"
    for x y
    unfolding repo_read_def by (rule valid_store [OF st]) auto
  have req: "svc_valid (\<lambda>s. (\<forall>sn t. v = Some (sn, t) \<longrightarrow> (\<exists>m. t = sq_scheduled_for (ev_tables e m) batchId)) \<and> ?P s)
      (required v) (\<lambda>(sn, t) s. (\<exists>m. t = sq_scheduled_for (ev_tables e m) batchId) \<and> ?P s) ?P" for v
    by (rule svc_validI) (auto simp: required_def svc_call_def found_def split: option.splits)
  have "svc_valid ?P (scheduleBatch e batchId live) ?Q ?P"
    unfolding scheduleBatch_def
  proof (rule valid_bind [OF now], rule valid_bind)
    fix now
    show "svc_valid (\<lambda>s. (\<exists>n. now = ev_clock e n) \<and> ?P s) (repo_read e (\<lambda>_ s. reserve_hasSchedulableRuns s batchId))
        (\<lambda>_ s. (\<exists>n. now = ev_clock e n) \<and> ?P s) ?P"
      unfolding repo_read_def by (rule valid_store) (use st in \<open>auto simp: stable_env_def\<close>)
  next
    fix now schedulable
    have "svc_valid (\<lambda>s. (\<exists>m. t = sq_scheduled_for (ev_tables e m) batchId) \<and> ?P s)
        (if bt_pause_requested_at (ss_batch sn) \<noteq> None \<or> now < t then svc_return (ss_batch sn, 0)
         else snapshot_pass e batchId cf live now sn) ?Q ?P" if "now = ev_clock e k" for sn t cf k
    proof (cases "now < t")
      case True
      then show ?thesis by (auto intro: valid_return)
    next
      case False
      then have "\<nexists>m. t = sq_scheduled_for (ev_tables e m) batchId" using assms(1) that by auto
      then show ?thesis by (intro valid_False) blast
    qed
    note inner = this
    have body: "svc_valid ?P (if \<not> schedulable then finish_pass e batchId 0
        else svc_bind (svc_read (currentSchedulingConfiguration e)) (\<lambda>cf.
          svc_bind (repo_read e (\<lambda>n s. map_option (\<lambda>sn. (sn, sq_scheduled_for (ev_tables e n) batchId))
            (getSchedulingSnapshot (ev_tables e n) batchId (offlineBefore now)
              (min MAXIMUM_SCHEDULING_WINDOW (sf_project_maximum cf)) s))) (\<lambda>snapshot.
          svc_bind (required snapshot) (\<lambda>(sn, scheduledFor).
            if bt_pause_requested_at (ss_batch sn) \<noteq> None \<or> now < scheduledFor
              then svc_return (ss_batch sn, 0)
            else snapshot_pass e batchId cf live now sn)))) ?Q ?P" if "now = ev_clock e k" for k
    proof (cases schedulable)
      case True
      show ?thesis
        apply (simp only: True not_True_eq_False if_False)
        apply (rule valid_bind [OF valid_read])
        apply (rule valid_bind [OF snap])
        apply (rule valid_bind [OF req])
      proof -
        fix cf and v :: "(scheduling_snapshot \<times> time) option" and x :: "scheduling_snapshot \<times> time"
        obtain sn t where x: "x = (sn, t)" by fastforce
        show "svc_valid ((\<lambda>(sn, t) s. (\<exists>m. t = sq_scheduled_for (ev_tables e m) batchId) \<and> ?P s) x)
            ((\<lambda>(sn, scheduledFor). if bt_pause_requested_at (ss_batch sn) \<noteq> None \<or> now < scheduledFor
                then svc_return (ss_batch sn, 0)
              else snapshot_pass e batchId cf live now sn) x) ?Q ?P"
          unfolding x prod.case by (rule inner [OF that])
      qed
    next
      case False
      then show ?thesis using finish by simp
    qed
    show "svc_valid (\<lambda>s. (\<exists>n. now = ev_clock e n) \<and> ?P s) (if \<not> schedulable then finish_pass e batchId 0
        else svc_bind (svc_read (currentSchedulingConfiguration e)) (\<lambda>cf.
          svc_bind (repo_read e (\<lambda>n s. map_option (\<lambda>sn. (sn, sq_scheduled_for (ev_tables e n) batchId))
            (getSchedulingSnapshot (ev_tables e n) batchId (offlineBefore now)
              (min MAXIMUM_SCHEDULING_WINDOW (sf_project_maximum cf)) s))) (\<lambda>snapshot.
          svc_bind (required snapshot) (\<lambda>(sn, scheduledFor).
            if bt_pause_requested_at (ss_batch sn) \<noteq> None \<or> now < scheduledFor
              then svc_return (ss_batch sn, 0)
            else snapshot_pass e batchId cf live now sn)))) ?Q ?P"
    proof (cases "\<exists>n. now = ev_clock e n")
      case True
      then obtain k where k: "now = ev_clock e k" by blast
      show ?thesis by (rule valid_pre [OF body [OF k]]) (erule conjunct2)
    next
      case False
      then show ?thesis by (intro valid_False) blast
    qed
  qed
  moreover have "?P (wd_store w)" by simp
  ultimately have "?Q (b, n) (wd_store w')" using assms(2) by (rule svc_valid_Inr)
  then show ?thesis by simp
qed

end
