(* ===== verification/Coalesced.thy ===== *)
theory Coalesced
  imports Prelude "HOL-Library.AList"
begin

text \<open>
  Coalescing of concurrent requests, \<open>packages/application/src/coalesced-operation.ts\<close> with its use in
  \<open>scheduleWithCount\<close> of \<open>schedule-run-batches.ts\<close>: while a pass for a batch is under way further
  requests only raise a generation, and one more pass serves all of them. The operation leaves the
  table of operations in flight in a later microtask than the one that ends its loop; requests of
  that window are the last rule of the machine.
\<close>

section \<open>Live capacities\<close>

text \<open>A \<open>Map\<close> keeps the position of a key that is set again.\<close>

definition mergeLiveCapacities :: "(ident \<times> int) list \<Rightarrow> (ident \<times> int) list \<Rightarrow> (ident \<times> int) list" where
  "mergeLiveCapacities target capacities = foldl (\<lambda>m (k, n). AList.update k n m) target capacities"

text \<open>What is taken, and the emptied map.\<close>

definition takeLiveCapacities ::
  "(ident \<times> int) list \<Rightarrow> (ident \<times> int) list \<times> (ident \<times> int) list" where
  "takeLiveCapacities source = (source, [])"

section \<open>The machine\<close>

text \<open>
  \<open>cg_pass\<close> is the generation and the capacities of the pass under way, \<open>cg_passes\<close> the passes that
  have ended, \<open>cg_resolved\<close> that the loop has left, \<open>cg_listed\<close> that the operation is in
  \<open>schedulingInFlight\<close>.
\<close>

record coalesced =
  cg_requested :: nat
  cg_completed :: nat
  cg_pass :: "(nat \<times> (ident \<times> int) list) option"
  cg_passes :: nat
  cg_pending :: "(ident \<times> int) list"
  cg_resolved :: bool
  cg_failed :: bool
  cg_listed :: bool

definition coalesced_start :: "(ident \<times> int) list \<Rightarrow> coalesced" where
  "coalesced_start capacities =
     (let (taken, pending) = takeLiveCapacities (mergeLiveCapacities [] capacities)
      in \<lparr>cg_requested = 1, cg_completed = 0, cg_pass = Some (1, taken), cg_passes = 0,
          cg_pending = pending, cg_resolved = False, cg_failed = False, cg_listed = True\<rparr>)"

definition requestAnotherPass :: "(ident \<times> int) list \<Rightarrow> coalesced \<Rightarrow> coalesced" where
  "requestAnotherPass capacities s =
     s\<lparr>cg_pending := mergeLiveCapacities (cg_pending s) capacities, cg_requested := cg_requested s + 1\<rparr>"

text \<open>The end of a pass and the condition of the loop: the next pass starts in the same step.\<close>

definition end_pass :: "nat \<Rightarrow> coalesced \<Rightarrow> coalesced" where
  "end_pass generation s =
     (let s1 = s\<lparr>cg_completed := generation, cg_passes := cg_passes s + 1\<rparr>
      in if generation < cg_requested s then
           (let (taken, pending) = takeLiveCapacities (cg_pending s)
            in s1\<lparr>cg_pass := Some (cg_requested s, taken), cg_pending := pending\<rparr>)
         else s1\<lparr>cg_pass := None, cg_resolved := True\<rparr>)"

inductive coalesced_step :: "coalesced \<Rightarrow> coalesced \<Rightarrow> bool" where
  request: "cg_listed s \<Longrightarrow> \<not> cg_resolved s \<Longrightarrow> coalesced_step s (requestAnotherPass capacities s)"
| end_pass: "cg_pass s = Some (g, taken) \<Longrightarrow> coalesced_step s (end_pass g s)"
| fail_pass: "cg_pass s = Some (g, taken) \<Longrightarrow>
    coalesced_step s (s\<lparr>cg_pass := None, cg_resolved := True, cg_failed := True\<rparr>)"
| remove: "cg_listed s \<Longrightarrow> cg_resolved s \<Longrightarrow> coalesced_step s (s\<lparr>cg_listed := False\<rparr>)"
| late_request: "cg_listed s \<Longrightarrow> cg_resolved s \<Longrightarrow> coalesced_step s (requestAnotherPass capacities s)"

text \<open>The machine without requests in the window.\<close>

inductive prompt_step :: "coalesced \<Rightarrow> coalesced \<Rightarrow> bool" where
  "coalesced_step s t \<Longrightarrow> (cg_resolved s \<Longrightarrow> cg_requested t = cg_requested s) \<Longrightarrow> prompt_step s t"

section \<open>Every request is served\<close>

definition coalesced_ok :: "coalesced \<Rightarrow> bool" where
  "coalesced_ok s \<longleftrightarrow>
     cg_completed s \<le> cg_requested s \<and> cg_passes s \<le> cg_completed s \<and>
     (case cg_pass s of
        Some (g, _) \<Rightarrow> cg_completed s < g \<and> g \<le> cg_requested s \<and> \<not> cg_resolved s
      | None \<Rightarrow> cg_resolved s)"

lemma coalesced_ok_start: "coalesced_ok (coalesced_start capacities)"
  by (simp add: coalesced_ok_def coalesced_start_def takeLiveCapacities_def)

lemma coalesced_ok_step: "coalesced_step s t \<Longrightarrow> coalesced_ok s \<Longrightarrow> coalesced_ok t"
  by (induction rule: coalesced_step.induct)
    (auto simp: coalesced_ok_def requestAnotherPass_def end_pass_def takeLiveCapacities_def Let_def
      split: option.splits)

lemma coalesced_ok_reachable: "coalesced_step\<^sup>*\<^sup>* (coalesced_start c) s \<Longrightarrow> coalesced_ok s"
  by (induction rule: rtranclp_induct) (auto intro: coalesced_ok_start coalesced_ok_step)

text \<open>
  When the operation has ended without failing, a pass has been completed that started after the last
  request, and there were at most as many passes as requests.
\<close>

definition all_served :: "coalesced \<Rightarrow> bool" where
  "all_served s \<longleftrightarrow> (cg_resolved s \<longrightarrow> cg_failed s \<or> cg_completed s = cg_requested s)"

lemma all_served_step:
  assumes "prompt_step s t" "all_served s" "coalesced_ok s"
  shows "all_served t"
  using assms(1)
proof (cases rule: prompt_step.cases)
  case 1
  from 1(1) show ?thesis
  proof (cases rule: coalesced_step.cases)
    case (end_pass g taken)
    then show ?thesis using assms(3)
      by (auto simp: all_served_def end_pass_def coalesced_ok_def Let_def takeLiveCapacities_def)
  next
    case (late_request capacities)
    then show ?thesis using 1(2) by (simp add: requestAnotherPass_def)
  qed (use assms(2) in \<open>simp_all add: all_served_def requestAnotherPass_def\<close>)
qed

lemma prompt_serves:
  assumes "prompt_step\<^sup>*\<^sup>* (coalesced_start c) s"
  shows "coalesced_ok s \<and> all_served s"
  using assms
proof (induction rule: rtranclp_induct)
  case base
  then show ?case using coalesced_ok_start by (simp add: all_served_def coalesced_start_def takeLiveCapacities_def)
next
  case (step s t)
  then have "coalesced_step s t" by (auto elim: prompt_step.cases)
  then show ?case using step all_served_step coalesced_ok_step by blast
qed

section \<open>The window\<close>

text \<open>A request in the window is not served: no pass starts after it, in whatever way the machine goes on.\<close>

definition unserved :: "nat \<Rightarrow> coalesced \<Rightarrow> bool" where
  "unserved k s \<longleftrightarrow> cg_resolved s \<and> cg_pass s = None \<and> cg_completed s \<le> k \<and> k < cg_requested s"

lemma unserved_step: "coalesced_step s t \<Longrightarrow> unserved k s \<Longrightarrow> unserved k t"
  by (induction rule: coalesced_step.induct) (auto simp: unserved_def requestAnotherPass_def)

lemma unserved_steps: "coalesced_step\<^sup>*\<^sup>* s t \<Longrightarrow> unserved k s \<Longrightarrow> unserved k t"
  by (induction rule: rtranclp_induct) (auto intro: unserved_step)

lemma late_request_lost:
  assumes "coalesced_step\<^sup>*\<^sup>* (coalesced_start c) s" "cg_listed s" "cg_resolved s"
    "coalesced_step\<^sup>*\<^sup>* (requestAnotherPass d s) t"
  shows "cg_completed t < cg_requested t \<and> cg_pass t = None"
proof -
  have "coalesced_ok s" by (rule coalesced_ok_reachable [OF assms(1)])
  then have "unserved (cg_completed s) (requestAnotherPass d s)"
    using assms(3) by (auto simp: unserved_def coalesced_ok_def requestAnotherPass_def split: option.splits)
  then have "unserved (cg_completed s) t" by (rule unserved_steps [OF assms(4)])
  then show ?thesis by (simp add: unserved_def)
qed

end
