(* ===== verification/Case_Sources.thy ===== *)
theory Case_Sources
  imports Prelude
begin

text \<open>
  Comparison of two sources of cases (JAR directories), \<open>compareCaseSourceSnapshots\<close> of
  \<open>packages/domain/src/case-source-lifecycle.ts\<close>. The collation of \<open>localeCompare\<close> is a
  parameter that gives the sort key of a class name.
\<close>

section \<open>The comparison\<close>

record source_entry =
  xe_class_name :: string
  xe_case_definition_id :: "ident option"
  xe_signature :: string

record source_diff =
  xd_added :: "source_entry list"
  xd_changed :: "source_entry list"
  xd_removed :: "source_entry list"
  xd_conflicts :: "source_entry list"
  xd_truncated :: bool

definition CASE_SOURCE_COMPARISON_ENTRY_LIMIT :: nat where
  "CASE_SOURCE_COMPARISON_ENTRY_LIMIT = 5000"

type_synonym entry_groups = "(string \<times> source_entry list) list"

definition groupByClassName :: "source_entry list \<Rightarrow> entry_groups" where
  "groupByClassName entries =
     map (\<lambda>k. (k, filter (\<lambda>x. xe_class_name x = k) entries)) (dedup (map xe_class_name entries))"

definition conflict_groups :: "entry_groups \<Rightarrow> source_entry list" where
  "conflict_groups groups = concat (map (\<lambda>(k, g). if 1 < length g then g else []) groups)"

text \<open>What the loop over the candidate does with a class: added, changed, or neither.\<close>

definition candidate_class ::
  "entry_groups \<Rightarrow> string \<times> source_entry list \<Rightarrow> source_entry list \<times> source_entry list" where
  "candidate_class current = (\<lambda>(k, candidateGroup).
     let currentGroup = map_of current k
     in if 1 < length candidateGroup \<or> (case currentGroup of None \<Rightarrow> False | Some g \<Rightarrow> 1 < length g)
          then ([], [])
        else (case candidateGroup of
            [] \<Rightarrow> ([], [])
          | x # _ \<Rightarrow>
              (case Option.bind currentGroup (\<lambda>g. case g of [] \<Rightarrow> None | c # _ \<Rightarrow> Some c) of
                 None \<Rightarrow> ([x], [])
               | Some c \<Rightarrow> if xe_signature c \<noteq> xe_signature x then ([], [x]) else ([], []))))"

definition removed_class :: "entry_groups \<Rightarrow> string \<times> source_entry list \<Rightarrow> source_entry list" where
  "removed_class candidate = (\<lambda>(k, currentGroup).
     if 1 < length currentGroup then []
     else (case currentGroup of [] \<Rightarrow> [] | c # _ \<Rightarrow> if k \<notin> fst ` set candidate then [c] else []))"

definition sortEntries :: "(string \<Rightarrow> 'o::linorder) \<Rightarrow> source_entry list \<Rightarrow> source_entry list" where
  "sortEntries collation = sort_key (\<lambda>x. collation (xe_class_name x))"

definition compareCaseSourceSnapshots ::
  "(string \<Rightarrow> 'o::linorder) \<Rightarrow> source_entry list \<Rightarrow> source_entry list \<Rightarrow> nat option \<Rightarrow> source_diff" where
  "compareCaseSourceSnapshots collation current candidate entryLimit =
     (let limit = (case entryLimit of None \<Rightarrow> CASE_SOURCE_COMPARISON_ENTRY_LIMIT | Some n \<Rightarrow> n);
          currentByClass = groupByClassName current;
          candidateByClass = groupByClassName candidate;
          conflicts = sortEntries collation (conflict_groups currentByClass @ conflict_groups candidateByClass);
          outcome = map (candidate_class currentByClass) candidateByClass;
          added = sortEntries collation (concat (map fst outcome));
          changed = sortEntries collation (concat (map snd outcome));
          removed = sortEntries collation (concat (map (removed_class candidateByClass) currentByClass))
      in \<lparr>xd_added = take limit added, xd_changed = take limit changed, xd_removed = take limit removed,
          xd_conflicts = take limit conflicts,
          xd_truncated = (limit < length added \<or> limit < length changed \<or> limit < length removed \<or>
            limit < length conflicts)\<rparr>)"

section \<open>What it finds\<close>

text \<open>The entry of a class that a source has exactly once.\<close>

definition sole :: "source_entry list \<Rightarrow> source_entry \<Rightarrow> bool" where
  "sole entries x \<longleftrightarrow> filter (\<lambda>y. xe_class_name y = xe_class_name x) entries = [x]"

lemma map_of_groups:
  "map_of (groupByClassName entries) k =
     (if k \<in> xe_class_name ` set entries then Some (filter (\<lambda>x. xe_class_name x = k) entries) else None)"
  by (auto simp: groupByClassName_def map_of_map_restrict restrict_map_def)

lemma fst_groups: "fst ` set (groupByClassName entries) = xe_class_name ` set entries"
  by (force simp: groupByClassName_def)

lemma in_groups:
  "(k, g) \<in> set (groupByClassName entries) \<longleftrightarrow>
     k \<in> xe_class_name ` set entries \<and> g = filter (\<lambda>x. xe_class_name x = k) entries"
  by (auto simp: groupByClassName_def)

lemma group_nonempty: "(k, g) \<in> set (groupByClassName entries) \<Longrightarrow> g \<noteq> []"
  by (auto simp: in_groups filter_empty_conv)

lemma group_single:
  assumes "(k, g) \<in> set (groupByClassName entries)" "\<not> 1 < length g"
  obtains x where "g = [x]" "sole entries x" "xe_class_name x = k"
proof -
  have "length g = 1" using assms(2) group_nonempty [OF assms(1)] by (cases g) auto
  then obtain x where x: "g = [x]" by (auto simp: length_Suc_conv)
  then have "filter (\<lambda>x. xe_class_name x = k) entries = [x]" using assms(1) by (simp add: in_groups)
  moreover from this have "x \<in> set (filter (\<lambda>x. xe_class_name x = k) entries)" by simp
  then have "xe_class_name x = k" by simp
  ultimately show thesis using that [OF x] by (simp add: sole_def)
qed

lemma sole_group:
  assumes "sole entries x"
  shows "(xe_class_name x, [x]) \<in> set (groupByClassName entries)" "x \<in> set entries"
proof -
  have "x \<in> set (filter (\<lambda>y. xe_class_name y = xe_class_name x) entries)"
    using assms by (simp add: sole_def)
  then show "x \<in> set entries" by simp
  then show "(xe_class_name x, [x]) \<in> set (groupByClassName entries)"
    using assms by (auto simp: in_groups sole_def)
qed

lemma candidate_class_single:
  "candidate_class (groupByClassName current) (xe_class_name x, [x]) =
     (if xe_class_name x \<notin> xe_class_name ` set current then ([x], [])
      else (case filter (\<lambda>c. xe_class_name c = xe_class_name x) current of
          [c] \<Rightarrow> if xe_signature c \<noteq> xe_signature x then ([], [x]) else ([], [])
        | _ \<Rightarrow> ([], [])))"
proof (cases "xe_class_name x \<in> xe_class_name ` set current")
  case True
  then obtain c cs where "filter (\<lambda>c. xe_class_name c = xe_class_name x) current = c # cs"
    by (cases "filter (\<lambda>c. xe_class_name c = xe_class_name x) current") (auto simp: filter_empty_conv)
  then show ?thesis using True by (cases cs) (simp_all add: candidate_class_def map_of_groups Let_def)
qed (simp add: candidate_class_def map_of_groups Let_def)

lemma added_iff:
  "x \<in> set (concat (map fst (map (candidate_class (groupByClassName current)) (groupByClassName candidate)))) \<longleftrightarrow>
     sole candidate x \<and> xe_class_name x \<notin> xe_class_name ` set current"
proof
  assume "x \<in> set (concat (map fst (map (candidate_class (groupByClassName current)) (groupByClassName candidate))))"
  then obtain k g where kg: "(k, g) \<in> set (groupByClassName candidate)"
      "x \<in> set (fst (candidate_class (groupByClassName current) (k, g)))" by auto
  then have "\<not> 1 < length g" by (auto simp: candidate_class_def Let_def split: if_splits)
  then obtain y where y: "g = [y]" "sole candidate y" "xe_class_name y = k" by (rule group_single [OF kg(1)])
  then show "sole candidate x \<and> xe_class_name x \<notin> xe_class_name ` set current"
    using kg(2) candidate_class_single [of current y] by (auto split: if_splits list.splits)
next
  assume x: "sole candidate x \<and> xe_class_name x \<notin> xe_class_name ` set current"
  then show "x \<in> set (concat (map fst (map (candidate_class (groupByClassName current)) (groupByClassName candidate))))"
    using sole_group(1) [of candidate x] candidate_class_single [of current x] by force
qed

lemma changed_iff:
  "x \<in> set (concat (map snd (map (candidate_class (groupByClassName current)) (groupByClassName candidate)))) \<longleftrightarrow>
     sole candidate x \<and> (\<exists>c. sole current c \<and> xe_class_name c = xe_class_name x \<and>
       xe_signature c \<noteq> xe_signature x)"
proof
  assume "x \<in> set (concat (map snd (map (candidate_class (groupByClassName current)) (groupByClassName candidate))))"
  then obtain k g where kg: "(k, g) \<in> set (groupByClassName candidate)"
      "x \<in> set (snd (candidate_class (groupByClassName current) (k, g)))" by auto
  then have "\<not> 1 < length g" by (auto simp: candidate_class_def Let_def split: if_splits)
  then obtain y where y: "g = [y]" "sole candidate y" "xe_class_name y = k" by (rule group_single [OF kg(1)])
  then have yx: "y = x" using kg(2) candidate_class_single [of current y] by (auto split: if_splits list.splits)
  obtain c where c: "filter (\<lambda>c. xe_class_name c = xe_class_name x) current = [c]" "xe_signature c \<noteq> xe_signature x"
    using kg(2) y candidate_class_single [of current y] yx by (auto split: if_splits list.splits)
  then have "c \<in> set (filter (\<lambda>c. xe_class_name c = xe_class_name x) current)" by simp
  then have "xe_class_name c = xe_class_name x" by simp
  moreover from this have "sole current c" using c(1) by (simp add: sole_def)
  ultimately show "sole candidate x \<and> (\<exists>c. sole current c \<and> xe_class_name c = xe_class_name x \<and>
      xe_signature c \<noteq> xe_signature x)"
    using y(2) yx c(2) by blast
next
  assume "sole candidate x \<and> (\<exists>c. sole current c \<and> xe_class_name c = xe_class_name x \<and>
      xe_signature c \<noteq> xe_signature x)"
  then obtain c where c: "sole candidate x" "sole current c" "xe_class_name c = xe_class_name x"
      "xe_signature c \<noteq> xe_signature x" by blast
  have "xe_class_name x \<in> xe_class_name ` set current" using sole_group(2) [OF c(2)] c(3) by (metis image_eqI)
  then have "candidate_class (groupByClassName current) (xe_class_name x, [x]) = ([], [x])"
    using c by (simp add: candidate_class_single sole_def)
  then show "x \<in> set (concat (map snd (map (candidate_class (groupByClassName current)) (groupByClassName candidate))))"
    using sole_group(1) [OF c(1)] by force
qed

lemma removed_iff:
  "x \<in> set (concat (map (removed_class (groupByClassName candidate)) (groupByClassName current))) \<longleftrightarrow>
     sole current x \<and> xe_class_name x \<notin> xe_class_name ` set candidate"
proof
  assume "x \<in> set (concat (map (removed_class (groupByClassName candidate)) (groupByClassName current)))"
  then obtain k g where kg: "(k, g) \<in> set (groupByClassName current)"
      "x \<in> set (removed_class (groupByClassName candidate) (k, g))" by auto
  then have "\<not> 1 < length g" by (auto simp: removed_class_def split: if_splits)
  then obtain y where "g = [y]" "sole current y" "xe_class_name y = k" by (rule group_single [OF kg(1)])
  then show "sole current x \<and> xe_class_name x \<notin> xe_class_name ` set candidate"
    using kg(2) by (auto simp: removed_class_def fst_groups split: if_splits)
next
  assume x: "sole current x \<and> xe_class_name x \<notin> xe_class_name ` set candidate"
  then have "removed_class (groupByClassName candidate) (xe_class_name x, [x]) = [x]"
    by (simp add: removed_class_def fst_groups)
  then show "x \<in> set (concat (map (removed_class (groupByClassName candidate)) (groupByClassName current)))"
    using sole_group(1) [of current x] x by force
qed

lemma conflicts_iff:
  "x \<in> set (conflict_groups (groupByClassName entries)) \<longleftrightarrow> x \<in> set entries \<and> \<not> sole entries x"
proof
  assume "x \<in> set (conflict_groups (groupByClassName entries))"
  then obtain k g where kg: "(k, g) \<in> set (groupByClassName entries)" "1 < length g" "x \<in> set g"
    by (auto simp: conflict_groups_def split: if_splits)
  then show "x \<in> set entries \<and> \<not> sole entries x" by (auto simp: in_groups sole_def)
next
  let ?g = "filter (\<lambda>y. xe_class_name y = xe_class_name x) entries"
  assume x: "x \<in> set entries \<and> \<not> sole entries x"
  then have g: "(xe_class_name x, ?g) \<in> set (groupByClassName entries)" and xg: "x \<in> set ?g"
    by (simp_all add: in_groups)
  have "1 < length ?g"
  proof (rule ccontr)
    assume "\<not> 1 < length ?g"
    then obtain y where "?g = [y]" by (rule group_single [OF g])
    then show False using x xg by (simp add: sole_def)
  qed
  then show "x \<in> set (conflict_groups (groupByClassName entries))"
    using g xg unfolding conflict_groups_def by force
qed

text \<open>Unless the lists are cut, the comparison is complete.\<close>

lemma sortEntries_set [simp]: "set (sortEntries collation xs) = set xs"
  by (simp add: sortEntries_def)

lemma compare_complete:
  fixes current candidate n
  assumes "d = compareCaseSourceSnapshots collation current candidate n" "\<not> xd_truncated d"
  shows "x \<in> set (xd_added d) \<longleftrightarrow> sole candidate x \<and> xe_class_name x \<notin> xe_class_name ` set current"
    "x \<in> set (xd_changed d) \<longleftrightarrow> sole candidate x \<and> (\<exists>c. sole current c \<and>
       xe_class_name c = xe_class_name x \<and> xe_signature c \<noteq> xe_signature x)"
    "x \<in> set (xd_removed d) \<longleftrightarrow> sole current x \<and> xe_class_name x \<notin> xe_class_name ` set candidate"
    "x \<in> set (xd_conflicts d) \<longleftrightarrow> x \<in> set current \<and> \<not> sole current x \<or> x \<in> set candidate \<and> \<not> sole candidate x"
proof -
  define lim where "lim = (case n of None \<Rightarrow> CASE_SOURCE_COMPARISON_ENTRY_LIMIT | Some n \<Rightarrow> n)"
  note d = assms [unfolded compareCaseSourceSnapshots_def Let_def, folded lim_def]
  show "x \<in> set (xd_added d) \<longleftrightarrow> sole candidate x \<and> xe_class_name x \<notin> xe_class_name ` set current"
    unfolding added_iff [symmetric] using d by (simp add: not_less del: map_map)
  show "x \<in> set (xd_changed d) \<longleftrightarrow> sole candidate x \<and> (\<exists>c. sole current c \<and>
       xe_class_name c = xe_class_name x \<and> xe_signature c \<noteq> xe_signature x)"
    unfolding changed_iff [symmetric] using d by (simp add: not_less del: map_map)
  show "x \<in> set (xd_removed d) \<longleftrightarrow> sole current x \<and> xe_class_name x \<notin> xe_class_name ` set candidate"
    unfolding removed_iff [symmetric] using d by (simp add: not_less)
  show "x \<in> set (xd_conflicts d) \<longleftrightarrow> x \<in> set current \<and> \<not> sole current x \<or> x \<in> set candidate \<and> \<not> sole candidate x"
    unfolding conflicts_iff [symmetric] using d by (simp add: not_less)
qed

text \<open>
  Applied to the current source the comparison gives the candidate: for classes no source has twice,
  the signature in the candidate is the one of the added or changed entry, none for a removed class,
  and the current one otherwise.
\<close>

definition signature_of :: "source_entry list \<Rightarrow> string \<Rightarrow> string option" where
  "signature_of entries k = map_option xe_signature (find (\<lambda>x. xe_class_name x = k) entries)"

definition patched_signature :: "source_diff \<Rightarrow> (string \<Rightarrow> string option) \<Rightarrow> string \<Rightarrow> string option" where
  "patched_signature d current k =
     (case signature_of (xd_added d @ xd_changed d) k of
        Some sig \<Rightarrow> Some sig
      | None \<Rightarrow> if k \<in> xe_class_name ` set (xd_removed d) then None else current k)"

lemma distinct_sole:
  "distinct (map xe_class_name entries) \<Longrightarrow> sole entries x \<longleftrightarrow> x \<in> set entries"
proof (induction entries)
  case (Cons e es)
  then show ?case by (auto simp: sole_def filter_empty_conv image_iff) 
qed (simp add: sole_def)

lemma signature_of_iff:
  assumes "inj_on xe_class_name (set entries)"
  shows "signature_of entries k = Some sig \<longleftrightarrow>
    (\<exists>x\<in>set entries. xe_class_name x = k \<and> xe_signature x = sig)"
proof
  assume "signature_of entries k = Some sig"
  then show "\<exists>x\<in>set entries. xe_class_name x = k \<and> xe_signature x = sig"
    by (auto simp: signature_of_def find_Some_iff)
next
  assume "\<exists>x\<in>set entries. xe_class_name x = k \<and> xe_signature x = sig"
  then obtain x where x: "x \<in> set entries" "xe_class_name x = k" "xe_signature x = sig" by blast
  then obtain y where y: "find (\<lambda>x. xe_class_name x = k) entries = Some y"
    by (cases "find (\<lambda>x. xe_class_name x = k) entries") (auto simp: find_None_iff)
  then have "y \<in> set entries" "xe_class_name y = k" by (auto simp: find_Some_iff)
  then have "y = x" using x assms by (auto dest: inj_onD)
  then show "signature_of entries k = Some sig" using y x by (simp add: signature_of_def)
qed

lemma signature_of_none: "signature_of entries k = None \<longleftrightarrow> k \<notin> xe_class_name ` set entries"
  by (auto simp: signature_of_def find_None_iff)

lemma compare_patch:
  assumes d: "d = compareCaseSourceSnapshots collation current candidate n" "\<not> xd_truncated d"
    and distinct: "distinct (map xe_class_name current)" "distinct (map xe_class_name candidate)"
  shows "patched_signature d (signature_of current) k = signature_of candidate k"
proof -
  note added = compare_complete(1) [OF d, unfolded distinct_sole [OF distinct(1)] distinct_sole [OF distinct(2)]]
  note changed = compare_complete(2) [OF d, unfolded distinct_sole [OF distinct(1)] distinct_sole [OF distinct(2)]]
  note removed = compare_complete(3) [OF d, unfolded distinct_sole [OF distinct(1)] distinct_sole [OF distinct(2)]]
  have inj: "inj_on xe_class_name (set current)" "inj_on xe_class_name (set candidate)"
    using distinct by (simp_all add: distinct_map)
  let ?new = "xd_added d @ xd_changed d"
  have new: "inj_on xe_class_name (set ?new)"
    by (rule inj_on_subset [OF inj(2)]) (use added changed in auto)
  show ?thesis
  proof (cases "signature_of ?new k")
    case (Some sig)
    then obtain x where "x \<in> set ?new" "xe_class_name x = k" "xe_signature x = sig"
      using signature_of_iff [OF new] by blast
    then have "\<exists>x\<in>set candidate. xe_class_name x = k \<and> xe_signature x = sig" using added changed by auto
    then have "signature_of candidate k = Some sig" using signature_of_iff [OF inj(2)] by blast
    then show ?thesis using Some by (simp add: patched_signature_def)
  next
    case None
    then have new_k: "x \<notin> set ?new" if "xe_class_name x = k" for x using that by (auto simp: signature_of_none)
    show ?thesis
    proof (cases "k \<in> xe_class_name ` set (xd_removed d)")
      case True
      then have "signature_of candidate k = None" using removed by (auto simp: signature_of_none)
      then show ?thesis using None True by (simp add: patched_signature_def)
    next
      case False
      have "signature_of current k = Some sig \<longleftrightarrow> signature_of candidate k = Some sig" for sig
      proof -
        have "(\<exists>x\<in>set current. xe_class_name x = k \<and> xe_signature x = sig) \<longleftrightarrow>
            (\<exists>x\<in>set candidate. xe_class_name x = k \<and> xe_signature x = sig)"
        proof
          assume "\<exists>x\<in>set current. xe_class_name x = k \<and> xe_signature x = sig"
          then obtain x where x: "x \<in> set current" "xe_class_name x = k" "xe_signature x = sig" by blast
          then have "k \<in> xe_class_name ` set candidate" using removed [of x] False by auto
          then obtain y where y: "y \<in> set candidate" "xe_class_name y = k" by blast
          then have "xe_signature y = sig" using changed [of y] new_k [of y] x by auto
          then show "\<exists>x\<in>set candidate. xe_class_name x = k \<and> xe_signature x = sig" using y by blast
        next
          assume "\<exists>x\<in>set candidate. xe_class_name x = k \<and> xe_signature x = sig"
          then obtain x where x: "x \<in> set candidate" "xe_class_name x = k" "xe_signature x = sig" by blast
          then have "k \<in> xe_class_name ` set current" using added [of x] new_k [of x] by auto
          then obtain y where y: "y \<in> set current" "xe_class_name y = k" by blast
          then have "xe_signature y = sig" using changed [of x] new_k [of x] x by auto
          then show "\<exists>x\<in>set current. xe_class_name x = k \<and> xe_signature x = sig" using y by blast
        qed
        then show ?thesis using signature_of_iff [OF inj(1)] signature_of_iff [OF inj(2)] by simp
      qed
      then have "signature_of current k = signature_of candidate k" by (metis option.exhaust)
      then show ?thesis using None False by (simp add: patched_signature_def)
    qed
  qed
qed

end
