(* ===== verification/Job_Queue.thy ===== *)
theory Job_Queue
  imports Prelude "HOL-Library.Product_Lexorder"
begin

text \<open>
  The job queue of the embedded edition, \<open>packages/queue/src/sqlite-job-queue.ts\<close>, with the envelope
  of \<open>packages/contracts/src/jobs.ts\<close> and what \<open>JobWorker\<close> of
  \<open>packages/application/src/run-job-worker.ts\<close> does with a delivery. Workers claim jobs under a lease,
  renew it, and acknowledge or reject the delivery; expired leases give the job back until the
  deliveries are used up. \<open>queue_step\<close> is the machine of all operations, in any order.
\<close>

section \<open>Jobs\<close>

datatype job_kind =
    Dispatch_Run | Ldap_Sync | Analytics_Rollup | Retention_Cleanup | Object_Cleanup | Jar_Import
  | Analytics_Export | Ddt_Import | Ddt_Debug_Import | Project_Version_Copy | Ai_Analysis_Wakeup

record job_envelope =
  jv_schema_version :: int
  jv_message_id :: ident
  jv_run_id :: ident
  jv_attempt :: int
  jv_created_at :: time
  jv_priority :: int
  jv_deduplication_key :: string
  jv_kind :: job_kind
  jv_payload :: "(string \<times> string) list"

definition envelope_ok :: "job_envelope \<Rightarrow> bool" where
  "envelope_ok j \<longleftrightarrow>
     jv_schema_version j = 1 \<and>
     1 \<le> length (jv_message_id j) \<and> length (jv_message_id j) \<le> 128 \<and>
     1 \<le> length (jv_run_id j) \<and> length (jv_run_id j) \<le> 128 \<and>
     1 \<le> jv_attempt j \<and> jv_attempt j \<le> 1000 \<and> -1000 \<le> jv_priority j \<and> jv_priority j \<le> 1000 \<and>
     1 \<le> length (jv_deduplication_key j) \<and> length (jv_deduplication_key j) \<le> 256"

definition parse_envelope :: "job_envelope \<Rightarrow> domain_error + job_envelope" where
  "parse_envelope j = (if envelope_ok j then Inr j else Inl (PlainError ''ZodError''))"

datatype job_status = Job_Available | Job_Leased | Job_Completed | Job_Dead_Letter

record queue_job =
  jb_message_id :: ident
  jb_run_id :: ident
  jb_attempt :: int
  jb_schema_version :: int
  jb_kind :: job_kind
  jb_payload :: "(string \<times> string) list"
  jb_priority :: int
  jb_deduplication_key :: string
  jb_status :: job_status
  jb_available_at :: time
  jb_lease_owner :: "string option"
  jb_lease_expires_at :: "time option"
  jb_delivery_attempts :: int
  jb_maximum_deliveries :: int
  jb_last_error_code :: "string option"
  jb_last_error_summary :: "string option"
  jb_created_at :: time
  jb_updated_at :: time
  jb_completed_at :: "time option"

type_synonym queue = "queue_job list"

definition mapJob :: "queue_job \<Rightarrow> domain_error + job_envelope" where
  "mapJob r = parse_envelope
     \<lparr>jv_schema_version = jb_schema_version r, jv_message_id = jb_message_id r, jv_run_id = jb_run_id r,
      jv_attempt = jb_attempt r, jv_created_at = jb_created_at r, jv_priority = jb_priority r,
      jv_deduplication_key = jb_deduplication_key r, jv_kind = jb_kind r, jv_payload = jb_payload r\<rparr>"

section \<open>Publishing\<close>

datatype publication = Published | Duplicate_Job

text \<open>The columns with a default of the table: no delivery yet, eight at most.\<close>

definition new_job :: "job_envelope \<Rightarrow> time \<Rightarrow> queue_job" where
  "new_job j availableAt =
     \<lparr>jb_message_id = jv_message_id j, jb_run_id = jv_run_id j, jb_attempt = jv_attempt j,
      jb_schema_version = jv_schema_version j, jb_kind = jv_kind j, jb_payload = jv_payload j,
      jb_priority = jv_priority j, jb_deduplication_key = jv_deduplication_key j,
      jb_status = Job_Available, jb_available_at = availableAt, jb_lease_owner = None,
      jb_lease_expires_at = None, jb_delivery_attempts = 0, jb_maximum_deliveries = 8,
      jb_last_error_code = None, jb_last_error_summary = None, jb_created_at = jv_created_at j,
      jb_updated_at = jv_created_at j, jb_completed_at = None\<rparr>"

definition publish_body :: "job_envelope \<Rightarrow> time \<Rightarrow> queue \<Rightarrow> domain_error + (publication \<times> queue)" where
  "publish_body j availableAt q =
     (if jv_deduplication_key j \<in> jb_deduplication_key ` set q then Inr (Duplicate_Job, q)
      else and_then (insert_row jb_message_id (new_job j availableAt) q) (\<lambda>q'. Inr (Published, q')))"

definition publish :: "job_envelope \<Rightarrow> time option \<Rightarrow> queue \<Rightarrow> (domain_error + publication) \<times> queue" where
  "publish jobInput availableAt q =
     (case parse_envelope jobInput of
        Inl e \<Rightarrow> (Inl e, q)
      | Inr job \<Rightarrow>
          transaction (publish_body job
            (case availableAt of None \<Rightarrow> jv_created_at jobInput | Some t \<Rightarrow> t)) q)"

section \<open>Leases\<close>

definition lease_expired :: "time \<Rightarrow> queue_job \<Rightarrow> bool" where
  "lease_expired now j \<longleftrightarrow>
     jb_status j = Job_Leased \<and> (case jb_lease_expires_at j of None \<Rightarrow> False | Some t \<Rightarrow> t \<le> now)"

text \<open>The status of a job whose delivery has failed, and the row an expired lease leaves.\<close>

definition after_failure :: "queue_job \<Rightarrow> job_status" where
  "after_failure j =
     (if jb_maximum_deliveries j \<le> jb_delivery_attempts j then Job_Dead_Letter else Job_Available)"

definition expire_job :: "time \<Rightarrow> job_status \<Rightarrow> queue_job \<Rightarrow> queue_job" where
  "expire_job now status j =
     j\<lparr>jb_status := status, jb_lease_owner := None, jb_lease_expires_at := None,
       jb_available_at := now, jb_last_error_code := Some ''LEASE_EXPIRED'',
       jb_last_error_summary := Some ''Worker lease expired before acknowledgement.'',
       jb_updated_at := now\<rparr>"

definition recover_rows :: "time \<Rightarrow> queue_job list \<Rightarrow> queue \<Rightarrow> queue" where
  "recover_rows now rows q =
     fold (\<lambda>r. update_where (\<lambda>j. jb_message_id j = jb_message_id r \<and> jb_status j = Job_Leased)
                 (expire_job now (after_failure r))) rows q"

definition expired_jobs :: "time \<Rightarrow> int \<Rightarrow> queue \<Rightarrow> queue_job list" where
  "expired_jobs now limit q =
     take (nat limit) (sort_key (\<lambda>j. the (jb_lease_expires_at j)) (filter (lease_expired now) q))"

definition recoverExpiredWithinTransaction :: "time \<Rightarrow> int \<Rightarrow> queue \<Rightarrow> nat \<times> queue" where
  "recoverExpiredWithinTransaction now limit q =
     (let rows = expired_jobs now limit q in (length rows, recover_rows now rows q))"

definition recoverExpiredJobs :: "time \<Rightarrow> int \<Rightarrow> queue \<Rightarrow> nat \<times> queue" where
  "recoverExpiredJobs = recoverExpiredWithinTransaction"

datatype work_class = Execution_Work | Background_Work

fun in_class :: "work_class option \<Rightarrow> queue_job \<Rightarrow> bool" where
  "in_class None j = True"
| "in_class (Some Execution_Work) j = (jb_kind j = Dispatch_Run)"
| "in_class (Some Background_Work) j = (jb_kind j \<noteq> Dispatch_Run)"

record claim_jobs_input =
  cj_worker_id :: string
  cj_now :: time
  cj_lease_expires_at :: time
  cj_limit :: int
  cj_work_class :: "work_class option"

record claimed_job =
  cd_job :: job_envelope
  cd_delivery_id :: ident
  cd_lease_expires_at :: time
  cd_delivery_attempt :: int

definition validateClaim :: "claim_jobs_input \<Rightarrow> domain_error + unit" where
  "validateClaim i =
     (if cj_worker_id i = [] \<or> 128 < length (cj_worker_id i)
        then Inl (PlainError ''Worker identity is invalid.'')
      else if cj_limit i < 1 \<or> 256 < cj_limit i
        then Inl (PlainError ''Job claim limit must be between 1 and 256.'')
      else if cj_lease_expires_at i \<le> cj_now i
        then Inl (PlainError ''Job lease expiry must be in the future.'')
      else Inr ())"

definition job_due :: "claim_jobs_input \<Rightarrow> queue_job \<Rightarrow> bool" where
  "job_due i j \<longleftrightarrow>
     jb_status j = Job_Available \<and> jb_available_at j \<le> cj_now i \<and> in_class (cj_work_class i) j"

definition hasClaimableWork :: "claim_jobs_input \<Rightarrow> queue \<Rightarrow> bool" where
  "hasClaimableWork i q \<longleftrightarrow>
     list_ex (\<lambda>j. (jb_status j = Job_Available \<and> jb_available_at j \<le> cj_now i \<or> lease_expired (cj_now i) j)
       \<and> in_class (cj_work_class i) j) q"

definition due_jobs :: "claim_jobs_input \<Rightarrow> queue \<Rightarrow> queue_job list" where
  "due_jobs i q =
     take (nat (cj_limit i))
       (sort_key (\<lambda>j. (- jb_priority j, jb_created_at j, jb_message_id j)) (filter (job_due i) q))"

definition lease_job :: "claim_jobs_input \<Rightarrow> queue_job \<Rightarrow> queue_job" where
  "lease_job i j =
     j\<lparr>jb_status := Job_Leased, jb_lease_owner := Some (cj_worker_id i),
       jb_lease_expires_at := Some (cj_lease_expires_at i),
       jb_delivery_attempts := jb_delivery_attempts j + 1, jb_updated_at := cj_now i\<rparr>"

definition claimed_of :: "claim_jobs_input \<Rightarrow> queue_job \<Rightarrow> domain_error + claimed_job" where
  "claimed_of i r =
     and_then (mapJob r) (\<lambda>job. Inr
       \<lparr>cd_job = job, cd_delivery_id = jb_message_id r, cd_lease_expires_at = cj_lease_expires_at i,
        cd_delivery_attempt = jb_delivery_attempts r + 1\<rparr>)"

fun claim_jobs ::
  "claim_jobs_input \<Rightarrow> queue_job list \<Rightarrow> queue \<Rightarrow> domain_error + (claimed_job list \<times> queue)" where
  "claim_jobs i [] q = Inr ([], q)"
| "claim_jobs i (r # rs) q =
     (let P = (\<lambda>j. jb_message_id j = jb_message_id r \<and> jb_status j = Job_Available);
          q' = update_where P (lease_job i) q
      in if count_where P q \<noteq> 1 then claim_jobs i rs q'
         else
           and_then (claimed_of i r) (\<lambda>c.
           and_then (claim_jobs i rs q') (\<lambda>(cs, q''). Inr (c # cs, q''))))"

definition claim_jobs_body ::
  "claim_jobs_input \<Rightarrow> queue \<Rightarrow> domain_error + (claimed_job list \<times> queue)" where
  "claim_jobs_body i q =
     (let q' = snd (recoverExpiredWithinTransaction (cj_now i) 1000 q)
      in claim_jobs i (due_jobs i q') q')"

definition claim_queue :: "claim_jobs_input \<Rightarrow> queue \<Rightarrow> (domain_error + claimed_job list) \<times> queue" where
  "claim_queue i q =
     (case validateClaim i of
        Inl e \<Rightarrow> (Inl e, q)
      | Inr _ \<Rightarrow>
          if \<not> hasClaimableWork i q then (Inr [], q) else transaction (claim_jobs_body i) q)"

record renew_job_input =
  rj_worker_id :: string
  rj_delivery_id :: ident
  rj_now :: time
  rj_lease_expires_at :: time

definition held_lease :: "renew_job_input \<Rightarrow> queue_job \<Rightarrow> bool" where
  "held_lease i j \<longleftrightarrow>
     jb_message_id j = rj_delivery_id i \<and> jb_status j = Job_Leased \<and>
     jb_lease_owner j = Some (rj_worker_id i) \<and>
     (case jb_lease_expires_at j of None \<Rightarrow> False | Some t \<Rightarrow> rj_now i < t)"

definition renew_job :: "renew_job_input \<Rightarrow> queue \<Rightarrow> bool \<times> queue" where
  "renew_job i q =
     (count_where (held_lease i) q = 1,
      update_where (held_lease i)
        (\<lambda>j. j\<lparr>jb_lease_expires_at := Some (rj_lease_expires_at i), jb_updated_at := rj_now i\<rparr>) q)"

section \<open>The end of a delivery\<close>

definition required_job :: "ident \<Rightarrow> queue \<Rightarrow> domain_error + queue_job" where
  "required_job messageId q =
     (case row_by jb_message_id messageId q of
        None \<Rightarrow> Inl (PlainError ''Job delivery does not exist.'') | Some j \<Rightarrow> Inr j)"

definition not_owned :: "string \<Rightarrow> queue_job \<Rightarrow> bool" where
  "not_owned workerId j \<longleftrightarrow> jb_status j \<noteq> Job_Leased \<or> jb_lease_owner j \<noteq> Some workerId"

definition acknowledge_body ::
  "string \<Rightarrow> ident \<Rightarrow> time \<Rightarrow> queue \<Rightarrow> domain_error + (unit \<times> queue)" where
  "acknowledge_body workerId deliveryId acknowledgedAt q =
     and_then (required_job deliveryId q) (\<lambda>existing.
       if jb_status existing = Job_Completed then Inr ((), q)
       else if not_owned workerId existing
         then Inl (PlainError ''Job delivery is not owned by this worker.'')
       else Inr ((), update_where (\<lambda>j. jb_message_id j = deliveryId)
         (\<lambda>j. j\<lparr>jb_status := Job_Completed, jb_lease_owner := None, jb_lease_expires_at := None,
               jb_completed_at := Some acknowledgedAt, jb_updated_at := acknowledgedAt\<rparr>) q))"

definition acknowledge :: "string \<Rightarrow> ident \<Rightarrow> time \<Rightarrow> queue \<Rightarrow> (domain_error + unit) \<times> queue" where
  "acknowledge workerId deliveryId acknowledgedAt = transaction (acknowledge_body workerId deliveryId acknowledgedAt)"

record reject_job_input =
  ej_worker_id :: string
  ej_delivery_id :: ident
  ej_error_code :: string
  ej_error_summary :: string
  ej_retry_at :: "time option"
  ej_rejected_at :: time

datatype rejection = Retrying | Dead_Letter

definition rejected_job :: "reject_job_input \<Rightarrow> job_status \<Rightarrow> queue_job \<Rightarrow> queue_job" where
  "rejected_job i status j =
     j\<lparr>jb_status := status,
       jb_available_at := (case ej_retry_at i of None \<Rightarrow> ej_rejected_at i | Some t \<Rightarrow> t),
       jb_lease_owner := None, jb_lease_expires_at := None,
       jb_last_error_code := Some (ej_error_code i),
       jb_last_error_summary := Some (ej_error_summary i), jb_updated_at := ej_rejected_at i\<rparr>"

definition reject_body :: "reject_job_input \<Rightarrow> queue \<Rightarrow> domain_error + (rejection \<times> queue)" where
  "reject_body i q =
     and_then (required_job (ej_delivery_id i) q) (\<lambda>existing.
       if not_owned (ej_worker_id i) existing
         then Inl (PlainError ''Job delivery is not owned by this worker.'')
       else Inr (if after_failure existing = Job_Dead_Letter then Dead_Letter else Retrying,
         update_where (\<lambda>j. jb_message_id j = ej_delivery_id i)
           (rejected_job i (after_failure existing)) q))"

definition reject_job :: "reject_job_input \<Rightarrow> queue \<Rightarrow> (domain_error + rejection) \<times> queue" where
  "reject_job i q =
     (if 2048 < length (ej_error_summary i) then (Inl (PlainError ''Job error summary is too large.''), q)
      else transaction (reject_body i) q)"

section \<open>Administration\<close>

definition validateAdministrativeLimit :: "int \<Rightarrow> domain_error + unit" where
  "validateAdministrativeLimit limit =
     (if limit < 1 \<or> 100 < limit
        then Inl (PlainError ''Dead-letter operation limit must be between 1 and 100.'') else Inr ())"

record dead_letter_job =
  dl_message_id :: ident
  dl_run_id :: ident
  dl_kind :: job_kind
  dl_delivery_attempts :: int
  dl_error_code :: string
  dl_error_summary :: "string option"
  dl_failed_at :: time

text \<open>An absent summary is shown as a fixed text of the console.\<close>

definition dead_letter_of :: "queue_job \<Rightarrow> dead_letter_job" where
  "dead_letter_of j =
     \<lparr>dl_message_id = jb_message_id j, dl_run_id = jb_run_id j, dl_kind = jb_kind j,
      dl_delivery_attempts = jb_delivery_attempts j,
      dl_error_code = (case jb_last_error_code j of None \<Rightarrow> ''UNKNOWN'' | Some c \<Rightarrow> c),
      dl_error_summary = jb_last_error_summary j, dl_failed_at = jb_updated_at j\<rparr>"

definition listDeadLetters :: "int \<Rightarrow> queue \<Rightarrow> domain_error + dead_letter_job list" where
  "listDeadLetters limit q =
     and_then (validateAdministrativeLimit limit) (\<lambda>_.
       Inr (map dead_letter_of (take (nat limit)
         (sort_key (\<lambda>j. (- jb_updated_at j, jb_message_id j))
           (filter (\<lambda>j. jb_status j = Job_Dead_Letter) q)))))"

definition redriven :: "time \<Rightarrow> queue_job \<Rightarrow> queue_job" where
  "redriven redrivenAt j =
     j\<lparr>jb_status := Job_Available, jb_available_at := redrivenAt, jb_lease_owner := None,
       jb_lease_expires_at := None, jb_delivery_attempts := 0, jb_last_error_code := None,
       jb_last_error_summary := None, jb_updated_at := redrivenAt\<rparr>"

fun redrive_rows :: "time \<Rightarrow> queue_job list \<Rightarrow> queue \<Rightarrow> nat \<times> queue" where
  "redrive_rows redrivenAt [] q = (0, q)"
| "redrive_rows redrivenAt (r # rs) q =
     (let P = (\<lambda>j. jb_message_id j = jb_message_id r \<and> jb_status j = Job_Dead_Letter);
          (n, q') = redrive_rows redrivenAt rs (update_where P (redriven redrivenAt) q)
      in (count_where P q + n, q'))"

definition redriveDeadLetters :: "time \<Rightarrow> int \<Rightarrow> queue \<Rightarrow> (domain_error + nat) \<times> queue" where
  "redriveDeadLetters redrivenAt limit q =
     (case validateAdministrativeLimit limit of
        Inl e \<Rightarrow> (Inl e, q)
      | Inr _ \<Rightarrow>
          let (n, q') = redrive_rows redrivenAt
            (take (nat limit) (sort_key (\<lambda>j. (jb_updated_at j, jb_message_id j))
              (filter (\<lambda>j. jb_status j = Job_Dead_Letter) q))) q
          in (Inr n, q'))"

definition depth :: "queue \<Rightarrow> nat \<times> nat \<times> nat" where
  "depth q = (count_where (\<lambda>j. jb_status j = Job_Available) q, count_where (\<lambda>j. jb_status j = Job_Leased) q,
     count_where (\<lambda>j. jb_status j = Job_Dead_Letter) q)"

section \<open>The worker\<close>

definition job_retry_delay_ms :: "int \<Rightarrow> int" where
  "job_retry_delay_ms deliveryAttempt = min 60000 (1000 * 2 ^ nat (deliveryAttempt - 1))"

definition worker_reject ::
  "string \<Rightarrow> claimed_job \<Rightarrow> string \<Rightarrow> time \<Rightarrow> queue \<Rightarrow> (domain_error + rejection) \<times> queue" where
  "worker_reject workerId delivery summary rejectedAt =
     reject_job \<lparr>ej_worker_id = workerId, ej_delivery_id = cd_delivery_id delivery,
       ej_error_code = ''JOB_HANDLER_FAILED'', ej_error_summary = take 2048 summary,
       ej_retry_at = Some (rejectedAt + job_retry_delay_ms (cd_delivery_attempt delivery)),
       ej_rejected_at = rejectedAt\<rparr>"

text \<open>
  How the handler of a delivery ends. \<open>others\<close> is what other workers do to the queue before a call;
  an acknowledgement that throws is a failure of the delivery like one of the handler.
\<close>

datatype handler_outcome = Handler_Missing string | Handler_Failed string | Handler_Done

definition process_delivery ::
  "(nat \<Rightarrow> queue \<Rightarrow> queue) \<Rightarrow> (domain_error \<Rightarrow> string) \<Rightarrow> string \<Rightarrow> claimed_job \<Rightarrow> handler_outcome \<Rightarrow>
   (nat \<Rightarrow> time) \<Rightarrow> queue \<Rightarrow> (domain_error + unit) \<times> queue" where
  "process_delivery others message workerId delivery outcome clock q =
     (let reject_with = (\<lambda>n summary q. map_prod (map_sum id (\<lambda>_. ()))
            id (worker_reject workerId delivery summary (clock n) (others n q)))
      in case outcome of
           Handler_Missing summary \<Rightarrow> reject_with 0 summary q
         | Handler_Failed summary \<Rightarrow> reject_with 0 summary q
         | Handler_Done \<Rightarrow>
             (case acknowledge workerId (cd_delivery_id delivery) (clock 0) (others 0 q) of
                (Inr _, q') \<Rightarrow> (Inr (), q')
              | (Inl e, q') \<Rightarrow> reject_with 1 (message e) q'))"

section \<open>The machine\<close>

inductive queue_step :: "queue \<Rightarrow> queue \<Rightarrow> bool" where
  publish: "publish j availableAt q = (r1, q') \<Longrightarrow> queue_step q q'"
| claim: "claim_queue i q = (r2, q') \<Longrightarrow> queue_step q q'"
| renew: "renew_job i3 q = (r3, q') \<Longrightarrow> queue_step q q'"
| acknowledge: "acknowledge w k t q = (r4, q') \<Longrightarrow> queue_step q q'"
| reject: "reject_job i5 q = (r5, q') \<Longrightarrow> queue_step q q'"
| recover: "recoverExpiredJobs t6 n6 q = (r6, q') \<Longrightarrow> queue_step q q'"
| redrive: "redriveDeadLetters t7 n7 q = (r7, q') \<Longrightarrow> queue_step q q'"

definition job_ok :: "queue_job \<Rightarrow> bool" where
  "job_ok j \<longleftrightarrow>
     0 \<le> jb_delivery_attempts j \<and> jb_delivery_attempts j \<le> jb_maximum_deliveries j \<and>
     0 < jb_maximum_deliveries j \<and>
     (jb_status j = Job_Available \<longrightarrow> jb_delivery_attempts j < jb_maximum_deliveries j) \<and>
     (if jb_status j = Job_Leased
      then 1 \<le> jb_delivery_attempts j \<and> jb_lease_owner j \<noteq> None \<and> jb_lease_expires_at j \<noteq> None
      else jb_lease_owner j = None \<and> jb_lease_expires_at j = None)"

definition queue_ok :: "queue \<Rightarrow> bool" where
  "queue_ok q \<longleftrightarrow>
     distinct (map jb_message_id q) \<and> distinct (map jb_deduplication_key q) \<and> (\<forall>j\<in>set q. job_ok j)"

text \<open>What every update of a row keeps: its keys, and the row if it is completed.\<close>

definition keeps_jobs :: "queue \<Rightarrow> queue \<Rightarrow> bool" where
  "keeps_jobs q q' \<longleftrightarrow>
     (\<exists>new. map jb_message_id q' = map jb_message_id q @ new) \<and>
     (\<forall>j\<in>set q. jb_status j = Job_Completed \<longrightarrow> j \<in> set q')"

lemma keeps_jobs_refl [simp]: "keeps_jobs q q"
  by (simp add: keeps_jobs_def)

lemma keeps_jobs_trans: "keeps_jobs p q \<Longrightarrow> keeps_jobs q r \<Longrightarrow> keeps_jobs p r"
  unfolding keeps_jobs_def by fastforce

lemma update_keeps_jobs:
  assumes "\<And>j. P j \<Longrightarrow> jb_message_id (f j) = jb_message_id j"
    and "\<And>j. j \<in> set q \<Longrightarrow> P j \<Longrightarrow> jb_status j \<noteq> Job_Completed"
  shows "keeps_jobs q (update_where P f q)"
proof -
  have "map jb_message_id (update_where P f q) = map jb_message_id q"
    by (rule map_key_update_where) (rule assms(1))
  then show ?thesis unfolding keeps_jobs_def using assms(2) update_where_keep by fastforce
qed

lemma queue_ok_update:
  assumes "queue_ok q"
    and "\<And>j. P j \<Longrightarrow> jb_message_id (f j) = jb_message_id j"
    and "\<And>j. P j \<Longrightarrow> jb_deduplication_key (f j) = jb_deduplication_key j"
    and "\<And>j. j \<in> set q \<Longrightarrow> P j \<Longrightarrow> job_ok j \<Longrightarrow> job_ok (f j)"
  shows "queue_ok (update_where P f q)"
  using assms unfolding queue_ok_def
  by (simp add: map_key_update_where ball_update_where)

lemma queue_row: "queue_ok q \<Longrightarrow> j \<in> set q \<Longrightarrow> row_by jb_message_id (jb_message_id j) q = Some j"
  by (simp add: queue_ok_def row_by_member)

text \<open>Two rows with the same key are the same row.\<close>

lemma queue_same: "queue_ok q \<Longrightarrow> j \<in> set q \<Longrightarrow> k \<in> set q \<Longrightarrow> jb_message_id j = jb_message_id k \<Longrightarrow> j = k"
  by (auto simp: queue_ok_def intro: distinct_map_eqD)

subsection \<open>Every operation keeps the queue in order\<close>

lemma after_failure_Available:
  "after_failure j = Job_Available \<longleftrightarrow> jb_delivery_attempts j < jb_maximum_deliveries j"
  "after_failure j = Job_Dead_Letter \<longleftrightarrow> jb_maximum_deliveries j \<le> jb_delivery_attempts j"
  "after_failure j \<noteq> Job_Leased" "after_failure j \<noteq> Job_Completed"
  by (auto simp: after_failure_def)

lemma recover_rows_ok:
  assumes "queue_ok q"
    "\<And>r j. r \<in> set rows \<Longrightarrow> j \<in> set q \<Longrightarrow> jb_message_id j = jb_message_id r \<Longrightarrow>
       jb_delivery_attempts j = jb_delivery_attempts r \<and> jb_maximum_deliveries j = jb_maximum_deliveries r"
  shows "queue_ok (recover_rows now rows q) \<and> keeps_jobs q (recover_rows now rows q)"
  using assms
proof (induction rows arbitrary: q)
  case Nil
  then show ?case by (simp add: recover_rows_def)
next
  case (Cons r rs)
  let ?P = "\<lambda>j. jb_message_id j = jb_message_id r \<and> jb_status j = Job_Leased"
  let ?f = "expire_job now (after_failure r)"
  let ?q = "update_where ?P ?f q"
  have same: "jb_message_id (?f j) = jb_message_id j" "jb_deduplication_key (?f j) = jb_deduplication_key j"
    "jb_delivery_attempts (?f j) = jb_delivery_attempts j" "jb_maximum_deliveries (?f j) = jb_maximum_deliveries j" for j
    by (simp_all add: expire_job_def)
  have "queue_ok ?q"
  proof (rule queue_ok_update [OF Cons.prems(1)])
    fix j assume j: "j \<in> set q" "?P j" "job_ok j"
    then have "jb_delivery_attempts j = jb_delivery_attempts r" "jb_maximum_deliveries j = jb_maximum_deliveries r"
      using Cons.prems(2) [of r j] by auto
    then show "job_ok (?f j)" using j(2,3) by (auto simp: job_ok_def expire_job_def after_failure_def)
  qed (simp_all add: same)
  moreover have "keeps_jobs q ?q" by (rule update_keeps_jobs) (auto simp: same)
  moreover have "jb_delivery_attempts j = jb_delivery_attempts r' \<and> jb_maximum_deliveries j = jb_maximum_deliveries r'"
    if "r' \<in> set rs" "j \<in> set ?q" "jb_message_id j = jb_message_id r'" for r' j
    using that(2)
  proof (cases rule: update_where_cases)
    case same
    then show ?thesis using Cons.prems(2) [of r' j] that by simp
  next
    case (changed i)
    then show ?thesis using Cons.prems(2) [of r' i] that same by simp
  qed
  ultimately show ?case
    using Cons.IH [of ?q] keeps_jobs_trans by (auto simp: recover_rows_def)
qed

lemma expired_jobs_in: "r \<in> set (expired_jobs now limit q) \<Longrightarrow> r \<in> set q \<and> lease_expired now r"
  unfolding expired_jobs_def by (drule in_set_takeD) simp

lemma recover_ok:
  assumes "queue_ok q"
  shows "queue_ok (snd (recoverExpiredWithinTransaction now limit q)) \<and>
    keeps_jobs q (snd (recoverExpiredWithinTransaction now limit q))"
  unfolding recoverExpiredWithinTransaction_def Let_def snd_conv
proof (rule recover_rows_ok [OF assms])
  fix r j assume "r \<in> set (expired_jobs now limit q)" "j \<in> set q" "jb_message_id j = jb_message_id r"
  then have "j = r" using queue_same [OF assms] expired_jobs_in by blast
  then show "jb_delivery_attempts j = jb_delivery_attempts r \<and> jb_maximum_deliveries j = jb_maximum_deliveries r"
    by simp
qed

lemma lease_job_keys [simp]:
  "jb_message_id (lease_job i j) = jb_message_id j"
  "jb_deduplication_key (lease_job i j) = jb_deduplication_key j"
  "jb_status (lease_job i j) = Job_Leased"
  by (simp_all add: lease_job_def)

lemma queue_lease_ok:
  assumes "queue_ok q" "\<And>j. P j \<Longrightarrow> jb_status j = Job_Available"
  shows "queue_ok (update_where P (lease_job i) q) \<and> keeps_jobs q (update_where P (lease_job i) q)"
proof
  show "queue_ok (update_where P (lease_job i) q)"
    using assms by (intro queue_ok_update) (auto simp: job_ok_def lease_job_def)
  show "keeps_jobs q (update_where P (lease_job i) q)"
    using assms(2) by (intro update_keeps_jobs) auto
qed

text \<open>Claiming available rows leases exactly them, and returns them in order.\<close>

lemma claim_jobs_spec:
  assumes "claim_jobs i rows q = Inr (cs, q')" "queue_ok q" "distinct (map jb_message_id rows)"
    "\<And>r. r \<in> set rows \<Longrightarrow> r \<in> set q \<and> jb_status r = Job_Available"
  shows "q' = update_where (\<lambda>j. jb_message_id j \<in> jb_message_id ` set rows \<and> jb_status j = Job_Available)
        (lease_job i) q \<and>
      map (\<lambda>c. (cd_delivery_id c, cd_delivery_attempt c)) cs =
        map (\<lambda>r. (jb_message_id r, jb_delivery_attempts r + 1)) rows"
  using assms
proof (induction rows arbitrary: q cs)
  case Nil
  then show ?case by (simp add: update_where_none)
next
  case (Cons r rs)
  let ?P = "\<lambda>j. jb_message_id j = jb_message_id r \<and> jb_status j = Job_Available"
  let ?q = "update_where ?P (lease_job i) q"
  have r: "r \<in> set q" "jb_status r = Job_Available" using Cons.prems(4) [of r] by simp_all
  have "count_where ?P q = 1"
    using Cons.prems(2) r by (intro count_where_key [of jb_message_id]) (auto simp: queue_ok_def)
  then obtain c cs' where c: "claimed_of i r = Inr c" "claim_jobs i rs ?q = Inr (cs', q')" "cs = c # cs'"
    using Cons.prems(1) by (auto simp: and_then_eq_Inr Let_def)
  have "queue_ok ?q" by (rule queue_lease_ok [OF Cons.prems(2), THEN conjunct1]) simp
  moreover have "r' \<in> set ?q \<and> jb_status r' = Job_Available" if "r' \<in> set rs" for r'
  proof -
    have "jb_message_id r' \<noteq> jb_message_id r" using Cons.prems(3) imageI [OF that, of jb_message_id] by auto
    then show ?thesis using Cons.prems(4) [of r'] that by (auto intro!: update_where_keep)
  qed
  ultimately have IH: "q' = update_where (\<lambda>j. jb_message_id j \<in> jb_message_id ` set rs \<and> jb_status j = Job_Available)
        (lease_job i) ?q"
      "map (\<lambda>c. (cd_delivery_id c, cd_delivery_attempt c)) cs' =
        map (\<lambda>r. (jb_message_id r, jb_delivery_attempts r + 1)) rs"
    using Cons.IH [OF c(2)] Cons.prems(3) by auto
  have "q' = update_where (\<lambda>j. jb_message_id j \<in> jb_message_id ` set (r # rs) \<and> jb_status j = Job_Available)
      (lease_job i) q"
    unfolding IH(1) update_where_def map_map
  proof (rule map_cong [OF refl])
    fix j assume "j \<in> set q"
    show "((\<lambda>j. if jb_message_id j \<in> jb_message_id ` set rs \<and> jb_status j = Job_Available then lease_job i j else j) \<circ>
        (\<lambda>j. if ?P j then lease_job i j else j)) j =
      (if jb_message_id j \<in> jb_message_id ` set (r # rs) \<and> jb_status j = Job_Available then lease_job i j else j)"
      by (cases "jb_message_id j = jb_message_id r"; cases "jb_status j = Job_Available") auto
  qed
  moreover have "cd_delivery_id c = jb_message_id r \<and> cd_delivery_attempt c = jb_delivery_attempts r + 1"
    using c(1) by (auto simp: claimed_of_def and_then_eq_Inr)
  ultimately show ?case using IH(2) c(3) by simp
qed

lemma due_jobs_rows:
  assumes "queue_ok q"
  shows "distinct (map jb_message_id (due_jobs i q))"
    and "r \<in> set (due_jobs i q) \<Longrightarrow> r \<in> set q \<and> job_due i r"
proof -
  let ?s = "sort_key (\<lambda>j. (- jb_priority j, jb_created_at j, jb_message_id j)) (filter (job_due i) q)"
  have "distinct (map jb_message_id ?s)" using assms by (auto simp: queue_ok_def distinct_map inj_on_def)
  then show "distinct (map jb_message_id (due_jobs i q))" by (simp add: due_jobs_def take_map [symmetric])
  have "set (due_jobs i q) \<subseteq> set ?s" unfolding due_jobs_def by (rule set_take_subset)
  then show "r \<in> set q \<and> job_due i r" if "r \<in> set (due_jobs i q)" using that by auto
qed

lemma claim_queue_cases:
  assumes "claim_queue i q = (r, q')"
  obtains "q' = q" "\<And>cs. r = Inr cs \<Longrightarrow> cs = []"
  | cs q1 where "r = Inr cs" "q1 = snd (recoverExpiredWithinTransaction (cj_now i) 1000 q)"
      "claim_jobs i (due_jobs i q1) q1 = Inr (cs, q')"
  using assms
  by (auto simp: claim_queue_def transaction_def claim_jobs_body_def Let_def split: sum.splits if_splits)

lemma queue_claim_ok:
  assumes "claim_queue i q = (r, q')" "queue_ok q"
  shows "queue_ok q' \<and> keeps_jobs q q'"
  using assms(1)
proof (cases rule: claim_queue_cases)
  case 1
  then show ?thesis using assms(2) by simp
next
  case (2 cs q1)
  have q1: "queue_ok q1" "keeps_jobs q q1" using recover_ok [OF assms(2)] 2(2) by auto
  have q': "q' = update_where (\<lambda>j. jb_message_id j \<in> jb_message_id ` set (due_jobs i q1) \<and>
      jb_status j = Job_Available) (lease_job i) q1"
    using claim_jobs_spec [OF 2(3) q1(1)] due_jobs_rows [OF q1(1)] by (auto simp: job_due_def)
  have "queue_ok q' \<and> keeps_jobs q1 q'" unfolding q' by (rule queue_lease_ok [OF q1(1)]) simp
  then show ?thesis using keeps_jobs_trans q1(2) by blast
qed

lemma publish_ok:
  assumes "publish j availableAt q = (r, q')" "queue_ok q"
  shows "queue_ok q' \<and> keeps_jobs q q'"
proof -
  have new: "queue_ok (q @ [new_job e t]) \<and> keeps_jobs q (q @ [new_job e t])"
    if "jv_deduplication_key e \<notin> jb_deduplication_key ` set q" "jv_message_id e \<notin> jb_message_id ` set q" for e t
    using assms(2) that by (auto simp: queue_ok_def keeps_jobs_def new_job_def job_ok_def)
  have key: "jb_message_id (new_job e t) = jv_message_id e" for e t by (simp add: new_job_def)
  from assms(1) have "q' = q \<or> (\<exists>e t. jv_deduplication_key e \<notin> jb_deduplication_key ` set q \<and>
      jv_message_id e \<notin> jb_message_id ` set q \<and> q' = q @ [new_job e t])"
    by (auto simp: publish_def publish_body_def transaction_def insert_row_def key split: sum.splits if_splits)
  then show ?thesis using new assms(2) by auto
qed

lemma renew_ok:
  assumes "renew_job i q = (r, q')" "queue_ok q"
  shows "queue_ok q' \<and> keeps_jobs q q'"
proof -
  let ?f = "\<lambda>j. j\<lparr>jb_lease_expires_at := Some (rj_lease_expires_at i), jb_updated_at := rj_now i\<rparr>"
  have q': "q' = update_where (held_lease i) ?f q" using assms(1) by (simp add: renew_job_def)
  show ?thesis unfolding q'
    using assms(2) by (intro conjI queue_ok_update update_keeps_jobs) (auto simp: held_lease_def job_ok_def)
qed

lemma required_job_Inr: "required_job k q = Inr j \<longleftrightarrow> row_by jb_message_id k q = Some j"
  by (auto simp: required_job_def split: option.splits)

text \<open>An update of the row that was just read.\<close>

lemma row_update_ok:
  assumes "queue_ok q" "row_by jb_message_id k q = Some e" "jb_status e \<noteq> Job_Completed"
    and "jb_message_id (f e) = jb_message_id e" "jb_deduplication_key (f e) = jb_deduplication_key e" "job_ok (f e)"
    and "\<And>j. jb_message_id (f j) = jb_message_id j" "\<And>j. jb_deduplication_key (f j) = jb_deduplication_key j"
  shows "queue_ok (update_where (\<lambda>j. jb_message_id j = k) f q) \<and>
    keeps_jobs q (update_where (\<lambda>j. jb_message_id j = k) f q)"
proof -
  have same: "j = e" if "j \<in> set q" "jb_message_id j = k" for j
    using queue_row [OF assms(1) that(1)] that(2) assms(2) by simp
  show ?thesis
    using same assms(3-8) by (intro conjI queue_ok_update [OF assms(1)] update_keeps_jobs) auto
qed

lemma acknowledge_ok:
  assumes "acknowledge w k t q = (r, q')" "queue_ok q"
  shows "queue_ok q' \<and> keeps_jobs q q'"
proof (cases "q' = q")
  case False
  let ?f = "\<lambda>j. j\<lparr>jb_status := Job_Completed, jb_lease_owner := None, jb_lease_expires_at := None,
      jb_completed_at := Some t, jb_updated_at := t\<rparr>"
  obtain e where e: "row_by jb_message_id k q = Some e" "jb_status e \<noteq> Job_Completed"
      "q' = update_where (\<lambda>j. jb_message_id j = k) ?f q"
    using assms(1) False
    by (auto simp: acknowledge_def transaction_def acknowledge_body_def required_job_def and_then_def
        split: sum.splits option.splits if_splits)
  have "job_ok e" using row_by_SomeD [OF e(1)] assms(2) by (simp add: queue_ok_def)
  then have "job_ok (?f e)" by (simp add: job_ok_def)
  then show ?thesis unfolding e(3) by (intro row_update_ok [OF assms(2) e(1,2)]) simp_all
qed (use assms(2) in simp)

lemma reject_ok:
  assumes "reject_job i q = (r, q')" "queue_ok q"
  shows "queue_ok q' \<and> keeps_jobs q q'"
proof (cases "q' = q")
  case False
  obtain e where e: "row_by jb_message_id (ej_delivery_id i) q = Some e" "\<not> not_owned (ej_worker_id i) e"
      "q' = update_where (\<lambda>j. jb_message_id j = ej_delivery_id i) (rejected_job i (after_failure e)) q"
    using assms(1) False
    by (auto simp: reject_job_def transaction_def reject_body_def required_job_def and_then_def
        split: sum.splits option.splits if_splits)
  have "job_ok e" using row_by_SomeD [OF e(1)] assms(2) by (simp add: queue_ok_def)
  then have "job_ok (rejected_job i (after_failure e) e)"
    by (auto simp: job_ok_def rejected_job_def after_failure_def)
  then show ?thesis unfolding e(3) using e(2)
    by (intro row_update_ok [OF assms(2) e(1)]) (simp_all add: rejected_job_def not_owned_def)
qed (use assms(2) in simp)

lemma redrive_rows_ok:
  "queue_ok q \<Longrightarrow> queue_ok (snd (redrive_rows t rows q)) \<and> keeps_jobs q (snd (redrive_rows t rows q))"
proof (induction rows arbitrary: q)
  case (Cons r rs)
  let ?P = "\<lambda>j. jb_message_id j = jb_message_id r \<and> jb_status j = Job_Dead_Letter"
  let ?q = "update_where ?P (redriven t) q"
  have "queue_ok ?q" using Cons.prems by (intro queue_ok_update) (auto simp: redriven_def job_ok_def)
  moreover have "keeps_jobs q ?q" by (rule update_keeps_jobs) (auto simp: redriven_def)
  ultimately show ?case
    using Cons.IH [of ?q] keeps_jobs_trans by (auto simp: Let_def split: prod.splits)
qed simp

lemma redrive_ok:
  assumes "redriveDeadLetters t n q = (r, q')" "queue_ok q"
  shows "queue_ok q' \<and> keeps_jobs q q'"
  using assms redrive_rows_ok [OF assms(2)]
  by (auto simp: redriveDeadLetters_def Let_def split: sum.splits prod.splits)
   (metis snd_conv)+

lemma queue_step_ok: "queue_step q q' \<Longrightarrow> queue_ok q \<Longrightarrow> queue_ok q' \<and> keeps_jobs q q'"
proof (induction rule: queue_step.induct)
  case (publish j availableAt q r1 q') then show ?case using publish_ok by blast
next
  case (claim i q r2 q') then show ?case using queue_claim_ok by blast
next
  case (renew i3 q r3 q') then show ?case using renew_ok by blast
next
  case (acknowledge w k t q r4 q') then show ?case using acknowledge_ok by blast
next
  case (reject i5 q r5 q') then show ?case using reject_ok by blast
next
  case (recover t6 n6 q r6 q') then show ?case using recover_ok [of q t6 n6] by (simp add: recoverExpiredJobs_def)
next
  case (redrive t7 n7 q r7 q') then show ?case using redrive_ok by blast
qed

lemma queue_steps_ok: "queue_step\<^sup>*\<^sup>* q q' \<Longrightarrow> queue_ok q \<Longrightarrow> queue_ok q' \<and> keeps_jobs q q'"
  by (induction rule: rtranclp_induct) (auto dest: queue_step_ok intro: keeps_jobs_trans)

section \<open>Deliveries\<close>

text \<open>A claim returns deliveries of rows that were available, or leased for too long, and leases them.\<close>

lemma claimed_rows:
  assumes "claim_queue i q = (Inr cs, q')" "queue_ok q" "c \<in> set cs"
  obtains j where "j \<in> set q'" "jb_message_id j = cd_delivery_id c" "jb_status j = Job_Leased"
    "jb_lease_expires_at j = Some (cj_lease_expires_at i)" "jb_lease_owner j = Some (cj_worker_id i)"
    "jb_delivery_attempts j = cd_delivery_attempt c"
  using assms(1)
proof (cases rule: claim_queue_cases)
  case 1
  then show thesis using assms(3) by auto
next
  case (2 ds q1)
  have q1: "queue_ok q1" using recover_ok [OF assms(2)] 2(2) by auto
  have spec: "q' = update_where (\<lambda>j. jb_message_id j \<in> jb_message_id ` set (due_jobs i q1) \<and>
        jb_status j = Job_Available) (lease_job i) q1"
      "map (\<lambda>c. (cd_delivery_id c, cd_delivery_attempt c)) cs =
        map (\<lambda>r. (jb_message_id r, jb_delivery_attempts r + 1)) (due_jobs i q1)"
    using claim_jobs_spec [OF 2(3) q1] due_jobs_rows [OF q1] 2(1) by (auto simp: job_due_def)
  have "(cd_delivery_id c, cd_delivery_attempt c) \<in> set (map (\<lambda>c. (cd_delivery_id c, cd_delivery_attempt c)) cs)"
    using assms(3) by auto
  then obtain r where r: "r \<in> set (due_jobs i q1)" "cd_delivery_id c = jb_message_id r"
      "cd_delivery_attempt c = jb_delivery_attempts r + 1"
    unfolding spec(2) by auto
  have "r \<in> set q1" "jb_status r = Job_Available" using due_jobs_rows(2) [OF q1 r(1)] by (auto simp: job_due_def)
  then have "lease_job i r \<in> set q'" unfolding spec(1) using r(1) by (intro update_where_change) auto
  then show thesis using that r(2,3) by (simp add: lease_job_def)
qed

text \<open>Until its lease is over, a job is not delivered again.\<close>

lemma recover_keeps_leased:
  assumes "queue_ok q" "j \<in> set q" "jb_lease_expires_at j = Some t" "now < t"
  shows "j \<in> set (snd (recoverExpiredWithinTransaction now limit q))"
proof -
  have "j \<in> set (recover_rows now rows p)"
    if "j \<in> set p" "jb_message_id j \<notin> jb_message_id ` set rows" for rows p
    using that
  proof (induction rows arbitrary: p)
    case (Cons r rs)
    have "j \<in> set (update_where (\<lambda>k. jb_message_id k = jb_message_id r \<and> jb_status k = Job_Leased)
        (expire_job now (after_failure r)) p)"
      using Cons.prems by (intro update_where_keep) auto
    then show ?case using Cons by (simp add: recover_rows_def)
  qed (simp add: recover_rows_def)
  moreover have "jb_message_id j \<notin> jb_message_id ` set (expired_jobs now limit q)"
  proof
    assume "jb_message_id j \<in> jb_message_id ` set (expired_jobs now limit q)"
    then obtain r where "r \<in> set q" "lease_expired now r" "jb_message_id r = jb_message_id j"
      using expired_jobs_in by force
    moreover from this have "r = j" using queue_same [OF assms(1)] assms(2) by blast
    ultimately show False using assms(3,4) by (simp add: lease_expired_def)
  qed
  ultimately show ?thesis using assms(2) by (simp add: recoverExpiredWithinTransaction_def Let_def)
qed

lemma leased_not_claimed:
  assumes "claim_queue i q = (Inr cs, q')" "queue_ok q" "j \<in> set q" "jb_status j = Job_Leased"
    "jb_lease_expires_at j = Some t" "cj_now i < t" "c \<in> set cs"
  shows "cd_delivery_id c \<noteq> jb_message_id j"
proof
  assume same: "cd_delivery_id c = jb_message_id j"
  show False
    using assms(1)
  proof (cases rule: claim_queue_cases)
    case 1
    then show False using assms(7) by auto
  next
    case (2 ds q1)
    have q1: "queue_ok q1" "j \<in> set q1"
      using recover_ok [OF assms(2)] recover_keeps_leased [OF assms(2,3,5,6)] 2(2) by auto
    have "map (\<lambda>c. (cd_delivery_id c, cd_delivery_attempt c)) cs =
        map (\<lambda>r. (jb_message_id r, jb_delivery_attempts r + 1)) (due_jobs i q1)"
      using claim_jobs_spec [OF 2(3) q1(1)] due_jobs_rows [OF q1(1)] 2(1) by (auto simp: job_due_def)
    then have "cd_delivery_id c \<in> jb_message_id ` set (due_jobs i q1)"
      using assms(7) by (metis (no_types, lifting) fst_conv image_eqI image_set in_set_conv_nth length_map nth_map)
    then obtain r where r: "r \<in> set (due_jobs i q1)" "jb_message_id r = jb_message_id j" using same by auto
    then have "r \<in> set q1" "jb_status r = Job_Available"
      using due_jobs_rows(2) [OF q1(1) r(1)] by (simp_all add: job_due_def)
    then show False using queue_same [OF q1(1) _ q1(2) r(2)] assms(4) by simp
  qed
qed

text \<open>
  What everybody else may do while worker \<open>w\<close> holds the delivery \<open>k\<close>: every operation at a time
  before \<open>T\<close>, except that only \<open>w\<close> may renew, acknowledge or reject \<open>k\<close>.
\<close>

inductive foreign_step :: "string \<Rightarrow> ident \<Rightarrow> time \<Rightarrow> queue \<Rightarrow> queue \<Rightarrow> bool" for w k T where
  foreign_publish: "publish e availableAt q = (r1, q') \<Longrightarrow> foreign_step w k T q q'"
| foreign_claim: "claim_queue i q = (r2, q') \<Longrightarrow> cj_now i < T \<Longrightarrow> foreign_step w k T q q'"
| foreign_renew: "renew_job i3 q = (r3, q') \<Longrightarrow> (rj_worker_id i3, rj_delivery_id i3) \<noteq> (w, k) \<Longrightarrow>
    foreign_step w k T q q'"
| foreign_acknowledge: "acknowledge v d t q = (r4, q') \<Longrightarrow> (v, d) \<noteq> (w, k) \<Longrightarrow> foreign_step w k T q q'"
| foreign_reject: "reject_job i5 q = (r5, q') \<Longrightarrow> (ej_worker_id i5, ej_delivery_id i5) \<noteq> (w, k) \<Longrightarrow>
    foreign_step w k T q q'"
| foreign_recover: "recoverExpiredJobs t6 n6 q = (r6, q') \<Longrightarrow> t6 < T \<Longrightarrow> foreign_step w k T q q'"
| foreign_redrive: "redriveDeadLetters t7 n7 q = (r7, q') \<Longrightarrow> foreign_step w k T q q'"

definition holds_lease :: "string \<Rightarrow> ident \<Rightarrow> time \<Rightarrow> queue_job \<Rightarrow> bool" where
  "holds_lease w k T j \<longleftrightarrow> jb_message_id j = k \<and> jb_status j = Job_Leased \<and> jb_lease_owner j = Some w \<and>
     jb_lease_expires_at j = Some T"

lemma claim_keeps_leased:
  assumes "claim_queue i q = (r, q')" "queue_ok q" "j \<in> set q" "jb_status j = Job_Leased"
    "jb_lease_expires_at j = Some t" "cj_now i < t"
  shows "j \<in> set q'"
  using assms(1)
proof (cases rule: claim_queue_cases)
  case 1
  then show ?thesis using assms(3) by simp
next
  case (2 cs q1)
  have q1: "queue_ok q1" "j \<in> set q1"
    using recover_ok [OF assms(2)] recover_keeps_leased [OF assms(2,3,5,6)] 2(2) by auto
  have "q' = update_where (\<lambda>j. jb_message_id j \<in> jb_message_id ` set (due_jobs i q1) \<and>
      jb_status j = Job_Available) (lease_job i) q1"
    using claim_jobs_spec [OF 2(3) q1(1)] due_jobs_rows [OF q1(1)] by (auto simp: job_due_def)
  then show ?thesis using q1(2) assms(4) by (auto intro!: update_where_keep)
qed

lemma redrive_rows_keep:
  "j \<in> set q \<Longrightarrow> jb_status j \<noteq> Job_Dead_Letter \<Longrightarrow> j \<in> set (snd (redrive_rows t rows q))"
proof (induction rows arbitrary: q)
  case (Cons r rs)
  have "j \<in> set (update_where (\<lambda>j. jb_message_id j = jb_message_id r \<and> jb_status j = Job_Dead_Letter)
      (redriven t) q)"
    using Cons.prems by (intro update_where_keep) auto
  then show ?case using Cons.IH Cons.prems(2) by (auto simp: Let_def split: prod.splits) (metis snd_conv)
qed simp

lemma acknowledge_keeps_leased:
  assumes "acknowledge v d t q = (r, q')" "queue_ok q" "j \<in> set q" "holds_lease w k T j" "(v, d) \<noteq> (w, k)"
  shows "j \<in> set q'"
proof (cases "q' = q")
  case False
  then obtain e f where e: "row_by jb_message_id d q = Some e" "\<not> not_owned v e"
      "q' = update_where (\<lambda>j. jb_message_id j = d) f q"
    using assms(1)
    by (auto simp: acknowledge_def transaction_def acknowledge_body_def required_job_def and_then_def
        split: sum.splits option.splits if_splits)
  have "jb_message_id j \<noteq> d"
  proof
    assume "jb_message_id j = d"
    then have "e = j" using queue_row [OF assms(2,3)] e(1) by simp
    then show False using e(2) assms(4,5) \<open>jb_message_id j = d\<close> by (auto simp: not_owned_def holds_lease_def)
  qed
  then show ?thesis unfolding e(3) using assms(3) by (intro update_where_keep) auto
qed (use assms in simp)

lemma reject_keeps_leased:
  assumes "reject_job i q = (r, q')" "queue_ok q" "j \<in> set q" "holds_lease w k T j"
    "(ej_worker_id i, ej_delivery_id i) \<noteq> (w, k)"
  shows "j \<in> set q'"
proof (cases "q' = q")
  case False
  then obtain e f where e: "row_by jb_message_id (ej_delivery_id i) q = Some e" "\<not> not_owned (ej_worker_id i) e"
      "q' = update_where (\<lambda>j. jb_message_id j = ej_delivery_id i) f q"
    using assms(1)
    by (auto simp: reject_job_def transaction_def reject_body_def required_job_def and_then_def
        split: sum.splits option.splits if_splits)
  have "jb_message_id j \<noteq> ej_delivery_id i"
  proof
    assume "jb_message_id j = ej_delivery_id i"
    then have "e = j" using queue_row [OF assms(2,3)] e(1) by simp
    then show False using e(2) assms(4,5) \<open>jb_message_id j = ej_delivery_id i\<close>
      by (auto simp: not_owned_def holds_lease_def)
  qed
  then show ?thesis unfolding e(3) using assms(3) by (intro update_where_keep) auto
qed (use assms in simp)

lemma foreign_step_keeps:
  assumes "foreign_step w k T q q'" "queue_ok q" "j \<in> set q" "holds_lease w k T j"
  shows "queue_ok q' \<and> j \<in> set q'"
  using assms(1)
proof cases
  case (foreign_publish e availableAt r1)
  then show ?thesis
    using publish_ok [OF foreign_publish(1) assms(2)] assms(3)
    by (auto simp: publish_def publish_body_def transaction_def insert_row_def split: sum.splits if_splits)
next
  case (foreign_claim i r2)
  then show ?thesis
    using queue_claim_ok [OF foreign_claim(1) assms(2)] claim_keeps_leased [OF foreign_claim(1) assms(2,3)] assms(4)
    by (simp add: holds_lease_def)
next
  case (foreign_renew i3 r3)
  then show ?thesis
    using renew_ok [OF foreign_renew(1) assms(2)] assms(3,4)
    by (auto simp: renew_job_def held_lease_def holds_lease_def intro!: update_where_keep)
next
  case (foreign_acknowledge v d t r4)
  then show ?thesis
    using acknowledge_ok [OF foreign_acknowledge(1) assms(2)]
      acknowledge_keeps_leased [OF foreign_acknowledge(1) assms(2-4) foreign_acknowledge(2)] by simp
next
  case (foreign_reject i5 r5)
  then show ?thesis
    using reject_ok [OF foreign_reject(1) assms(2)]
      reject_keeps_leased [OF foreign_reject(1) assms(2-4) foreign_reject(2)] by simp
next
  case (foreign_recover t6 n6 r6)
  then show ?thesis
    using recover_ok [OF assms(2), of t6 n6] recover_keeps_leased [OF assms(2,3), of T t6 n6] assms(4)
    by (simp add: recoverExpiredJobs_def holds_lease_def)
next
  case (foreign_redrive t7 n7 r7)
  have "jb_status j \<noteq> Job_Dead_Letter" using assms(4) by (simp add: holds_lease_def)
  then have "j \<in> set (snd (redrive_rows t rows q))" for t rows by (rule redrive_rows_keep [OF assms(3)])
  then have "j \<in> set q'"
    using foreign_redrive(1) assms(3)
    by (auto simp: redriveDeadLetters_def Let_def split: sum.splits prod.splits) (metis snd_conv)
  then show ?thesis using redrive_ok [OF foreign_redrive(1) assms(2)] by simp
qed

lemma foreign_steps_keep:
  "(foreign_step w k T)\<^sup>*\<^sup>* q q' \<Longrightarrow> queue_ok q \<Longrightarrow> j \<in> set q \<Longrightarrow> holds_lease w k T j \<Longrightarrow>
    queue_ok q' \<and> j \<in> set q'"
  by (induction rule: rtranclp_induct) (use foreign_step_keeps in blast)+

text \<open>A delivery belongs to its worker until its lease is over, whatever the others do in between.\<close>

lemma deliveries_exclusive:
  assumes "queue_ok q" "claim_queue i q = (Inr cs, q1)" "c \<in> set cs"
    "(foreign_step (cj_worker_id i) (cd_delivery_id c) (cj_lease_expires_at i))\<^sup>*\<^sup>* q1 q2"
  shows "(\<exists>j\<in>set q2. holds_lease (cj_worker_id i) (cd_delivery_id c) (cj_lease_expires_at i) j) \<and>
    (\<forall>k ds q3 d. claim_queue k q2 = (Inr ds, q3) \<and> cj_now k < cj_lease_expires_at i \<and> d \<in> set ds \<longrightarrow>
       cd_delivery_id d \<noteq> cd_delivery_id c)"
proof -
  obtain j where j: "j \<in> set q1" "jb_message_id j = cd_delivery_id c" "jb_status j = Job_Leased"
      "jb_lease_expires_at j = Some (cj_lease_expires_at i)" "jb_lease_owner j = Some (cj_worker_id i)"
    by (rule claimed_rows [OF assms(2,1,3)])
  then have h: "holds_lease (cj_worker_id i) (cd_delivery_id c) (cj_lease_expires_at i) j"
    by (simp add: holds_lease_def)
  have "queue_ok q1" using queue_claim_ok [OF assms(2,1)] by blast
  then have q2: "queue_ok q2" "j \<in> set q2" using foreign_steps_keep [OF assms(4) _ j(1) h] by simp_all
  have "cd_delivery_id d \<noteq> cd_delivery_id c"
    if "claim_queue k q2 = (Inr ds, q3)" "cj_now k < cj_lease_expires_at i" "d \<in> set ds" for k ds q3 d
    using leased_not_claimed [OF that(1) q2 j(3,4) that(2,3)] j(2) by simp
  then show ?thesis using q2(2) h by blast
qed

lemma deliveries_bounded:
  assumes "claim_queue i q = (Inr cs, q')" "queue_ok q" "c \<in> set cs"
  shows "\<exists>j\<in>set q'. jb_message_id j = cd_delivery_id c \<and>
    1 \<le> cd_delivery_attempt c \<and> cd_delivery_attempt c \<le> jb_maximum_deliveries j"
proof -
  obtain j where j: "j \<in> set q'" "jb_message_id j = cd_delivery_id c" "jb_status j = Job_Leased"
      "jb_delivery_attempts j = cd_delivery_attempt c"
    by (rule claimed_rows [OF assms])
  moreover have "job_ok j" using queue_claim_ok [OF assms(1,2)] j(1) by (simp add: queue_ok_def)
  ultimately show ?thesis by (auto simp: job_ok_def)
qed

lemma job_retry_delay_bounds: "1 \<le> n \<Longrightarrow> 1000 \<le> job_retry_delay_ms n \<and> job_retry_delay_ms n \<le> 60000"
  by (simp add: job_retry_delay_ms_def)

section \<open>What a worker makes of a delivery\<close>

lemma owned_row:
  assumes "queue_ok q" "j \<in> set q" "jb_status j = Job_Leased" "jb_lease_owner j = Some w"
  shows "required_job (jb_message_id j) q = Inr j" "\<not> not_owned w j"
  using queue_row [OF assms(1,2)] assms(3,4) by (simp_all add: required_job_Inr not_owned_def)

lemma worker_reject_owned:
  assumes "queue_ok q" "j \<in> set q" "jb_message_id j = cd_delivery_id d" "jb_status j = Job_Leased"
    "jb_lease_owner j = Some w"
  shows "\<exists>res q' k. worker_reject w d summary t q = (Inr res, q') \<and> k \<in> set q' \<and>
    jb_message_id k = cd_delivery_id d \<and> jb_status k = after_failure j \<and>
    jb_available_at k = t + job_retry_delay_ms (cd_delivery_attempt d)"
proof -
  define i where "i = \<lparr>ej_worker_id = w, ej_delivery_id = cd_delivery_id d,
       ej_error_code = ''JOB_HANDLER_FAILED'', ej_error_summary = take 2048 summary,
       ej_retry_at = Some (t + job_retry_delay_ms (cd_delivery_attempt d)), ej_rejected_at = t\<rparr>"
  let ?q = "update_where (\<lambda>j. jb_message_id j = cd_delivery_id d) (rejected_job i (after_failure j)) q"
  have "reject_job i q = (Inr (if after_failure j = Job_Dead_Letter then Dead_Letter else Retrying), ?q)"
    using owned_row [OF assms(1,2,4,5)] assms(3)
    by (simp add: reject_job_def reject_body_def transaction_def i_def)
  moreover have "rejected_job i (after_failure j) j \<in> set ?q"
    using assms(2,3) by (intro update_where_change) auto
  moreover have "jb_message_id (rejected_job i s k) = jb_message_id k" "jb_status (rejected_job i s k) = s"
    "jb_available_at (rejected_job i s k) = t + job_retry_delay_ms (cd_delivery_attempt d)" for s k
    by (simp_all add: rejected_job_def i_def)
  ultimately show ?thesis
    unfolding worker_reject_def i_def [symmetric] using assms(3) by metis
qed

lemma acknowledge_owned:
  assumes "queue_ok q" "j \<in> set q" "jb_message_id j = k" "jb_status j = Job_Leased" "jb_lease_owner j = Some w"
  shows "\<exists>q'. acknowledge w k t q = (Inr (), q') \<and>
    (\<exists>c\<in>set q'. jb_message_id c = k \<and> jb_status c = Job_Completed)"
proof -
  let ?f = "\<lambda>j. j\<lparr>jb_status := Job_Completed, jb_lease_owner := None, jb_lease_expires_at := None,
      jb_completed_at := Some t, jb_updated_at := t\<rparr>"
  have "acknowledge w k t q = (Inr (), update_where (\<lambda>j. jb_message_id j = k) ?f q)"
    using owned_row [OF assms(1,2,4,5)] assms(3,4)
    by (simp add: acknowledge_def acknowledge_body_def transaction_def)
  moreover have "?f j \<in> set (update_where (\<lambda>j. jb_message_id j = k) ?f q)"
    using assms(2,3) by (intro update_where_change) auto
  moreover have "jb_message_id (?f j) = k" "jb_status (?f j) = Job_Completed" using assms(3) by simp_all
  ultimately show ?thesis by metis
qed

text \<open>
  A worker that still holds its lease settles the delivery, whatever the handler does: the job is
  completed, waits for its next delivery, or is a dead letter when the deliveries are used up.
\<close>

lemma process_settles:
  assumes "queue_ok q" "j \<in> set q" "jb_message_id j = cd_delivery_id d" "jb_status j = Job_Leased"
    "jb_lease_owner j = Some w" "\<And>n p. others n p = p"
  shows "\<exists>q' k. process_delivery others message w d outcome clock q = (Inr (), q') \<and> k \<in> set q' \<and>
    jb_message_id k = cd_delivery_id d \<and>
    jb_status k = (if outcome = Handler_Done then Job_Completed else after_failure j)"
proof (cases outcome)
  case Handler_Done
  then show ?thesis
    using acknowledge_owned [OF assms(1-5), of "clock 0"] assms(6)
    by (auto simp: process_delivery_def)
next
  case (Handler_Missing summary)
  then show ?thesis
    using worker_reject_owned [OF assms(1-5), of summary "clock 0"] assms(6)
    by (fastforce simp: process_delivery_def)
next
  case (Handler_Failed summary)
  then show ?thesis
    using worker_reject_owned [OF assms(1-5), of summary "clock 0"] assms(6)
    by (fastforce simp: process_delivery_def)
qed

end
