(* ===== verification/Service_Scenario.thy ===== *)
theory Service_Scenario
  imports Scenario Batch_Rounds Schedule_Expression Recovery_Service Recovery_Credentials
    Scheduling_Service Coalesced Case_Sources Job_Queue
begin

text \<open>
  Inputs of the witnesses on rounds, services, credentials, schedules and case sources: a batch whose
  second round waits for two recovery steps, environments in which no other process interferes, two
  draft rules that share a key, a calendar without time zones, two sources of three cases, and a queue
  with one job.
\<close>

section \<open>Rounds and services\<close>

definition ex_recovery :: "ident \<Rightarrow> recovery_status \<Rightarrow> recovery_row" where
  "ex_recovery k status =
     \<lparr>rv_batch_id = ''b'', rv_rule_id = k, rv_after_round = 1, rv_next_round = 2,
      rv_jenkins_job_url = ''https://ci/job/x'', rv_api_key_ciphertext = ''secret'',
      rv_wait_minutes = 0, rv_status = status, rv_poll_failure_count = 0,
      rv_source_build_number = Some 7, rv_rebuild_number = None, rv_rebuild_url = None,
      rv_available_at = 10, rv_activated_at = Some 10, rv_started_at = None, rv_finished_at = None,
      rv_build_result = None, rv_error_message = None, rv_lease_owner = Some ''w'',
      rv_lease_expires_at = Some 20, rv_created_at = 0, rv_updated_at = 10\<rparr>"

definition ex_held :: store where
  "ex_held = ex_empty\<lparr>st_batches := [ex_batch B_Queued 1 0],
     st_runs := [(ex_run 0)\<lparr>rr_held_round := 2\<rparr>, (ex_run 1)\<lparr>rr_held_round := 2\<rparr>],
     st_recoveries := [ex_recovery ''j1'' RV_Succeeded, ex_recovery ''j2'' RV_Waiting]\<rparr>"

definition ex_step_input :: step_input where
  "ex_step_input = \<lparr>sn_batch_id = ''b'', sn_rule_id = ''j2'', sn_worker_id = ''w'', sn_updated_at = 15\<rparr>"

definition ex_due :: store where
  "ex_due = ex_held\<lparr>st_recoveries := [ex_recovery ''j1'' RV_Pending, ex_recovery ''j2'' RV_Pending]\<rparr>"

definition ex_claim_due :: "string \<Rightarrow> claim_due_input" where
  "ex_claim_due worker = \<lparr>cu_worker_id = worker, cu_now = 30, cu_lease_expires_at = 60, cu_limit = 1\<rparr>"

definition ex_recovery_claim :: recovery_claim where
  "ex_recovery_claim = toClaim (ex_recovery ''j2'' RV_Waiting, ''suite'')"

definition ex_recovery_env :: recovery_env where
  "ex_recovery_env =
     \<lparr>en_clock = (\<lambda>n. 30 + int n), en_id = show_nat, en_others = (\<lambda>n s. s),
      en_rebuild_last = (\<lambda>n url key. Inr 7), en_inspect_rebuild = (\<lambda>n url key src num link. Inr Discovering),
      en_decrypt = (\<lambda>x p. Inr x), en_schedule = (\<lambda>n b s. (Inr (), s)), en_text = (\<lambda>nt d c. d),
      en_error_text = (\<lambda>x. ''error''), en_failed_text = (\<lambda>n r. r), en_time_text = show_int\<rparr>"

definition ex_configuration :: scheduling_configuration where
  "ex_configuration = \<lparr>sf_thresholds = ru_thresholds ex_reserve, sf_metrics_maximum_age = 60,
     sf_project_maximum = 4, sf_aging_minutes = 5\<rparr>"

definition ex_pass_env :: scheduling_env where
  "ex_pass_env =
     \<lparr>ev_clock = (\<lambda>n. 10 + int n), ev_id = show_nat, ev_others = (\<lambda>n s. s),
      ev_tables = (\<lambda>n. \<lparr>sq_reserve = ex_reserve_tables, sq_order_key = (\<lambda>k. k),
        sq_scheduled_for = (\<lambda>k. 0), sq_family_runner = (\<lambda>k. None),
        sq_run_details = (\<lambda>k. \<lparr>rx_case_version = 1, rx_class_name = ''C'', rx_case_type = TestNg_Case,
          rx_ddt_sr_num = None, rx_created_at = 0\<rparr>)\<rparr>),
      ev_default_configuration = ex_configuration, ev_live_configuration = (\<lambda>n. None),
      ev_text = (\<lambda>nt. ''''), ev_score_text = (\<lambda>q. ''''), ev_reasons_text = (\<lambda>rs. '''')\<rparr>"

definition ex_world :: "store \<Rightarrow> unit scheduling_world_scheme" where
  "ex_world s = \<lparr>wd_store = s, wd_calls = 0, sw_last_metrics = (\<lambda>k. None)\<rparr>"

definition ex_context :: "int \<Rightarrow> int option \<Rightarrow> retry_context" where
  "ex_context rnd rate = \<lparr>rt_execution_round = rnd, rt_previous_pass_rate = rate, rt_remaining_runs = 3\<rparr>"

definition ex_second :: store where
  "ex_second = ex_created\<lparr>st_batches := [(ex_batch B_Queued 1 0)\<lparr>bt_current_round := 2\<rparr>]\<rparr>"

definition ex_activation :: activation_input where
  "ex_activation = \<lparr>av_batch_id = ''b'', av_execution_round = 2, av_expected_rule_id = None,
     av_state = \<lparr>cs_rule_id = ''calm'', cs_rule_index = 0, cs_concurrency = 2, cs_activated_round = 2\<rparr>,
     av_updated_at = 50\<rparr>"

section \<open>Credentials\<close>

definition ex_rule_input :: "ident \<Rightarrow> string option \<Rightarrow> ident option \<Rightarrow> rule_input" where
  "ex_rule_input k key source =
     \<lparr>ri_id = k, ri_after_round = 1, ri_jenkins_job_url = ''https://ci/job/x'', ri_api_key = key,
      ri_api_key_source = map_option (\<lambda>r. \<lparr>cf_suite_id = ''s'', cf_rule_id = r\<rparr>) source\<rparr>"

definition ex_rules :: "rule_input list" where
  "ex_rules = [ex_rule_input ''A'' None (Some ''B''), ex_rule_input ''B'' (Some ''u:t'') None]"

definition ex_suite :: case_suite where
  "ex_suite = \<lparr>su_id = ''s'', su_is_rerun = None, su_project_id = ''p'', su_name = ''s'',
     su_description = None, su_version = 1, su_revision = 1, su_status = Suite_Active, su_enabled = True,
     su_policy = defaultCaseSuiteExecutionPolicy, su_case_count = 0, su_created_by = None,
     su_updated_by = None, su_created_at = 0, su_updated_at = 0\<rparr>"

definition ex_credentials :: credential_env where
  "ex_credentials =
     \<lparr>ce_suites = (\<lambda>k. None), ce_rows = [], ce_cipher = True,
      ce_decrypt = (\<lambda>x p. Inr (drop (length p) x)), ce_encrypt = (\<lambda>c p. p @ c),
      ce_origin = (\<lambda>u. Some u), ce_normal_url = (\<lambda>u. Some u)\<rparr>"

section \<open>Schedules, rounds of a batch and case sources\<close>

definition ex_zones :: time_zones where
  "ex_zones z = (if z = ''UTC'' then Some (\<lambda>t. \<lparr>df_minute = t div 60000 mod 60,
     df_hour = t div 3600000 mod 24, df_day_of_month = 1, df_month = 1, df_day_of_week = 4\<rparr>) else None)"

definition ex_done :: "ident \<Rightarrow> int \<Rightarrow> attempt_status \<Rightarrow> run_attempt" where
  "ex_done run n status =
     \<lparr>ra_id = run @ show_int n, ra_execution_run_id = run, ra_runner_id = ''agent'',
      ra_attempt_number = n, ra_execution_round = Some n, ra_status = status,
      ra_scheduling_score = 0, ra_version = js_int 1, ra_started_at = Some n, ra_finished_at = Some (n + 5),
      ra_outcome = None, ra_result_code = None, ra_result_summary = None, ra_duration_ms = None,
      ra_test_ng = None, ra_created_at = n\<rparr>"

definition ex_execution :: "ident \<Rightarrow> execution_run" where
  "ex_execution k =
     \<lparr>er_id = k, er_batch_id = ''b'', er_case_definition_id = ''c'', er_case_version = 1,
      er_display_name = k, er_class_name = ''C'', er_case_type = None, er_ddt_sr_num = None,
      er_status = R_Succeeded, er_assigned_runner_id = None, er_attempt_count = 1,
      er_execution_round = Some 1, er_scheduling_score = None, er_terminal_outcome = None,
      er_terminal_reason_code = None, er_cancel_requested_at = None, er_held_round = None,
      er_version = js_int 1, er_created_at = 0, er_assigned_at = None, er_updated_at = 0\<rparr>"

definition ex_summary_batch :: run_batch where
  "ex_summary_batch =
     \<lparr>rb_id = ''b'', rb_project_id = ''p'', rb_suite_id = ''s'', rb_kind = None, rb_status = B_Failed,
      rb_priority = 0, rb_retry_limit = 1, rb_retry_mode = Round, rb_current_round = 2,
      rb_selected_runner_ids = [], rb_policy = None, rb_total_runs = 2, rb_queued_runs = 0,
      rb_assigned_runs = 0, rb_running_runs = 0, rb_succeeded_runs = 1, rb_failed_runs = 1,
      rb_timed_out_runs = 0, rb_cancelled_runs = 0, rb_termination_requested_at = None,
      rb_pause_requested_at = None, rb_scheduled_for = 0\<rparr>"

definition ex_attempts :: "run_attempt list" where
  "ex_attempts = [ex_done ''r1'' 1 T_Failed, ex_done ''r2'' 1 T_Failed, ex_done ''r1'' 2 T_Succeeded,
     ex_done ''r2'' 2 T_Timed_Out]"

definition ex_entry :: "string \<Rightarrow> string \<Rightarrow> source_entry" where
  "ex_entry name sig = \<lparr>xe_class_name = name, xe_case_definition_id = None, xe_signature = sig\<rparr>"

definition ex_current :: "source_entry list" where
  "ex_current = [ex_entry ''A'' ''1'', ex_entry ''B'' ''1'', ex_entry ''C'' ''1'']"

definition ex_next :: "source_entry list" where
  "ex_next = [ex_entry ''B'' ''2'', ex_entry ''C'' ''1'', ex_entry ''D'' ''1'']"

section \<open>The job queue\<close>

definition ex_job :: job_envelope where
  "ex_job = \<lparr>jv_schema_version = 1, jv_message_id = ''m1'', jv_run_id = ''r1'', jv_attempt = 1,
     jv_created_at = 0, jv_priority = 0, jv_deduplication_key = ''k1'', jv_kind = Jar_Import,
     jv_payload = []\<rparr>"

definition ex_claim_job :: "string \<Rightarrow> time \<Rightarrow> claim_jobs_input" where
  "ex_claim_job w t = \<lparr>cj_worker_id = w, cj_now = t, cj_lease_expires_at = t + 30, cj_limit = 4,
     cj_work_class = None\<rparr>"

definition ex_queue_published :: queue where
  "ex_queue_published = snd (publish ex_job None [])"

definition ex_queue_leased :: queue where
  "ex_queue_leased = snd (claim_queue (ex_claim_job ''w'' 10) ex_queue_published)"

definition ex_delivery :: claimed_job where
  "ex_delivery = hd (projr (fst (claim_queue (ex_claim_job ''w'' 10) ex_queue_published)))"

end
