(* ===== verification/Identity.thy ===== *)
theory Identity
  imports Prelude
begin

text \<open>
  Permissions, roles and identities of the control plane: \<open>packages/domain/src/identity.ts\<close> and the
  permissions of \<open>packages/db/src/identity-mapper.ts\<close>. A permission is its name; the Chinese names
  and descriptions of the built-in roles are a parameter.
\<close>

section \<open>Permissions and roles\<close>

type_synonym permission = string

definition permissionCatalog :: "permission list" where
  "permissionCatalog =
     [''case.read'', ''case.manage'', ''case_source.read'', ''case_source.manage'', ''case_suite.read'',
      ''case_suite.manage'', ''run.read'', ''run.create'', ''run.cancel'', ''run.retry'',
      ''analysis.manage'', ''analysis.assign'', ''analysis.ai.read'', ''analysis.ai.create'',
      ''log.read'', ''artifact.read'', ''runner.read'', ''runner.manage'', ''runner.terminal'',
      ''user.read'', ''user.manage'', ''role.read'', ''role.manage'', ''ldap.read'', ''ldap.manage'',
      ''project.read'', ''project.manage'', ''audit.read'', ''audit.export'', ''settings.read'',
      ''settings.manage'', ''api_token.manage'']"

definition isPermission :: "string \<Rightarrow> bool" where
  "isPermission v \<longleftrightarrow> v \<in> set permissionCatalog"

definition parsePermissions :: "string list \<Rightarrow> permission list" where
  "parsePermissions json = dedup (filter isPermission json)"

definition mergePermissions :: "permission list \<Rightarrow> permission list \<Rightarrow> permission list" where
  "mergePermissions current incoming = sort (dedup (current @ incoming))"

datatype role_scope = System_Scope | Project_Scope
datatype user_status = User_Active | User_Disabled
datatype user_source = Local_Source | Ldap_Source

definition DEFAULT_PROJECT_ID :: ident where
  "DEFAULT_PROJECT_ID = ''00000000-0000-7000-8000-000000000001''"

record user =
  ur_id :: ident
  ur_username :: string
  ur_display_name :: string
  ur_email :: "string option"
  ur_groups :: "string list"
  ur_source :: user_source
  ur_status :: user_status
  ur_force_password_change :: bool
  ur_failed_login_attempts :: int
  ur_locked_until :: "time option"
  ur_last_login_at :: "time option"
  ur_created_at :: time
  ur_updated_at :: time
  ur_version :: int

record user_session =
  us_id :: ident
  us_user_id :: ident
  us_expires_at :: time
  us_last_seen_at :: time
  us_created_at :: time
  us_revoked_at :: "time option"

record project =
  pj_id :: ident
  pj_name :: string
  pj_slug :: string
  pj_is_default :: bool
  pj_archived :: bool
  pj_owner_user_id :: "ident option"
  pj_created_at :: time
  pj_updated_at :: time

record role =
  ro_id :: ident
  ro_key :: string
  ro_name :: string
  ro_description :: string
  ro_scope :: role_scope
  ro_built_in :: bool
  ro_active :: bool
  ro_permissions :: "permission list"
  ro_created_at :: time
  ro_updated_at :: time

text \<open>The object of project permissions is the list of its entries.\<close>

record authenticated_identity =
  ai_user :: user
  ai_session_id :: ident
  ai_system_permissions :: "permission list"
  ai_project_permissions :: "(ident \<times> permission list) list"

record built_in_role =
  bd_id :: ident
  bd_key :: string
  bd_name :: string
  bd_description :: string
  bd_scope :: role_scope
  bd_permissions :: "permission list"

definition projectAdministrationPermissions :: "permission list" where
  "projectAdministrationPermissions =
     [''case.read'', ''case.manage'', ''case_source.read'', ''case_source.manage'', ''case_suite.read'',
      ''case_suite.manage'', ''run.read'', ''run.create'', ''run.cancel'', ''run.retry'',
      ''analysis.manage'', ''analysis.assign'', ''log.read'', ''artifact.read'', ''runner.read'',
      ''runner.manage'', ''runner.terminal'', ''project.read'', ''project.manage'', ''audit.read'']"

definition builtInRoleDefinitions :: "(string \<Rightarrow> string \<times> string) \<Rightarrow> built_in_role list" where
  "builtInRoleDefinitions texts =
     map (\<lambda>(k, key, scope, permissions).
       \<lparr>bd_id = ''00000000-0000-7000-8100-00000000000'' @ k, bd_key = key, bd_name = fst (texts key),
        bd_description = snd (texts key), bd_scope = scope, bd_permissions = permissions\<rparr>)
     [(''1'', ''system-admin'', System_Scope, permissionCatalog),
      (''2'', ''project-admin'', Project_Scope, projectAdministrationPermissions),
      (''3'', ''test-manager'', Project_Scope,
        [''case.read'', ''case.manage'', ''case_source.read'', ''case_source.manage'', ''case_suite.read'',
         ''case_suite.manage'', ''run.read'', ''run.create'', ''run.cancel'', ''run.retry'',
         ''analysis.manage'', ''log.read'', ''artifact.read'', ''runner.read'']),
      (''4'', ''execution-operator'', Project_Scope,
        [''case.read'', ''case_source.read'', ''case_suite.read'', ''run.read'', ''run.create'',
         ''run.cancel'', ''run.retry'', ''analysis.manage'', ''log.read'', ''artifact.read'', ''runner.read'']),
      (''5'', ''viewer'', Project_Scope,
        [''case.read'', ''case_source.read'', ''case_suite.read'', ''run.read'', ''log.read'',
         ''artifact.read'', ''runner.read'']),
      (''6'', ''auditor'', System_Scope,
        [''audit.read'', ''audit.export'', ''run.read'', ''log.read'', ''artifact.read''])]"

section \<open>Authorisation\<close>

definition systemOnlyPermissions :: "permission list" where
  "systemOnlyPermissions =
     [''user.read'', ''user.manage'', ''role.read'', ''role.manage'', ''ldap.read'', ''ldap.manage'',
      ''settings.read'', ''settings.manage'', ''api_token.manage'']"

definition projectContextPermissions :: "permission list" where
  "projectContextPermissions =
     [''case.read'', ''case.manage'', ''case_source.read'', ''case_source.manage'', ''case_suite.read'',
      ''case_suite.manage'', ''run.read'', ''run.create'', ''run.cancel'', ''run.retry'',
      ''analysis.manage'', ''analysis.assign'', ''log.read'', ''artifact.read'', ''project.read'',
      ''project.manage'', ''audit.read'', ''audit.export'']"

definition hasPermission :: "authenticated_identity \<Rightarrow> permission \<Rightarrow> ident option \<Rightarrow> bool" where
  "hasPermission identity permission projectId =
     (if permission \<in> set (ai_system_permissions identity) then True
      else if permission \<in> set systemOnlyPermissions then False
      else case nonempty projectId of
        None \<Rightarrow> False
      | Some k \<Rightarrow> (case map_of (ai_project_permissions identity) k of
          None \<Rightarrow> False | Some ps \<Rightarrow> permission \<in> set ps))"

text \<open>\<open>undefined\<close>, all projects, is \<open>None\<close>.\<close>

definition projectIdsForPermission ::
  "authenticated_identity \<Rightarrow> permission \<Rightarrow> ident list option" where
  "projectIdsForPermission identity permission =
     (if permission \<in> set (ai_system_permissions identity) then None
      else if permission \<in> set systemOnlyPermissions then Some []
      else Some (sort (map fst (filter (\<lambda>(k, ps). permission \<in> set ps) (ai_project_permissions identity)))))"

definition projectIdsForContext :: "authenticated_identity \<Rightarrow> ident list option" where
  "projectIdsForContext identity =
     (if list_ex (\<lambda>p. p \<in> set (ai_system_permissions identity)) projectContextPermissions then None
      else Some (sort (map fst (filter (\<lambda>(k, ps). list_ex (\<lambda>p. p \<in> set projectContextPermissions) ps)
        (ai_project_permissions identity)))))"

definition hasPermissionInAnyScope :: "authenticated_identity \<Rightarrow> permission \<Rightarrow> bool" where
  "hasPermissionInAnyScope identity permission =
     (case projectIdsForPermission identity permission of None \<Rightarrow> True | Some ks \<Rightarrow> 0 < length ks)"

definition permissionsForProject :: "authenticated_identity \<Rightarrow> ident option \<Rightarrow> permission list" where
  "permissionsForProject identity projectId =
     filter (\<lambda>permission.
       if permission = ''runner.read'' then hasPermissionInAnyScope identity permission
       else if permission = ''runner.manage'' \<or> permission = ''runner.terminal''
         then hasPermission identity permission (Some DEFAULT_PROJECT_ID)
       else hasPermission identity permission projectId) permissionCatalog"

text \<open>The two ways of asking for a permission in a project agree.\<close>

lemma projectIdsForPermission_set:
  "projectIdsForPermission identity p = Some ks \<Longrightarrow>
     k \<in> set ks \<longleftrightarrow> p \<notin> set systemOnlyPermissions \<and>
       (\<exists>ps. (k, ps) \<in> set (ai_project_permissions identity) \<and> p \<in> set ps)"
  by (force simp: projectIdsForPermission_def split: if_splits)

lemma hasPermission_scope:
  assumes "distinct (map fst (ai_project_permissions identity))" "k \<noteq> ''''"
  shows "hasPermission identity p (Some k) \<longleftrightarrow>
    (case projectIdsForPermission identity p of None \<Rightarrow> True | Some ks \<Rightarrow> k \<in> set ks)"
proof (cases "projectIdsForPermission identity p")
  case None
  then show ?thesis by (auto simp: hasPermission_def projectIdsForPermission_def split: if_splits)
next
  case (Some ks)
  then have "p \<notin> set (ai_system_permissions identity)" by (auto simp: projectIdsForPermission_def)
  moreover have "(case map_of (ai_project_permissions identity) k of None \<Rightarrow> False | Some ps \<Rightarrow> p \<in> set ps) \<longleftrightarrow>
      (\<exists>ps. (k, ps) \<in> set (ai_project_permissions identity) \<and> p \<in> set ps)"
    using assms(1)
    by (auto split: option.splits dest: map_of_SomeD eq_key_imp_eq_value simp: map_of_eq_None_iff rev_image_eqI)
  ultimately show ?thesis
    using assms(2) Some by (simp add: hasPermission_def nonempty_def projectIdsForPermission_set)
qed

lemma hasPermissionInAnyScope_iff:
  assumes "distinct (map fst (ai_project_permissions identity))" "'''' \<notin> fst ` set (ai_project_permissions identity)"
  shows "hasPermissionInAnyScope identity p \<longleftrightarrow> (\<exists>k. hasPermission identity p (Some k))"
proof (cases "projectIdsForPermission identity p")
  case None
  then have "hasPermission identity p (Some ''x'')" using hasPermission_scope [OF assms(1), of "''x''" p] by simp
  then show ?thesis using None by (auto simp: hasPermissionInAnyScope_def)
next
  case (Some ks)
  have ne: "k \<noteq> ''''" if "k \<in> set ks" for k
    using projectIdsForPermission_set [OF Some, of k] that assms(2) by force
  have no: "\<not> hasPermission identity p (Some '''')"
    using Some by (auto simp: hasPermission_def projectIdsForPermission_def nonempty_def split: if_splits)
  have "hasPermission identity p (Some k) \<longleftrightarrow> k \<in> set ks" for k
    using hasPermission_scope [OF assms(1), of k p] Some ne [of k] no by (cases "k = ''''") auto
  then show ?thesis using Some by (cases ks) (auto simp: hasPermissionInAnyScope_def)
qed

section \<open>Recovery administrators\<close>

definition administratorRecoveryPermissions :: "permission list" where
  "administratorRecoveryPermissions = [''user.manage'', ''role.manage'']"

record system_role_binding_view =
  bv_user_id :: ident
  bv_role_id :: ident
  bv_permissions :: "permission list"

record exclusion =
  xl_user_id :: "ident option"
  xl_role_id :: "ident option"

definition excluded :: "exclusion \<Rightarrow> system_role_binding_view \<Rightarrow> bool" where
  "excluded x b \<longleftrightarrow>
     xl_role_id x = Some (bv_role_id b) \<and> (xl_user_id x = None \<or> xl_user_id x = Some (bv_user_id b)) \<or>
     xl_role_id x = None \<and> xl_user_id x = Some (bv_user_id b)"

text \<open>A set of permissions is a list, of which only the members are read.\<close>

definition add_binding ::
  "exclusion option \<Rightarrow> system_role_binding_view \<Rightarrow> (ident \<times> permission list) list \<Rightarrow>
   (ident \<times> permission list) list" where
  "add_binding x b m =
     (if (case x of None \<Rightarrow> False | Some y \<Rightarrow> excluded y b) then m
      else AList.update (bv_user_id b)
        ((case map_of m (bv_user_id b) of None \<Rightarrow> [] | Some ps \<Rightarrow> ps) @ bv_permissions b) m)"

definition recovers :: "permission list \<Rightarrow> bool" where
  "recovers ps \<longleftrightarrow> list_all (\<lambda>p. p \<in> set ps) administratorRecoveryPermissions"

definition countSystemAdministrators :: "system_role_binding_view list \<Rightarrow> exclusion option \<Rightarrow> nat" where
  "countSystemAdministrators bindings x =
     length (filter recovers (map snd (fold (add_binding x) bindings [])))"

definition assertAdministratorRecoveryPreserved :: "nat \<Rightarrow> nat \<Rightarrow> domain_error + unit" where
  "assertAdministratorRecoveryPreserved before after =
     (if 0 < before \<and> after = 0 then Inl (DomainError ''LAST_ADMIN_REQUIRED'') else Inr ())"

text \<open>The table of permissions by user holds for each user what the bindings give.\<close>

lemma add_bindings_table:
  "distinct (map fst m) \<Longrightarrow>
   distinct (map fst (fold (add_binding None) bs m)) \<and>
   (\<forall>u. (case map_of (fold (add_binding None) bs m) u of None \<Rightarrow> {} | Some ps \<Rightarrow> set ps) =
      (case map_of m u of None \<Rightarrow> {} | Some ps \<Rightarrow> set ps) \<union>
      (\<Union>b\<in>{b \<in> set bs. bv_user_id b = u}. set (bv_permissions b)))"
proof (induction bs arbitrary: m)
  case (Cons b bs)
  let ?m = "add_binding None b m"
  have "distinct (map fst ?m)" using Cons.prems by (simp add: add_binding_def distinct_update)
  moreover have "(case map_of ?m u of None \<Rightarrow> {} | Some ps \<Rightarrow> set ps) =
      (case map_of m u of None \<Rightarrow> {} | Some ps \<Rightarrow> set ps) \<union> (if bv_user_id b = u then set (bv_permissions b) else {})" for u
    by (auto simp: add_binding_def update_conv' split: option.splits)
  ultimately show ?case using Cons.IH [of ?m] by (auto split: if_splits)
qed simp

lemma add_bindings_excluded:
  "fold (add_binding (Some x)) bs m = fold (add_binding None) (filter (\<lambda>b. \<not> excluded x b) bs) m"
  by (induction bs arbitrary: m) (simp_all add: add_binding_def)

lemma countSystemAdministrators_excluded:
  "countSystemAdministrators bs (Some x) = countSystemAdministrators (filter (\<lambda>b. \<not> excluded x b) bs) None"
  by (simp add: countSystemAdministrators_def add_bindings_excluded)

text \<open>A user recovers when the bindings give both permissions, be it by one role or by two.\<close>

definition recovery_user :: "system_role_binding_view list \<Rightarrow> ident \<Rightarrow> bool" where
  "recovery_user bs u \<longleftrightarrow>
     (\<forall>p\<in>set administratorRecoveryPermissions. \<exists>b\<in>set bs. bv_user_id b = u \<and> p \<in> set (bv_permissions b))"

lemma countSystemAdministrators_pos:
  "0 < countSystemAdministrators bs None \<longleftrightarrow> (\<exists>u. recovery_user bs u)"
proof -
  let ?t = "fold (add_binding None) bs []"
  have t: "distinct (map fst ?t)"
      "(case map_of ?t u of None \<Rightarrow> {} | Some ps \<Rightarrow> set ps) =
        (\<Union>b\<in>{b \<in> set bs. bv_user_id b = u}. set (bv_permissions b))" for u
    using add_bindings_table [of "[]" bs] by auto
  have given: "p \<in> (case map_of ?t u of None \<Rightarrow> {} | Some ps \<Rightarrow> set ps) \<longleftrightarrow>
      (\<exists>b\<in>set bs. bv_user_id b = u \<and> p \<in> set (bv_permissions b))" for p u
    unfolding t(2) by auto
  have "(\<exists>u. recovery_user bs u) \<longleftrightarrow> (\<exists>(u, ps)\<in>set ?t. recovers ps)"
  proof
    assume "\<exists>u. recovery_user bs u"
    then obtain u where u: "recovery_user bs u" by blast
    then have "''user.manage'' \<in> (case map_of ?t u of None \<Rightarrow> {} | Some ps \<Rightarrow> set ps)"
      unfolding given by (simp add: recovery_user_def administratorRecoveryPermissions_def)
    then obtain ps where ps: "map_of ?t u = Some ps" by (cases "map_of ?t u") auto
    have "recovers ps"
      using u given [of _ u] ps by (auto simp: recovers_def list_all_iff recovery_user_def)
    then show "\<exists>(u, ps)\<in>set ?t. recovers ps" using map_of_SomeD [OF ps] by blast
  next
    assume "\<exists>(u, ps)\<in>set ?t. recovers ps"
    then obtain u ps where "(u, ps) \<in> set ?t" "recovers ps" by blast
    then have "map_of ?t u = Some ps" using t(1) by simp
    then have "recovery_user bs u"
      using \<open>recovers ps\<close> given [of _ u] by (auto simp: recovers_def list_all_iff recovery_user_def)
    then show "\<exists>u. recovery_user bs u" by blast
  qed
  moreover have "0 < countSystemAdministrators bs None \<longleftrightarrow> (\<exists>(u, ps)\<in>set ?t. recovers ps)"
    by (force simp: countSystemAdministrators_def filter_empty_conv)
  ultimately show ?thesis by simp
qed

end
