(* ===== verification/Identity_Store.thy ===== *)
theory Identity_Store
  imports Identity Schedule_Expression
begin

text \<open>
  The repository of users, roles, role bindings, sessions and projects of the embedded edition,
  \<open>packages/db/src/sqlite-identity-access.ts\<close>, on the tables of \<open>schema.ts\<close> with their unique keys and
  foreign keys. Operations that are two statements without a transaction (\<open>createRole\<close>, \<open>deleteRole\<close>,
  \<open>revokeUserSessionsForRole\<close>) have what other processes do in between as an argument. User names are
  ASCII, on which the normal form NFKC is the identity.
\<close>

section \<open>Tables\<close>

record user_row =
  uw_id :: ident
  uw_username :: string
  uw_normalized_username :: string
  uw_display_name :: string
  uw_email :: "string option"
  uw_ldap_groups :: "string list"
  uw_source :: user_source
  uw_status :: user_status
  uw_password_hash :: "string option"
  uw_password_updated_at :: "time option"
  uw_force_password_change :: bool
  uw_failed_login_attempts :: int
  uw_locked_until :: "time option"
  uw_last_login_at :: "time option"
  uw_created_at :: time
  uw_updated_at :: time
  uw_version :: int

record external_identity =
  xi_id :: ident
  xi_user_id :: ident
  xi_provider_id :: string
  xi_subject :: string
  xi_directory_username :: string
  xi_attributes :: "(string \<times> string) list"
  xi_synchronized_at :: time

record session_row =
  sw_id :: ident
  sw_user_id :: ident
  sw_token_hash :: string
  sw_expires_at :: time
  sw_last_seen_at :: time
  sw_created_at :: time
  sw_revoked_at :: "time option"

record role_row =
  rw_id :: ident
  rw_key :: string
  rw_name :: string
  rw_description :: string
  rw_scope :: role_scope
  rw_built_in :: bool
  rw_active :: bool
  rw_permissions :: "string list"
  rw_created_at :: time
  rw_updated_at :: time

datatype binding_source = Manual_Binding | Ldap_Binding

record system_binding =
  sb_user_id :: ident
  sb_role_id :: ident
  sb_source :: binding_source
  sb_assigned_at :: time
  sb_assigned_by :: "ident option"

record project_binding =
  pb_user_id :: ident
  pb_project_id :: ident
  pb_role_id :: ident
  pb_source :: binding_source
  pb_assigned_at :: time
  pb_assigned_by :: "ident option"

datatype audit_result = Audit_Succeeded | Audit_Rejected | Audit_Failed
datatype audit_actor = Actor_User | Actor_Runner | Actor_System

record audit_event =
  av_id :: ident
  av_actor_type :: audit_actor
  av_actor_id :: "ident option"
  av_action :: string
  av_resource_type :: string
  av_resource_id :: "ident option"
  av_project_id :: "ident option"
  av_result :: audit_result
  av_request_id :: "string option"
  av_details :: "(string \<times> string) list"
  av_recorded_at :: time

datatype ldap_role = Ldap_Admin | Ldap_Editor | Ldap_Viewer

record ldap_settings =
  lc_enabled :: bool
  lc_url :: string
  lc_tls_reject_unauthorized :: bool
  lc_connect_timeout_ms :: int
  lc_bind_dn :: string
  lc_bind_password_encrypted :: "string option"
  lc_user_base_dn :: string
  lc_user_filter :: string
  lc_display_name_attribute :: string
  lc_mail_attribute :: string
  lc_group_attribute :: string
  lc_group_search_base :: string
  lc_group_search_filter :: string
  lc_group_name_attribute :: string
  lc_default_role :: ldap_role
  lc_updated_at :: time
  lc_updated_by :: string

record stored_ldap_configuration = ldap_settings +
  lc_created_at :: time
  lc_version :: int

datatype transport_mode = Ldaps_Transport | Starttls_Transport | Plain_Transport

text \<open>The columns that are the same in every row are left out.\<close>

record ldap_row =
  lr_enabled :: bool
  lr_urls :: "string list"
  lr_transport_mode :: transport_mode
  lr_verify_tls_certificate :: bool
  lr_connect_timeout_ms :: int
  lr_bind_dn :: string
  lr_bind_password_encrypted :: "string option"
  lr_user_base_dn :: string
  lr_user_filter :: string
  lr_display_name_attribute :: string
  lr_email_attribute :: string
  lr_group_base_dn :: "string option"
  lr_group_filter :: "string option"
  lr_group_member_attribute :: string
  lr_group_attribute :: string
  lr_group_name_attribute :: string
  lr_default_role :: ldap_role
  lr_created_at :: time
  lr_updated_at :: time
  lr_updated_by :: string
  lr_version :: int

record id_store =
  is_users :: "user_row list"
  is_externals :: "external_identity list"
  is_sessions :: "session_row list"
  is_roles :: "role_row list"
  is_system_roles :: "system_binding list"
  is_project_roles :: "project_binding list"
  is_projects :: "project list"
  is_bootstrap_uses :: "(string \<times> time) list"
  is_ldap :: "ldap_row option"
  is_audits :: "audit_event list"

definition mapUser :: "user_row \<Rightarrow> user" where
  "mapUser r =
     \<lparr>ur_id = uw_id r, ur_username = uw_username r, ur_display_name = uw_display_name r,
      ur_email = nonempty (uw_email r), ur_groups = dedup (filter (\<lambda>g. g \<noteq> '''') (uw_ldap_groups r)),
      ur_source = uw_source r, ur_status = uw_status r,
      ur_force_password_change = uw_force_password_change r,
      ur_failed_login_attempts = uw_failed_login_attempts r, ur_locked_until = uw_locked_until r,
      ur_last_login_at = uw_last_login_at r, ur_created_at = uw_created_at r,
      ur_updated_at = uw_updated_at r, ur_version = uw_version r\<rparr>"

definition mapRole :: "role_row \<Rightarrow> role" where
  "mapRole r =
     \<lparr>ro_id = rw_id r, ro_key = rw_key r, ro_name = rw_name r, ro_description = rw_description r,
      ro_scope = rw_scope r, ro_built_in = rw_built_in r, ro_active = rw_active r,
      ro_permissions = parsePermissions (rw_permissions r), ro_created_at = rw_created_at r,
      ro_updated_at = rw_updated_at r\<rparr>"

definition mapUserSession :: "session_row \<Rightarrow> user_session" where
  "mapUserSession r =
     \<lparr>us_id = sw_id r, us_user_id = sw_user_id r, us_expires_at = sw_expires_at r,
      us_last_seen_at = sw_last_seen_at r, us_created_at = sw_created_at r,
      us_revoked_at = sw_revoked_at r\<rparr>"

definition normalizeUsername :: "string \<Rightarrow> string" where
  "normalizeUsername username = to_lower (js_trim username)"

text \<open>A foreign key that does not resolve.\<close>

definition references :: "bool \<Rightarrow> domain_error + unit" where
  "references ok = (if ok then Inr () else Inl (ConstraintError ''FOREIGN KEY''))"

definition user_exists :: "id_store \<Rightarrow> ident \<Rightarrow> bool" where
  "user_exists s k \<longleftrightarrow> k \<in> uw_id ` set (is_users s)"

definition role_exists :: "id_store \<Rightarrow> ident \<Rightarrow> bool" where
  "role_exists s k \<longleftrightarrow> k \<in> rw_id ` set (is_roles s)"

definition project_exists :: "id_store \<Rightarrow> ident \<Rightarrow> bool" where
  "project_exists s k \<longleftrightarrow> k \<in> pj_id ` set (is_projects s)"

definition optional_user :: "id_store \<Rightarrow> ident option \<Rightarrow> bool" where
  "optional_user s k = (case k of None \<Rightarrow> True | Some u \<Rightarrow> user_exists s u)"

section \<open>Built-in roles and the first administrator\<close>

definition built_in_row :: "built_in_role \<Rightarrow> time \<Rightarrow> role_row" where
  "built_in_row d recordedAt =
     \<lparr>rw_id = bd_id d, rw_key = bd_key d, rw_name = bd_name d, rw_description = bd_description d,
      rw_scope = bd_scope d, rw_built_in = True, rw_active = True, rw_permissions = bd_permissions d,
      rw_created_at = recordedAt, rw_updated_at = recordedAt\<rparr>"

definition refresh_role :: "built_in_role \<Rightarrow> time \<Rightarrow> role_row \<Rightarrow> role_row" where
  "refresh_role d recordedAt r =
     r\<lparr>rw_name := bd_name d, rw_description := bd_description d, rw_scope := bd_scope d,
       rw_built_in := True, rw_active := True, rw_permissions := bd_permissions d,
       rw_updated_at := recordedAt\<rparr>"

fun ensure_roles :: "built_in_role list \<Rightarrow> time \<Rightarrow> role_row list \<Rightarrow> domain_error + role_row list" where
  "ensure_roles [] recordedAt rows = Inr rows"
| "ensure_roles (d # ds) recordedAt rows =
     (if bd_id d \<in> rw_id ` set rows
      then ensure_roles ds recordedAt (update_where (\<lambda>r. rw_id r = bd_id d) (refresh_role d recordedAt) rows)
      else and_then (insert_row rw_key (built_in_row d recordedAt) rows) (ensure_roles ds recordedAt))"

definition ensureBuiltInRoles :: "built_in_role list \<Rightarrow> time \<Rightarrow> id_store \<Rightarrow> (domain_error + unit) \<times> id_store" where
  "ensureBuiltInRoles definitions recordedAt = transaction (\<lambda>s.
     and_then (ensure_roles definitions recordedAt (is_roles s)) (\<lambda>rows. Inr ((), s\<lparr>is_roles := rows\<rparr>)))"

definition hasUsers :: "id_store \<Rightarrow> bool" where
  "hasUsers s \<longleftrightarrow> 0 < length (is_users s)"

definition insert_user :: "user_row \<Rightarrow> id_store \<Rightarrow> domain_error + id_store" where
  "insert_user u s =
     (if uw_normalized_username u \<in> uw_normalized_username ` set (is_users s)
        then Inl (ConstraintError ''UNIQUE'')
      else and_then (insert_row uw_id u (is_users s)) (\<lambda>rows. Inr (s\<lparr>is_users := rows\<rparr>)))"

record create_local_user =
  cr_id :: ident
  cr_username :: string
  cr_normalized_username :: string
  cr_display_name :: string
  cr_email :: "string option"
  cr_password_hash :: string
  cr_force_password_change :: bool
  cr_created_at :: time

definition local_user_row :: "create_local_user \<Rightarrow> user_row" where
  "local_user_row i =
     \<lparr>uw_id = cr_id i, uw_username = cr_username i, uw_normalized_username = cr_normalized_username i,
      uw_display_name = cr_display_name i, uw_email = cr_email i, uw_ldap_groups = [],
      uw_source = Local_Source, uw_status = User_Active, uw_password_hash = Some (cr_password_hash i),
      uw_password_updated_at = Some (cr_created_at i),
      uw_force_password_change = cr_force_password_change i, uw_failed_login_attempts = 0,
      uw_locked_until = None, uw_last_login_at = None, uw_created_at = cr_created_at i,
      uw_updated_at = cr_created_at i, uw_version = 1\<rparr>"

text \<open>A conflict on the normalized name inserts nothing, one on the key throws.\<close>

definition insertLocalUser :: "create_local_user \<Rightarrow> id_store \<Rightarrow> domain_error + id_store" where
  "insertLocalUser i s =
     (if cr_normalized_username i \<in> uw_normalized_username ` set (is_users s)
      then Inl (DomainError ''USER_CONFLICT'') else insert_user (local_user_row i) s)"

definition insert_system_binding :: "system_binding \<Rightarrow> id_store \<Rightarrow> domain_error + id_store" where
  "insert_system_binding b s =
     and_then (insert_row (\<lambda>b. (sb_user_id b, sb_role_id b)) b (is_system_roles s)) (\<lambda>rows.
     and_then (references (user_exists s (sb_user_id b) \<and> role_exists s (sb_role_id b) \<and>
         optional_user s (sb_assigned_by b))) (\<lambda>_. Inr (s\<lparr>is_system_roles := rows\<rparr>)))"

definition insert_project_binding :: "project_binding \<Rightarrow> id_store \<Rightarrow> domain_error + id_store" where
  "insert_project_binding b s =
     and_then (insert_row (\<lambda>b. (pb_user_id b, pb_project_id b, pb_role_id b)) b (is_project_roles s)) (\<lambda>rows.
     and_then (references (user_exists s (pb_user_id b) \<and> project_exists s (pb_project_id b) \<and>
         role_exists s (pb_role_id b) \<and> optional_user s (pb_assigned_by b)))
       (\<lambda>_. Inr (s\<lparr>is_project_roles := rows\<rparr>)))"

record bootstrap_input =
  bi_token_hash :: string
  bi_user :: create_local_user
  bi_system_role_id :: ident
  bi_project_id :: ident
  bi_project_role_id :: ident
  bi_recorded_at :: time

definition bootstrap_body :: "bootstrap_input \<Rightarrow> id_store \<Rightarrow> domain_error + (user option \<times> id_store)" where
  "bootstrap_body i s =
     (if hasUsers s then Inr (None, s)
      else if bi_token_hash i \<in> fst ` set (is_bootstrap_uses s) then Inr (None, s)
      else
        (let s1 = s\<lparr>is_bootstrap_uses := is_bootstrap_uses s @ [(bi_token_hash i, bi_recorded_at i)]\<rparr>;
             k = cr_id (bi_user i)
         in and_then (insertLocalUser (bi_user i) s1) (\<lambda>s2.
            and_then (insert_system_binding \<lparr>sb_user_id = k, sb_role_id = bi_system_role_id i,
              sb_source = Manual_Binding, sb_assigned_at = bi_recorded_at i, sb_assigned_by = Some k\<rparr> s2) (\<lambda>s3.
            and_then (insert_project_binding \<lparr>pb_user_id = k, pb_project_id = bi_project_id i,
              pb_role_id = bi_project_role_id i, pb_source = Manual_Binding,
              pb_assigned_at = bi_recorded_at i, pb_assigned_by = Some k\<rparr> s3) (\<lambda>s4.
            Inr (Some (mapUser (local_user_row (bi_user i))), s4))))))"

definition bootstrapAdministrator :: "bootstrap_input \<Rightarrow> id_store \<Rightarrow> (domain_error + user option) \<times> id_store" where
  "bootstrapAdministrator i = transaction (bootstrap_body i)"

section \<open>Users of the directory\<close>

record directory_identity =
  di_subject :: string
  di_username :: string
  di_display_name :: string
  di_email :: "string option"
  di_group_dns :: "string list"
  di_attributes :: "(string \<times> string) list"

record ldap_user_input =
  li_user_id :: ident
  li_external_identity_id :: ident
  li_provider_id :: string
  li_identity :: directory_identity
  li_synchronized_at :: time

text \<open>What a login writes into the row of a directory user: the account is active again.\<close>

definition ldap_update :: "ldap_user_input \<Rightarrow> user_row \<Rightarrow> user_row" where
  "ldap_update i u =
     u\<lparr>uw_username := di_username (li_identity i),
       uw_normalized_username := normalizeUsername (di_username (li_identity i)),
       uw_display_name := di_display_name (li_identity i), uw_email := di_email (li_identity i),
       uw_ldap_groups := di_group_dns (li_identity i), uw_status := User_Active,
       uw_updated_at := li_synchronized_at i, uw_version := uw_version u + 1\<rparr>"

definition ldap_user_row :: "ldap_user_input \<Rightarrow> user_row" where
  "ldap_user_row i =
     \<lparr>uw_id = li_user_id i, uw_username = di_username (li_identity i),
      uw_normalized_username = normalizeUsername (di_username (li_identity i)),
      uw_display_name = di_display_name (li_identity i), uw_email = di_email (li_identity i),
      uw_ldap_groups = di_group_dns (li_identity i), uw_source = Ldap_Source,
      uw_status = User_Active, uw_password_hash = None, uw_password_updated_at = None,
      uw_force_password_change = False, uw_failed_login_attempts = 0, uw_locked_until = None,
      uw_last_login_at = None, uw_created_at = li_synchronized_at i,
      uw_updated_at = li_synchronized_at i, uw_version = 1\<rparr>"

definition external_row :: "ldap_user_input \<Rightarrow> ident \<Rightarrow> external_identity" where
  "external_row i userId =
     \<lparr>xi_id = li_external_identity_id i, xi_user_id = userId, xi_provider_id = li_provider_id i,
      xi_subject = di_subject (li_identity i), xi_directory_username = di_username (li_identity i),
      xi_attributes = di_attributes (li_identity i), xi_synchronized_at = li_synchronized_at i\<rparr>"

definition external_update :: "ldap_user_input \<Rightarrow> external_identity \<Rightarrow> external_identity" where
  "external_update i x =
     x\<lparr>xi_directory_username := di_username (li_identity i), xi_attributes := di_attributes (li_identity i),
       xi_synchronized_at := li_synchronized_at i\<rparr>"

definition insert_external :: "external_identity \<Rightarrow> id_store \<Rightarrow> domain_error + id_store" where
  "insert_external x s =
     (if (xi_provider_id x, xi_subject x) \<in> (\<lambda>x. (xi_provider_id x, xi_subject x)) ` set (is_externals s)
        then Inl (ConstraintError ''UNIQUE'')
      else and_then (insert_row xi_id x (is_externals s)) (\<lambda>rows.
        and_then (references (user_exists s (xi_user_id x))) (\<lambda>_. Inr (s\<lparr>is_externals := rows\<rparr>))))"

definition update_user :: "ident \<Rightarrow> (user_row \<Rightarrow> user_row) \<Rightarrow> id_store \<Rightarrow> id_store" where
  "update_user k f s = s\<lparr>is_users := update_where (\<lambda>u. uw_id u = k) f (is_users s)\<rparr>"

definition update_external ::
  "ident \<Rightarrow> (external_identity \<Rightarrow> external_identity) \<Rightarrow> id_store \<Rightarrow> id_store" where
  "update_external k f s = s\<lparr>is_externals := update_where (\<lambda>x. xi_id x = k) f (is_externals s)\<rparr>"

definition find_external :: "string \<Rightarrow> string \<Rightarrow> id_store \<Rightarrow> external_identity option" where
  "find_external providerId subject s =
     find (\<lambda>x. xi_provider_id x = providerId \<and> xi_subject x = subject) (is_externals s)"

definition find_by_username :: "string \<Rightarrow> id_store \<Rightarrow> user_row option" where
  "find_by_username normalized s = row_by uw_normalized_username normalized (is_users s)"

definition link_match :: "ldap_user_input \<Rightarrow> user_row \<Rightarrow> id_store \<Rightarrow> domain_error + id_store" where
  "link_match i u s =
     (case find (\<lambda>x. xi_provider_id x = li_provider_id i \<and> xi_user_id x = uw_id u) (is_externals s) of
        Some x \<Rightarrow> Inr (update_external (xi_id x)
          (\<lambda>x. external_update i (x\<lparr>xi_subject := di_subject (li_identity i)\<rparr>)) s)
      | None \<Rightarrow> insert_external (external_row i (uw_id u)) s)"

definition upsertLdapUserInTransaction ::
  "ldap_user_input \<Rightarrow> id_store \<Rightarrow> domain_error + ((user_row \<times> bool) \<times> id_store)" where
  "upsertLdapUserInTransaction i s =
     (let usernameMatch = find_by_username (normalizeUsername (di_username (li_identity i))) s;
          external = find_external (li_provider_id i) (di_subject (li_identity i)) s
      in case usernameMatch of
           Some u \<Rightarrow>
             if uw_source u \<noteq> Ldap_Source then Inl (DomainError ''IDENTITY_CONFLICT'')
             else
               (let s1 = update_user (uw_id u) (ldap_update i) s
                in case external of
                     Some x \<Rightarrow> Inr ((ldap_update i u, False),
                       update_external (xi_id x) (\<lambda>x. external_update i (x\<lparr>xi_user_id := uw_id u\<rparr>)) s1)
                   | None \<Rightarrow> and_then (link_match i u s1) (\<lambda>s2. Inr ((ldap_update i u, False), s2)))
         | None \<Rightarrow>
             (case external of
                Some x \<Rightarrow>
                  (case find (\<lambda>u. uw_id u = xi_user_id x \<and> uw_source u = Ldap_Source) (is_users s) of
                     None \<Rightarrow> Inl (DomainError ''IDENTITY_CONFLICT'')
                   | Some u \<Rightarrow> Inr ((ldap_update i u, False),
                       update_external (xi_id x) (external_update i) (update_user (uw_id u) (ldap_update i) s)))
              | None \<Rightarrow>
                  and_then (insert_user (ldap_user_row i) s) (\<lambda>s1.
                  and_then (insert_external (external_row i (li_user_id i)) s1) (\<lambda>s2.
                  Inr ((ldap_user_row i, True), s2)))))"

definition upsertLdapUser :: "ldap_user_input \<Rightarrow> id_store \<Rightarrow> (domain_error + user) \<times> id_store" where
  "upsertLdapUser i = transaction (\<lambda>s.
     and_then (upsertLdapUserInTransaction i s) (\<lambda>((u, created), s1). Inr (mapUser u, s1)))"

section \<open>Sessions\<close>

record session_input =
  si_id :: ident
  si_token_hash :: string
  si_created_at :: time
  si_expires_at :: time

definition login_update :: "session_input \<Rightarrow> user_row \<Rightarrow> user_row" where
  "login_update i u =
     u\<lparr>uw_failed_login_attempts := 0, uw_locked_until := None, uw_last_login_at := Some (si_created_at i),
       uw_updated_at := si_created_at i, uw_version := uw_version u + 1\<rparr>"

definition insert_session :: "session_row \<Rightarrow> id_store \<Rightarrow> domain_error + id_store" where
  "insert_session x s =
     (if sw_token_hash x \<in> sw_token_hash ` set (is_sessions s) then Inl (ConstraintError ''UNIQUE'')
      else and_then (insert_row sw_id x (is_sessions s)) (\<lambda>rows.
        and_then (references (user_exists s (sw_user_id x))) (\<lambda>_. Inr (s\<lparr>is_sessions := rows\<rparr>))))"

definition session_of :: "session_input \<Rightarrow> ident \<Rightarrow> session_row" where
  "session_of i userId =
     \<lparr>sw_id = si_id i, sw_user_id = userId, sw_token_hash = si_token_hash i, sw_expires_at = si_expires_at i,
      sw_last_seen_at = si_created_at i, sw_created_at = si_created_at i, sw_revoked_at = None\<rparr>"

definition createSessionAfterLoginInTransaction ::
  "session_input \<Rightarrow> ident \<Rightarrow> id_store \<Rightarrow> domain_error + (user \<times> id_store)" where
  "createSessionAfterLoginInTransaction i userId s =
     (case find (\<lambda>u. uw_id u = userId \<and> uw_status u = User_Active) (is_users s) of
        None \<Rightarrow> Inl (DomainError ''AUTHENTICATION_FAILED'')
      | Some u \<Rightarrow>
          and_then (insert_session (session_of i userId) (update_user (uw_id u) (login_update i) s)) (\<lambda>s1.
          Inr (mapUser (login_update i u), s1)))"

definition createSessionAfterLogin ::
  "session_input \<Rightarrow> ident \<Rightarrow> id_store \<Rightarrow> (domain_error + user) \<times> id_store" where
  "createSessionAfterLogin i userId = transaction (createSessionAfterLoginInTransaction i userId)"

definition insertAudit :: "audit_event \<Rightarrow> id_store \<Rightarrow> domain_error + id_store" where
  "insertAudit e s =
     and_then (insert_row av_id e (is_audits s)) (\<lambda>rows.
     and_then (references (case av_project_id e of None \<Rightarrow> True | Some k \<Rightarrow> project_exists s k)) (\<lambda>_.
     Inr (s\<lparr>is_audits := rows\<rparr>)))"

definition appendAudit :: "audit_event \<Rightarrow> id_store \<Rightarrow> (domain_error + unit) \<times> id_store" where
  "appendAudit e = transaction (\<lambda>s. and_then (insertAudit e s) (\<lambda>s1. Inr ((), s1)))"

record default_role =
  dr_role_id :: ident
  dr_project_id :: "ident option"
  dr_recorded_at :: time

text \<open>A binding that exists already stays as it is.\<close>

definition insertLdapDefaultRole :: "default_role \<Rightarrow> ident \<Rightarrow> id_store \<Rightarrow> domain_error + id_store" where
  "insertLdapDefaultRole d userId s =
     (case nonempty (dr_project_id d) of
        Some projectId \<Rightarrow>
          if (userId, projectId, dr_role_id d) \<in>
              (\<lambda>b. (pb_user_id b, pb_project_id b, pb_role_id b)) ` set (is_project_roles s) then Inr s
          else insert_project_binding \<lparr>pb_user_id = userId, pb_project_id = projectId,
            pb_role_id = dr_role_id d, pb_source = Ldap_Binding, pb_assigned_at = dr_recorded_at d,
            pb_assigned_by = None\<rparr> s
      | None \<Rightarrow>
          if (userId, dr_role_id d) \<in> (\<lambda>b. (sb_user_id b, sb_role_id b)) ` set (is_system_roles s) then Inr s
          else insert_system_binding \<lparr>sb_user_id = userId, sb_role_id = dr_role_id d,
            sb_source = Ldap_Binding, sb_assigned_at = dr_recorded_at d, sb_assigned_by = None\<rparr> s)"

record ldap_login_input =
  ll_user :: ldap_user_input
  ll_default_role :: default_role
  ll_session :: session_input
  ll_audit :: audit_event

definition ldap_login_body :: "ldap_login_input \<Rightarrow> id_store \<Rightarrow> domain_error + (user \<times> id_store)" where
  "ldap_login_body i s =
     and_then (upsertLdapUserInTransaction (ll_user i) s) (\<lambda>((u, created), s1).
     and_then (if created then insertLdapDefaultRole (ll_default_role i) (uw_id u) s1 else Inr s1) (\<lambda>s2.
     and_then (createSessionAfterLoginInTransaction (ll_session i) (uw_id u) s2) (\<lambda>(v, s3).
     and_then (insertAudit ((ll_audit i)\<lparr>av_actor_id := Some (uw_id u)\<rparr>) s3) (\<lambda>s4. Inr (v, s4)))))"

definition completeLdapLogin :: "ldap_login_input \<Rightarrow> id_store \<Rightarrow> (domain_error + user) \<times> id_store" where
  "completeLdapLogin i = transaction (ldap_login_body i)"

record registration_input =
  gi_user :: create_local_user
  gi_project_id :: ident
  gi_role_id :: ident
  gi_recorded_at :: time
  gi_session :: session_input
  gi_audit :: audit_event

definition registration_body :: "registration_input \<Rightarrow> id_store \<Rightarrow> domain_error + (user \<times> id_store)" where
  "registration_body i s =
     (if \<not> hasUsers s then Inl (DomainError ''AUTH_REGISTRATION_UNAVAILABLE'')
      else if (case is_ldap s of None \<Rightarrow> False | Some c \<Rightarrow> lr_enabled c)
        then Inl (DomainError ''AUTH_REGISTRATION_UNAVAILABLE'')
      else
        and_then (insertLocalUser ((gi_user i)\<lparr>cr_force_password_change := False\<rparr>) s) (\<lambda>s1.
        and_then (insert_project_binding \<lparr>pb_user_id = cr_id (gi_user i), pb_project_id = gi_project_id i,
          pb_role_id = gi_role_id i, pb_source = Manual_Binding, pb_assigned_at = gi_recorded_at i,
          pb_assigned_by = None\<rparr> s1) (\<lambda>s2.
        and_then (createSessionAfterLoginInTransaction (gi_session i) (cr_id (gi_user i)) s2) (\<lambda>(v, s3).
        and_then (insertAudit (gi_audit i) s3) (\<lambda>s4. Inr (v, s4))))))"

definition completeLocalRegistration ::
  "registration_input \<Rightarrow> id_store \<Rightarrow> (domain_error + user) \<times> id_store" where
  "completeLocalRegistration i = transaction (registration_body i)"

definition recordLoginFailure ::
  "ident \<Rightarrow> int \<Rightarrow> time option \<Rightarrow> time \<Rightarrow> id_store \<Rightarrow> id_store" where
  "recordLoginFailure userId failedAttempts lockedUntil recordedAt =
     update_user userId (\<lambda>u. u\<lparr>uw_failed_login_attempts := failedAttempts, uw_locked_until := lockedUntil,
       uw_updated_at := recordedAt, uw_version := uw_version u + 1\<rparr>)"

definition session_open :: "time \<Rightarrow> session_row \<Rightarrow> bool" where
  "session_open now x \<longleftrightarrow> sw_revoked_at x = None \<and> now < sw_expires_at x"

definition effective_role :: "role_scope \<Rightarrow> ident \<Rightarrow> id_store \<Rightarrow> role_row option" where
  "effective_role scope k s =
     (case row_by rw_id k (is_roles s) of
        None \<Rightarrow> None | Some r \<Rightarrow> if rw_active r \<and> rw_scope r = scope then Some r else None)"

definition system_permissions :: "ident \<Rightarrow> id_store \<Rightarrow> permission list" where
  "system_permissions userId s =
     mergePermissions [] (concat (List.map_filter
       (\<lambda>b. map_option (\<lambda>r. parsePermissions (rw_permissions r)) (effective_role System_Scope (sb_role_id b) s))
       (filter (\<lambda>b. sb_user_id b = userId) (is_system_roles s))))"

definition project_rows :: "ident \<Rightarrow> id_store \<Rightarrow> (ident \<times> permission list) list" where
  "project_rows userId s =
     List.map_filter
       (\<lambda>b. map_option (\<lambda>r. (pb_project_id b, parsePermissions (rw_permissions r)))
          (effective_role Project_Scope (pb_role_id b) s))
       (filter (\<lambda>b. pb_user_id b = userId) (is_project_roles s))"

definition merge_row ::
  "ident \<times> permission list \<Rightarrow> (ident \<times> permission list) list \<Rightarrow> (ident \<times> permission list) list" where
  "merge_row r m =
     AList.update (fst r)
       (mergePermissions (case map_of m (fst r) of None \<Rightarrow> [] | Some ps \<Rightarrow> ps) (snd r)) m"

definition resolveSession :: "string \<Rightarrow> time \<Rightarrow> id_store \<Rightarrow> authenticated_identity option" where
  "resolveSession tokenHash now s =
     (case find (\<lambda>x. sw_token_hash x = tokenHash \<and> session_open now x) (is_sessions s) of
        None \<Rightarrow> None
      | Some x \<Rightarrow>
          (case row_by uw_id (sw_user_id x) (is_users s) of
             None \<Rightarrow> None
           | Some u \<Rightarrow>
               if uw_status u \<noteq> User_Active then None
               else Some
                 \<lparr>ai_user = mapUser u, ai_session_id = sw_id x,
                  ai_system_permissions = system_permissions (uw_id u) s,
                  ai_project_permissions = fold merge_row (project_rows (uw_id u) s) []\<rparr>))"

definition update_sessions ::
  "(session_row \<Rightarrow> bool) \<Rightarrow> (session_row \<Rightarrow> session_row) \<Rightarrow> id_store \<Rightarrow> id_store" where
  "update_sessions P f s = s\<lparr>is_sessions := update_where P f (is_sessions s)\<rparr>"

definition renewSession :: "ident \<Rightarrow> time \<Rightarrow> time \<Rightarrow> id_store \<Rightarrow> bool \<times> id_store" where
  "renewSession sessionId refreshedAt expiresAt s =
     (let P = (\<lambda>x. sw_id x = sessionId \<and> session_open refreshedAt x)
      in (count_where P (is_sessions s) = 1,
          update_sessions P (\<lambda>x. x\<lparr>sw_last_seen_at := refreshedAt, sw_expires_at := expiresAt\<rparr>) s))"

definition revoke_sessions :: "(session_row \<Rightarrow> bool) \<Rightarrow> time \<Rightarrow> id_store \<Rightarrow> id_store" where
  "revoke_sessions P revokedAt =
     update_sessions (\<lambda>x. P x \<and> sw_revoked_at x = None) (\<lambda>x. x\<lparr>sw_revoked_at := Some revokedAt\<rparr>)"

definition revokeSession :: "ident \<Rightarrow> time \<Rightarrow> id_store \<Rightarrow> id_store" where
  "revokeSession sessionId = revoke_sessions (\<lambda>x. sw_id x = sessionId)"

definition revokeUserSessions :: "ident \<Rightarrow> time \<Rightarrow> id_store \<Rightarrow> id_store" where
  "revokeUserSessions userId = revoke_sessions (\<lambda>x. sw_user_id x = userId)"

definition users_of_role :: "ident \<Rightarrow> id_store \<Rightarrow> ident list" where
  "users_of_role roleId s =
     dedup (map sb_user_id (filter (\<lambda>b. sb_role_id b = roleId) (is_system_roles s)) @
       map pb_user_id (filter (\<lambda>b. pb_role_id b = roleId) (is_project_roles s)))"

definition revokeUserSessionsForRole ::
  "(id_store \<Rightarrow> id_store) \<Rightarrow> ident \<Rightarrow> time \<Rightarrow> id_store \<Rightarrow> id_store" where
  "revokeUserSessionsForRole others roleId revokedAt s =
     (let userIds = users_of_role roleId s
      in if userIds = [] then s
         else revoke_sessions (\<lambda>x. sw_user_id x \<in> set userIds) revokedAt (others s))"

definition listUserSessions :: "ident \<Rightarrow> time \<Rightarrow> id_store \<Rightarrow> user_session list" where
  "listUserSessions userId now s =
     map mapUserSession (sort_key (\<lambda>x. - sw_last_seen_at x)
       (filter (\<lambda>x. sw_user_id x = userId \<and> session_open now x) (is_sessions s)))"

definition findSession :: "ident \<Rightarrow> id_store \<Rightarrow> user_session option" where
  "findSession sessionId s = map_option mapUserSession (row_by sw_id sessionId (is_sessions s))"

definition findUser :: "ident \<Rightarrow> id_store \<Rightarrow> user option" where
  "findUser userId s = map_option mapUser (row_by uw_id userId (is_users s))"

text \<open>An empty hash is no hash.\<close>

definition findUserByUsername :: "string \<Rightarrow> id_store \<Rightarrow> (user \<times> string option) option" where
  "findUserByUsername normalized s =
     map_option (\<lambda>u. (mapUser u, nonempty (uw_password_hash u))) (find_by_username normalized s)"

end
