(* ===== verification/Identity_Roles.thy ===== *)
theory Identity_Roles
  imports Identity_Store "HOL-Library.Product_Lexorder"
begin

text \<open>
  The administration of users, roles, bindings, projects and the directory settings in
  \<open>sqlite-identity-access.ts\<close>, and \<open>id_step\<close>, the machine of all operations of the repository.
\<close>

section \<open>Users\<close>

definition createLocalUser :: "create_local_user \<Rightarrow> id_store \<Rightarrow> (domain_error + user) \<times> id_store" where
  "createLocalUser i = transaction (\<lambda>s.
     and_then (insertLocalUser i s) (\<lambda>s1. Inr (mapUser (local_user_row i), s1)))"

definition activeSystemBindings :: "id_store \<Rightarrow> system_role_binding_view list" where
  "activeSystemBindings s =
     List.map_filter
       (\<lambda>b. case (effective_role System_Scope (sb_role_id b) s, row_by uw_id (sb_user_id b) (is_users s)) of
          (Some r, Some u) \<Rightarrow>
            if uw_status u = User_Active
            then Some \<lparr>bv_user_id = sb_user_id b, bv_role_id = sb_role_id b,
                       bv_permissions = parsePermissions (rw_permissions r)\<rparr>
            else None
        | _ \<Rightarrow> None) (is_system_roles s)"

definition countRecoveryAdministrators :: "id_store \<Rightarrow> nat" where
  "countRecoveryAdministrators s = countSystemAdministrators (activeSystemBindings s) None"

definition assertRecoveryPreserved :: "nat \<Rightarrow> id_store \<Rightarrow> domain_error + unit" where
  "assertRecoveryPreserved before s = assertAdministratorRecoveryPreserved before (countRecoveryAdministrators s)"

definition status_update :: "user_status \<Rightarrow> time \<Rightarrow> user_row \<Rightarrow> user_row" where
  "status_update status updatedAt u =
     (let v = u\<lparr>uw_status := status, uw_updated_at := updatedAt, uw_version := uw_version u + 1\<rparr>
      in if status = User_Active then v\<lparr>uw_failed_login_attempts := 0, uw_locked_until := None\<rparr> else v)"

definition status_body :: "ident \<Rightarrow> user_status \<Rightarrow> time \<Rightarrow> id_store \<Rightarrow> domain_error + (user \<times> id_store)" where
  "status_body userId status updatedAt s =
     (let before = countRecoveryAdministrators s
      in case row_by uw_id userId (is_users s) of
           None \<Rightarrow> Inl (DomainError ''USER_NOT_FOUND'')
         | Some u \<Rightarrow>
             (let s1 = update_user userId (status_update status updatedAt) s
              in and_then (assertRecoveryPreserved before s1) (\<lambda>_.
                 Inr (mapUser (status_update status updatedAt u), s1))))"

definition updateUserStatus ::
  "ident \<Rightarrow> user_status \<Rightarrow> time \<Rightarrow> id_store \<Rightarrow> (domain_error + user) \<times> id_store" where
  "updateUserStatus userId status updatedAt = transaction (status_body userId status updatedAt)"

definition password_update :: "string \<Rightarrow> bool \<Rightarrow> time \<Rightarrow> user_row \<Rightarrow> user_row" where
  "password_update passwordHash forcePasswordChange updatedAt u =
     u\<lparr>uw_password_hash := Some passwordHash, uw_password_updated_at := Some updatedAt,
       uw_force_password_change := forcePasswordChange, uw_failed_login_attempts := 0,
       uw_locked_until := None, uw_updated_at := updatedAt, uw_version := uw_version u + 1\<rparr>"

definition resetPassword ::
  "ident \<Rightarrow> string \<Rightarrow> bool \<Rightarrow> time \<Rightarrow> id_store \<Rightarrow> (domain_error + user) \<times> id_store" where
  "resetPassword userId passwordHash force updatedAt = transaction (\<lambda>s.
     case find (\<lambda>u. uw_id u = userId \<and> uw_source u = Local_Source) (is_users s) of
       None \<Rightarrow> Inl (DomainError ''USER_NOT_FOUND'')
     | Some u \<Rightarrow> Inr (mapUser (password_update passwordHash force updatedAt u),
         update_user userId (password_update passwordHash force updatedAt) s))"

section \<open>Roles\<close>

definition findRole :: "ident \<Rightarrow> id_store \<Rightarrow> role option" where
  "findRole roleId s = map_option mapRole (row_by rw_id roleId (is_roles s))"

definition listRoles :: "id_store \<Rightarrow> role list" where
  "listRoles s = map mapRole (sort_key rw_key (filter (\<lambda>r. rw_scope r = Project_Scope) (is_roles s)) @
     sort_key rw_key (filter (\<lambda>r. rw_scope r = System_Scope) (is_roles s)))"

record create_role_input =
  ci_id :: ident
  ci_key :: string
  ci_name :: string
  ci_description :: string
  ci_scope :: role_scope
  ci_permissions :: "permission list"
  ci_created_at :: time

definition custom_role_row :: "create_role_input \<Rightarrow> role_row" where
  "custom_role_row i =
     \<lparr>rw_id = ci_id i, rw_key = ci_key i, rw_name = ci_name i, rw_description = ci_description i,
      rw_scope = ci_scope i, rw_built_in = False, rw_active = True, rw_permissions = ci_permissions i,
      rw_created_at = ci_created_at i, rw_updated_at = ci_created_at i\<rparr>"

definition insert_role :: "create_role_input \<Rightarrow> id_store \<Rightarrow> domain_error + (role \<times> id_store)" where
  "insert_role i s =
     (if ci_key i \<in> rw_key ` set (is_roles s) then Inl (ConstraintError ''UNIQUE'')
      else and_then (insert_row rw_id (custom_role_row i) (is_roles s)) (\<lambda>rows.
        Inr (mapRole (custom_role_row i), s\<lparr>is_roles := rows\<rparr>)))"

definition createRole ::
  "(id_store \<Rightarrow> id_store) \<Rightarrow> create_role_input \<Rightarrow> id_store \<Rightarrow> (domain_error + role) \<times> id_store" where
  "createRole others i s =
     (if ci_key i \<in> rw_key ` set (is_roles s) then (Inl (DomainError ''ROLE_CONFLICT''), s)
      else transaction (insert_role i) (others s))"

record update_role_input =
  oi_id :: ident
  oi_name :: "string option"
  oi_description :: "string option"
  oi_scope :: "role_scope option"
  oi_permissions :: "permission list option"
  oi_active :: "bool option"
  oi_updated_at :: time

definition role_update :: "update_role_input \<Rightarrow> role_row \<Rightarrow> role_row" where
  "role_update i r =
     r\<lparr>rw_name := (case nonempty (oi_name i) of None \<Rightarrow> rw_name r | Some n \<Rightarrow> n),
       rw_description := (case oi_description i of None \<Rightarrow> rw_description r | Some d \<Rightarrow> d),
       rw_scope := (case oi_scope i of None \<Rightarrow> rw_scope r | Some c \<Rightarrow> c),
       rw_permissions := (case oi_permissions i of None \<Rightarrow> rw_permissions r | Some ps \<Rightarrow> ps),
       rw_active := (case oi_active i of None \<Rightarrow> rw_active r | Some a \<Rightarrow> a),
       rw_updated_at := oi_updated_at i\<rparr>"

definition update_role_body :: "update_role_input \<Rightarrow> id_store \<Rightarrow> domain_error + (role \<times> id_store)" where
  "update_role_body i s =
     (let before = countRecoveryAdministrators s
      in case row_by rw_id (oi_id i) (is_roles s) of
           None \<Rightarrow> Inl (DomainError ''ROLE_NOT_FOUND'')
         | Some r \<Rightarrow>
             if (case oi_scope i of None \<Rightarrow> False | Some c \<Rightarrow> rw_scope r \<noteq> c)
               then Inl (DomainError ''ROLE_SCOPE_INVALID'')
             else if rw_built_in r then Inl (DomainError ''ROLE_NOT_FOUND'')
             else
               (let s1 = s\<lparr>is_roles := update_where (\<lambda>r. rw_id r = oi_id i) (role_update i) (is_roles s)\<rparr>
                in and_then (assertRecoveryPreserved before s1) (\<lambda>_. Inr (mapRole (role_update i r), s1))))"

definition updateRole :: "update_role_input \<Rightarrow> id_store \<Rightarrow> (domain_error + role) \<times> id_store" where
  "updateRole i = transaction (update_role_body i)"

definition role_references :: "ident \<Rightarrow> id_store \<Rightarrow> nat" where
  "role_references roleId s =
     count_where (\<lambda>b. sb_role_id b = roleId) (is_system_roles s) +
     count_where (\<lambda>b. pb_role_id b = roleId) (is_project_roles s)"

text \<open>The foreign keys of the bindings restrict the deletion.\<close>

definition delete_role_row :: "ident \<Rightarrow> id_store \<Rightarrow> domain_error + (bool \<times> id_store)" where
  "delete_role_row roleId s =
     (let P = (\<lambda>r. rw_id r = roleId \<and> \<not> rw_built_in r)
      in if list_ex P (is_roles s) \<and> 0 < role_references roleId s
         then Inl (ConstraintError ''FOREIGN KEY'')
         else Inr (list_ex P (is_roles s), s\<lparr>is_roles := filter (\<lambda>r. \<not> P r) (is_roles s)\<rparr>))"

definition deleteRole ::
  "(id_store \<Rightarrow> id_store) \<Rightarrow> ident \<Rightarrow> id_store \<Rightarrow> (domain_error + bool) \<times> id_store" where
  "deleteRole others roleId s =
     (if 0 < role_references roleId s then (Inl (DomainError ''ROLE_IN_USE''), s)
      else transaction (delete_role_row roleId) (others s))"

section \<open>Bindings\<close>

definition reassign_system :: "ident \<Rightarrow> time \<Rightarrow> system_binding \<Rightarrow> system_binding" where
  "reassign_system actorId assignedAt b =
     b\<lparr>sb_source := Manual_Binding, sb_assigned_at := assignedAt, sb_assigned_by := Some actorId\<rparr>"

definition assignSystemRole ::
  "ident \<Rightarrow> ident \<Rightarrow> ident \<Rightarrow> time \<Rightarrow> id_store \<Rightarrow> (domain_error + unit) \<times> id_store" where
  "assignSystemRole userId roleId actorId assignedAt = transaction (\<lambda>s.
     if (userId, roleId) \<in> (\<lambda>b. (sb_user_id b, sb_role_id b)) ` set (is_system_roles s)
     then and_then (references (user_exists s actorId)) (\<lambda>_.
       Inr ((), s\<lparr>is_system_roles := update_where (\<lambda>b. sb_user_id b = userId \<and> sb_role_id b = roleId)
         (reassign_system actorId assignedAt) (is_system_roles s)\<rparr>))
     else and_then (insert_system_binding \<lparr>sb_user_id = userId, sb_role_id = roleId,
       sb_source = Manual_Binding, sb_assigned_at = assignedAt, sb_assigned_by = Some actorId\<rparr> s) (\<lambda>s1.
       Inr ((), s1)))"

record project_role_input =
  pi_user_id :: ident
  pi_project_id :: ident
  pi_role_id :: ident
  pi_actor_id :: ident
  pi_assigned_at :: time

definition reassign_project :: "project_role_input \<Rightarrow> project_binding \<Rightarrow> project_binding" where
  "reassign_project i b =
     b\<lparr>pb_source := Manual_Binding, pb_assigned_at := pi_assigned_at i, pb_assigned_by := Some (pi_actor_id i)\<rparr>"

definition assignProjectRole :: "project_role_input \<Rightarrow> id_store \<Rightarrow> (domain_error + unit) \<times> id_store" where
  "assignProjectRole i = transaction (\<lambda>s.
     if (pi_user_id i, pi_project_id i, pi_role_id i) \<in>
         (\<lambda>b. (pb_user_id b, pb_project_id b, pb_role_id b)) ` set (is_project_roles s)
     then and_then (references (user_exists s (pi_actor_id i))) (\<lambda>_.
       Inr ((), s\<lparr>is_project_roles := update_where
         (\<lambda>b. pb_user_id b = pi_user_id i \<and> pb_project_id b = pi_project_id i \<and> pb_role_id b = pi_role_id i)
         (reassign_project i) (is_project_roles s)\<rparr>))
     else and_then (insert_project_binding \<lparr>pb_user_id = pi_user_id i, pb_project_id = pi_project_id i,
       pb_role_id = pi_role_id i, pb_source = Manual_Binding, pb_assigned_at = pi_assigned_at i,
       pb_assigned_by = Some (pi_actor_id i)\<rparr> s) (\<lambda>s1. Inr ((), s1)))"

definition remove_system_body :: "ident \<Rightarrow> ident \<Rightarrow> id_store \<Rightarrow> domain_error + (bool \<times> id_store)" where
  "remove_system_body userId roleId s =
     (let before = countRecoveryAdministrators s;
          P = (\<lambda>b. sb_user_id b = userId \<and> sb_role_id b = roleId);
          s1 = s\<lparr>is_system_roles := filter (\<lambda>b. \<not> P b) (is_system_roles s)\<rparr>
      in and_then (assertRecoveryPreserved before s1) (\<lambda>_. Inr (list_ex P (is_system_roles s), s1)))"

definition removeSystemRole :: "ident \<Rightarrow> ident \<Rightarrow> id_store \<Rightarrow> (domain_error + bool) \<times> id_store" where
  "removeSystemRole userId roleId = transaction (remove_system_body userId roleId)"

definition removeProjectRole :: "ident \<Rightarrow> ident \<Rightarrow> ident \<Rightarrow> id_store \<Rightarrow> bool \<times> id_store" where
  "removeProjectRole userId projectId roleId s =
     (let P = (\<lambda>b. pb_user_id b = userId \<and> pb_project_id b = projectId \<and> pb_role_id b = roleId)
      in (list_ex P (is_project_roles s),
          s\<lparr>is_project_roles := filter (\<lambda>b. \<not> P b) (is_project_roles s)\<rparr>))"

definition listSystemRoleBindingsForActiveUsers :: "id_store \<Rightarrow> system_role_binding_view list" where
  "listSystemRoleBindingsForActiveUsers = activeSystemBindings"

definition listSystemRoleBindings :: "id_store \<Rightarrow> (ident \<times> ident) list" where
  "listSystemRoleBindings s = sort (map (\<lambda>b. (sb_user_id b, sb_role_id b)) (is_system_roles s))"

text \<open>The members of a project with the roles they have in it, without paging.\<close>

definition add_member ::
  "user_row \<times> ident \<Rightarrow> (ident \<times> user \<times> ident list) list \<Rightarrow> (ident \<times> user \<times> ident list) list" where
  "add_member m ms =
     (case m of (u, roleId) \<Rightarrow>
        AList.update (uw_id u)
          (case map_of ms (uw_id u) of
             None \<Rightarrow> (mapUser u, [roleId]) | Some (v, roleIds) \<Rightarrow> (v, roleIds @ [roleId])) ms)"

definition listProjectMemberships :: "ident \<Rightarrow> id_store \<Rightarrow> (user \<times> ident list) list" where
  "listProjectMemberships projectId s =
     map snd (fold add_member
       (sort_key (\<lambda>(u, roleId). uw_display_name u)
         (List.map_filter
           (\<lambda>b. map_option (\<lambda>u. (u, pb_role_id b)) (row_by uw_id (pb_user_id b) (is_users s)))
           (filter (\<lambda>b. pb_project_id b = projectId) (is_project_roles s)))) [])"

section \<open>Projects\<close>

definition listProjects :: "ident list option \<Rightarrow> id_store \<Rightarrow> project list" where
  "listProjects projectIds s =
     sort_key pj_name (filter (\<lambda>p. case projectIds of None \<Rightarrow> True | Some ks \<Rightarrow> pj_id p \<in> set ks) (is_projects s))"

record create_project_input =
  cp_id :: ident
  cp_name :: string
  cp_slug :: string
  cp_owner_user_id :: "ident option"
  cp_created_at :: time

definition project_row :: "create_project_input \<Rightarrow> project" where
  "project_row i =
     \<lparr>pj_id = cp_id i, pj_name = cp_name i, pj_slug = cp_slug i, pj_is_default = False, pj_archived = False,
      pj_owner_user_id = nonempty (cp_owner_user_id i), pj_created_at = cp_created_at i,
      pj_updated_at = cp_created_at i\<rparr>"

definition createProject :: "create_project_input \<Rightarrow> id_store \<Rightarrow> (domain_error + project) \<times> id_store" where
  "createProject i = transaction (\<lambda>s.
     if cp_slug i \<in> pj_slug ` set (is_projects s) then Inl (ConstraintError ''UNIQUE'')
     else and_then (insert_row pj_id (project_row i) (is_projects s)) (\<lambda>rows.
       Inr (project_row i, s\<lparr>is_projects := rows\<rparr>)))"

text \<open>An \<open>UPDATE\<close> of a project that returns its row, with the error of no row.\<close>

definition update_project ::
  "string \<Rightarrow> (project \<Rightarrow> bool) \<Rightarrow> (project \<Rightarrow> project) \<Rightarrow> id_store \<Rightarrow> domain_error + (project \<times> id_store)" where
  "update_project code P f s =
     and_then (found code (find P (is_projects s))) (\<lambda>p.
       Inr (f p, s\<lparr>is_projects := update_where P f (is_projects s)\<rparr>))"

definition renameProject :: "ident \<Rightarrow> string \<Rightarrow> time \<Rightarrow> id_store \<Rightarrow> (domain_error + project) \<times> id_store" where
  "renameProject projectId name updatedAt = transaction (update_project ''PROJECT_NOT_RENAMABLE''
     (\<lambda>p. pj_id p = projectId \<and> \<not> pj_archived p) (\<lambda>p. p\<lparr>pj_name := name, pj_updated_at := updatedAt\<rparr>))"

definition archiveProject :: "ident \<Rightarrow> time \<Rightarrow> id_store \<Rightarrow> (domain_error + project) \<times> id_store" where
  "archiveProject projectId archivedAt = transaction (update_project ''PROJECT_NOT_FOUND''
     (\<lambda>p. pj_id p = projectId) (\<lambda>p. p\<lparr>pj_archived := True, pj_updated_at := archivedAt\<rparr>))"

definition transferProjectOwner ::
  "ident \<Rightarrow> ident \<Rightarrow> time \<Rightarrow> id_store \<Rightarrow> (domain_error + project) \<times> id_store" where
  "transferProjectOwner projectId ownerUserId updatedAt = transaction (update_project ''PROJECT_NOT_FOUND''
     (\<lambda>p. pj_id p = projectId) (\<lambda>p. p\<lparr>pj_owner_user_id := Some ownerUserId, pj_updated_at := updatedAt\<rparr>))"

section \<open>Directory settings\<close>

definition ldapTransportMode :: "string \<Rightarrow> transport_mode" where
  "ldapTransportMode url =
     (if take 8 (to_lower url) = ''ldaps://'' then Ldaps_Transport else Plain_Transport)"

text \<open>\<open>x || null\<close> and \<open>x || d\<close> take the empty string for absent.\<close>

definition or_null :: "string \<Rightarrow> string option" where
  "or_null x = nonempty (Some x)"

definition ldapConfigurationValues :: "'z ldap_settings_scheme \<Rightarrow> time \<Rightarrow> ldap_row" where
  "ldapConfigurationValues i createdAt =
     \<lparr>lr_enabled = lc_enabled i, lr_urls = (if lc_url i = '''' then [] else [lc_url i]),
      lr_transport_mode = ldapTransportMode (lc_url i),
      lr_verify_tls_certificate = lc_tls_reject_unauthorized i,
      lr_connect_timeout_ms = lc_connect_timeout_ms i, lr_bind_dn = lc_bind_dn i,
      lr_bind_password_encrypted = lc_bind_password_encrypted i,
      lr_user_base_dn = lc_user_base_dn i, lr_user_filter = lc_user_filter i,
      lr_display_name_attribute = lc_display_name_attribute i,
      lr_email_attribute = lc_mail_attribute i, lr_group_base_dn = or_null (lc_group_search_base i),
      lr_group_filter = or_null (lc_group_search_filter i),
      lr_group_member_attribute = (if lc_group_attribute i = '''' then ''memberOf'' else lc_group_attribute i),
      lr_group_attribute = lc_group_attribute i, lr_group_name_attribute = lc_group_name_attribute i,
      lr_default_role = lc_default_role i, lr_created_at = createdAt, lr_updated_at = lc_updated_at i,
      lr_updated_by = lc_updated_by i, lr_version = 1\<rparr>"

definition mapLdapConfiguration :: "ldap_row \<Rightarrow> stored_ldap_configuration" where
  "mapLdapConfiguration r =
     \<lparr>lc_enabled = (if lr_transport_mode r = Starttls_Transport then False else lr_enabled r),
      lc_url = (case lr_urls r of [] \<Rightarrow> '''' | u # _ \<Rightarrow> u),
      lc_tls_reject_unauthorized = lr_verify_tls_certificate r,
      lc_connect_timeout_ms = lr_connect_timeout_ms r, lc_bind_dn = lr_bind_dn r,
      lc_bind_password_encrypted = nonempty (lr_bind_password_encrypted r),
      lc_user_base_dn = lr_user_base_dn r, lc_user_filter = lr_user_filter r,
      lc_display_name_attribute = lr_display_name_attribute r, lc_mail_attribute = lr_email_attribute r,
      lc_group_attribute = lr_group_attribute r,
      lc_group_search_base = (case lr_group_base_dn r of None \<Rightarrow> '''' | Some b \<Rightarrow> b),
      lc_group_search_filter = (case lr_group_filter r of None \<Rightarrow> ''(member={{userDn}})'' | Some f \<Rightarrow> f),
      lc_group_name_attribute = lr_group_name_attribute r, lc_default_role = lr_default_role r,
      lc_updated_at = lr_updated_at r, lc_updated_by = lr_updated_by r, lc_created_at = lr_created_at r,
      lc_version = lr_version r\<rparr>"

definition getLdapConfiguration :: "id_store \<Rightarrow> stored_ldap_configuration option" where
  "getLdapConfiguration s = map_option mapLdapConfiguration (is_ldap s)"

definition saved_ldap_row :: "'z ldap_settings_scheme \<Rightarrow> ldap_row option \<Rightarrow> ldap_row" where
  "saved_ldap_row i old =
     (case old of
        None \<Rightarrow> ldapConfigurationValues i (lc_updated_at i)
      | Some r \<Rightarrow> (ldapConfigurationValues i (lc_updated_at i))\<lparr>lr_version := lr_version r + 1\<rparr>)"

definition saveLdapConfiguration ::
  "'z ldap_settings_scheme \<Rightarrow> id_store \<Rightarrow> stored_ldap_configuration \<times> id_store" where
  "saveLdapConfiguration i s =
     (mapLdapConfiguration (saved_ldap_row i (is_ldap s)), s\<lparr>is_ldap := Some (saved_ldap_row i (is_ldap s))\<rparr>)"

section \<open>The machine\<close>

text \<open>
  The operations in any order and with any outcome. The operations of two statements appear as their
  writing statement, which is all that other processes can see of them. The roles that a start of the
  control plane installs are the ones of the domain.
\<close>

inductive id_step :: "id_store \<Rightarrow> id_store \<Rightarrow> bool" where
  step_ensure: "ensureBuiltInRoles (builtInRoleDefinitions texts) t1 s = (r1, s') \<Longrightarrow> id_step s s'"
| step_bootstrap: "bootstrapAdministrator i2 s = (r2, s') \<Longrightarrow> id_step s s'"
| step_upsert: "upsertLdapUser i3 s = (r3, s') \<Longrightarrow> id_step s s'"
| step_ldap_login: "completeLdapLogin i4 s = (r4, s') \<Longrightarrow> id_step s s'"
| step_register: "completeLocalRegistration i5 s = (r5, s') \<Longrightarrow> id_step s s'"
| step_failure: "id_step s (recordLoginFailure u6 n6 l6 t6 s)"
| step_session: "createSessionAfterLogin i7 u7 s = (r7, s') \<Longrightarrow> id_step s s'"
| step_renew: "renewSession k8 t8 e8 s = (r8, s') \<Longrightarrow> id_step s s'"
| step_revoke: "id_step s (revoke_sessions P9 t9 s)"
| step_create_user: "createLocalUser i10 s = (r10, s') \<Longrightarrow> id_step s s'"
| step_status: "updateUserStatus u11 st11 t11 s = (r11, s') \<Longrightarrow> id_step s s'"
| step_password: "resetPassword u12 h12 f12 t12 s = (r12, s') \<Longrightarrow> id_step s s'"
| step_insert_role: "transaction (insert_role i13) s = (r13, s') \<Longrightarrow> id_step s s'"
| step_update_role: "updateRole i14 s = (r14, s') \<Longrightarrow> id_step s s'"
| step_delete_role: "transaction (delete_role_row k15) s = (r15, s') \<Longrightarrow> id_step s s'"
| step_assign_system: "assignSystemRole u16 k16 a16 t16 s = (r16, s') \<Longrightarrow> id_step s s'"
| step_assign_project: "assignProjectRole i17 s = (r17, s') \<Longrightarrow> id_step s s'"
| step_remove_system: "removeSystemRole u18 k18 s = (r18, s') \<Longrightarrow> id_step s s'"
| step_remove_project: "removeProjectRole u19 p19 k19 s = (r19, s') \<Longrightarrow> id_step s s'"
| step_create_project: "createProject i20 s = (r20, s') \<Longrightarrow> id_step s s'"
| step_rename_project: "renameProject p21 n21 t21 s = (r21, s') \<Longrightarrow> id_step s s'"
| step_archive_project: "archiveProject p22 t22 s = (r22, s') \<Longrightarrow> id_step s s'"
| step_transfer_project: "transferProjectOwner p23 u23 t23 s = (r23, s') \<Longrightarrow> id_step s s'"
| step_ldap: "saveLdapConfiguration (i24 :: ldap_settings) s = (r24, s') \<Longrightarrow> id_step s s'"
| step_audit: "appendAudit e25 s = (r25, s') \<Longrightarrow> id_step s s'"

end
