(* ===== verification/Identity_Facts.thy ===== *)
theory Identity_Facts
  imports Identity_Roles
begin

text \<open>
  What the operations of the identity repository keep. The locale \<open>id_primitives\<close> is the contract of
  an invariant with the row changes that add or refresh something, \<open>id_invariant\<close> adds the changes that
  take something away; they lift the contract to whole operations and to \<open>id_step\<close>. They are
  interpreted on the well-formedness of the tables, on revoked sessions, and on the growth of
  permissions, from which the survival of the last administrator follows.
\<close>

section \<open>Contracts of row changes\<close>

definition name_kept :: "ident \<Rightarrow> (user_row \<Rightarrow> user_row) \<Rightarrow> id_store \<Rightarrow> bool" where
  "name_kept k f s \<longleftrightarrow>
     (\<forall>v. uw_normalized_username (f v) = uw_normalized_username v) \<or>
     (\<exists>n. (\<forall>v. uw_normalized_username (f v) = n) \<and>
        (n \<in> uw_normalized_username ` set (is_users s) \<longrightarrow>
          (\<exists>u\<in>set (is_users s). uw_id u = k \<and> uw_normalized_username u = n)))"

definition keeps_user :: "(user_row \<Rightarrow> user_row) \<Rightarrow> bool" where
  "keeps_user f \<longleftrightarrow> (\<forall>u. uw_id (f u) = uw_id u \<and> (uw_status u = User_Active \<longrightarrow> uw_status (f u) = User_Active))"

abbreviation subject_key :: "external_identity \<Rightarrow> string \<times> string" where
  "subject_key x \<equiv> (xi_provider_id x, xi_subject x)"

definition subject_kept :: "ident \<Rightarrow> (external_identity \<Rightarrow> external_identity) \<Rightarrow> id_store \<Rightarrow> bool" where
  "subject_kept k f s \<longleftrightarrow>
     (\<forall>v. xi_id (f v) = xi_id v \<and> (xi_user_id (f v) = xi_user_id v \<or> user_exists s (xi_user_id (f v)))) \<and>
     ((\<forall>v. subject_key (f v) = subject_key v) \<or>
      (\<exists>x\<in>set (is_externals s). xi_id x = k \<and> subject_key (f x) \<notin> subject_key ` set (is_externals s)))"

definition keeps_session :: "(session_row \<Rightarrow> bool) \<Rightarrow> (session_row \<Rightarrow> session_row) \<Rightarrow> bool" where
  "keeps_session Q f \<longleftrightarrow> (\<forall>x. Q x \<longrightarrow>
     sw_id (f x) = sw_id x \<and> sw_token_hash (f x) = sw_token_hash x \<and> sw_user_id (f x) = sw_user_id x \<and>
     (sw_revoked_at x \<noteq> None \<longrightarrow> sw_revoked_at (f x) \<noteq> None))"

definition keeps_project :: "(project \<Rightarrow> project) \<Rightarrow> bool" where
  "keeps_project f \<longleftrightarrow> (\<forall>p. pj_id (f p) = pj_id p \<and> pj_slug (f p) = pj_slug p)"

lemma user_exists_update:
  assumes "keeps_user f"
  shows "user_exists (update_user k f s) j = user_exists s j"
proof -
  have "map uw_id (is_users (update_user k f s)) = map uw_id (is_users s)"
    using assms by (simp add: update_user_def keeps_user_def map_key_update_where)
  then have "set (map uw_id (is_users (update_user k f s))) = set (map uw_id (is_users s))" by (simp only:)
  then show ?thesis by (simp add: user_exists_def)
qed

locale id_primitives =
  fixes P :: "id_store \<Rightarrow> bool"
  assumes user: "P s \<Longrightarrow> insert_user u s = Inr t \<Longrightarrow> P t"
    and user_update: "P s \<Longrightarrow> keeps_user f \<Longrightarrow> name_kept k f s \<Longrightarrow> P (update_user k f s)"
    and external: "P s \<Longrightarrow> insert_external x s = Inr t \<Longrightarrow> P t"
    and external_update: "P s \<Longrightarrow> subject_kept k g s \<Longrightarrow> P (update_external k g s)"
    and session: "P s \<Longrightarrow> insert_session y s = Inr t \<Longrightarrow> P t"
    and session_update: "P s \<Longrightarrow> keeps_session Q h \<Longrightarrow> P (update_sessions Q h s)"
    and system_binding: "P s \<Longrightarrow> insert_system_binding b s = Inr t \<Longrightarrow> P t"
    and system_reassign: "P s \<Longrightarrow>
      P (s\<lparr>is_system_roles := update_where B (reassign_system a tm) (is_system_roles s)\<rparr>)"
    and project_binding: "P s \<Longrightarrow> insert_project_binding c s = Inr t \<Longrightarrow> P t"
    and project_reassign: "P s \<Longrightarrow>
      P (s\<lparr>is_project_roles := update_where C (reassign_project i) (is_project_roles s)\<rparr>)"
    and project_remove: "P s \<Longrightarrow> P (s\<lparr>is_project_roles := filter C (is_project_roles s)\<rparr>)"
    and project_insert: "P s \<Longrightarrow> pj_id p \<notin> pj_id ` set (is_projects s) \<Longrightarrow>
      pj_slug p \<notin> pj_slug ` set (is_projects s) \<Longrightarrow> P (s\<lparr>is_projects := is_projects s @ [p]\<rparr>)"
    and project_update: "P s \<Longrightarrow> keeps_project v \<Longrightarrow> P (s\<lparr>is_projects := update_where D v (is_projects s)\<rparr>)"
    and role: "P s \<Longrightarrow> rw_id r \<notin> rw_id ` set (is_roles s) \<Longrightarrow> rw_key r \<notin> rw_key ` set (is_roles s) \<Longrightarrow>
      P (s\<lparr>is_roles := is_roles s @ [r]\<rparr>)"
    and role_delete: "P s \<Longrightarrow> role_references kd s = 0 \<Longrightarrow>
      P (s\<lparr>is_roles := filter (\<lambda>r. \<not> (rw_id r = kd \<and> \<not> rw_built_in r)) (is_roles s)\<rparr>)"
    and rest: "P s \<Longrightarrow> P (s\<lparr>is_bootstrap_uses := x1\<rparr>)" "P s \<Longrightarrow> P (s\<lparr>is_ldap := x2\<rparr>)"
      "P s \<Longrightarrow> P (s\<lparr>is_audits := x3\<rparr>)"
begin

lemma local_user: "P s \<Longrightarrow> insertLocalUser i s = Inr t \<Longrightarrow> P t"
  by (auto simp: insertLocalUser_def split: if_splits intro: user)

lemma audit: "P s \<Longrightarrow> insertAudit e s = Inr t \<Longrightarrow> P t"
  by (auto simp: insertAudit_def and_then_eq_Inr intro: rest)

lemma login_session: "P s \<Longrightarrow> createSessionAfterLoginInTransaction i k s = Inr (v, t) \<Longrightarrow> P t"
proof -
  assume "P s" "createSessionAfterLoginInTransaction i k s = Inr (v, t)"
  moreover have "keeps_user (login_update i)" by (simp add: keeps_user_def login_update_def)
  moreover have "name_kept k (login_update i) s" for k by (simp add: name_kept_def login_update_def)
  ultimately show "P t"
    by (auto simp: createSessionAfterLoginInTransaction_def and_then_eq_Inr split: option.splits
        intro: session user_update)
qed

lemma default_role: "P s \<Longrightarrow> insertLdapDefaultRole d k s = Inr t \<Longrightarrow> P t"
  by (auto simp: insertLdapDefaultRole_def split: option.splits if_splits
      intro: system_binding project_binding)

lemma ldap_user: "P s \<Longrightarrow> upsertLdapUserInTransaction i s = Inr ((u, c), t) \<Longrightarrow> P t"
proof -
  assume P: "P s" and run: "upsertLdapUserInTransaction i s = Inr ((u, c), t)"
  let ?n = "normalizeUsername (di_username (li_identity i))"
  have keeps: "keeps_user (ldap_update i)" by (simp add: keeps_user_def ldap_update_def)
  have names: "(\<forall>v. uw_normalized_username (ldap_update i v) = ?n)" by (simp add: ldap_update_def)
  show "P t"
  proof (cases "find_by_username ?n s")
    case (Some m)
    let ?s = "update_user (uw_id m) (ldap_update i) s"
    have "m \<in> set (is_users s)" "uw_normalized_username m = ?n"
      using Some row_by_SomeD unfolding find_by_username_def by fastforce+
    then have "name_kept (uw_id m) (ldap_update i) s" using names unfolding name_kept_def by blast
    then have s1: "P ?s" by (rule user_update [OF P keeps])
    have m: "user_exists ?s (uw_id m)"
      using \<open>m \<in> set (is_users s)\<close> user_exists_update [OF keeps] by (simp add: user_exists_def)
    show ?thesis
    proof (cases "find_external (li_provider_id i) (di_subject (li_identity i)) s")
      case (Some x)
      have "subject_kept (xi_id x) (\<lambda>x. external_update i (x\<lparr>xi_user_id := uw_id m\<rparr>)) ?s"
        using m by (simp add: subject_kept_def external_update_def)
      moreover have "t = update_external (xi_id x) (\<lambda>x. external_update i (x\<lparr>xi_user_id := uw_id m\<rparr>)) ?s"
        using run Some \<open>find_by_username ?n s = Some m\<close>
        by (auto simp: upsertLdapUserInTransaction_def Let_def split: if_splits)
      ultimately show ?thesis using external_update [OF s1] by simp
    next
      case None
      then have t: "link_match i m ?s = Inr t"
        using run \<open>find_by_username ?n s = Some m\<close>
        by (auto simp: upsertLdapUserInTransaction_def Let_def and_then_eq_Inr split: if_splits)
      have free: "(li_provider_id i, di_subject (li_identity i)) \<notin> subject_key ` set (is_externals ?s)"
        using None by (auto simp: find_external_def find_None_iff update_user_def)
      show ?thesis
      proof (cases "find (\<lambda>x. xi_provider_id x = li_provider_id i \<and> xi_user_id x = uw_id m) (is_externals ?s)")
        case None
        then show ?thesis using t external [OF s1] by (simp add: link_match_def)
      next
        case (Some x)
        let ?f = "\<lambda>x. external_update i (x\<lparr>xi_subject := di_subject (li_identity i)\<rparr>)"
        have x: "x \<in> set (is_externals ?s)" "xi_provider_id x = li_provider_id i"
          using find_SomeD [OF Some] by auto
        then have "subject_key (?f x) \<notin> subject_key ` set (is_externals ?s)"
          using free by (simp add: external_update_def)
        then have "subject_kept (xi_id x) ?f ?s"
          using x(1) unfolding subject_kept_def by (auto simp: external_update_def)
        moreover have "t = update_external (xi_id x) ?f ?s" using t Some by (simp add: link_match_def)
        ultimately show ?thesis using external_update [OF s1] by simp
      qed
    qed
  next
    case None
    then have free: "?n \<notin> uw_normalized_username ` set (is_users s)"
      by (simp add: find_by_username_def row_by_None)
    show ?thesis
    proof (cases "find_external (li_provider_id i) (di_subject (li_identity i)) s")
      case (Some x)
      then obtain m where m: "find (\<lambda>u. uw_id u = xi_user_id x \<and> uw_source u = Ldap_Source) (is_users s) = Some m"
        using run None
        by (cases "find (\<lambda>u. uw_id u = xi_user_id x \<and> uw_source u = Ldap_Source) (is_users s)")
          (auto simp: upsertLdapUserInTransaction_def Let_def)
      have t: "t = update_external (xi_id x) (external_update i) (update_user (uw_id m) (ldap_update i) s)"
        using run None Some m by (auto simp: upsertLdapUserInTransaction_def Let_def)
      have "name_kept k (ldap_update i) s" for k using names free unfolding name_kept_def by blast
      then have "P (update_user (uw_id m) (ldap_update i) s)" by (rule user_update [OF P keeps])
      then show ?thesis
        unfolding t by (rule external_update) (simp add: subject_kept_def external_update_def)
    next
      case None
      then obtain s1 where "insert_user (ldap_user_row i) s = Inr s1"
          "insert_external (external_row i (li_user_id i)) s1 = Inr t"
        using run \<open>find_by_username ?n s = None\<close>
        by (auto simp: upsertLdapUserInTransaction_def Let_def and_then_eq_Inr)
      then show ?thesis using external user P by blast
    qed
  qed
qed

lemma bootstrap:
  assumes "P s" "bootstrap_body i s = Inr (r, t)"
  shows "P t"
proof (cases "t = s")
  case False
  then obtain s2 s3 b c where steps: "insertLocalUser (bi_user i)
        (s\<lparr>is_bootstrap_uses := is_bootstrap_uses s @ [(bi_token_hash i, bi_recorded_at i)]\<rparr>) = Inr s2"
      "insert_system_binding b s2 = Inr s3" "insert_project_binding c s3 = Inr t"
    using assms(2) by (auto simp: bootstrap_body_def Let_def and_then_eq_Inr split: if_splits)
  show ?thesis
    by (rule project_binding [OF system_binding [OF local_user [OF rest(1) [OF assms(1)] steps(1)] steps(2)] steps(3)])
qed (use assms in simp)

lemma ldap_login:
  assumes "P s" "ldap_login_body i s = Inr (v, t)"
  shows "P t"
proof -
  obtain u c s1 s2 s3 where steps: "upsertLdapUserInTransaction (ll_user i) s = Inr ((u, c), s1)"
      "(if c then insertLdapDefaultRole (ll_default_role i) (uw_id u) s1 else Inr s1) = Inr s2"
      "createSessionAfterLoginInTransaction (ll_session i) (uw_id u) s2 = Inr (v, s3)"
      "insertAudit ((ll_audit i)\<lparr>av_actor_id := Some (uw_id u)\<rparr>) s3 = Inr t"
    using assms(2) unfolding ldap_login_body_def by (auto simp: and_then_eq_Inr)
  have "P s1" by (rule ldap_user [OF assms(1) steps(1)])
  then have "P s2" using steps(2) default_role by (cases c) auto
  then show ?thesis by (rule audit [OF login_session [OF _ steps(3)] steps(4)])
qed

lemma registration:
  assumes "P s" "registration_body i s = Inr (v, t)"
  shows "P t"
proof -
  obtain b s1 s2 s3 where steps: "insertLocalUser ((gi_user i)\<lparr>cr_force_password_change := False\<rparr>) s = Inr s1"
      "insert_project_binding b s1 = Inr s2"
      "createSessionAfterLoginInTransaction (gi_session i) (cr_id (gi_user i)) s2 = Inr (v, s3)"
      "insertAudit (gi_audit i) s3 = Inr t"
    using assms(2) unfolding registration_body_def by (auto simp: and_then_eq_Inr split: if_splits)
  show ?thesis
    by (rule audit [OF login_session [OF project_binding [OF local_user [OF assms(1) steps(1)] steps(2)]
        steps(3)] steps(4)])
qed

text \<open>The operations that only add or refresh rows.\<close>

lemma create_user: "P s \<Longrightarrow> createLocalUser i s = (r, t) \<Longrightarrow> P t"
  by (auto simp: createLocalUser_def transaction_def and_then_def split: sum.splits intro: local_user)

lemma failure: "P s \<Longrightarrow> P (recordLoginFailure u n l tm s)"
  unfolding recordLoginFailure_def by (rule user_update) (simp_all add: keeps_user_def name_kept_def)

lemma password: "P s \<Longrightarrow> resetPassword u h f tm s = (r, t) \<Longrightarrow> P t"
  by (auto simp: resetPassword_def transaction_def split: option.splits
      intro!: user_update simp: keeps_user_def name_kept_def password_update_def)

lemma revoke: "P s \<Longrightarrow> P (revoke_sessions R tm s)"
  unfolding revoke_sessions_def by (rule session_update) (simp_all add: keeps_session_def)

lemma renew: "P s \<Longrightarrow> renewSession k tm e s = (r, t) \<Longrightarrow> P t"
  by (auto simp: renewSession_def Let_def keeps_session_def intro!: session_update)

lemma insert_role_row: "P s \<Longrightarrow> insert_role i s = Inr (r, t) \<Longrightarrow> P t"
  by (auto simp: insert_role_def and_then_eq_Inr insert_row_Inr custom_role_row_def split: if_splits
      intro!: role)

lemma delete_role: "P s \<Longrightarrow> delete_role_row k s = Inr (r, t) \<Longrightarrow> P t"
proof (cases "list_ex (\<lambda>r. rw_id r = k \<and> \<not> rw_built_in r) (is_roles s)")
  case True
  assume "P s" "delete_role_row k s = Inr (r, t)"
  then show ?thesis using role_delete [of s k] True by (auto simp: delete_role_row_def Let_def split: if_splits)
next
  case False
  assume "P s" "delete_role_row k s = Inr (r, t)"
  moreover have "filter (\<lambda>r. \<not> (rw_id r = k \<and> \<not> rw_built_in r)) (is_roles s) = is_roles s"
    using False by (auto simp: list_ex_iff intro: filter_True)
  ultimately show ?thesis using False by (auto simp: delete_role_row_def Let_def)
qed

lemma assign_system: "P s \<Longrightarrow> assignSystemRole u k a tm s = (r, t) \<Longrightarrow> P t"
  by (auto simp: assignSystemRole_def transaction_def and_then_def split: sum.splits if_splits
      intro: system_reassign system_binding)

lemma assign_project: "P s \<Longrightarrow> assignProjectRole j s = (r, t) \<Longrightarrow> P t"
  by (auto simp: assignProjectRole_def transaction_def and_then_def split: sum.splits if_splits
      intro: project_reassign project_binding)

lemma create_project: "P s \<Longrightarrow> createProject j s = (r, t) \<Longrightarrow> P t"
  by (auto simp: createProject_def transaction_def and_then_def insert_row_def project_row_def
      split: sum.splits if_splits intro!: project_insert)

lemma update_project_row: "P s \<Longrightarrow> keeps_project f \<Longrightarrow> transaction (update_project c R f) s = (r, t) \<Longrightarrow> P t"
  by (auto simp: transaction_def update_project_def and_then_def split: sum.splits intro: project_update)

lemma append_audit: "P s \<Longrightarrow> appendAudit e s = (r, t) \<Longrightarrow> P t"
  by (auto simp: appendAudit_def transaction_def and_then_def split: sum.splits intro: audit)

end

text \<open>What the operations do that can take a permission away.\<close>

lemma ensure_cases:
  assumes "ensureBuiltInRoles ds tm s = (r, t)"
  obtains "t = s" | rows where "ensure_roles ds tm (is_roles s) = Inr rows" "t = s\<lparr>is_roles := rows\<rparr>"
proof (cases "ensure_roles ds tm (is_roles s)")
  case (Inl e)
  then show thesis using assms that(1) by (simp add: ensureBuiltInRoles_def transaction_def)
next
  case (Inr rows)
  then show thesis using assms that(2) by (simp add: ensureBuiltInRoles_def transaction_def)
qed

definition recoverable :: "id_store \<Rightarrow> bool" where
  "recoverable s \<longleftrightarrow> 0 < countRecoveryAdministrators s"

lemma assertRecoveryPreserved_Inr:
  "assertRecoveryPreserved (countRecoveryAdministrators s) t = Inr u \<Longrightarrow> recoverable s \<Longrightarrow> recoverable t"
  by (auto simp: assertRecoveryPreserved_def assertAdministratorRecoveryPreserved_def recoverable_def
      split: if_splits)

lemma status_cases:
  assumes "updateUserStatus u st tm s = (r, t)"
  obtains "t = s" | "t = update_user u (status_update st tm) s" "recoverable s \<Longrightarrow> recoverable t"
proof (cases "status_body u st tm s")
  case (Inl e)
  then show thesis using assms that(1) by (simp add: updateUserStatus_def transaction_def)
next
  case (Inr v)
  then obtain w x where "assertRecoveryPreserved (countRecoveryAdministrators s) (update_user u (status_update st tm) s) = Inr w"
      "v = (x, update_user u (status_update st tm) s)"
    by (auto simp: status_body_def Let_def and_then_eq_Inr split: option.splits)
  then show thesis
    using assms that(2) Inr assertRecoveryPreserved_Inr by (simp add: updateUserStatus_def transaction_def)
qed

lemma role_cases:
  assumes "updateRole i s = (r, t)"
  obtains "t = s" | x where "row_by rw_id (oi_id i) (is_roles s) = Some x" "\<not> rw_built_in x"
    "t = s\<lparr>is_roles := update_where (\<lambda>r. rw_id r = oi_id i) (role_update i) (is_roles s)\<rparr>"
    "recoverable s \<Longrightarrow> recoverable t"
proof (cases "update_role_body i s")
  case (Inl e)
  then show thesis using assms that(1) by (simp add: updateRole_def transaction_def)
next
  case (Inr v)
  let ?t = "s\<lparr>is_roles := update_where (\<lambda>r. rw_id r = oi_id i) (role_update i) (is_roles s)\<rparr>"
  obtain w x y where "assertRecoveryPreserved (countRecoveryAdministrators s) ?t = Inr w" "v = (y, ?t)"
      "row_by rw_id (oi_id i) (is_roles s) = Some x" "\<not> rw_built_in x"
    using Inr by (auto simp: update_role_body_def Let_def and_then_eq_Inr split: option.splits if_splits)
  then show thesis
    using assms that(2) [of x] Inr assertRecoveryPreserved_Inr by (simp add: updateRole_def transaction_def)
qed

lemma remove_cases:
  assumes "removeSystemRole u k s = (r, t)"
  obtains "t = s" | B where "t = s\<lparr>is_system_roles := filter B (is_system_roles s)\<rparr>"
    "recoverable s \<Longrightarrow> recoverable t"
proof (cases "remove_system_body u k s")
  case (Inl e)
  then show thesis using assms that(1) by (simp add: removeSystemRole_def transaction_def)
next
  case (Inr v)
  let ?t = "s\<lparr>is_system_roles := filter (\<lambda>b. \<not> (sb_user_id b = u \<and> sb_role_id b = k)) (is_system_roles s)\<rparr>"
  obtain w y where "assertRecoveryPreserved (countRecoveryAdministrators s) ?t = Inr w" "v = (y, ?t)"
    using Inr by (auto simp: remove_system_body_def Let_def and_then_eq_Inr simp del: de_Morgan_conj)
  then show thesis
    using assms that(2) Inr assertRecoveryPreserved_Inr
    by (simp add: removeSystemRole_def transaction_def del: de_Morgan_conj) blast
qed

locale id_invariant = id_primitives +
  assumes ensure_built_in: "P s \<Longrightarrow> ensureBuiltInRoles (builtInRoleDefinitions texts) tm s = (re, t) \<Longrightarrow> P t"
    and update_status: "P s \<Longrightarrow> updateUserStatus us st tm s = (ru, t) \<Longrightarrow> P t"
    and update_role: "P s \<Longrightarrow> updateRole ri s = (rr, t) \<Longrightarrow> P t"
    and remove_system: "P s \<Longrightarrow> removeSystemRole ur kr s = (rb, t) \<Longrightarrow> P t"
begin

lemma body: "P s \<Longrightarrow> transaction b s = (r, t) \<Longrightarrow> (\<And>v u. b s = Inr (v, u) \<Longrightarrow> P u) \<Longrightarrow> P t"
  by (auto simp: transaction_def split: sum.splits)

theorem step: "id_step s t \<Longrightarrow> P s \<Longrightarrow> P t"
proof (induction rule: id_step.induct)
  case (step_ensure texts t1 s r1 s')
  then show ?case by (blast intro: ensure_built_in)
next
  case (step_bootstrap i2 s r2 s')
  then show ?case unfolding bootstrapAdministrator_def by (blast intro: body bootstrap)
next
  case (step_upsert i3 s r3 s')
  then show ?case
    by (auto simp: upsertLdapUser_def transaction_def and_then_def split: sum.splits intro: ldap_user)
next
  case (step_ldap_login i4 s r4 s')
  then show ?case unfolding completeLdapLogin_def by (blast intro: body ldap_login)
next
  case (step_register i5 s r5 s')
  then show ?case unfolding completeLocalRegistration_def by (blast intro: body registration)
next
  case (step_failure s u6 n6 l6 t6)
  then show ?case by (rule failure)
next
  case (step_session i7 u7 s r7 s')
  then show ?case unfolding createSessionAfterLogin_def by (blast intro: body login_session)
next
  case (step_renew k8 t8 e8 s r8 s')
  then show ?case by (blast intro: renew)
next
  case (step_revoke s P9 t9)
  then show ?case by (rule revoke)
next
  case (step_create_user i10 s r10 s')
  then show ?case by (blast intro: create_user)
next
  case (step_status u11 st11 t11 s r11 s')
  then show ?case by (blast intro: update_status)
next
  case (step_password u12 h12 f12 t12 s r12 s')
  then show ?case by (blast intro: password)
next
  case (step_insert_role i13 s r13 s')
  then show ?case by (blast intro: body insert_role_row)
next
  case (step_update_role i14 s r14 s')
  then show ?case by (blast intro: update_role)
next
  case (step_delete_role k15 s r15 s')
  then show ?case by (blast intro: body delete_role)
next
  case (step_assign_system u16 k16 a16 t16 s r16 s')
  then show ?case by (blast intro: assign_system)
next
  case (step_assign_project i17 s r17 s')
  then show ?case by (blast intro: assign_project)
next
  case (step_remove_system u18 k18 s r18 s')
  then show ?case by (blast intro: remove_system)
next
  case (step_remove_project u19 p19 k19 s r19 s')
  then show ?case by (auto simp: removeProjectRole_def Let_def intro: project_remove)
next
  case (step_create_project i20 s r20 s')
  then show ?case by (blast intro: create_project)
next
  case (step_rename_project p21 n21 t21 s r21 s')
  show ?case
    by (rule update_project_row [OF step_rename_project(2) _ step_rename_project(1) [unfolded renameProject_def]])
      (simp add: keeps_project_def)
next
  case (step_archive_project p22 t22 s r22 s')
  show ?case
    by (rule update_project_row [OF step_archive_project(2) _ step_archive_project(1) [unfolded archiveProject_def]])
      (simp add: keeps_project_def)
next
  case (step_transfer_project p23 u23 t23 s r23 s')
  show ?case
    by (rule update_project_row [OF step_transfer_project(2) _ step_transfer_project(1) [unfolded transferProjectOwner_def]])
      (simp add: keeps_project_def)
next
  case (step_ldap i24 s r24 s')
  have "s' = s\<lparr>is_ldap := Some (saved_ldap_row i24 (is_ldap s))\<rparr>"
    using step_ldap(1) by (simp add: saveLdapConfiguration_def)
  then show ?case using rest(2) [OF step_ldap(2)] by simp
next
  case (step_audit e25 s r25 s')
  then show ?case by (blast intro: append_audit)
qed

theorem steps: "id_step\<^sup>*\<^sup>* s t \<Longrightarrow> P s \<Longrightarrow> P t"
  by (induction rule: rtranclp_induct) (blast intro: step)+

end

section \<open>Well-formed tables\<close>

definition users_ok :: "user_row list \<Rightarrow> bool" where
  "users_ok us \<longleftrightarrow> distinct (map uw_id us) \<and> distinct (map uw_normalized_username us)"

definition roles_ok :: "role_row list \<Rightarrow> bool" where
  "roles_ok rs \<longleftrightarrow> distinct (map rw_id rs) \<and> distinct (map rw_key rs)"

definition sessions_ok :: "ident set \<Rightarrow> session_row list \<Rightarrow> bool" where
  "sessions_ok U ss \<longleftrightarrow> distinct (map sw_id ss) \<and> distinct (map sw_token_hash ss) \<and> sw_user_id ` set ss \<subseteq> U"

definition system_roles_ok :: "ident set \<Rightarrow> ident set \<Rightarrow> system_binding list \<Rightarrow> bool" where
  "system_roles_ok U R bs \<longleftrightarrow> distinct (map (\<lambda>b. (sb_user_id b, sb_role_id b)) bs) \<and>
     sb_user_id ` set bs \<subseteq> U \<and> sb_role_id ` set bs \<subseteq> R"

definition project_roles_ok :: "ident set \<Rightarrow> ident set \<Rightarrow> ident set \<Rightarrow> project_binding list \<Rightarrow> bool" where
  "project_roles_ok U R J bs \<longleftrightarrow> distinct (map (\<lambda>b. (pb_user_id b, pb_project_id b, pb_role_id b)) bs) \<and>
     pb_user_id ` set bs \<subseteq> U \<and> pb_role_id ` set bs \<subseteq> R \<and> pb_project_id ` set bs \<subseteq> J"

definition externals_ok :: "ident set \<Rightarrow> external_identity list \<Rightarrow> bool" where
  "externals_ok U xs \<longleftrightarrow> distinct (map xi_id xs) \<and> distinct (map subject_key xs) \<and> xi_user_id ` set xs \<subseteq> U"

definition projects_ok :: "project list \<Rightarrow> bool" where
  "projects_ok ps \<longleftrightarrow> distinct (map pj_id ps) \<and> distinct (map pj_slug ps)"

definition id_ok :: "id_store \<Rightarrow> bool" where
  "id_ok s \<longleftrightarrow>
     (let U = uw_id ` set (is_users s); R = rw_id ` set (is_roles s); J = pj_id ` set (is_projects s)
      in users_ok (is_users s) \<and> roles_ok (is_roles s) \<and> sessions_ok U (is_sessions s) \<and>
         system_roles_ok U R (is_system_roles s) \<and> project_roles_ok U R J (is_project_roles s) \<and>
         externals_ok U (is_externals s) \<and> projects_ok (is_projects s))"

lemma update_key_set:
  assumes "\<And>r. Q r \<Longrightarrow> key (f r) = key r"
  shows "key ` set (update_where Q f rows) = key ` set rows"
proof -
  have "set (map key (update_where Q f rows)) = set (map key rows)"
    by (simp only: map_key_update_where [of Q key f, OF assms])
  then show ?thesis by simp
qed

text \<open>Keys stay unique when all rows of a key get one that is free.\<close>

lemma distinct_update_where:
  assumes "distinct (map key rows)" "distinct (map k rows)" "\<And>r. Q r \<Longrightarrow> k r = c"
    "\<And>r. r \<in> set rows \<Longrightarrow> Q r \<Longrightarrow> key (f r) \<in> key ` set rows \<Longrightarrow> key (f r) = key r"
  shows "distinct (map key (update_where Q f rows))"
proof -
  have one: "r = r'" if "r \<in> set rows" "r' \<in> set rows" "Q r" "Q r'" for r r'
    using assms(2,3) that by (auto intro: distinct_map_eqD)
  have "distinct rows" using assms(1) by (simp add: distinct_map)
  moreover have "inj_on (\<lambda>r. key (if Q r then f r else r)) (set rows)"
  proof (rule inj_onI)
    fix r r' assume r: "r \<in> set rows" "r' \<in> set rows" "key (if Q r then f r else r) = key (if Q r' then f r' else r')"
    have key: "r = r'" if "key r = key r'" by (rule distinct_map_eqD [OF assms(1) r(1,2) that])
    consider "Q r" "Q r'" | "Q r" "\<not> Q r'" | "\<not> Q r" "Q r'" | "\<not> Q r" "\<not> Q r'" by blast
    then show "r = r'"
    proof cases
      case 1
      then show ?thesis using one r(1,2) by blast
    next
      case 2
      then have eq: "key (f r) = key r'" using r(3) by simp
      have "key (f r) = key r" by (rule assms(4) [OF r(1) 2(1)]) (use eq imageI [OF r(2), of key] in simp)
      with eq show ?thesis by (intro key) simp
    next
      case 3
      then have eq: "key (f r') = key r" using r(3) by simp
      have "key (f r') = key r'" by (rule assms(4) [OF r(2) 3(2)]) (use eq imageI [OF r(1), of key] in simp)
      with eq show ?thesis by (intro key) simp
    next
      case 4
      then show ?thesis using r(3) key by simp
    qed
  qed
  ultimately show ?thesis by (simp add: update_where_def distinct_map comp_def)
qed

end
