(* ===== verification/Identity_Safety.thy ===== *)
theory Identity_Safety
  imports Identity_Facts
begin

text \<open>
  The contracts of \<open>Identity_Facts\<close> on three invariants (well-formed tables, sessions that were revoked,
  installed roles with a recovery administrator), and what a resolved session may do.
\<close>

section \<open>Well-formed tables\<close>

lemma ok_mono:
  "sessions_ok U ss \<Longrightarrow> U \<subseteq> V \<Longrightarrow> sessions_ok V ss"
  "system_roles_ok U R bs \<Longrightarrow> U \<subseteq> V \<Longrightarrow> R \<subseteq> R' \<Longrightarrow> system_roles_ok V R' bs"
  "project_roles_ok U R J cs \<Longrightarrow> U \<subseteq> V \<Longrightarrow> R \<subseteq> R' \<Longrightarrow> J \<subseteq> J' \<Longrightarrow> project_roles_ok V R' J' cs"
  "externals_ok U xs \<Longrightarrow> U \<subseteq> V \<Longrightarrow> externals_ok V xs"
  by (auto simp: sessions_ok_def system_roles_ok_def project_roles_ok_def externals_ok_def)

text \<open>A change of one table, the ids of users, roles and projects growing.\<close>

lemma id_ok_users:
  "id_ok s \<Longrightarrow> users_ok us \<Longrightarrow> uw_id ` set (is_users s) \<subseteq> uw_id ` set us \<Longrightarrow> id_ok (s\<lparr>is_users := us\<rparr>)"
  unfolding id_ok_def Let_def by (elim conjE, intro conjI) (simp | erule ok_mono)+

lemma id_ok_roles:
  "id_ok s \<Longrightarrow> roles_ok rs \<Longrightarrow> rw_id ` set (is_roles s) \<subseteq> rw_id ` set rs \<Longrightarrow> id_ok (s\<lparr>is_roles := rs\<rparr>)"
  unfolding id_ok_def Let_def by (elim conjE, intro conjI) (simp | erule ok_mono)+

lemma id_ok_projects:
  "id_ok s \<Longrightarrow> projects_ok ps \<Longrightarrow> pj_id ` set (is_projects s) \<subseteq> pj_id ` set ps \<Longrightarrow> id_ok (s\<lparr>is_projects := ps\<rparr>)"
  unfolding id_ok_def Let_def by (elim conjE, intro conjI) (simp | erule ok_mono)+

lemma id_ok_sessions: "id_ok s \<Longrightarrow> sessions_ok (uw_id ` set (is_users s)) ss \<Longrightarrow> id_ok (s\<lparr>is_sessions := ss\<rparr>)"
  unfolding id_ok_def Let_def by simp

lemma id_ok_externals: "id_ok s \<Longrightarrow> externals_ok (uw_id ` set (is_users s)) xs \<Longrightarrow> id_ok (s\<lparr>is_externals := xs\<rparr>)"
  unfolding id_ok_def Let_def by simp

lemma id_ok_system:
  "id_ok s \<Longrightarrow> system_roles_ok (uw_id ` set (is_users s)) (rw_id ` set (is_roles s)) bs \<Longrightarrow>
    id_ok (s\<lparr>is_system_roles := bs\<rparr>)"
  unfolding id_ok_def Let_def by simp

lemma id_ok_bindings:
  "id_ok s \<Longrightarrow> project_roles_ok (uw_id ` set (is_users s)) (rw_id ` set (is_roles s)) (pj_id ` set (is_projects s)) bs \<Longrightarrow>
    id_ok (s\<lparr>is_project_roles := bs\<rparr>)"
  unfolding id_ok_def Let_def by simp

lemma id_okD:
  assumes "id_ok s"
  shows "users_ok (is_users s)" "roles_ok (is_roles s)" "sessions_ok (uw_id ` set (is_users s)) (is_sessions s)"
    "system_roles_ok (uw_id ` set (is_users s)) (rw_id ` set (is_roles s)) (is_system_roles s)"
    "project_roles_ok (uw_id ` set (is_users s)) (rw_id ` set (is_roles s)) (pj_id ` set (is_projects s)) (is_project_roles s)"
    "externals_ok (uw_id ` set (is_users s)) (is_externals s)" "projects_ok (is_projects s)"
  using assms by (simp_all add: id_ok_def Let_def)

lemma references_Inr [simp]: "references b = Inr u \<longleftrightarrow> b"
  by (simp add: references_def)

lemma ok_insert_user: "id_ok s \<Longrightarrow> insert_user u s = Inr t \<Longrightarrow> id_ok t"
  using id_okD(1)
  by (auto simp: insert_user_def and_then_eq_Inr insert_row_Inr users_ok_def split: if_splits intro!: id_ok_users)

lemma ok_update_user:
  assumes "id_ok s" "\<And>u. uw_id (f u) = uw_id u" "name_kept k f s"
  shows "id_ok (update_user k f s)"
proof -
  let ?us = "update_where (\<lambda>u. uw_id u = k) f (is_users s)"
  have ids: "map uw_id ?us = map uw_id (is_users s)" by (simp add: map_key_update_where assms(2))
  have us: "distinct (map uw_id (is_users s))" "distinct (map uw_normalized_username (is_users s))"
    using id_okD(1) [OF assms(1)] by (simp_all add: users_ok_def)
  have "distinct (map uw_normalized_username ?us)"
  proof (rule distinct_update_where [where k = uw_id and c = k, OF us(2,1)])
    fix r assume r: "r \<in> set (is_users s)" "uw_id r = k"
      "uw_normalized_username (f r) \<in> uw_normalized_username ` set (is_users s)"
    from assms(3) consider "\<forall>v. uw_normalized_username (f v) = uw_normalized_username v"
      | u where "u \<in> set (is_users s)" "uw_id u = k" "uw_normalized_username (f r) = uw_normalized_username u"
      using r(3) unfolding name_kept_def by metis
    then show "uw_normalized_username (f r) = uw_normalized_username r"
    proof cases
      case (2 u)
      then have "u = r" using distinct_map_eqD [OF us(1) 2(1) r(1)] r(2) by simp
      then show ?thesis using 2 by simp
    qed simp
  qed simp
  then have "users_ok ?us" using us(1) unfolding users_ok_def ids by simp
  moreover have "uw_id ` set ?us = uw_id ` set (is_users s)" using ids by (metis list.set_map)
  ultimately show ?thesis using assms(1) unfolding update_user_def by (intro id_ok_users) simp_all
qed

lemma ok_insert_external: "id_ok s \<Longrightarrow> insert_external x s = Inr t \<Longrightarrow> id_ok t"
  using id_okD(6)
  by (auto simp: insert_external_def and_then_eq_Inr insert_row_Inr externals_ok_def user_exists_def
      split: if_splits intro!: id_ok_externals)

lemma ok_update_external:
  assumes "id_ok s" "subject_kept k f s"
  shows "id_ok (update_external k f s)"
proof -
  let ?xs = "update_where (\<lambda>x. xi_id x = k) f (is_externals s)"
  have f: "xi_id (f v) = xi_id v" "xi_user_id (f v) = xi_user_id v \<or> user_exists s (xi_user_id (f v))" for v
    using assms(2) by (simp_all add: subject_kept_def)
  have xs: "distinct (map xi_id (is_externals s))" "distinct (map subject_key (is_externals s))"
      "xi_user_id ` set (is_externals s) \<subseteq> uw_id ` set (is_users s)"
    using id_okD(6) [OF assms(1)] by (simp_all add: externals_ok_def)
  have "distinct (map subject_key ?xs)"
  proof (rule distinct_update_where [where k = xi_id and c = k, OF xs(2,1)])
    fix r assume r: "r \<in> set (is_externals s)" "xi_id r = k"
      "subject_key (f r) \<in> subject_key ` set (is_externals s)"
    from assms(2) consider "\<forall>v. subject_key (f v) = subject_key v"
      | x where "x \<in> set (is_externals s)" "xi_id x = k" "subject_key (f x) \<notin> subject_key ` set (is_externals s)"
      unfolding subject_kept_def by blast
    then show "subject_key (f r) = subject_key r"
    proof cases
      case (2 x)
      then have "x = r" using distinct_map_eqD [OF xs(1) 2(1) r(1)] r(2) by simp
      then show ?thesis using 2(3) r(3) by simp
    qed simp
  qed simp
  moreover have "distinct (map xi_id ?xs)" by (simp add: map_key_update_where f(1) xs(1))
  moreover have "xi_user_id ` set ?xs \<subseteq> uw_id ` set (is_users s)"
  proof
    fix u assume "u \<in> xi_user_id ` set ?xs"
    then obtain x where x: "x \<in> set (is_externals s)" "u = xi_user_id x \<or> u = xi_user_id (f x)"
      by (auto elim!: in_update_whereE split: if_splits)
    then have "xi_user_id x \<in> uw_id ` set (is_users s)" using xs(3) by blast
    then show "u \<in> uw_id ` set (is_users s)" using x(2) f(2) [of x] by (auto simp: user_exists_def)
  qed
  ultimately show ?thesis
    using assms(1) unfolding update_external_def by (intro id_ok_externals) (simp_all add: externals_ok_def)
qed

lemma ok_insert_session: "id_ok s \<Longrightarrow> insert_session x s = Inr t \<Longrightarrow> id_ok t"
  using id_okD(3)
  by (auto simp: insert_session_def and_then_eq_Inr insert_row_Inr sessions_ok_def user_exists_def
      split: if_splits intro!: id_ok_sessions)

lemma ok_update_sessions: "id_ok s \<Longrightarrow> keeps_session Q f \<Longrightarrow> id_ok (update_sessions Q f s)"
  using id_okD(3) [of s] unfolding update_sessions_def
  by (intro id_ok_sessions)
    (simp_all add: sessions_ok_def keeps_session_def map_key_update_where update_key_set)

lemma ok_insert_system: "id_ok s \<Longrightarrow> insert_system_binding b s = Inr t \<Longrightarrow> id_ok t"
  using id_okD(4)
  by (auto simp: insert_system_binding_def and_then_eq_Inr insert_row_Inr system_roles_ok_def
      user_exists_def role_exists_def intro!: id_ok_system)

lemma ok_insert_binding: "id_ok s \<Longrightarrow> insert_project_binding b s = Inr t \<Longrightarrow> id_ok t"
  using id_okD(5)
  by (auto simp: insert_project_binding_def and_then_eq_Inr insert_row_Inr project_roles_ok_def
      user_exists_def role_exists_def project_exists_def intro!: id_ok_bindings)

lemma ok_update_bindings:
  "id_ok s \<Longrightarrow> id_ok (s\<lparr>is_system_roles := update_where B (reassign_system a tm) (is_system_roles s)\<rparr>)"
  "id_ok s \<Longrightarrow> id_ok (s\<lparr>is_project_roles := update_where C (reassign_project i) (is_project_roles s)\<rparr>)"
  using id_okD(4,5) [of s]
  by (intro id_ok_system id_ok_bindings; simp add: system_roles_ok_def project_roles_ok_def
      reassign_system_def reassign_project_def map_key_update_where update_key_set)+

lemma ok_filter_bindings:
  "id_ok s \<Longrightarrow> id_ok (s\<lparr>is_system_roles := filter B (is_system_roles s)\<rparr>)"
  "id_ok s \<Longrightarrow> id_ok (s\<lparr>is_project_roles := filter C (is_project_roles s)\<rparr>)"
  using id_okD(4,5) [of s]
  by (intro id_ok_system id_ok_bindings;
      force simp: system_roles_ok_def project_roles_ok_def distinct_map_filter)+

lemma ok_insert_role:
  "id_ok s \<Longrightarrow> rw_id r \<notin> rw_id ` set (is_roles s) \<Longrightarrow> rw_key r \<notin> rw_key ` set (is_roles s) \<Longrightarrow>
    id_ok (s\<lparr>is_roles := is_roles s @ [r]\<rparr>)"
  using id_okD(2) [of s] by (intro id_ok_roles) (auto simp: roles_ok_def)

lemma ok_delete_role:
  assumes "id_ok s" "role_references k s = 0"
  shows "id_ok (s\<lparr>is_roles := filter (\<lambda>r. \<not> (rw_id r = k \<and> \<not> rw_built_in r)) (is_roles s)\<rparr>)"
proof -
  let ?rs = "filter (\<lambda>r. \<not> (rw_id r = k \<and> \<not> rw_built_in r)) (is_roles s)"
  have "roles_ok ?rs" using id_okD(2) [OF assms(1)] by (auto simp: roles_ok_def distinct_map_filter)
  moreover have ids: "x \<in> rw_id ` set ?rs" if "x \<in> rw_id ` set (is_roles s)" "x \<noteq> k" for x using that by auto
  have free: "k \<notin> sb_role_id ` set (is_system_roles s)" "k \<notin> pb_role_id ` set (is_project_roles s)"
    using assms(2) by (auto simp: role_references_def)
  have kept: "A \<subseteq> rw_id ` set ?rs" if "A \<subseteq> rw_id ` set (is_roles s)" "k \<notin> A" for A
  proof
    fix x assume "x \<in> A"
    then show "x \<in> rw_id ` set ?rs" using that by (intro ids) auto
  qed
  have "system_roles_ok (uw_id ` set (is_users s)) (rw_id ` set ?rs) (is_system_roles s)"
    using id_okD(4) [OF assms(1)] kept [OF _ free(1)] unfolding system_roles_ok_def by (elim conjE, intro conjI)
  moreover have "project_roles_ok (uw_id ` set (is_users s)) (rw_id ` set ?rs) (pj_id ` set (is_projects s)) (is_project_roles s)"
    using id_okD(5) [OF assms(1)] kept [OF _ free(2)] unfolding project_roles_ok_def by (elim conjE, intro conjI)
  ultimately show ?thesis using id_okD [OF assms(1)] unfolding id_ok_def Let_def by simp
qed

lemma ok_projects:
  "id_ok s \<Longrightarrow> pj_id p \<notin> pj_id ` set (is_projects s) \<Longrightarrow> pj_slug p \<notin> pj_slug ` set (is_projects s) \<Longrightarrow>
    id_ok (s\<lparr>is_projects := is_projects s @ [p]\<rparr>)"
  "id_ok s \<Longrightarrow> keeps_project v \<Longrightarrow> id_ok (s\<lparr>is_projects := update_where D v (is_projects s)\<rparr>)"
  using id_okD(7) [of s]
  by (intro id_ok_projects; auto simp: projects_ok_def keeps_project_def map_key_update_where update_key_set)+

lemma ok_rest:
  "id_ok s \<Longrightarrow> id_ok (s\<lparr>is_bootstrap_uses := x1\<rparr>)" "id_ok s \<Longrightarrow> id_ok (s\<lparr>is_ldap := x2\<rparr>)"
  "id_ok s \<Longrightarrow> id_ok (s\<lparr>is_audits := x3\<rparr>)"
  by (simp_all add: id_ok_def Let_def)

lemma ensure_roles_ok:
  "ensure_roles ds tm rows = Inr rows' \<Longrightarrow> roles_ok rows \<Longrightarrow>
    roles_ok rows' \<and> rw_id ` set rows \<subseteq> rw_id ` set rows'"
proof (induction ds arbitrary: rows)
  case (Cons d ds)
  show ?case
  proof (cases "bd_id d \<in> rw_id ` set rows")
    case True
    let ?rows = "update_where (\<lambda>r. rw_id r = bd_id d) (refresh_role d tm) rows"
    have "roles_ok ?rows" using Cons.prems(2) by (simp add: roles_ok_def refresh_role_def map_key_update_where)
    moreover have "rw_id ` set ?rows = rw_id ` set rows" by (rule update_key_set) (simp add: refresh_role_def)
    ultimately show ?thesis using Cons.IH [of ?rows] Cons.prems(1) True by simp
  next
    case False
    then have new: "rw_key (built_in_row d tm) \<notin> rw_key ` set rows"
        "ensure_roles ds tm (rows @ [built_in_row d tm]) = Inr rows'"
      using Cons.prems(1) by (auto simp: and_then_eq_Inr insert_row_Inr)
    have "roles_ok (rows @ [built_in_row d tm])"
      using Cons.prems(2) new(1) False by (auto simp: roles_ok_def built_in_row_def)
    then show ?thesis using Cons.IH [OF new(2)] by auto
  qed
qed simp

lemma role_update_keys: "rw_id (role_update i r) = rw_id r" "rw_key (role_update i r) = rw_key r"
  by (simp_all add: role_update_def)

interpretation tables: id_invariant id_ok
proof unfold_locales
  show "id_ok t" if "id_ok s" "ensureBuiltInRoles (builtInRoleDefinitions texts) tm s = (re, t)" for s texts tm re t
    using that(2)
  proof (cases rule: ensure_cases)
    case (2 rows)
    then show ?thesis using ensure_roles_ok [OF 2(1)] id_okD(2) [OF that(1)] that(1) by (auto intro: id_ok_roles)
  qed (use that in simp)
  show "id_ok t" if "id_ok s" "updateUserStatus us st tm s = (ru, t)" for s us st tm ru t
    using that(2)
  proof (cases rule: status_cases)
    case 2
    then show ?thesis using that(1)
      by (auto intro!: ok_update_user simp: status_update_def Let_def name_kept_def)
  qed (use that in simp)
  show "id_ok t" if "id_ok s" "updateRole ri s = (rr, t)" for s ri rr t
    using that(2)
  proof (cases rule: role_cases)
    case (2 x)
    then show ?thesis using that(1) id_okD(2) [OF that(1)]
      by (auto intro!: id_ok_roles simp: roles_ok_def role_update_keys map_key_update_where update_key_set)
  qed (use that in simp)
  show "id_ok t" if "id_ok s" "removeSystemRole ur kr s = (rb, t)" for s ur kr rb t
    using that(2) by (cases rule: remove_cases) (use that(1) ok_filter_bindings in simp_all)
  show "id_ok (update_user k f s)" if "id_ok s" "keeps_user f" "name_kept k f s" for s f k
    using ok_update_user [OF that(1) _ that(3)] that(2) by (simp add: keeps_user_def)
qed (fact ok_insert_user ok_insert_external ok_update_external ok_insert_session ok_update_sessions
    ok_insert_system ok_insert_binding ok_update_bindings ok_filter_bindings ok_insert_role ok_delete_role
    ok_projects ok_rest)+

section \<open>Revoked sessions\<close>

definition session_revoked :: "string \<Rightarrow> id_store \<Rightarrow> bool" where
  "session_revoked h s \<longleftrightarrow> list_ex (\<lambda>x. sw_token_hash x = h \<and> sw_revoked_at x \<noteq> None) (is_sessions s)"

lemma session_revoked_same: "is_sessions t = is_sessions s \<Longrightarrow> session_revoked h s \<Longrightarrow> session_revoked h t"
  by (simp add: session_revoked_def)

lemma sessions_frame:
  "insert_user u s = Inr t \<Longrightarrow> is_sessions t = is_sessions s"
  "is_sessions (update_user k f s) = is_sessions s"
  "insert_external x s = Inr t \<Longrightarrow> is_sessions t = is_sessions s"
  "is_sessions (update_external k g s) = is_sessions s"
  "insert_system_binding b s = Inr t \<Longrightarrow> is_sessions t = is_sessions s"
  "insert_project_binding c s = Inr t \<Longrightarrow> is_sessions t = is_sessions s"
  "ensureBuiltInRoles ds tm s = (re, t) \<Longrightarrow> is_sessions t = is_sessions s"
  "updateUserStatus us st tm s = (ru, t) \<Longrightarrow> is_sessions t = is_sessions s"
  "updateRole ri s = (rr, t) \<Longrightarrow> is_sessions t = is_sessions s"
  "removeSystemRole ur kr s = (rb, t) \<Longrightarrow> is_sessions t = is_sessions s"
  by (auto simp: insert_user_def update_user_def insert_external_def update_external_def
      insert_system_binding_def insert_project_binding_def and_then_eq_Inr split: if_splits
      elim!: ensure_cases status_cases role_cases remove_cases)

lemma session_revoked_insert: "insert_session x s = Inr t \<Longrightarrow> session_revoked h s \<Longrightarrow> session_revoked h t"
  by (auto simp: insert_session_def and_then_eq_Inr insert_row_Inr session_revoked_def split: if_splits)

lemma session_revoked_update:
  assumes "session_revoked h s" "keeps_session Q f"
  shows "session_revoked h (update_sessions Q f s)"
proof -
  obtain x where x: "x \<in> set (is_sessions s)" "sw_token_hash x = h" "sw_revoked_at x \<noteq> None"
    using assms(1) by (auto simp: session_revoked_def list_ex_iff)
  then have "(if Q x then f x else x) \<in> set (is_sessions (update_sessions Q f s))"
    using update_where_memI [of x "is_sessions s" Q f] by (simp add: update_sessions_def)
  moreover have "sw_token_hash (if Q x then f x else x) = h \<and> sw_revoked_at (if Q x then f x else x) \<noteq> None"
    using assms(2) x(2,3) by (simp add: keeps_session_def)
  ultimately show ?thesis unfolding session_revoked_def list_ex_iff by blast
qed

interpretation revoked: id_invariant "session_revoked h" for h
proof unfold_locales
  show "session_revoked h t" if "session_revoked h s" "insert_session y s = Inr t" for s y t
    by (rule session_revoked_insert [OF that(2,1)])
  show "session_revoked h (update_sessions Q f s)" if "session_revoked h s" "keeps_session Q f" for s Q f
    by (rule session_revoked_update [OF that])
qed (auto simp: session_revoked_def sessions_frame(2,4) dest!: sessions_frame(1,3,5-10))

lemma revoked_unresolved:
  assumes "id_ok s" "session_revoked h s"
  shows "resolveSession h now s = None"
proof -
  obtain x where x: "x \<in> set (is_sessions s)" "sw_token_hash x = h" "sw_revoked_at x \<noteq> None"
    using assms(2) by (auto simp: session_revoked_def list_ex_iff)
  have d: "distinct (map sw_token_hash (is_sessions s))" using id_okD(3) [OF assms(1)] by (simp add: sessions_ok_def)
  have "y = x" if "y \<in> set (is_sessions s)" "sw_token_hash y = h" for y
    using distinct_map_eqD [OF d that(1) x(1)] that(2) x(2) by simp
  then have "find (\<lambda>x. sw_token_hash x = h \<and> session_open now x) (is_sessions s) = None"
    using x(3) by (auto simp: find_None_iff session_open_def)
  then show ?thesis by (simp add: resolveSession_def)
qed

text \<open>A session that was revoked is never resolved again.\<close>

lemma revoked_stay_unresolved:
  assumes "id_step\<^sup>*\<^sup>* s t" "id_ok s" "session_revoked h s"
  shows "resolveSession h now t = None"
  by (rule revoked_unresolved [OF tables.steps [OF assms(1,2)] revoked.steps [OF assms(1,3)]])

section \<open>The last administrator\<close>

definition built_in_core :: "(ident \<times> role_scope \<times> permission list) list" where
  "built_in_core = map (\<lambda>d. (bd_id d, bd_scope d, bd_permissions d)) (builtInRoleDefinitions (\<lambda>k. ([], [])))"

text \<open>The built-in roles are there as the domain defines them.\<close>

definition installed :: "id_store \<Rightarrow> bool" where
  "installed s \<longleftrightarrow> list_all (\<lambda>(k, scope, ps).
     (case row_by rw_id k (is_roles s) of
        None \<Rightarrow> False
      | Some r \<Rightarrow> rw_built_in r \<and> rw_active r \<and> rw_scope r = scope \<and> rw_permissions r = ps)) built_in_core"

definition same_role :: "role_row \<Rightarrow> role_row \<Rightarrow> bool" where
  "same_role r r' \<longleftrightarrow> rw_built_in r' = rw_built_in r \<and> rw_active r' = rw_active r \<and>
     rw_scope r' = rw_scope r \<and> rw_permissions r' = rw_permissions r"

lemma built_in_core_texts:
  assumes "d \<in> set (builtInRoleDefinitions texts)"
  shows "(bd_id d, bd_scope d, bd_permissions d) \<in> set built_in_core"
proof -
  have core: "built_in_core = map (\<lambda>d. (bd_id d, bd_scope d, bd_permissions d)) (builtInRoleDefinitions texts)"
    unfolding built_in_core_def builtInRoleDefinitions_def map_map
    by (rule map_cong [OF refl]) (simp split: prod.splits)
  show ?thesis unfolding core set_map by (rule imageI [OF assms])
qed

lemma installedD:
  "installed s \<Longrightarrow> (k, scope, ps) \<in> set built_in_core \<Longrightarrow>
     \<exists>r. row_by rw_id k (is_roles s) = Some r \<and> rw_built_in r \<and> rw_active r \<and> rw_scope r = scope \<and> rw_permissions r = ps"
  by (fastforce simp: installed_def list_all_iff split: option.splits)

text \<open>Rows of roles that keep what they mean.\<close>

definition roles_kept :: "id_store \<Rightarrow> id_store \<Rightarrow> bool" where
  "roles_kept s t \<longleftrightarrow> (\<forall>k r. row_by rw_id k (is_roles s) = Some r \<longrightarrow>
     (\<exists>r'. row_by rw_id k (is_roles t) = Some r' \<and> same_role r r'))"

lemma roles_kept_same: "is_roles t = is_roles s \<Longrightarrow> roles_kept s t"
  by (simp add: roles_kept_def same_role_def)

lemma installed_kept: "installed s \<Longrightarrow> roles_kept s t \<Longrightarrow> installed t"
  unfolding installed_def list_all_iff roles_kept_def same_role_def
  by (fastforce split: option.splits)

text \<open>Installing what is installed changes names and times only.\<close>

lemma ensure_roles_kept:
  assumes "\<And>d. d \<in> set ds \<Longrightarrow> \<exists>r. row_by rw_id (bd_id d) rows = Some r \<and> rw_built_in r \<and> rw_active r \<and>
      rw_scope r = bd_scope d \<and> rw_permissions r = bd_permissions d"
    "ensure_roles ds tm rows = Inr rows'"
  shows "row_by rw_id k rows = Some r \<Longrightarrow> \<exists>r'. row_by rw_id k rows' = Some r' \<and> same_role r r'"
  using assms
proof (induction ds arbitrary: rows r)
  case (Cons d ds)
  let ?rows = "update_where (\<lambda>r. rw_id r = bd_id d) (refresh_role d tm) rows"
  obtain q where q: "row_by rw_id (bd_id d) rows = Some q" "rw_built_in q" "rw_active q"
      "rw_scope q = bd_scope d" "rw_permissions q = bd_permissions d"
    using Cons.prems(2) [of d] by auto
  have rest: "ensure_roles ds tm ?rows = Inr rows'"
    using Cons.prems(3) row_by_SomeD [OF q(1)] imageI [of q "set rows" rw_id] by simp
  have row: "\<exists>y. row_by rw_id j ?rows = Some y \<and> same_role x y" if "row_by rw_id j rows = Some x" for j x
  proof (cases "j = bd_id d")
    case True
    then have "x = q" using that q(1) by simp
    moreover have "row_by rw_id j ?rows = Some (refresh_role d tm x)"
      using that True row_by_SomeD [OF that] by (simp add: row_by_update refresh_role_def)
    ultimately show ?thesis using q by (simp add: same_role_def refresh_role_def)
  next
    case False
    then have "row_by rw_id j ?rows = Some x"
      using that row_by_SomeD [OF that] by (simp add: row_by_update refresh_role_def)
    then show ?thesis by (simp add: same_role_def)
  qed
  have still: "\<exists>r. row_by rw_id (bd_id e) ?rows = Some r \<and> rw_built_in r \<and> rw_active r \<and>
      rw_scope r = bd_scope e \<and> rw_permissions r = bd_permissions e" if e: "e \<in> set ds" for e
  proof -
    obtain x where "row_by rw_id (bd_id e) rows = Some x" "rw_built_in x" "rw_active x"
        "rw_scope x = bd_scope e" "rw_permissions x = bd_permissions e"
      using Cons.prems(2) [of e, OF list.set_intros(2) [OF e]] by blast
    then show ?thesis using row [of "bd_id e" x] by (auto simp: same_role_def)
  qed
  obtain y where y: "row_by rw_id k ?rows = Some y" "same_role r y" using row [OF Cons.prems(1)] by blast
  obtain z where "row_by rw_id k rows' = Some z" "same_role y z"
    using Cons.IH [OF y(1) still rest] by blast
  then show ?case using y(2) by (auto simp: same_role_def)
qed (simp add: same_role_def)

lemma ensure_kept:
  assumes "installed s" "ensureBuiltInRoles (builtInRoleDefinitions texts) tm s = (re, t)"
  shows "roles_kept s t \<and> is_users t = is_users s \<and> is_system_roles t = is_system_roles s"
  using assms(2)
proof (cases rule: ensure_cases)
  case (2 rows)
  have "\<exists>r. row_by rw_id (bd_id d) (is_roles s) = Some r \<and> rw_built_in r \<and> rw_active r \<and>
      rw_scope r = bd_scope d \<and> rw_permissions r = bd_permissions d"
    if "d \<in> set (builtInRoleDefinitions texts)" for d
    using installedD [OF assms(1) built_in_core_texts [OF that]] by simp
  then show ?thesis using ensure_roles_kept [OF _ 2(1)] 2(2) by (simp add: roles_kept_def)
qed (simp add: roles_kept_same)

lemma installed_ensured:
  assumes "ensureBuiltInRoles (builtInRoleDefinitions texts) tm s = (re, t)" "installed s"
  shows "installed t"
  using ensure_kept [OF assms(2,1)] installed_kept [OF assms(2)] by blast

subsection \<open>Who administers\<close>

lemma in_map_filter: "y \<in> set (List.map_filter f xs) \<longleftrightarrow> (\<exists>x\<in>set xs. f x = Some y)"
  by (force simp: List.map_filter_def image_iff)

lemma effective_role_Some:
  "effective_role scope k s = Some r \<longleftrightarrow> row_by rw_id k (is_roles s) = Some r \<and> rw_active r \<and> rw_scope r = scope"
  by (auto simp: effective_role_def split: option.splits if_splits)

lemma in_activeSystemBindings:
  "v \<in> set (activeSystemBindings s) \<longleftrightarrow>
     (\<exists>b\<in>set (is_system_roles s). \<exists>r u. effective_role System_Scope (sb_role_id b) s = Some r \<and>
        row_by uw_id (sb_user_id b) (is_users s) = Some u \<and> uw_status u = User_Active \<and>
        v = \<lparr>bv_user_id = sb_user_id b, bv_role_id = sb_role_id b,
             bv_permissions = parsePermissions (rw_permissions r)\<rparr>)"
  unfolding activeSystemBindings_def in_map_filter
  by (intro bex_cong [OF refl]) (auto split: option.splits if_splits)

definition users_stay :: "id_store \<Rightarrow> id_store \<Rightarrow> bool" where
  "users_stay s t \<longleftrightarrow> (\<forall>k u. row_by uw_id k (is_users s) = Some u \<longrightarrow> uw_status u = User_Active \<longrightarrow>
     (\<exists>v. row_by uw_id k (is_users t) = Some v \<and> uw_status v = User_Active))"

definition bindings_stay :: "id_store \<Rightarrow> id_store \<Rightarrow> bool" where
  "bindings_stay s t \<longleftrightarrow> (\<forall>b\<in>set (is_system_roles s). \<exists>c\<in>set (is_system_roles t).
     sb_user_id c = sb_user_id b \<and> sb_role_id c = sb_role_id b)"

definition bound_roles_kept :: "id_store \<Rightarrow> id_store \<Rightarrow> bool" where
  "bound_roles_kept s t \<longleftrightarrow> (\<forall>b\<in>set (is_system_roles s). \<forall>r. row_by rw_id (sb_role_id b) (is_roles s) = Some r \<longrightarrow>
     (\<exists>r'. row_by rw_id (sb_role_id b) (is_roles t) = Some r' \<and> same_role r r'))"

lemma bound_roles_keptI: "roles_kept s t \<Longrightarrow> bound_roles_kept s t"
  by (simp add: roles_kept_def bound_roles_kept_def)

text \<open>Where users, bindings and the bound roles stay, the administrators stay.\<close>

lemma recoverable_mono:
  assumes "recoverable s" "users_stay s t" "bindings_stay s t" "bound_roles_kept s t"
  shows "recoverable t"
proof -
  obtain u where u: "recovery_user (activeSystemBindings s) u"
    using assms(1) by (auto simp: recoverable_def countRecoveryAdministrators_def countSystemAdministrators_pos)
  have "\<exists>v\<in>set (activeSystemBindings t). bv_user_id v = u \<and> p \<in> set (bv_permissions v)"
    if p: "p \<in> set administratorRecoveryPermissions" for p
  proof -
    obtain b r w where b: "b \<in> set (is_system_roles s)" "effective_role System_Scope (sb_role_id b) s = Some r"
        "row_by uw_id (sb_user_id b) (is_users s) = Some w" "uw_status w = User_Active"
        "sb_user_id b = u" "p \<in> set (parsePermissions (rw_permissions r))"
      using u p unfolding recovery_user_def in_activeSystemBindings Bex_def by auto
    obtain c where c: "c \<in> set (is_system_roles t)" "sb_user_id c = sb_user_id b" "sb_role_id c = sb_role_id b"
      using assms(3) b(1) unfolding bindings_stay_def by blast
    obtain v where v: "row_by uw_id (sb_user_id c) (is_users t) = Some v" "uw_status v = User_Active"
      using assms(2) b(3,4) c(2) unfolding users_stay_def by metis
    obtain r' where "row_by rw_id (sb_role_id c) (is_roles t) = Some r'" "same_role r r'"
      using assms(4) b(1,2) c(3) unfolding bound_roles_kept_def effective_role_Some by metis
    then have r': "effective_role System_Scope (sb_role_id c) t = Some r'" "rw_permissions r' = rw_permissions r"
      using b(2) unfolding effective_role_Some same_role_def by auto
    define x where "x = \<lparr>bv_user_id = sb_user_id c, bv_role_id = sb_role_id c,
             bv_permissions = parsePermissions (rw_permissions r')\<rparr>"
    have "x \<in> set (activeSystemBindings t)"
      unfolding in_activeSystemBindings using c(1) r'(1) v x_def by blast
    moreover have "bv_user_id x = u" "p \<in> set (bv_permissions x)" using c(2) b(5,6) r'(2) by (simp_all add: x_def)
    ultimately show ?thesis by blast
  qed
  then have "recovery_user (activeSystemBindings t) u" by (simp add: recovery_user_def)
  then show ?thesis
    by (auto simp: recoverable_def countRecoveryAdministrators_def countSystemAdministrators_pos)
qed

lemma stay_refl: "is_users t = is_users s \<Longrightarrow> users_stay s t"
  "is_system_roles t = is_system_roles s \<Longrightarrow> bindings_stay s t"
  by (auto simp: users_stay_def bindings_stay_def)

definition administered :: "id_store \<Rightarrow> bool" where
  "administered s \<longleftrightarrow> installed s \<and> recoverable s"

lemma administered_mono:
  "administered s \<Longrightarrow> users_stay s t \<Longrightarrow> bindings_stay s t \<Longrightarrow> roles_kept s t \<Longrightarrow> administered t"
  by (auto simp: administered_def intro: recoverable_mono installed_kept bound_roles_keptI)

lemma administered_same:
  "is_users t = is_users s \<Longrightarrow> is_system_roles t = is_system_roles s \<Longrightarrow> is_roles t = is_roles s \<Longrightarrow>
    administered s \<Longrightarrow> administered t"
  by (rule administered_mono [OF _ stay_refl roles_kept_same])

lemma administered_users:
  "users_stay s t \<Longrightarrow> is_system_roles t = is_system_roles s \<Longrightarrow> is_roles t = is_roles s \<Longrightarrow>
    administered s \<Longrightarrow> administered t"
  by (rule administered_mono [OF _ _ stay_refl(2) roles_kept_same])

lemma update_user_stay: "keeps_user f \<Longrightarrow> users_stay s (update_user k f s)"
  by (auto simp: users_stay_def update_user_def row_by_update keeps_user_def)

lemma insert_user_stay: "insert_user u s = Inr t \<Longrightarrow> users_stay s t"
  by (auto simp: insert_user_def and_then_eq_Inr insert_row_Inr users_stay_def row_by_append split: if_splits)

text \<open>A role that is no built-in one can change or go: the built-in ones stay.\<close>

lemma installed_other:
  assumes "installed s" "row_by rw_id k (is_roles s) = Some x" "\<not> rw_built_in x"
    "\<And>j. j \<noteq> k \<Longrightarrow> row_by rw_id j (is_roles t) = row_by rw_id j (is_roles s)"
  shows "installed t"
  unfolding installed_def list_all_iff
proof (intro ballI, clarify)
  fix j scope ps assume core: "(j, scope, ps) \<in> set built_in_core"
  from installedD [OF assms(1) core] obtain r where r: "row_by rw_id j (is_roles s) = Some r" "rw_built_in r"
      "rw_active r \<and> rw_scope r = scope \<and> rw_permissions r = ps" by blast
  then have "j \<noteq> k" using assms(2,3) by auto
  then show "case row_by rw_id j (is_roles t) of None \<Rightarrow> False
      | Some r \<Rightarrow> rw_built_in r \<and> rw_active r \<and> rw_scope r = scope \<and> rw_permissions r = ps"
    using assms(4) [of j] r by simp
qed

lemma row_by_filter: "(\<And>r. r \<in> set rows \<Longrightarrow> key r = j \<Longrightarrow> Q r) \<Longrightarrow> row_by key j (filter Q rows) = row_by key j rows"
  by (induction rows) (auto simp: row_by_def)

lemma row_by_filter_Some: "row_by key j rows = Some r \<Longrightarrow> Q r \<Longrightarrow> row_by key j (filter Q rows) = Some r"
  by (induction rows) (auto simp: row_by_def split: if_splits)

lemma administered_delete:
  assumes "administered s" "role_references k s = 0"
  shows "administered (s\<lparr>is_roles := filter (\<lambda>r. \<not> (rw_id r = k \<and> \<not> rw_built_in r)) (is_roles s)\<rparr>)"
    (is "administered ?t")
proof -
  have "installed ?t" unfolding installed_def list_all_iff
  proof (intro ballI, clarify)
    fix j scope ps assume "(j, scope, ps) \<in> set built_in_core"
    then obtain r where r: "row_by rw_id j (is_roles s) = Some r" "rw_built_in r"
        "rw_active r \<and> rw_scope r = scope \<and> rw_permissions r = ps"
      using installedD [of s j scope ps] assms(1) unfolding administered_def by blast
    have "row_by rw_id j (is_roles ?t) = Some r" using row_by_filter_Some [OF r(1)] r(2) by simp
    then show "case row_by rw_id j (is_roles ?t) of None \<Rightarrow> False
        | Some r \<Rightarrow> rw_built_in r \<and> rw_active r \<and> rw_scope r = scope \<and> rw_permissions r = ps"
      using r by (simp only: option.case simp_thms)
  qed
  moreover have "bound_roles_kept s ?t" unfolding bound_roles_kept_def
  proof (intro ballI allI impI)
    fix b r assume b: "b \<in> set (is_system_roles s)" "row_by rw_id (sb_role_id b) (is_roles s) = Some r"
    have "sb_role_id b \<noteq> k" using assms(2) b(1) by (auto simp: role_references_def)
    then have "row_by rw_id (sb_role_id b) (is_roles ?t) = Some r"
      using row_by_filter_Some [OF b(2)] row_by_SomeD [OF b(2)] by simp
    then show "\<exists>r'. row_by rw_id (sb_role_id b) (is_roles ?t) = Some r' \<and> same_role r r'"
      by (simp add: same_role_def)
  qed
  ultimately show ?thesis
    using assms(1) recoverable_mono [of s ?t] stay_refl [of ?t s] by (simp add: administered_def)
qed

lemma administered_role:
  assumes "administered s"
  shows "administered (s\<lparr>is_roles := is_roles s @ [r]\<rparr>)"
  by (rule administered_mono [OF assms])
    (simp_all add: stay_refl roles_kept_def row_by_append same_role_def)

lemma administered_system:
  "administered s \<Longrightarrow> insert_system_binding b s = Inr t \<Longrightarrow> administered t"
  "administered s \<Longrightarrow> administered (s\<lparr>is_system_roles := update_where B (reassign_system a tm) (is_system_roles s)\<rparr>)"
proof -
  assume s: "administered s"
  show "administered t" if "insert_system_binding b s = Inr t"
    using that
    by (intro administered_mono [OF s])
      (auto simp: insert_system_binding_def and_then_eq_Inr insert_row_Inr bindings_stay_def stay_refl roles_kept_same)
  have "bindings_stay s (s\<lparr>is_system_roles := update_where B (reassign_system a tm) (is_system_roles s)\<rparr>)"
    unfolding bindings_stay_def
  proof
    fix b assume "b \<in> set (is_system_roles s)"
    from update_where_memI [OF this, of B "reassign_system a tm"]
    show "\<exists>c\<in>set (is_system_roles (s\<lparr>is_system_roles := update_where B (reassign_system a tm) (is_system_roles s)\<rparr>)).
        sb_user_id c = sb_user_id b \<and> sb_role_id c = sb_role_id b"
      by (intro bexI [of _ "if B b then reassign_system a tm b else b"]) (simp_all add: reassign_system_def)
  qed
  then show "administered (s\<lparr>is_system_roles := update_where B (reassign_system a tm) (is_system_roles s)\<rparr>)"
    by (intro administered_mono [OF s]) (simp_all add: stay_refl roles_kept_same)
qed

lemma administered_other:
  "insert_external x s = Inr t \<Longrightarrow> administered s \<Longrightarrow> administered t"
  "insert_session y s = Inr t \<Longrightarrow> administered s \<Longrightarrow> administered t"
  "insert_project_binding c s = Inr t \<Longrightarrow> administered s \<Longrightarrow> administered t"
  by (auto simp: insert_external_def insert_session_def insert_project_binding_def and_then_eq_Inr
      split: if_splits intro: administered_same)

lemma administered_insert_user: "insert_user u s = Inr t \<Longrightarrow> administered s \<Longrightarrow> administered t"
  by (rule administered_users [OF insert_user_stay])
    (auto simp: insert_user_def and_then_eq_Inr split: if_splits)

interpretation administration: id_invariant administered
proof unfold_locales
  show "administered t" if "administered s" "insert_user u s = Inr t" for s u t
    by (rule administered_insert_user [OF that(2,1)])
  show "administered (update_user k f s)" if "administered s" "keeps_user f" "name_kept k f s" for s f k
    using that(1) by (rule administered_users [OF update_user_stay [OF that(2)], rotated 2])
      (simp_all add: update_user_def)
  show "administered t" if "administered s" "insert_external x s = Inr t" for s x t
    by (rule administered_other(1) [OF that(2,1)])
  show "administered t" if "administered s" "insert_session y s = Inr t" for s y t
    by (rule administered_other(2) [OF that(2,1)])
  show "administered t" if "administered s" "insert_project_binding c s = Inr t" for s c t
    by (rule administered_other(3) [OF that(2,1)])
  show "administered t" if "administered s" "insert_system_binding b s = Inr t" for s b t
    by (rule administered_system(1) [OF that])
  show "administered (s\<lparr>is_system_roles := update_where B (reassign_system a tm) (is_system_roles s)\<rparr>)"
    if "administered s" for s B a tm by (rule administered_system(2) [OF that])
  show "administered (s\<lparr>is_roles := is_roles s @ [r]\<rparr>)" if "administered s" for s r
    by (rule administered_role [OF that])
  show "administered (s\<lparr>is_roles := filter (\<lambda>r. \<not> (rw_id r = kd \<and> \<not> rw_built_in r)) (is_roles s)\<rparr>)"
    if "administered s" "role_references kd s = 0" for s kd by (rule administered_delete [OF that])
  show "administered t" if "administered s" "ensureBuiltInRoles (builtInRoleDefinitions texts) tm s = (re, t)"
    for s texts tm re t
    using ensure_kept [OF _ that(2)] that(1) administered_mono [of s t] stay_refl [of t s]
    by (simp add: administered_def)
  show "administered t" if "administered s" "updateUserStatus us st tm s = (ru, t)" for s us st tm ru t
    using that(2)
  proof (cases rule: status_cases)
    case 2
    have "installed t" using that(1) 2(1) installed_kept [of s t] roles_kept_same [of t s]
      by (simp add: administered_def update_user_def)
    then show ?thesis using that(1) 2(2) by (simp add: administered_def)
  qed (use that in simp)
  show "administered t" if "administered s" "updateRole ri s = (rr, t)" for s ri rr t
    using that(2)
  proof (cases rule: role_cases)
    case (2 x)
    have "row_by rw_id j (is_roles t) = row_by rw_id j (is_roles s)" if "j \<noteq> oi_id ri" for j
      using that 2(3) row_by_SomeD [of rw_id j "is_roles s"]
      by (cases "row_by rw_id j (is_roles s)") (auto simp: row_by_update role_update_keys)
    then have "installed t" using installed_other [OF _ 2(1,2)] that(1) by (simp add: administered_def)
    then show ?thesis using that(1) 2(4) by (simp add: administered_def)
  qed (use that in simp)
  show "administered t" if "administered s" "removeSystemRole ur kr s = (rb, t)" for s ur kr rb t
    using that(2)
  proof (cases rule: remove_cases)
    case (2 B)
    have "installed t" using that(1) 2(1) installed_kept [of s t] roles_kept_same [of t s]
      by (simp add: administered_def)
    then show ?thesis using that(1) 2(2) by (simp add: administered_def)
  qed (use that in simp)
qed (rule administered_same; simp add: update_external_def update_sessions_def)+

section \<open>What a session may do\<close>

text \<open>
  The permissions of a user read off the tables: the role of a system binding gives its permissions in
  every project, the role of a project binding gives those that are not for the system only.
\<close>

definition granted :: "id_store \<Rightarrow> ident \<Rightarrow> permission \<Rightarrow> ident \<Rightarrow> bool" where
  "granted s userId p projectId \<longleftrightarrow> isPermission p \<and>
     ((\<exists>b\<in>set (is_system_roles s). sb_user_id b = userId \<and>
         (\<exists>r. effective_role System_Scope (sb_role_id b) s = Some r \<and> p \<in> set (rw_permissions r))) \<or>
      p \<notin> set systemOnlyPermissions \<and>
      (\<exists>b\<in>set (is_project_roles s). pb_user_id b = userId \<and> pb_project_id b = projectId \<and>
         (\<exists>r. effective_role Project_Scope (pb_role_id b) s = Some r \<and> p \<in> set (rw_permissions r))))"

lemma set_parsePermissions [simp]: "set (parsePermissions ps) = {p \<in> set ps. isPermission p}"
  by (auto simp: parsePermissions_def)

lemma set_mergePermissions [simp]: "set (mergePermissions a b) = set a \<union> set b"
  by (simp add: mergePermissions_def)

lemma in_system_permissions:
  "p \<in> set (system_permissions u s) \<longleftrightarrow> isPermission p \<and>
     (\<exists>b\<in>set (is_system_roles s). sb_user_id b = u \<and>
        (\<exists>r. effective_role System_Scope (sb_role_id b) s = Some r \<and> p \<in> set (rw_permissions r)))"
proof -
  have "p \<in> set (system_permissions u s) \<longleftrightarrow> (\<exists>ps\<in>set (List.map_filter
      (\<lambda>b. map_option (\<lambda>r. parsePermissions (rw_permissions r)) (effective_role System_Scope (sb_role_id b) s))
      (filter (\<lambda>b. sb_user_id b = u) (is_system_roles s))). p \<in> set ps)"
    by (simp add: system_permissions_def)
  then show ?thesis unfolding Bex_def in_map_filter by (fastforce simp: Bex_def)
qed

lemma in_project_rows:
  "(k, ps) \<in> set (project_rows u s) \<longleftrightarrow>
     (\<exists>b\<in>set (is_project_roles s). pb_user_id b = u \<and> pb_project_id b = k \<and>
        (\<exists>r. effective_role Project_Scope (pb_role_id b) s = Some r \<and> ps = parsePermissions (rw_permissions r)))"
  by (auto simp: project_rows_def in_map_filter)

lemma merge_rows_table:
  "distinct (map fst m) \<Longrightarrow>
   distinct (map fst (fold merge_row rows m)) \<and>
   (\<forall>k. (case map_of (fold merge_row rows m) k of None \<Rightarrow> {} | Some ps \<Rightarrow> set ps) =
      (case map_of m k of None \<Rightarrow> {} | Some ps \<Rightarrow> set ps) \<union> (\<Union>(j, ps)\<in>{r \<in> set rows. fst r = k}. set ps))"
proof (induction rows arbitrary: m)
  case (Cons r rows)
  let ?m = "merge_row r m"
  have "distinct (map fst ?m)" using Cons.prems by (simp add: merge_row_def distinct_update)
  moreover have "(case map_of ?m k of None \<Rightarrow> {} | Some ps \<Rightarrow> set ps) =
      (case map_of m k of None \<Rightarrow> {} | Some ps \<Rightarrow> set ps) \<union> (if fst r = k then set (snd r) else {})" for k
    by (auto simp: merge_row_def update_conv' split: option.splits)
  ultimately show ?case using Cons.IH [of ?m] by (cases r) (auto split: if_splits)
qed simp

lemma project_permissions_table:
  "distinct (map fst (fold merge_row (project_rows u s) []))"
  "(case map_of (fold merge_row (project_rows u s) []) k of None \<Rightarrow> False | Some ps \<Rightarrow> p \<in> set ps) \<longleftrightarrow>
     isPermission p \<and> (\<exists>b\<in>set (is_project_roles s). pb_user_id b = u \<and> pb_project_id b = k \<and>
        (\<exists>r. effective_role Project_Scope (pb_role_id b) s = Some r \<and> p \<in> set (rw_permissions r)))"
proof -
  note t = merge_rows_table [of "[]" "project_rows u s"]
  show "distinct (map fst (fold merge_row (project_rows u s) []))" using t by simp
  have "(case map_of (fold merge_row (project_rows u s) []) k of None \<Rightarrow> {} | Some ps \<Rightarrow> set ps) =
      (\<Union>(j, ps)\<in>{r \<in> set (project_rows u s). fst r = k}. set ps)" using t by simp
  then have "(case map_of (fold merge_row (project_rows u s) []) k of None \<Rightarrow> False | Some ps \<Rightarrow> p \<in> set ps) \<longleftrightarrow>
      (\<exists>ps. (k, ps) \<in> set (project_rows u s) \<and> p \<in> set ps)"
    by (auto split: option.splits)
  also have "\<dots> \<longleftrightarrow> (\<exists>b\<in>set (is_project_roles s). pb_user_id b = u \<and> pb_project_id b = k \<and>
        (\<exists>r. effective_role Project_Scope (pb_role_id b) s = Some r \<and> p \<in> set (parsePermissions (rw_permissions r))))"
    unfolding in_project_rows by blast
  also have "\<dots> \<longleftrightarrow> isPermission p \<and> (\<exists>b\<in>set (is_project_roles s). pb_user_id b = u \<and> pb_project_id b = k \<and>
        (\<exists>r. effective_role Project_Scope (pb_role_id b) s = Some r \<and> p \<in> set (rw_permissions r)))"
    unfolding set_parsePermissions mem_Collect_eq by blast
  finally show "(case map_of (fold merge_row (project_rows u s) []) k of None \<Rightarrow> False | Some ps \<Rightarrow> p \<in> set ps) \<longleftrightarrow>
     isPermission p \<and> (\<exists>b\<in>set (is_project_roles s). pb_user_id b = u \<and> pb_project_id b = k \<and>
        (\<exists>r. effective_role Project_Scope (pb_role_id b) s = Some r \<and> p \<in> set (rw_permissions r)))" .
qed

lemma resolved_user:
  assumes "resolveSession h now s = Some i"
  obtains x u where "x \<in> set (is_sessions s)" "sw_token_hash x = h" "session_open now x"
    "row_by uw_id (sw_user_id x) (is_users s) = Some u" "uw_status u = User_Active"
    "i = \<lparr>ai_user = mapUser u, ai_session_id = sw_id x, ai_system_permissions = system_permissions (uw_id u) s,
      ai_project_permissions = fold merge_row (project_rows (uw_id u) s) []\<rparr>"
proof -
  from assms obtain x where x: "find (\<lambda>x. sw_token_hash x = h \<and> session_open now x) (is_sessions s) = Some x"
    by (auto simp: resolveSession_def split: option.splits)
  obtain u where "row_by uw_id (sw_user_id x) (is_users s) = Some u"
    using assms x by (cases "row_by uw_id (sw_user_id x) (is_users s)") (simp_all add: resolveSession_def)
  with assms x have "uw_status u = User_Active"
      "i = \<lparr>ai_user = mapUser u, ai_session_id = sw_id x, ai_system_permissions = system_permissions (uw_id u) s,
        ai_project_permissions = fold merge_row (project_rows (uw_id u) s) []\<rparr>"
    by (simp_all add: resolveSession_def split: if_splits)
  with \<open>row_by uw_id (sw_user_id x) (is_users s) = Some u\<close> show thesis using that find_SomeD [OF x] by blast
qed

text \<open>
  A resolved session belongs to an active user, is neither revoked nor over, and has exactly the
  granted permissions, asked for in a project or listed as the projects of a permission.
\<close>

lemma resolved_session_permissions:
  assumes "resolveSession h now s = Some i" "k \<noteq> []"
  shows "hasPermission i p (Some k) \<longleftrightarrow> granted s (ur_id (ai_user i)) p k"
    and "hasPermission i p (Some k) \<longleftrightarrow>
      (case projectIdsForPermission i p of None \<Rightarrow> True | Some ks \<Rightarrow> k \<in> set ks)"
proof -
  obtain x u where "x \<in> set (is_sessions s)" "sw_token_hash x = h" "session_open now x"
      "row_by uw_id (sw_user_id x) (is_users s) = Some u" "uw_status u = User_Active"
      and i: "i = \<lparr>ai_user = mapUser u, ai_session_id = sw_id x,
      ai_system_permissions = system_permissions (uw_id u) s,
      ai_project_permissions = fold merge_row (project_rows (uw_id u) s) []\<rparr>"
    by (rule resolved_user [OF assms(1)])
  show "hasPermission i p (Some k) \<longleftrightarrow> granted s (ur_id (ai_user i)) p k"
    using assms(2) project_permissions_table(2) [where u = "uw_id u" and s = s and k = k and p = p]
    by (auto simp: i hasPermission_def granted_def in_system_permissions nonempty_def mapUser_def)
  show "hasPermission i p (Some k) \<longleftrightarrow>
      (case projectIdsForPermission i p of None \<Rightarrow> True | Some ks \<Rightarrow> k \<in> set ks)"
    by (rule hasPermission_scope) (use assms(2) project_permissions_table(1) in \<open>simp_all add: i\<close>)
qed

lemma resolved_session_valid:
  assumes "resolveSession h now s = Some i"
  shows "ur_status (ai_user i) = User_Active \<and>
    (\<exists>x\<in>set (is_sessions s). sw_token_hash x = h \<and> sw_id x = ai_session_id i \<and>
      sw_user_id x = ur_id (ai_user i) \<and> sw_revoked_at x = None \<and> now < sw_expires_at x)"
proof -
  obtain x u where x: "x \<in> set (is_sessions s)" "sw_token_hash x = h" "session_open now x"
      "row_by uw_id (sw_user_id x) (is_users s) = Some u" "uw_status u = User_Active"
      "i = \<lparr>ai_user = mapUser u, ai_session_id = sw_id x, ai_system_permissions = system_permissions (uw_id u) s,
        ai_project_permissions = fold merge_row (project_rows (uw_id u) s) []\<rparr>"
    by (rule resolved_user [OF assms])
  have "uw_id u = sw_user_id x" using row_by_SomeD [OF x(4)] by simp
  then show ?thesis using x(1-3,5,6) by (auto simp: mapUser_def session_open_def)
qed

section \<open>Accounts of the directory\<close>

text \<open>
  The end of a login with a directory identity makes the account of that name active, also one that an
  administrator has disabled since the login began.
\<close>

lemma upsert_named:
  assumes "upsertLdapUserInTransaction i s = Inr ((w, c), t)"
    "find_by_username (normalizeUsername (di_username (li_identity i))) s = Some u"
  shows "w = ldap_update i u"
proof (cases "find_external (li_provider_id i) (di_subject (li_identity i)) s")
  case None
  then show ?thesis using assms
    by (auto simp: upsertLdapUserInTransaction_def Let_def and_then_eq_Inr split: if_splits)
next
  case (Some x)
  then show ?thesis using assms by (simp add: upsertLdapUserInTransaction_def Let_def split: if_splits)
qed

lemma ldap_login_enables:
  assumes "find_by_username (normalizeUsername (di_username (li_identity (ll_user i)))) s = Some u"
    "completeLdapLogin i s = (Inr v, t)"
  shows "ur_id v = uw_id u \<and> ur_status v = User_Active"
proof -
  have "completeLdapLogin i s = (Inr v, t) \<longleftrightarrow> ldap_login_body i s = Inr (v, t)"
    by (simp add: completeLdapLogin_def transaction_Inr)
  then obtain w c s1 s2 s3 where run: "upsertLdapUserInTransaction (ll_user i) s = Inr ((w, c), s1)"
      "createSessionAfterLoginInTransaction (ll_session i) (uw_id w) s2 = Inr (v, s3)"
    using assms(2) unfolding ldap_login_body_def by (auto simp: and_then_eq_Inr)
  have "uw_id w = uw_id u" using upsert_named [OF run(1) assms(1)] by (simp add: ldap_update_def)
  moreover have "ur_id v = uw_id w \<and> ur_status v = User_Active"
    using run(2)
    by (auto simp: createSessionAfterLoginInTransaction_def and_then_eq_Inr mapUser_def login_update_def
        split: option.splits dest!: find_SomeD)
  ultimately show ?thesis by simp
qed

section \<open>Directory settings\<close>

text \<open>
  Saved settings read back as they were, except that an empty group filter is read as the default and
  that the time of creation is the time of the last change.
\<close>

lemma ldap_settings_round_trip:
  assumes "saveLdapConfiguration i s = (r, t)"
  shows "getLdapConfiguration t = Some r \<and> lc_enabled r = lc_enabled i \<and> lc_url r = lc_url i \<and>
    lc_bind_dn r = lc_bind_dn i \<and> lc_bind_password_encrypted r = nonempty (lc_bind_password_encrypted i) \<and>
    lc_group_search_base r = lc_group_search_base i \<and>
    lc_group_search_filter r =
      (if lc_group_search_filter i = [] then ''(member={{userDn}})'' else lc_group_search_filter i) \<and>
    lc_default_role r = lc_default_role i \<and>
    lc_version r = (case is_ldap s of None \<Rightarrow> 1 | Some q \<Rightarrow> lr_version q + 1) \<and>
    lc_created_at r = lc_updated_at i"
proof -
  have r: "r = mapLdapConfiguration (saved_ldap_row i (is_ldap s))" "is_ldap t = Some (saved_ldap_row i (is_ldap s))"
    using assms by (auto simp: saveLdapConfiguration_def)
  have "saved_ldap_row i (is_ldap s) = (ldapConfigurationValues i (lc_updated_at i))
      \<lparr>lr_version := (case is_ldap s of None \<Rightarrow> 1 | Some q \<Rightarrow> lr_version q + 1)\<rparr>"
    by (simp add: saved_ldap_row_def ldapConfigurationValues_def split: option.splits)
  then show ?thesis
    using r by (simp add: getLdapConfiguration_def mapLdapConfiguration_def ldapConfigurationValues_def
        ldapTransportMode_def or_null_def nonempty_def)
qed

end
