(* ===== verification/Identity_Service.thy ===== *)
theory Identity_Service
  imports Identity_Safety Calls
begin

text \<open>
  The service of identities, \<open>packages/application/src/manage-identity-access.ts\<close>: login, sessions and
  the administration of users, roles and projects, each a sequence of calls of the repository with
  other processes in between. Password hashes, tokens, the cipher, the directory and the clock are the
  fields of \<open>identity_env\<close>. The values of audit details are strings; the request id, which is only
  passed on to the audit, is left out.
\<close>

section \<open>The environment\<close>

record directory_configuration =
  dc_settings :: ldap_settings
  dc_bind_password :: string

record identity_env =
  ie_others :: "id_store interference"
  ie_between :: "id_store interference"
  ie_now :: "nat \<Rightarrow> time"
  ie_id :: "nat \<Rightarrow> ident"
  ie_token :: "nat \<Rightarrow> string"
  ie_token_hash :: "string \<Rightarrow> string"
  ie_bootstrap_token :: "string \<Rightarrow> bool"
  ie_password_hash :: "nat \<Rightarrow> string \<Rightarrow> string"
  ie_password_verify :: "string \<Rightarrow> string \<Rightarrow> bool"
  ie_cipher_available :: bool
  ie_encrypt :: "string \<Rightarrow> string \<Rightarrow> string"
  ie_decrypt :: "string \<Rightarrow> string \<Rightarrow> string"
  ie_authenticate :: "nat \<Rightarrow> directory_configuration \<Rightarrow> string \<Rightarrow> string \<Rightarrow> domain_error + directory_identity"
  ie_label :: "string \<Rightarrow> string option"
  ie_legacy_label :: string
  ie_session_ttl_hours :: int

type_synonym 'a id_call = "(id_store, unit, domain_error, 'a) svc"

definition SYSTEM_ADMIN_ROLE_ID :: ident where
  "SYSTEM_ADMIN_ROLE_ID = ''00000000-0000-7000-8100-000000000001''"
definition PROJECT_ADMIN_ROLE_ID :: ident where
  "PROJECT_ADMIN_ROLE_ID = ''00000000-0000-7000-8100-000000000002''"
definition TEST_MANAGER_ROLE_ID :: ident where
  "TEST_MANAGER_ROLE_ID = ''00000000-0000-7000-8100-000000000003''"
definition VIEWER_ROLE_ID :: ident where
  "VIEWER_ROLE_ID = ''00000000-0000-7000-8100-000000000005''"
definition EXECUTION_OPERATOR_ROLE_ID :: ident where
  "EXECUTION_OPERATOR_ROLE_ID = ''00000000-0000-7000-8100-000000000004''"
definition LDAP_PROVIDER_ID :: string where "LDAP_PROVIDER_ID = ''ldap:default''"
definition MAXIMUM_FAILED_LOGINS :: int where "MAXIMUM_FAILED_LOGINS = 5"
definition LOGIN_LOCK_MINUTES :: int where "LOGIN_LOCK_MINUTES = 15"
definition DUMMY_PASSWORD_HASH :: string where
  "DUMMY_PASSWORD_HASH =
     ''scrypt$16384$8$1$AAAAAAAAAAAAAAAAAAAAAA$AAAAAAAAAAAAAAAAAAAAAAAAAAAAAAAAAAAAAAAAAAA''"

text \<open>Calls.\<close>

definition svc_throw :: "'e \<Rightarrow> ('s, 'z, 'e, 'a) svc" where
  "svc_throw e w = (Inl e, w)"

definition svc_found :: "string \<Rightarrow> 'a option \<Rightarrow> ('s, 'z, domain_error, 'a) svc" where
  "svc_found code v = (case v of None \<Rightarrow> svc_throw (DomainError code) | Some x \<Rightarrow> svc_return x)"

definition svc_check :: "bool \<Rightarrow> string \<Rightarrow> ('s, 'z, domain_error, unit) svc" where
  "svc_check ok code = (if ok then svc_return () else svc_throw (DomainError code))"

fun svc_each :: "('a \<Rightarrow> ('s, 'z, 'e, unit) svc) \<Rightarrow> 'a list \<Rightarrow> ('s, 'z, 'e, unit) svc" where
  "svc_each f [] = svc_return ()"
| "svc_each f (x # xs) = svc_bind (f x) (\<lambda>_. svc_each f xs)"

definition id_read :: "identity_env \<Rightarrow> (id_store \<Rightarrow> 'a) \<Rightarrow> 'a id_call" where
  "id_read e g = repo_update (ie_others e) (\<lambda>s. (g s, s))"

definition id_write :: "identity_env \<Rightarrow> (id_store \<Rightarrow> id_store) \<Rightarrow> unit id_call" where
  "id_write e f = repo_update (ie_others e) (\<lambda>s. ((), f s))"

definition id_run :: "identity_env \<Rightarrow> (id_store \<Rightarrow> (domain_error + 'a) \<times> id_store) \<Rightarrow> 'a id_call" where
  "id_run e f = repo_transaction (ie_others e) id f"

section \<open>Authorisation and audit\<close>

definition authorize :: "authenticated_identity \<Rightarrow> permission \<Rightarrow> ident option \<Rightarrow> unit id_call" where
  "authorize identity permission projectId = svc_check (hasPermission identity permission projectId) ''AUTH_FORBIDDEN''"

definition projectScope :: "authenticated_identity \<Rightarrow> permission \<Rightarrow> ident list option id_call" where
  "projectScope identity permission =
     (case projectIdsForPermission identity permission of
        None \<Rightarrow> svc_return None
      | Some ks \<Rightarrow> if ks = [] then svc_throw (DomainError ''AUTH_FORBIDDEN'') else svc_return (Some ks))"

record audit_input =
  ao_actor_id :: "ident option"
  ao_action :: string
  ao_resource_type :: string
  ao_resource_id :: "ident option"
  ao_project_id :: "ident option"
  ao_result :: audit_result
  ao_details :: "(string \<times> string) list"

definition actor_name :: "user \<Rightarrow> string" where
  "actor_name u = ur_display_name u @ [CHR 0x20, CHR 0xB7, CHR 0x20] @ ur_username u"

text \<open>The details of an event, with the name of the actor and the label of the action.\<close>

definition securityAuditDetails ::
  "identity_env \<Rightarrow> string \<Rightarrow> (string \<times> string) list \<Rightarrow> string option \<Rightarrow> (string \<times> string) list" where
  "securityAuditDetails e action details actorName =
     details @ (case nonempty actorName of None \<Rightarrow> [] | Some n \<Rightarrow> [(''actorName'', n)]) @
     [(''eventDescription'', case ie_label e action of None \<Rightarrow> ie_legacy_label e | Some l \<Rightarrow> l)]"

definition audit_event_of ::
  "identity_env \<Rightarrow> audit_input \<Rightarrow> string option \<Rightarrow> ident \<Rightarrow> time \<Rightarrow> audit_event" where
  "audit_event_of e i actorName eventId recordedAt =
     \<lparr>av_id = eventId,
      av_actor_type = (case nonempty (ao_actor_id i) of None \<Rightarrow> Actor_System | Some _ \<Rightarrow> Actor_User),
      av_actor_id = nonempty (ao_actor_id i), av_action = ao_action i,
      av_resource_type = ao_resource_type i, av_resource_id = nonempty (ao_resource_id i),
      av_project_id = nonempty (ao_project_id i), av_result = ao_result i, av_request_id = None,
      av_details = securityAuditDetails e (ao_action i) (ao_details i) actorName,
      av_recorded_at = recordedAt\<rparr>"

text \<open>The name of the actor is looked up when the caller does not give one.\<close>

definition audit_as :: "identity_env \<Rightarrow> string option \<Rightarrow> audit_input \<Rightarrow> unit id_call" where
  "audit_as e actorName i =
     (if ie_label e (ao_action i) = None then svc_return ()
      else svc_bind
        (case nonempty (ao_actor_id i) of
           None \<Rightarrow> svc_return None
         | Some k \<Rightarrow> if nonempty actorName \<noteq> None then svc_return None else id_read e (findUser k)) (\<lambda>actor.
        svc_bind (svc_read (ie_id e)) (\<lambda>eventId.
        svc_bind (svc_read (ie_now e)) (\<lambda>recordedAt.
        id_run e (appendAudit (audit_event_of e i
          (case actorName of Some n \<Rightarrow> Some n | None \<Rightarrow> map_option actor_name actor) eventId recordedAt))))))"

definition audit :: "identity_env \<Rightarrow> audit_input \<Rightarrow> unit id_call" where
  "audit e = audit_as e None"

definition audit_done ::
  "identity_env \<Rightarrow> authenticated_identity \<Rightarrow> string \<Rightarrow> string \<Rightarrow> ident \<Rightarrow> ident option \<Rightarrow>
   (string \<times> string) list \<Rightarrow> unit id_call" where
  "audit_done e actor action resourceType resourceId projectId details =
     audit e \<lparr>ao_actor_id = Some (ur_id (ai_user actor)), ao_action = action,
       ao_resource_type = resourceType, ao_resource_id = Some resourceId, ao_project_id = projectId,
       ao_result = Audit_Succeeded, ao_details = details\<rparr>"

definition requiredUser :: "identity_env \<Rightarrow> ident \<Rightarrow> user id_call" where
  "requiredUser e userId = svc_bind (id_read e (findUser userId)) (svc_found ''USER_NOT_FOUND'')"

definition requiredRole :: "identity_env \<Rightarrow> ident \<Rightarrow> role id_call" where
  "requiredRole e roleId = svc_bind (id_read e (findRole roleId)) (svc_found ''ROLE_NOT_FOUND'')"

section \<open>Sessions and login\<close>

record session_result =
  sr_token :: string
  sr_expires_at :: time
  sr_user_id :: ident

definition session_expiry :: "identity_env \<Rightarrow> time \<Rightarrow> time" where
  "session_expiry e createdAt = createdAt + ie_session_ttl_hours e * 60 * 60 * 1000"

definition createSession :: "identity_env \<Rightarrow> ident \<Rightarrow> session_result id_call" where
  "createSession e userId =
     svc_bind (svc_read (ie_token e)) (\<lambda>token.
     svc_bind (svc_read (ie_now e)) (\<lambda>createdAt.
     svc_bind (svc_read (ie_id e)) (\<lambda>sessionId.
     svc_bind (id_run e (createSessionAfterLogin
       \<lparr>si_id = sessionId, si_token_hash = ie_token_hash e token, si_created_at = createdAt,
        si_expires_at = session_expiry e createdAt\<rparr> userId)) (\<lambda>u.
     svc_return \<lparr>sr_token = token, sr_expires_at = session_expiry e createdAt, sr_user_id = ur_id u\<rparr>))))"

definition login_audit :: "identity_env \<Rightarrow> string \<Rightarrow> ident option \<Rightarrow> audit_result \<Rightarrow> unit id_call" where
  "login_audit e provider userId result =
     audit e \<lparr>ao_actor_id = userId, ao_action = ''auth.login'', ao_resource_type = ''session'',
       ao_resource_id = None, ao_project_id = None, ao_result = result,
       ao_details = [(''provider'', provider)]\<rparr>"

definition rejectedLogin :: "identity_env \<Rightarrow> string \<Rightarrow> ident option \<Rightarrow> 'a id_call" where
  "rejectedLogin e provider userId =
     svc_bind (login_audit e provider userId Audit_Rejected) (\<lambda>_. svc_throw (DomainError ''AUTHENTICATION_FAILED''))"

definition successfulLogin :: "identity_env \<Rightarrow> string \<Rightarrow> ident \<Rightarrow> unit id_call" where
  "successfulLogin e provider userId = login_audit e provider (Some userId) Audit_Succeeded"

definition isLocked :: "time option \<Rightarrow> time \<Rightarrow> bool" where
  "isLocked lockedUntil now = (case lockedUntil of None \<Rightarrow> False | Some t \<Rightarrow> now < t)"

text \<open>A local account whose password is right, that is active and not locked.\<close>

definition login_accepted :: "(user \<times> string option) option \<Rightarrow> time \<Rightarrow> bool \<Rightarrow> bool" where
  "login_accepted credential now passwordMatches =
     (case credential of
        None \<Rightarrow> False
      | Some (u, _) \<Rightarrow> ur_source u = Local_Source \<and> ur_status u = User_Active \<and>
          \<not> isLocked (ur_locked_until u) now \<and> passwordMatches)"

definition failure_lock :: "int \<Rightarrow> time \<Rightarrow> time option" where
  "failure_lock failures now =
     (if MAXIMUM_FAILED_LOGINS \<le> failures then Some (now + LOGIN_LOCK_MINUTES * 60000) else None)"

definition record_failure :: "identity_env \<Rightarrow> (user \<times> string option) option \<Rightarrow> time \<Rightarrow> unit id_call" where
  "record_failure e credential now =
     (case credential of
        None \<Rightarrow> svc_return ()
      | Some (u, _) \<Rightarrow>
          if ur_source u = Local_Source \<and> ur_status u = User_Active
          then id_write e (recordLoginFailure (ur_id u) (ur_failed_login_attempts u + 1)
            (failure_lock (ur_failed_login_attempts u + 1) now) now)
          else svc_return ())"

definition loginLocally ::
  "identity_env \<Rightarrow> string \<Rightarrow> (user \<times> string option) option \<Rightarrow> session_result id_call" where
  "loginLocally e password credential =
     (let stored = (case credential of Some (_, Some h) \<Rightarrow> h | _ \<Rightarrow> DUMMY_PASSWORD_HASH);
          passwordMatches = ie_password_verify e password stored
      in svc_bind (svc_read (ie_now e)) (\<lambda>now.
         if \<not> login_accepted credential now passwordMatches
         then svc_bind (record_failure e credential now) (\<lambda>_.
           rejectedLogin e ''local'' (map_option (\<lambda>c. ur_id (fst c)) credential))
         else
           (let k = ur_id (fst (the credential))
            in svc_bind (createSession e k) (\<lambda>session.
               svc_bind (successfulLogin e ''local'' k) (\<lambda>_. svc_return session)))))"

definition ldap_purpose :: string where "ldap_purpose = ''ldap:default:bind-password''"

definition decryptStoredBindPassword ::
  "identity_env \<Rightarrow> stored_ldap_configuration option \<Rightarrow> domain_error + string" where
  "decryptStoredBindPassword e stored =
     (case stored of
        Some c \<Rightarrow>
          if lc_bind_dn c = [] then Inr []
          else (case nonempty (lc_bind_password_encrypted c) of
            Some p \<Rightarrow> if ie_cipher_available e then Inr (ie_decrypt e p ldap_purpose)
              else Inl (DomainError ''LDAP_BIND_PASSWORD_UNAVAILABLE'')
          | None \<Rightarrow> Inl (DomainError ''LDAP_BIND_PASSWORD_UNAVAILABLE''))
      | None \<Rightarrow> Inl (DomainError ''LDAP_BIND_PASSWORD_UNAVAILABLE''))"

definition directoryConfiguration ::
  "identity_env \<Rightarrow> stored_ldap_configuration \<Rightarrow> domain_error + directory_configuration" where
  "directoryConfiguration e stored =
     and_then (decryptStoredBindPassword e (Some stored)) (\<lambda>p.
       Inr \<lparr>dc_settings = ldap_settings.truncate stored, dc_bind_password = p\<rparr>)"

definition ldapDefaultRole :: "ldap_role \<Rightarrow> time \<Rightarrow> default_role" where
  "ldapDefaultRole defaultRole recordedAt =
     (if defaultRole = Ldap_Admin
      then \<lparr>dr_role_id = SYSTEM_ADMIN_ROLE_ID, dr_project_id = None, dr_recorded_at = recordedAt\<rparr>
      else \<lparr>dr_role_id = (if defaultRole = Ldap_Editor then TEST_MANAGER_ROLE_ID else VIEWER_ROLE_ID),
            dr_project_id = Some DEFAULT_PROJECT_ID, dr_recorded_at = recordedAt\<rparr>)"

definition finish_ldap_login ::
  "identity_env \<Rightarrow> stored_ldap_configuration \<Rightarrow> directory_identity \<Rightarrow> session_result id_call" where
  "finish_ldap_login e configuration identity =
     svc_bind (svc_read (ie_now e)) (\<lambda>synchronizedAt.
     svc_bind (svc_read (ie_token e)) (\<lambda>token.
     svc_bind (svc_read (ie_id e)) (\<lambda>userId.
     svc_bind (svc_read (ie_id e)) (\<lambda>externalId.
     svc_bind (svc_read (ie_id e)) (\<lambda>sessionId.
     svc_bind (svc_read (ie_id e)) (\<lambda>eventId.
     svc_bind (id_run e (completeLdapLogin
       \<lparr>ll_user = \<lparr>li_user_id = userId, li_external_identity_id = externalId,
          li_provider_id = LDAP_PROVIDER_ID, li_identity = identity, li_synchronized_at = synchronizedAt\<rparr>,
        ll_default_role = ldapDefaultRole (lc_default_role configuration) synchronizedAt,
        ll_session = \<lparr>si_id = sessionId, si_token_hash = ie_token_hash e token,
          si_created_at = synchronizedAt, si_expires_at = session_expiry e synchronizedAt\<rparr>,
        ll_audit = \<lparr>av_id = eventId, av_actor_type = Actor_User, av_actor_id = None,
          av_action = ''auth.login'', av_resource_type = ''session'', av_resource_id = None,
          av_project_id = None, av_result = Audit_Succeeded, av_request_id = None,
          av_details = securityAuditDetails e ''auth.login'' [(''provider'', ''ldap'')]
            (Some (di_display_name identity @ [CHR 0x20, CHR 0xB7, CHR 0x20] @ di_username identity)),
          av_recorded_at = synchronizedAt\<rparr>\<rparr>)) (\<lambda>u.
     svc_return \<lparr>sr_token = token, sr_expires_at = session_expiry e synchronizedAt,
       sr_user_id = ur_id u\<rparr>)))))))"

definition is_domain_error :: "domain_error \<Rightarrow> bool" where
  "is_domain_error x = (case x of DomainError _ \<Rightarrow> True | _ \<Rightarrow> False)"

definition loginWithLdap ::
  "identity_env \<Rightarrow> string \<Rightarrow> string \<Rightarrow> stored_ldap_configuration option \<Rightarrow> session_result id_call" where
  "loginWithLdap e username password configuration =
     (case configuration of
        None \<Rightarrow> rejectedLogin e ''ldap'' None
      | Some c \<Rightarrow>
          if \<not> lc_enabled c then rejectedLogin e ''ldap'' None
          else svc_bind
            (svc_call (\<lambda>n. Inr (and_then (directoryConfiguration e c) (\<lambda>d. ie_authenticate e n d username password))))
            (\<lambda>answer. case answer of
               Inl x \<Rightarrow>
                 if is_domain_error x \<and> error_code x \<noteq> ''LDAP_CREDENTIAL_REJECTED''
                 then svc_bind (audit e \<lparr>ao_actor_id = None, ao_action = ''auth.login'',
                     ao_resource_type = ''session'', ao_resource_id = None, ao_project_id = None,
                     ao_result = Audit_Failed,
                     ao_details = [(''provider'', ''ldap''), (''reasonCode'', error_code x)]\<rparr>) (\<lambda>_. svc_throw x)
                 else rejectedLogin e ''ldap'' None
             | Inr identity \<Rightarrow>
                 svc_catch (finish_ldap_login e c identity) (\<lambda>x.
                   if is_domain_error x then svc_throw x
                   else svc_throw (DomainError ''LDAP_LOGIN_FINALIZATION_FAILED''))))"

definition login :: "identity_env \<Rightarrow> string \<Rightarrow> string \<Rightarrow> session_result id_call" where
  "login e username password =
     svc_bind (id_read e (findUserByUsername (normalizeUsername username))) (\<lambda>credential.
     case credential of
       Some (u, _) \<Rightarrow>
         if ur_source u = Local_Source then loginLocally e password credential
         else if ur_source u = Ldap_Source \<and> ur_status u \<noteq> User_Active
           then rejectedLogin e ''ldap'' (Some (ur_id u))
         else svc_bind (id_read e getLdapConfiguration) (loginWithLdap e username password)
     | None \<Rightarrow>
         svc_bind (id_read e getLdapConfiguration) (\<lambda>c.
           if (case c of None \<Rightarrow> False | Some c \<Rightarrow> lc_enabled c) then loginWithLdap e username password c
           else loginLocally e password None))"

definition authenticateSession :: "identity_env \<Rightarrow> string \<Rightarrow> authenticated_identity id_call" where
  "authenticateSession e token =
     (if token = [] then svc_throw (DomainError ''AUTH_REQUIRED'')
      else svc_bind (svc_read (ie_now e)) (\<lambda>now.
        svc_bind (id_read e (resolveSession (ie_token_hash e token) now)) (\<lambda>identity.
        case identity of
          None \<Rightarrow> svc_throw (DomainError ''AUTH_REQUIRED'')
        | Some i \<Rightarrow> if ur_status (ai_user i) \<noteq> User_Active then svc_throw (DomainError ''AUTH_REQUIRED'')
            else svc_return i)))"

definition refreshSession :: "identity_env \<Rightarrow> authenticated_identity \<Rightarrow> time id_call" where
  "refreshSession e identity =
     svc_bind (svc_read (ie_now e)) (\<lambda>refreshedAt.
     svc_bind (repo_update (ie_others e)
       (renewSession (ai_session_id identity) refreshedAt (session_expiry e refreshedAt))) (\<lambda>renewed.
     svc_bind (svc_check renewed ''AUTH_REQUIRED'') (\<lambda>_. svc_return (session_expiry e refreshedAt))))"

definition logout :: "identity_env \<Rightarrow> authenticated_identity \<Rightarrow> unit id_call" where
  "logout e identity =
     svc_bind (svc_read (ie_now e)) (\<lambda>revokedAt.
     svc_bind (id_write e (revokeSession (ai_session_id identity) revokedAt)) (\<lambda>_.
     audit_done e identity ''auth.logout'' ''session'' (ai_session_id identity) None []))"

end
