(* ===== verification/Identity_Admin.thy ===== *)
theory Identity_Admin
  imports Identity_Service Decimal
begin

text \<open>
  The administration of users, roles, bindings and projects in \<open>manage-identity-access.ts\<close>, and the
  registration of users. Inputs are the ones the request contracts have accepted.
\<close>

section \<open>The first administrator and registration\<close>

record new_user_input =
  nu_username :: string
  nu_display_name :: string
  nu_email :: "string option"
  nu_password :: string
  nu_force_password_change :: bool

definition local_record :: "new_user_input \<Rightarrow> ident \<Rightarrow> string \<Rightarrow> bool \<Rightarrow> time \<Rightarrow> create_local_user" where
  "local_record i userId passwordHash force createdAt =
     \<lparr>cr_id = userId, cr_username = nu_username i,
      cr_normalized_username = normalizeUsername (nu_username i), cr_display_name = nu_display_name i,
      cr_email = nonempty (nu_email i), cr_password_hash = passwordHash, cr_force_password_change = force,
      cr_created_at = createdAt\<rparr>"

definition bootstrap_audit ::
  "identity_env \<Rightarrow> ident option \<Rightarrow> audit_result \<Rightarrow> (string \<times> string) list \<Rightarrow> unit id_call" where
  "bootstrap_audit e userId result details =
     audit e \<lparr>ao_actor_id = userId, ao_action = ''auth.bootstrap'', ao_resource_type = ''user'',
       ao_resource_id = userId, ao_project_id = None, ao_result = result, ao_details = details\<rparr>"

definition svc_bootstrap :: "identity_env \<Rightarrow> string \<Rightarrow> new_user_input \<Rightarrow> session_result id_call" where
  "svc_bootstrap e bootstrapToken i =
     (if \<not> ie_bootstrap_token e bootstrapToken
      then svc_bind (bootstrap_audit e None Audit_Rejected [(''reason'', ''invalid_bootstrap_token'')])
        (\<lambda>_. svc_throw (DomainError ''AUTH_BOOTSTRAP_REJECTED''))
      else svc_bind (svc_read (ie_now e)) (\<lambda>createdAt.
        svc_bind (svc_read (\<lambda>n. ie_password_hash e n (nu_password i))) (\<lambda>passwordHash.
        svc_bind (svc_read (ie_id e)) (\<lambda>userId.
        svc_bind (id_run e (bootstrapAdministrator
          \<lparr>bi_token_hash = ie_token_hash e bootstrapToken,
           bi_user = local_record (i\<lparr>nu_email := None\<rparr>) userId passwordHash False createdAt,
           bi_system_role_id = SYSTEM_ADMIN_ROLE_ID, bi_project_id = DEFAULT_PROJECT_ID,
           bi_project_role_id = PROJECT_ADMIN_ROLE_ID, bi_recorded_at = createdAt\<rparr>)) (\<lambda>answer.
        case answer of
          None \<Rightarrow> svc_bind (bootstrap_audit e None Audit_Rejected [(''reason'', ''already_initialized'')])
            (\<lambda>_. svc_throw (DomainError ''AUTH_BOOTSTRAP_REJECTED''))
        | Some u \<Rightarrow>
            svc_bind (bootstrap_audit e (Some (ur_id u)) Audit_Succeeded [(''source'', ''local'')]) (\<lambda>_.
            createSession e (ur_id u)))))))"

definition setupRequired :: "identity_env \<Rightarrow> bool id_call" where
  "setupRequired e = svc_bind (id_read e hasUsers) (\<lambda>used. svc_return (\<not> used))"

datatype registration_availability = Setup_Required | Ldap_Enabled | Registration_Available

definition registrationAvailability :: "identity_env \<Rightarrow> registration_availability id_call" where
  "registrationAvailability e =
     svc_bind (setupRequired e) (\<lambda>setup.
     if setup then svc_return Setup_Required
     else svc_bind (id_read e getLdapConfiguration) (\<lambda>c.
       svc_return (case c of None \<Rightarrow> Registration_Available
         | Some c \<Rightarrow> if lc_enabled c then Ldap_Enabled else Registration_Available)))"

definition svc_register :: "identity_env \<Rightarrow> new_user_input \<Rightarrow> session_result id_call" where
  "svc_register e i =
     svc_bind (registrationAvailability e) (\<lambda>availability.
     svc_bind (svc_check (availability = Registration_Available) ''AUTH_REGISTRATION_UNAVAILABLE'') (\<lambda>_.
     svc_bind (svc_read (\<lambda>n. ie_password_hash e n (nu_password i))) (\<lambda>passwordHash.
     svc_bind (svc_read (ie_now e)) (\<lambda>createdAt.
     svc_bind (svc_read (ie_id e)) (\<lambda>userId.
     svc_bind (svc_read (ie_token e)) (\<lambda>token.
     svc_bind (svc_read (ie_id e)) (\<lambda>sessionId.
     svc_bind (svc_read (ie_id e)) (\<lambda>eventId.
     svc_bind (id_run e (completeLocalRegistration
       \<lparr>gi_user = local_record i userId passwordHash False createdAt, gi_project_id = DEFAULT_PROJECT_ID,
        gi_role_id = EXECUTION_OPERATOR_ROLE_ID, gi_recorded_at = createdAt,
        gi_session = \<lparr>si_id = sessionId, si_token_hash = ie_token_hash e token,
          si_created_at = createdAt, si_expires_at = session_expiry e createdAt\<rparr>,
        gi_audit = \<lparr>av_id = eventId, av_actor_type = Actor_User, av_actor_id = Some userId,
          av_action = ''auth.register'', av_resource_type = ''user'', av_resource_id = Some userId,
          av_project_id = None, av_result = Audit_Succeeded, av_request_id = None,
          av_details = securityAuditDetails e ''auth.register''
            [(''source'', ''local''), (''projectId'', DEFAULT_PROJECT_ID), (''roleId'', EXECUTION_OPERATOR_ROLE_ID)]
            (Some (nu_display_name i @ [CHR 0x20, CHR 0xB7, CHR 0x20] @ nu_username i)),
          av_recorded_at = createdAt\<rparr>\<rparr>)) (\<lambda>_.
     svc_return \<lparr>sr_token = token, sr_expires_at = session_expiry e createdAt, sr_user_id = userId\<rparr>)))))))))"

section \<open>Users\<close>

definition svc_createUser :: "identity_env \<Rightarrow> authenticated_identity \<Rightarrow> new_user_input \<Rightarrow> user id_call" where
  "svc_createUser e actor i =
     svc_bind (authorize actor ''user.manage'' None) (\<lambda>_.
     svc_bind (svc_read (ie_now e)) (\<lambda>createdAt.
     svc_bind (svc_read (ie_id e)) (\<lambda>userId.
     svc_bind (svc_read (\<lambda>n. ie_password_hash e n (nu_password i))) (\<lambda>passwordHash.
     svc_bind (id_run e (createLocalUser (local_record i userId passwordHash (nu_force_password_change i) createdAt))) (\<lambda>u.
     svc_bind (audit_done e actor ''user.create'' ''user'' (ur_id u) None [(''source'', ''local'')]) (\<lambda>_.
     svc_return u))))))"

definition svc_updateUserStatus ::
  "identity_env \<Rightarrow> authenticated_identity \<Rightarrow> ident \<Rightarrow> user_status \<Rightarrow> user id_call" where
  "svc_updateUserStatus e actor userId status =
     svc_bind (authorize actor ''user.manage'' None) (\<lambda>_.
     svc_bind (svc_check (\<not> (ur_id (ai_user actor) = userId \<and> status = User_Disabled)) ''USER_SELF_DISABLE_REJECTED'') (\<lambda>_.
     svc_bind (svc_read (ie_now e)) (\<lambda>updatedAt.
     svc_bind (id_run e (updateUserStatus userId status updatedAt)) (\<lambda>u.
     svc_bind (when_true (status = User_Disabled) (id_write e (revokeUserSessions userId updatedAt))) (\<lambda>_.
     svc_bind (audit_done e actor (if status = User_Disabled then ''user.disable'' else ''user.enable'') ''user'' userId None []) (\<lambda>_.
     svc_return u))))))"

definition svc_resetPassword ::
  "identity_env \<Rightarrow> authenticated_identity \<Rightarrow> ident \<Rightarrow> string \<Rightarrow> bool \<Rightarrow> user id_call" where
  "svc_resetPassword e actor userId password force =
     svc_bind (authorize actor ''user.manage'' None) (\<lambda>_.
     svc_bind (requiredUser e userId) (\<lambda>existing.
     svc_bind (svc_check (ur_source existing = Local_Source) ''USER_PASSWORD_EXTERNAL'') (\<lambda>_.
     svc_bind (svc_read (ie_now e)) (\<lambda>updatedAt.
     svc_bind (svc_read (\<lambda>n. ie_password_hash e n password)) (\<lambda>passwordHash.
     svc_bind (id_run e (resetPassword userId passwordHash force updatedAt)) (\<lambda>u.
     svc_bind (id_write e (revokeUserSessions userId updatedAt)) (\<lambda>_.
     svc_bind (audit_done e actor ''user.password_reset'' ''user'' userId None
       [(''forcePasswordChange'', if force then ''true'' else ''false'')]) (\<lambda>_.
     svc_return u))))))))"

definition svc_revokeUserSessions :: "identity_env \<Rightarrow> authenticated_identity \<Rightarrow> ident \<Rightarrow> unit id_call" where
  "svc_revokeUserSessions e actor userId =
     svc_bind (authorize actor ''user.manage'' None) (\<lambda>_.
     svc_bind (requiredUser e userId) (\<lambda>_.
     svc_bind (svc_read (ie_now e)) (\<lambda>revokedAt.
     svc_bind (id_write e (revokeUserSessions userId revokedAt)) (\<lambda>_.
     audit_done e actor ''user.sessions_revoke'' ''user'' userId None []))))"

definition svc_changePassword ::
  "identity_env \<Rightarrow> authenticated_identity \<Rightarrow> string \<Rightarrow> string \<Rightarrow> unit id_call" where
  "svc_changePassword e actor currentPassword newPassword =
     svc_bind (id_read e (findUserByUsername (normalizeUsername (ur_username (ai_user actor))))) (\<lambda>credential.
     svc_bind (svc_check (case credential of
         Some (_, Some h) \<Rightarrow> ur_source (ai_user actor) = Local_Source \<and> ie_password_verify e currentPassword h
       | _ \<Rightarrow> False) ''AUTHENTICATION_FAILED'') (\<lambda>_.
     svc_bind (svc_read (ie_now e)) (\<lambda>changedAt.
     svc_bind (svc_read (\<lambda>n. ie_password_hash e n newPassword)) (\<lambda>passwordHash.
     svc_bind (id_run e (resetPassword (ur_id (ai_user actor)) passwordHash False changedAt)) (\<lambda>_.
     svc_bind (id_write e (revokeUserSessions (ur_id (ai_user actor)) changedAt)) (\<lambda>_.
     audit_done e actor ''user.password_change'' ''user'' (ur_id (ai_user actor)) None []))))))"

definition svc_revokeManagedSession :: "identity_env \<Rightarrow> authenticated_identity \<Rightarrow> ident \<Rightarrow> unit id_call" where
  "svc_revokeManagedSession e actor sessionId =
     svc_bind (id_read e (findSession sessionId)) (\<lambda>found.
     svc_bind (svc_found ''SESSION_NOT_FOUND'' found) (\<lambda>session.
     svc_bind (when_true (us_user_id session \<noteq> ur_id (ai_user actor)) (authorize actor ''user.manage'' None)) (\<lambda>_.
     svc_bind (svc_read (ie_now e)) (\<lambda>revokedAt.
     svc_bind (id_write e (revokeSession sessionId revokedAt)) (\<lambda>_.
     audit_done e actor ''session.revoke'' ''session'' sessionId None
       [(''targetUserId'', us_user_id session)])))))"

section \<open>Roles\<close>

definition validatedPermissions :: "string list \<Rightarrow> domain_error + permission list" where
  "validatedPermissions values =
     (if list_ex (\<lambda>v. \<not> isPermission v) (dedup values) then Inl (DomainError ''PERMISSION_INVALID'')
      else Inr (sort (dedup values)))"

definition svc_lift :: "'e + 'a \<Rightarrow> ('s, 'z, 'e, 'a) svc" where
  "svc_lift r = (case r of Inl x \<Rightarrow> svc_throw x | Inr a \<Rightarrow> svc_return a)"

record new_role_input =
  nr_key :: string
  nr_name :: string
  nr_description :: string
  nr_scope :: role_scope
  nr_permissions :: "string list"

definition svc_createRole :: "identity_env \<Rightarrow> authenticated_identity \<Rightarrow> new_role_input \<Rightarrow> role id_call" where
  "svc_createRole e actor i =
     svc_bind (authorize actor ''role.manage'' None) (\<lambda>_.
     svc_bind (svc_lift (validatedPermissions (nr_permissions i))) (\<lambda>permissions.
     svc_bind (svc_read (ie_now e)) (\<lambda>createdAt.
     svc_bind (svc_read (ie_id e)) (\<lambda>roleId.
     svc_bind (svc_store (ie_others e) (\<lambda>n. createRole (ie_between e n)
       \<lparr>ci_id = roleId, ci_key = nr_key i, ci_name = nr_name i, ci_description = nr_description i,
        ci_scope = nr_scope i, ci_permissions = permissions, ci_created_at = createdAt\<rparr>)) (\<lambda>r.
     svc_bind (audit_done e actor ''role.create'' ''role'' (ro_id r) None
       [(''scope'', case ro_scope r of System_Scope \<Rightarrow> ''system'' | Project_Scope \<Rightarrow> ''project'')]) (\<lambda>_.
     svc_return r))))))"

record role_change =
  rc_name :: "string option"
  rc_description :: "string option"
  rc_scope :: "role_scope option"
  rc_permissions :: "string list option"
  rc_active :: "bool option"

text \<open>The bindings that a change of a role would leave; unknown permissions throw at a binding of the role.\<close>

definition new_permissions :: "role_change \<Rightarrow> domain_error + permission list option" where
  "new_permissions i =
     (case rc_permissions i of
        None \<Rightarrow> Inr None | Some ps \<Rightarrow> and_then (validatedPermissions ps) (\<lambda>qs. Inr (Some qs)))"

fun remaining_bindings ::
  "ident \<Rightarrow> role_change \<Rightarrow> system_role_binding_view list \<Rightarrow> domain_error + system_role_binding_view list" where
  "remaining_bindings roleId i [] = Inr []"
| "remaining_bindings roleId i (b # bs) =
     (if bv_role_id b \<noteq> roleId then and_then (remaining_bindings roleId i bs) (\<lambda>rest. Inr (b # rest))
      else if rc_active i = Some False then remaining_bindings roleId i bs
      else and_then (new_permissions i) (\<lambda>permissions.
        and_then (remaining_bindings roleId i bs) (\<lambda>rest.
        Inr ((case permissions of None \<Rightarrow> b | Some ps \<Rightarrow> b\<lparr>bv_permissions := ps\<rparr>) # rest))))"

definition check_role_change :: "identity_env \<Rightarrow> ident \<Rightarrow> role \<Rightarrow> role_change \<Rightarrow> unit id_call" where
  "check_role_change e roleId existing i =
     when_true (ro_scope existing = System_Scope \<and> (rc_active i = Some False \<or> rc_permissions i \<noteq> None))
       (svc_bind (id_read e listSystemRoleBindingsForActiveUsers) (\<lambda>bindings.
        svc_bind (svc_lift (remaining_bindings roleId i bindings)) (\<lambda>remaining.
        svc_check (countSystemAdministrators remaining None \<noteq> 0) ''LAST_ADMIN_REQUIRED'')))"

definition svc_updateRole ::
  "identity_env \<Rightarrow> authenticated_identity \<Rightarrow> ident \<Rightarrow> role_change \<Rightarrow> role id_call" where
  "svc_updateRole e actor roleId i =
     svc_bind (authorize actor ''role.manage'' None) (\<lambda>_.
     svc_bind (requiredRole e roleId) (\<lambda>existing.
     svc_bind (svc_check (\<not> ro_built_in existing) ''BUILT_IN_ROLE_IMMUTABLE'') (\<lambda>_.
     svc_bind (svc_check (case rc_scope i of None \<Rightarrow> True | Some c \<Rightarrow> c = ro_scope existing) ''ROLE_SCOPE_INVALID'') (\<lambda>_.
     svc_bind (check_role_change e roleId existing i) (\<lambda>_.
     svc_bind (svc_lift (new_permissions i)) (\<lambda>permissions.
     svc_bind (svc_read (ie_now e)) (\<lambda>updatedAt.
     svc_bind (id_run e (updateRole
       \<lparr>oi_id = roleId, oi_name = nonempty (rc_name i), oi_description = rc_description i,
        oi_scope = rc_scope i, oi_permissions = permissions, oi_active = rc_active i,
        oi_updated_at = updatedAt\<rparr>)) (\<lambda>r.
     svc_bind (svc_read (ie_now e)) (\<lambda>revokedAt.
     svc_bind (svc_store (ie_others e) (\<lambda>n s. (Inr (), revokeUserSessionsForRole (ie_between e n) roleId revokedAt s))) (\<lambda>_.
     svc_bind (audit_done e actor ''role.update'' ''role'' (ro_id r) None
       ((case rc_active i of None \<Rightarrow> [] | Some a \<Rightarrow> [(''active'', if a then ''true'' else ''false'')]) @
        (case rc_permissions i of None \<Rightarrow> [] | Some ps \<Rightarrow> [(''permissionCount'', show_nat (length ps))]))) (\<lambda>_.
     svc_return r)))))))))))"

definition svc_deleteRole :: "identity_env \<Rightarrow> authenticated_identity \<Rightarrow> ident \<Rightarrow> unit id_call" where
  "svc_deleteRole e actor roleId =
     svc_bind (authorize actor ''role.manage'' None) (\<lambda>_.
     svc_bind (requiredRole e roleId) (\<lambda>r.
     svc_bind (svc_check (\<not> ro_built_in r) ''BUILT_IN_ROLE_IMMUTABLE'') (\<lambda>_.
     svc_bind (svc_store (ie_others e) (\<lambda>n. deleteRole (ie_between e n) roleId)) (\<lambda>deleted.
     svc_bind (svc_check deleted ''ROLE_IN_USE'') (\<lambda>_.
     audit_done e actor ''role.delete'' ''role'' roleId None [])))))"

section \<open>Bindings\<close>

definition assignable :: "role_scope \<Rightarrow> role \<Rightarrow> unit id_call" where
  "assignable scope r =
     svc_bind (svc_check (ro_active r) ''ROLE_INACTIVE'') (\<lambda>_. svc_check (ro_scope r = scope) ''ROLE_SCOPE_INVALID'')"

definition svc_assignSystemRole ::
  "identity_env \<Rightarrow> authenticated_identity \<Rightarrow> ident \<Rightarrow> ident \<Rightarrow> unit id_call" where
  "svc_assignSystemRole e actor userId roleId =
     svc_bind (authorize actor ''role.manage'' None) (\<lambda>_.
     svc_bind (requiredUser e userId) (\<lambda>_.
     svc_bind (requiredRole e roleId) (\<lambda>r.
     svc_bind (assignable System_Scope r) (\<lambda>_.
     svc_bind (svc_read (ie_now e)) (\<lambda>assignedAt.
     svc_bind (id_run e (assignSystemRole userId roleId (ur_id (ai_user actor)) assignedAt)) (\<lambda>_.
     svc_bind (id_write e (revokeUserSessions userId assignedAt)) (\<lambda>_.
     audit_done e actor ''role.assign_system'' ''user'' userId None [(''roleId'', roleId)])))))))"

definition svc_assignProjectRole ::
  "identity_env \<Rightarrow> authenticated_identity \<Rightarrow> ident \<Rightarrow> ident \<Rightarrow> ident \<Rightarrow> unit id_call" where
  "svc_assignProjectRole e actor userId projectId roleId =
     svc_bind (authorize actor ''project.manage'' (Some projectId)) (\<lambda>_.
     svc_bind (requiredUser e userId) (\<lambda>_.
     svc_bind (requiredRole e roleId) (\<lambda>r.
     svc_bind (assignable Project_Scope r) (\<lambda>_.
     svc_bind (svc_read (ie_now e)) (\<lambda>assignedAt.
     svc_bind (id_run e (assignProjectRole \<lparr>pi_user_id = userId, pi_project_id = projectId,
       pi_role_id = roleId, pi_actor_id = ur_id (ai_user actor), pi_assigned_at = assignedAt\<rparr>)) (\<lambda>_.
     svc_bind (id_write e (revokeUserSessions userId assignedAt)) (\<lambda>_.
     audit_done e actor ''role.assign_project'' ''user'' userId (Some projectId) [(''roleId'', roleId)])))))))"

definition svc_removeSystemRole ::
  "identity_env \<Rightarrow> authenticated_identity \<Rightarrow> ident \<Rightarrow> ident \<Rightarrow> unit id_call" where
  "svc_removeSystemRole e actor userId roleId =
     svc_bind (authorize actor ''role.manage'' None) (\<lambda>_.
     svc_bind (id_read e listSystemRoleBindingsForActiveUsers) (\<lambda>bindings.
     svc_bind (svc_check (countSystemAdministrators bindings
       (Some \<lparr>xl_user_id = Some userId, xl_role_id = Some roleId\<rparr>) \<noteq> 0) ''LAST_ADMIN_REQUIRED'') (\<lambda>_.
     svc_bind (svc_read (ie_now e)) (\<lambda>_.
     svc_bind (id_run e (removeSystemRole userId roleId)) (\<lambda>removed.
     svc_bind (svc_check removed ''ROLE_BINDING_NOT_FOUND'') (\<lambda>_.
     svc_bind (svc_read (ie_now e)) (\<lambda>revokedAt.
     svc_bind (id_write e (revokeUserSessions userId revokedAt)) (\<lambda>_.
     audit_done e actor ''role.remove_system'' ''user'' userId None [(''roleId'', roleId)]))))))))"

text \<open>Whether the bindings of a user, an excluded project role apart, let the user manage a project.\<close>

definition can_manage ::
  "role list \<Rightarrow> (ident \<times> ident) list \<Rightarrow> (user \<times> ident list) list \<Rightarrow> ident \<Rightarrow> ident option \<Rightarrow> bool" where
  "can_manage roles systemBindings memberships userId excludedRoleId =
     (let managing = map ro_id (filter (\<lambda>r. ro_active r \<and> ''project.manage'' \<in> set (ro_permissions r)) roles)
      in list_ex (\<lambda>(u, r). u = userId \<and> r \<in> set managing) systemBindings \<or>
         (case find (\<lambda>m. ur_id (fst m) = userId) memberships of
            None \<Rightarrow> False
          | Some m \<Rightarrow> list_ex (\<lambda>r. Some r \<noteq> excludedRoleId \<and> r \<in> set managing) (snd m)))"

definition userCanManageProject ::
  "identity_env \<Rightarrow> ident \<Rightarrow> ident \<Rightarrow> ident option \<Rightarrow> bool id_call" where
  "userCanManageProject e userId projectId excludedRoleId =
     svc_bind (id_read e listRoles) (\<lambda>roles.
     svc_bind (id_read e listSystemRoleBindings) (\<lambda>bindings.
     svc_bind (id_read e (listProjectMemberships projectId)) (\<lambda>memberships.
     svc_return (can_manage roles bindings memberships userId excludedRoleId))))"

definition ensureProjectOwnerCanStillManage :: "identity_env \<Rightarrow> ident \<Rightarrow> ident \<Rightarrow> ident \<Rightarrow> unit id_call" where
  "ensureProjectOwnerCanStillManage e userId projectId removedRoleId =
     svc_bind (id_read e (listProjects (Some [projectId]))) (\<lambda>projects.
     case projects of
       [] \<Rightarrow> svc_return ()
     | p # _ \<Rightarrow>
         if pj_owner_user_id p \<noteq> Some userId then svc_return ()
         else svc_bind (userCanManageProject e userId projectId (Some removedRoleId)) (\<lambda>ok.
           svc_check ok ''PROJECT_OWNER_ROLE_REQUIRED''))"

definition svc_removeProjectRole ::
  "identity_env \<Rightarrow> authenticated_identity \<Rightarrow> ident \<Rightarrow> ident \<Rightarrow> ident \<Rightarrow> unit id_call" where
  "svc_removeProjectRole e actor userId projectId roleId =
     svc_bind (authorize actor ''project.manage'' (Some projectId)) (\<lambda>_.
     svc_bind (ensureProjectOwnerCanStillManage e userId projectId roleId) (\<lambda>_.
     svc_bind (repo_update (ie_others e) (removeProjectRole userId projectId roleId)) (\<lambda>removed.
     svc_bind (svc_check removed ''ROLE_BINDING_NOT_FOUND'') (\<lambda>_.
     svc_bind (svc_read (ie_now e)) (\<lambda>revokedAt.
     svc_bind (id_write e (revokeUserSessions userId revokedAt)) (\<lambda>_.
     audit_done e actor ''role.remove_project'' ''user'' userId (Some projectId) [(''roleId'', roleId)]))))))"

definition svc_assignRoleSelection ::
  "identity_env \<Rightarrow> authenticated_identity \<Rightarrow> ident list \<Rightarrow> ident list \<Rightarrow> ident option \<Rightarrow> nat id_call" where
  "svc_assignRoleSelection e actor users roles projectId =
     (let userIds = dedup users; roleIds = dedup roles; project = nonempty projectId
      in svc_bind (authorize actor (if project = None then ''role.manage'' else ''project.manage'') projectId) (\<lambda>_.
         svc_bind (svc_each (\<lambda>u. svc_bind (requiredUser e u) (\<lambda>_. svc_return ())) userIds) (\<lambda>_.
         svc_bind (svc_each (\<lambda>k. svc_bind (requiredRole e k) (\<lambda>r.
           svc_check (ro_active r \<and> ro_scope r = (if project = None then System_Scope else Project_Scope))
             ''ROLE_SCOPE_INVALID'')) roleIds) (\<lambda>_.
         svc_bind (svc_catch
           (svc_each (\<lambda>(u, k). case project of
              Some p \<Rightarrow> svc_assignProjectRole e actor u p k
            | None \<Rightarrow> svc_assignSystemRole e actor u k) (List.product userIds roleIds))
           (\<lambda>_. svc_throw (DomainError ''ROLE_ASSIGNMENT_PARTIAL''))) (\<lambda>_.
         svc_return (length userIds * length roleIds))))))"

section \<open>Projects\<close>

definition svc_createProject ::
  "identity_env \<Rightarrow> authenticated_identity \<Rightarrow> string \<Rightarrow> string \<Rightarrow> project id_call" where
  "svc_createProject e actor name slug =
     svc_bind (authorize actor ''project.manage'' None) (\<lambda>_.
     svc_bind (svc_read (ie_id e)) (\<lambda>projectId.
     svc_bind (svc_read (ie_now e)) (\<lambda>createdAt.
     svc_bind (id_run e (createProject \<lparr>cp_id = projectId, cp_name = name, cp_slug = slug,
       cp_owner_user_id = Some (ur_id (ai_user actor)), cp_created_at = createdAt\<rparr>)) (\<lambda>p.
     svc_bind (audit_done e actor ''project.create'' ''project'' (pj_id p) (Some (pj_id p)) [(''slug'', pj_slug p)]) (\<lambda>_.
     svc_return p)))))"

definition svc_renameProject ::
  "identity_env \<Rightarrow> authenticated_identity \<Rightarrow> ident \<Rightarrow> string \<Rightarrow> project id_call" where
  "svc_renameProject e actor projectId name =
     svc_bind (authorize actor ''project.manage'' (Some projectId)) (\<lambda>_.
     svc_bind (svc_read (ie_now e)) (\<lambda>updatedAt.
     svc_bind (id_run e (renameProject projectId name updatedAt)) (\<lambda>p.
     svc_bind (audit_done e actor ''project.rename'' ''project'' projectId (Some projectId) [(''name'', pj_name p)]) (\<lambda>_.
     svc_return p))))"

definition svc_transferProjectOwner ::
  "identity_env \<Rightarrow> authenticated_identity \<Rightarrow> ident \<Rightarrow> ident \<Rightarrow> project id_call" where
  "svc_transferProjectOwner e actor projectId ownerUserId =
     svc_bind (authorize actor ''project.manage'' (Some projectId)) (\<lambda>_.
     svc_bind (requiredUser e ownerUserId) (\<lambda>owner.
     svc_bind (svc_check (ur_status owner = User_Active) ''PROJECT_OWNER_INACTIVE'') (\<lambda>_.
     svc_bind (userCanManageProject e (ur_id owner) projectId None) (\<lambda>able.
     svc_bind (when_true (\<not> able)
       (svc_bind (svc_read (ie_now e)) (\<lambda>assignedAt.
        svc_bind (id_run e (assignProjectRole \<lparr>pi_user_id = ur_id owner, pi_project_id = projectId,
          pi_role_id = PROJECT_ADMIN_ROLE_ID, pi_actor_id = ur_id (ai_user actor),
          pi_assigned_at = assignedAt\<rparr>)) (\<lambda>_.
        svc_bind (svc_read (ie_now e)) (\<lambda>revokedAt.
        id_write e (revokeUserSessions (ur_id owner) revokedAt)))))) (\<lambda>_.
     svc_bind (svc_read (ie_now e)) (\<lambda>updatedAt.
     svc_bind (id_run e (transferProjectOwner projectId (ur_id owner) updatedAt)) (\<lambda>p.
     svc_bind (audit_done e actor ''project.transfer_owner'' ''project'' projectId (Some projectId)
       [(''ownerUserId'', ur_id owner)]) (\<lambda>_.
     svc_return p))))))))"

definition svc_archiveProject :: "identity_env \<Rightarrow> authenticated_identity \<Rightarrow> ident \<Rightarrow> project id_call" where
  "svc_archiveProject e actor projectId =
     svc_bind (authorize actor ''project.manage'' (Some projectId)) (\<lambda>_.
     svc_bind (svc_check (projectId \<noteq> DEFAULT_PROJECT_ID) ''DEFAULT_PROJECT_IMMUTABLE'') (\<lambda>_.
     svc_bind (svc_read (ie_now e)) (\<lambda>archivedAt.
     svc_bind (id_run e (archiveProject projectId archivedAt)) (\<lambda>p.
     svc_bind (audit_done e actor ''project.archive'' ''project'' projectId (Some projectId) []) (\<lambda>_.
     svc_return p)))))"

section \<open>Directory settings\<close>

record ldap_form =
  lf_settings :: ldap_settings
  lf_bind_password :: "string option"
  lf_clear_bind_password :: bool

definition svc_saveLdapConfiguration ::
  "identity_env \<Rightarrow> authenticated_identity \<Rightarrow> ldap_form \<Rightarrow> stored_ldap_configuration id_call" where
  "svc_saveLdapConfiguration e actor i =
     svc_bind (authorize actor ''ldap.manage'' None) (\<lambda>_.
     svc_bind (id_read e getLdapConfiguration) (\<lambda>existing.
     svc_bind (svc_check (lf_bind_password i = None \<or> ie_cipher_available e) ''SECRET_CIPHER_UNAVAILABLE'') (\<lambda>_.
     let kept = (if lf_clear_bind_password i then None
           else case existing of None \<Rightarrow> None | Some c \<Rightarrow> lc_bind_password_encrypted c);
         secret = (case lf_bind_password i of None \<Rightarrow> kept | Some p \<Rightarrow> Some (ie_encrypt e p ldap_purpose))
     in svc_bind (svc_check (lc_bind_dn (lf_settings i) = [] \<or> nonempty secret \<noteq> None) ''LDAP_BIND_PASSWORD_REQUIRED'') (\<lambda>_.
        svc_bind (svc_read (ie_now e)) (\<lambda>updatedAt.
        svc_bind (repo_update (ie_others e) (saveLdapConfiguration ((lf_settings i)
          \<lparr>lc_bind_password_encrypted := nonempty secret, lc_updated_at := updatedAt,
           lc_updated_by := ur_username (ai_user actor)\<rparr>))) (\<lambda>saved.
        svc_bind (audit_done e actor ''ldap.configure'' ''ldap_configuration'' ''default'' None
          [(''enabled'', if lc_enabled saved then ''true'' else ''false''),
           (''protocol'', if ldapTransportMode (lc_url saved) = Ldaps_Transport then ''ldaps'' else ''plain''),
           (''tlsRejectUnauthorized'', if lc_tls_reject_unauthorized saved then ''true'' else ''false'')]) (\<lambda>_.
        svc_return saved)))))))"

end
