(* ===== verification/Identity_Audit.thy ===== *)
theory Identity_Audit
  imports Identity_Admin
begin

text \<open>
  The remaining operations of \<open>manage-identity-access.ts\<close>: the installation of the built-in roles, the
  records that other parts of the control plane leave in the audit, the test of the directory settings
  and the lists of sessions, projects and members. The test of a directory and the invalidation of read
  models are arguments.
\<close>

section \<open>Installation\<close>

definition svc_initialize :: "identity_env \<Rightarrow> (string \<Rightarrow> string \<times> string) \<Rightarrow> unit id_call" where
  "svc_initialize e texts =
     svc_bind (svc_read (ie_now e)) (\<lambda>recordedAt.
     id_run e (ensureBuiltInRoles (builtInRoleDefinitions texts) recordedAt))"

definition configuration_audit ::
  "identity_env \<Rightarrow> audit_result \<Rightarrow> (string \<times> string) list \<Rightarrow> unit id_call" where
  "configuration_audit e result details =
     audit e \<lparr>ao_actor_id = None, ao_action = ''settings.platform.bootstrap'',
       ao_resource_type = ''platform_configuration'', ao_resource_id = None, ao_project_id = None,
       ao_result = result, ao_details = details\<rparr>"

definition authorizeBootstrapConfiguration :: "identity_env \<Rightarrow> string \<Rightarrow> unit id_call" where
  "authorizeBootstrapConfiguration e bootstrapToken =
     svc_bind (if ie_bootstrap_token e bootstrapToken then setupRequired e else svc_return False) (\<lambda>allowed.
     if allowed then svc_return ()
     else svc_bind (configuration_audit e Audit_Rejected [(''reason'', ''invalid_or_initialized'')]) (\<lambda>_.
       svc_throw (DomainError ''AUTH_BOOTSTRAP_REJECTED'')))"

definition configuration_details :: "string \<Rightarrow> int \<Rightarrow> (string \<times> string) list" where
  "configuration_details mode revision =
     [(''mode'', mode), (''revision'', show_int revision), (''restartRequired'', ''true'')]"

definition recordBootstrapConfiguration :: "identity_env \<Rightarrow> string \<Rightarrow> int \<Rightarrow> unit id_call" where
  "recordBootstrapConfiguration e mode revision =
     configuration_audit e Audit_Succeeded (configuration_details mode revision)"

section \<open>Records of other parts\<close>

definition settings_audit ::
  "identity_env \<Rightarrow> authenticated_identity \<Rightarrow> string \<Rightarrow> string \<Rightarrow> (string \<times> string) list \<Rightarrow> unit id_call" where
  "settings_audit e actor action resourceType details =
     svc_bind (authorize actor ''settings.manage'' None) (\<lambda>_.
     audit e \<lparr>ao_actor_id = Some (ur_id (ai_user actor)), ao_action = action,
       ao_resource_type = resourceType, ao_resource_id = None, ao_project_id = None,
       ao_result = Audit_Succeeded, ao_details = details\<rparr>)"

definition recordPlatformConfigurationChange ::
  "identity_env \<Rightarrow> authenticated_identity \<Rightarrow> string \<Rightarrow> int \<Rightarrow> unit id_call" where
  "recordPlatformConfigurationChange e actor mode revision =
     settings_audit e actor ''settings.platform.update'' ''platform_configuration''
       (configuration_details mode revision)"

definition recordQueueDeadLetterRedrive :: "identity_env \<Rightarrow> authenticated_identity \<Rightarrow> int \<Rightarrow> unit id_call" where
  "recordQueueDeadLetterRedrive e actor redriven =
     settings_audit e actor ''settings.queue_dead_letter.redrive'' ''job_queue'' [(''redriven'', show_int redriven)]"

definition recordTerminalSession ::
  "identity_env \<Rightarrow> authenticated_identity \<Rightarrow> ident \<Rightarrow> ident \<Rightarrow> ident \<Rightarrow> unit id_call" where
  "recordTerminalSession e actor runnerId sessionId projectId =
     svc_bind (authorize actor ''runner.terminal'' (Some projectId)) (\<lambda>_.
     audit_done e actor ''terminal.session_create'' ''runner'' runnerId (Some projectId) [(''sessionId'', sessionId)])"

text \<open>An event appended without the lookup of its actor.\<close>

definition appended ::
  "identity_env \<Rightarrow> audit_actor \<Rightarrow> ident \<Rightarrow> string \<Rightarrow> ident \<Rightarrow> (string \<times> string) list \<Rightarrow> unit id_call" where
  "appended e actorType actorId action runnerId details =
     svc_bind (svc_read (ie_id e)) (\<lambda>eventId.
     svc_bind (svc_read (ie_now e)) (\<lambda>recordedAt.
     id_run e (appendAudit
       \<lparr>av_id = eventId, av_actor_type = actorType, av_actor_id = Some actorId, av_action = action,
        av_resource_type = ''runner'', av_resource_id = Some runnerId, av_project_id = None,
        av_result = Audit_Succeeded, av_request_id = None,
        av_details = securityAuditDetails e action details None, av_recorded_at = recordedAt\<rparr>)))"

record terminal_lifecycle =
  tl_actor_id :: ident
  tl_runner_id :: ident
  tl_session_id :: ident
  tl_started :: bool
  tl_reason :: "string option"
  tl_input_messages :: "int option"
  tl_input_bytes :: "int option"
  tl_output_bytes :: "int option"

definition optional_detail :: "string \<Rightarrow> ('a \<Rightarrow> string) \<Rightarrow> 'a option \<Rightarrow> (string \<times> string) list" where
  "optional_detail k f v = (case v of None \<Rightarrow> [] | Some x \<Rightarrow> [(k, f x)])"

definition recordTerminalLifecycle :: "identity_env \<Rightarrow> terminal_lifecycle \<Rightarrow> unit id_call" where
  "recordTerminalLifecycle e i =
     appended e Actor_User (tl_actor_id i)
       (if tl_started i then ''terminal.session_started'' else ''terminal.session_finished'') (tl_runner_id i)
       ([(''sessionId'', tl_session_id i)] @ optional_detail ''reason'' id (nonempty (tl_reason i)) @
        optional_detail ''inputMessages'' show_int (tl_input_messages i) @
        optional_detail ''inputBytes'' show_int (tl_input_bytes i) @
        optional_detail ''outputBytes'' show_int (tl_output_bytes i))"

definition recordRunnerOperation ::
  "identity_env \<Rightarrow> ident \<Rightarrow> string \<Rightarrow> (string \<times> string) list \<Rightarrow> unit id_call" where
  "recordRunnerOperation e runnerId action details =
     (if ie_label e action = None then svc_return ()
      else appended e Actor_Runner runnerId action runnerId details)"

record operation_record =
  or_action :: string
  or_resource_type :: string
  or_resource_id :: "ident option"
  or_project_id :: "ident option"
  or_details :: "(string \<times> string) list"

definition recordAuthorizedOperation ::
  "identity_env \<Rightarrow> (nat \<Rightarrow> ident \<Rightarrow> domain_error + unit) option \<Rightarrow> authenticated_identity \<Rightarrow>
   operation_record \<Rightarrow> unit id_call" where
  "recordAuthorizedOperation e invalidate actor i =
     svc_bind (case (nonempty (or_project_id i), invalidate) of
         (Some k, Some f) \<Rightarrow> svc_call (\<lambda>n. f n k) | _ \<Rightarrow> svc_return ()) (\<lambda>_.
     audit_as e (Some (actor_name (ai_user actor)))
       \<lparr>ao_actor_id = Some (ur_id (ai_user actor)), ao_action = or_action i,
        ao_resource_type = or_resource_type i, ao_resource_id = nonempty (or_resource_id i),
        ao_project_id = nonempty (or_project_id i), ao_result = Audit_Succeeded, ao_details = or_details i\<rparr>)"

record authorization_denial =
  ad_actor_id :: ident
  ad_actor_name :: string
  ad_permission :: permission
  ad_project_id :: "ident option"

text \<open>A project that is not there is kept in the details only, where no foreign key asks for it.\<close>

definition recordAccessDenial :: "identity_env \<Rightarrow> authorization_denial \<Rightarrow> unit id_call" where
  "recordAccessDenial e denial =
     svc_bind (case nonempty (ad_project_id denial) of
         None \<Rightarrow> svc_return []
       | Some k \<Rightarrow> id_read e (listProjects (Some [k]))) (\<lambda>found.
     audit_as e (Some (ad_actor_name denial))
       \<lparr>ao_actor_id = Some (ad_actor_id denial), ao_action = ''auth.access_denied'',
        ao_resource_type = ''access_control'', ao_resource_id = None,
        ao_project_id = (case found of [] \<Rightarrow> None | p # _ \<Rightarrow> Some (pj_id p)), ao_result = Audit_Rejected,
        ao_details = (''permission'', ad_permission denial) #
          optional_detail ''targetProjectId'' id (nonempty (ad_project_id denial))\<rparr>)"

section \<open>Directory settings and lists\<close>

definition test_password ::
  "identity_env \<Rightarrow> ldap_form \<Rightarrow> stored_ldap_configuration option \<Rightarrow> domain_error + string" where
  "test_password e i existing =
     (case lf_bind_password i of
        Some p \<Rightarrow> Inr p
      | None \<Rightarrow> if lc_bind_dn (lf_settings i) \<noteq> [] \<and> \<not> lf_clear_bind_password i
          then decryptStoredBindPassword e existing else Inr [])"

definition testLdapConfiguration ::
  "identity_env \<Rightarrow> (nat \<Rightarrow> directory_configuration \<Rightarrow> domain_error + unit) \<Rightarrow>
   authenticated_identity \<Rightarrow> ldap_form \<Rightarrow> unit id_call" where
  "testLdapConfiguration e test actor i =
     svc_bind (authorize actor ''ldap.manage'' None) (\<lambda>_.
     svc_bind (id_read e getLdapConfiguration) (\<lambda>existing.
     svc_bind (svc_lift (test_password e i existing)) (\<lambda>password.
     svc_bind (svc_check (lc_bind_dn (lf_settings i) = [] \<or> password \<noteq> []) ''LDAP_BIND_PASSWORD_REQUIRED'') (\<lambda>_.
     svc_bind (svc_call (\<lambda>n. test n \<lparr>dc_settings = lf_settings i, dc_bind_password = password\<rparr>)) (\<lambda>_.
     audit_done e actor ''ldap.test'' ''ldap_configuration'' ''default'' None
       [(''protocol'', if ldapTransportMode (lc_url (lf_settings i)) = Ldaps_Transport then ''ldaps'' else ''plain'')])))))"

definition listSessions :: "identity_env \<Rightarrow> authenticated_identity \<Rightarrow> ident \<Rightarrow> user_session list id_call" where
  "listSessions e actor userId =
     svc_bind (when_true (userId \<noteq> ur_id (ai_user actor)) (authorize actor ''user.manage'' None)) (\<lambda>_.
     svc_bind (svc_read (ie_now e)) (\<lambda>now. id_read e (listUserSessions userId now)))"

definition svc_listProjectMembers ::
  "identity_env \<Rightarrow> authenticated_identity \<Rightarrow> ident \<Rightarrow> (user \<times> ident list) list id_call" where
  "svc_listProjectMembers e actor projectId =
     svc_bind (authorize actor ''project.read'' (Some projectId)) (\<lambda>_. id_read e (listProjectMemberships projectId))"

definition svc_listProjects :: "identity_env \<Rightarrow> authenticated_identity \<Rightarrow> project list id_call" where
  "svc_listProjects e actor =
     (let projectIds = projectIdsForPermission actor ''project.read''
      in svc_bind (svc_check (projectIds \<noteq> Some []) ''AUTH_FORBIDDEN'') (\<lambda>_. id_read e (listProjects projectIds)))"

end
