(* ===== verification/Identity_Service_Facts.thy ===== *)
theory Identity_Service_Facts
  imports Identity_Audit
begin

text \<open>
  What the service of identities does under every interleaving with other processes that use the same
  repository: it changes the store by operations of the repository only, requests without permission
  do nothing, and a change of rights or of a password ends the sessions of the user. Then the lock of
  accounts after failed logins, and where it fails.
\<close>

section \<open>The service is made of operations\<close>

definition env_keeps :: "identity_env \<Rightarrow> (id_store \<Rightarrow> bool) \<Rightarrow> bool" where
  "env_keeps e P \<longleftrightarrow> stable_env (ie_others e) P \<and> stable_env (ie_between e) P \<and>
     (\<forall>s t. P s \<longrightarrow> id_step s t \<longrightarrow> P t)"

definition env_steps :: "identity_env \<Rightarrow> bool" where
  "env_steps e \<longleftrightarrow> (\<forall>n s. id_step\<^sup>*\<^sup>* s (ie_others e n s) \<and> id_step\<^sup>*\<^sup>* s (ie_between e n s))"

lemma env_steps_keeps:
  assumes "env_steps e" "\<And>s t. P s \<Longrightarrow> id_step s t \<Longrightarrow> P t"
  shows "env_keeps e P"
proof -
  have "P t" if "id_step\<^sup>*\<^sup>* s t" "P s" for s t
    using that by (induction rule: rtranclp_induct) (blast intro: assms(2))+
  then show ?thesis using assms unfolding env_keeps_def env_steps_def stable_env_def by blast
qed

lemma keeps_step: "env_keeps e P \<Longrightarrow> P s \<Longrightarrow> id_step s t \<Longrightarrow> P t"
  by (simp add: env_keeps_def)

lemma keeps_id_read: "env_keeps e P \<Longrightarrow> svc_keeps P (id_read e g)"
  unfolding id_read_def by (rule valid_update) (auto simp: env_keeps_def)

lemma keeps_id_run:
  "env_keeps e P \<Longrightarrow> (\<And>s r t. f s = (r, t) \<Longrightarrow> id_step s t) \<Longrightarrow> svc_keeps P (id_run e f)"
  unfolding id_run_def by (rule valid_transaction) (auto simp: env_keeps_def)

lemma keeps_id_write: "env_keeps e P \<Longrightarrow> (\<And>s. id_step s (f s)) \<Longrightarrow> svc_keeps P (id_write e f)"
  unfolding id_write_def by (rule valid_update) (auto simp: env_keeps_def)

lemma keeps_id_update:
  "env_keeps e P \<Longrightarrow> (\<And>s b t. f s = (b, t) \<Longrightarrow> id_step s t) \<Longrightarrow> svc_keeps P (repo_update (ie_others e) f)"
  by (rule valid_update) (auto simp: env_keeps_def)

lemma keeps_id_store:
  "env_keeps e P \<Longrightarrow> (\<And>n s r t. P s \<Longrightarrow> f n s = (r, t) \<Longrightarrow> P t) \<Longrightarrow> svc_keeps P (svc_store (ie_others e) f)"
  by (rule valid_store; (unfold env_keeps_def, elim conjE, assumption)?)

lemma keeps_throw: "svc_keeps P (svc_throw x)"
  by (rule svc_validI) (auto simp: svc_throw_def)

lemma keeps_each: "(\<And>x. svc_keeps P (f x)) \<Longrightarrow> svc_keeps P (svc_each f xs)"
  by (induction xs) (auto intro: keeps_return keeps_bind)

lemma keeps_check: "svc_keeps P (svc_check b c)"
  by (auto simp: svc_check_def intro: keeps_return keeps_throw)

lemma keeps_found: "svc_keeps P (svc_found c v)"
  by (auto simp: svc_found_def intro: keeps_return keeps_throw split: option.split)

lemma keeps_lift: "svc_keeps P (svc_lift r)"
  by (auto simp: svc_lift_def intro: keeps_return keeps_throw split: sum.split)

lemma keeps_case_option: "svc_keeps P a \<Longrightarrow> (\<And>x. svc_keeps P (b x)) \<Longrightarrow> svc_keeps P (case v of None \<Rightarrow> a | Some x \<Rightarrow> b x)"
  by (cases v) auto

lemma keeps_case_sum: "(\<And>x. svc_keeps P (a x)) \<Longrightarrow> (\<And>x. svc_keeps P (b x)) \<Longrightarrow> svc_keeps P (case v of Inl x \<Rightarrow> a x | Inr x \<Rightarrow> b x)"
  by (cases v) auto

lemma keeps_case_prod: "(\<And>x y. svc_keeps P (a x y)) \<Longrightarrow> svc_keeps P (case v of (x, y) \<Rightarrow> a x y)"
  by (cases v) auto

lemma keeps_case_list: "svc_keeps P a \<Longrightarrow> (\<And>x y. svc_keeps P (b x y)) \<Longrightarrow> svc_keeps P (case v of [] \<Rightarrow> a | x # y \<Rightarrow> b x y)"
  by (cases v) auto

lemma keeps_if: "svc_keeps P a \<Longrightarrow> svc_keeps P b \<Longrightarrow> svc_keeps P (if c then a else b)"
  by auto

lemma keeps_let: "(\<And>x. svc_keeps P (f x)) \<Longrightarrow> svc_keeps P (Let v f)"
  by (simp add: Let_def)

lemmas service_rules = keeps_return keeps_bind keeps_catch keeps_when valid_call valid_read
  keeps_throw keeps_check keeps_found keeps_lift keeps_each keeps_if keeps_let
  keeps_case_option keeps_case_sum keeps_case_prod keeps_case_list keeps_id_read

lemmas write_rules = keeps_id_run keeps_id_write keeps_id_update

lemma revoke_user_step: "id_step s (revokeUserSessions u t s)" "id_step s (revokeSession k t s)"
  unfolding revokeUserSessions_def revokeSession_def by (rule step_revoke)+

lemmas id_steps = step_bootstrap step_ldap_login step_register step_failure step_session step_renew
  step_create_user step_status step_password step_update_role step_assign_system step_assign_project
  step_remove_system step_remove_project step_create_project step_rename_project step_archive_project
  step_transfer_project step_ldap step_audit revoke_user_step

lemma keeps_audit: "env_keeps e P \<Longrightarrow> svc_keeps P (audit e i)"
  unfolding audit_def audit_as_def by (intro service_rules write_rules; (assumption | erule step_audit))

lemma keeps_audit_as: "env_keeps e P \<Longrightarrow> svc_keeps P (audit_as e n i)"
  unfolding audit_as_def by (intro service_rules write_rules; (assumption | erule step_audit))

lemma keeps_audits:
  "env_keeps e P \<Longrightarrow> svc_keeps P (audit_done e a x y z u v)" "env_keeps e P \<Longrightarrow> svc_keeps P (login_audit e p k r)"
  "env_keeps e P \<Longrightarrow> svc_keeps P (bootstrap_audit e k r d)"
  unfolding audit_done_def login_audit_def bootstrap_audit_def by (rule keeps_audit; assumption)+

lemma keeps_new_session: "env_keeps e P \<Longrightarrow> svc_keeps P (createSession e u)"
  unfolding createSession_def by (intro service_rules write_rules; (assumption | erule step_session))

lemma keeps_found_row:
  "env_keeps e P \<Longrightarrow> svc_keeps P (requiredUser e u)" "env_keeps e P \<Longrightarrow> svc_keeps P (requiredRole e k)"
  "svc_keeps P (authorize a p j)" "svc_keeps P (assignable c r)"
  unfolding requiredUser_def requiredRole_def authorize_def assignable_def
  by (intro service_rules; assumption)+

lemma keeps_rejected: "env_keeps e P \<Longrightarrow> svc_keeps P (rejectedLogin e p k)"
  unfolding rejectedLogin_def by (intro service_rules keeps_audits)

lemma keeps_record: "env_keeps e P \<Longrightarrow> svc_keeps P (record_failure e c t)"
  unfolding record_failure_def by (intro service_rules write_rules; (assumption | rule step_failure))

lemma keeps_locally: "env_keeps e P \<Longrightarrow> svc_keeps P (loginLocally e p c)"
  unfolding loginLocally_def successfulLogin_def
  by (intro service_rules keeps_record keeps_rejected keeps_new_session keeps_audits)

lemma keeps_ldap_finish: "env_keeps e P \<Longrightarrow> svc_keeps P (finish_ldap_login e c i)"
  unfolding finish_ldap_login_def by (intro service_rules write_rules; (assumption | erule step_ldap_login))

lemma keeps_ldap: "env_keeps e P \<Longrightarrow> svc_keeps P (loginWithLdap e u p c)"
  unfolding loginWithLdap_def by (intro service_rules keeps_rejected keeps_ldap_finish keeps_audit)

lemma keeps_login: "env_keeps e P \<Longrightarrow> svc_keeps P (login e u p)"
  unfolding login_def by (intro service_rules keeps_rejected keeps_locally keeps_ldap)

text \<open>The operations of two statements, with the other processes in between.\<close>

lemma between: "env_keeps e P \<Longrightarrow> P s \<Longrightarrow> P (ie_between e n s)"
  by (simp add: env_keeps_def stable_env_def)

lemma createRole_keeps:
  assumes "env_keeps e P" "P s" "createRole (ie_between e n) i s = (r, t)"
  shows "P t"
proof (cases "ci_key i \<in> rw_key ` set (is_roles s)")
  case True
  then show ?thesis using assms(2,3) by (simp add: createRole_def)
next
  case False
  then have "transaction (insert_role i) (ie_between e n s) = (r, t)" using assms(3) by (simp add: createRole_def)
  then show ?thesis by (intro keeps_step [OF assms(1) between [OF assms(1,2)]] step_insert_role)
qed

lemma deleteRole_keeps:
  assumes "env_keeps e P" "P s" "deleteRole (ie_between e n) k s = (r, t)"
  shows "P t"
proof (cases "0 < role_references k s")
  case True
  then show ?thesis using assms(2,3) by (simp add: deleteRole_def)
next
  case False
  then have "transaction (delete_role_row k) (ie_between e n s) = (r, t)" using assms(3) by (simp add: deleteRole_def)
  then show ?thesis by (intro keeps_step [OF assms(1) between [OF assms(1,2)]] step_delete_role)
qed

lemma revoke_role_keeps:
  assumes "env_keeps e P" "P s"
  shows "P (revokeUserSessionsForRole (ie_between e n) k tm s)"
proof (cases "users_of_role k s = []")
  case True
  then show ?thesis using assms(2) by (simp add: revokeUserSessionsForRole_def)
next
  case False
  then have "revokeUserSessionsForRole (ie_between e n) k tm s =
      revoke_sessions (\<lambda>x. sw_user_id x \<in> set (users_of_role k s)) tm (ie_between e n s)"
    by (simp add: revokeUserSessionsForRole_def)
  then show ?thesis using keeps_step [OF assms(1) between [OF assms] step_revoke] by simp
qed

lemmas operation_rules = service_rules keeps_found_row keeps_audits keeps_new_session

lemma keeps_users:
  assumes "env_keeps e P"
  shows "svc_keeps P (svc_bootstrap e b i)" "svc_keeps P (svc_register e i)" "svc_keeps P (svc_createUser e a i)"
    "svc_keeps P (svc_updateUserStatus e a u st)" "svc_keeps P (svc_resetPassword e a u p f)"
    "svc_keeps P (svc_revokeUserSessions e a u)" "svc_keeps P (svc_changePassword e a p q)"
    "svc_keeps P (svc_revokeManagedSession e a k)"
  using assms
  unfolding svc_bootstrap_def svc_register_def registrationAvailability_def setupRequired_def svc_createUser_def svc_updateUserStatus_def
    svc_resetPassword_def svc_revokeUserSessions_def svc_changePassword_def svc_revokeManagedSession_def
  by - (intro operation_rules write_rules; (assumption | erule id_steps | rule id_steps))+

lemma keeps_roles:
  assumes "env_keeps e P"
  shows "svc_keeps P (svc_createRole e a i)" "svc_keeps P (svc_updateRole e a k j)" "svc_keeps P (svc_deleteRole e a k)"
proof -
  show "svc_keeps P (svc_createRole e a i)"
    unfolding svc_createRole_def using assms
    by - (intro operation_rules keeps_id_store; (assumption | erule (2) createRole_keeps))
  show "svc_keeps P (svc_deleteRole e a k)"
    unfolding svc_deleteRole_def using assms
    by - (intro operation_rules keeps_id_store; (assumption | erule (2) deleteRole_keeps))
  show "svc_keeps P (svc_updateRole e a k j)"
    unfolding svc_updateRole_def check_role_change_def using assms
    by - (intro operation_rules write_rules keeps_id_store; (assumption | erule step_update_role |
        (simp, metis revoke_role_keeps)))
qed

lemma keeps_bindings:
  assumes "env_keeps e P"
  shows "svc_keeps P (svc_assignSystemRole e a u k)" "svc_keeps P (svc_assignProjectRole e a u j k)"
    "svc_keeps P (svc_removeSystemRole e a u k)" "svc_keeps P (svc_removeProjectRole e a u j k)"
  using assms
  unfolding svc_assignSystemRole_def svc_assignProjectRole_def svc_removeSystemRole_def svc_removeProjectRole_def
    ensureProjectOwnerCanStillManage_def userCanManageProject_def
  by - (intro operation_rules write_rules; (assumption | erule id_steps | rule id_steps))+

lemma keeps_selection: "env_keeps e P \<Longrightarrow> svc_keeps P (svc_assignRoleSelection e a us ks j)"
  unfolding svc_assignRoleSelection_def by (intro operation_rules keeps_bindings)

lemma keeps_projects:
  assumes "env_keeps e P"
  shows "svc_keeps P (svc_createProject e a n l)" "svc_keeps P (svc_renameProject e a j n)"
    "svc_keeps P (svc_transferProjectOwner e a j u)" "svc_keeps P (svc_archiveProject e a j)"
    "svc_keeps P (svc_saveLdapConfiguration e a i)"
  using assms
  unfolding svc_createProject_def svc_renameProject_def svc_transferProjectOwner_def svc_archiveProject_def
    svc_saveLdapConfiguration_def userCanManageProject_def
  by - (intro operation_rules write_rules; (assumption | erule id_steps | rule id_steps))+

section \<open>Requests\<close>

type_synonym id_world = "id_store service_world"

text \<open>A process that serves requests, one after the other, with any outcome.\<close>

inductive id_request :: "identity_env \<Rightarrow> id_world \<Rightarrow> id_world \<Rightarrow> bool" for e where
  "id_request e w (snd (svc_bootstrap e b1 i1 w))"
| "id_request e w (snd (svc_register e i2 w))"
| "id_request e w (snd (login e u3 p3 w))"
| "id_request e w (snd (refreshSession e a4 w))"
| "id_request e w (snd (logout e a5 w))"
| "id_request e w (snd (svc_createUser e a6 i6 w))"
| "id_request e w (snd (svc_updateUserStatus e a7 u7 st7 w))"
| "id_request e w (snd (svc_resetPassword e a8 u8 p8 f8 w))"
| "id_request e w (snd (svc_revokeUserSessions e a9 u9 w))"
| "id_request e w (snd (svc_changePassword e a10 p10 q10 w))"
| "id_request e w (snd (svc_revokeManagedSession e a11 k11 w))"
| "id_request e w (snd (svc_createRole e a12 i12 w))"
| "id_request e w (snd (svc_updateRole e a13 k13 i13 w))"
| "id_request e w (snd (svc_deleteRole e a14 k14 w))"
| "id_request e w (snd (svc_assignSystemRole e a15 u15 k15 w))"
| "id_request e w (snd (svc_assignProjectRole e a16 u16 j16 k16 w))"
| "id_request e w (snd (svc_removeSystemRole e a17 u17 k17 w))"
| "id_request e w (snd (svc_removeProjectRole e a18 u18 j18 k18 w))"
| "id_request e w (snd (svc_assignRoleSelection e a19 us19 ks19 j19 w))"
| "id_request e w (snd (svc_createProject e a20 n20 l20 w))"
| "id_request e w (snd (svc_renameProject e a21 j21 n21 w))"
| "id_request e w (snd (svc_transferProjectOwner e a22 j22 u22 w))"
| "id_request e w (snd (svc_archiveProject e a23 j23 w))"
| "id_request e w (snd (svc_saveLdapConfiguration e a24 i24 w))"
| "id_request e w (snd (svc_initialize e t25 w))"
| "id_request e w (snd (authorizeBootstrapConfiguration e b26 w))"
| "id_request e w (snd (recordBootstrapConfiguration e m27 n27 w))"
| "id_request e w (snd (recordPlatformConfigurationChange e a28 m28 n28 w))"
| "id_request e w (snd (recordQueueDeadLetterRedrive e a29 n29 w))"
| "id_request e w (snd (recordTerminalSession e a30 r30 s30 j30 w))"
| "id_request e w (snd (recordTerminalLifecycle e i31 w))"
| "id_request e w (snd (recordRunnerOperation e r32 c32 d32 w))"
| "id_request e w (snd (recordAuthorizedOperation e v33 a33 i33 w))"
| "id_request e w (snd (recordAccessDenial e d34 w))"
| "id_request e w (snd (testLdapConfiguration e t35 a35 i35 w))"

lemma keeps_sessions: "env_keeps e P \<Longrightarrow> svc_keeps P (refreshSession e a)" "env_keeps e P \<Longrightarrow> svc_keeps P (logout e a)"
  unfolding refreshSession_def logout_def
  by (intro operation_rules write_rules; (assumption | erule step_renew | rule revoke_user_step))+

lemma keeps_appended: "env_keeps e P \<Longrightarrow> svc_keeps P (appended e y k c r d)"
  unfolding appended_def by (intro service_rules write_rules; (assumption | erule step_audit))

lemma keeps_records:
  assumes "env_keeps e P"
  shows "svc_keeps P (svc_initialize e texts)" "svc_keeps P (authorizeBootstrapConfiguration e b)"
    "svc_keeps P (recordBootstrapConfiguration e m n)" "svc_keeps P (recordPlatformConfigurationChange e a m n)"
    "svc_keeps P (recordQueueDeadLetterRedrive e a n)" "svc_keeps P (recordTerminalSession e a r k j)"
    "svc_keeps P (recordTerminalLifecycle e tc)" "svc_keeps P (recordRunnerOperation e r c d)"
    "svc_keeps P (recordAuthorizedOperation e f a i)" "svc_keeps P (recordAccessDenial e ad)"
    "svc_keeps P (testLdapConfiguration e g a lf)"
  using assms
  unfolding svc_initialize_def authorizeBootstrapConfiguration_def configuration_audit_def setupRequired_def
    recordBootstrapConfiguration_def recordPlatformConfigurationChange_def recordQueueDeadLetterRedrive_def
    settings_audit_def recordTerminalSession_def recordTerminalLifecycle_def recordRunnerOperation_def
    recordAuthorizedOperation_def recordAccessDenial_def testLdapConfiguration_def
  by - (intro operation_rules write_rules keeps_audit keeps_audit_as keeps_appended;
    (assumption | erule step_ensure))+

lemma request_keeps:
  assumes "id_request e w w'" "env_keeps e P" "P (wd_store w)"
  shows "P (wd_store w')"
  using assms(1)
proof cases
qed (hypsubst, rule valid_result, (rule keeps_users keeps_login keeps_sessions keeps_roles keeps_bindings
  keeps_selection keeps_projects keeps_records, rule assms(2)), rule assms(3))+

lemma request_steps: "id_request e w w' \<Longrightarrow> env_steps e \<Longrightarrow> id_step\<^sup>*\<^sup>* (wd_store w) (wd_store w')"
proof -
  assume r: "id_request e w w'" and e: "env_steps e"
  have "env_keeps e (\<lambda>s. id_step\<^sup>*\<^sup>* (wd_store w) s)"
    by (rule env_steps_keeps [OF e]) (rule rtranclp.rtrancl_into_rtrancl)
  then show ?thesis by (rule request_keeps [OF r]) simp
qed

lemma requests_steps: "(id_request e)\<^sup>*\<^sup>* w w' \<Longrightarrow> env_steps e \<Longrightarrow> id_step\<^sup>*\<^sup>* (wd_store w) (wd_store w')"
  by (induction rule: rtranclp_induct) (auto intro: rtranclp_trans dest: request_steps)

text \<open>Tables stay well formed and an administrator stays, whatever is requested and whatever others do.\<close>

lemma requests_safe:
  assumes "(id_request e)\<^sup>*\<^sup>* w w'" "env_steps e" "id_ok (wd_store w)" "administered (wd_store w)"
  shows "id_ok (wd_store w') \<and> administered (wd_store w')"
  using tables.steps [OF requests_steps [OF assms(1,2)] assms(3)]
    administration.steps [OF requests_steps [OF assms(1,2)] assms(4)] by simp

text \<open>Without permission nothing is done.\<close>

lemma denied: "\<not> hasPermission a p j \<Longrightarrow> svc_bind (authorize a p j) k w = (Inl (DomainError ''AUTH_FORBIDDEN''), w)"
  by (simp add: authorize_def svc_check_def svc_bind_def svc_throw_def)

text \<open>A refused request has read and written nothing.\<close>

definition refused :: "'a id_call \<Rightarrow> id_world \<Rightarrow> bool" where
  "refused m w \<longleftrightarrow> m w = (Inl (DomainError ''AUTH_FORBIDDEN''), w)"

lemma unauthorised_refused:
  "\<not> hasPermission a ''user.manage'' None \<Longrightarrow>
     refused (svc_createUser e a i) w \<and> refused (svc_updateUserStatus e a u st) w \<and>
     refused (svc_resetPassword e a u p f) w \<and> refused (svc_revokeUserSessions e a u) w"
  "\<not> hasPermission a ''role.manage'' None \<Longrightarrow>
     refused (svc_createRole e a ri) w \<and> refused (svc_updateRole e a k rc) w \<and>
     refused (svc_deleteRole e a k) w \<and> refused (svc_assignSystemRole e a u k) w \<and>
     refused (svc_removeSystemRole e a u k) w"
  "\<not> hasPermission a ''project.manage'' (Some j) \<Longrightarrow>
     refused (svc_assignProjectRole e a u j k) w \<and> refused (svc_removeProjectRole e a u j k) w \<and>
     refused (svc_renameProject e a j n) w \<and> refused (svc_transferProjectOwner e a j u) w \<and>
     refused (svc_archiveProject e a j) w"
  "\<not> hasPermission a ''ldap.manage'' None \<Longrightarrow> refused (svc_saveLdapConfiguration e a lf) w"
  unfolding svc_createUser_def svc_updateUserStatus_def svc_resetPassword_def svc_revokeUserSessions_def
    svc_createRole_def svc_updateRole_def svc_deleteRole_def svc_assignSystemRole_def svc_removeSystemRole_def
    svc_assignProjectRole_def svc_removeProjectRole_def svc_renameProject_def svc_transferProjectOwner_def
    svc_archiveProject_def svc_saveLdapConfiguration_def
  by (simp_all only: refused_def denied simp_thms)

section \<open>Changes of rights end sessions\<close>

definition session_known :: "string \<Rightarrow> ident \<Rightarrow> id_store \<Rightarrow> bool" where
  "session_known h u s \<longleftrightarrow> list_ex (\<lambda>x. sw_token_hash x = h \<and> sw_user_id x = u) (is_sessions s)"

lemma session_known_insert: "insert_session x s = Inr t \<Longrightarrow> session_known h u s \<Longrightarrow> session_known h u t"
  by (auto simp: insert_session_def and_then_eq_Inr insert_row_Inr session_known_def split: if_splits)

lemma session_known_update:
  assumes "session_known h u s" "keeps_session Q f"
  shows "session_known h u (update_sessions Q f s)"
proof -
  obtain x where x: "x \<in> set (is_sessions s)" "sw_token_hash x = h" "sw_user_id x = u"
    using assms(1) by (auto simp: session_known_def list_ex_iff)
  then have "(if Q x then f x else x) \<in> set (is_sessions (update_sessions Q f s))"
    using update_where_memI [of x "is_sessions s" Q f] by (simp add: update_sessions_def)
  moreover have "sw_token_hash (if Q x then f x else x) = h \<and> sw_user_id (if Q x then f x else x) = u"
    using assms(2) x(2,3) by (simp add: keeps_session_def)
  ultimately show ?thesis unfolding session_known_def list_ex_iff by blast
qed

interpretation known: id_invariant "session_known h u" for h u
proof unfold_locales
  show "session_known h u t" if "session_known h u s" "insert_session y s = Inr t" for s y t
    by (rule session_known_insert [OF that(2,1)])
  show "session_known h u (update_sessions Q f s)" if "session_known h u s" "keeps_session Q f" for s Q f
    by (rule session_known_update [OF that])
qed (auto simp: session_known_def sessions_frame(2,4) dest!: sessions_frame(1,3,5-10))

lemma revokeUserSessions_ends: "session_known h u s \<Longrightarrow> session_revoked h (revokeUserSessions u t s)"
proof -
  assume "session_known h u s"
  then obtain x where x: "x \<in> set (is_sessions s)" "sw_token_hash x = h" "sw_user_id x = u"
    by (auto simp: session_known_def list_ex_iff)
  let ?Q = "\<lambda>x. sw_user_id x = u \<and> sw_revoked_at x = None"
  let ?f = "\<lambda>x. x\<lparr>sw_revoked_at := Some t\<rparr>"
  define y where "y = (if ?Q x then ?f x else x)"
  have "is_sessions (revokeUserSessions u t s) = update_where ?Q ?f (is_sessions s)"
    by (simp add: revokeUserSessions_def revoke_sessions_def update_sessions_def)
  then have "y \<in> set (is_sessions (revokeUserSessions u t s))"
    using update_where_memI [OF x(1), of ?Q ?f] by (simp only: y_def)
  moreover have "sw_token_hash y = h" "sw_revoked_at y \<noteq> None" using x(2,3) by (simp_all add: y_def)
  ultimately show ?thesis unfolding session_revoked_def list_ex_iff by blast
qed

text \<open>
  \<open>ends m h u\<close>: after the call \<open>m\<close> has returned, the session \<open>h\<close> of the user \<open>u\<close> is revoked.
\<close>

abbreviation ends :: "(id_store, unit, domain_error, 'a) svc \<Rightarrow> string \<Rightarrow> ident \<Rightarrow> bool" where
  "ends m h u \<equiv> svc_valid (session_known h u) m (\<lambda>_. session_revoked h) (\<lambda>_. True)"

lemma env_known: "env_steps e \<Longrightarrow> env_keeps e (session_known h u)"
  by (rule env_steps_keeps) (auto intro: known.step)

lemma env_revoked: "env_steps e \<Longrightarrow> env_keeps e (session_revoked h)"
  by (rule env_steps_keeps) (auto intro: revoked.step)

lemma valid_weak: "svc_keeps P m \<Longrightarrow> svc_valid P m (\<lambda>_. P) (\<lambda>_. True)"
  unfolding svc_valid_def by (fastforce split: sum.splits)

lemma ends_before: "svc_keeps (session_known h u) m \<Longrightarrow> (\<And>a. ends (f a) h u) \<Longrightarrow> ends (svc_bind m f) h u"
  by (rule valid_bind [OF valid_weak])

lemma ends_here:
  assumes "env_steps e" "\<And>a. svc_keeps (session_revoked h) (f a)"
  shows "ends (svc_bind (id_write e (revokeUserSessions u t)) f) h u"
proof (rule valid_bind)
  show "svc_valid (session_known h u) (id_write e (revokeUserSessions u t)) (\<lambda>_. session_revoked h) (\<lambda>_. True)"
    unfolding id_write_def
    by (rule valid_update) (use env_known [OF assms(1)] revokeUserSessions_ends in \<open>auto simp: env_keeps_def\<close>)
  show "svc_valid (session_revoked h) (f a) (\<lambda>_. session_revoked h) (\<lambda>_. True)" for a
    by (rule valid_weak [OF assms(2)])
qed

lemma valid_when_not: "\<not> b \<Longrightarrow> svc_keeps P (when_true b m)"
  by (simp add: keeps_return)

lemma rights_end_sessions:
  assumes "env_steps e"
  shows "ends (svc_updateUserStatus e a u User_Disabled) h u" "ends (svc_resetPassword e a u p f) h u"
    "ends (svc_assignSystemRole e a u k) h u" "ends (svc_assignProjectRole e a u j k) h u"
    "ends (svc_removeSystemRole e a u k) h u" "ends (svc_removeProjectRole e a u j k) h u"
    "ends (svc_changePassword e a p q) h (ur_id (ai_user a))"
  using env_known [OF assms, of h] env_revoked [OF assms, of h]
  unfolding svc_updateUserStatus_def svc_resetPassword_def svc_assignSystemRole_def svc_assignProjectRole_def
    svc_removeSystemRole_def svc_removeProjectRole_def svc_changePassword_def when_true_def simp_thms if_True
    ensureProjectOwnerCanStillManage_def userCanManageProject_def
  by - ((rule ends_here [OF assms], (intro operation_rules write_rules; (assumption | erule id_steps | rule id_steps))) |
    (rule ends_before, (intro operation_rules write_rules; (assumption | erule id_steps | rule id_steps))))+

section \<open>Logins\<close>

lemma bind_Inr: "svc_bind m f w = (Inr b, w') \<longleftrightarrow> (\<exists>a u. m w = (Inr a, u) \<and> f a u = (Inr b, w'))"
  by (auto simp: svc_bind_def split: prod.splits sum.splits)

lemma rejected_Inr [simp]: "rejectedLogin e p k w \<noteq> (Inr a, w')"
  by (auto simp: rejectedLogin_def bind_Inr svc_throw_def)

text \<open>The store that a call sees when the world is \<open>w\<close>.\<close>

definition seen :: "identity_env \<Rightarrow> id_world \<Rightarrow> id_store" where
  "seen e w = ie_others e (wd_calls w) (wd_store w)"

definition after_read :: "identity_env \<Rightarrow> id_world \<Rightarrow> id_world" where
  "after_read e w = w\<lparr>wd_store := seen e w, wd_calls := Suc (wd_calls w)\<rparr>"

lemma id_read_result: "id_read e g w = (Inr (g (seen e w)), after_read e w)"
  by (simp add: id_read_def repo_update_def svc_store_def seen_def after_read_def)

lemma after_read_calls [simp]: "wd_calls (after_read e w) = Suc (wd_calls w)"
  by (simp add: after_read_def)

lemma read_result: "svc_read g w = (Inr (g (wd_calls w)), w\<lparr>wd_calls := Suc (wd_calls w)\<rparr>)"
  by (simp add: svc_read_def svc_call_def)

definition stored_hash :: "(user \<times> string option) option \<Rightarrow> string" where
  "stored_hash credential = (case credential of Some (_, Some h) \<Rightarrow> h | _ \<Rightarrow> DUMMY_PASSWORD_HASH)"

lemma loginLocally_accepts:
  assumes "loginLocally e p c w = (Inr r, w')"
  shows "login_accepted c (ie_now e (wd_calls w)) (ie_password_verify e p (stored_hash c))"
proof (rule ccontr)
  assume "\<not> ?thesis"
  then show False using assms
    by (simp add: loginLocally_def Let_def bind_Inr read_result stored_hash_def)
qed

lemma loginWithLdap_accepts:
  assumes "loginWithLdap e u p c w = (Inr r, w')"
  obtains k d i where "c = Some k" "lc_enabled k" "directoryConfiguration e k = Inr d"
    "ie_authenticate e (wd_calls w) d u p = Inr i"
proof -
  obtain k where k: "c = Some k" "lc_enabled k"
    using assms by (auto simp: loginWithLdap_def split: option.splits if_splits)
  show ?thesis
  proof (cases "and_then (directoryConfiguration e k) (\<lambda>d. ie_authenticate e (wd_calls w) d u p)")
    case (Inl x)
    then show ?thesis using assms k
      by (auto simp: loginWithLdap_def bind_Inr svc_call_def svc_throw_def split: if_splits)
  next
    case (Inr i)
    then show ?thesis using that k by (auto simp: and_then_eq_Inr)
  qed
qed

text \<open>
  Whoever logs in was an active local account whose password is right and that was not locked when
  it was read, or the enabled directory has accepted the name and the password.
\<close>

lemma login_sound:
  assumes "login e username password w = (Inr r, w')"
  defines "account \<equiv> findUserByUsername (normalizeUsername username) (seen e w)"
  shows "(\<exists>u h. account = Some (u, h) \<and> ur_source u = Local_Source \<and> ur_status u = User_Active \<and>
      \<not> isLocked (ur_locked_until u) (ie_now e (Suc (wd_calls w))) \<and>
      ie_password_verify e password (stored_hash (Some (u, h)))) \<or>
    (\<forall>u h. account = Some (u, h) \<longrightarrow> ur_source u = Ldap_Source \<and> ur_status u = User_Active) \<and>
    (\<exists>c d i. getLdapConfiguration (seen e (after_read e w)) = Some c \<and> lc_enabled c \<and>
      directoryConfiguration e c = Inr d \<and>
      ie_authenticate e (Suc (Suc (wd_calls w))) d username password = Inr i)"
    (is "?local \<or> ?directory")
proof -
  let ?w = "after_read e w"
  consider u h where "account = Some (u, h)" "ur_source u = Local_Source" |
    u h where "account = Some (u, h)" "ur_source u = Ldap_Source" | "account = None"
  proof (cases account)
    case (Some c)
    then show ?thesis using that(1,2) by (cases c; cases "ur_source (fst c)") auto
  qed (use that in simp)
  then show ?thesis
  proof cases
    case (1 u h)
    then have "loginLocally e password account ?w = (Inr r, w')"
      using assms(1) by (simp add: account_def login_def bind_Inr id_read_result)
    from loginLocally_accepts [OF this] show ?thesis using 1 by (auto simp: login_accepted_def)
  next
    case (2 u h)
    then have a: "ur_status u = User_Active"
        "loginWithLdap e username password (getLdapConfiguration (seen e ?w)) (after_read e ?w) = (Inr r, w')"
      using assms(1) by (auto simp: account_def login_def bind_Inr id_read_result split: if_splits)
    show ?thesis by (rule loginWithLdap_accepts [OF a(2)]) (use a(1) 2 in auto)
  next
    case 3
    have "\<not> (\<exists>w. loginLocally e password None w = (Inr r, w'))"
      using loginLocally_accepts [of e password None] by (auto simp: login_accepted_def)
    then have "loginWithLdap e username password (getLdapConfiguration (seen e ?w)) (after_read e ?w) = (Inr r, w')"
      using assms(1) 3 by (auto simp: account_def login_def bind_Inr id_read_result split: if_splits)
    then show ?thesis by (rule loginWithLdap_accepts) (use 3 in auto)
  qed
qed

text \<open>
  A failed login writes the count that was read before the password was checked, and its lock: of two
  failures at the same time one is lost, and the lock that another one has set is taken off.
\<close>

lemma stale_failure:
  assumes "ur_source u = Local_Source" "ur_status u = User_Active"
    "x \<in> set (is_users (wd_store (snd (record_failure e (Some (u, h)) now w))))" "uw_id x = ur_id u"
  shows "uw_failed_login_attempts x = ur_failed_login_attempts u + 1 \<and>
    (ur_failed_login_attempts u + 1 < MAXIMUM_FAILED_LOGINS \<longrightarrow> uw_locked_until x = None)"
proof -
  have "wd_store (snd (record_failure e (Some (u, h)) now w)) = recordLoginFailure (ur_id u)
      (ur_failed_login_attempts u + 1) (failure_lock (ur_failed_login_attempts u + 1) now) now (seen e w)"
    using assms(1,2) by (simp add: record_failure_def id_write_def repo_update_def svc_store_def seen_def)
  then have "x \<in> set (update_where (\<lambda>y. uw_id y = ur_id u) (\<lambda>y. y\<lparr>uw_failed_login_attempts := ur_failed_login_attempts u + 1,
      uw_locked_until := failure_lock (ur_failed_login_attempts u + 1) now,
      uw_updated_at := now, uw_version := uw_version y + 1\<rparr>) (is_users (seen e w)))"
    using assms(3) by (simp add: recordLoginFailure_def update_user_def)
  then show ?thesis
    by (cases rule: update_where_cases) (use assms(4) in \<open>simp_all add: failure_lock_def\<close>)
qed

section \<open>What requests guarantee\<close>

text \<open>A session that no sequence of operations makes valid again.\<close>

definition session_ended :: "string \<Rightarrow> id_world \<Rightarrow> bool" where
  "session_ended h w \<longleftrightarrow> (\<forall>t now. id_step\<^sup>*\<^sup>* (wd_store w) t \<longrightarrow> resolveSession h now t = None)"

lemma ended_by:
  assumes "ends m h u" "svc_keeps id_ok m" "id_ok (wd_store w)" "session_known h u (wd_store w)"
    "m w = (Inr r, w')"
  shows "session_ended h w'"
  using revoked_stay_unresolved svc_valid_Inr [OF assms(1,4,5)] svc_valid_Inr [OF assms(2,3,5)]
  by (simp add: session_ended_def)

lemma rights_changes:
  assumes "env_steps e" "id_ok (wd_store w)" "session_known h u (wd_store w)"
  shows "svc_updateUserStatus e a u User_Disabled w = (Inr v, w') \<Longrightarrow> session_ended h w'"
    "svc_resetPassword e a u p f w = (Inr v, w') \<Longrightarrow> session_ended h w'"
    "svc_assignSystemRole e a u k w = (Inr x, w') \<Longrightarrow> session_ended h w'"
    "svc_assignProjectRole e a u j k w = (Inr x, w') \<Longrightarrow> session_ended h w'"
    "svc_removeSystemRole e a u k w = (Inr x, w') \<Longrightarrow> session_ended h w'"
    "svc_removeProjectRole e a u j k w = (Inr x, w') \<Longrightarrow> session_ended h w'"
    "ur_id (ai_user a) = u \<Longrightarrow> svc_changePassword e a p q w = (Inr x, w') \<Longrightarrow> session_ended h w'"
proof -
  have e: "env_keeps e id_ok" by (rule env_steps_keeps [OF assms(1) tables.step])
  note by_rights = ended_by [OF rights_end_sessions(1) [OF assms(1)] keeps_users(4) [OF e] assms(2,3)]
    ended_by [OF rights_end_sessions(2) [OF assms(1)] keeps_users(5) [OF e] assms(2,3)]
    ended_by [OF rights_end_sessions(3) [OF assms(1)] keeps_bindings(1) [OF e] assms(2,3)]
    ended_by [OF rights_end_sessions(4) [OF assms(1)] keeps_bindings(2) [OF e] assms(2,3)]
    ended_by [OF rights_end_sessions(5) [OF assms(1)] keeps_bindings(3) [OF e] assms(2,3)]
    ended_by [OF rights_end_sessions(6) [OF assms(1)] keeps_bindings(4) [OF e] assms(2,3)]
  show "svc_updateUserStatus e a u User_Disabled w = (Inr v, w') \<Longrightarrow> session_ended h w'"
    "svc_resetPassword e a u p f w = (Inr v, w') \<Longrightarrow> session_ended h w'"
    "svc_assignSystemRole e a u k w = (Inr x, w') \<Longrightarrow> session_ended h w'"
    "svc_assignProjectRole e a u j k w = (Inr x, w') \<Longrightarrow> session_ended h w'"
    "svc_removeSystemRole e a u k w = (Inr x, w') \<Longrightarrow> session_ended h w'"
    "svc_removeProjectRole e a u j k w = (Inr x, w') \<Longrightarrow> session_ended h w'"
    by (rule by_rights, assumption)+
  show "session_ended h w'" if "ur_id (ai_user a) = u" "svc_changePassword e a p q w = (Inr x, w')"
    using ended_by [OF rights_end_sessions(7) [OF assms(1)] keeps_users(7) [OF e] assms(2) _ that(2)]
      assms(3) that(1) by simp
qed

end
