(* ===== verification/Identity_Scenario.thy ===== *)
theory Identity_Scenario
  imports Identity_Service_Facts
begin

text \<open>
  Inputs of the witnesses on identities: a store with the built-in roles and the default project, the
  same after the first administrator has been created and logged in, and one with an account of the
  directory that is disabled while it logs in.
\<close>

definition ex_texts :: "string \<Rightarrow> string \<times> string" where
  "ex_texts key = (key, '''')"

definition ex_fresh_store :: id_store where
  "ex_fresh_store =
     \<lparr>is_users = [], is_externals = [], is_sessions = [],
      is_roles = map (\<lambda>d. built_in_row d 0) (builtInRoleDefinitions ex_texts), is_system_roles = [],
      is_project_roles = [],
      is_projects = [\<lparr>pj_id = DEFAULT_PROJECT_ID, pj_name = ''Default'', pj_slug = ''default'',
        pj_is_default = True, pj_archived = False, pj_owner_user_id = None, pj_created_at = 0,
        pj_updated_at = 0\<rparr>],
      is_bootstrap_uses = [], is_ldap = None, is_audits = []\<rparr>"

definition ex_directory_identity :: directory_identity where
  "ex_directory_identity =
     \<lparr>di_subject = ''s1'', di_username = ''new'', di_display_name = ''New'', di_email = None,
      di_group_dns = [], di_attributes = []\<rparr>"

text \<open>No other process, a directory that knows one person, passwords whose hash shows them.\<close>

definition ex_identity_env :: identity_env where
  "ex_identity_env =
     \<lparr>ie_others = (\<lambda>n s. s), ie_between = (\<lambda>n s. s), ie_now = int, ie_id = (\<lambda>n. ''i'' @ show_nat n),
      ie_token = (\<lambda>n. ''t'' @ show_nat n), ie_token_hash = (\<lambda>t. CHR 0x23 # t),
      ie_bootstrap_token = (\<lambda>t. t = ''boot''), ie_password_hash = (\<lambda>n p. ''h'' @ p),
      ie_password_verify = (\<lambda>p h. h = ''h'' @ p), ie_cipher_available = True,
      ie_encrypt = (\<lambda>p k. p), ie_decrypt = (\<lambda>c k. c),
      ie_authenticate = (\<lambda>n d u p. if p = ''pw'' then Inr ex_directory_identity
        else Inl (DomainError ''LDAP_CREDENTIAL_REJECTED'')),
      ie_label = (\<lambda>a. Some a), ie_legacy_label = '''', ie_session_ttl_hours = 12\<rparr>"

definition ex_new_user :: "string \<Rightarrow> new_user_input" where
  "ex_new_user name = \<lparr>nu_username = name, nu_display_name = name, nu_email = None,
     nu_password = ''pw'', nu_force_password_change = False\<rparr>"

definition ex_root_user :: create_local_user where
  "ex_root_user = local_record (ex_new_user ''root'') ''u'' ''hpw'' False 1"

definition ex_bootstrap :: bootstrap_input where
  "ex_bootstrap = \<lparr>bi_token_hash = ''#boot'', bi_user = ex_root_user,
     bi_system_role_id = SYSTEM_ADMIN_ROLE_ID, bi_project_id = DEFAULT_PROJECT_ID,
     bi_project_role_id = PROJECT_ADMIN_ROLE_ID, bi_recorded_at = 1\<rparr>"

text \<open>The administrator has the session of the hash \<open>#t\<close>.\<close>

definition ex_id_world :: id_world where
  "ex_id_world = \<lparr>wd_store = ex_fresh_store
     \<lparr>is_users := [local_user_row ex_root_user],
      is_sessions := [\<lparr>sw_id = ''s'', sw_user_id = ''u'', sw_token_hash = ''#t'', sw_expires_at = 100,
        sw_last_seen_at = 1, sw_created_at = 1, sw_revoked_at = None\<rparr>],
      is_system_roles := [\<lparr>sb_user_id = ''u'', sb_role_id = SYSTEM_ADMIN_ROLE_ID,
        sb_source = Manual_Binding, sb_assigned_at = 1, sb_assigned_by = Some ''u''\<rparr>]\<rparr>, wd_calls = 0\<rparr>"

definition ex_root :: authenticated_identity where
  "ex_root = \<lparr>ai_user = mapUser (local_user_row ex_root_user), ai_session_id = ''s'',
     ai_system_permissions = sort permissionCatalog, ai_project_permissions = []\<rparr>"

definition ex_ldap_settings :: stored_ldap_configuration where
  "ex_ldap_settings =
     \<lparr>lc_enabled = True, lc_url = ''ldaps://d'', lc_tls_reject_unauthorized = True,
      lc_connect_timeout_ms = 5000, lc_bind_dn = [], lc_bind_password_encrypted = None,
      lc_user_base_dn = ''dc=x'', lc_user_filter = ''(uid={{username}})'',
      lc_display_name_attribute = ''cn'', lc_mail_attribute = ''mail'', lc_group_attribute = ''memberOf'',
      lc_group_search_base = [], lc_group_search_filter = [], lc_group_name_attribute = ''cn'',
      lc_default_role = Ldap_Viewer, lc_updated_at = 5, lc_updated_by = ''root'', lc_created_at = 5,
      lc_version = 1\<rparr>"

definition ex_ldap_input :: ldap_user_input where
  "ex_ldap_input = \<lparr>li_user_id = ''l'', li_external_identity_id = ''x'', li_provider_id = LDAP_PROVIDER_ID,
     li_identity = ex_directory_identity, li_synchronized_at = 5\<rparr>"

text \<open>An account of the directory, and the same after an administrator has disabled it.\<close>

definition ex_directory_world :: id_world where
  "ex_directory_world =
     (let s = wd_store ex_id_world
      in ex_id_world\<lparr>wd_store := snd (saveLdapConfiguration ex_ldap_settings
        (s\<lparr>is_users := is_users s @ [ldap_user_row ex_ldap_input],
           is_externals := [external_row ex_ldap_input ''l'']\<rparr>))\<rparr>)"

definition ex_disabled_store :: id_store where
  "ex_disabled_store = snd (updateUserStatus ''l'' User_Disabled 15 (wd_store ex_directory_world))"

definition ex_ldap_login :: ldap_login_input where
  "ex_ldap_login =
     \<lparr>ll_user = ex_ldap_input\<lparr>li_user_id := ''l2'', li_external_identity_id := ''x2''\<rparr>,
      ll_default_role = ldapDefaultRole Ldap_Viewer 20,
      ll_session = \<lparr>si_id = ''s2'', si_token_hash = ''th'', si_created_at = 20, si_expires_at = 30\<rparr>,
      ll_audit = \<lparr>av_id = ''a'', av_actor_type = Actor_User, av_actor_id = None, av_action = ''auth.login'',
        av_resource_type = ''session'', av_resource_id = None, av_project_id = None,
        av_result = Audit_Succeeded, av_request_id = None, av_details = [], av_recorded_at = 20\<rparr>\<rparr>"

text \<open>While a wrong password is checked, four more failures of others lock the account.\<close>

definition ex_locked_by_others :: identity_env where
  "ex_locked_by_others = ex_identity_env\<lparr>ie_others := (\<lambda>n. recordLoginFailure ''u'' 5 (Some 1000) 10)\<rparr>"

end
