(* ===== verification/Exec_Facts.thy ===== *)
theory Exec_Facts
  imports Exec_System
begin

text \<open>
  What the operations of the execution store do, branch by branch: finished runs in the future of a
  state, reports after the first one, late reports, the drain of a terminated batch, the guards of a
  renewal, the replay of a claim.
\<close>

subsection \<open>Future states\<close>

lemma finished_run_stays:
  assumes "store_ok s" "exec_step\<^sup>*\<^sup>* s t" "r \<in> set (st_runs s)" "isTerminalRunStatus (rr_status r)"
  shows "\<exists>r'\<in>set (st_runs t). rr_id r' = rr_id r \<and> isTerminalRunStatus (rr_status r')"
proof -
  have "p_run (abs_store s) (rr_id r) = Some Done"
    using abs_rows(1) [OF store_okD(1) [OF assms(1)] assms(3)] assms(4) by simp
  then have "p_run (abs_store t) (rr_id r) = Some Done"
    using pstep_done_steps [OF execution.simulation_steps [OF assms(2,1)]] assms(1)
    by (simp add: store_ok_def)
  then obtain r' where "row_by rr_id (rr_id r) (st_runs t) = Some r'" "phase_of_run (rr_status r') = Done"
    by (auto simp: abs_store_def)
  then show ?thesis using row_by_SomeD by fastforce
qed

lemma closed_attempt_stays:
  assumes "store_ok s" "exec_step\<^sup>*\<^sup>* s t" "a \<in> set (st_attempts s)" "\<not> active_attempt (at_status a)"
  shows "\<exists>a'\<in>set (st_attempts t). at_id a' = at_id a \<and> at_run_id a' = at_run_id a
    \<and> \<not> active_attempt (at_status a')"
proof -
  have "p_att (abs_store s) (at_id a) = Some (at_run_id a, False)"
    using abs_rows(2) [OF store_okD(1) [OF assms(1)] assms(3)] assms(4) by simp
  then have "p_att (abs_store t) (at_id a) = Some (at_run_id a, False)"
    by (rule pstep_over_steps [OF execution.simulation_steps [OF assms(2,1)]])
  then obtain a' where "row_by at_id (at_id a) (st_attempts t) = Some a'" "at_run_id a' = at_run_id a"
      "\<not> active_attempt (at_status a')"
    by (auto simp: abs_store_def)
  then show ?thesis using row_by_SomeD by fastforce
qed

text \<open>A valid lease is held by the active attempt of a busy run.\<close>

lemma active_lease_chain:
  assumes "store_ok s" "l \<in> set (st_leases s)" "ls_status l = L_Active"
  shows "\<exists>a\<in>set (st_assignments s). \<exists>t\<in>set (st_attempts s). \<exists>r\<in>set (st_runs s).
    as_id a = ls_assignment_id l \<and> leased_assignment (as_status a) \<and> at_id t = as_attempt_id a \<and>
    active_attempt (at_status t) \<and> rr_id r = at_run_id t \<and> busy_run (rr_status r)"
proof -
  note lk = store_okD(1) [OF assms(1)]
  obtain a where a: "a \<in> set (st_assignments s)" "as_id a = ls_assignment_id l"
    using linked_lease [OF lk assms(2)] .
  have leased: "leased_assignment (as_status a)"
    using active_lease_assignment [OF assms a] .
  obtain t r where t: "t \<in> set (st_attempts s)" "at_id t = as_attempt_id a" "at_run_id t = as_run_id a"
      "r \<in> set (st_runs s)" "rr_id r = as_run_id a"
    using linked_assignment [OF lk a(1)] by metis
  have act: "active_attempt (at_status t)"
    using open_assignment_attempt [OF assms(1) a(1) _ t(1,2)] leased by blast
  have "busy_run (rr_status r)"
    using active_attempt_busy [OF assms(1) t(1) act t(4)] t(3,5) by simp
  then show ?thesis using a t act leased by (metis (no_types))
qed

subsection \<open>Reports of an attempt\<close>

lemma settle_receipts [simp]: "st_receipts (settle_batch b now s) = st_receipts s"
proof -
  have adv: "st_receipts (advanceRoundIfIdle k m q now u) = st_receipts u" for k m q u
    by (rule advanceRound_cases [of k m q now u]) (simp_all add: release_round_def)
  have "st_receipts (snd (terminateWaitingRuns k why now u)) = st_receipts u" for k why u
    by (simp add: terminateWaitingRuns_def Let_def terminate_defs)
  then show ?thesis using adv by (simp add: settle_batch_def Let_def)
qed

lemma updateBatchStatus_receipts:
  assumes "updateBatchStatus k now e why s = Inr (st, t)"
  shows "st_receipts t = st_receipts s"
  using assms by (cases rule: updateBatchStatus_Inr) (simp_all add: put_batch_status_def)

lemma persistCompletion_receipts:
  assumes "persistCompletion control a l result i rst s = Inr (bst, t)"
  shows "st_receipts t = st_receipts s"
  using assms
proof (rule persistCompletion_Inr)
  fix tm rows lg evs
  assume "updateBatchStatus (ac_batch_id control) (co_accepted_at i) (co_event_id i)
      ''attempt.completed''
      ((completed_rows i result (status_of_outcome (cz_status result)) (as_id a) (ls_id l)
          (ac_run_id control) rst
          (if rst = R_Queued then None else Some (cz_status result))
          (if rst = R_Queued then None else Some (ac_runner_id control))
          (if rst = R_Queued then None else Some (cz_result_code result)) tm s)
        \<lparr>st_artifacts := rows, st_logs := lg, st_attempt_events := evs\<rparr>) = Inr (bst, t)"
  then show "st_receipts t = st_receipts s"
    by (drule_tac updateBatchStatus_receipts)
      (simp add: completed_rows_def complete_attempt_row_def complete_assignment_row_def
        release_lease_row_def finish_run_row_def)
qed

lemma insert_receipt_Inr:
  assumes "insert_receipt i resp s = Inr t"
  obtains rc where "t = s\<lparr>st_receipts := st_receipts s @ [rc]\<rparr>" "rc_attempt_id rc = co_attempt_id i"
    "rc_result_digest rc = co_result_digest i" "rc_response rc = resp"
    "co_attempt_id i \<notin> rc_attempt_id ` set (st_receipts s)"
  using assms by (auto simp: insert_receipt_def and_then_eq_Inr insert_row_Inr)

lemma accept_completion_receipts:
  assumes "accept_completion i f op a l s = Inr (resp, t)"
  shows "\<exists>rc. st_receipts t = st_receipts s @ [rc] \<and> rc_attempt_id rc = co_attempt_id i
    \<and> rc_result_digest rc = co_result_digest i"
proof -
  define result where "result = cancellationResult (co_result i) (ac_run_cancel_requested_at (op_control op))"
  obtain rst retry where dec: "completion_decision (op_control op) result s = (rst, retry)" by fastforce
  obtain s1 bst s2 where s1: "insert_receipt i (first_response i op False retry) s = Inr s1"
    and s2: "persistCompletion (op_control op) a l result i rst s1 = Inr (bst, s2)"
    and s3: "t = s2 \<or> (\<exists>es. appendSchedulingEventDrafts es s2 = Inr t)"
    using assms unfolding accept_completion_def Let_def result_def [symmetric] dec prod.case
      and_then_eq_Inr
    by (cases f) (auto simp: and_then_eq_Inr)
  have "st_receipts t = st_receipts s2"
    using s3 sched_events_Inr by fastforce
  moreover have "st_receipts s2 = st_receipts s1" using persistCompletion_receipts [OF s2] .
  ultimately show ?thesis using s1 by (auto elim: insert_receipt_Inr)
qed

text \<open>Once a report is recorded, another one of the same attempt writes events at most.\<close>

lemma recorded_report_frame:
  assumes "find_receipt s (co_attempt_id i) = Some rc"
  shows "\<exists>evs. snd (completeAttempt i f s) = s\<lparr>st_attempt_events := evs\<rparr>"
proof -
  have same: "\<exists>evs. s = s\<lparr>st_attempt_events := evs\<rparr>" by (rule exI [of _ "st_attempt_events s"]) simp
  have "\<exists>evs. u = s\<lparr>st_attempt_events := evs\<rparr>" if body: "complete_body i f s = Inr (v, u)" for v u
  proof -
    obtain op where op: "completionOpening s (co_attempt_id i) = Some op"
      using body by (auto simp: complete_body_def and_then_eq_Inr found_eq_Inr)
    show ?thesis
      using body assms same op
      by (auto simp: complete_body_def Let_def and_then_eq_Inr split: option.splits if_splits
          elim: appendAttemptEvent_Inr)
  qed
  then show ?thesis
    unfolding completeAttempt_state using same by (auto simp: transaction_def split: sum.split)
qed

lemma completeAttempt_Inr:
  assumes "completeAttempt i f s = (Inr r, t)"
  shows "complete_body i f s = Inr (Responded r, t)"
  using assms
  by (auto simp: completeAttempt_def transaction_def split: sum.splits prod.splits complete_outcome.splits)

lemma answered_report_recorded:
  assumes "completeAttempt i f s = (Inr r, t)"
  shows "\<exists>rc. find_receipt t (co_attempt_id i) = Some rc \<and> rc_result_digest rc = co_result_digest i"
proof -
  note body = completeAttempt_Inr [OF assms]
  obtain op where op: "completionOpening s (co_attempt_id i) = Some op"
    using body by (auto simp: complete_body_def and_then_eq_Inr found_eq_Inr)
  obtain a l where al: "op_assignment op = Some a" "op_lease op = Some l"
    using body by (auto simp: complete_body_def op split: option.splits)
  note b = body [unfolded complete_body_def op found_Some and_then_Inr al prod.case option.case]
  show ?thesis
  proof (cases "find_receipt s (co_attempt_id i)")
    case (Some rc)
    then show ?thesis using b by (auto simp: Let_def and_then_eq_Inr split: if_splits)
  next
    case None
    have "\<exists>rc. st_receipts t = st_receipts s @ [rc] \<and> rc_attempt_id rc = co_attempt_id i
        \<and> rc_result_digest rc = co_result_digest i"
    proof (cases "completion_late i (op_control op) l (op_latest_attempt_number op)")
      case True
      then obtain resp where "insert_receipt i resp s = Inr t"
        using b None by (auto simp: Let_def and_then_eq_Inr split: if_splits)
      then show ?thesis by (auto elim: insert_receipt_Inr)
    next
      case False
      then obtain resp where "accept_completion i f op a l s = Inr (resp, t)"
        using b None by (auto simp: and_then_eq_Inr split: if_splits)
      then show ?thesis by (rule accept_completion_receipts)
    qed
    then show ?thesis using None by (auto simp: find_receipt_def row_by_append)
  qed
qed

lemma second_report_frame:
  assumes "completeAttempt i f s = (Inr r, t)" "co_attempt_id j = co_attempt_id i"
  shows "\<exists>evs. snd (completeAttempt j g t) = t\<lparr>st_attempt_events := evs\<rparr>"
  using answered_report_recorded [OF assms(1)] recorded_report_frame [of t j] assms(2) by auto

text \<open>A late report is acknowledged and recorded, and nothing else happens.\<close>

lemma late_report:
  assumes "completionOpening s (co_attempt_id i) = Some op" "op_assignment op = Some a"
    "op_lease op = Some l" "completion_authorized i op" "find_receipt s (co_attempt_id i) = None"
    "completion_late i (op_control op) l (op_latest_attempt_number op)"
  shows "\<exists>rc. completeAttempt i f s =
      (Inr (first_response i op True False), s\<lparr>st_receipts := st_receipts s @ [rc]\<rparr>)"
proof -
  have new: "co_attempt_id i \<notin> rc_attempt_id ` set (st_receipts s)"
    using assms(5) by (simp add: find_receipt_def row_by_None)
  define rc where "rc = \<lparr>rc_attempt_id = co_attempt_id i, rc_completion_id = co_completion_id i,
      rc_result_digest = co_result_digest i, rc_response = first_response i op True False,
      rc_accepted_at = co_accepted_at i\<rparr>"
  have "insert_receipt i (first_response i op True False) s = Inr (s\<lparr>st_receipts := st_receipts s @ [rc]\<rparr>)"
    using new by (simp add: insert_receipt_def insert_row_def rc_def)
  then have "complete_body i f s =
      Inr (Responded (first_response i op True False), s\<lparr>st_receipts := st_receipts s @ [rc]\<rparr>)"
    using assms by (simp add: complete_body_def Let_def)
  then have "completeAttempt i f s =
      (Inr (first_response i op True False), s\<lparr>st_receipts := st_receipts s @ [rc]\<rparr>)"
    by (simp add: completeAttempt_def transaction_def)
  then show ?thesis by blast
qed

text \<open>A report that is rejected leaves the store alone, unless it contradicts the recorded one.\<close>

lemma complete_body_conflict:
  assumes "complete_body i f s = Inr (Conflicting, t)"
  shows "\<exists>op rc. completionOpening s (co_attempt_id i) = Some op \<and> completion_authorized i op \<and>
    find_receipt s (co_attempt_id i) = Some rc \<and> rc_result_digest rc \<noteq> co_result_digest i \<and>
    t = s\<lparr>st_attempt_events := st_attempt_events s @ [conflict_event i op rc]\<rparr>"
proof -
  obtain op where op: "completionOpening s (co_attempt_id i) = Some op"
    using assms by (auto simp: complete_body_def and_then_eq_Inr found_eq_Inr)
  obtain a l where al: "op_assignment op = Some a" "op_lease op = Some l"
    using assms by (auto simp: complete_body_def op split: option.splits)
  note b = assms [unfolded complete_body_def op found_Some and_then_Inr al prod.case option.case]
  have auth: "completion_authorized i op" using b by (simp split: if_splits)
  obtain rc where rc: "find_receipt s (co_attempt_id i) = Some rc"
    using b auth by (cases "find_receipt s (co_attempt_id i)")
      (auto simp: Let_def and_then_eq_Inr split: if_splits)
  have "rc_result_digest rc \<noteq> co_result_digest i"
    "appendAttemptEvent (conflict_event i op rc) s = Inr t"
    using b auth rc by (auto simp: Let_def and_then_eq_Inr split: if_splits)
  then show ?thesis
    using op auth rc by (auto simp: appendAttemptEvent_def and_then_eq_Inr insert_row_Inr)
qed

lemma rejected_report:
  assumes "completeAttempt i f s = (Inl e, t)"
  shows "t = s \<or> (e = DomainError ''ATTEMPT_COMPLETION_CONFLICT'' \<and>
    (\<exists>op rc. completionOpening s (co_attempt_id i) = Some op \<and> completion_authorized i op \<and>
       find_receipt s (co_attempt_id i) = Some rc \<and> rc_result_digest rc \<noteq> co_result_digest i \<and>
       t = s\<lparr>st_attempt_events := st_attempt_events s @ [conflict_event i op rc]\<rparr>))"
proof (cases "complete_body i f s")
  case (Inl x)
  then show ?thesis using assms by (simp add: completeAttempt_def transaction_def)
next
  case (Inr p)
  obtain v u where p: "p = (v, u)" by fastforce
  have "v = Conflicting" "u = t" "e = DomainError ''ATTEMPT_COMPLETION_CONFLICT''"
    using assms Inr p by (simp_all add: completeAttempt_def transaction_def split: complete_outcome.splits)
  then show ?thesis using complete_body_conflict [of i f s t] Inr p by blast
qed

subsection \<open>Draining a terminated batch\<close>

text \<open>A run of the batch is over, or an attempt of it still runs under a valid lease.\<close>

definition drained :: "ident \<Rightarrow> time \<Rightarrow> store \<Rightarrow> bool" where
  "drained b now s \<longleftrightarrow>
     (\<forall>r\<in>set (st_runs s). rr_batch_id r = b \<longrightarrow> isTerminalRunStatus (rr_status r) \<or>
        (\<exists>t\<in>set (st_attempts s). at_run_id t = rr_id r \<and> active_attempt (at_status t)
           \<and> attempt_leased s now (at_id t)))"

lemma drainedD:
  "drained b now s \<Longrightarrow> r \<in> set (st_runs s) \<Longrightarrow> rr_batch_id r = b \<Longrightarrow>
     \<not> isTerminalRunStatus (rr_status r) \<Longrightarrow>
     \<exists>t\<in>set (st_attempts s). at_run_id t = rr_id r \<and> active_attempt (at_status t)
       \<and> attempt_leased s now (at_id t)"
  by (auto simp: drained_def)

lemma terminate_drains:
  assumes "store_ok s"
  shows "drained b now (snd (terminateWaitingRuns b reason now s))"
proof -
  let ?t = "snd (terminateWaitingRuns b reason now s)"
  note lk = store_okD(1) [OF assms]
  have leased: "attempt_leased ?t now k \<longleftrightarrow> attempt_leased s now k" for k
  proof -
    have "attempt_leased ?t now k \<longleftrightarrow> attempt_leased (s2_of b now s) now k"
      by (simp add: attempt_leased_def validly_leased_def terminate_tables s2_assignments)
    then show ?thesis using attempt_leased_s2 [OF lk] by simp
  qed
  have "isTerminalRunStatus (rr_status r) \<or> (\<exists>t\<in>set (st_attempts ?t). at_run_id t = rr_id r
      \<and> active_attempt (at_status t) \<and> attempt_leased ?t now (at_id t))"
    if r: "r \<in> set (st_runs ?t)" "rr_batch_id r = b" for r
    using r(1) unfolding terminate_runs
  proof (rule update_where_cases)
    assume "r \<in> set (st_runs s)"
      "\<not> run_undrained (cancel_unleased_attempts b reason now (s2_of b now s)) b now r"
    then consider "isTerminalRunStatus (rr_status r)"
      | t where "t \<in> set (st_attempts s)" "at_run_id t = rr_id r" "active_attempt (at_status t)"
          "attempt_leased s now (at_id t)"
      using r(2) by (auto simp: run_undrained_iff [OF lk])
    then show ?thesis
    proof cases
      case 2
      have "t \<in> set (st_attempts ?t)"
        using 2(1,4) by (simp add: terminate_tables cancel_unleased_attempts_def update_where_keep
            attempt_leased_s2 [OF lk])
      then show ?thesis using 2 leased by blast
    qed simp
  next
    fix r0 assume "r = r0\<lparr>rr_status := R_Cancelled, rr_terminal_outcome := Some Cancelled,
        rr_terminal_reason_code := Some ''BATCH_TERMINATED_BEFORE_EXECUTION'',
        rr_cancel_requested_at := Some now, rr_updated_at := now, rr_version := rr_version r0 + 1\<rparr>"
    then show ?thesis by simp
  qed
  then show ?thesis unfolding drained_def by blast
qed

lemma drained_same:
  assumes "drained b now s" "st_runs t = st_runs s" "st_attempts t = st_attempts s"
    "st_assignments t = st_assignments s" "st_leases t = st_leases s"
  shows "drained b now t"
  using assms(1) by (simp add: drained_def attempt_leased_def validly_leased_def assms(2-))

lemma request_termination_Inr:
  assumes "request_termination i b s = Inr s1" "find_batch s (tb_batch_id i) = Some b"
  shows "\<exists>b1. find_batch s1 (tb_batch_id i) = Some b1 \<and> bt_cancel_requested_at b1 \<noteq> None
    \<and> bt_id b1 = tb_batch_id i"
proof -
  have id: "bt_id b = tb_batch_id i" using assms(2) by (auto simp: find_batch_def dest: row_by_SomeD)
  show ?thesis
  proof (cases "bt_cancel_requested_at b = None")
    case True
    then have "s1 = s\<lparr>st_batches := update_where
        (\<lambda>x. bt_id x = tb_batch_id i \<and> bt_version x = bt_version b \<and> bt_cancel_requested_at x = None)
        (\<lambda>x. x\<lparr>bt_cancel_requested_at := Some (tb_requested_at i),
               bt_updated_at := tb_requested_at i, bt_terminated_by := tb_actor i,
               bt_version := bt_version x + 1\<rparr>) (st_batches s)\<rparr>"
      using assms(1) by (auto simp: request_termination_def Let_def split: if_splits)
    then show ?thesis using assms(2) id True by (auto simp: find_batch_def row_by_update)
  next
    case False
    then show ?thesis using assms id by (auto simp: request_termination_def)
  qed
qed

lemma terminate_body_drains:
  assumes run: "terminate_body i s = Inr (n, t)" and ok: "store_ok s"
    and b: "find_batch s (tb_batch_id i) = Some b" "\<not> isTerminalBatchStatus (bt_status b)"
  shows "drained (tb_batch_id i) (tb_requested_at i) t"
proof -
  note lk = store_okD(1) [OF ok]
  obtain s1 where s1: "request_termination i b s = Inr s1"
    and up: "\<exists>st. updateBatchStatus (tb_batch_id i) (tb_requested_at i) (tb_event_id i)
        ''batch.termination_requested''
        (snd (terminateWaitingRuns (tb_batch_id i) (tb_reason i) (tb_requested_at i)
          (cancel_recoveries (tb_batch_id i) (tb_requested_at i) s1))) = Inr (st, t)"
    using run b by (auto simp: terminate_body_def and_then_eq_Inr Let_def case_prod_beta)
  let ?s2 = "cancel_recoveries (tb_batch_id i) (tb_requested_at i) s1"
  let ?u = "snd (terminateWaitingRuns (tb_batch_id i) (tb_reason i) (tb_requested_at i) ?s2)"
  have "same_shape s s1 \<and> abs_store s1 = abs_store s"
    using s1 by (auto simp: request_termination_def Let_def same_shape_update abs_store_def
        split: if_splits)
  then have r1: "refines s s1" using refines_same [OF lk] by blast
  have "refines s1 ?s2"
    by (rule other_tables_refines [OF refines_linked [OF r1]]) (simp_all add: cancel_recoveries_def)
  then have ok2: "store_ok ?s2" using refines_ok [OF ok] refines_trans [OF r1] by blast
  have oku: "store_ok ?u" by (rule refines_ok [OF ok2 terminate_refines [OF ok2]])
  have du: "drained (tb_batch_id i) (tb_requested_at i) ?u" by (rule terminate_drains [OF ok2])
  obtain b1 where b1: "find_batch s1 (tb_batch_id i) = Some b1" "bt_cancel_requested_at b1 \<noteq> None"
      "bt_id b1 = tb_batch_id i"
    using request_termination_Inr [OF s1 b(1)] by blast
  have bu: "find_batch ?u (tb_batch_id i) = Some b1"
    using b1(1) by (simp add: find_batch_def terminate_tables cancel_recoveries_def)
  have settled: "drained (tb_batch_id i) (tb_requested_at i) (settle_batch b1 (tb_requested_at i) ?u)"
    using terminate_drains [OF oku] b1(2,3) by (auto simp: settle_batch_def Let_def)
  obtain st where "updateBatchStatus (tb_batch_id i) (tb_requested_at i) (tb_event_id i)
      ''batch.termination_requested'' ?u = Inr (st, t)" using up by blast
  then show ?thesis
  proof (cases rule: updateBatchStatus_Inr)
    case (closed b')
    then show ?thesis using du by simp
  next
    case (kept b')
    then show ?thesis using settled bu by simp
  next
    case (moved b' evs)
    then have "b' = b1" using bu by simp
    then show ?thesis
      using drained_same [OF settled, of t] moved(5) by (simp add: put_batch_status_def)
  qed
qed

subsection \<open>Renewals and replays\<close>

lemma renew_Inr:
  "renew_body i s = Inr (resp, t) \<longleftrightarrow>
     (\<exists>l a. find_lease s (rn_lease_id i) = Some l \<and> find_assignment s (ls_assignment_id l) = Some a \<and>
        ls_runner_id l = rn_runner_id i \<and> ls_token_hash l = rn_token_hash i \<and>
        ls_status l = L_Active \<and> rn_now i < ls_expires_at l \<and> ls_version l = rn_expected_version i \<and>
        rp_accepted_at resp = rn_now i \<and> rp_lease_version resp = ls_version l + 1 \<and>
        rp_expires_at resp = rn_expires_at i \<and>
        rp_instruction resp = (if as_cancel_requested_at a \<noteq> None then Cancel else Continue) \<and>
        t = renew_assignment_row i a (renew_lease_row i l s))"
  (is "?L \<longleftrightarrow> ?R")
proof
  assume ?L
  then show ?R
    by (force simp: renew_body_def requiredLease_def requiredAssignment_def and_then_eq_Inr
        found_eq_Inr split: if_splits)
next
  assume ?R
  then obtain l a where "find_lease s (rn_lease_id i) = Some l"
      "find_assignment s (ls_assignment_id l) = Some a"
      "ls_runner_id l = rn_runner_id i" "ls_token_hash l = rn_token_hash i" "ls_status l = L_Active"
      "rn_now i < ls_expires_at l" "ls_version l = rn_expected_version i"
      "rp_accepted_at resp = rn_now i" "rp_lease_version resp = ls_version l + 1"
      "rp_expires_at resp = rn_expires_at i"
      "rp_instruction resp = (if as_cancel_requested_at a \<noteq> None then Cancel else Continue)"
      "t = renew_assignment_row i a (renew_lease_row i l s)" by blast
  then show ?L
    by (simp add: renew_body_def requiredLease_def requiredAssignment_def)
qed

lemma claim_answered:
  assumes "find_claim s (cl_runner_id i) (cl_request_id i) = Some q"
  shows "snd (claim i s) = s"
  using assms
  by (auto simp: claim_def transaction_def claim_body_def claimReplay_def and_then_def
      split: sum.split option.split)

subsection \<open>Counting active attempts\<close>

lemma count_where_unique:
  assumes "distinct xs" "t \<in> set xs" "P t" "\<And>x. x \<in> set xs \<Longrightarrow> P x \<Longrightarrow> x = t"
  shows "count_where P xs = 1"
proof -
  have one: "set (filter P xs) = {t}" using assms(2-4) unfolding set_filter by blast
  have "card (set (filter P xs)) = length (filter P xs)"
    using assms(1) by (intro distinct_card) simp
  then have "length (filter P xs) = 1" unfolding one by simp
  then show ?thesis by (simp add: count_where_def)
qed

lemma active_attempt_count:
  assumes "store_ok s" "r \<in> set (st_runs s)"
  shows "count_where (\<lambda>t. at_run_id t = rr_id r \<and> active_attempt (at_status t)) (st_attempts s) =
    (if busy_run (rr_status r) then 1 else 0)"
proof (cases "busy_run (rr_status r)")
  case True
  obtain t where t: "t \<in> set (st_attempts s)" "at_run_id t = rr_id r" "active_attempt (at_status t)"
    using busy_run_attempt [OF assms True] .
  have "distinct (st_attempts s)"
    using linked_keys(3) [OF store_okD(1) [OF assms(1)]] by (simp add: distinct_map)
  then have "count_where (\<lambda>t. at_run_id t = rr_id r \<and> active_attempt (at_status t)) (st_attempts s) = 1"
  proof (rule count_where_unique [OF _ t(1)])
    show "x = t" if "x \<in> set (st_attempts s)" "at_run_id x = rr_id r \<and> active_attempt (at_status x)" for x
      using active_attempt_unique [OF assms(1) that(1) _ t(1,3)] that(2) t(2) by simp
  qed (use t in simp)
  then show ?thesis using True by simp
next
  case False
  then have "\<not> (at_run_id t = rr_id r \<and> active_attempt (at_status t))"
    if "t \<in> set (st_attempts s)" for t
    using active_attempt_busy [OF assms(1) that _ assms(2)] by auto
  then show ?thesis using False by simp
qed

end
