(* ===== verification/Spec2Isabelle.thy ===== *)
theory Spec2Isabelle
  imports Service_Scenario Identity_Scenario Exec_Facts
begin

text \<open>
  AutoForge runs TestNG cases on remote runners. A batch is a list of runs, one for each selected
  case; the control plane reserves an assignment of a run on a runner, the runner claims it under a
  lease, renews the lease while it executes, and reports the result once. Retries, timeouts,
  cancellations, pauses and terminations change the same rows concurrently, each in one transaction
  of the database. Around this core, services of several processes schedule batches, recover the
  environment between retry rounds, deliver jobs from a queue and administrate users, roles and
  sessions. The development models them in the language of the code, from \<open>packages/domain\<close>,
  \<open>packages/db\<close>, \<open>packages/queue\<close> and \<open>packages/application\<close>, and proves what makes them correct.

  \<^bold>\<open>Theories and sources.\<close> Each theory follows the order of the code it models.

  \<^item> \<open>Prelude\<close>: errors, tables as lists of rows (\<open>update_where\<close>, \<open>insert_row\<close>), \<open>and_then\<close> for
    statements that may throw, \<open>transaction\<close> for the commit or rollback of a body. \<open>Decimal\<close>: numerals.
  \<^item> \<open>Attempt_Result\<close>, \<open>Run_Types\<close>, \<open>Lifecycle\<close>: \<open>attempt-result.ts\<close>, the types of \<open>run-batch.ts\<close>,
    and \<open>execution.ts\<close> (transition tables, invariants of stored rows, effect of a completion,
    aggregation of a batch). The locale \<open>status_machine\<close> states the contract of the five transition
    functions, \<open>ranked_machine\<close> adds a rank that every step raises.
  \<^item> \<open>Queue_Timing\<close>: \<open>execution-queue-timing.ts\<close> and \<open>query-chunks.ts\<close>.
  \<^item> \<open>Attempt_Logs\<close>: \<open>attempt-log-store.ts\<close> and \<open>attempt-log-pagination.ts\<close>; gzip and the digest are
    parameters.
  \<^item> \<open>Exec_Store\<close>: the tables of \<open>schema.ts\<close> the execution works on and the reads of
    \<open>sqlite-execution-control.ts\<close>; its operations are in \<open>Exec_Batch\<close> (settlement of a batch),
    \<open>Exec_Claim\<close> (\<open>claim\<close>, \<open>renewLease\<close>), \<open>Exec_Complete\<close> (\<open>completeAttempt\<close>), \<open>Exec_Recover\<close>
    (\<open>recoverExpired\<close>, \<open>settleTerminatingBatches\<close>), \<open>Exec_Cancel\<close> (\<open>cancelRun\<close>, \<open>terminateBatch\<close>,
    \<open>changeBatchScheduling\<close>) and \<open>Exec_Transfer\<close> (inputs, logs, artifacts, reconciliation).
  \<^item> \<open>Runner\<close>, \<open>Scheduler\<close>: \<open>runner.ts\<close>, \<open>runner-compatibility.ts\<close>, \<open>runner-mapper.ts\<close>, and
    \<open>scheduler.ts\<close> (admission, memory budget, score, choice of a runner, plan). Ratios are rationals.
  \<^item> \<open>Exec_Spec\<close>, \<open>Reservation\<close>: \<open>project-adapter-runtime.ts\<close> and the writing part of
    \<open>sqlite-run-batch.ts\<close> (\<open>create\<close>, \<open>reserveAssignments\<close>, \<open>updateBatchSchedulingStatus\<close>).
  \<^item> \<open>Case_Suite\<close>, \<open>Batch_Rounds\<close>: \<open>case-suite.ts\<close> (policies, snapshots, staged rules of the retry
    concurrency) and the rounds and summaries of \<open>run-batch.ts\<close>.
  \<^item> \<open>Round_Recovery\<close>, \<open>Round_Concurrency\<close>: \<open>sqlite-round-recovery.ts\<close> (steps of a barrier between two
    rounds) and the concurrency of rounds in \<open>sqlite-run-batch.ts\<close>, on the store of the execution.
  \<^item> \<open>Calls\<close>, \<open>Service\<close>: a service is a sequence of calls of a repository; before each call the other
    processes may change the store (\<open>interference\<close>). \<open>svc_valid\<close> are triples that are stable under them.
  \<^item> \<open>Recovery_Service\<close>, \<open>Recovery_Credentials\<close>, \<open>Scheduling_Service\<close>, \<open>Coalesced\<close>:
    \<open>run-round-recovery.ts\<close>, \<open>round-recovery-credentials.ts\<close>, the passes of \<open>schedule-run-batches.ts\<close>,
    and \<open>coalesced-operation.ts\<close>.
  \<^item> \<open>Schedule_Expression\<close>, \<open>Case_Sources\<close>: \<open>schedule-expression.ts\<close> (cron) and the comparison of
    case sources in \<open>case-source-lifecycle.ts\<close>.
  \<^item> \<open>Job_Queue\<close>: \<open>sqlite-job-queue.ts\<close> and what \<open>run-job-worker.ts\<close> does with a delivery.
  \<^item> \<open>Identity\<close>, \<open>Identity_Store\<close>, \<open>Identity_Roles\<close>: the rules of \<open>identity.ts\<close> and the repository
    \<open>sqlite-identity-access.ts\<close>; \<open>Identity_Service\<close>, \<open>Identity_Admin\<close>, \<open>Identity_Audit\<close>: login and
    sessions, administration, and audit records of \<open>manage-identity-access.ts\<close>. Passwords, tokens, the
    cipher, the directory and the clock are the fields of \<open>identity_env\<close>.

  \<^bold>\<open>How correctness is shown.\<close> \<open>Protocol\<close> is the abstract machine of the execution: runs, attempts,
  assignments and leases with their statuses, and the steps submit, dispatch, claim and close.
  \<open>Exec_Refine\<close> abstracts a store to it and gives for every kind of row update the protocol step it is,
  \<open>Exec_Steps\<close> and \<open>Exec_Place\<close> lift that to whole operations (the locale \<open>inserting\<close> is the contract of
  the inserts). \<open>Exec_System\<close> has the step relation \<open>exec_step\<close>, one rule for each operation, and
  interprets the locale \<open>simulated_system\<close> on it; \<open>Exec_Facts\<close> derives facts on reachable stores.
  For identities \<open>id_step\<close> is the relation of the operations; \<open>Identity_Facts\<close> reduces it to a few
  kinds of row updates: the locale \<open>id_primitives\<close> states what a predicate must survive, its extension
  \<open>id_invariant\<close> gives that it survives every operation. \<open>Identity_Safety\<close> interprets it on the
  well-formedness of the tables, on revoked sessions and on the existence of an administrator;
  \<open>Identity_Service_Facts\<close> shows that requests are made of operations and what they guarantee.
  \<open>Scenario\<close>, \<open>Service_Scenario\<close> and \<open>Identity_Scenario\<close> hold the inputs of the witnesses.

  \<^bold>\<open>Properties.\<close> The sections below are on the store of the execution (consistency and refinement of
  the protocol, one active attempt for each busy run, leases, finality, single effect of reports,
  limits of reservations, draining, replay and rollback), on rounds and services, on the life cycle, on
  runners and plans, on logs, on credentials, schedules, summaries and case sources, on the job queue,
  and on identities (well-formed tables, the last administrator, sessions and permissions, logins).
  Theorems without a number are further facts of the same kind.

  \<^bold>\<open>Bounds and fuel.\<close> Times, versions and counts are unbounded integers: the code keeps them far below
  \<open>2 ^ 53\<close>. \<open>page_loop\<close> takes fuel; one unit for each row and one more are enough, as the property on
  pages of a log shows. The search for a cron occurrence is bounded by 366 days in the code. All other
  loops are structural or have a measure.

  \<^bold>\<open>Not modelled.\<close> The PostgreSQL twins of the repositories, the console, the timers of the worker,
  the agent (Go) and the adapter (Java), request validation, read models and exports, the case
  catalog, test data, failure analysis, webhooks and storage. Within the modelled files: opening and
  caching of database files, IEEE rounding of ratios, the rounding of \<open>julianday\<close>, failures of
  \<open>JSON.parse\<close> (stored JSON is kept as the record it encodes), the random dispatch order (it comes with
  the input), the order \<open>SELECT DISTINCT\<close> gives, the collation \<open>localeCompare\<close> (a parameter or the
  order of the characters), the normal form NFKC of names, paged searches of users and of the audit,
  the creation of batches from suites, and tables that \<open>create\<close> writes and nothing here reads.
  Appended logs are written to another database and do not roll back with the transaction.
\<close>

section \<open>The execution store\<close>

text \<open>C1: every store the operations of the repository can reach from empty tables has unique keys
  and resolving references, satisfies the dispatch protocol, numbers the attempts of a run up to its
  counter and has an active attempt only as the newest of its run.\<close>

theorem reachable_stores_consistent:
  assumes "empty_store s" "exec_step\<^sup>*\<^sup>* s t"
  shows "linked t \<and> proto_ok (abs_store t) \<and> newest_active t \<and> counted t"
  using execution.inv_reachable [OF assms] by (simp add: store_ok_def)

theorem reachable_stores_consistent_witness:
  "linked ex_completed \<and> proto_ok (abs_store ex_completed) \<and> newest_active ex_completed
    \<and> counted ex_completed"
  by (rule reachable_stores_consistent [OF ex_reach(4,2)])

text \<open>C2: the store refines the dispatch protocol: whatever an operation does, successful or not, its
  effect on runs, attempts, assignments and leases is a sequence of submissions, dispatches, claims
  and closings.\<close>

theorem operations_refine_protocol:
  assumes "empty_store s" "exec_step\<^sup>*\<^sup>* s t" "exec_step t u"
  shows "pstep\<^sup>*\<^sup>* (abs_store t) (abs_store u)"
  by (rule execution.simulation [OF execution.inv_reachable [OF assms(1,2)] assms(3)])

theorem operations_refine_protocol_witness:
  "pstep\<^sup>*\<^sup>* (abs_store ex_claimed) (abs_store ex_renewed)"
  by (rule operations_refine_protocol [OF ex_reach(4,1) ex_steps(4)])

text \<open>C3: in a reachable store a run that is assigned or running has exactly one active attempt, and
  any other run has none: no test is executed twice at a time.\<close>

theorem one_active_attempt_per_busy_run:
  assumes "empty_store s" "exec_step\<^sup>*\<^sup>* s t" "r \<in> set (st_runs t)"
  shows "count_where (\<lambda>x. at_run_id x = rr_id r \<and> active_attempt (at_status x)) (st_attempts t) =
    (if busy_run (rr_status r) then 1 else 0)"
  by (rule active_attempt_count [OF execution.inv_reachable [OF assms(1,2)] assms(3)])

theorem one_active_attempt_per_busy_run_witness:
  "count_where (\<lambda>x. at_run_id x = ''r1'' \<and> active_attempt (at_status x)) (st_attempts ex_claimed) = 1"
proof -
  have r: "hd (st_runs ex_claimed) \<in> set (st_runs ex_claimed)" by code_simp
  have "rr_id (hd (st_runs ex_claimed)) = ''r1''" by code_simp
  moreover have "busy_run (rr_status (hd (st_runs ex_claimed)))" by code_simp
  ultimately show ?thesis
    using one_active_attempt_per_busy_run [OF ex_reach(4,1) r] by simp
qed

text \<open>C4: in a reachable store an active lease belongs to a claimed or running assignment of the
  active attempt of a run that is assigned or running.\<close>

theorem active_lease_backs_running_work:
  assumes "empty_store s" "exec_step\<^sup>*\<^sup>* s t" "l \<in> set (st_leases t)" "ls_status l = L_Active"
  shows "\<exists>a\<in>set (st_assignments t). \<exists>x\<in>set (st_attempts t). \<exists>r\<in>set (st_runs t).
    as_id a = ls_assignment_id l \<and> leased_assignment (as_status a) \<and> at_id x = as_attempt_id a \<and>
    active_attempt (at_status x) \<and> rr_id r = at_run_id x \<and> busy_run (rr_status r)"
  by (rule active_lease_chain [OF execution.inv_reachable [OF assms(1,2)] assms(3,4)])

theorem active_lease_backs_running_work_witness:
  "\<exists>a\<in>set (st_assignments ex_claimed). leased_assignment (as_status a)"
proof -
  have "hd (st_leases ex_claimed) \<in> set (st_leases ex_claimed)" by code_simp
  moreover have "ls_status (hd (st_leases ex_claimed)) = L_Active" by code_simp
  ultimately show ?thesis
    using active_lease_backs_running_work [OF ex_reach(4,1)] by blast
qed

text \<open>C5: a run that is finished in a reachable store stays finished, whatever operations follow, late
  reports, retries and recoveries included.\<close>

theorem finished_runs_stay_finished:
  assumes "empty_store s0" "exec_step\<^sup>*\<^sup>* s0 s" "exec_step\<^sup>*\<^sup>* s t" "r \<in> set (st_runs s)"
    "isTerminalRunStatus (rr_status r)"
  shows "\<exists>r'\<in>set (st_runs t). rr_id r' = rr_id r \<and> isTerminalRunStatus (rr_status r')"
  by (rule finished_run_stays [OF execution.inv_reachable [OF assms(1,2)] assms(3-5)])

theorem finished_runs_stay_finished_witness:
  "\<exists>r'\<in>set (st_runs ex_terminated). rr_id r' = ''r1'' \<and> isTerminalRunStatus (rr_status r')"
proof -
  have "hd (st_runs ex_completed) \<in> set (st_runs ex_completed)" by code_simp
  moreover have "rr_id (hd (st_runs ex_completed)) = ''r1''" by code_simp
  moreover have "isTerminalRunStatus (rr_status (hd (st_runs ex_completed)))" by code_simp
  ultimately show ?thesis
    using finished_runs_stay_finished [OF ex_reach(4,2,3)] by metis
qed

text \<open>C6: a report of an attempt takes effect once. After it was answered, another report of the same
  attempt, equal or different, with valid credentials or not, changes nothing but the event log.\<close>

theorem reports_take_effect_once:
  assumes "completeAttempt i f s = (Inr r, t)" "co_attempt_id j = co_attempt_id i"
  shows "\<exists>evs. snd (completeAttempt j g t) = t\<lparr>st_attempt_events := evs\<rparr>"
  by (rule second_report_frame [OF assms])

theorem reports_take_effect_once_witness:
  "\<exists>evs. snd (completeAttempt (ex_complete\<lparr>co_result_digest := ''other''\<rparr>) None ex_completed) =
    ex_completed\<lparr>st_attempt_events := evs\<rparr>"
  by (rule reports_take_effect_once [OF ex_complete_answer]) simp

text \<open>C7: an authorised report that comes late (the lease is over, a newer attempt exists, or the run
  is finished) is acknowledged as late and recorded; no run, attempt, assignment, lease or batch
  changes.\<close>

theorem late_reports_change_nothing:
  assumes "completionOpening s (co_attempt_id i) = Some op" "op_assignment op = Some a"
    "op_lease op = Some l" "completion_authorized i op" "find_receipt s (co_attempt_id i) = None"
    "completion_late i (op_control op) l (op_latest_attempt_number op)"
  shows "\<exists>rc. completeAttempt i f s =
      (Inr (first_response i op True False), s\<lparr>st_receipts := st_receipts s @ [rc]\<rparr>)"
  by (rule late_report [OF assms])

theorem late_reports_change_nothing_witness:
  "\<exists>resp rc. completeAttempt (ex_complete\<lparr>co_accepted_at := 95\<rparr>) None ex_renewed =
      (Inr resp, ex_renewed\<lparr>st_receipts := st_receipts ex_renewed @ [rc]\<rparr>)"
proof -
  define op where "op = the (completionOpening ex_renewed ''t1'')"
  have "completionOpening ex_renewed (co_attempt_id (ex_complete\<lparr>co_accepted_at := 95\<rparr>)) = Some op"
    unfolding op_def by code_simp
  moreover have "op_assignment op = Some (the (op_assignment op))" unfolding op_def by code_simp
  moreover have "op_lease op = Some (the (op_lease op))" unfolding op_def by code_simp
  moreover have "completion_authorized (ex_complete\<lparr>co_accepted_at := 95\<rparr>) op"
    unfolding op_def by code_simp
  moreover have "find_receipt ex_renewed (co_attempt_id (ex_complete\<lparr>co_accepted_at := 95\<rparr>)) = None"
    by code_simp
  moreover have "completion_late (ex_complete\<lparr>co_accepted_at := 95\<rparr>) (op_control op)
      (the (op_lease op)) (op_latest_attempt_number op)"
    unfolding op_def by code_simp
  ultimately show ?thesis using late_reports_change_nothing by blast
qed

text \<open>C8: a reservation never takes a project over its concurrency limit: the attempts in flight in the
  project are at most the limit afterwards, or no more than before.\<close>

theorem reservation_respects_project_limit:
  assumes "empty_store s0" "exec_step\<^sup>*\<^sup>* s0 s" "reserveAssignments tb i s = (Inr ids, t)"
    "find_batch s (ru_batch i) = Some b" "ru_project_maximum i = Some m"
  shows "projectActiveRuns t (bt_project_id b) \<le> max m (projectActiveRuns s (bt_project_id b))"
  using assms(3) unfolding reserveAssignments_def transaction_Inr
  by (rule reserve_project_bound [OF _ execution.inv_reachable [OF assms(1,2)] assms(4,5)])

theorem reservation_respects_project_limit_witness: "projectActiveRuns ex_reserved ''p'' \<le> 4"
proof -
  have b: "find_batch ex_created (ru_batch ex_reserve) = Some (hd (st_batches ex_created))" by code_simp
  have "exec_step\<^sup>*\<^sup>* ex_empty ex_created" using ex_steps(1) by blast
  moreover have "ru_project_maximum ex_reserve = Some 4" by code_simp
  ultimately have "projectActiveRuns ex_reserved (bt_project_id (hd (st_batches ex_created)))
      \<le> max 4 (projectActiveRuns ex_created (bt_project_id (hd (st_batches ex_created))))"
    by (intro reservation_respects_project_limit [OF ex_reach(4) _ ex_reserve_answer b])
  moreover have "bt_project_id (hd (st_batches ex_created)) = ''p''" by code_simp
  moreover have "projectActiveRuns ex_created ''p'' = 0" by code_simp
  ultimately show ?thesis by simp
qed

text \<open>C9: a reservation never takes a batch over its concurrency, be it the one of its policy or of the
  current retry round.\<close>

theorem reservation_respects_batch_concurrency:
  assumes "empty_store s0" "exec_step\<^sup>*\<^sup>* s0 s" "reserveAssignments tb i s = (Inr ids, t)"
    "find_batch s (ru_batch i) = Some b" "batch_concurrency s b = Some c"
  shows "batchActiveRuns t (bt_id b) \<le> max c (batchActiveRuns s (bt_id b))"
  using assms(3) unfolding reserveAssignments_def transaction_Inr
  by (rule reserve_batch_bound [OF _ execution.inv_reachable [OF assms(1,2)] assms(4,5)])

theorem reservation_respects_batch_concurrency_witness: "batchActiveRuns ex_reserved ''b'' \<le> 1"
proof -
  have b: "find_batch ex_created (ru_batch ex_reserve) = Some (hd (st_batches ex_created))" by code_simp
  have "exec_step\<^sup>*\<^sup>* ex_empty ex_created" using ex_steps(1) by blast
  moreover have "batch_concurrency ex_created (hd (st_batches ex_created)) = Some 1" by code_simp
  ultimately have "batchActiveRuns ex_reserved (bt_id (hd (st_batches ex_created)))
      \<le> max 1 (batchActiveRuns ex_created (bt_id (hd (st_batches ex_created))))"
    by (intro reservation_respects_batch_concurrency [OF ex_reach(4) _ ex_reserve_answer b])
  moreover have "bt_id (hd (st_batches ex_created)) = ''b''" by code_simp
  moreover have "batchActiveRuns ex_created ''b'' = 0" by code_simp
  ultimately show ?thesis by simp
qed

text \<open>C10: terminating a batch drains it: every run of it is finished, or an attempt of it still runs
  under a lease that has not expired.\<close>

theorem termination_drains_batch:
  assumes "empty_store s0" "exec_step\<^sup>*\<^sup>* s0 s" "terminateBatch i s = (Inr n, t)"
    "find_batch s (tb_batch_id i) = Some b" "\<not> isTerminalBatchStatus (bt_status b)"
    "r \<in> set (st_runs t)" "rr_batch_id r = tb_batch_id i"
  shows "isTerminalRunStatus (rr_status r) \<or>
    (\<exists>x\<in>set (st_attempts t). at_run_id x = rr_id r \<and> active_attempt (at_status x)
       \<and> attempt_leased t (tb_requested_at i) (at_id x))"
proof -
  have "terminate_body i s = Inr (n, t)"
    using assms(3) by (simp add: terminateBatch_def transaction_Inr)
  then show ?thesis
    using drainedD [OF terminate_body_drains [OF _ execution.inv_reachable [OF assms(1,2)] assms(4,5)]
        assms(6,7)] by blast
qed

theorem termination_drains_batch_witness:
  "isTerminalRunStatus (rr_status (last (st_runs ex_terminated))) \<or>
    (\<exists>x\<in>set (st_attempts ex_terminated). at_run_id x = rr_id (last (st_runs ex_terminated))
       \<and> active_attempt (at_status x) \<and> attempt_leased ex_terminated 50 (at_id x))"
proof -
  have b: "find_batch ex_completed (tb_batch_id ex_terminate) = Some (hd (st_batches ex_completed))"
    by code_simp
  have n: "\<not> isTerminalBatchStatus (bt_status (hd (st_batches ex_completed)))" by code_simp
  have "last (st_runs ex_terminated) \<in> set (st_runs ex_terminated)" by code_simp
  moreover have "rr_batch_id (last (st_runs ex_terminated)) = tb_batch_id ex_terminate" by code_simp
  moreover have "tb_requested_at ex_terminate = 50" by code_simp
  ultimately show ?thesis
    using termination_drains_batch [OF ex_reach(4,2) ex_terminate_answer b n] by simp
qed

text \<open>No reservation is made for a batch that is paused or being terminated.\<close>

theorem no_reservation_when_closed:
  assumes "find_batch s (ru_batch i) = Some b"
    "bt_cancel_requested_at b \<noteq> None \<or> bt_pause_requested_at b \<noteq> None"
  shows "reserveAssignments tb i s = (Inr [], s)"
  using assms unfolding reserveAssignments_def transaction_Inr reserve_body_def
  by (simp add: if_P [OF assms(2)])

theorem no_reservation_when_closed_witness:
  "reserveAssignments ex_reserve_tables ex_reserve ex_terminated = (Inr [], ex_terminated)"
proof -
  have "find_batch ex_terminated (ru_batch ex_reserve) = Some (hd (st_batches ex_terminated))"
    by code_simp
  moreover have "bt_cancel_requested_at (hd (st_batches ex_terminated)) \<noteq> None" by code_simp
  ultimately show ?thesis using no_reservation_when_closed by blast
qed


text \<open>A claim request that was answered is answered again without any effect on the store.\<close>

theorem claims_replay:
  assumes "find_claim s (cl_runner_id i) (cl_request_id i) = Some q"
  shows "snd (claim i s) = s"
  by (rule claim_answered [OF assms])

theorem claims_replay_witness: "snd (claim ex_claim ex_claimed) = ex_claimed"
proof -
  have "find_claim ex_claimed (cl_runner_id ex_claim) (cl_request_id ex_claim) =
      Some (hd (st_claims ex_claimed))" by code_simp
  then show ?thesis by (rule claims_replay)
qed




section \<open>Rounds and services\<close>









text \<open>C18: a scheduling pass never takes a project over the limit of its configuration, however its
  snapshot, its reservations in chunks and its events interleave with other processes that respect the
  limit.\<close>

theorem passes_respect_project_limit:
  assumes "\<And>n s. store_ok s \<Longrightarrow> projectActiveRuns s p \<le> m \<Longrightarrow>
      store_ok (ev_others e n s) \<and> projectActiveRuns (ev_others e n s) p \<le> m"
    "\<And>n. sf_project_maximum (currentSchedulingConfiguration e n) \<le> m"
    "store_ok (wd_store w)" "projectActiveRuns (wd_store w) p \<le> m"
  shows "store_ok (wd_store (snd (scheduleBatch e batchId live w))) \<and>
    projectActiveRuns (wd_store (snd (scheduleBatch e batchId live w))) p \<le> m"
  by (rule pass_project_limit [OF assms])

theorem passes_respect_project_limit_witness:
  "projectActiveRuns (wd_store (snd (scheduleBatch ex_pass_env ''b'' [] (ex_world ex_created)))) ''p'' \<le> 4"
proof -
  have "store_ok (wd_store (ex_world ex_created))" by (simp add: ex_world_def ex_ok)
  moreover have "projectActiveRuns (wd_store (ex_world ex_created)) ''p'' \<le> 4"
  proof -
    have "projectActiveRuns ex_created ''p'' = 0" by code_simp
    then show ?thesis by (simp add: ex_world_def)
  qed
  ultimately show ?thesis
    using passes_respect_project_limit [of "''p''" 4 ex_pass_env "ex_world ex_created" "''b''" "[]"]
    by (simp add: ex_pass_env_def ex_configuration_def currentSchedulingConfiguration_def)
qed



text \<open>The stages of the retry concurrency only advance: over the rounds of a batch a rule fires at
  most once and never after a later rule.\<close>

theorem stages_only_advance:
  assumes "sorted (map rt_execution_round cs)"
  shows "sorted_wrt (<) (map cs_rule_index (stages base rules cs None))"
  using stages_increase [OF assms, of None rules base] by simp

theorem stages_only_advance_witness:
  "map cs_rule_index (stages 4 [ex_rule, ex_rule\<lparr>rule_id := ''last'', rule_execution_round := 3\<rparr>]
       [ex_context 2 (Some 40), ex_context 2 (Some 40), ex_context 3 (Some 30)] None) = [0, 1] \<and>
   sorted_wrt (<) (map cs_rule_index (stages 4 [ex_rule, ex_rule\<lparr>rule_id := ''last'', rule_execution_round := 3\<rparr>]
       [ex_context 2 (Some 40), ex_context 2 (Some 40), ex_context 3 (Some 30)] None))"
proof
  show "sorted_wrt (<) (map cs_rule_index (stages 4 [ex_rule, ex_rule\<lparr>rule_id := ''last'', rule_execution_round := 3\<rparr>]
       [ex_context 2 (Some 40), ex_context 2 (Some 40), ex_context 3 (Some 30)] None))"
    by (rule stages_only_advance) (simp add: ex_context_def)
qed code_simp

text \<open>A stage the decision of a pass asks for is accepted by the store, when the state and the round
  it was decided on are still the stored ones, and is the concurrency of the batch from then on.\<close>

theorem decided_stages_activate:
  assumes "find_batch s (av_batch_id i) = Some b" "bt_policy b = Some p"
    "rt_execution_round c = bt_current_round b"
    "validRetryConcurrencyState (policy_rules p) (bt_current_round b)
      (retry_state s (av_batch_id i)) = retry_state s (av_batch_id i)"
    "cd_transition (retryConcurrencyDecisionForRound (bp_concurrency p) (policy_rules p) c
      (retry_state s (av_batch_id i))) = Some (av_state i)"
    "av_execution_round i = rt_execution_round c"
    "av_expected_rule_id i = map_option cs_rule_id (retry_state s (av_batch_id i))"
  shows "\<exists>t. activateRetryConcurrency i s = (Inr (Some (av_state i)), t) \<and>
    retry_state t (av_batch_id i) = Some (av_state i) \<and>
    batch_concurrency t b = Some (cs_concurrency (av_state i))"
proof -
  have "bt_id b = av_batch_id i" using assms(1) by (auto simp: find_batch_def dest: row_by_SomeD)
  then show ?thesis
    by (intro exI [of _ "upsert_state i s"]) (simp add: decision_activates [OF assms] upsert_retry_state activated_concurrency)
qed

theorem decided_stages_activate_witness:
  "\<exists>t. activateRetryConcurrency ex_activation ex_second = (Inr (Some (av_state ex_activation)), t) \<and>
     batch_concurrency t (hd (st_batches ex_second)) = Some 2"
proof -
  have b: "find_batch ex_second (av_batch_id ex_activation) = Some (hd (st_batches ex_second))"
    "bt_policy (hd (st_batches ex_second)) = Some ex_batch_policy"
    "rt_execution_round (ex_context 2 (Some 40)) = bt_current_round (hd (st_batches ex_second))"
    by code_simp+
  have r: "retry_state ex_second (av_batch_id ex_activation) = None" by code_simp
  have d: "cd_transition (retryConcurrencyDecisionForRound (bp_concurrency ex_batch_policy)
      (policy_rules ex_batch_policy) (ex_context 2 (Some 40)) None) = Some (av_state ex_activation)"
    by code_simp
  have "cs_concurrency (av_state ex_activation) = 2" by code_simp
  then show ?thesis
    using decided_stages_activate [OF b] r d
    by (auto simp: validRetryConcurrencyState_def ex_activation_def ex_context_def)
qed



text \<open>A request in the last microtask is lost: once the loop has ended and the operation is still in
  the table of operations in flight, a further request of the batch is answered by the result of the
  old passes, and no pass ever serves it.\<close>

theorem late_requests_are_lost:
  assumes "coalesced_step\<^sup>*\<^sup>* (coalesced_start c) s" "cg_listed s" "cg_resolved s"
    "coalesced_step\<^sup>*\<^sup>* (requestAnotherPass d s) t"
  shows "cg_completed t < cg_requested t \<and> cg_pass t = None"
  by (rule late_request_lost [OF assms])

theorem late_requests_are_lost_witness:
  "cg_completed (requestAnotherPass [] (end_pass 1 (coalesced_start []))) <
     cg_requested (requestAnotherPass [] (end_pass 1 (coalesced_start [])))"
proof -
  let ?a = "coalesced_start []" let ?b = "end_pass 1 ?a"
  note defs = coalesced_start_def end_pass_def takeLiveCapacities_def mergeLiveCapacities_def
  have "coalesced_step ?a ?b" by (rule coalesced_step.end_pass) (simp add: defs)
  then have "coalesced_step\<^sup>*\<^sup>* ?a ?b" by blast
  from late_requests_are_lost [OF this, of "[]" "requestAnotherPass [] ?b"] show ?thesis
    by (simp add: defs)
qed

section \<open>The life cycle\<close>

text \<open>C21: the status \<open>aggregateBatchStatus\<close> gives a batch with runs is terminal exactly when every
  one of its runs is terminal.\<close>

theorem batch_terminal_iff_runs_terminal:
  assumes "cs \<noteq> []"
  shows "isTerminalBatchStatus (aggregateBatchStatus cs termination) \<longleftrightarrow>
    (\<forall>c\<in>set cs. isTerminalRunStatus (brc_status c))"
  using assms by (rule aggregateBatchStatus_terminal)

theorem batch_terminal_iff_runs_terminal_witness:
  "isTerminalBatchStatus (aggregateBatchStatus
     [\<lparr>brc_status = R_Failed, brc_reason = Some ''LEASE_EXPIRED''\<rparr>] False)"
  using batch_terminal_iff_runs_terminal
    [of "[\<lparr>brc_status = R_Failed, brc_reason = Some ''LEASE_EXPIRED''\<rparr>]" False]
  by simp

text \<open>C22: the aggregation in SQL, existence queries and the distinct failure codes, computes the
  aggregation of the domain over the runs of the batch.\<close>

theorem stored_aggregation_is_aggregation:
  assumes "batch_completions s b \<noteq> []"
  shows "aggregateStoredBatchStatus s b termination =
    aggregateBatchStatus (batch_completions s b) termination"
  using assms by (rule aggregateStored_eq)

theorem stored_aggregation_is_aggregation_witness:
  "aggregateStoredBatchStatus ex_completed ''b'' False =
    aggregateBatchStatus (batch_completions ex_completed ''b'') False"
proof -
  have "batch_completions ex_completed ''b'' \<noteq> []" by code_simp
  then show ?thesis by (rule stored_aggregation_is_aggregation)
qed

text \<open>C23: a finished attempt puts its run back into the queue only when it failed or timed out, no
  cancellation or termination is under way, and the budget is not used up: two reschedules for faults
  of the runner, the retry limit of the batch for failures of the test.\<close>

theorem retries_stay_within_budget:
  assumes "fst (outcomeAfterCompletion i) = R_Queued"
    "ci_runner_failures_before i = Some nr" "ci_ordinary_failures_before i = Some nf"
  shows "ci_outcome i \<in> {Failed, Timed_Out} \<and> \<not> ci_cancellation_requested i
    \<and> \<not> ci_retry_suppressed i
    \<and> (if ci_retryable_runner_failure i then nr < 2 else nf < ci_retry_limit i)"
  using outcomeAfterCompletion_queued [OF assms(1)] outcomeAfterCompletion_budget [OF assms] by blast

theorem retries_stay_within_budget_witness:
  "(1::int) < ci_retry_limit \<lparr>ci_outcome = Failed, ci_attempt_number = 2, ci_retry_limit = 3,
     ci_cancellation_requested = False, ci_retryable_runner_failure = False,
     ci_runner_failures_before = Some 0, ci_ordinary_failures_before = Some 1,
     ci_retry_suppressed = False\<rparr>"
proof -
  let ?i = "\<lparr>ci_outcome = Failed, ci_attempt_number = 2, ci_retry_limit = 3,
     ci_cancellation_requested = False, ci_retryable_runner_failure = False,
     ci_runner_failures_before = Some 0, ci_ordinary_failures_before = Some 1,
     ci_retry_suppressed = False\<rparr>"
  have "fst (outcomeAfterCompletion ?i) = R_Queued" by code_simp
  from retries_stay_within_budget [OF this, of 0 1] show ?thesis by simp
qed

text \<open>\<open>outcomeAfterCompletion\<close> never leaves a run assigned or running, and announces a retry
  exactly when the run is queued again.\<close>

theorem completion_decides_run:
  "fst (outcomeAfterCompletion i) \<in> {R_Queued, R_Succeeded, R_Failed, R_Cancelled} \<and>
   (snd (outcomeAfterCompletion i) \<longleftrightarrow> fst (outcomeAfterCompletion i) = R_Queued)"
  using outcomeAfterCompletion_status outcomeAfterCompletion_retry by blast

text \<open>Every sequence of allowed transitions of an assignment has at most three steps, of an attempt
  at most two and of a lease at most one, so none of them can cycle.\<close>

theorem transitions_terminate:
  "(successively (\<lambda>a b. b \<in> set (assignmentTransitions a)) (x # xs) \<longrightarrow> length xs \<le> 3) \<and>
   (successively (\<lambda>a b. b \<in> set (attemptTransitions a)) (y # ys) \<longrightarrow> length ys \<le> 2) \<and>
   (successively (\<lambda>a b. b \<in> set (leaseTransitions a)) (z # zs) \<longrightarrow> length zs \<le> 1)"
  using asg_machine.chain_length att_machine.chain_length lease_machine.chain_length by blast

theorem transitions_terminate_witness:
  "length [A_Claimed, A_Running, A_Completed] \<le> 3 \<and> length [T_Running, T_Failed] \<le> 2
     \<and> length [L_Expired] \<le> 1"
  using transitions_terminate [of A_Pending "[A_Claimed, A_Running, A_Completed]"
      T_Assigned "[T_Running, T_Failed]" L_Active "[L_Expired]"]
  by simp

section \<open>Runners and the scheduler\<close>

text \<open>A runner is compatible exactly when it speaks the protocol version, runs on a supported
  platform, has the TestNG executor and, unless it takes the runtime of the project, a supported Java
  and TestNG version.\<close>

theorem compatibility_is_may_execute: "rk_compatible (assessRunnerCompatibility r) \<longleftrightarrow> may_execute r"
  by (rule compatible_may_execute)

text \<open>No two agent versions are each an update of the other.\<close>

theorem agent_updates_do_not_cycle: "\<not> (isAgentUpdateAvailable a b \<and> isAgentUpdateAvailable b a)"
  using agent_update_asym by blast

text \<open>A version with build metadata gets no update within its minor version, although it passes as
  a semantic version: its patch number is read as \<open>NaN\<close>.\<close>

theorem build_metadata_hides_update:
  "semantic_version ''1.2.3+a'' \<and> isAgentUpdateAvailable ''1.2.3'' ''1.2.9''
    \<and> \<not> isAgentUpdateAvailable ''1.2.3+a'' ''1.2.9''"
  by code_simp

text \<open>The scheduler finds a runner eligible, without a reason against it and with a score, exactly
  when it is online, compatible, has a free slot and memory for one more execution, and fresh metrics
  within the thresholds.\<close>

theorem eligibility_is_admission:
  "(el_eligible (evaluateRunnerForScheduling c th f) \<longleftrightarrow> admitted c th f) \<and>
   (el_reasons (evaluateRunnerForScheduling c th f) = [] \<longleftrightarrow> admitted c th f) \<and>
   (el_score (evaluateRunnerForScheduling c th f) \<noteq> None \<longleftrightarrow> admitted c th f)"
  using evaluate_admitted evaluate_reasons evaluate_score by blast

text \<open>The score of an admitted runner lies between 0 and 100.\<close>

theorem scores_are_percentages:
  assumes "admitted c th f" "0 \<le> rn_busy_slots (cd_runner c)"
  shows "0 \<le> schedulingScore c th l \<and> schedulingScore c th l \<le> 100"
  using score_bounds [OF assms] by blast

theorem scores_are_percentages_witness:
  "0 \<le> schedulingScore ex_candidate (ru_thresholds ex_reserve) 0
    \<and> schedulingScore ex_candidate (ru_thresholds ex_reserve) 0 \<le> 100"
proof -
  have "el_eligible (evaluateRunnerForScheduling ex_candidate (ru_thresholds ex_reserve) 0)" by code_simp
  then have "admitted ex_candidate (ru_thresholds ex_reserve) 0" by (simp add: evaluate_admitted)
  moreover have "0 \<le> rn_busy_slots (cd_runner ex_candidate)" by code_simp
  ultimately show ?thesis by (rule scores_are_percentages)
qed

text \<open>C24: a plan decides every run once or leaves it over, in the order of the runs, and decides at
  most as many as the limit of assignments.\<close>

theorem plan_partitions_runs:
  "mset (map dc_run_id (pl_decisions (scheduleExecutionRuns i))) +
     mset (pl_unassigned (scheduleExecutionRuns i)) = mset (map er_id (si_runs i)) \<and>
   subseq (map dc_run_id (pl_decisions (scheduleExecutionRuns i))) (map er_id (si_runs i)) \<and>
   (case si_max_assignments i of None \<Rightarrow> True
    | Some m \<Rightarrow> int (length (pl_decisions (scheduleExecutionRuns i))) \<le> max 0 m)"
proof -
  obtain ds us cs where l: "schedule_loop i (si_runs i) 0 (si_candidates i) = (ds, us, cs)"
    by (metis prod_cases3)
  show ?thesis
    using schedule_loop_partition [OF l] schedule_loop_subseq [OF l] schedule_loop_limit [OF l]
    by (simp add: scheduleExecutionRuns_def l split: option.split)
qed

text \<open>A plan gives no runner more runs than its free slots and its memory admit, and none to a
  runner that is not admitted.\<close>

theorem plan_respects_runners:
  assumes "distinct (map (rn_id \<circ> cd_runner) (si_candidates i))" "k < length (si_candidates i)"
  shows "int (runner_count (rn_id (cd_runner (si_candidates i ! k)))
      (pl_decisions (scheduleExecutionRuns i))) \<le> room i (si_candidates i ! k)"
proof -
  obtain ds us cs where l: "schedule_loop i (si_runs i) 0 (si_candidates i) = (ds, us, cs)"
    by (metis prod_cases3)
  show ?thesis using schedule_loop_room [OF l assms] by (simp add: scheduleExecutionRuns_def l)
qed

theorem plan_respects_runners_witness:
  "int (runner_count (rn_id (cd_runner (si_candidates ex_plan ! 0)))
     (pl_decisions (scheduleExecutionRuns ex_plan))) \<le> room ex_plan (si_candidates ex_plan ! 0)"
  by (rule plan_respects_runners) (simp_all add: ex_plan_def)

text \<open>The runner chosen for a run is admitted, its score is the one of its evaluation, and it is a
  runner the run excludes only when every admitted runner is excluded; no runner is chosen only when
  none is admitted.\<close>

theorem choice_is_good:
  "(case select_candidate i runId cs of
      Some (k, s) \<Rightarrow> good_choice i runId cs k s
    | None \<Rightarrow> list_all (\<lambda>c. \<not> admitted c (si_thresholds i) (si_fresh_after i)) cs)"
proof (cases "select_candidate i runId cs")
  case None
  then show ?thesis using select_candidate_None [OF None] by (simp add: list_all_iff)
next
  case (Some p)
  then show ?thesis using select_candidate_good [of i runId cs "fst p" "snd p"] by (cases p) simp
qed

text \<open>The retries of a run with an adapter rotate through the pool: its first attempts, one for
  each address, are made on every address.\<close>

theorem retries_cover_environments:
  assumes "initial_address rt k \<in> set (pr_addresses rt)"
  shows "set (map (adapterEnvironmentAddress rt k) [1..int (length (pr_addresses rt))]) =
    set (pr_addresses rt)"
  by (rule rotation_covers [OF assms])

theorem retries_cover_environments_witness:
  "set (map (adapterEnvironmentAddress ex_runtime ''r1'') [1..3]) = {''a'', ''b'', ''c''}"
  using retries_cover_environments [of ex_runtime "''r1''"]
  by (simp add: ex_runtime_def initial_address_def insert_commute)

text \<open>The disk an attempt with an adapter may use is eight times its inputs, at least the default
  of ten gibibytes and at most ten tebibytes, and larger inputs are refused.\<close>

theorem disk_limit_bounds:
  assumes "executionResourceLimitsForInputs sizes True = Inr limits"
  shows "xl_disk_bytes limits = max 10737418240 (min 10995116277760 (8 * sum_list sizes)) \<and>
    sum_list sizes \<le> 10995116277760"
  using resource_limits_bounds [OF assms] by simp

theorem disk_limit_bounds_witness:
  "\<exists>limits. executionResourceLimitsForInputs [2000000000, 1] True = Inr limits
     \<and> xl_disk_bytes limits = 16000000008"
proof -
  obtain limits where l: "executionResourceLimitsForInputs [2000000000, 1] True = Inr limits"
    by (cases "executionResourceLimitsForInputs [2000000000, 1] True") (code_simp, simp)
  from disk_limit_bounds [OF l] l show ?thesis by auto
qed

section \<open>Logs\<close>



text \<open>The acknowledged sequence of a log stream never goes back, every sequence it newly
  acknowledges is stored, and the next one is not: an agent may drop exactly what it is told to.\<close>

theorem watermarks_are_contiguous:
  assumes "log_ok lg"
  shows "acknowledgedSequence lg b a st \<le> fst (advanceWatermark lg b a st now) \<and>
    {acknowledgedSequence lg b a st <.. fst (advanceWatermark lg b a st now)}
      \<subseteq> set (chunk_sequences lg b a st) \<and>
    fst (advanceWatermark lg b a st now) + 1 \<notin> set (chunk_sequences lg b a st)"
  using advanceWatermark_contiguous [OF log_ok_sequences [OF assms]] by auto

theorem watermarks_are_contiguous_witness:
  "fst (advanceWatermark ex_logs ''b'' ''t1'' Stdout 9) = 1
     \<and> 2 \<notin> set (chunk_sequences ex_logs ''b'' ''t1'' Stdout)"
proof -
  have "log_ok ex_logs" by code_simp
  moreover have "fst (advanceWatermark ex_logs ''b'' ''t1'' Stdout 9) = 1" by code_simp
  ultimately show ?thesis
    using watermarks_are_contiguous [of ex_logs "''b''" "''t1''" Stdout 9] by simp
qed

text \<open>C26: reading a page of a log ends, and its items are the first matching rows after the given
  sequence, at most the limit; it says that there is more exactly when a matching row is left. Only a
  search may fail instead, with the error of a query that is too broad.\<close>

theorem log_pages_are_prefixes:
  assumes "sorted_wrt (\<lambda>a b. ch_sequence a < ch_sequence b) rows" "length rows < fuel"
  shows "\<exists>res. readAttemptLogPage fuel query after limit (reader rows) = Some res \<and>
    page_ok query (nat (max 1 (min limit 500))) [] (filter (\<lambda>r. after < ch_sequence r) rows) res"
  by (rule readAttemptLogPage_correct [OF assms])

theorem log_pages_are_prefixes_witness:
  "\<exists>res. readAttemptLogPage 3 None (-1) 1 (reader [ex_log_chunk 0, ex_log_chunk 1]) = Some res \<and>
     page_ok None 1 [] [ex_log_chunk 0, ex_log_chunk 1] res"
  using log_pages_are_prefixes [of "[ex_log_chunk 0, ex_log_chunk 1]" 3 None "-1" 1]
  by (simp add: ex_log_chunk_def)

text \<open>A waiting write of the log codec is served after at most the configured number of reads,
  whatever else is queued.\<close>

theorem writes_are_not_starved:
  assumes "sc_writes sc = w # ws" "maxReads - sc_consecutive_reads sc < n"
  shows "w \<in> set (serve maxReads n sc)"
  by (rule write_not_starved [OF assms])

theorem writes_are_not_starved_witness:
  "9 \<in> set (serve 2 3 \<lparr>sc_active = 0, sc_consecutive_reads = 0, sc_reads = [1, 2, 3, 4],
     sc_writes = [9]\<rparr>)"
  by (rule writes_are_not_starved) simp_all

text \<open>Splitting a list into chunks loses nothing and keeps the order; no chunk is empty or longer
  than the size, and there are as few as possible.\<close>

theorem chunks_concatenate:
  assumes "0 < n"
  shows "concat (splitIntoChunks xs n) = xs \<and>
    list_all (\<lambda>c. c \<noteq> [] \<and> length c \<le> n) (splitIntoChunks xs n) \<and>
    length (splitIntoChunks xs n) = (length xs + n - 1) div n"
  unfolding list_all_iff
  by (intro conjI ballI splitIntoChunks_concat splitIntoChunks_count assms splitIntoChunks_sizes
      [THEN conjunct1] splitIntoChunks_sizes [THEN conjunct2])

theorem chunks_concatenate_witness:
  "concat (splitIntoChunks [1, 2, 3, 4, 5 :: int] 2) = [1, 2, 3, 4, 5]"
  using chunks_concatenate [of 2 "[1, 2, 3, 4, 5 :: int]"] by simp

text \<open>A run that is put back into the queue has a deadline exactly when it is not held for its
  next round, and only a failure of the test in a batch that retries in rounds is held.\<close>

theorem retries_have_deadlines:
  assumes "0 \<le> rnd"
  shows "qt_queue_deadline_at (retryQueueTiming R_Queued mode infra rnd t q) =
      (if mode = Round \<and> \<not> infra then None else Some (t + q)) \<and>
    qt_held_round (retryQueueTiming R_Queued mode infra rnd t q) =
      (if mode = Round \<and> \<not> infra then rnd + 1 else 0)"
  using assms by (auto simp: retryQueueTiming_def Let_def queueDeadlineAfter_def)

theorem retries_have_deadlines_witness:
  "qt_held_round (retryQueueTiming R_Queued Round False 1 100 60) = 2"
  using retries_have_deadlines [of 1 Round False 100 60] by simp

section \<open>Credentials, schedules, summaries and case sources\<close>

text \<open>C27: with its set of visited rules and its memo table, the search for the key of a rule finds
  exactly the key the chain of references leads to; a chain that closes has none.\<close>

theorem credentials_follow_references:
  assumes "r \<in> set rules" "distinct (map ri_id rules)"
  shows "(\<exists>m. resolve e suite rules r {} Map.empty = Inr (c, m)) \<longleftrightarrow> (\<exists>n. credential_of e suite rules r n c)"
  by (rule resolve_iff [OF assms memo_sound_empty])

theorem credentials_follow_references_witness:
  "\<exists>n. credential_of ex_credentials ex_suite ex_rules (hd ex_rules) n ''u:t''"
proof -
  have "\<exists>m. resolve ex_credentials ex_suite ex_rules (hd ex_rules) {} Map.empty = Inr (''u:t'', m)"
    by (simp add: ex_rules_def ex_rule_input_def resolve.simps ex_suite_def draft_rule_def
        assertJenkinsCredential_def index_of_def ex_credentials_def assertSameJenkinsOrigin_def)
  moreover have "hd ex_rules \<in> set ex_rules" "distinct (map ri_id ex_rules)"
    by (simp_all add: ex_rules_def ex_rule_input_def)
  ultimately show ?thesis using credentials_follow_references by blast
qed

text \<open>What is saved for a rule of a draft decrypts to the key its chain of references leads to, for
  any cipher whose decryption undoes its encryption.\<close>

theorem saved_credentials_decrypt:
  assumes "\<And>c p. ce_decrypt e (ce_encrypt e c p) p = Inr c"
    "prepare_credentials e suite rules = Inr saved" "distinct (map ri_id rules)" "r \<in> set rules"
    "saved (ri_id r) = Some x"
  shows "\<exists>n c. credential_of e suite rules r n c \<and>
    ce_decrypt e x (secretPurpose (su_id suite) (ri_id r)) = Inr c"
  using prepare_saves [OF assms(2-4)] assms(1,5) by (auto split: if_splits)

theorem saved_credentials_decrypt_witness:
  "\<exists>saved x. prepare_credentials ex_credentials ex_suite ex_rules = Inr saved \<and> saved ''A'' = Some x \<and>
     (\<exists>n c. credential_of ex_credentials ex_suite ex_rules (hd ex_rules) n c \<and>
        ce_decrypt ex_credentials x (secretPurpose ''s'' ''A'') = Inr c)"
proof -
  obtain saved x where saved: "prepare_credentials ex_credentials ex_suite ex_rules = Inr saved"
      "saved ''A'' = Some x"
    by (simp add: ex_rules_def ex_rule_input_def resolve.simps ex_suite_def draft_rule_def
        assertJenkinsCredential_def index_of_def ex_credentials_def assertSameJenkinsOrigin_def
        prepare_credentials_def requireCipher_def)
  have law: "ce_decrypt ex_credentials (ce_encrypt ex_credentials c p) p = Inr c" for c p
    by (simp add: ex_credentials_def)
  have "distinct (map ri_id ex_rules)" "hd ex_rules \<in> set ex_rules" "ri_id (hd ex_rules) = ''A''"
    "su_id ex_suite = ''s''" by (simp_all add: ex_rules_def ex_rule_input_def ex_suite_def)
  then show ?thesis
    using saved_credentials_decrypt [OF law saved(1), of "hd ex_rules" x] saved by auto
qed

text \<open>C28: the next occurrence of a cron expression is the first full minute after the given time that
  matches its fields in the time zone, at most 366 days later.\<close>

theorem next_occurrence_is_first_match:
  assumes "nextCronOccurrence zones e z after = Inr t"
  shows "\<exists>p cal. parseCronExpression e = Inr p \<and> zones z = Some cal \<and>
    after < t \<and> t \<le> after + 366 * 24 * 60 * 60000 \<and> 60000 dvd t \<and> schedule_matches p (cal t) \<and>
    (\<forall>u. after < u \<and> u < t \<and> 60000 dvd u \<longrightarrow> \<not> schedule_matches p (cal u))"
proof -
  show ?thesis
  proof (rule nextCronOccurrence_Inr [OF assms])
    fix p cal
    assume "parseCronExpression e = Inr p" "zones z = Some cal" "after < t"
      "t \<le> after + MAXIMUM_SEARCH_MINUTES * 60000" "60000 dvd t" "schedule_matches p (cal t)"
      "\<And>u. after < u \<Longrightarrow> u < t \<Longrightarrow> 60000 dvd u \<Longrightarrow> \<not> schedule_matches p (cal u)"
    then show ?thesis
      by (intro exI [of _ p] exI [of _ cal]) (simp add: MAXIMUM_SEARCH_MINUTES_def)
  qed
qed

theorem next_occurrence_is_first_match_witness:
  "\<exists>p. parseCronExpression ''*/3 * * * *'' = Inr p \<and> nextCronOccurrence ex_zones ''*/3 * * * *'' ''UTC'' 1 = Inr 180000 \<and>
     \<not> schedule_matches p (the (ex_zones ''UTC'') 60000)"
proof -
  have n: "nextCronOccurrence ex_zones ''*/3 * * * *'' ''UTC'' 1 = Inr 180000" by code_simp
  from next_occurrence_is_first_match [OF n] obtain p cal where
    p: "parseCronExpression ''*/3 * * * *'' = Inr p" "ex_zones ''UTC'' = Some cal"
      "\<And>u. 1 < u \<Longrightarrow> u < 180000 \<Longrightarrow> 60000 dvd u \<Longrightarrow> \<not> schedule_matches p (cal u)"
    by blast
  then show ?thesis using n p(3) [of 60000] by auto
qed

text \<open>The alias 7 of Sunday is replaced before the bounds of a range are compared, so a range that
  ends on it is cut to Sunday alone or rejected.\<close>

theorem sunday_alias_breaks_ranges:
  "parseField ''7'' 0 6 True = Inr [0] \<and> parseField ''0-7'' 0 6 True = Inr [0] \<and>
   parseField ''1-7'' 0 6 True = invalidCron \<and> parseField ''1-6'' 0 6 True \<noteq> invalidCron"
  by code_simp

text \<open>The count of passed runs after the last round is the one of the final summary, when no run is
  attempted again after a success; the final counts add up to the number of runs.\<close>

theorem rounds_and_final_summary_agree:
  assumes "stored_runs runs attempts" "success_is_last attempts"
  shows "sm_overall_passed (last (summarizeRunBatchRounds b runs attempts)) =
      al_passed (summarizeRunBatchFinalResults b runs attempts) \<and>
    al_passed (summarizeRunBatchFinalResults b runs attempts) +
      al_failed (summarizeRunBatchFinalResults b runs attempts) +
      al_timed_out (summarizeRunBatchFinalResults b runs attempts) +
      al_cancelled (summarizeRunBatchFinalResults b runs attempts) +
      al_not_executed (summarizeRunBatchFinalResults b runs attempts) = int (length runs)"
  using overall_is_final [OF assms] final_partition [of attempts runs]
  by (simp add: summarizeRunBatchFinalResults_def Let_def)

theorem rounds_and_final_summary_agree_witness:
  "sm_overall_passed (last (summarizeRunBatchRounds ex_summary_batch [ex_execution ''r1'', ex_execution ''r2''] ex_attempts)) =
     al_passed (summarizeRunBatchFinalResults ex_summary_batch [ex_execution ''r1'', ex_execution ''r2''] ex_attempts)"
proof -
  have "stored_runs [ex_execution ''r1'', ex_execution ''r2''] ex_attempts"
    by (simp add: stored_runs_def ex_execution_def ex_attempts_def ex_done_def)
  moreover have "success_is_last ex_attempts"
    by (simp add: success_is_last_def ex_attempts_def ex_done_def succeeded_def runAttemptOutcome_def)
  ultimately show ?thesis using rounds_and_final_summary_agree by blast
qed



section \<open>The job queue\<close>

text \<open>C30: whatever sequence of operations runs on a job queue, keys stay unique, a job is leased
  exactly when it has an owner and an expiry, an available job has deliveries left, no job vanishes
  and a completed job is never touched again.\<close>

theorem queue_operations_keep_jobs:
  assumes "queue_step\<^sup>*\<^sup>* q q'" "queue_ok q"
  shows "queue_ok q' \<and> keeps_jobs q q'"
  by (rule queue_steps_ok [OF assms])

theorem queue_operations_keep_jobs_witness: "queue_ok ex_queue_leased"
proof -
  have "queue_step [] ex_queue_published"
    unfolding ex_queue_published_def by (rule queue_step.publish [OF surjective_pairing])
  moreover have "queue_step ex_queue_published ex_queue_leased"
    unfolding ex_queue_leased_def by (rule queue_step.claim [OF surjective_pairing])
  ultimately have "queue_step\<^sup>*\<^sup>* [] ex_queue_leased" by (meson rtranclp.simps)
  then show ?thesis using queue_operations_keep_jobs [of "[]"] by (simp add: queue_ok_def)
qed

text \<open>C31: a delivery belongs to its worker until its lease is over: whatever the others do in
  between, the job stays leased to it and no claim returns the delivery again.\<close>

theorem queue_deliveries_are_exclusive:
  assumes "queue_ok q" "claim_queue i q = (Inr cs, q1)" "c \<in> set cs"
    "(foreign_step (cj_worker_id i) (cd_delivery_id c) (cj_lease_expires_at i))\<^sup>*\<^sup>* q1 q2"
  shows "(\<exists>j\<in>set q2. holds_lease (cj_worker_id i) (cd_delivery_id c) (cj_lease_expires_at i) j) \<and>
    (\<forall>k ds q3 d. claim_queue k q2 = (Inr ds, q3) \<and> cj_now k < cj_lease_expires_at i \<and> d \<in> set ds \<longrightarrow>
       cd_delivery_id d \<noteq> cd_delivery_id c)"
  by (rule deliveries_exclusive [OF assms])

theorem queue_deliveries_are_exclusive_witness:
  "\<exists>j\<in>set (snd (claim_queue (ex_claim_job ''v'' 20) ex_queue_leased)). holds_lease ''w'' ''m1'' 40 j"
proof -
  have ok: "queue_ok ex_queue_published" unfolding queue_ok_def job_ok_def by code_simp
  have "claim_queue (ex_claim_job ''w'' 10) ex_queue_published = (Inr [ex_delivery], ex_queue_leased)"
    by code_simp
  moreover have "cd_delivery_id ex_delivery = ''m1''" by code_simp
  moreover have "cj_worker_id (ex_claim_job ''w'' 10) = ''w''" "cj_lease_expires_at (ex_claim_job ''w'' 10) = 40"
    "cj_now (ex_claim_job ''v'' 20) < 40" by (simp_all add: ex_claim_job_def)
  moreover have "foreign_step ''w'' ''m1'' 40 ex_queue_leased
      (snd (claim_queue (ex_claim_job ''v'' 20) ex_queue_leased))"
    by (rule foreign_step.foreign_claim [OF surjective_pairing]) fact
  ultimately show ?thesis
    using queue_deliveries_are_exclusive [OF ok, of "ex_claim_job ''w'' 10" "[ex_delivery]" ex_queue_leased
        ex_delivery "snd (claim_queue (ex_claim_job ''v'' 20) ex_queue_leased)"] by auto
qed



section \<open>Identity and access\<close>

text \<open>
  Requests of the identity service, each a sequence of calls of the repository with other processes in
  between, which use its operations too (\<open>env_steps\<close>).
\<close>

text \<open>C33: the tables of users, roles, bindings, sessions, external identities and projects stay well
  formed, whatever is requested and whatever other processes do: keys are unique and references
  resolve.\<close>

theorem identity_tables_stay_well_formed:
  assumes "(id_request e)\<^sup>*\<^sup>* w w'" "env_steps e" "id_ok (wd_store w)"
  shows "id_ok (wd_store w')"
  by (rule tables.steps [OF requests_steps [OF assms(1,2)] assms(3)])

lemma ex_identity_env_steps: "env_steps ex_identity_env"
  by (simp add: env_steps_def ex_identity_env_def)

lemma ex_identity_ok: "id_ok (wd_store ex_id_world)"
  by code_simp

lemma ex_identity_administered: "administered (wd_store ex_id_world)"
  by code_simp

theorem identity_tables_stay_well_formed_witness:
  "id_ok (wd_store (snd (svc_createProject ex_identity_env ex_root ''P'' ''p'' ex_id_world)))"
  by (rule identity_tables_stay_well_formed [OF _ ex_identity_env_steps ex_identity_ok])
    (blast intro: id_request.intros)

text \<open>C34: once an administrator exists, the built-in roles stay as the program defines them and some
  active user keeps the permissions to manage users and roles, whatever is requested: the last
  administrator can be neither disabled nor deprived of its role, nor can the role be emptied.\<close>

theorem administrators_survive:
  assumes "(id_request e)\<^sup>*\<^sup>* w w'" "env_steps e" "administered (wd_store w)"
  shows "installed (wd_store w') \<and> 0 < countRecoveryAdministrators (wd_store w')"
  using administration.steps [OF requests_steps [OF assms(1,2)] assms(3)]
  by (simp add: administered_def recoverable_def)

theorem administrators_survive_witness:
  "0 < countRecoveryAdministrators
     (wd_store (snd (svc_removeSystemRole ex_identity_env ex_root ''u'' SYSTEM_ADMIN_ROLE_ID ex_id_world)))"
  using administrators_survive [OF r_into_rtranclp [of "id_request ex_identity_env"] ex_identity_env_steps
      ex_identity_administered] id_request.intros(17) by blast

text \<open>C35: a change of the rights or of the password of a user that has returned has ended every
  earlier session of the user for good, whatever operations follow.\<close>

theorem rights_changes_end_sessions:
  assumes "env_steps e" "id_ok (wd_store w)" "session_known h u (wd_store w)"
  shows "(svc_updateUserStatus e a u User_Disabled w = (Inr v, w') \<longrightarrow> session_ended h w') \<and>
    (svc_resetPassword e a u p f w = (Inr v, w') \<longrightarrow> session_ended h w') \<and>
    (svc_assignSystemRole e a u k w = (Inr x, w') \<longrightarrow> session_ended h w') \<and>
    (svc_assignProjectRole e a u j k w = (Inr x, w') \<longrightarrow> session_ended h w') \<and>
    (svc_removeSystemRole e a u k w = (Inr x, w') \<longrightarrow> session_ended h w') \<and>
    (svc_removeProjectRole e a u j k w = (Inr x, w') \<longrightarrow> session_ended h w') \<and>
    (ur_id (ai_user a) = u \<and> svc_changePassword e a p q w = (Inr x, w') \<longrightarrow> session_ended h w')"
  by (intro conjI impI; (elim conjE)?; (rule rights_changes [OF assms]; assumption))

theorem rights_changes_end_sessions_witness:
  "session_ended ''#t'' (snd (svc_resetPassword ex_identity_env ex_root ''u'' ''new'' False ex_id_world))"
proof -
  have "case fst (svc_resetPassword ex_identity_env ex_root ''u'' ''new'' False ex_id_world) of Inr r \<Rightarrow> True | _ \<Rightarrow> False"
    by code_simp
  then obtain r where "fst (svc_resetPassword ex_identity_env ex_root ''u'' ''new'' False ex_id_world) = Inr r"
    by (auto split: sum.splits)
  then have "svc_resetPassword ex_identity_env ex_root ''u'' ''new'' False ex_id_world =
      (Inr r, snd (svc_resetPassword ex_identity_env ex_root ''u'' ''new'' False ex_id_world))"
    by (metis prod.collapse)
  moreover have "session_known ''#t'' ''u'' (wd_store ex_id_world)" by code_simp
  ultimately show ?thesis
    using rights_changes_end_sessions [OF ex_identity_env_steps ex_identity_ok] by blast
qed

text \<open>C36: a session that is resolved belongs to an active user, is neither revoked nor over, and
  carries in each project exactly the permissions that the bindings of the user grant; the list of
  projects of a permission agrees with the question for one project.\<close>

theorem sessions_carry_granted_permissions:
  assumes "resolveSession h now s = Some i"
  shows "ur_status (ai_user i) = User_Active \<and>
    (\<exists>x\<in>set (is_sessions s). sw_token_hash x = h \<and> sw_id x = ai_session_id i \<and>
      sw_user_id x = ur_id (ai_user i) \<and> sw_revoked_at x = None \<and> now < sw_expires_at x) \<and>
    (\<forall>k p. k \<noteq> [] \<longrightarrow> hasPermission i p (Some k) = granted s (ur_id (ai_user i)) p k \<and>
      hasPermission i p (Some k) =
        (case projectIdsForPermission i p of None \<Rightarrow> True | Some ks \<Rightarrow> k \<in> set ks))"
  using resolved_session_valid [OF assms] resolved_session_permissions [OF assms] by blast

theorem sessions_carry_granted_permissions_witness:
  "hasPermission ex_root ''case.read'' (Some DEFAULT_PROJECT_ID) =
     granted (wd_store ex_id_world) ''u'' ''case.read'' DEFAULT_PROJECT_ID"
proof -
  have "resolveSession ''#t'' 10 (wd_store ex_id_world) = Some ex_root" "ur_id (ai_user ex_root) = ''u''"
    "DEFAULT_PROJECT_ID \<noteq> []" by code_simp+
  then show ?thesis using sessions_carry_granted_permissions [of "''#t''" 10 "wd_store ex_id_world" ex_root] by simp
qed

text \<open>C37: whoever logs in had, when the account was read, an active local account that is not locked
  and the right password, or the enabled directory has accepted the name and the password and the name
  was not the one of a disabled or a local account.\<close>

theorem logins_are_authenticated:
  assumes "login e username password w = (Inr r, w')"
  defines "account \<equiv> findUserByUsername (normalizeUsername username) (seen e w)"
  shows "(\<exists>u h. account = Some (u, h) \<and> ur_source u = Local_Source \<and> ur_status u = User_Active \<and>
      \<not> isLocked (ur_locked_until u) (ie_now e (Suc (wd_calls w))) \<and>
      ie_password_verify e password (stored_hash (Some (u, h)))) \<or>
    (\<forall>u h. account = Some (u, h) \<longrightarrow> ur_source u = Ldap_Source \<and> ur_status u = User_Active) \<and>
    (\<exists>c d i. getLdapConfiguration (seen e (after_read e w)) = Some c \<and> lc_enabled c \<and>
      directoryConfiguration e c = Inr d \<and>
      ie_authenticate e (Suc (Suc (wd_calls w))) d username password = Inr i)"
  unfolding account_def by (rule login_sound [OF assms(1)])

theorem logins_are_authenticated_witness:
  "\<exists>u h. findUserByUsername (normalizeUsername ''Root'') (seen ex_identity_env ex_id_world) = Some (u, h) \<and>
     ie_password_verify ex_identity_env ''pw'' (stored_hash (Some (u, h)))"
proof -
  have "case fst (login ex_identity_env ''Root'' ''pw'' ex_id_world) of Inr r \<Rightarrow> True | _ \<Rightarrow> False" by code_simp
  then obtain r where "fst (login ex_identity_env ''Root'' ''pw'' ex_id_world) = Inr r" by (auto split: sum.splits)
  then have "login ex_identity_env ''Root'' ''pw'' ex_id_world = (Inr r, snd (login ex_identity_env ''Root'' ''pw'' ex_id_world))"
    by (metis prod.collapse)
  from logins_are_authenticated [OF this] show ?thesis
    by (auto simp: seen_def after_read_def ex_identity_env_def ex_id_world_def ex_fresh_store_def getLdapConfiguration_def)
qed





text \<open>C40: a failed login writes the count that it read before the password was checked and the lock
  that belongs to it: failures at the same time count once, and a lock that another failure has set
  meanwhile is taken off.\<close>

theorem parallel_failures_unlock:
  assumes "ur_source u = Local_Source" "ur_status u = User_Active"
    "x \<in> set (is_users (wd_store (snd (record_failure e (Some (u, h)) now w))))" "uw_id x = ur_id u"
  shows "uw_failed_login_attempts x = ur_failed_login_attempts u + 1 \<and>
    (ur_failed_login_attempts u + 1 < MAXIMUM_FAILED_LOGINS \<longrightarrow> uw_locked_until x = None)"
  by (rule stale_failure [OF assms])

theorem parallel_failures_unlock_witness:
  "map_option (\<lambda>c. ur_locked_until (fst c)) (findUserByUsername ''root'' (seen ex_locked_by_others ex_id_world))
     = Some (Some 1000) \<and>
   uw_locked_until (hd (is_users (wd_store (snd
     (record_failure ex_locked_by_others (Some (ai_user ex_root, Some ''hpw'')) 10 ex_id_world))))) = None"
proof
  show "map_option (\<lambda>c. ur_locked_until (fst c)) (findUserByUsername ''root'' (seen ex_locked_by_others ex_id_world))
      = Some (Some 1000)" by code_simp
  let ?us = "is_users (wd_store (snd (record_failure ex_locked_by_others (Some (ai_user ex_root, Some ''hpw'')) 10 ex_id_world)))"
  have "map uw_id ?us = [''u'']" by code_simp
  then have "hd ?us \<in> set ?us" "uw_id (hd ?us) = ''u''" by auto
  moreover have "ur_source (ai_user ex_root) = Local_Source" "ur_status (ai_user ex_root) = User_Active"
    "ur_id (ai_user ex_root) = ''u''" "ur_failed_login_attempts (ai_user ex_root) + 1 < MAXIMUM_FAILED_LOGINS"
    by code_simp+
  ultimately show "uw_locked_until (hd ?us) = None"
    using parallel_failures_unlock [of "ai_user ex_root" "hd ?us"] by simp
qed

end
